(* ===== verification/Prelude.thy ===== *)
theory Prelude
  imports Main "HOL-Library.Word" "HOL-Library.AList"
begin

text \<open>
  Shared ground of the development: names for the machine types of the Rust
  sources, the model of the concurrent hash maps (\<open>DashMap\<close>/\<open>HashMap\<close>) as
  association lists with distinct keys, and the interface of a deterministic
  state machine with an invariant, which every stateful component interprets.

  A \<open>DashMap\<close> iterates in an unspecified order. The model keeps the entries in a
  list and iterates in the order of that list; no theorem fixes the order, so
  each holds for whatever order the real map uses.
\<close>

unbundle bit_operations_syntax

subsection \<open>Machine types\<close>

type_synonym u8 = "8 word"
type_synonym u16 = "16 word"
type_synonym u32 = "32 word"
type_synonym u64 = "64 word"

text \<open>
  \<open>std::time::Instant\<close> and \<open>std::time::Duration\<close> are nanosecond counts; a clock
  reading is an argument of the operation that takes it. \<open>Instant::duration_since\<close>
  saturates at zero, which is what subtraction on \<^typ>\<open>nat\<close> does.
\<close>

type_synonym instant = nat
type_synonym duration = nat

definition from_secs :: "nat \<Rightarrow> duration" where
  "from_secs n = n * 1000000000"

lemma from_secs_mono [simp]: "from_secs a \<le> from_secs b \<longleftrightarrow> a \<le> b"
  by (simp add: from_secs_def)

lemma from_secs_pos [simp]: "0 < from_secs a \<longleftrightarrow> 0 < a"
  by (simp add: from_secs_def)

text \<open>
  The \<open>f64\<close> operations the sources use, as an argument of the definitions that compute with
  floating-point numbers: no theorem depends on how they round. \<open>f_lit n d\<close> is the literal with
  the value \<open>n/d\<close>, \<open>f_from_secs\<close> is \<open>Duration::from_secs_f64\<close>, \<open>f_of_duration\<close> is
  \<open>as_secs_f64\<close>, \<open>f_to_u32\<close> the saturating cast.
\<close>

record 'f f64_ops =
  f_of_u64 :: "u64 \<Rightarrow> 'f"
  f_lit :: "nat \<Rightarrow> nat \<Rightarrow> 'f"
  f_mul :: "'f \<Rightarrow> 'f \<Rightarrow> 'f"
  f_div :: "'f \<Rightarrow> 'f \<Rightarrow> 'f"
  f_sub :: "'f \<Rightarrow> 'f \<Rightarrow> 'f"
  f_gt :: "'f \<Rightarrow> 'f \<Rightarrow> bool"
  f_min :: "'f \<Rightarrow> 'f \<Rightarrow> 'f"
  f_from_secs :: "'f \<Rightarrow> duration"
  f_add :: "'f \<Rightarrow> 'f \<Rightarrow> 'f"
  f_max :: "'f \<Rightarrow> 'f \<Rightarrow> 'f"
  f_powf :: "'f \<Rightarrow> 'f \<Rightarrow> 'f"
  f_to_u32 :: "'f \<Rightarrow> u32"
  f_of_duration :: "duration \<Rightarrow> 'f"
  f_neg :: "'f \<Rightarrow> 'f"
  f_ge :: "'f \<Rightarrow> 'f \<Rightarrow> bool"

named_theorems dmap \<open>laws of the association-list model of the hash maps\<close>

subsection \<open>Hash maps\<close>

type_synonym ('k, 'v) dmap = "('k \<times> 'v) list"

definition dm_ok :: "('k, 'v) dmap \<Rightarrow> bool" where
  "dm_ok m \<longleftrightarrow> distinct (map fst m)"

definition dm_contains :: "('k, 'v) dmap \<Rightarrow> 'k \<Rightarrow> bool" where
  "dm_contains m k \<longleftrightarrow> k \<in> set (map fst m)"

definition dm_insert :: "'k \<Rightarrow> 'v \<Rightarrow> ('k, 'v) dmap \<Rightarrow> ('k, 'v) dmap" where
  "dm_insert k v m = AList.update k v m"

definition dm_remove :: "'k \<Rightarrow> ('k, 'v) dmap \<Rightarrow> ('k, 'v) dmap" where
  "dm_remove k m = AList.delete k m"

definition dm_retain :: "('k \<Rightarrow> 'v \<Rightarrow> bool) \<Rightarrow> ('k, 'v) dmap \<Rightarrow> ('k, 'v) dmap" where
  "dm_retain P m = filter (\<lambda>(k, v). P k v) m"

text \<open>\<open>entry(k).or_insert_with(f)\<close>: the map with an entry for \<open>k\<close>, and that entry's value.\<close>

definition dm_entry :: "'k \<Rightarrow> 'v \<Rightarrow> ('k, 'v) dmap \<Rightarrow> ('k, 'v) dmap \<times> 'v" where
  "dm_entry k d m = (case map_of m k of Some v \<Rightarrow> (m, v) | None \<Rightarrow> (dm_insert k d m, d))"

lemma dm_contains_map_of: "dm_contains m k \<longleftrightarrow> map_of m k \<noteq> None"
  by (simp add: dm_contains_def map_of_eq_None_iff)

lemma map_of_dm_insert [simp, dmap]:
  "map_of (dm_insert k v m) k' = (if k' = k then Some v else map_of m k')"
  by (simp add: dm_insert_def update_conv')

lemma map_of_dm_remove [simp, dmap]:
  "map_of (dm_remove k m) k' = (if k' = k then None else map_of m k')"
  by (simp add: dm_remove_def delete_conv')

lemma dm_ok_Nil [simp, dmap]: "dm_ok []"
  by (simp add: dm_ok_def)

lemma dm_ok_insert [simp, dmap]: "dm_ok m \<Longrightarrow> dm_ok (dm_insert k v m)"
  by (simp add: dm_ok_def dm_insert_def distinct_update)

lemma dm_ok_remove [simp, dmap]: "dm_ok m \<Longrightarrow> dm_ok (dm_remove k m)"
  by (simp add: dm_ok_def dm_remove_def distinct_delete)

lemma dm_ok_retain [simp, dmap]: "dm_ok m \<Longrightarrow> dm_ok (dm_retain P m)"
  by (auto simp: dm_ok_def dm_retain_def intro: distinct_map_filter)

lemma map_of_dm_retain:
  "dm_ok m \<Longrightarrow>
   map_of (dm_retain P m) k =
     (case map_of m k of Some v \<Rightarrow> if P k v then Some v else None | None \<Rightarrow> None)"
  by (induction m) (auto simp: dm_retain_def dm_ok_def map_of_eq_None_iff split: option.splits)

lemma length_dm_insert [dmap]:
  "length (dm_insert k v m) = (if dm_contains m k then length m else Suc (length m))"
  by (induction m) (auto simp: dm_insert_def dm_contains_def)

lemma length_dm_remove_le [simp, dmap]: "length (dm_remove k m) \<le> length m"
  by (simp add: dm_remove_def length_delete_le)

lemma length_dm_remove:
  "dm_ok m \<Longrightarrow> length (dm_remove k m) = (if dm_contains m k then length m - 1 else length m)"
proof (induction m)
  case Nil
  then show ?case by (simp add: dm_remove_def dm_contains_def)
next
  case (Cons e m)
  then show ?case
    by (cases m) (auto simp: dm_remove_def dm_contains_def dm_ok_def AList.delete_eq filter_id_conv
        intro!: filter_True)
qed

lemma length_dm_retain_le [simp, dmap]: "length (dm_retain P m) \<le> length m"
  by (simp add: dm_retain_def)

lemma length_dm_retain_leI: "length m \<le> n \<Longrightarrow> length (dm_retain P m) \<le> n"
  by (rule le_trans [OF length_dm_retain_le])

lemma length_dm_remove_leI: "length m \<le> n \<Longrightarrow> length (dm_remove k m) \<le> n"
  by (rule le_trans [OF length_dm_remove_le])

lemma set_dm_remove: "set (dm_remove k m) = {e \<in> set m. fst e \<noteq> k}"
  by (auto simp: dm_remove_def AList.delete_eq)

lemma set_dm_insert: "dm_ok m \<Longrightarrow> set (dm_insert k v m) = insert (k, v) {e \<in> set m. fst e \<noteq> k}"
  by (induction m) (auto simp: dm_insert_def dm_ok_def rev_image_eqI)

lemma dm_contains_insert [simp, dmap]: "dm_contains (dm_insert k v m) k' \<longleftrightarrow> k' = k \<or> dm_contains m k'"
  by (simp add: dm_contains_map_of)

lemma dm_entry_same [simp]:
  "map_of (fst (dm_entry k d m)) k' =
     (if k' = k then Some (case map_of m k of Some v \<Rightarrow> v | None \<Rightarrow> d) else map_of m k')"
  by (simp add: dm_entry_def split: option.splits)

lemma snd_dm_entry: "snd (dm_entry k d m) = (case map_of m k of Some v \<Rightarrow> v | None \<Rightarrow> d)"
  by (simp add: dm_entry_def split: option.splits)

lemma dm_ok_entry [simp, dmap]: "dm_ok m \<Longrightarrow> dm_ok (fst (dm_entry k d m))"
  by (simp add: dm_entry_def split: option.splits)

subsection \<open>Eviction of the oldest entries\<close>

text \<open>Sort the entries by an age key, remove the first \<open>count\<close> of them from the map.\<close>

definition dm_oldest :: "('v \<Rightarrow> nat) \<Rightarrow> nat \<Rightarrow> ('k, 'v) dmap \<Rightarrow> 'k list" where
  "dm_oldest age count m = map fst (take count (sort_key snd (map (\<lambda>(k, v). (k, age v)) m)))"

definition dm_remove_all :: "'k list \<Rightarrow> ('k, 'v) dmap \<Rightarrow> ('k, 'v) dmap" where
  "dm_remove_all ks m = fold dm_remove ks m"

lemma dm_remove_all_eq: "dm_remove_all ks m = filter (\<lambda>e. fst e \<notin> set ks) m"
  by (induction ks arbitrary: m)
     (auto simp: dm_remove_all_def dm_remove_def AList.delete_eq intro: filter_cong)

lemma dm_ok_remove_all [simp, dmap]: "dm_ok m \<Longrightarrow> dm_ok (dm_remove_all ks m)"
  by (simp add: dm_remove_all_eq dm_ok_def distinct_map_filter)

lemma dm_oldest_facts:
  assumes "dm_ok m"
  shows "distinct (dm_oldest age n m)" "set (dm_oldest age n m) \<subseteq> set (map fst m)"
    "length (dm_oldest age n m) = min n (length m)"
proof -
  let ?s = "sort_key snd (map (\<lambda>(k, v). (k, age v)) m)"
  have "map fst (map (\<lambda>(k, v). (k, age v)) m) = map fst m" (is "map fst ?l = _") by (simp add: case_prod_beta)
  then have dl: "distinct (map fst ?l)" using assms unfolding dm_ok_def by metis
  have "distinct (map fst ?s)" using dl unfolding distinct_map set_sort distinct_sort .
  then show "distinct (dm_oldest age n m)" by (simp add: dm_oldest_def take_map [symmetric] distinct_take)
  show "set (dm_oldest age n m) \<subseteq> set (map fst m)"
    by (force simp: dm_oldest_def dest!: in_set_takeD)
qed (simp add: dm_oldest_def)

lemma length_evict:
  assumes "dm_ok m"
  shows "length (dm_remove_all (dm_oldest age n m) m) = length m - min n (length m)"
proof -
  have "length (filter (\<lambda>e. fst e \<in> set (dm_oldest age n m)) m) = length (dm_oldest age n m)"
  proof -
    let ?f = "filter (\<lambda>e. fst e \<in> set (dm_oldest age n m)) m"
    have "distinct (map fst ?f)" using assms by (simp add: dm_ok_def distinct_map_filter)
    moreover have "set (map fst ?f) = set (dm_oldest age n m)"
      using dm_oldest_facts(2) [OF assms, of age n] by force
    ultimately show ?thesis
      using dm_oldest_facts(1) [OF assms] by (metis distinct_card length_map)
  qed
  moreover have "length (filter (\<lambda>e. fst e \<in> set (dm_oldest age n m)) m)
      + length (filter (\<lambda>e. fst e \<notin> set (dm_oldest age n m)) m) = length m"
    using sum_length_filter_compl [of "\<lambda>e. fst e \<in> set (dm_oldest age n m)" m] by simp
  ultimately show ?thesis by (simp add: dm_remove_all_eq dm_oldest_facts(3) [OF assms])
qed

lemma evict_oldest_first:
  assumes "dm_ok m" and "(k, v) \<in> set m" and "k \<in> set (dm_oldest age n m)"
    and "(k', v') \<in> set (dm_remove_all (dm_oldest age n m) m)"
  shows "age v \<le> age v'"
proof -
  let ?l = "map (\<lambda>(k, v). (k, age v)) m" and ?s = "sort_key snd (map (\<lambda>(k, v). (k, age v)) m)"
  have dist: "distinct (map fst m)" using assms(1) by (simp add: dm_ok_def)
  have srt: "sorted (map snd ?s)" by simp
  have ts: "take n ?s @ drop n ?s = ?s" by simp
  obtain a where a: "(k, a) \<in> set (take n ?s)" using assms(3) by (auto simp: dm_oldest_def)
  then have "(k, a) \<in> set ?l" by (metis in_set_takeD set_sort)
  then have "a = age v" using assms(2) dist by (auto dest: eq_key_imp_eq_value)
  moreover have "(k', age v') \<in> set (drop n ?s)"
  proof -
    have "(k', v') \<in> set m" "k' \<notin> set (dm_oldest age n m)" using assms(4) by (auto simp: dm_remove_all_eq)
    then have "(k', age v') \<in> set ?s" "(k', age v') \<notin> set (take n ?s)" by (force simp: dm_oldest_def)+
    then show ?thesis using ts by (metis Un_iff set_append)
  qed
  ultimately show ?thesis
    using srt a ts by (metis (no_types, lifting) imageI list.set_map map_append snd_conv sorted_append)
qed

subsection \<open>State machines with an invariant\<close>

text \<open>The contract of a component whose operations are steps on a state: every step keeps the
  invariant. Clients get the invariant, and any bound it implies, at the end of every run.\<close>

locale machine =
  fixes step :: "'op \<Rightarrow> 's \<Rightarrow> 's"
    and inv :: "'s \<Rightarrow> bool"
  assumes step_inv: "inv s \<Longrightarrow> inv (step a s)"
begin

lemma run_inv: "inv s \<Longrightarrow> inv (fold step ops s)"
  by (induction ops arbitrary: s) (simp_all add: step_inv)

lemma run_bound: "inv s \<Longrightarrow> (\<And>t. inv t \<Longrightarrow> P t) \<Longrightarrow> P (fold step ops s)"
  using run_inv by blast

lemma run_prefix_inv: "inv s \<Longrightarrow> inv (fold step (take n ops) s)"
  by (rule run_inv)

end

subsection \<open>Codecs\<close>

text \<open>The contract between a writer and a reader of a wire format: the reader accepts exactly the
  encodings of well-formed values and leaves what follows them untouched.\<close>

locale codec =
  fixes enc :: "'a \<Rightarrow> 'b list \<Rightarrow> bool"
    and dec :: "'b list \<Rightarrow> 'e + 'a \<times> 'b list"
    and wf :: "'a \<Rightarrow> bool"
  assumes dec_iff: "dec bs = Inr (x, rest) \<longleftrightarrow> wf x \<and> (\<exists>c. enc x c \<and> bs = c @ rest)"
begin

lemma roundtrip: "wf x \<Longrightarrow> enc x c \<Longrightarrow> dec (c @ rest) = Inr (x, rest)"
  by (auto simp: dec_iff)

lemma unique: "wf x \<Longrightarrow> enc x c \<Longrightarrow> wf y \<Longrightarrow> enc y (c @ d) \<Longrightarrow> x = y \<and> d = []"
  using roundtrip [of x c d] roundtrip [of y "c @ d" "[]"] by simp

lemma result_wf: "dec bs = Inr (x, rest) \<Longrightarrow> wf x"
  by (simp add: dec_iff)

lemma consumes: "dec bs = Inr (x, rest) \<Longrightarrow> \<exists>c. bs = c @ rest"
  by (auto simp: dec_iff)

end

end
