(* ===== verification/Net.thy ===== *)
theory Net
  imports Prelude "HOL-Library.Monad_Syntax"
begin

text \<open>
  The parts of Rust's standard library the sources use on strings and addresses:
  \<open>IpAddr\<close> and its \<open>FromStr\<close>, decimal and hexadecimal formatting, \<open>u16::from_str\<close>,
  ASCII case folding. A Rust \<open>String\<close> is the list of its UTF-8 bytes, one
  \<^typ>\<open>char\<close> per byte, so \<open>len()\<close> is \<^const>\<open>length\<close> and byte offsets are list
  positions. The lemmas show that formatting followed by parsing returns the
  value that was formatted.
\<close>

subsection \<open>Characters\<close>

definition is_ascii_digit :: "char \<Rightarrow> bool" where
  "is_ascii_digit c \<longleftrightarrow> 48 \<le> (of_char c :: nat) \<and> (of_char c :: nat) \<le> 57"

definition is_ascii_lower :: "char \<Rightarrow> bool" where
  "is_ascii_lower c \<longleftrightarrow> 97 \<le> (of_char c :: nat) \<and> (of_char c :: nat) \<le> 122"

definition is_ascii_upper :: "char \<Rightarrow> bool" where
  "is_ascii_upper c \<longleftrightarrow> 65 \<le> (of_char c :: nat) \<and> (of_char c :: nat) \<le> 90"

definition is_ascii_alphanumeric :: "char \<Rightarrow> bool" where
  "is_ascii_alphanumeric c \<longleftrightarrow> is_ascii_digit c \<or> is_ascii_lower c \<or> is_ascii_upper c"

definition to_ascii_lower :: "char \<Rightarrow> char" where
  "to_ascii_lower c = (if is_ascii_upper c then char_of ((of_char c :: nat) + 32) else c)"

definition to_ascii_lowercase :: "string \<Rightarrow> string" where
  "to_ascii_lowercase = map to_ascii_lower"

definition eq_ignore_ascii_case :: "string \<Rightarrow> string \<Rightarrow> bool" where
  "eq_ignore_ascii_case s t \<longleftrightarrow> to_ascii_lowercase s = to_ascii_lowercase t"

lemma to_ascii_lower_idem [simp]: "to_ascii_lower (to_ascii_lower c) = to_ascii_lower c"
  by (auto simp: to_ascii_lower_def is_ascii_upper_def)

lemma to_ascii_lowercase_idem [simp]:
  "to_ascii_lowercase (to_ascii_lowercase s) = to_ascii_lowercase s"
  by (simp add: to_ascii_lowercase_def)

lemma eq_ignore_lowercase [simp]:
  "eq_ignore_ascii_case s (to_ascii_lowercase t) \<longleftrightarrow> eq_ignore_ascii_case s t"
  "eq_ignore_ascii_case (to_ascii_lowercase s) t \<longleftrightarrow> eq_ignore_ascii_case s t"
  by (simp_all add: eq_ignore_ascii_case_def)

lemma length_to_ascii_lowercase [simp]: "length (to_ascii_lowercase s) = length s"
  by (simp add: to_ascii_lowercase_def)

subsection \<open>Numbers in text\<close>

text \<open>\<open>char::to_digit(radix)\<close> for the two radices the address parser uses.\<close>

definition to_digit :: "nat \<Rightarrow> char \<Rightarrow> nat option" where
  "to_digit radix c =
     (let n = (of_char c :: nat);
          v = (if 48 \<le> n \<and> n \<le> 57 then n - 48
               else if 97 \<le> n \<and> n \<le> 102 then n - 87
               else if 65 \<le> n \<and> n \<le> 70 then n - 55 else radix)
      in if v < radix then Some v else None)"

fun digits_value :: "nat \<Rightarrow> nat \<Rightarrow> string \<Rightarrow> nat" where
  "digits_value radix acc [] = acc"
| "digits_value radix acc (c # cs) =
     digits_value radix (acc * radix + (case to_digit radix c of Some d \<Rightarrow> d | None \<Rightarrow> 0)) cs"

text \<open>\<open>Parser::read_number\<close> of \<open>core::net::parser\<close>: the longest run of digits, refused when it is
  empty, too long, has a forbidden leading zero or does not fit the result type.\<close>

definition read_number :: "nat \<Rightarrow> nat \<Rightarrow> bool \<Rightarrow> nat \<Rightarrow> string \<Rightarrow> (nat \<times> string) option" where
  "read_number radix max_digits allow_zero_prefix bound s =
     (let ds = takeWhile (\<lambda>c. to_digit radix c \<noteq> None) s;
          rest = dropWhile (\<lambda>c. to_digit radix c \<noteq> None) s;
          v = digits_value radix 0 ds
      in if ds = [] \<or> max_digits < length ds
            \<or> (\<not> allow_zero_prefix \<and> hd ds = CHR ''0'' \<and> 1 < length ds) \<or> bound \<le> v
         then None else Some (v, rest))"

definition read_separator ::
  "char \<Rightarrow> bool \<Rightarrow> (string \<Rightarrow> ('a \<times> string) option) \<Rightarrow> string \<Rightarrow> ('a \<times> string) option" where
  "read_separator c is_first f s =
     (if is_first then f s
      else case s of [] \<Rightarrow> None | x # xs \<Rightarrow> if x = c then f xs else None)"

text \<open>\<open>u16::from_str\<close> and \<open>u32::from_str\<close>: an optional plus sign and at least one digit.\<close>

definition parse_uint :: "nat \<Rightarrow> string \<Rightarrow> nat option" where
  "parse_uint bound s =
     (let ds = (case s of c # cs \<Rightarrow> if c = CHR ''+'' then cs else s | [] \<Rightarrow> [])
      in if ds \<noteq> [] \<and> list_all is_ascii_digit ds \<and> digits_value 10 0 ds < bound
         then Some (digits_value 10 0 ds) else None)"

definition digit_char :: "nat \<Rightarrow> char" where
  "digit_char d = char_of (if d < 10 then 48 + d else 87 + d)"

fun show_nat :: "nat \<Rightarrow> string" where
  "show_nat n = (if n < 10 then [digit_char n] else show_nat (n div 10) @ [digit_char (n mod 10)])"

declare show_nat.simps [simp del]

definition hex2 :: "nat \<Rightarrow> string" where
  "hex2 b = [digit_char (b div 16), digit_char (b mod 16)]"

lemma of_char_digit_char [simp]:
  "d < 16 \<Longrightarrow> (of_char (digit_char d) :: nat) = (if d < 10 then 48 + d else 87 + d)"
  by (simp add: digit_char_def)

lemma is_ascii_digit_digit_char [simp]: "d < 10 \<Longrightarrow> is_ascii_digit (digit_char d)"
  by (simp add: is_ascii_digit_def)

lemma to_digit_digit_char [simp]:
  "d < 10 \<Longrightarrow> to_digit 10 (digit_char d) = Some d"
  "d < 16 \<Longrightarrow> to_digit 16 (digit_char d) = Some d"
  by (auto simp: to_digit_def)

lemma to_digit_10: "to_digit 10 c \<noteq> None \<longleftrightarrow> is_ascii_digit c"
  by (auto simp: to_digit_def is_ascii_digit_def Let_def)

lemma digits_value_append:
  "digits_value r acc (xs @ ys) = digits_value r (digits_value r acc xs) ys"
  by (induction xs arbitrary: acc) simp_all

lemma digits_value_show_nat [simp]: "digits_value 10 0 (show_nat n) = n"
proof (induction n rule: show_nat.induct)
  case (1 n)
  then show ?case
    by (subst show_nat.simps) (simp add: digits_value_append)
qed

lemma show_nat_digits: "list_all is_ascii_digit (show_nat n)"
proof (induction n rule: show_nat.induct)
  case (1 n)
  then show ?case by (subst show_nat.simps) simp
qed

lemma show_nat_not_Nil [simp]: "show_nat n \<noteq> []"
  by (subst show_nat.simps) simp

lemma digit_char_eq_0: "n < 10 \<Longrightarrow> digit_char n = CHR ''0'' \<Longrightarrow> n = 0"
  using of_char_digit_char [of n] by simp

lemma hd_show_nat: "hd (show_nat n) = CHR ''0'' \<Longrightarrow> n = 0"
proof (induction n rule: show_nat.induct)
  case (1 n)
  show ?case
  proof (cases "n < 10")
    case True
    with 1 show ?thesis
      by (subst (asm) (2) show_nat.simps) (auto dest: digit_char_eq_0)
  next
    case False
    have "hd (show_nat n) = hd (show_nat (n div 10))"
      using False by (subst show_nat.simps) simp
    with 1 False have "n div 10 = 0" by simp
    with False show ?thesis by simp
  qed
qed

lemma length_show_nat: "n < 10 ^ k \<Longrightarrow> 0 < k \<Longrightarrow> length (show_nat n) \<le> k"
proof (induction n arbitrary: k rule: show_nat.induct)
  case (1 n)
  show ?case
  proof (cases "n < 10")
    case True
    with 1 show ?thesis by (subst show_nat.simps) simp
  next
    case False
    then obtain j where k: "k = Suc j" and "0 < j"
      using 1(2,3) by (cases k; cases "k - 1") auto
    then have "n div 10 < 10 ^ j" using 1(2) by auto
    with False 1(1) k \<open>0 < j\<close> show ?thesis by (subst show_nat.simps) simp
  qed
qed

lemma show_nat_0 [simp]: "show_nat 0 = ''0''"
  by code_simp

lemma parse_uint_digits:
  "s \<noteq> [] \<Longrightarrow> list_all is_ascii_digit s \<Longrightarrow> digits_value 10 0 s < bound \<Longrightarrow>
   parse_uint bound s = Some (digits_value 10 0 s)"
  by (cases s) (auto simp: parse_uint_def is_ascii_digit_def)

lemma show_nat_inj [simp]: "show_nat m = show_nat n \<longleftrightarrow> m = n"
  by (metis digits_value_show_nat)

lemma parse_uint_show_nat [simp]: "n < bound \<Longrightarrow> parse_uint bound (show_nat n) = Some n"
  using parse_uint_digits [of "show_nat n" bound] show_nat_digits by simp

text \<open>Reading back a formatted octet: the digits stop at a separator.\<close>

lemma takeWhile_digits:
  "list_all is_ascii_digit ds \<Longrightarrow> rest = [] \<or> \<not> is_ascii_digit (hd rest) \<Longrightarrow>
   takeWhile (\<lambda>c. to_digit 10 c \<noteq> None) (ds @ rest) = ds \<and>
   dropWhile (\<lambda>c. to_digit 10 c \<noteq> None) (ds @ rest) = rest"
  unfolding to_digit_10 by (induction ds) (cases rest; simp)+

lemma read_number_show_nat:
  assumes "n < bound" and "n < 1000" and "rest = [] \<or> \<not> is_ascii_digit (hd rest)"
  shows "read_number 10 3 False bound (show_nat n @ rest) = Some (n, rest)"
proof -
  have "length (show_nat n) \<le> 3" using assms(2) by (intro length_show_nat) simp_all
  moreover have "\<not> (hd (show_nat n) = CHR ''0'' \<and> 1 < length (show_nat n))"
    using hd_show_nat [of n] by (auto simp: show_nat.simps [of 0])
  ultimately show ?thesis
    using takeWhile_digits [OF show_nat_digits assms(3), of n] assms(1)
    by (simp add: read_number_def Let_def)
qed

subsection \<open>IP addresses\<close>

text \<open>\<open>IpAddr::V4\<close> by its four octets, \<open>IpAddr::V6\<close> by its eight 16-bit segments.\<close>

datatype ipaddr =
    V4 u8 u8 u8 u8
  | V6 u16 u16 u16 u16 u16 u16 u16 u16

type_synonym socket_addr = "ipaddr \<times> u16"

text \<open>The networks of the \<open>ipnet\<close> crate: its parser, the conversion from an address, the membership
  test and the printer. A set of these operations is an argument of the definitions that use them.\<close>

record 'net ipnet_ops =
  net_parse :: "string \<Rightarrow> 'net option"
  net_of_ip :: "ipaddr \<Rightarrow> 'net"
  net_contains :: "'net \<Rightarrow> ipaddr \<Rightarrow> bool"
  net_show :: "'net \<Rightarrow> string"

text \<open>The simplest such operations, for the witnesses: a network is one address.\<close>

definition sample_net :: "ipaddr ipnet_ops" where
  "sample_net = \<lparr>net_parse = (\<lambda>_. None), net_of_ip = id, net_contains = (=), net_show = (\<lambda>_. [])\<rparr>"

definition hi8 :: "u16 \<Rightarrow> u8" where
  "hi8 s = ucast (drop_bit 8 s)"

definition lo8 :: "u16 \<Rightarrow> u8" where
  "lo8 s = ucast s"

definition seg :: "u8 \<Rightarrow> u8 \<Rightarrow> u16" where
  "seg h l = push_bit 8 (ucast h) OR ucast l"

text \<open>\<open>Ipv6Addr::to_ipv4_mapped\<close>: \<open>::ffff:a.b.c.d\<close>.\<close>

fun to_ipv4_mapped :: "ipaddr \<Rightarrow> ipaddr option" where
  "to_ipv4_mapped (V4 a b c d) = None"
| "to_ipv4_mapped (V6 s0 s1 s2 s3 s4 s5 s6 s7) =
     (if s0 = 0 \<and> s1 = 0 \<and> s2 = 0 \<and> s3 = 0 \<and> s4 = 0 \<and> s5 = 0xffff
      then Some (V4 (hi8 s6) (lo8 s6) (hi8 s7) (lo8 s7)) else None)"

lemma hi8_seg [simp]: "hi8 (seg h l) = h"
  unfolding hi8_def seg_def
  by (rule bit_word_eqI) (auto simp: bit_simps dest: bit_imp_le_length)

lemma lo8_seg [simp]: "lo8 (seg h l) = l"
  unfolding lo8_def seg_def
  by (rule bit_word_eqI) (auto simp: bit_simps dest: bit_imp_le_length)

lemma seg_hi8_lo8 [simp]: "seg (hi8 s) (lo8 s) = s"
  unfolding hi8_def lo8_def seg_def
  by (rule bit_word_eqI) (auto simp: bit_simps dest: bit_imp_le_length)

subsection \<open>Parsing addresses\<close>

definition read_octet :: "string \<Rightarrow> (nat \<times> string) option" where
  "read_octet = read_number 10 3 False 256"

definition read_ipv4 :: "string \<Rightarrow> (ipaddr \<times> string) option" where
  "read_ipv4 s0 =
     do { (a, s1) \<leftarrow> read_separator CHR ''.'' True read_octet s0;
          (b, s2) \<leftarrow> read_separator CHR ''.'' False read_octet s1;
          (c, s3) \<leftarrow> read_separator CHR ''.'' False read_octet s2;
          (d, s4) \<leftarrow> read_separator CHR ''.'' False read_octet s3;
          Some (V4 (of_nat a) (of_nat b) (of_nat c) (of_nat d), s4) }"

definition read_group :: "string \<Rightarrow> (nat \<times> string) option" where
  "read_group = read_number 16 4 True 65536"

text \<open>\<open>read_groups\<close> fills at most the given number of segments; a dotted quad may stand for the
  last two of them, and the flag says that one did.\<close>

fun read_groups :: "nat \<Rightarrow> bool \<Rightarrow> string \<Rightarrow> u16 list \<times> bool \<times> string" where
  "read_groups 0 is_first s = ([], False, s)"
| "read_groups (Suc k) is_first s =
     (case (if 0 < k then read_separator CHR '':'' is_first read_ipv4 s else None) of
        Some (V4 a b c d, s') \<Rightarrow> ([seg a b, seg c d], True, s')
      | _ \<Rightarrow>
        (case read_separator CHR '':'' is_first read_group s of
           None \<Rightarrow> ([], False, s)
         | Some (g, s') \<Rightarrow>
             (let (gs, v4, s'') = read_groups k False s' in (of_nat g # gs, v4, s''))))"

fun v6_of_list :: "u16 list \<Rightarrow> ipaddr option" where
  "v6_of_list [s0, s1, s2, s3, s4, s5, s6, s7] = Some (V6 s0 s1 s2 s3 s4 s5 s6 s7)"
| "v6_of_list _ = None"

definition read_ipv6 :: "string \<Rightarrow> (ipaddr \<times> string) option" where
  "read_ipv6 s =
     (let (head, head_v4, s1) = read_groups 8 True s in
      if length head = 8 then map_option (\<lambda>ip. (ip, s1)) (v6_of_list head)
      else if head_v4 then None
      else case s1 of
        c1 # c2 # s2 \<Rightarrow>
          if c1 = CHR '':'' \<and> c2 = CHR '':'' then
            (let (tail, _, s3) = read_groups (8 - (length head + 1)) True s2
             in map_option (\<lambda>ip. (ip, s3))
                  (v6_of_list (head @ replicate (8 - length head - length tail) 0 @ tail)))
          else None
      | _ \<Rightarrow> None)"

text \<open>\<open>IpAddr::from_str\<close>: the whole string is an address.\<close>

definition parse_ip :: "string \<Rightarrow> ipaddr option" where
  "parse_ip s =
     (case (case read_ipv4 s of Some r \<Rightarrow> Some r | None \<Rightarrow> read_ipv6 s) of
        Some (ip, []) \<Rightarrow> Some ip
      | _ \<Rightarrow> None)"

lemma parse_ip_not_hex:
  assumes "to_digit 16 c = None" and "c \<noteq> CHR '':''"
  shows "parse_ip (c # s) = None"
proof -
  have "to_digit 10 c = None" using assms(1) by (auto simp: to_digit_def Let_def split: if_splits)
  then have "read_ipv4 (c # s) = None" by (simp add: read_ipv4_def read_octet_def read_number_def read_separator_def Let_def)
  moreover have "read_groups (Suc k) True (c # s) = ([], False, c # s)" for k
    using assms calculation by (simp add: read_separator_def read_group_def read_number_def Let_def)
  then have "read_groups 8 True (c # s) = ([], False, c # s)" by (metis numeral_eq_Suc)
  ultimately show ?thesis using assms(2) by (simp add: parse_ip_def read_ipv6_def split: list.split)
qed

subsection \<open>Formatted addresses parse back\<close>

definition show_ipv4 :: "u8 \<Rightarrow> u8 \<Rightarrow> u8 \<Rightarrow> u8 \<Rightarrow> string" where
  "show_ipv4 a b c d =
     show_nat (unat a) @ ''.'' @ show_nat (unat b) @ ''.'' @ show_nat (unat c) @ ''.'' @ show_nat (unat d)"

lemma unat_u8: "unat (a :: u8) < 256"
  using unsigned_less [of a, where 'a = nat] by simp

lemma unat_u16: "unat (a :: u16) < 65536"
  using unsigned_less [of a, where 'a = nat] by simp

lemma read_octet_show:
  "rest = [] \<or> \<not> is_ascii_digit (hd rest) \<Longrightarrow>
   read_octet (show_nat (unat (a :: u8)) @ rest) = Some (unat a, rest)"
  unfolding read_octet_def
  by (rule read_number_show_nat) (use unat_u8 [of a] in linarith | simp)+

lemma is_ascii_digit_sep [simp]: "\<not> is_ascii_digit CHR ''.''" "\<not> is_ascii_digit CHR '':''"
  by (simp_all add: is_ascii_digit_def)

lemma read_ipv4_show:
  "rest = [] \<or> \<not> is_ascii_digit (hd rest) \<Longrightarrow>
   read_ipv4 (show_ipv4 a b c d @ rest) = Some (V4 a b c d, rest)"
  by (simp add: read_ipv4_def show_ipv4_def read_separator_def read_octet_show)

lemma parse_ip_show_ipv4: "parse_ip (show_ipv4 a b c d) = Some (V4 a b c d)"
  using read_ipv4_show [of "[]" a b c d] by (simp add: parse_ip_def)

text \<open>\<open>[T]::join\<close> on strings.\<close>

fun join :: "string \<Rightarrow> string list \<Rightarrow> string" where
  "join sep [] = []"
| "join sep [x] = x"
| "join sep (x # y # ys) = x @ sep @ join sep (y # ys)"

lemma join_Cons: "join sep (x # xs) = x @ concat (map (\<lambda>y. sep @ y) xs)"
  by (induction xs arbitrary: x) simp_all

definition show_group :: "u8 \<times> u8 \<Rightarrow> string" where
  "show_group g = hex2 (unat (fst g)) @ hex2 (unat (snd g))"

lemma read_ipv4_needs_dot: "CHR ''.'' \<notin> set s \<Longrightarrow> read_ipv4 s = None"
proof (rule ccontr)
  assume nodot: "CHR ''.'' \<notin> set s" and "read_ipv4 s \<noteq> None"
  then obtain a s1 where a: "read_octet s = Some (a, s1)"
    and s1: "read_separator CHR ''.'' False read_octet s1 \<noteq> None"
    unfolding read_ipv4_def read_separator_def by (auto split: Option.bind_splits prod.splits)
  from a have "set s1 \<subseteq> set s"
    by (auto simp: read_octet_def read_number_def Let_def split: if_splits dest: set_dropWhileD)
  moreover from s1 have "CHR ''.'' \<in> set s1"
    by (auto simp: read_separator_def split: list.splits if_splits)
  ultimately show False using nodot by blast
qed

lemma to_digit_16_colon [simp]: "to_digit 16 CHR '':'' = None"
  by (simp add: to_digit_def)

lemma unat_ucast_u8_u16: "unat (ucast (b :: u8) :: u16) = unat b"
  using unat_u8 [of b] by (simp add: unsigned_ucast_eq take_bit_eq_mod)

lemma hex_value:
  "unat (seg h l) = ((unat h div 16 * 16 + unat h mod 16) * 16 + unat l div 16) * 16 + unat l mod 16"
proof -
  have "seg h l = push_bit 8 (ucast h) + ucast l"
    unfolding seg_def by (rule disjunctive_add [symmetric]) (auto simp: bit_simps dest: bit_imp_le_length)
  then have "unat (seg h l) = unat h * 256 + unat l"
    using unat_u8 [of h] unat_u8 [of l]
    by (simp add: unat_word_ariths push_bit_eq_mult unat_ucast_u8_u16)
  then show ?thesis by (simp add: algebra_simps) 
qed

lemma read_group_show:
  "rest = [] \<or> hd rest = CHR '':'' \<Longrightarrow>
   read_group (show_group (h, l) @ rest) = Some (unat (seg h l), rest)"
proof -
  assume rest: "rest = [] \<or> hd rest = CHR '':''"
  have nib: "unat x div 16 < 16" "unat x mod 16 < 16" for x :: u8
    using unat_u8 [of x] by (simp_all add: less_mult_imp_div_less)
  have *: "takeWhile (\<lambda>c. to_digit 16 c \<noteq> None) (show_group (h, l) @ rest) = show_group (h, l)"
    "dropWhile (\<lambda>c. to_digit 16 c \<noteq> None) (show_group (h, l) @ rest) = rest"
    using rest nib by (cases rest; simp add: show_group_def hex2_def)+
  have "digits_value 16 0 (show_group (h, l)) = unat (seg h l)"
    using nib by (simp add: show_group_def hex2_def hex_value algebra_simps)
  moreover have "length (show_group (h, l)) = 4" by (simp add: show_group_def hex2_def)
  ultimately show ?thesis
    using * unat_u16 [of "seg h l"] by (auto simp: read_group_def read_number_def Let_def)
qed

lemma show_group_no_dot: "CHR ''.'' \<notin> set (show_group g)"
proof -
  have "digit_char d \<noteq> CHR ''.''" if "d < 16" for d
  proof -
    have "(of_char (digit_char d) :: nat) \<noteq> of_char CHR ''.''" using that by simp
    then show ?thesis by metis
  qed
  moreover have "unat x div 16 < 16" "unat x mod 16 < 16" for x :: u8
    using unat_u8 [of x] by (simp_all add: less_mult_imp_div_less)
  ultimately show ?thesis by (auto simp: show_group_def hex2_def dest: sym)
qed

definition show_tail :: "(u8 \<times> u8) list \<Rightarrow> string" where
  "show_tail gs = concat (map (\<lambda>g. '':'' @ show_group g) gs)"

lemma show_tail_no_dot: "CHR ''.'' \<notin> set (show_tail gs)"
  using show_group_no_dot by (auto simp: show_tail_def)

lemma show_tail_start: "show_tail gs = [] \<or> hd (show_tail gs) = CHR '':''"
  by (cases gs) (simp_all add: show_tail_def)

lemma read_groups_step:
  assumes "read_ipv4 x = None" and "read_group x = Some (g, r)"
  shows "read_groups (Suc k) False (CHR '':'' # x) =
      (let (gs, v4, s) = read_groups k False r in (of_nat g # gs, v4, s))"
    and "read_groups (Suc k) True x =
      (let (gs, v4, s) = read_groups k False r in (of_nat g # gs, v4, s))"
  using assms by (simp_all add: read_separator_def)

lemma read_groups_tail:
  "read_groups (length gs) False (show_tail gs) = (map (\<lambda>g. seg (fst g) (snd g)) gs, False, [])"
proof (induction gs)
  case Nil
  then show ?case by (simp add: show_tail_def)
next
  case (Cons g gs)
  have tail: "show_tail (g # gs) = CHR '':'' # (show_group g @ show_tail gs)"
    by (simp add: show_tail_def)
  have "read_ipv4 (show_group g @ show_tail gs) = None"
    by (rule read_ipv4_needs_dot) (use show_group_no_dot show_tail_no_dot in auto)
  moreover have "read_group (show_group g @ show_tail gs) =
      Some (unat (seg (fst g) (snd g)), show_tail gs)"
    using read_group_show [OF show_tail_start, of "fst g" "snd g" gs] by simp
  ultimately show ?case
    using read_groups_step(1) [of "show_group g @ show_tail gs" _ "show_tail gs" "length gs"]
    by (simp add: tail Cons.IH del: read_groups.simps)
qed

lemma read_groups_8:
  "length gs = 7 \<Longrightarrow>
   read_groups 8 True (show_group g @ show_tail gs) =
     (map (\<lambda>g. seg (fst g) (snd g)) (g # gs), False, [])"
proof -
  assume len: "length gs = 7"
  have "read_ipv4 (show_group g @ show_tail gs) = None"
    by (rule read_ipv4_needs_dot) (use show_group_no_dot show_tail_no_dot in auto)
  moreover have "read_group (show_group g @ show_tail gs) =
      Some (unat (seg (fst g) (snd g)), show_tail gs)"
    using read_group_show [OF show_tail_start, of "fst g" "snd g" gs] by simp
  moreover have "read_groups 8 True s = read_groups (Suc (length gs)) True s" for s
    by (simp add: len)
  ultimately show ?thesis
    using read_groups_tail [of gs]
      read_groups_step(2) [of "show_group g @ show_tail gs" _ "show_tail gs" "length gs"]
    by (simp del: read_groups.simps)
qed

lemma parse_ip_show_groups:
  assumes "length gs = 8"
  shows "parse_ip (join '':'' (map show_group gs)) = v6_of_list (map (\<lambda>g. seg (fst g) (snd g)) gs)"
proof -
  from assms obtain g gs' where gs: "gs = g # gs'" and len: "length gs' = 7" by (cases gs) auto
  have s: "join '':'' (map show_group gs) = show_group g @ show_tail gs'"
    by (simp add: gs join_Cons show_tail_def comp_def)
  have v4: "read_ipv4 (show_group g @ show_tail gs') = None"
    by (rule read_ipv4_needs_dot) (use show_group_no_dot show_tail_no_dot in auto)
  show ?thesis
    unfolding s parse_ip_def v4 read_ipv6_def read_groups_8 [OF len]
    using assms by (cases "v6_of_list (map (\<lambda>g. seg (fst g) (snd g)) (g # gs'))") (simp_all add: gs)
qed

end
