(* ===== verification/Ip_Guard.thy ===== *)
theory Ip_Guard
  imports Net
begin

text \<open>
  Models \<open>src/proxy/ip_guard.rs\<close> (the anti-SSRF classifier),
  \<open>src/security/normalize.rs\<close> and \<open>src/security/ip_filter.rs\<close>. The classifier's
  octet and segment tests are shown equivalent to membership in a list of CIDR
  blocks, and its verdict is the same before and after normalisation.
  \<open>IpNet\<close> is a third-party type: the filter takes its \<open>contains\<close> test as an argument.
\<close>

subsection \<open>Operations\<close>

definition normalize_ip :: "ipaddr \<Rightarrow> ipaddr" where
  "normalize_ip ip = (case ip of
     V6 s0 s1 s2 s3 s4 s5 s6 s7 \<Rightarrow> (case to_ipv4_mapped ip of Some v4 \<Rightarrow> v4 | None \<Rightarrow> ip)
   | other \<Rightarrow> other)"

definition is_allowed :: "('net, 'x) ipnet_ops_scheme \<Rightarrow> ipaddr \<Rightarrow> 'net list \<Rightarrow> bool" where
  "is_allowed N ip allowed_networks =
     (if allowed_networks = [] then True
      else list_ex (\<lambda>net. net_contains N net (normalize_ip ip)) allowed_networks)"

definition classify_v4 :: "u8 \<Rightarrow> u8 \<Rightarrow> u8 \<Rightarrow> u8 \<Rightarrow> string option" where
  "classify_v4 o0 o1 o2 o3 =
     (if o0 = 0 then Some ''this-network''
      else if o0 = 127 then Some ''loopback''
      else if o0 = 10 then Some ''private-10''
      else if o0 = 172 \<and> o1 AND 0xf0 = 16 then Some ''private-172''
      else if o0 = 192 \<and> o1 = 168 then Some ''private-192''
      else if o0 = 169 \<and> o1 = 254 then Some ''link-local''
      else if o0 AND 0xf0 = 224 then Some ''multicast''
      else if o0 AND 0xf0 = 240 then Some ''reserved''
      else if o0 = 100 \<and> o1 AND 0xc0 = 64 then Some ''cgnat''
      else if o0 = 192 \<and> o1 = 0 \<and> o2 = 2 then Some ''test-net-1''
      else if o0 = 198 \<and> o1 = 51 \<and> o2 = 100 then Some ''test-net-2''
      else if o0 = 203 \<and> o1 = 0 \<and> o2 = 113 then Some ''test-net-3''
      else None)"

definition classify_v6_plain :: "u16 list \<Rightarrow> string option" where
  "classify_v6_plain segs =
     (if segs = [0, 0, 0, 0, 0, 0, 0, 1] then Some ''ipv6-loopback''
      else if hd segs AND 0xfe00 = 0xfc00 then Some ''ipv6-ula''
      else if hd segs AND 0xffc0 = 0xfe80 then Some ''ipv6-link-local''
      else if segs = [0, 0, 0, 0, 0, 0, 0, 0] then Some ''this-network''
      else if hd segs AND 0xff00 = 0xff00 then Some ''ipv6-multicast''
      else None)"

fun classify_dangerous_ip :: "ipaddr \<Rightarrow> string option" where
  "classify_dangerous_ip (V4 a b c d) = classify_v4 a b c d"
| "classify_dangerous_ip (V6 s0 s1 s2 s3 s4 s5 s6 s7) =
     (case to_ipv4_mapped (V6 s0 s1 s2 s3 s4 s5 s6 s7) of
        Some (V4 a b c d) \<Rightarrow> classify_v4 a b c d
      | _ \<Rightarrow>
        (case (if s0 = 0x2002
               then classify_v4 (ucast (drop_bit 8 s1)) (ucast (s1 AND 0xff))
                      (ucast (drop_bit 8 s2)) (ucast (s2 AND 0xff))
               else None) of
           Some name \<Rightarrow> Some name
         | None \<Rightarrow> classify_v6_plain [s0, s1, s2, s3, s4, s5, s6, s7]))"

definition is_dangerous_ip :: "ipaddr \<Rightarrow> bool" where
  "is_dangerous_ip ip \<longleftrightarrow> classify_dangerous_ip ip \<noteq> None"

subsection \<open>Reference: CIDR blocks\<close>

text \<open>An address as a number, and membership in the block \<open>(base, prefix length)\<close> of a \<open>w\<close>-bit space.\<close>

definition v4_nat :: "u8 \<Rightarrow> u8 \<Rightarrow> u8 \<Rightarrow> u8 \<Rightarrow> nat" where
  "v4_nat a b c d = ((unat a * 256 + unat b) * 256 + unat c) * 256 + unat d"

definition v6_nat :: "u16 list \<Rightarrow> nat" where
  "v6_nat segs = foldl (\<lambda>n s. n * 65536 + unat s) 0 segs"

definition in_block :: "nat \<Rightarrow> nat \<Rightarrow> nat \<times> nat \<Rightarrow> bool" where
  "in_block w n blk = (n div 2 ^ (w - snd blk) = fst blk div 2 ^ (w - snd blk))"

definition v4_blocks :: "(nat \<times> nat) list" where
  "v4_blocks =
     [(v4_nat 0 0 0 0, 8), (v4_nat 127 0 0 0, 8), (v4_nat 10 0 0 0, 8), (v4_nat 172 16 0 0, 12),
      (v4_nat 192 168 0 0, 16), (v4_nat 169 254 0 0, 16), (v4_nat 224 0 0 0, 4), (v4_nat 240 0 0 0, 4),
      (v4_nat 100 64 0 0, 10), (v4_nat 192 0 2 0, 24), (v4_nat 198 51 100 0, 24), (v4_nat 203 0 113 0, 24)]"

definition v6_blocks :: "(nat \<times> nat) list" where
  "v6_blocks =
     [(1, 128), (0xfc00 * 2 ^ 112, 7), (0xfe80 * 2 ^ 112, 10), (0, 128), (0xff00 * 2 ^ 112, 8)]"

fun reserved_ip :: "ipaddr \<Rightarrow> bool" where
  "reserved_ip (V4 a b c d) = list_ex (in_block 32 (v4_nat a b c d)) v4_blocks"
| "reserved_ip (V6 s0 s1 s2 s3 s4 s5 s6 s7) =
     (if s0 = 0 \<and> s1 = 0 \<and> s2 = 0 \<and> s3 = 0 \<and> s4 = 0 \<and> s5 = 0xffff
      then list_ex (in_block 32 (v4_nat (hi8 s6) (lo8 s6) (hi8 s7) (lo8 s7))) v4_blocks
      else (s0 = 0x2002 \<and> list_ex (in_block 32 (v4_nat (hi8 s1) (lo8 s1) (hi8 s2) (lo8 s2))) v4_blocks)
           \<or> list_ex (in_block 128 (v6_nat [s0, s1, s2, s3, s4, s5, s6, s7])) v6_blocks)"

subsection \<open>Masks and division\<close>

lemma and_not_mask_eq:
  fixes x c :: "'a::len word"
  assumes "take_bit k c = 0"
  shows "x AND NOT (mask k) = c \<longleftrightarrow> unat x div 2 ^ k = unat c div 2 ^ k"
proof -
  have "x AND NOT (mask k) = c \<longleftrightarrow> drop_bit k x = drop_bit k c"
  proof
    assume c: "x AND NOT (mask k) = c"
    show "drop_bit k x = drop_bit k c"
      unfolding c [symmetric] by (rule bit_word_eqI) (auto simp: bit_simps dest: bit_imp_le_length)
  next
    assume eq: "drop_bit k x = drop_bit k c"
    show "x AND NOT (mask k) = c"
    proof (rule bit_word_eqI)
      fix n assume "n < LENGTH('a)"
      show "bit (x AND NOT (mask k)) n = bit c n"
      proof (cases "n < k")
        case True
        have "\<not> bit (take_bit k c) n" by (simp add: assms)
        with True show ?thesis using \<open>n < LENGTH('a)\<close> by (simp add: bit_simps)
      next
        case False
        have "bit (drop_bit k x) (n - k) = bit (drop_bit k c) (n - k)" by (simp add: eq)
        with False show ?thesis using \<open>n < LENGTH('a)\<close> by (simp add: bit_simps)
      qed
    qed
  qed
  also have "\<dots> \<longleftrightarrow> unat (drop_bit k x) = unat (drop_bit k c)"
    by (simp add: word_unat_eq_iff)
  finally show ?thesis
    by (simp add: unat_drop_bit_eq flip: drop_bit_eq_div)
qed

lemma mask_tests_u8:
  fixes x :: u8
  shows "x AND 0xf0 = 16 \<longleftrightarrow> unat x div 16 = 1"
    and "x AND 0xf0 = 224 \<longleftrightarrow> unat x div 16 = 14"
    and "x AND 0xf0 = 240 \<longleftrightarrow> unat x div 16 = 15"
    and "x AND 0xc0 = 64 \<longleftrightarrow> unat x div 64 = 1"
proof -
  have m: "NOT (mask 4) = (0xf0 :: u8)" "NOT (mask 6) = (0xc0 :: u8)"
    by (simp_all add: mask_eq_exp_minus_1)
  note eq = and_not_mask_eq [where x = x and k = 4, unfolded m]
  show "x AND 0xf0 = 16 \<longleftrightarrow> unat x div 16 = 1" "x AND 0xf0 = 224 \<longleftrightarrow> unat x div 16 = 14"
    "x AND 0xf0 = 240 \<longleftrightarrow> unat x div 16 = 15"
    using eq [where c = 16] eq [where c = 224] eq [where c = 240] by (simp_all add: take_bit_eq_mod)
  show "x AND 0xc0 = 64 \<longleftrightarrow> unat x div 64 = 1"
    using and_not_mask_eq [where x = x and k = 6 and c = 64, unfolded m] by (simp add: take_bit_eq_mod)
qed

lemma mask_tests_u16:
  fixes x :: u16
  shows "x AND 0xfe00 = 0xfc00 \<longleftrightarrow> unat x div 512 = 126"
    and "x AND 0xffc0 = 0xfe80 \<longleftrightarrow> unat x div 64 = 1018"
    and "x AND 0xff00 = 0xff00 \<longleftrightarrow> unat x div 256 = 255"
proof -
  have m: "NOT (mask 9) = (0xfe00 :: u16)" "NOT (mask 6) = (0xffc0 :: u16)" "NOT (mask 8) = (0xff00 :: u16)"
    by (simp_all add: mask_eq_exp_minus_1)
  show "x AND 0xfe00 = 0xfc00 \<longleftrightarrow> unat x div 512 = 126"
    using and_not_mask_eq [where x = x and k = 9 and c = "0xfc00", unfolded m] by (simp add: take_bit_eq_mod)
  show "x AND 0xffc0 = 0xfe80 \<longleftrightarrow> unat x div 64 = 1018"
    using and_not_mask_eq [where x = x and k = 6 and c = "0xfe80", unfolded m] by (simp add: take_bit_eq_mod)
  show "x AND 0xff00 = 0xff00 \<longleftrightarrow> unat x div 256 = 255"
    using and_not_mask_eq [where x = x and k = 8 and c = "0xff00", unfolded m] by (simp add: take_bit_eq_mod)
qed

lemma unat_eq_numeral:
  "x = (numeral k :: u8) \<longleftrightarrow> unat x = unat (numeral k :: u8)"
  "x = (0 :: u8) \<longleftrightarrow> unat x = 0"
  by (simp_all add: word_unat_eq_iff)

text \<open>Dividing the number of an address by a power of two reads off its leading octets.\<close>

lemma v4_nat_div:
  "v4_nat a b c d div 256 = (unat a * 256 + unat b) * 256 + unat c"
  "v4_nat a b c d div 65536 = unat a * 256 + unat b"
  "v4_nat a b c d div 16777216 = unat a"
  "v4_nat a b c d div 1048576 = unat a * 16 + unat b div 16"
  "v4_nat a b c d div 4194304 = unat a * 4 + unat b div 64"
  "v4_nat a b c d div 268435456 = unat a div 16"
proof -
  show 1: "v4_nat a b c d div 256 = (unat a * 256 + unat b) * 256 + unat c"
    using unat_u8 [of d] by (simp add: v4_nat_def)
  show 2: "v4_nat a b c d div 65536 = unat a * 256 + unat b"
    using div_mult2_eq [of "v4_nat a b c d" 256 256] unat_u8 [of c] by (simp add: 1)
  show 3: "v4_nat a b c d div 16777216 = unat a"
    using div_mult2_eq [of "v4_nat a b c d" 65536 256] unat_u8 [of b] by (simp add: 2)
  show "v4_nat a b c d div 1048576 = unat a * 16 + unat b div 16"
    using div_mult2_eq [of "v4_nat a b c d" 65536 16] div_mult_self3 [of 16 "unat a * 16" "unat b"]
    by (simp add: 2)
  show "v4_nat a b c d div 4194304 = unat a * 4 + unat b div 64"
    using div_mult2_eq [of "v4_nat a b c d" 65536 64] div_mult_self3 [of 64 "unat a * 4" "unat b"]
    by (simp add: 2)
  show "v4_nat a b c d div 268435456 = unat a div 16"
    using div_mult2_eq [of "v4_nat a b c d" 16777216 16] by (simp add: 3)
qed

lemma pair_eq_iff:
  "y < m \<Longrightarrow> q < m \<Longrightarrow> x * m + y = p * m + q \<longleftrightarrow> x = p \<and> y = (q :: nat)"
  by (metis Euclidean_Rings.div_eq_0_iff add.commute add_0 add_left_cancel div_mult_self1 not_less_zero)

lemma in_block_v4:
  "in_block 32 (v4_nat a b c d) (v4_nat p 0 0 0, 8) \<longleftrightarrow> a = p"
  "in_block 32 (v4_nat a b c d) (v4_nat p 0 0 0, 4) \<longleftrightarrow> unat a div 16 = unat p div 16"
  "in_block 32 (v4_nat a b c d) (v4_nat p q 0 0, 12) \<longleftrightarrow> a = p \<and> unat b div 16 = unat q div 16"
  "in_block 32 (v4_nat a b c d) (v4_nat p q 0 0, 10) \<longleftrightarrow> a = p \<and> unat b div 64 = unat q div 64"
  "in_block 32 (v4_nat a b c d) (v4_nat p q 0 0, 16) \<longleftrightarrow> a = p \<and> b = q"
  "in_block 32 (v4_nat a b c d) (v4_nat p q r 0, 24) \<longleftrightarrow> a = p \<and> b = q \<and> c = r"
proof -
  have lt: "unat x div 16 < 16" "unat x div 64 < 4" "unat x < 256" for x :: u8
    using unat_u8 [of x] by (simp_all add: less_mult_imp_div_less)
  show "in_block 32 (v4_nat a b c d) (v4_nat p 0 0 0, 8) \<longleftrightarrow> a = p"
    "in_block 32 (v4_nat a b c d) (v4_nat p 0 0 0, 4) \<longleftrightarrow> unat a div 16 = unat p div 16"
    "in_block 32 (v4_nat a b c d) (v4_nat p q 0 0, 12) \<longleftrightarrow> a = p \<and> unat b div 16 = unat q div 16"
    "in_block 32 (v4_nat a b c d) (v4_nat p q 0 0, 10) \<longleftrightarrow> a = p \<and> unat b div 64 = unat q div 64"
    "in_block 32 (v4_nat a b c d) (v4_nat p q 0 0, 16) \<longleftrightarrow> a = p \<and> b = q"
    by (simp_all add: in_block_def v4_nat_div pair_eq_iff lt word_unat_eq_iff)
  show "in_block 32 (v4_nat a b c d) (v4_nat p q r 0, 24) \<longleftrightarrow> a = p \<and> b = q \<and> c = r"
    using pair_eq_iff [of "unat c" 256 "unat r" "unat a * 256 + unat b" "unat p * 256 + unat q"]
      pair_eq_iff [of "unat b" 256 "unat q" "unat a" "unat p"]
    by (simp add: in_block_def v4_nat_div lt word_unat_eq_iff)
qed

lemma classify_v4_iff:
  "classify_v4 a b c d \<noteq> None \<longleftrightarrow> list_ex (in_block 32 (v4_nat a b c d)) v4_blocks"
  unfolding v4_blocks_def classify_v4_def mask_tests_u8
  by (auto simp: in_block_v4)

text \<open>The IPv6 blocks: only the first segment decides, or the whole address does.\<close>

lemma v6_nat_split:
  "v6_nat [s0, s1, s2, s3, s4, s5, s6, s7] = unat s0 * 2 ^ 112 + v6_nat [s1, s2, s3, s4, s5, s6, s7]"
  "v6_nat [s1, s2, s3, s4, s5, s6, s7] < 2 ^ 112"
  using unat_u16 [of s1] unat_u16 [of s2] unat_u16 [of s3] unat_u16 [of s4] unat_u16 [of s5]
    unat_u16 [of s6] unat_u16 [of s7]
  by (simp_all add: v6_nat_def algebra_simps)

lemma v6_nat_div:
  "v6_nat [s0, s1, s2, s3, s4, s5, s6, s7] div 2 ^ (112 + k) = unat s0 div 2 ^ k"
  using v6_nat_split(1) [of s0 s1 s2 s3 s4 s5 s6 s7] v6_nat_split(2) [of s1 s2 s3 s4 s5 s6 s7]
  by (simp only: power_add div_mult2_eq) simp

lemma v6_nat_small:
  "v6_nat [s0, s1, s2, s3, s4, s5, s6, s7] = 0 \<longleftrightarrow>
     [s0, s1, s2, s3, s4, s5, s6, s7] = [0, 0, 0, 0, 0, 0, 0, 0]"
  "v6_nat [s0, s1, s2, s3, s4, s5, s6, s7] = 1 \<longleftrightarrow>
     [s0, s1, s2, s3, s4, s5, s6, s7] = [0, 0, 0, 0, 0, 0, 0, 1]"
proof -
  show "v6_nat [s0, s1, s2, s3, s4, s5, s6, s7] = 0 \<longleftrightarrow>
      [s0, s1, s2, s3, s4, s5, s6, s7] = [0, 0, 0, 0, 0, 0, 0, 0]"
    by (auto simp: v6_nat_def word_unat_eq_iff)
  have "unat s0 = 0 \<and> unat s1 = 0 \<and> unat s2 = 0 \<and> unat s3 = 0 \<and> unat s4 = 0 \<and> unat s5 = 0 \<and> unat s6 = 0
      \<and> unat s7 = 1"
    if "v6_nat [s0, s1, s2, s3, s4, s5, s6, s7] = 1"
  proof -
    from that have z: "unat s0 = 0 \<and> unat s1 = 0 \<and> unat s2 = 0 \<and> unat s3 = 0 \<and> unat s4 = 0 \<and> unat s5 = 0
        \<and> unat s6 = 0"
      by (simp add: v6_nat_def)
    with that show ?thesis by (simp add: v6_nat_def)
  qed
  then show "v6_nat [s0, s1, s2, s3, s4, s5, s6, s7] = 1 \<longleftrightarrow>
      [s0, s1, s2, s3, s4, s5, s6, s7] = [0, 0, 0, 0, 0, 0, 0, 1]"
    by (auto simp: v6_nat_def word_unat_eq_iff)
qed

lemma classify_v6_plain_iff:
  "classify_v6_plain [s0, s1, s2, s3, s4, s5, s6, s7] \<noteq> None \<longleftrightarrow>
     list_ex (in_block 128 (v6_nat [s0, s1, s2, s3, s4, s5, s6, s7])) v6_blocks"
proof -
  let ?n = "v6_nat [s0, s1, s2, s3, s4, s5, s6, s7]"
  have "in_block 128 ?n (0xfc00 * 2 ^ 112, 7) \<longleftrightarrow> s0 AND 0xfe00 = 0xfc00"
    using v6_nat_div [of s0 s1 s2 s3 s4 s5 s6 s7 9] by (simp add: in_block_def mask_tests_u16)
  moreover have "in_block 128 ?n (0xfe80 * 2 ^ 112, 10) \<longleftrightarrow> s0 AND 0xffc0 = 0xfe80"
    using v6_nat_div [of s0 s1 s2 s3 s4 s5 s6 s7 6] by (simp add: in_block_def mask_tests_u16)
  moreover have "in_block 128 ?n (0xff00 * 2 ^ 112, 8) \<longleftrightarrow> s0 AND 0xff00 = 0xff00"
    using v6_nat_div [of s0 s1 s2 s3 s4 s5 s6 s7 8] by (simp add: in_block_def mask_tests_u16)
  moreover have "in_block 128 ?n (0, 128) \<longleftrightarrow> [s0, s1, s2, s3, s4, s5, s6, s7] = [0, 0, 0, 0, 0, 0, 0, 0]"
    "in_block 128 ?n (1, 128) \<longleftrightarrow> [s0, s1, s2, s3, s4, s5, s6, s7] = [0, 0, 0, 0, 0, 0, 0, 1]"
    using v6_nat_small [of s0 s1 s2 s3 s4 s5 s6 s7] by (simp_all only: in_block_def) simp_all
  ultimately show ?thesis
    unfolding v6_blocks_def by (simp del: One_nat_def) (auto simp: classify_v6_plain_def)
qed

text \<open>Reading a segment's two octets with a shift and a mask, as the 6to4 test does.\<close>

lemma ucast_and_ff [simp]: "ucast (s AND 0xff :: u16) = lo8 s"
proof -
  have "ucast (s AND mask 8) = lo8 s"
    unfolding lo8_def by (rule bit_word_eqI) (auto simp: bit_simps)
  then show ?thesis by (simp add: mask_eq_exp_minus_1)
qed

lemma to_ipv4_mapped_V4: "to_ipv4_mapped ip = Some v4 \<Longrightarrow> \<exists>a b c d. v4 = V4 a b c d"
  by (cases ip) (auto split: if_splits)

lemma dangerous_iff:
  "is_dangerous_ip ip \<longleftrightarrow> reserved_ip ip"
proof (cases ip)
  case (V4 a b c d)
  then show ?thesis by (simp add: is_dangerous_ip_def classify_v4_iff del: not_None_eq)
next
  case (V6 s0 s1 s2 s3 s4 s5 s6 s7)
  show ?thesis
  proof (cases "s0 = 0 \<and> s1 = 0 \<and> s2 = 0 \<and> s3 = 0 \<and> s4 = 0 \<and> s5 = 0xffff")
    case True
    then show ?thesis
      by (simp add: V6 is_dangerous_ip_def classify_v4_iff del: not_None_eq)
  next
    case False
    then have m: "to_ipv4_mapped (V6 s0 s1 s2 s3 s4 s5 s6 s7) = None" by auto
    have emb: "classify_v4 (ucast (drop_bit 8 s1)) (ucast (s1 AND 0xff)) (ucast (drop_bit 8 s2))
        (ucast (s2 AND 0xff)) \<noteq> None \<longleftrightarrow>
        list_ex (in_block 32 (v4_nat (hi8 s1) (lo8 s1) (hi8 s2) (lo8 s2))) v4_blocks"
      by (simp only: classify_v4_iff ucast_and_ff flip: hi8_def)
    from False m show ?thesis
      using emb classify_v6_plain_iff [of s0 s1 s2 s3 s4 s5 s6 s7]
      by (auto simp: V6 is_dangerous_ip_def simp del: to_ipv4_mapped.simps split: option.splits)
  qed
qed

subsection \<open>Properties\<close>

text \<open>C8: the classifier flags exactly the addresses of the reserved CIDR blocks: an IPv4 address in one
  of the twelve special-purpose blocks, an IPv4-mapped IPv6 address whose IPv4 part is, a 6to4
  address whose embedded IPv4 address is, and the loopback, unspecified, unique-local, link-local
  and multicast IPv6 addresses. No address outside them is flagged.\<close>

theorem classify_dangerous_ip_blocks:
  "is_dangerous_ip ip \<longleftrightarrow> reserved_ip ip"
  by (rule dangerous_iff)

text \<open>An IPv4-mapped IPv6 spelling is no way round the guard: normalisation does not change the
  verdict, it is idempotent, and no normalised address is an IPv4-mapped one.\<close>

theorem normalize_ip_guard:
  "classify_dangerous_ip (normalize_ip ip) = classify_dangerous_ip ip \<and>
   normalize_ip (normalize_ip ip) = normalize_ip ip \<and>
   to_ipv4_mapped (normalize_ip ip) = None"
proof (cases ip)
  case (V6 s0 s1 s2 s3 s4 s5 s6 s7)
  then show ?thesis by (simp add: normalize_ip_def)
qed (simp add: normalize_ip_def)

end
