(* ===== verification/Dns_Cache.thy ===== *)
theory Dns_Cache
  imports Ip_Guard
begin

text \<open>
  Models \<open>src/proxy/dns_cache.rs\<close>: cached resolutions with a time to live, the re-validation
  against the address guard on every hit, the entry bound with expiry cleanup and eviction of the
  least recently used entry, and the hit and miss counters.
\<close>

subsection \<open>Model\<close>

record cache_entry =
  addrs :: "socket_addr list"
  inserted_at :: instant
  last_accessed :: instant
  ttl :: duration

record dns_cache =
  cache :: "(string, cache_entry) dmap"
  ttl_mode :: int
  max_entries :: nat
  hits :: u64
  misses :: u64

definition dns_new :: "int \<Rightarrow> nat \<Rightarrow> dns_cache" where
  "dns_new mode entries = \<lparr>cache = [], ttl_mode = mode, max_entries = entries, hits = 0, misses = 0\<rparr>"

definition is_enabled :: "dns_cache \<Rightarrow> bool" where
  "is_enabled D \<longleftrightarrow> ttl_mode D \<noteq> 0"

definition dns_get :: "instant \<Rightarrow> string \<Rightarrow> bool \<Rightarrow> dns_cache \<Rightarrow> dns_cache \<times> socket_addr list option" where
  "dns_get now key ip_guard_enabled D =
     (if \<not> is_enabled D then (D, None)
      else case map_of (cache D) key of
        None \<Rightarrow> (D, None)
      | Some entry \<Rightarrow>
          if now - inserted_at entry > ttl entry
          then (D\<lparr>cache := dm_remove key (cache D), misses := misses D + 1\<rparr>, None)
          else
            (let as = (if ip_guard_enabled then filter (\<lambda>a. \<not> is_dangerous_ip (fst a)) (addrs entry) else addrs entry) in
             if as = [] then (D\<lparr>cache := dm_remove key (cache D), misses := misses D + 1\<rparr>, None)
             else (D\<lparr>cache := dm_insert key (entry\<lparr>last_accessed := now\<rparr>) (cache D), hits := hits D + 1\<rparr>, Some as)))"

definition resolve_ttl :: "dns_cache \<Rightarrow> duration option \<Rightarrow> duration" where
  "resolve_ttl D native_ttl =
     (if ttl_mode D < 0 then (case native_ttl of Some t \<Rightarrow> t | None \<Rightarrow> from_secs 60)
      else from_secs (nat (ttl_mode D)))"

definition cleanup_expired :: "instant \<Rightarrow> dns_cache \<Rightarrow> dns_cache" where
  "cleanup_expired now D = D\<lparr>cache := dm_retain (\<lambda>_ e. now - inserted_at e \<le> ttl e) (cache D)\<rparr>"

definition evict_lru :: "dns_cache \<Rightarrow> dns_cache" where
  "evict_lru D =
     (case dm_oldest last_accessed 1 (cache D) of
        [] \<Rightarrow> D
      | key # _ \<Rightarrow> D\<lparr>cache := dm_remove key (cache D)\<rparr>)"

definition dns_insert :: "instant \<Rightarrow> string \<Rightarrow> socket_addr list \<Rightarrow> duration option \<Rightarrow> dns_cache \<Rightarrow> dns_cache" where
  "dns_insert now key as native_ttl D =
     (if \<not> is_enabled D then D
      else
        (let D1 = (if length (cache D) \<ge> max_entries D
                   then (let C = cleanup_expired now D in if length (cache C) \<ge> max_entries C then evict_lru C else C)
                   else D)
         in D1\<lparr>cache := dm_insert key \<lparr>addrs = as, inserted_at = now, last_accessed = now, ttl = resolve_ttl D1 native_ttl\<rparr>
                          (cache D1)\<rparr>))"

subsection \<open>The cache as a machine\<close>

datatype dns_op = DnsGet string bool | DnsInsert string "socket_addr list" "duration option" | DnsCleanup

fun dns_step :: "instant \<times> dns_op \<Rightarrow> dns_cache \<Rightarrow> dns_cache" where
  "dns_step (now, DnsGet k g) D = fst (dns_get now k g D)"
| "dns_step (now, DnsInsert k as t) D = dns_insert now k as t D"
| "dns_step (now, DnsCleanup) D = cleanup_expired now D"

definition dns_ok :: "dns_cache \<Rightarrow> bool" where
  "dns_ok D \<longleftrightarrow> dm_ok (cache D) \<and> length (cache D) \<le> max 1 (max_entries D)"

lemma evict_lru_eq: "cache (evict_lru D) = dm_remove_all (dm_oldest last_accessed 1 (cache D)) (cache D)"
proof (cases "dm_oldest last_accessed 1 (cache D)")
  case (Cons k ks)
  have "length (dm_oldest last_accessed 1 (cache D)) \<le> 1" by (simp add: dm_oldest_def)
  with Cons show ?thesis by (simp add: evict_lru_def dm_remove_all_def)
qed (simp add: evict_lru_def dm_remove_all_def)

lemma length_evict_lru: "dm_ok (cache D) \<Longrightarrow> length (cache (evict_lru D)) = length (cache D) - 1"
  by (simp add: evict_lru_eq length_evict)

lemma dm_ok_evict_lru: "dm_ok (cache D) \<Longrightarrow> dm_ok (cache (evict_lru D))"
  by (simp add: evict_lru_eq)

lemma evict_lru_fields [simp]: "max_entries (evict_lru D) = max_entries D" "ttl_mode (evict_lru D) = ttl_mode D"
  by (simp_all add: evict_lru_def split: list.split)

lemma cleanup_expired_fields [simp]:
  "max_entries (cleanup_expired now D) = max_entries D" "ttl_mode (cleanup_expired now D) = ttl_mode D"
  by (simp_all add: cleanup_expired_def)

text \<open>The cache after making room for one more entry.\<close>

definition roomy :: "instant \<Rightarrow> dns_cache \<Rightarrow> dns_cache" where
  "roomy now D = (if length (cache D) \<ge> max_entries D
     then (let C = cleanup_expired now D in if length (cache C) \<ge> max_entries C then evict_lru C else C) else D)"

lemma roomy_fields [simp]: "max_entries (roomy now D) = max_entries D" "ttl_mode (roomy now D) = ttl_mode D"
  by (simp_all add: roomy_def Let_def)

lemma length_roomy:
  assumes "dns_ok D"
  shows "dm_ok (cache (roomy now D)) \<and> length (cache (roomy now D)) < max 1 (max_entries D)"
proof -
  let ?C = "cleanup_expired now D"
  have c: "dm_ok (cache ?C)" "length (cache ?C) \<le> max 1 (max_entries D)"
    using assms by (auto simp: dns_ok_def cleanup_expired_def intro: length_dm_retain_leI)
  then show ?thesis
    using assms by (auto simp: roomy_def Let_def length_evict_lru dm_ok_evict_lru dns_ok_def)
qed

lemma dns_insert_eq:
  "dns_insert now key as t D =
     (if \<not> is_enabled D then D
      else (roomy now D)\<lparr>cache := dm_insert key \<lparr>addrs = as, inserted_at = now, last_accessed = now,
              ttl = resolve_ttl D t\<rparr> (cache (roomy now D))\<rparr>)"
  by (simp add: dns_insert_def roomy_def Let_def resolve_ttl_def)

lemma dns_get_ok: "dns_ok D \<Longrightarrow> dns_ok (fst (dns_get now k g D))"
  by (auto simp: dns_get_def dns_ok_def Let_def length_dm_insert dm_contains_map_of split: option.splits
      intro: length_dm_remove_leI)

lemma dns_insert_ok: "dns_ok D \<Longrightarrow> dns_ok (dns_insert now k as t D)"
  using length_roomy [of D now] by (auto simp: dns_insert_eq dns_ok_def length_dm_insert)

lemma cleanup_expired_ok: "dns_ok D \<Longrightarrow> dns_ok (cleanup_expired now D)"
  by (auto simp: cleanup_expired_def dns_ok_def intro: length_dm_retain_leI)

lemma dns_step_ok: "dns_ok D \<Longrightarrow> dns_ok (dns_step e D)"
  by (cases e; cases "snd e") (simp_all add: dns_get_ok dns_insert_ok cleanup_expired_ok)

interpretation dns: machine dns_step dns_ok
  by unfold_locales (rule dns_step_ok)

lemma max_entries_step [simp]: "max_entries (dns_step e D) = max_entries D"
  by (cases e; cases "snd e") (auto simp: dns_get_def dns_insert_eq Let_def split: option.splits)

lemma max_entries_run [simp]: "max_entries (fold dns_step ops D) = max_entries D"
  by (induction ops arbitrary: D) simp_all

lemma dns_get_hit:
  assumes "dns_get now key g D = (D', Some as)"
  shows "\<exists>e. map_of (cache D) key = Some e \<and> now - inserted_at e \<le> ttl e \<and> set as \<subseteq> set (addrs e) \<and> as \<noteq> []
     \<and> (g \<longrightarrow> list_all (\<lambda>a. \<not> is_dangerous_ip (fst a)) as)"
  using assms by (auto simp: dns_get_def Let_def list_all_iff split: option.splits if_splits)

subsection \<open>Properties\<close>

text \<open>What the cache returns is safe, fresh and real: a hit returns a non-empty part of the addresses
  stored under the key, no older than their time to live, and with the guard on no reserved address,
  even if it was stored while the guard was off.\<close>

theorem dns_hit_safe:
  assumes "dns_get now key g D = (D', Some as)"
  shows "\<exists>e. map_of (cache D) key = Some e \<and> now - inserted_at e \<le> ttl e \<and> set as \<subseteq> set (addrs e) \<and> as \<noteq> []
     \<and> (g \<longrightarrow> list_all (\<lambda>a. \<not> is_dangerous_ip (fst a)) as)"
  using assms by (rule dns_get_hit)

theorem dns_hit_safe_witness:
  "let D = dns_insert 5 ''h:80'' [(V4 10 0 0 1, 80), (V4 93 184 216 34, 80)] None (dns_new 60 10) in
   snd (dns_get 9 ''h:80'' True D) = Some [(V4 93 184 216 34, 80)]
   \<and> (\<exists>e. map_of (cache D) ''h:80'' = Some e \<and> 9 - inserted_at e \<le> ttl e)"
proof -
  let ?D = "dns_insert 5 ''h:80'' [(V4 10 0 0 1, 80), (V4 93 184 216 34, 80)] None (dns_new 60 10)"
  have "is_dangerous_ip (V4 10 0 0 1)" "\<not> is_dangerous_ip (V4 93 184 216 34)" by code_simp+
  then have g: "snd (dns_get 9 ''h:80'' True ?D) = Some [(V4 93 184 216 34, 80)]"
    by (simp add: dns_get_def dns_insert_eq dns_new_def is_enabled_def resolve_ttl_def from_secs_def roomy_def Let_def)
  then have "dns_get 9 ''h:80'' True ?D = (fst (dns_get 9 ''h:80'' True ?D), Some [(V4 93 184 216 34, 80)])"
    by (metis prod.collapse)
  from dns_hit_safe [OF this] g show ?thesis by (auto simp: Let_def)
qed

text \<open>A resolution just stored is found again until it expires: with caching on, a lookup within the
  time to live returns the stored addresses, less the reserved ones when the guard is on.\<close>

theorem dns_insert_get:
  assumes "is_enabled D" and "later - now \<le> resolve_ttl D t"
    and "as' = (if g then filter (\<lambda>a. \<not> is_dangerous_ip (fst a)) as else as)" and "as' \<noteq> []"
  shows "snd (dns_get later key g (dns_insert now key as t D)) = Some as'"
  using assms by (cases g) (auto simp: dns_get_def dns_insert_eq is_enabled_def Let_def)

theorem dns_insert_get_witness:
  "snd (dns_get 9 ''h:80'' False (dns_insert 5 ''h:80'' [(V4 10 0 0 1, 80)] None (dns_new (-1) 10)))
     = Some [(V4 10 0 0 1, 80)]"
  by (rule dns_insert_get) (simp_all add: is_enabled_def dns_new_def resolve_ttl_def from_secs_def)

text \<open>The cache never holds more entries than configured (one when the configured bound is zero),
  whatever lookups, insertions and cleanups happen.\<close>

theorem dns_cache_bounded: "length (cache (fold dns_step ops (dns_new mode n))) \<le> max 1 n"
proof -
  have "dns_ok (fold dns_step ops (dns_new mode n))"
    by (rule dns.run_inv) (simp add: dns_ok_def dns_new_def)
  then show ?thesis by (simp add: dns_ok_def) (simp add: dns_new_def)
qed

end
