(* ===== verification/Strings.thy ===== *)
theory Strings
  imports Net
begin

text \<open>
  Strings as the sources use them: bytes and UTF-8 (\<open>String::from_utf8\<close>, \<open>from_utf8_lossy\<close>),
  splitting, trimming and searching. A string is the list of its UTF-8 bytes; where the source goes
  through its characters, \<open>utf8_chars\<close> cuts it into them, each again the list of its bytes. White space is that of
  \<open>char::is_whitespace\<close>, the Unicode property \<open>White_Space\<close>.
\<close>

subsection \<open>Bytes and strings\<close>

definition bytes_of :: "string \<Rightarrow> u8 list" where
  "bytes_of = map (\<lambda>c. of_nat (of_char c))"

definition str_of :: "u8 list \<Rightarrow> string" where
  "str_of = map (\<lambda>b. char_of (unat b))"

definition cont_byte :: "u8 \<Rightarrow> bool" where
  "cont_byte b \<longleftrightarrow> 0x80 \<le> b \<and> b \<le> 0xBF"

text \<open>Well-formed UTF-8 (the table of \<open>core::str::from_utf8\<close>).\<close>

fun valid_utf8 :: "u8 list \<Rightarrow> bool" where
  "valid_utf8 [] = True"
| "valid_utf8 (a # xs) =
     (if a < 0x80 then valid_utf8 xs
      else if 0xC2 \<le> a \<and> a \<le> 0xDF then
        (case xs of b # ys \<Rightarrow> cont_byte b \<and> valid_utf8 ys | _ \<Rightarrow> False)
      else if 0xE0 \<le> a \<and> a \<le> 0xEF then
        (case xs of b # c # ys \<Rightarrow>
            (if a = 0xE0 then 0xA0 \<le> b \<and> b \<le> 0xBF else if a = 0xED then 0x80 \<le> b \<and> b \<le> 0x9F else cont_byte b)
            \<and> cont_byte c \<and> valid_utf8 ys
         | _ \<Rightarrow> False)
      else if 0xF0 \<le> a \<and> a \<le> 0xF4 then
        (case xs of b # c # d # ys \<Rightarrow>
            (if a = 0xF0 then 0x90 \<le> b \<and> b \<le> 0xBF else if a = 0xF4 then 0x80 \<le> b \<and> b \<le> 0x8F else cont_byte b)
            \<and> cont_byte c \<and> cont_byte d \<and> valid_utf8 ys
         | _ \<Rightarrow> False)
      else False)"

definition from_utf8 :: "u8 list \<Rightarrow> string option" where
  "from_utf8 bs = (if valid_utf8 bs then Some (str_of bs) else None)"

lemma str_of_bytes_of [simp]: "str_of (bytes_of s) = s"
  by (induction s) (simp_all add: str_of_def bytes_of_def unat_of_nat)

lemma bytes_of_str_of [simp]: "bytes_of (str_of bs) = bs"
proof (induction bs)
  case (Cons b bs)
  have "unat b mod 256 = unat b" using unat_u8 [of b] by simp
  with Cons show ?case by (simp add: str_of_def bytes_of_def)
qed (simp add: str_of_def bytes_of_def)

lemma length_bytes_of [simp]: "length (bytes_of s) = length s"
  by (simp add: bytes_of_def)

definition ascii :: "string \<Rightarrow> bool" where
  "ascii s = list_all (\<lambda>c. (of_char c :: nat) < 128) s"

lemma valid_utf8_ascii: "ascii s \<Longrightarrow> valid_utf8 (bytes_of s)"
  by (induction s) (simp_all add: ascii_def bytes_of_def word_less_nat_alt unat_of_nat)

subsection \<open>Splitting, trimming, searching\<close>

fun split_on :: "char \<Rightarrow> string \<Rightarrow> string list" where
  "split_on c [] = [[]]"
| "split_on c (x # xs) =
     (if x = c then [] # split_on c xs
      else case split_on c xs of l # ls \<Rightarrow> (x # l) # ls | [] \<Rightarrow> [[x]])"

lemma split_on_chars: "c \<in> set s \<Longrightarrow> c = d \<or> (\<exists>l \<in> set (split_on d s). c \<in> set l)"
  by (induction s) (auto split: list.splits)

text \<open>\<open>str::chars\<close>: a character is a byte that is not a continuation byte, with the continuation bytes after it.\<close>

definition cont_char :: "char \<Rightarrow> bool" where
  "cont_char c \<longleftrightarrow> (let n = (of_char c :: nat) in 128 \<le> n \<and> n < 192)"

fun utf8_chars :: "string \<Rightarrow> string list" where
  "utf8_chars [] = []"
| "utf8_chars (c # cs) =
     (case utf8_chars cs of
        [] \<Rightarrow> [[c]]
      | ch # chs \<Rightarrow> if cont_char (hd ch) then (c # ch) # chs else [c] # ch # chs)"

definition white_space :: "nat list list" where
  "white_space = map (\<lambda>n. [n]) [9, 10, 11, 12, 13, 32] @ [[0xC2, 0x85], [0xC2, 0xA0], [0xE1, 0x9A, 0x80]]
     @ map (\<lambda>n. [0xE2, 0x80, n]) [0x80, 0x81, 0x82, 0x83, 0x84, 0x85, 0x86, 0x87, 0x88, 0x89, 0x8A, 0xA8, 0xA9, 0xAF]
     @ [[0xE2, 0x81, 0x9F], [0xE3, 0x80, 0x80]]"

definition is_whitespace :: "string \<Rightarrow> bool" where
  "is_whitespace ch \<longleftrightarrow> map of_char ch \<in> set white_space"

text \<open>\<open>split_whitespace\<close>: the maximal non-empty runs of other characters.\<close>

fun split_whitespace_aux :: "string \<Rightarrow> string list \<Rightarrow> string list" where
  "split_whitespace_aux cur [] = (if cur = [] then [] else [cur])"
| "split_whitespace_aux cur (ch # chs) =
     (if is_whitespace ch then (if cur = [] then [] else [cur]) @ split_whitespace_aux [] chs
      else split_whitespace_aux (cur @ ch) chs)"

definition split_whitespace :: "string \<Rightarrow> string list" where
  "split_whitespace s = split_whitespace_aux [] (utf8_chars s)"

definition trim_str :: "string \<Rightarrow> string" where
  "trim_str s = concat (rev (dropWhile is_whitespace (rev (dropWhile is_whitespace (utf8_chars s)))))"

text \<open>Cutting a string into its characters.\<close>

definition starts_char :: "string \<Rightarrow> bool" where
  "starts_char s \<longleftrightarrow> (case s of [] \<Rightarrow> True | c # _ \<Rightarrow> \<not> cont_char c)"

lemma utf8_chars_eq_Nil [simp]: "utf8_chars s = [] \<longleftrightarrow> s = []"
  by (cases s) (auto split: list.splits)

lemma utf8_chars_nonempty: "ch \<in> set (utf8_chars s) \<Longrightarrow> ch \<noteq> []"
  by (induction s arbitrary: ch) (auto split: list.splits if_splits)

lemma hd_utf8_chars: "s \<noteq> [] \<Longrightarrow> hd (hd (utf8_chars s)) = hd s"
  by (cases s) (auto split: list.splits)

lemma concat_utf8_chars [simp]: "concat (utf8_chars s) = s"
  by (induction s) (auto split: list.splits)

lemma utf8_chars_append: "starts_char b \<Longrightarrow> utf8_chars (a @ b) = utf8_chars a @ utf8_chars b"
proof (induction a)
  case (Cons c a)
  show ?case
  proof (cases "a = []")
    case True
    with Cons.prems hd_utf8_chars [of b] show ?thesis by (cases b) (auto simp: starts_char_def split: list.split)
  next
    case False
    then obtain ch chs where "utf8_chars a = ch # chs" by (cases "utf8_chars a") auto
    with Cons show ?thesis by simp
  qed
qed simp

lemma utf8_chars_single: "starts_char s \<Longrightarrow> utf8_chars (c # s) = [c] # utf8_chars s"
  using utf8_chars_append [of s "[c]"] by simp

definition char_ok :: "string \<Rightarrow> bool" where
  "char_ok ch \<longleftrightarrow> ch \<noteq> [] \<and> \<not> cont_char (hd ch) \<and> list_all cont_char (tl ch)"

lemma utf8_chars_tl: "utf8_chars s = ch # chs \<Longrightarrow> ch \<noteq> [] \<and> list_all cont_char (tl ch) \<and> list_all char_ok chs"
proof (induction s arbitrary: ch chs)
  case (Cons c s)
  show ?case
  proof (cases "utf8_chars s")
    case Nil
    with Cons.prems show ?thesis by auto
  next
    case u: (Cons d ds)
    from Cons.IH [OF u] have d: "d \<noteq> []" "list_all cont_char (tl d)" "list_all char_ok ds" by simp_all
    show ?thesis
    proof (cases "cont_char (hd d)")
      case True
      with Cons.prems u have "ch = c # d" "chs = ds" by simp_all
      with d True show ?thesis by (cases d) simp_all
    next
      case False
      with Cons.prems u have "ch = [c]" "chs = d # ds" by simp_all
      moreover have "char_ok d" using d False by (simp add: char_ok_def)
      ultimately show ?thesis using d by simp
    qed
  qed
qed simp

lemma utf8_chars_ok: "starts_char s \<Longrightarrow> list_all char_ok (utf8_chars s)"
proof (cases "utf8_chars s")
  case (Cons ch chs)
  assume "starts_char s"
  then have "\<not> cont_char (hd ch)" using hd_utf8_chars [of s] Cons by (cases s) (auto simp: starts_char_def)
  with utf8_chars_tl [OF Cons] show ?thesis by (simp add: Cons char_ok_def)
qed simp

lemma utf8_chars_cont: "list_all cont_char s \<Longrightarrow> utf8_chars (c # s) = [c # s]"
  by (induction s arbitrary: c) (auto split: list.split)

lemma utf8_chars_char: "char_ok ch \<Longrightarrow> utf8_chars ch = [ch]"
  using utf8_chars_cont [of "tl ch" "hd ch"] by (simp add: char_ok_def)

lemma utf8_chars_concat: "list_all char_ok chs \<Longrightarrow> utf8_chars (concat chs) = chs"
proof (induction chs)
  case (Cons ch chs)
  then have "starts_char (concat chs)" by (cases chs; cases "hd chs") (auto simp: starts_char_def char_ok_def)
  with Cons show ?case by (simp add: utf8_chars_append utf8_chars_char)
qed simp

declare utf8_chars.simps(2) [simp del]

lemma utf8_chars_one [simp]: "utf8_chars [c] = [[c]]"
  by (simp add: utf8_chars.simps)

lemma ascii_not_cont: "(of_char c :: nat) < 128 \<Longrightarrow> \<not> cont_char c"
  by (simp add: cont_char_def)

lemma utf8_chars_ascii: "ascii s \<Longrightarrow> utf8_chars s = map (\<lambda>c. [c]) s"
proof (induction s)
  case (Cons c s)
  then have "starts_char s" by (cases s) (auto simp: starts_char_def ascii_def ascii_not_cont)
  with Cons show ?case by (simp add: utf8_chars_single ascii_def)
qed simp

lemma valid_utf8_lead: "valid_utf8 (a # xs) \<Longrightarrow> a < 0x80 \<or> 0xC2 \<le> a"
proof (rule ccontr)
  assume v: "valid_utf8 (a # xs)" and "\<not> (a < 0x80 \<or> 0xC2 \<le> a)"
  then have a: "\<not> a < 0x80" "a < 0xC2" by auto
  have "\<not> k \<le> a" if "0xC2 \<le> k" for k using a(2) that by (meson le_less_trans leD)
  then have "\<not> 0xC2 \<le> a" "\<not> 0xE0 \<le> a" "\<not> 0xF0 \<le> a" by simp_all
  with v a(1) show False by simp
qed

lemma starts_char_valid: "valid_utf8 (bytes_of s) \<Longrightarrow> starts_char s"
proof (cases s)
  case (Cons c cs)
  assume "valid_utf8 (bytes_of s)"
  then have "(of_nat (of_char c) :: u8) < 0x80 \<or> 0xC2 \<le> (of_nat (of_char c) :: u8)"
    using valid_utf8_lead by (simp add: Cons bytes_of_def del: valid_utf8.simps)
  then show ?thesis by (auto simp: Cons starts_char_def cont_char_def word_less_nat_alt word_le_nat_alt unat_of_nat)
qed (simp add: starts_char_def)

lemma trim_str_clean:
  assumes "ascii s" and "\<forall>c \<in> set s. \<not> is_whitespace [c]"
  shows "trim_str s = s"
proof -
  have "dropWhile is_whitespace (map (\<lambda>c. [c]) t) = map (\<lambda>c. [c]) t" if "set t = set s" for t
    using that assms(2) by (cases t) auto
  from this [of s] this [of "rev s"] show ?thesis
    using assms(1) by (simp add: trim_str_def utf8_chars_ascii rev_map concat_map_singleton)
qed

text \<open>\<open>str::contains\<close>.\<close>

fun contains :: "string \<Rightarrow> string \<Rightarrow> bool" where
  "contains needle [] = (needle = [])"
| "contains needle (c # cs) = (take (length needle) (c # cs) = needle \<or> contains needle cs)"


definition starts_with :: "string \<Rightarrow> string \<Rightarrow> bool" where
  "starts_with p s \<longleftrightarrow> take (length p) s = p"

definition strip_prefix :: "string \<Rightarrow> string \<Rightarrow> string option" where
  "strip_prefix p s = (if starts_with p s then Some (drop (length p) s) else None)"

definition trim_start :: "string \<Rightarrow> string" where
  "trim_start s = concat (dropWhile is_whitespace (utf8_chars s))"

lemma starts_with_iff: "starts_with p s \<longleftrightarrow> (\<exists>r. s = p @ r)"
  by (metis append_eq_conv_conj append_take_drop_id starts_with_def)

lemma strip_prefix_iff: "strip_prefix p s = Some r \<longleftrightarrow> s = p @ r"
  by (auto simp: strip_prefix_def starts_with_iff)

lemma split_on_not_Nil [simp]: "split_on c s \<noteq> []"
  by (cases s) (auto split: list.splits)

lemma split_on_parts: "l \<in> set (split_on c s) \<Longrightarrow> c \<notin> set l"
  by (induction s arbitrary: l) (auto split: list.splits if_splits)

lemma split_on_single [simp]: "c \<notin> set l \<Longrightarrow> split_on c l = [l]"
  by (induction l) auto

lemma split_on_append [simp]: "c \<notin> set l \<Longrightarrow> split_on c (l @ c # s) = l # split_on c s"
  by (induction l) auto

text \<open>\<open>str::splitn\<close>: at most \<open>n\<close> pieces, the last one unsplit.\<close>

fun splitn :: "nat \<Rightarrow> char \<Rightarrow> string \<Rightarrow> string list" where
  "splitn 0 c s = []"
| "splitn (Suc 0) c s = [s]"
| "splitn (Suc (Suc n)) c s =
     (if c \<in> set s then takeWhile (\<lambda>x. x \<noteq> c) s # splitn (Suc n) c (tl (dropWhile (\<lambda>x. x \<noteq> c) s)) else [s])"

lemma takeWhile_delim: "c \<notin> set l \<Longrightarrow> takeWhile (\<lambda>x. x \<noteq> c) (l @ c # s) = l"
  by (induction l) auto

lemma dropWhile_delim: "c \<notin> set l \<Longrightarrow> dropWhile (\<lambda>x. x \<noteq> c) (l @ c # s) = c # s"
  by (induction l) auto

lemma splitn_append: "c \<notin> set l \<Longrightarrow> splitn (Suc (Suc n)) c (l @ c # s) = l # splitn (Suc n) c s"
  by (simp add: takeWhile_delim dropWhile_delim)

lemma splitn_single: "c \<notin> set l \<Longrightarrow> splitn (Suc n) c l = [l]"
  by (cases n) simp_all

lemma splitn_parts:
  assumes "splitn (Suc (Suc n)) c s = l # ps"
  shows "c \<notin> set l \<and> (ps = [] \<and> s = l \<or> (\<exists>r. s = l @ c # r \<and> ps = splitn (Suc n) c r))"
proof (cases "c \<in> set s")
  case True
  then obtain p r where "s = p @ c # r" "c \<notin> set p" by (meson split_list_first)
  with assms show ?thesis by (auto simp: takeWhile_delim dropWhile_delim)
qed (use assms in auto)

subsection \<open>Lossy decoding\<close>

text \<open>
  \<open>String::from_utf8_lossy\<close>: every maximal ill-formed piece, as the standard library delimits it,
  becomes one U+FFFD. A byte past the end reads as 0. \<open>utf8_chunk\<close> is the length of the next piece
  and whether it is a well-formed character.
\<close>

definition byte_at :: "u8 list \<Rightarrow> nat \<Rightarrow> u8" where
  "byte_at bs i = (if i < length bs then bs ! i else 0)"

definition second_byte3 :: "u8 \<Rightarrow> u8 \<Rightarrow> bool" where
  "second_byte3 a b \<longleftrightarrow>
     (if a = 0xE0 then 0xA0 \<le> b \<and> b \<le> 0xBF else if a = 0xED then 0x80 \<le> b \<and> b \<le> 0x9F else cont_byte b)"

definition second_byte4 :: "u8 \<Rightarrow> u8 \<Rightarrow> bool" where
  "second_byte4 a b \<longleftrightarrow>
     (if a = 0xF0 then 0x90 \<le> b \<and> b \<le> 0xBF else if a = 0xF4 then 0x80 \<le> b \<and> b \<le> 0x8F else cont_byte b)"

definition utf8_chunk :: "u8 list \<Rightarrow> nat \<times> bool" where
  "utf8_chunk bs =
     (let a = byte_at bs 0; b = byte_at bs 1 in
      if a < 0x80 then (1, True)
      else if 0xC2 \<le> a \<and> a \<le> 0xDF then (if cont_byte b then (2, True) else (1, False))
      else if 0xE0 \<le> a \<and> a \<le> 0xEF then
        (if \<not> second_byte3 a b then (1, False) else if \<not> cont_byte (byte_at bs 2) then (2, False) else (3, True))
      else if 0xF0 \<le> a \<and> a \<le> 0xF4 then
        (if \<not> second_byte4 a b then (1, False) else if \<not> cont_byte (byte_at bs 2) then (2, False)
         else if \<not> cont_byte (byte_at bs 3) then (3, False) else (4, True))
      else (1, False))"

definition replacement_char :: "u8 list" where
  "replacement_char = [0xEF, 0xBF, 0xBD]"

lemma utf8_chunk_pos: "0 < fst (utf8_chunk bs)"
  by (simp add: utf8_chunk_def Let_def)

function lossy :: "u8 list \<Rightarrow> u8 list" where
  "lossy [] = []"
| "lossy (b # bs) =
     (case utf8_chunk (b # bs) of (n, ok) \<Rightarrow>
        (if ok then take n (b # bs) else replacement_char) @ lossy (drop n (b # bs)))"
  by pat_completeness auto

termination
proof (relation "measure length")
  fix b bs n ok
  assume "(n, ok) = utf8_chunk (b # bs)"
  then have "0 < n" using utf8_chunk_pos [of "b # bs"] by (metis fst_conv)
  then show "(drop n (b # bs), b # bs) \<in> measure length" by simp
qed simp

definition from_utf8_lossy :: "u8 list \<Rightarrow> string" where
  "from_utf8_lossy bs = str_of (lossy bs)"

lemma byte_at_simps [simp]:
  "byte_at [] i = 0" "byte_at (b # bs) 0 = b" "byte_at (b # bs) (Suc i) = byte_at bs i"
  by (simp_all add: byte_at_def)

lemma not_cont_0 [simp]: "\<not> cont_byte 0" "\<not> second_byte3 a 0" "\<not> second_byte4 a 0"
  by (simp_all add: cont_byte_def second_byte3_def second_byte4_def)

text \<open>Well-formedness, chunk by chunk.\<close>

definition lead2 :: "u8 \<Rightarrow> bool" where "lead2 a \<longleftrightarrow> 0xC2 \<le> a \<and> a \<le> 0xDF"
definition lead3 :: "u8 \<Rightarrow> bool" where "lead3 a \<longleftrightarrow> 0xE0 \<le> a \<and> a \<le> 0xEF"
definition lead4 :: "u8 \<Rightarrow> bool" where "lead4 a \<longleftrightarrow> 0xF0 \<le> a \<and> a \<le> 0xF4"

lemmas folded = lead2_def [symmetric] lead3_def [symmetric] lead4_def [symmetric]
  second_byte3_def [symmetric] second_byte4_def [symmetric]

lemmas utf8_leads = valid_utf8.simps(2) [unfolded folded]
lemmas chunk_leads = utf8_chunk_def [unfolded folded] Let_def byte_at_simps

lemma byte_at_positions:
  "byte_at (a # bs) 1 = byte_at bs 0" "byte_at (a # b # bs) 2 = byte_at bs 0" "byte_at (a # b # c # bs) 3 = byte_at bs 0"
  "byte_at [a] 2 = 0" "byte_at [a] 3 = 0" "byte_at [a, b] 3 = 0"
  by (simp_all add: byte_at_def nth_Cons')

lemma chunk_ascii: "b < 0x80 \<Longrightarrow> utf8_chunk (b # bs) = (1, True)"
  by (simp add: utf8_chunk_def Let_def)

lemma chunk_lead2:
  "\<not> b < 0x80 \<Longrightarrow> lead2 b \<Longrightarrow>
   utf8_chunk (b # bs) = (case bs of c # cs \<Rightarrow> (if cont_byte c then (2, True) else (1, False)) | _ \<Rightarrow> (1, False))"
  by (cases bs) (simp_all only: chunk_leads byte_at_positions list.case not_cont_0 if_True if_False simp_thms)

lemma chunk_lead3:
  "\<not> b < 0x80 \<Longrightarrow> \<not> lead2 b \<Longrightarrow> lead3 b \<Longrightarrow>
   utf8_chunk (b # bs) =
     (case bs of [] \<Rightarrow> (1, False)
      | c # cs \<Rightarrow> if \<not> second_byte3 b c then (1, False)
                  else case cs of [] \<Rightarrow> (2, False) | d # ds \<Rightarrow> if cont_byte d then (3, True) else (2, False))"
  by (cases bs; cases "tl bs"; simp only: chunk_leads byte_at_positions list.case list.sel not_cont_0 if_True if_False simp_thms)
    simp_all

lemma chunk_lead4:
  "\<not> b < 0x80 \<Longrightarrow> \<not> lead2 b \<Longrightarrow> \<not> lead3 b \<Longrightarrow> lead4 b \<Longrightarrow>
   utf8_chunk (b # bs) =
     (case bs of [] \<Rightarrow> (1, False)
      | c # cs \<Rightarrow> if \<not> second_byte4 b c then (1, False)
                  else case cs of [] \<Rightarrow> (2, False)
                  | d # ds \<Rightarrow> if \<not> cont_byte d then (2, False)
                              else case ds of [] \<Rightarrow> (3, False) | e # es \<Rightarrow> if cont_byte e then (4, True) else (3, False))"
  by (cases bs; cases "tl bs"; cases "tl (tl bs)";
      simp only: chunk_leads byte_at_positions list.case list.sel not_cont_0 if_True if_False simp_thms)
    simp_all

lemma chunk_other:
  "\<not> b < 0x80 \<Longrightarrow> \<not> lead2 b \<Longrightarrow> \<not> lead3 b \<Longrightarrow> \<not> lead4 b \<Longrightarrow> utf8_chunk (b # bs) = (1, False)"
  by (simp only: chunk_leads if_True if_False simp_thms)

lemmas chunk_cases = chunk_ascii chunk_lead2 chunk_lead3 chunk_lead4 chunk_other

lemma lead_cases:
  obtains "b < 0x80" | "\<not> b < 0x80" "lead2 b" | "\<not> b < 0x80" "\<not> lead2 b" "lead3 b"
    | "\<not> b < 0x80" "\<not> lead2 b" "\<not> lead3 b" "lead4 b" | "\<not> b < 0x80" "\<not> lead2 b" "\<not> lead3 b" "\<not> lead4 b"
  by blast

lemma valid_utf8_Cons:
  "valid_utf8 (b # bs) \<longleftrightarrow>
     snd (utf8_chunk (b # bs)) \<and> valid_utf8 (drop (fst (utf8_chunk (b # bs))) (b # bs))"
  by (cases b rule: lead_cases)
    (simp_all add: chunk_cases utf8_leads eval_nat_numeral del: valid_utf8.simps(2) split: list.split)

lemma chunk_prefix:
  "utf8_chunk (b # bs) = (n, True) \<Longrightarrow> utf8_chunk (take n (b # bs) @ rest) = (n, True) \<and> n \<le> length (b # bs)"
  by (cases b rule: lead_cases)
    (auto simp add: chunk_cases eval_nat_numeral split: list.splits if_splits)

lemma valid_utf8_lossy: "valid_utf8 (lossy bs)"
proof (induction bs rule: lossy.induct)
  case (2 b bs)
  obtain n ok where n: "utf8_chunk (b # bs) = (n, ok)" by fastforce
  note IH = 2 [OF n [symmetric]]
  show ?case
  proof (cases ok)
    case True
    then have c: "utf8_chunk (take n (b # bs) @ lossy (drop n (b # bs))) = (n, True)" "n \<le> length (b # bs)"
      using chunk_prefix n by auto
    moreover obtain m where "n = Suc m" using utf8_chunk_pos [of "b # bs"] n by (cases n) auto
    ultimately show ?thesis using IH True n valid_utf8_Cons [of b "take m bs @ lossy (drop n (b # bs))"] by simp
  next
    case False
    then show ?thesis using IH n by (simp add: replacement_char_def cont_byte_def)
  qed
qed simp

lemma lossy_valid: "valid_utf8 bs \<Longrightarrow> lossy bs = bs"
proof (induction bs rule: lossy.induct)
  case (2 b bs)
  obtain n ok where n: "utf8_chunk (b # bs) = (n, ok)" by fastforce
  with 2(2) have "ok" "valid_utf8 (drop n (b # bs))" unfolding valid_utf8_Cons by simp_all
  with 2(1) [OF n [symmetric]] n show ?case by simp
qed simp

lemma length_lossy: "length (lossy bs) \<le> 3 * length bs"
proof (induction bs rule: lossy.induct)
  case (2 b bs)
  obtain n ok where n: "utf8_chunk (b # bs) = (n, ok)" by fastforce
  have "0 < n" using utf8_chunk_pos [of "b # bs"] n by simp
  with 2 [OF n [symmetric]] n show ?case by (auto simp: replacement_char_def min_def)
qed simp

lemma lossy_ascii: "ascii s \<Longrightarrow> from_utf8_lossy (bytes_of s) = s"
  by (simp add: from_utf8_lossy_def lossy_valid valid_utf8_ascii)

end
