(* ===== verification/Socks_Protocol.thy ===== *)
theory Socks_Protocol
  imports Strings
begin

text \<open>
  Models \<open>src/socks/protocol.rs\<close> and \<open>src/socks/auth.rs\<close>: the SOCKS5 wire formats. A
  reader is a function on the bytes that are still to come; it returns the value and the
  remaining bytes, or the error together with the reply bytes it sent before giving up. A stream
  that ends early is \<open>UnexpectedEof\<close>. Strings are byte strings; \<open>String::from_utf8\<close> tests
  \<open>valid_utf8\<close>.
\<close>

subsection \<open>Constants\<close>

definition SOCKS_VERSION :: u8 where "SOCKS_VERSION = 5"
definition AUTH_NONE :: u8 where "AUTH_NONE = 0"
definition AUTH_PASSWORD :: u8 where "AUTH_PASSWORD = 2"
definition AUTH_NO_ACCEPTABLE :: u8 where "AUTH_NO_ACCEPTABLE = 0xFF"
definition CMD_CONNECT :: u8 where "CMD_CONNECT = 1"
definition CMD_UDP_ASSOCIATE :: u8 where "CMD_UDP_ASSOCIATE = 3"
definition ATYP_IPV4 :: u8 where "ATYP_IPV4 = 1"
definition ATYP_DOMAIN :: u8 where "ATYP_DOMAIN = 3"
definition ATYP_IPV6 :: u8 where "ATYP_IPV6 = 4"
definition REPLY_SUCCESS :: u8 where "REPLY_SUCCESS = 0"
definition REPLY_GENERAL_FAILURE :: u8 where "REPLY_GENERAL_FAILURE = 1"
definition REPLY_NOT_ALLOWED :: u8 where "REPLY_NOT_ALLOWED = 2"
definition REPLY_HOST_UNREACHABLE :: u8 where "REPLY_HOST_UNREACHABLE = 4"
definition REPLY_CONNECTION_REFUSED :: u8 where "REPLY_CONNECTION_REFUSED = 5"
definition REPLY_COMMAND_NOT_SUPPORTED :: u8 where "REPLY_COMMAND_NOT_SUPPORTED = 7"
definition REPLY_ADDRESS_TYPE_NOT_SUPPORTED :: u8 where "REPLY_ADDRESS_TYPE_NOT_SUPPORTED = 8"
definition SUBNEG_VERSION :: u8 where "SUBNEG_VERSION = 1"
definition AUTH_SUCCESS :: u8 where "AUTH_SUCCESS = 0"
definition AUTH_FAILURE :: u8 where "AUTH_FAILURE = 1"
definition MAX_DOMAIN_LENGTH :: nat where "MAX_DOMAIN_LENGTH = 253"
definition MAX_LABEL_LENGTH :: nat where "MAX_LABEL_LENGTH = 63"

lemmas socks_consts = SOCKS_VERSION_def AUTH_NONE_def AUTH_PASSWORD_def AUTH_NO_ACCEPTABLE_def CMD_CONNECT_def
  CMD_UDP_ASSOCIATE_def ATYP_IPV4_def ATYP_DOMAIN_def ATYP_IPV6_def REPLY_SUCCESS_def REPLY_GENERAL_FAILURE_def
  REPLY_NOT_ALLOWED_def REPLY_HOST_UNREACHABLE_def REPLY_CONNECTION_REFUSED_def REPLY_COMMAND_NOT_SUPPORTED_def
  REPLY_ADDRESS_TYPE_NOT_SUPPORTED_def SUBNEG_VERSION_def AUTH_SUCCESS_def AUTH_FAILURE_def MAX_DOMAIN_LENGTH_def
  MAX_LABEL_LENGTH_def

subsection \<open>Domain names\<close>

datatype domain_error =
    EmptyDomain
  | DomainTooLong nat
  | RootOnly
  | PurelyNumeric
  | EmptyLabel
  | LabelTooLong nat
  | LabelHyphen string
  | InvalidCharacter string

definition strip_dot :: "string \<Rightarrow> string" where
  "strip_dot s = (if s \<noteq> [] \<and> last s = CHR ''.'' then butlast s else s)"

definition check_label :: "string \<Rightarrow> domain_error + unit" where
  "check_label label =
     (if label = [] then Inl EmptyLabel
      else if length label > MAX_LABEL_LENGTH then Inl (LabelTooLong (length label))
      else if hd label = CHR ''-'' \<or> last label = CHR ''-'' then Inl (LabelHyphen label)
      else if \<not> list_all (\<lambda>ch. is_ascii_alphanumeric ch \<or> ch = CHR ''-'') label then Inl (InvalidCharacter label)
      else Inr ())"

fun check_labels :: "string list \<Rightarrow> domain_error + unit" where
  "check_labels [] = Inr ()"
| "check_labels (l # ls) = (case check_label l of Inl e \<Rightarrow> Inl e | Inr _ \<Rightarrow> check_labels ls)"

definition validate_domain :: "string \<Rightarrow> domain_error + unit" where
  "validate_domain domain =
     (if domain = [] then Inl EmptyDomain
      else if length domain > MAX_DOMAIN_LENGTH then Inl (DomainTooLong (length domain))
      else
        (let normalized = strip_dot domain in
         if normalized = [] then Inl RootOnly
         else
           (let labels = split_on CHR ''.'' normalized;
                all_numeric = list_all (\<lambda>l. l \<noteq> [] \<and> list_all is_ascii_digit l) labels in
            if all_numeric then (if parse_ip domain = None then Inl PurelyNumeric else Inr ())
            else check_labels labels)))"

subsection \<open>Addresses and requests\<close>

datatype target_addr =
    Ipv4 u8 u8 u8 u8 u16
  | Ipv6 "u8 list" u16
  | Domain string u16

fun chunks2 :: "u8 list \<Rightarrow> (u8 \<times> u8) list" where
  "chunks2 (a # b # xs) = (a, b) # chunks2 xs"
| "chunks2 _ = []"

fun host_string :: "target_addr \<Rightarrow> string" where
  "host_string (Ipv4 a b c d _) = show_ipv4 a b c d"
| "host_string (Ipv6 ip _) = join '':'' (map (\<lambda>(a, b). hex2 (unat a) @ hex2 (unat b)) (chunks2 ip))"
| "host_string (Domain domain _) = domain"

fun target_port :: "target_addr \<Rightarrow> u16" where
  "target_port (Ipv4 _ _ _ _ p) = p"
| "target_port (Ipv6 _ p) = p"
| "target_port (Domain _ p) = p"

datatype socks_request = Connect target_addr | UdpAssociate target_addr

datatype socks_error = UnexpectedEof | Bail string | BadDomain domain_error

definition to_be_bytes :: "u16 \<Rightarrow> u8 list" where
  "to_be_bytes p = [hi8 p, lo8 p]"

text \<open>The bytes of an address; \<^const>\<open>None\<close> is the failed assertion on the length of a domain.\<close>

fun address_bytes :: "target_addr \<Rightarrow> u8 list option" where
  "address_bytes (Ipv4 a b c d port) = Some ([ATYP_IPV4] @ [a, b, c, d] @ to_be_bytes port)"
| "address_bytes (Ipv6 ip port) = Some ([ATYP_IPV6] @ ip @ to_be_bytes port)"
| "address_bytes (Domain domain port) =
     (if length domain \<le> 255
      then Some ([ATYP_DOMAIN, of_nat (length domain)] @ bytes_of domain @ to_be_bytes port) else None)"

text \<open>The bytes \<open>send_reply\<close> writes.\<close>

definition send_reply :: "u8 \<Rightarrow> target_addr \<Rightarrow> u8 list option" where
  "send_reply reply bind_addr = map_option (\<lambda>a. [SOCKS_VERSION, reply, 0] @ a) (address_bytes bind_addr)"

definition send_method_selection :: "u8 \<Rightarrow> u8 list" where
  "send_method_selection m = [SOCKS_VERSION, m]"

definition send_auth_result :: "bool \<Rightarrow> u8 list" where
  "send_auth_result success = [SUBNEG_VERSION, if success then AUTH_SUCCESS else AUTH_FAILURE]"

subsection \<open>Readers\<close>

type_synonym 'a reader = "u8 list \<Rightarrow> (socks_error \<times> u8 list) + ('a \<times> u8 list)"

definition ret :: "'a \<Rightarrow> 'a reader" where
  "ret x bs = Inr (x, bs)"

definition bail :: "socks_error \<Rightarrow> u8 list \<Rightarrow> 'a reader" where
  "bail e reply bs = Inl (e, reply)"

definition rd_bind :: "'a reader \<Rightarrow> ('a \<Rightarrow> 'b reader) \<Rightarrow> 'b reader" where
  "rd_bind m f bs = (case m bs of Inl e \<Rightarrow> Inl e | Inr (x, rest) \<Rightarrow> f x rest)"

definition read_exact :: "nat \<Rightarrow> u8 list reader" where
  "read_exact n bs = (if length bs < n then Inl (UnexpectedEof, []) else Inr (take n bs, drop n bs))"

definition read_u8 :: "u8 reader" where
  "read_u8 bs = (case bs of [] \<Rightarrow> Inl (UnexpectedEof, []) | b # rest \<Rightarrow> Inr (b, rest))"

definition read_u16 :: "u16 reader" where
  "read_u16 bs = (case bs of h # l # rest \<Rightarrow> Inr (seg h l, rest) | _ \<Rightarrow> Inl (UnexpectedEof, []))"

abbreviation failure_reply :: "u8 \<Rightarrow> u8 list" where
  "failure_reply code \<equiv> the (send_reply code (Ipv4 0 0 0 0 0))"

definition read_greeting :: "u8 list reader" where
  "read_greeting =
     rd_bind read_u8 (\<lambda>ver.
       if ver \<noteq> SOCKS_VERSION then bail (Bail (''unsupported SOCKS version: '' @ show_nat (unat ver))) []
       else rd_bind read_u8 (\<lambda>nmethods.
         if nmethods = 0 then bail (Bail ''client offered no authentication methods (RFC 1928)'') []
         else read_exact (unat nmethods)))"

record credentials =
  cred_username :: string
  cred_password :: string

definition read_credentials :: "credentials reader" where
  "read_credentials =
     rd_bind read_u8 (\<lambda>ver.
       if ver \<noteq> SUBNEG_VERSION then bail (Bail (''unsupported subneg version: '' @ show_nat (unat ver))) []
       else rd_bind read_u8 (\<lambda>ulen.
         if ulen = 0 then bail (Bail ''username length must be at least 1 (RFC 1929)'') []
         else rd_bind (read_exact (unat ulen)) (\<lambda>username_bytes.
           rd_bind read_u8 (\<lambda>plen.
             if plen = 0 then bail (Bail ''password length must be at least 1 (RFC 1929)'') []
             else rd_bind (read_exact (unat plen)) (\<lambda>password_bytes.
               case from_utf8 username_bytes of
                 None \<Rightarrow> bail (Bail ''invalid username encoding'') []
               | Some u \<Rightarrow>
                 (case from_utf8 password_bytes of
                    None \<Rightarrow> bail (Bail ''invalid password encoding'') []
                  | Some p \<Rightarrow> ret \<lparr>cred_username = u, cred_password = p\<rparr>))))))"

text \<open>The address part that \<open>read_request\<close> and \<open>read_connect_request\<close> share.\<close>

definition read_address :: "target_addr reader" where
  "read_address =
     rd_bind read_u8 (\<lambda>atyp.
       if atyp = ATYP_IPV4 then
         rd_bind (read_exact 4) (\<lambda>ip. rd_bind read_u16 (\<lambda>port.
           ret (Ipv4 (ip ! 0) (ip ! 1) (ip ! 2) (ip ! 3) port)))
       else if atyp = ATYP_DOMAIN then
         rd_bind read_u8 (\<lambda>len.
           if len = 0 then bail (Bail ''empty domain name in SOCKS5 request'') []
           else if unat len > MAX_DOMAIN_LENGTH then
             bail (Bail (''domain name too long: '' @ show_nat (unat len) @ '' bytes (max 253)'')) []
           else rd_bind (read_exact (unat len)) (\<lambda>domain_bytes.
             case from_utf8 domain_bytes of
               None \<Rightarrow> bail (Bail ''invalid domain name encoding'') []
             | Some domain \<Rightarrow>
               (case validate_domain domain of
                  Inl reason \<Rightarrow> bail (BadDomain reason) (failure_reply REPLY_HOST_UNREACHABLE)
                | Inr _ \<Rightarrow> rd_bind read_u16 (\<lambda>port. ret (Domain domain port)))))
       else if atyp = ATYP_IPV6 then
         rd_bind (read_exact 16) (\<lambda>ip. rd_bind read_u16 (\<lambda>port. ret (Ipv6 ip port)))
       else bail (Bail (''unsupported address type: '' @ show_nat (unat atyp)))
              (failure_reply REPLY_ADDRESS_TYPE_NOT_SUPPORTED))"

definition read_connect_request :: "target_addr reader" where
  "read_connect_request =
     rd_bind read_u8 (\<lambda>ver.
       if ver \<noteq> SOCKS_VERSION then bail (Bail (''invalid SOCKS version in request: '' @ show_nat (unat ver))) []
       else rd_bind read_u8 (\<lambda>cmd.
         if cmd \<noteq> CMD_CONNECT then
           bail (Bail (''unsupported command: '' @ show_nat (unat cmd))) (failure_reply REPLY_COMMAND_NOT_SUPPORTED)
         else rd_bind read_u8 (\<lambda>rsv. read_address)))"

definition read_request :: "socks_request reader" where
  "read_request =
     rd_bind read_u8 (\<lambda>ver.
       if ver \<noteq> SOCKS_VERSION then bail (Bail (''invalid SOCKS version in request: '' @ show_nat (unat ver))) []
       else rd_bind read_u8 (\<lambda>cmd. rd_bind read_u8 (\<lambda>rsv. rd_bind read_address (\<lambda>target.
         if cmd = CMD_CONNECT then ret (Connect target)
         else if cmd = CMD_UDP_ASSOCIATE then ret (UdpAssociate target)
         else bail (Bail (''unsupported command: '' @ show_nat (unat cmd)))
                (failure_reply REPLY_COMMAND_NOT_SUPPORTED)))))"

subsection \<open>UDP header\<close>

record udp_header =
  frag :: u8
  udp_target :: target_addr

definition udp_parse :: "u8 list \<Rightarrow> string + (udp_header \<times> nat)" where
  "udp_parse data =
     (if length data < 4 then Inl ''UDP header too short''
      else
        (let fr = data ! 2; atyp = data ! 3; offset = 4 in
         if atyp = ATYP_IPV4 then
           if length data < offset + 6 then Inl ''UDP header too short for IPv4 address''
           else Inr (\<lparr>frag = fr, udp_target = Ipv4 (data ! 4) (data ! 5) (data ! 6) (data ! 7) (seg (data ! 8) (data ! 9))\<rparr>, 10)
         else if atyp = ATYP_DOMAIN then
           if length data < offset + 1 then Inl ''UDP header too short for domain length''
           else
             (let len = unat (data ! offset); off1 = offset + 1 in
              if length data < off1 + len + 2 then Inl ''UDP header too short for domain + port''
              else case from_utf8 (take len (drop off1 data)) of
                None \<Rightarrow> Inl ''invalid domain in UDP header''
              | Some domain \<Rightarrow>
                  Inr (\<lparr>frag = fr, udp_target = Domain domain (seg (data ! (off1 + len)) (data ! (off1 + len + 1)))\<rparr>, off1 + len + 2))
         else if atyp = ATYP_IPV6 then
           if length data < offset + 18 then Inl ''UDP header too short for IPv6 address''
           else Inr (\<lparr>frag = fr, udp_target = Ipv6 (take 16 (drop 4 data)) (seg (data ! 20) (data ! 21))\<rparr>, 22)
         else Inl (''unsupported address type in UDP header: '' @ show_nat (unat atyp))))"

definition udp_serialize :: "udp_header \<Rightarrow> u8 list option" where
  "udp_serialize h = map_option (\<lambda>a. [0, 0, frag h] @ a) (address_bytes (udp_target h))"

subsection \<open>What the readers accept\<close>

named_theorems rd \<open>exact acceptance conditions of the readers\<close>

lemma rd_bind_iff [rd]:
  "rd_bind m f bs = Inr (y, rest) \<longleftrightarrow> (\<exists>x r. m bs = Inr (x, r) \<and> f x r = Inr (y, rest))"
  by (auto simp: rd_bind_def split: sum.splits)

lemma ret_iff [rd]: "ret x bs = Inr (y, rest) \<longleftrightarrow> y = x \<and> rest = bs"
  by (auto simp: ret_def)

lemma bail_iff [rd]: "bail e r bs = Inr (y, rest) \<longleftrightarrow> False"
  by (simp add: bail_def)

lemma read_u8_iff [rd]: "read_u8 bs = Inr (x, rest) \<longleftrightarrow> bs = x # rest"
  by (auto simp: read_u8_def split: list.splits)

lemma seg_eq_iff: "seg h l = p \<longleftrightarrow> h = hi8 p \<and> l = lo8 p"
  by auto

lemma read_u16_iff [rd]: "read_u16 bs = Inr (p, rest) \<longleftrightarrow> bs = to_be_bytes p @ rest"
  by (auto simp: read_u16_def to_be_bytes_def seg_eq_iff split: list.splits)

lemma read_exact_iff [rd]: "read_exact n bs = Inr (xs, rest) \<longleftrightarrow> length xs = n \<and> bs = xs @ rest"
  by (auto simp: read_exact_def)

lemma from_utf8_iff [rd]: "from_utf8 bs = Some s \<longleftrightarrow> valid_utf8 bs \<and> bs = bytes_of s"
  by (auto simp: from_utf8_def)

lemma case_from_utf8 [rd]:
  "(case from_utf8 bs of None \<Rightarrow> bail e r | Some s \<Rightarrow> f s) r0 = Inr (y, rest) \<longleftrightarrow>
     (\<exists>s. valid_utf8 bs \<and> bs = bytes_of s \<and> f s r0 = Inr (y, rest))"
  by (auto simp: from_utf8_def bail_def intro!: exI [of _ "str_of bs"])

lemma guard_iff [rd]:
  "(if P then bail e r else m) bs = Inr (y, rest) \<longleftrightarrow> \<not> P \<and> m bs = Inr (y, rest)"
  by (simp add: bail_def)

lemma case_validate [rd]:
  "(case v of Inl e \<Rightarrow> bail (g e) r | Inr u \<Rightarrow> f) r0 = Inr (y, rest) \<longleftrightarrow> v = Inr (() :: unit) \<and> f r0 = Inr (y, rest)"
  by (cases v) (auto simp: bail_def)

subsection \<open>Valid domains\<close>

lemma check_labels_iff: "check_labels ls = Inr () \<longleftrightarrow> (\<forall>l \<in> set ls. check_label l = Inr ())"
  by (induction ls) (auto split: sum.splits)

lemma strip_dot_chars: "c \<in> set s \<Longrightarrow> c = CHR ''.'' \<or> c \<in> set (strip_dot s)"
  by (cases s rule: rev_cases) (auto simp: strip_dot_def)

definition domain_char :: "char \<Rightarrow> bool" where
  "domain_char c \<longleftrightarrow> is_ascii_alphanumeric c \<or> c = CHR ''-'' \<or> c = CHR ''.''"

lemma check_label_chars: "check_label l = Inr () \<Longrightarrow> c \<in> set l \<Longrightarrow> domain_char c"
  by (auto simp: check_label_def domain_char_def list_all_iff split: if_splits)

lemma validate_domain_chars: "validate_domain d = Inr () \<Longrightarrow> list_all domain_char d"
  unfolding list_all_iff
proof
  fix c
  assume v: "validate_domain d = Inr ()" and c: "c \<in> set d"
  let ?ls = "split_on CHR ''.'' (strip_dot d)"
  have "c = CHR ''.'' \<or> (\<exists>l \<in> set ?ls. c \<in> set l)"
    using strip_dot_chars [OF c] split_on_chars by metis
  moreover have "domain_char c" if "l \<in> set ?ls" "c \<in> set l" for l
    using v that check_label_chars
    by (auto simp: validate_domain_def Let_def check_labels_iff list_all_iff domain_char_def is_ascii_alphanumeric_def
        split: if_splits)
  ultimately show "domain_char c" by (auto simp: domain_char_def)
qed

lemma domain_char_ascii: "domain_char c \<Longrightarrow> (of_char c :: nat) < 128"
  by (auto simp: domain_char_def is_ascii_alphanumeric_def is_ascii_digit_def is_ascii_lower_def is_ascii_upper_def)

lemma validate_domain_facts:
  "validate_domain d = Inr () \<Longrightarrow> d \<noteq> [] \<and> length d \<le> 253 \<and> valid_utf8 (bytes_of d)"
  using validate_domain_chars [of d] valid_utf8_ascii [of d] domain_char_ascii
  by (auto simp: ascii_def list_all_iff) (auto simp: validate_domain_def MAX_DOMAIN_LENGTH_def split: if_splits)

fun wf_target :: "target_addr \<Rightarrow> bool" where
  "wf_target (Ipv4 _ _ _ _ _) = True"
| "wf_target (Ipv6 ip _) = (length ip = 16)"
| "wf_target (Domain d _) = (validate_domain d = Inr ())"

lemma length4: "length xs = 4 \<longleftrightarrow> (\<exists>a b c d. xs = [a, b, c, d])"
  by (auto simp: numeral_eq_Suc length_Suc_conv)

lemma of_nat_u8_eq: "n < 256 \<Longrightarrow> (of_nat n :: u8) = b \<longleftrightarrow> n = unat b"
  using unat_u8 [of b] by (auto simp: unat_of_nat)

lemma unat_domain_len: "validate_domain d = Inr () \<Longrightarrow> unat (of_nat (length d) :: u8) = length d"
  using validate_domain_facts [of d] by (simp add: unat_of_nat)

lemma read_address_iff [rd]:
  "read_address bs = Inr (t, rest) \<longleftrightarrow> wf_target t \<and> (\<exists>a. address_bytes t = Some a \<and> bs = a @ rest)"
  (is "?L \<longleftrightarrow> ?R")
proof
  assume ?L
  then obtain atyp r where bs: "bs = atyp # r" by (auto simp: read_address_def rd)
  consider "atyp = ATYP_IPV4" | "atyp = ATYP_DOMAIN" | "atyp = ATYP_IPV6"
    | "atyp \<noteq> ATYP_IPV4" "atyp \<noteq> ATYP_DOMAIN" "atyp \<noteq> ATYP_IPV6" by blast
  then show ?R
  proof cases
    case 1
    then show ?thesis using \<open>?L\<close> by (auto simp: bs read_address_def rd length4)
  next
    case 2
    then obtain len d p where "length d = unat len" "\<not> 253 < unat len" "validate_domain d = Inr ()"
      "t = Domain d p" "r = len # bytes_of d @ to_be_bytes p @ rest"
      using \<open>?L\<close> by (auto simp: bs read_address_def rd socks_consts split: if_splits)
    with 2 show ?thesis by (auto simp: bs of_nat_u8_eq)
  next
    case 3
    then show ?thesis using \<open>?L\<close> by (auto simp: bs read_address_def rd socks_consts)
  next
    case 4
    then show ?thesis using \<open>?L\<close> by (simp add: bs read_address_def rd)
  qed
next
  assume ?R
  then show ?L
  proof (cases t)
    case (Domain d p)
    with \<open>?R\<close> have "validate_domain d = Inr ()" by simp
    note v = this validate_domain_facts [OF this] unat_domain_len [OF this]
    then have "(of_nat (length d) :: u8) \<noteq> 0" by (metis length_0_conv unat_0)
    with v \<open>?R\<close> Domain show ?thesis
      by (auto simp: read_address_def rd socks_consts)
  qed (auto simp: read_address_def rd socks_consts length4)
qed

text \<open>The encodings the readers are measured against: the request bytes, with any reserved byte, and
  the credentials of RFC 1929.\<close>

definition connect_encoding :: "target_addr \<Rightarrow> u8 list \<Rightarrow> bool" where
  "connect_encoding t c \<longleftrightarrow> (\<exists>rsv a. address_bytes t = Some a \<and> c = [5, 1, rsv] @ a)"

fun request_target :: "socks_request \<Rightarrow> target_addr" where
  "request_target (Connect t) = t"
| "request_target (UdpAssociate t) = t"

definition request_encoding :: "socks_request \<Rightarrow> u8 list \<Rightarrow> bool" where
  "request_encoding r c \<longleftrightarrow> (\<exists>rsv a. address_bytes (request_target r) = Some a
     \<and> c = [5, case r of Connect _ \<Rightarrow> 1 | UdpAssociate _ \<Rightarrow> 3, rsv] @ a)"

definition credentials_encoding :: "credentials \<Rightarrow> u8 list \<Rightarrow> bool" where
  "credentials_encoding cr c \<longleftrightarrow>
     c = [1, of_nat (length (cred_username cr))] @ bytes_of (cred_username cr)
         @ [of_nat (length (cred_password cr))] @ bytes_of (cred_password cr)"

definition wf_field :: "string \<Rightarrow> bool" where
  "wf_field s \<longleftrightarrow> s \<noteq> [] \<and> length s < 256 \<and> valid_utf8 (bytes_of s)"

definition wf_credentials :: "credentials \<Rightarrow> bool" where
  "wf_credentials cr \<longleftrightarrow> wf_field (cred_username cr) \<and> wf_field (cred_password cr)"

lemma len_byte: "length s < 256 \<Longrightarrow> unat (of_nat (length s) :: u8) = length s"
  by (simp add: unat_of_nat)

lemma field_iff:
  "(ulen \<noteq> 0 \<and> length bs = unat ulen \<and> valid_utf8 bs \<and> bs = bytes_of s) \<longleftrightarrow>
   wf_field s \<and> ulen = of_nat (length s) \<and> bs = bytes_of s" for ulen :: u8
proof -
  have "length s = unat ulen \<longleftrightarrow> length s < 256 \<and> ulen = of_nat (length s)"
    using unat_u8 [of ulen] len_byte [of s] by auto
  moreover have "unat ulen = 0 \<longleftrightarrow> ulen = 0" by (rule unat_eq_zero)
  ultimately show ?thesis by (auto simp: wf_field_def)
qed

lemma read_credentials_iff:
  "read_credentials bs = Inr (cr, rest) \<longleftrightarrow> wf_credentials cr \<and> (\<exists>c. credentials_encoding cr c \<and> bs = c @ rest)"
proof -
  have "read_credentials bs = Inr (cr, rest) \<longleftrightarrow>
      (\<exists>ulen ub plen pb u p. bs = 1 # ulen # ub @ plen # pb @ rest
         \<and> (ulen \<noteq> 0 \<and> length ub = unat ulen \<and> valid_utf8 ub \<and> ub = bytes_of u)
         \<and> (plen \<noteq> 0 \<and> length pb = unat plen \<and> valid_utf8 pb \<and> pb = bytes_of p)
         \<and> cr = \<lparr>cred_username = u, cred_password = p\<rparr>)"
    unfolding read_credentials_def rd socks_consts by (auto; force)
  also have "\<dots> \<longleftrightarrow> wf_credentials cr \<and> (\<exists>c. credentials_encoding cr c \<and> bs = c @ rest)"
    unfolding field_iff by (cases cr) (auto simp: wf_credentials_def credentials_encoding_def)
  finally show ?thesis .
qed

lemma len8: "2 ^ LENGTH(8) = (256 :: nat)"
  by simp

interpretation connect_codec: codec connect_encoding read_connect_request wf_target
  by unfold_locales (auto simp: read_connect_request_def rd connect_encoding_def socks_consts split: if_splits)

interpretation request_codec: codec request_encoding read_request "\<lambda>r. wf_target (request_target r)"
proof
  fix bs r rest
  show "read_request bs = Inr (r, rest) \<longleftrightarrow> wf_target (request_target r) \<and> (\<exists>c. request_encoding r c \<and> bs = c @ rest)"
    by (cases r) (auto simp: read_request_def rd request_encoding_def socks_consts split: if_splits)
qed

interpretation credentials_codec: codec credentials_encoding read_credentials wf_credentials
  by unfold_locales (rule read_credentials_iff)

interpretation greeting_codec: codec "\<lambda>ms c. c = [5, of_nat (length ms)] @ ms" read_greeting
  "\<lambda>ms. ms \<noteq> [] \<and> length ms < 256"
proof
  fix bs ms rest :: "u8 list"
  have "length ms = unat n \<longleftrightarrow> length ms < 256 \<and> n = of_nat (length ms)" for n :: u8
    using unat_u8 [of n] by (auto simp: unat_of_nat)
  moreover have "(of_nat (length ms) :: u8) \<noteq> 0" if "ms \<noteq> []" "length ms < 256"
    using that by (metis length_0_conv mod_less unat_0 unat_of_nat len8)
  ultimately show "read_greeting bs = Inr (ms, rest) \<longleftrightarrow>
      (ms \<noteq> [] \<and> length ms < 256) \<and> (\<exists>c. c = [5, of_nat (length ms)] @ ms \<and> bs = c @ rest)"
    by (auto simp: read_greeting_def rd socks_consts split: if_splits)
qed

subsection \<open>Textual addresses\<close>

text \<open>The address a target names, if it names one by its octets.\<close>

fun target_ip :: "target_addr \<Rightarrow> ipaddr option" where
  "target_ip (Ipv4 a b c d _) = Some (V4 a b c d)"
| "target_ip (Ipv6 ip _) = v6_of_list (map (\<lambda>(a, b). seg a b) (chunks2 ip))"
| "target_ip (Domain d _) = parse_ip d"

lemma length_chunks2: "length (chunks2 xs) = length xs div 2"
  by (induction xs rule: chunks2.induct) auto

lemma parse_host_string: "wf_target t \<Longrightarrow> parse_ip (host_string t) = target_ip t"
proof (cases t)
  case (Ipv6 ip p)
  assume "wf_target t"
  with Ipv6 have "length (chunks2 ip) = 8" by (simp add: length_chunks2)
  from parse_ip_show_groups [OF this] Ipv6 show ?thesis
    by (simp add: show_group_def case_prod_beta cong: map_cong)
qed (simp_all add: parse_ip_show_ipv4)

subsection \<open>UDP header\<close>

fun wf_udp_target :: "target_addr \<Rightarrow> bool" where
  "wf_udp_target (Ipv4 _ _ _ _ _) = True"
| "wf_udp_target (Ipv6 ip _) = (length ip = 16)"
| "wf_udp_target (Domain d _) = (length d < 256 \<and> valid_utf8 (bytes_of d))"

lemma length16: "length xs = 16 \<Longrightarrow> (xs @ h # l # rest) ! 16 = h \<and> (xs @ h # l # rest) ! 17 = l"
  by (simp add: nth_append)

lemma udp_parse_serialize:
  assumes "wf_udp_target (udp_target h)"
  shows "\<exists>bs. udp_serialize h = Some bs \<and> udp_parse (bs @ payload) = Inr (h, length bs)"
proof (cases "udp_target h")
  case (Ipv4 a b c d p)
  then show ?thesis
    by (cases h) (simp add: udp_serialize_def udp_parse_def socks_consts to_be_bytes_def Let_def)
next
  case (Ipv6 ip p)
  then show ?thesis
    using assms length16 [of ip "hi8 p" "lo8 p" payload]
    by (cases h) (simp add: udp_serialize_def udp_parse_def socks_consts to_be_bytes_def Let_def nth_append)
next
  case (Domain d p)
  then have len: "length d < 256" "valid_utf8 (bytes_of d)" using assms by simp_all
  then have u: "unat (of_nat (length d) :: u8) = length d" by (simp add: len_byte)
  from Domain len u show ?thesis
    by (cases h) (simp add: udp_serialize_def udp_parse_def socks_consts to_be_bytes_def Let_def from_utf8_def nth_append)
qed

subsection \<open>Properties\<close>

text \<open>C15: the CONNECT reader accepts exactly the well-formed requests: it returns target \<open>t\<close> and leaves
  \<open>rest\<close> unread if and only if the bytes are version 5, command 1, a reserved byte and the
  encoding of \<open>t\<close>, followed by \<open>rest\<close>, and \<open>t\<close> is well formed (a domain that passes validation).\<close>

theorem connect_request_exact:
  "read_connect_request bs = Inr (t, rest) \<longleftrightarrow> wf_target t \<and> (\<exists>c. connect_encoding t c \<and> bs = c @ rest)"
  by (rule connect_codec.dec_iff)

text \<open>The credential reader accepts exactly the RFC 1929 encodings of a non-empty user name and a
  non-empty password of at most 255 bytes of UTF-8 each, whatever follows them.\<close>

theorem credentials_exact:
  "read_credentials bs = Inr (cr, rest) \<longleftrightarrow> wf_credentials cr \<and> (\<exists>c. credentials_encoding cr c \<and> bs = c @ rest)"
  by (rule credentials_codec.dec_iff)

text \<open>A serialised UDP header in front of any payload parses back to the header, and the returned
  offset is where the payload starts.\<close>

theorem udp_header_roundtrip:
  assumes "wf_udp_target (udp_target h)"
  shows "\<exists>bs. udp_serialize h = Some bs \<and> udp_parse (bs @ payload) = Inr (h, length bs)
           \<and> drop (length bs) (bs @ payload) = payload"
  using udp_parse_serialize [OF assms, of payload] by auto

theorem udp_header_roundtrip_witness:
  "\<exists>bs. udp_serialize \<lparr>frag = 0, udp_target = Domain ''a.example'' 53\<rparr> = Some bs
      \<and> udp_parse (bs @ [1, 2, 3]) = Inr (\<lparr>frag = 0, udp_target = Domain ''a.example'' 53\<rparr>, length bs)
      \<and> drop (length bs) (bs @ [1, 2, 3]) = [1, 2, 3]"
  by (rule udp_header_roundtrip) (simp add: valid_utf8_ascii ascii_def)

text \<open>The text form of a requested address is never mistaken for a name or another address: the
  standard parser reads it back as the very address of the request. Hence the access rules, which
  work on the text, see the literal address.\<close>

theorem host_string_reads_back:
  assumes "wf_target t"
  shows "parse_ip (host_string t) = target_ip t"
  using assms by (rule parse_host_string)

theorem host_string_reads_back_witness:
  "parse_ip (host_string (Ipv6 [0x20, 1, 0xd, 0xb8, 0, 0, 0, 0, 0, 0, 0, 0, 0, 0, 0, 1] 80))
     = Some (V6 0x2001 0xdb8 0 0 0 0 0 1)"
  using host_string_reads_back [of "Ipv6 [0x20, 1, 0xd, 0xb8, 0, 0, 0, 0, 0, 0, 0, 0, 0, 0, 0, 1] 80"]
  by (simp add: seg_def)

text \<open>Every requested domain consists of ASCII letters, digits, hyphens and dots only, is not empty
  and has at most 253 bytes: no colon, slash, white space, control or non-ASCII byte reaches
  the resolver, the access rules, the cache key or the logs.\<close>

theorem requested_domain_clean:
  assumes "read_connect_request bs = Inr (Domain d p, rest)"
  shows "d \<noteq> [] \<and> length d \<le> 253 \<and> list_all domain_char d"
proof -
  have "validate_domain d = Inr ()" using connect_codec.result_wf [OF assms] by simp
  then show ?thesis using validate_domain_facts validate_domain_chars by blast
qed

theorem requested_domain_clean_witness: "list_all domain_char ''a-b.org''"
proof -
  have v: "validate_domain ''a-b.org'' = Inr ()"
    by code_simp
  have "read_connect_request ([5, 1, 0, 3, 7, 97, 45, 98, 46, 111, 114, 103, 0, 80] @ [9])
      = Inr (Domain ''a-b.org'' 80, [9])"
    by (rule connect_codec.roundtrip)
       (simp_all add: v connect_encoding_def socks_consts bytes_of_def to_be_bytes_def hi8_def lo8_def drop_bit_eq_div)
  from requested_domain_clean [OF this] show ?thesis by blast
qed

end
