(* ===== verification/Connector.thy ===== *)
theory Connector
  imports Dns_Cache Socks_Protocol
begin

text \<open>
  Models \<open>src/proxy/connector.rs\<close>: resolution with the address guard, the attempt over the
  resolved addresses, the cached variant, and the client side of the SOCKS5 handshake with an upstream
  proxy. The resolver, the connection attempts and the upstream peer are the fields of \<open>network\<close>:
  what they answer is an argument of the definitions. An error is its message together with the kind of
  the I/O error inside it, which is what \<open>to_string\<close> and \<open>downcast_ref\<close> give the callers.
\<close>

subsection \<open>The network\<close>

datatype io_kind = ConnectionRefused | ConnectionReset | ConnectionAborted | TimedOut | PermissionDenied | OtherKind

record io_error =
  kind :: io_kind
  text_of :: string

record conn_error =
  err_msg :: string
  err_io :: "io_kind option"

text \<open>The outcome of an operation under \<open>tokio::time::timeout\<close>.\<close>

datatype 'a waited = Elapsed | Failed io_error | Ready 'a

text \<open>An upstream peer: the outcome of the n-th write, the bytes it sends, how the stream ends (\<^const>\<open>None\<close>:
  it stays silent), and how many bytes behind the handshake the buffered reader has already taken in.\<close>

record peer =
  peer_write :: "nat \<Rightarrow> unit waited"
  peer_bytes :: "u8 list"
  peer_end :: "io_error option"
  peer_buffered :: nat

text \<open>Resolver, connection attempts (numbered), upstream proxies, and the clock at the cache lookup and at
  the cache insertion.\<close>

record network =
  lookup_host :: "duration \<Rightarrow> string \<Rightarrow> socket_addr list waited"
  tcp_connect :: "nat \<Rightarrow> duration \<Rightarrow> socket_addr \<Rightarrow> unit waited"
  proxy_connect :: "duration \<Rightarrow> string \<Rightarrow> peer waited"
  clock_get :: instant
  clock_insert :: instant

definition bail_with :: "string \<Rightarrow> conn_error" where
  "bail_with m = \<lparr>err_msg = m, err_io = None\<rparr>"

text \<open>\<open>.context(m)\<close> on an I/O error: the message is \<open>m\<close>, the error can still be downcast.\<close>

definition with_context :: "string \<Rightarrow> io_error \<Rightarrow> conn_error" where
  "with_context m e = \<lparr>err_msg = m, err_io = Some (kind e)\<rparr>"

definition of_io :: "io_error \<Rightarrow> conn_error" where
  "of_io e = \<lparr>err_msg = text_of e, err_io = Some (kind e)\<rparr>"

subsection \<open>Direct connections\<close>

definition format_addr :: "string \<Rightarrow> u16 \<Rightarrow> string" where
  "format_addr host port =
     (if CHR '':'' \<in> set host then ''['' @ host @ '']:'' @ show_nat (unat port)
      else host @ '':'' @ show_nat (unat port))"

definition resolve_and_check ::
  "network \<Rightarrow> string \<Rightarrow> u16 \<Rightarrow> nat \<Rightarrow> bool \<Rightarrow> conn_error + socket_addr list" where
  "resolve_and_check W host port timeout_secs ip_guard_enabled =
     (let addr_str = format_addr host port in
      case lookup_host W (from_secs (min timeout_secs 30)) addr_str of
        Elapsed \<Rightarrow> Inl (bail_with ''DNS lookup timeout'')
      | Failed e \<Rightarrow> Inl (with_context (''DNS lookup failed for '' @ addr_str) e)
      | Ready as \<Rightarrow>
          if as = [] then Inl (bail_with (''no addresses found for '' @ addr_str))
          else if \<not> ip_guard_enabled then Inr as
          else
            (let safe_addrs = filter (\<lambda>a. classify_dangerous_ip (fst a) = None) as in
             if safe_addrs = []
             then Inl (bail_with (''all resolved addresses for '' @ host @ '' are blocked by ip_guard''))
             else Inr safe_addrs))"

definition connection_timeout_error :: io_error where
  "connection_timeout_error = \<lparr>kind = TimedOut, text_of = ''connection timeout''\<rparr>"

text \<open>The loop over the addresses: \<open>n\<close> attempts made, \<open>e\<close> the error of the latest.\<close>

fun try_addrs ::
  "network \<Rightarrow> duration \<Rightarrow> nat \<Rightarrow> io_error option \<Rightarrow> socket_addr list \<Rightarrow> io_error option + socket_addr" where
  "try_addrs W t n e [] = Inl e"
| "try_addrs W t n e (a # as) =
     (case tcp_connect W n t a of
        Ready _ \<Rightarrow> Inr a
      | Failed e' \<Rightarrow> try_addrs W t (Suc n) (Some e') as
      | Elapsed \<Rightarrow> try_addrs W t (Suc n) (Some connection_timeout_error) as)"

definition connect_to_addrs ::
  "network \<Rightarrow> socket_addr list \<Rightarrow> nat \<Rightarrow> string \<Rightarrow> u16 \<Rightarrow> conn_error + socket_addr" where
  "connect_to_addrs W as timeout_secs host port =
     (case try_addrs W (from_secs timeout_secs) 0 None as of
        Inr a \<Rightarrow> Inr a
      | Inl (Some e) \<Rightarrow> Inl (of_io e)
      | Inl None \<Rightarrow> Inl (bail_with (''failed to connect to '' @ host @ '':'' @ show_nat (unat port))))"

definition connect :: "network \<Rightarrow> string \<Rightarrow> u16 \<Rightarrow> nat \<Rightarrow> bool \<Rightarrow> conn_error + socket_addr" where
  "connect W host port timeout_secs ip_guard_enabled =
     (if port = 0 then Inl (bail_with ''port 0 is not allowed'')
      else case resolve_and_check W host port timeout_secs ip_guard_enabled of
        Inl e \<Rightarrow> Inl e
      | Inr as \<Rightarrow>
        (case try_addrs W (from_secs timeout_secs) 0 None as of
           Inr a \<Rightarrow> Inr a
         | Inl (Some e) \<Rightarrow> Inl (of_io e)
         | Inl None \<Rightarrow> Inl (bail_with (''failed to connect to '' @ host @ '':'' @ show_nat (unat port)))))"

definition cache_key :: "string \<Rightarrow> u16 \<Rightarrow> string" where
  "cache_key host port = host @ '':'' @ show_nat (unat port)"

definition connect_with_cache ::
  "network \<Rightarrow> string \<Rightarrow> u16 \<Rightarrow> nat \<Rightarrow> bool \<Rightarrow> dns_cache \<Rightarrow> dns_cache \<times> (conn_error + socket_addr)" where
  "connect_with_cache W host port timeout_secs ip_guard_enabled D =
     (if port = 0 then (D, Inl (bail_with ''port 0 is not allowed''))
      else
        (let (D1, cached) = dns_get (clock_get W) (cache_key host port) ip_guard_enabled D in
         case cached of
           Some as \<Rightarrow> (D1, connect_to_addrs W as timeout_secs host port)
         | None \<Rightarrow>
             (case resolve_and_check W host port timeout_secs ip_guard_enabled of
                Inl e \<Rightarrow> (D1, Inl e)
              | Inr as \<Rightarrow> (dns_insert (clock_insert W) (cache_key host port) as None D1,
                            connect_to_addrs W as timeout_secs host port))))"

subsection \<open>Through an upstream proxy\<close>

record parsed_upstream_proxy =
  proxy_host :: string
  proxy_port :: u16
  proxy_username :: "string option"
  proxy_password :: "string option"

text \<open>The three messages the client sends.\<close>

definition client_greeting :: "parsed_upstream_proxy \<Rightarrow> u8 list" where
  "client_greeting p =
     (if proxy_username p \<noteq> None then [SOCKS_VERSION, 2, AUTH_NONE, AUTH_PASSWORD] else [SOCKS_VERSION, 1, AUTH_NONE])"

definition client_auth :: "string \<Rightarrow> string \<Rightarrow> u8 list" where
  "client_auth name pass =
     [1, of_nat (length name)] @ bytes_of name @ [of_nat (length pass)] @ bytes_of pass"

definition client_connect :: "string \<Rightarrow> u16 \<Rightarrow> u8 list" where
  "client_connect host port =
     [SOCKS_VERSION, CMD_CONNECT, 0, ATYP_DOMAIN, of_nat (length host)] @ bytes_of host @ to_be_bytes port"

text \<open>\<open>{:02X}\<close> of a byte.\<close>

definition hex2_upper :: "nat \<Rightarrow> string" where
  "hex2_upper b = (let d = (\<lambda>n. if n < 10 then digit_char n else char_of (n + 55)) in [d (b div 16), d (b mod 16)])"

text \<open>The client as a state-passing computation on what it has written and what the peer has still to say.\<close>

record client_io =
  sent :: "u8 list list"
  incoming :: "u8 list"

type_synonym 'a client = "client_io \<Rightarrow> client_io \<times> (conn_error + 'a)"

definition cl_bind :: "'a client \<Rightarrow> ('a \<Rightarrow> 'b client) \<Rightarrow> 'b client" where
  "cl_bind m f s = (case m s of (s', Inl e) \<Rightarrow> (s', Inl e) | (s', Inr x) \<Rightarrow> f x s')"

definition cl_ret :: "'a \<Rightarrow> 'a client" where
  "cl_ret x s = (s, Inr x)"

definition cl_bail :: "string \<Rightarrow> 'a client" where
  "cl_bail m s = (s, Inl (bail_with m))"

definition cl_write :: "peer \<Rightarrow> string \<Rightarrow> u8 list \<Rightarrow> unit client" where
  "cl_write P what bs s =
     (case peer_write P (length (sent s)) of
        Elapsed \<Rightarrow> (s, Inl (bail_with (''timeout sending '' @ what @ '' to upstream proxy'')))
      | Failed e \<Rightarrow> (s, Inl (with_context (''failed to send '' @ what @ '' to upstream proxy'') e))
      | Ready _ \<Rightarrow> (s\<lparr>sent := sent s @ [bs]\<rparr>, Inr ()))"

definition cl_read :: "peer \<Rightarrow> string \<Rightarrow> string \<Rightarrow> nat \<Rightarrow> u8 list client" where
  "cl_read P timeout_msg failure_msg n s =
     (if n \<le> length (incoming s) then (s\<lparr>incoming := drop n (incoming s)\<rparr>, Inr (take n (incoming s)))
      else case peer_end P of
        None \<Rightarrow> (s, Inl (bail_with timeout_msg))
      | Some e \<Rightarrow> (s, Inl (with_context failure_msg e)))"

definition client_authenticate :: "peer \<Rightarrow> parsed_upstream_proxy \<Rightarrow> u8 \<Rightarrow> unit client" where
  "client_authenticate P proxy selected_method =
     (if selected_method = AUTH_PASSWORD then
        (case proxy_username proxy of
           None \<Rightarrow> cl_bail ''upstream proxy requires auth but no username configured''
         | Some name \<Rightarrow>
             (let pass = (case proxy_password proxy of Some p \<Rightarrow> p | None \<Rightarrow> []) in
              cl_bind (cl_write P ''auth'' (client_auth name pass)) (\<lambda>_.
              cl_bind (cl_read P ''timeout reading auth response from upstream proxy''
                 ''failed to read auth response from upstream proxy'' 2) (\<lambda>auth_resp.
              if auth_resp ! 1 \<noteq> 0
              then cl_bail (''upstream proxy authentication failed (status '' @ show_nat (unat (auth_resp ! 1)) @ '')'')
              else cl_ret ()))))
      else if selected_method \<noteq> AUTH_NONE
      then cl_bail (''upstream proxy selected unsupported auth method: '' @ show_nat (unat selected_method))
      else cl_ret ())"

definition client_bind_addr :: "peer \<Rightarrow> u8 \<Rightarrow> unit client" where
  "client_bind_addr P atyp =
     (let rd = cl_read P ''timeout reading bind addr from upstream proxy'' in
      if atyp = ATYP_IPV4 then cl_bind (rd ''failed to read bind address'' 6) (\<lambda>_. cl_ret ())
      else if atyp = ATYP_IPV6 then cl_bind (rd ''failed to read bind address'' 18) (\<lambda>_. cl_ret ())
      else if atyp = ATYP_DOMAIN then
        cl_bind (rd ''failed to read bind address length'' 1) (\<lambda>len_buf.
        cl_bind (rd ''failed to read bind address'' (unat (len_buf ! 0) + 2)) (\<lambda>_. cl_ret ()))
      else cl_bail (''upstream proxy returned unknown ATYP in bind address: '' @ show_nat (unat atyp)))"

definition client_handshake :: "peer \<Rightarrow> parsed_upstream_proxy \<Rightarrow> string \<Rightarrow> u16 \<Rightarrow> unit client" where
  "client_handshake P proxy host port =
     cl_bind (cl_write P ''greeting'' (client_greeting proxy)) (\<lambda>_.
     cl_bind (cl_read P ''timeout reading method selection from upstream proxy''
        ''failed to read method selection from upstream proxy'' 2) (\<lambda>method_resp.
     if method_resp ! 0 \<noteq> SOCKS_VERSION
     then cl_bail (''upstream proxy returned invalid SOCKS version: '' @ show_nat (unat (method_resp ! 0)))
     else if method_resp ! 1 = 0xFF then cl_bail ''upstream proxy rejected all authentication methods''
     else
     cl_bind (client_authenticate P proxy (method_resp ! 1)) (\<lambda>_.
     cl_bind (cl_write P ''CONNECT'' (client_connect host port)) (\<lambda>_.
     cl_bind (cl_read P ''timeout reading CONNECT reply from upstream proxy''
        ''failed to read CONNECT reply from upstream proxy'' 4) (\<lambda>reply_header.
     if reply_header ! 0 \<noteq> SOCKS_VERSION
     then cl_bail (''upstream proxy CONNECT reply has invalid version: '' @ show_nat (unat (reply_header ! 0)))
     else if reply_header ! 1 \<noteq> REPLY_SUCCESS
     then cl_bail (''upstream proxy CONNECT failed with reply code 0x'' @ hex2_upper (unat (reply_header ! 1)))
     else client_bind_addr P (reply_header ! 3))))))"

text \<open>The whole of \<open>connect_via_socks5\<close>: what was written, and the bytes of the peer that can still be read
  from the reunited stream. Those the buffered reader had taken in are gone with it (\<open>into_inner\<close>).\<close>

definition connect_via_socks5 ::
  "network \<Rightarrow> parsed_upstream_proxy \<Rightarrow> string \<Rightarrow> u16 \<Rightarrow> duration \<Rightarrow> u8 list list \<times> (conn_error + u8 list)" where
  "connect_via_socks5 W proxy host port timeout =
     (let proxy_addr = proxy_host proxy @ '':'' @ show_nat (unat (proxy_port proxy)) in
      case proxy_connect W timeout proxy_addr of
        Elapsed \<Rightarrow> ([], Inl (bail_with (''timeout connecting to upstream proxy '' @ proxy_addr)))
      | Failed e \<Rightarrow> ([], Inl (with_context (''failed to connect to upstream proxy '' @ proxy_addr) e))
      | Ready P \<Rightarrow>
          (case client_handshake P proxy host port \<lparr>sent = [], incoming = peer_bytes P\<rparr> of
             (s, Inl e) \<Rightarrow> (sent s, Inl e)
           | (s, Inr _) \<Rightarrow> (sent s, Inr (drop (peer_buffered P) (incoming s)))))"

subsection \<open>Lemmas\<close>

lemma try_addrs_ok:
  "try_addrs W t n e as = Inr a \<Longrightarrow> a \<in> set as \<and> (\<exists>m. tcp_connect W m t a = Ready ())"
  by (induction as arbitrary: n e) (auto split: waited.splits)

lemma connect_to_addrs_ok:
  "connect_to_addrs W as t host port = Inr a \<Longrightarrow> a \<in> set as \<and> (\<exists>m. tcp_connect W m (from_secs t) a = Ready ())"
  by (auto simp: connect_to_addrs_def dest: try_addrs_ok split: sum.splits option.splits)

lemma resolve_and_check_ok:
  assumes "resolve_and_check W host port t g = Inr as"
  shows "\<exists>found. lookup_host W (from_secs (min t 30)) (format_addr host port) = Ready found \<and> as \<noteq> []
     \<and> as = (if g then filter (\<lambda>a. \<not> is_dangerous_ip (fst a)) found else found)"
  using assms
  by (auto simp: resolve_and_check_def Let_def is_dangerous_ip_def split: waited.splits if_splits)

lemma connect_with_cache_ok:
  assumes "connect_with_cache W host port t g D = (D', Inr a)"
  shows "port \<noteq> 0 \<and> (g \<longrightarrow> \<not> is_dangerous_ip (fst a)) \<and> (\<exists>m. tcp_connect W m (from_secs t) a = Ready ())
     \<and> ((\<exists>e. map_of (cache D) (cache_key host port) = Some e \<and> a \<in> set (addrs e) \<and> clock_get W - inserted_at e \<le> ttl e)
        \<or> (\<exists>found. lookup_host W (from_secs (min t 30)) (format_addr host port) = Ready found \<and> a \<in> set found))"
proof (cases "snd (dns_get (clock_get W) (cache_key host port) g D)")
  case None
  with assms obtain as where r: "resolve_and_check W host port t g = Inr as" and "connect_to_addrs W as t host port = Inr a"
    and "port \<noteq> 0"
    by (auto simp: connect_with_cache_def Let_def case_prod_beta split: if_splits sum.splits)
  with connect_to_addrs_ok [of W as t host port a] resolve_and_check_ok [OF r] show ?thesis
    by (cases g) auto
next
  case (Some as)
  then obtain D1 where hit: "dns_get (clock_get W) (cache_key host port) g D = (D1, Some as)" by (metis prod.collapse)
  with assms have "connect_to_addrs W as t host port = Inr a" "port \<noteq> 0"
    by (auto simp: connect_with_cache_def split: if_splits)
  with connect_to_addrs_ok [of W as t host port a] dns_get_hit [OF hit] show ?thesis by (fastforce simp: list_all_iff)
qed

named_theorems cl \<open>exact success conditions of the client steps\<close>

lemma cl_bind_iff [cl]:
  "cl_bind m f s = (s', Inr y) \<longleftrightarrow> (\<exists>x r. m s = (r, Inr x) \<and> f x r = (s', Inr y))"
  by (auto simp: cl_bind_def split: prod.splits sum.splits)

lemma cl_ret_iff [cl]: "cl_ret x s = (s', Inr y) \<longleftrightarrow> s' = s \<and> y = x"
  by (auto simp: cl_ret_def)

lemma cl_bail_iff [cl]: "cl_bail m s = (s', Inr y) \<longleftrightarrow> False"
  by (simp add: cl_bail_def)

lemma cl_write_iff [cl]:
  "cl_write P what bs s = (s', Inr y) \<longleftrightarrow> peer_write P (length (sent s)) = Ready () \<and> s' = s\<lparr>sent := sent s @ [bs]\<rparr>"
  by (auto simp: cl_write_def split: waited.splits)

lemma cl_read_iff [cl]:
  "cl_read P m1 m2 n s = (s', Inr xs) \<longleftrightarrow> length xs = n \<and> incoming s = xs @ incoming s' \<and> sent s' = sent s"
  by (cases s; cases s') (auto simp: cl_read_def min_def split: option.splits)

lemma client_authenticate_ok:
  assumes "client_authenticate P proxy m s = (s', Inr u)"
  shows "(\<exists>pre. incoming s = pre @ incoming s') \<and>
     (if m = AUTH_PASSWORD
      then \<exists>name. proxy_username proxy = Some name
             \<and> sent s' = sent s @ [client_auth name (case proxy_password proxy of Some p \<Rightarrow> p | None \<Rightarrow> [])]
      else m = AUTH_NONE \<and> s' = s)"
  using assms by (auto simp: client_authenticate_def Let_def cl split: if_splits option.splits)

lemma client_bind_addr_ok:
  "client_bind_addr P atyp s = (s', Inr u) \<Longrightarrow> sent s' = sent s \<and> (\<exists>pre. incoming s = pre @ incoming s')"
  by (auto simp: client_bind_addr_def Let_def cl split: if_splits)

lemma bytes_of_append: "bytes_of (xs @ ys) = bytes_of xs @ bytes_of ys"
  by (simp add: bytes_of_def)

lemma connect_via_socks5_ok:
  assumes "connect_via_socks5 W proxy host port t = (msgs, Inr rest)"
  shows "\<exists>P pre after auths.
     proxy_connect W t (proxy_host proxy @ '':'' @ show_nat (unat (proxy_port proxy))) = Ready P
     \<and> peer_bytes P = pre @ after \<and> take 1 pre = [SOCKS_VERSION] \<and> rest = drop (peer_buffered P) after
     \<and> msgs = client_greeting proxy # auths @ [client_connect host port]
     \<and> (auths = [] \<or> (\<exists>name. proxy_username proxy = Some name
            \<and> auths = [client_auth name (case proxy_password proxy of Some p \<Rightarrow> p | None \<Rightarrow> [])]))"
proof -
  obtain P s where conn: "proxy_connect W t (proxy_host proxy @ '':'' @ show_nat (unat (proxy_port proxy))) = Ready P"
    and hs: "client_handshake P proxy host port \<lparr>sent = [], incoming = peer_bytes P\<rparr> = (s, Inr ())"
    and res: "msgs = sent s" "rest = drop (peer_buffered P) (incoming s)"
    using assms by (auto simp: connect_via_socks5_def Let_def split: waited.splits prod.splits sum.splits)
  from hs obtain s1 m s2 s3 h where
    m: "length m = 2" "peer_bytes P = m @ incoming s1" "sent s1 = [client_greeting proxy]" "m ! 0 = SOCKS_VERSION"
    and a: "client_authenticate P proxy (m ! 1) s1 = (s2, Inr ())"
    and h: "incoming s2 = h @ incoming s3" "sent s3 = sent s2 @ [client_connect host port]"
    and b: "client_bind_addr P (h ! 3) s3 = (s, Inr ())"
    by (auto simp: client_handshake_def cl split: if_splits)
  obtain pre1 where pre1: "incoming s1 = pre1 @ incoming s2"
    using client_authenticate_ok [OF a] by blast
  obtain pre2 where pre2: "incoming s3 = pre2 @ incoming s" and sent: "sent s = sent s3"
    using client_bind_addr_ok [OF b] by blast
  have whole: "peer_bytes P = (m @ pre1 @ h @ pre2) @ incoming s"
    using m(2) pre1 h(1) pre2 by simp
  have first: "take 1 (m @ pre1 @ h @ pre2) = [SOCKS_VERSION]"
    using m(1,4) by (cases m) auto
  obtain auths where "sent s2 = client_greeting proxy # auths"
    and "auths = [] \<or> (\<exists>name. proxy_username proxy = Some name
            \<and> auths = [client_auth name (case proxy_password proxy of Some p \<Rightarrow> p | None \<Rightarrow> [])])"
    using client_authenticate_ok [OF a] m(3) by (auto split: if_splits)
  then show ?thesis using conn whole first res sent h(2)
    by (intro exI [of _ P] exI [of _ "m @ pre1 @ h @ pre2"] exI [of _ "incoming s"] exI [of _ auths]) simp
qed

text \<open>The length byte of a host of 256 or more bytes wraps around.\<close>

lemma client_connect_wraps:
  assumes "validate_domain d = Inr ()" and "length pad = 254"
  shows "read_connect_request (client_connect (d @ str_of (to_be_bytes q) @ pad) port)
     = Inr (Domain d q, bytes_of pad @ to_be_bytes port)"
proof -
  have bs: "bytes_of (d @ str_of (to_be_bytes q) @ pad) = bytes_of d @ to_be_bytes q @ bytes_of pad"
    by (simp add: bytes_of_append)
  have "length (d @ str_of (to_be_bytes q) @ pad) = length d + 256"
    using assms(2) by (simp add: str_of_def to_be_bytes_def)
  then have len: "(of_nat (length (d @ str_of (to_be_bytes q) @ pad)) :: u8) = of_nat (length d)"
    by (simp add: word_arith_nat_add)
  have "length d \<le> 255" using assms(1) validate_domain_facts by fastforce
  then show ?thesis
    unfolding connect_codec.dec_iff client_connect_def bs len
    using assms(1) by (simp add: connect_encoding_def SOCKS_VERSION_def CMD_CONNECT_def)
qed

subsection \<open>Properties\<close>

text \<open>A direct connection only goes where it may: if the cached connector returns a stream, the port is not
  zero, the address accepted a connection within the timeout, it comes from a fresh cache entry of
  this host and port or from this lookup, and with the guard on it lies in no reserved block.\<close>

theorem connect_with_cache_safe:
  assumes "connect_with_cache W host port t g D = (D', Inr a)"
  shows "port \<noteq> 0 \<and> (g \<longrightarrow> \<not> reserved_ip (fst a)) \<and> (\<exists>m. tcp_connect W m (from_secs t) a = Ready ())
     \<and> ((\<exists>e. map_of (cache D) (cache_key host port) = Some e \<and> a \<in> set (addrs e) \<and> clock_get W - inserted_at e \<le> ttl e)
        \<or> (\<exists>found. lookup_host W (from_secs (min t 30)) (format_addr host port) = Ready found \<and> a \<in> set found))"
  using connect_with_cache_ok [OF assms] by (simp add: dangerous_iff)

definition sample_network :: network where
  "sample_network =
     \<lparr>lookup_host = (\<lambda>_ _. Ready [(V4 10 0 0 1, 80), (V4 93 184 216 34, 80)]),
      tcp_connect = (\<lambda>_ _ _. Ready ()), proxy_connect = (\<lambda>_ _. Elapsed), clock_get = 5, clock_insert = 6\<rparr>"

lemma sample_connect:
  "connect_with_cache sample_network ''example.org'' 80 10 True (dns_new 60 10)
     = (dns_insert 6 ''example.org:80'' [(V4 93 184 216 34, 80)] None (dns_new 60 10), Inr (V4 93 184 216 34, 80))"
proof -
  have "classify_dangerous_ip (V4 10 0 0 1) \<noteq> None" "classify_dangerous_ip (V4 93 184 216 34) = None" by code_simp+
  moreover have "show_nat 80 = ''80''" by code_simp
  ultimately show ?thesis
    by (simp add: connect_with_cache_def sample_network_def cache_key_def dns_get_def is_enabled_def
        dns_new_def resolve_and_check_def connect_to_addrs_def Let_def del: classify_dangerous_ip.simps)
qed

theorem connect_with_cache_safe_witness:
  "(80 :: u16) \<noteq> 0 \<and> \<not> reserved_ip (V4 93 184 216 34)"
  using connect_with_cache_safe [OF sample_connect] by simp

text \<open>The CONNECT request sent to an upstream proxy is understood by this server's own request reader
  exactly if the host is a valid domain name: then it is read back as the same host and port.\<close>

theorem upstream_connect_reads_back:
  "read_connect_request (client_connect host port) = Inr (Domain host port, []) \<longleftrightarrow> validate_domain host = Inr ()"
proof
  assume "read_connect_request (client_connect host port) = Inr (Domain host port, [])"
  then show "validate_domain host = Inr ()" using connect_codec.result_wf by fastforce
next
  assume v: "validate_domain host = Inr ()"
  then have "length host \<le> 255" using validate_domain_facts by fastforce
  with v show "read_connect_request (client_connect host port) = Inr (Domain host port, [])"
    unfolding connect_codec.dec_iff by (simp add: client_connect_def connect_encoding_def SOCKS_VERSION_def CMD_CONNECT_def)
qed

text \<open>What a successful handshake with an upstream proxy amounts to: the client sent its greeting, its
  credentials at most once, and the CONNECT request for the very host and port; the peer's bytes
  start with the protocol version; and of the bytes the peer sent after its replies the tunnel
  delivers all but those the buffered reader had already taken in.\<close>

theorem upstream_handshake:
  assumes "connect_via_socks5 W proxy host port t = (msgs, Inr rest)"
  shows "\<exists>P pre after auths.
     proxy_connect W t (proxy_host proxy @ '':'' @ show_nat (unat (proxy_port proxy))) = Ready P
     \<and> peer_bytes P = pre @ after \<and> take 1 pre = [SOCKS_VERSION] \<and> rest = drop (peer_buffered P) after
     \<and> msgs = client_greeting proxy # auths @ [client_connect host port]
     \<and> (auths = [] \<or> (\<exists>name. proxy_username proxy = Some name
            \<and> auths = [client_auth name (case proxy_password proxy of Some p \<Rightarrow> p | None \<Rightarrow> [])]))"
  using assms by (rule connect_via_socks5_ok)

text \<open>A peer that accepts, confirms and sends a banner with its last reply.\<close>

definition sample_peer :: peer where
  "sample_peer = \<lparr>peer_write = (\<lambda>_. Ready ()),
     peer_bytes = [5, 0, 5, 0, 0, 1, 0, 0, 0, 0, 0, 0, 83, 83, 72], peer_end = None, peer_buffered = 3\<rparr>"

definition sample_proxy :: parsed_upstream_proxy where
  "sample_proxy = \<lparr>proxy_host = ''p'', proxy_port = 1080, proxy_username = None, proxy_password = None\<rparr>"

lemma sample_handshake:
  "connect_via_socks5 (sample_network\<lparr>proxy_connect := \<lambda>_ _. Ready sample_peer\<rparr>) sample_proxy ''a.org'' 22 t
     = ([[5, 1, 0], client_connect ''a.org'' 22], Inr [])"
  by (simp add: connect_via_socks5_def sample_network_def sample_peer_def sample_proxy_def client_handshake_def
      cl_bind_def cl_write_def cl_read_def client_authenticate_def client_bind_addr_def cl_ret_def socks_consts
      client_greeting_def Let_def)

theorem upstream_handshake_witness:
  "\<exists>pre after. peer_bytes sample_peer = pre @ after \<and> take 1 pre = [SOCKS_VERSION] \<and> [] = drop 3 after"
  using upstream_handshake [OF sample_handshake] by (fastforce simp: sample_peer_def)

end
