(* ===== verification/Conn_Slots.thy ===== *)
theory Conn_Slots
  imports Prelude
begin

text \<open>
  Models the connection slots of \<open>src/proxy/mod.rs\<close>: \<open>acquire_connection\<close> and the
  release when a \<open>ConnectionGuard\<close> is dropped, once as one sequential operation each and
  once as the atomic accesses the threads interleave (\<open>slot_step\<close>: one \<open>fetch_update\<close>,
  \<open>fetch_sub\<close> or \<open>remove_if\<close> per step; the entry of a user is accessed under the lock
  of its shard). The bounds are proved of every interleaving.
\<close>

subsection \<open>Sequential model\<close>

record slots =
  global_connections :: u32
  user_connections :: "(string, u32) dmap"

datatype acquire_error = GlobalLimit | UserLimit string

definition acquire_connection :: "u32 \<Rightarrow> string \<Rightarrow> u32 \<Rightarrow> slots \<Rightarrow> slots \<times> (acquire_error + string)" where
  "acquire_connection max_global username max_per_user S =
     (if global_connections S \<ge> max_global then (S, Inl GlobalLimit)
      else
        (let S1 = S\<lparr>global_connections := global_connections S + 1\<rparr>;
             (m, c) = dm_entry username 0 (user_connections S1) in
         if max_per_user > 0 then
           (if c \<ge> max_per_user
            then (S1\<lparr>user_connections := m, global_connections := global_connections S1 - 1\<rparr>, Inl (UserLimit username))
            else (S1\<lparr>user_connections := dm_insert username (c + 1) m\<rparr>, Inr username))
         else (S1\<lparr>user_connections := dm_insert username (c + 1) m\<rparr>, Inr username)))"

definition drop_guard :: "string \<Rightarrow> slots \<Rightarrow> slots" where
  "drop_guard username S =
     (let S1 = S\<lparr>global_connections := global_connections S - 1\<rparr> in
      case map_of (user_connections S1) username of
        None \<Rightarrow> S1
      | Some prev \<Rightarrow>
          (let m = dm_insert username (prev - 1) (user_connections S1) in
           if prev = 1 \<and> map_of m username = Some 0 then S1\<lparr>user_connections := dm_remove username m\<rparr>
           else S1\<lparr>user_connections := m\<rparr>))"

definition active_connections :: "slots \<Rightarrow> u32" where
  "active_connections S = global_connections S"

definition count_of :: "slots \<Rightarrow> string \<Rightarrow> u32" where
  "count_of S username = (case map_of (user_connections S) username of Some c \<Rightarrow> c | None \<Rightarrow> 0)"

definition active_connection_details :: "slots \<Rightarrow> (string \<times> u32) list" where
  "active_connection_details S = filter (\<lambda>(_, n). n > 0) (user_connections S)"

subsection \<open>Interleaved model\<close>

text \<open>Where a thread stands: about to claim a global slot; holding it and about to claim the user's;
  rolling back; holding a guard; the three accesses of the drop.\<close>

datatype pc =
    Start string u32
  | GotGlobal string u32
  | Rollback
  | Guard string
  | DropUser string
  | DropRemove string
  | Done

type_synonym slot_config = "slots \<times> pc list"

inductive slot_step :: "u32 \<Rightarrow> slot_config \<Rightarrow> slot_config \<Rightarrow> bool" for mg :: u32 where
  claim_full:
    "i < length ps \<Longrightarrow> ps ! i = Start u m \<Longrightarrow> global_connections S \<ge> mg \<Longrightarrow>
     slot_step mg (S, ps) (S, ps[i := Done])"
| claim_global:
    "i < length ps \<Longrightarrow> ps ! i = Start u m \<Longrightarrow> \<not> global_connections S \<ge> mg \<Longrightarrow>
     slot_step mg (S, ps) (S\<lparr>global_connections := global_connections S + 1\<rparr>, ps[i := GotGlobal u m])"
| user_full:
    "i < length ps \<Longrightarrow> ps ! i = GotGlobal u m \<Longrightarrow> m > 0 \<Longrightarrow> snd (dm_entry u 0 (user_connections S)) \<ge> m \<Longrightarrow>
     slot_step mg (S, ps) (S\<lparr>user_connections := fst (dm_entry u 0 (user_connections S))\<rparr>, ps[i := Rollback])"
| claim_user:
    "i < length ps \<Longrightarrow> ps ! i = GotGlobal u m \<Longrightarrow> \<not> (m > 0 \<and> snd (dm_entry u 0 (user_connections S)) \<ge> m) \<Longrightarrow>
     slot_step mg (S, ps)
       (S\<lparr>user_connections := dm_insert u (snd (dm_entry u 0 (user_connections S)) + 1) (fst (dm_entry u 0 (user_connections S)))\<rparr>,
        ps[i := Guard u])"
| rollback:
    "i < length ps \<Longrightarrow> ps ! i = Rollback \<Longrightarrow>
     slot_step mg (S, ps) (S\<lparr>global_connections := global_connections S - 1\<rparr>, ps[i := Done])"
| drop_global:
    "i < length ps \<Longrightarrow> ps ! i = Guard u \<Longrightarrow>
     slot_step mg (S, ps) (S\<lparr>global_connections := global_connections S - 1\<rparr>, ps[i := DropUser u])"
| drop_user_none:
    "i < length ps \<Longrightarrow> ps ! i = DropUser u \<Longrightarrow> map_of (user_connections S) u = None \<Longrightarrow>
     slot_step mg (S, ps) (S, ps[i := Done])"
| drop_user:
    "i < length ps \<Longrightarrow> ps ! i = DropUser u \<Longrightarrow> map_of (user_connections S) u = Some prev \<Longrightarrow>
     slot_step mg (S, ps) (S\<lparr>user_connections := dm_insert u (prev - 1) (user_connections S)\<rparr>,
       ps[i := if prev = 1 then DropRemove u else Done])"
| drop_remove:
    "i < length ps \<Longrightarrow> ps ! i = DropRemove u \<Longrightarrow>
     slot_step mg (S, ps)
       (S\<lparr>user_connections := (if map_of (user_connections S) u = Some 0 then dm_remove u (user_connections S)
                              else user_connections S)\<rparr>, ps[i := Done])"

inductive slot_reach :: "u32 \<Rightarrow> slot_config \<Rightarrow> slot_config \<Rightarrow> bool" for mg :: u32 where
  refl: "slot_reach mg c c"
| step: "slot_reach mg c d \<Longrightarrow> slot_step mg d e \<Longrightarrow> slot_reach mg c e"

subsection \<open>Counting threads\<close>

definition cnt :: "('a \<Rightarrow> bool) \<Rightarrow> 'a list \<Rightarrow> nat" where
  "cnt P xs = length (filter P xs)"

lemma cnt_update:
  "i < length xs \<Longrightarrow> cnt P (xs[i := y]) + (if P (xs ! i) then 1 else 0) = cnt P xs + (if P y then 1 else 0)"
proof (induction xs arbitrary: i)
  case (Cons x xs)
  then show ?case by (cases i) (auto simp: cnt_def)
qed simp

lemma cnt_pos: "i < length xs \<Longrightarrow> P (xs ! i) \<Longrightarrow> 0 < cnt P xs"
  by (auto simp: cnt_def filter_empty_conv intro!: bexI [of _ "xs ! i"])

lemma cnt_le: "cnt P xs \<le> length xs"
  by (simp add: cnt_def)

lemma cnt_mono: "(\<And>x. P x \<Longrightarrow> Q x) \<Longrightarrow> cnt P xs \<le> cnt Q xs"
  by (induction xs) (auto simp: cnt_def)

fun holds_global :: "pc \<Rightarrow> bool" where
  "holds_global (GotGlobal _ _) = True"
| "holds_global Rollback = True"
| "holds_global (Guard _) = True"
| "holds_global _ = False"

fun holds_user :: "string \<Rightarrow> pc \<Rightarrow> bool" where
  "holds_user u (Guard v) = (u = v)"
| "holds_user u (DropUser v) = (u = v)"
| "holds_user u _ = False"

fun is_guard :: "pc \<Rightarrow> bool" where
  "is_guard (Guard _) = True"
| "is_guard _ = False"

text \<open>Every thread of user \<open>u\<close> claims against the same limit.\<close>

fun uses_limit :: "string \<Rightarrow> u32 \<Rightarrow> pc \<Rightarrow> bool" where
  "uses_limit u m (Start v m') = (u = v \<longrightarrow> m' = m)"
| "uses_limit u m (GotGlobal v m') = (u = v \<longrightarrow> m' = m)"
| "uses_limit u m _ = True"

definition slots_ok :: "u32 \<Rightarrow> slot_config \<Rightarrow> bool" where
  "slots_ok mg c \<longleftrightarrow> (case c of (S, ps) \<Rightarrow>
     unat (global_connections S) = cnt holds_global ps \<and> global_connections S \<le> mg
     \<and> length ps < 2 ^ 32
     \<and> (\<forall>u. unat (count_of S u) = cnt (holds_user u) ps)
     \<and> (\<forall>u. map_of (user_connections S) u = Some 0 \<longrightarrow> DropRemove u \<in> set ps))"

lemma count_of_entry: "snd (dm_entry u 0 (user_connections S)) = count_of S u"
  by (simp add: count_of_def snd_dm_entry)

lemma unat_dec: "0 < unat (x :: u32) \<Longrightarrow> unat (x - 1) = unat x - 1"
  by (simp add: unat_minus_one word_gt_0 unat_gt_0)

lemma unat_inc: "Suc (unat (x :: u32)) < 2 ^ 32 \<Longrightarrow> unat (x + 1) = Suc (unat x)"
  by (simp add: unat_word_ariths)

lemma in_set_update_other: "x \<in> set ps \<Longrightarrow> ps ! i \<noteq> x \<Longrightarrow> x \<in> set (ps[i := y])"
  by (metis in_set_conv_nth length_list_update nth_list_update_neq)

lemma count_of_upd [simp]:
  "count_of (S\<lparr>global_connections := g\<rparr>) u = count_of S u"
  "count_of (S\<lparr>user_connections := dm_insert v c m\<rparr>) u =
     (if u = v then c else case map_of m u of Some c \<Rightarrow> c | None \<Rightarrow> 0)"
  by (simp_all add: count_of_def)

lemma slots_ok_global:
  assumes "slots_ok mg (S, ps)" and i: "i < length ps" and "holds_global (ps ! i)" and "\<not> holds_global y"
    and "\<And>u. holds_user u y = holds_user u (ps ! i)" and "\<And>u. ps ! i \<noteq> DropRemove u"
  shows "slots_ok mg (S\<lparr>global_connections := global_connections S - 1\<rparr>, ps[i := y])"
proof -
  have pos: "0 < unat (global_connections S)" using assms(1,3) cnt_pos [OF i, of holds_global] by (simp add: slots_ok_def)
  have "unat (global_connections S - 1) = cnt holds_global (ps[i := y])"
    using unat_dec [OF pos] cnt_update [OF i, of holds_global y] assms(1,3,4) by (simp add: slots_ok_def)
  moreover have "global_connections S - 1 \<le> mg"
    using unat_dec [OF pos] assms(1) unfolding slots_ok_def word_le_nat_alt by auto
  moreover have "cnt (holds_user u) (ps[i := y]) = cnt (holds_user u) ps" for u
    using cnt_update [OF i, of "holds_user u" y] assms(5) [of u] by simp
  ultimately show ?thesis
    using assms(1,6) in_set_update_other [of _ ps i y] by (auto simp: slots_ok_def)
qed

lemma slots_ok_quiet:
  assumes "slots_ok mg (S, ps)" and i: "i < length ps" and "\<not> holds_global (ps ! i)" and "\<not> holds_global y"
    and "\<And>u. holds_user u y = holds_user u (ps ! i)"
    and "\<And>u. count_of S' u = count_of S u" and "global_connections S' = global_connections S"
    and "\<And>u. map_of (user_connections S') u = Some 0 \<Longrightarrow>
           map_of (user_connections S) u = Some 0 \<and> ps ! i \<noteq> DropRemove u"
  shows "slots_ok mg (S', ps[i := y])"
proof -
  have "cnt holds_global (ps[i := y]) = cnt holds_global ps"
    using cnt_update [OF i, of holds_global y] assms(3,4) by simp
  moreover have "cnt (holds_user u) (ps[i := y]) = cnt (holds_user u) ps" for u
    using cnt_update [OF i, of "holds_user u" y] assms(5) [of u] by simp
  ultimately show ?thesis
    using assms(1,6-8) in_set_update_other [of _ ps i y] by (auto simp: slots_ok_def)
qed

lemma slots_ok_claim_user:
  assumes ok: "slots_ok mg (S, ps)" and i: "i < length ps" and pc: "ps ! i = GotGlobal u m"
  shows "slots_ok mg (S\<lparr>user_connections := dm_insert u (snd (dm_entry u 0 (user_connections S)) + 1)
           (fst (dm_entry u 0 (user_connections S)))\<rparr>, ps[i := Guard u])" (is "slots_ok mg (?S, _)")
proof -
  have cu: "cnt P (ps[i := Guard u]) + (if P (ps ! i) then 1 else 0) = cnt P ps + (if P (Guard u) then 1 else 0)" for P
    by (rule cnt_update [OF i])
  have "Suc (cnt (holds_user u) ps) \<le> length ps"
    using cu [of "holds_user u"] cnt_le [of "holds_user u" "ps[i := Guard u]"] pc by simp
  then have lt: "Suc (unat (count_of S u)) < 2 ^ 32" using ok by (simp add: slots_ok_def)
  note inc = unat_inc [OF lt]
  have "count_of ?S v = (if v = u then count_of S u + 1 else count_of S v)" for v
    by (auto simp: count_of_def dm_entry_def split: option.splits)
  then have "unat (count_of ?S v) = cnt (holds_user v) (ps[i := Guard u])" for v
    using ok inc cu [of "holds_user v"] pc by (simp add: slots_ok_def)
  moreover have "count_of S u + 1 \<noteq> 0" using inc by (metis nat.distinct(1) unat_0)
  then have "map_of (user_connections ?S) v = Some 0 \<Longrightarrow> DropRemove v \<in> set (ps[i := Guard u])" for v
    using ok pc in_set_update_other [of "DropRemove v" ps i "Guard u"]
    by (auto simp: slots_ok_def count_of_entry split: if_splits)
  moreover have "cnt holds_global (ps[i := Guard u]) = cnt holds_global ps" using cu [of holds_global] pc by simp
  ultimately show ?thesis using ok by (simp add: slots_ok_def)
qed

lemma slots_ok_drop_user:
  assumes ok: "slots_ok mg (S, ps)" and i: "i < length ps" and pc: "ps ! i = DropUser u"
    and prev: "map_of (user_connections S) u = Some prev"
  shows "slots_ok mg (S\<lparr>user_connections := dm_insert u (prev - 1) (user_connections S)\<rparr>,
           ps[i := if prev = 1 then DropRemove u else Done])" (is "slots_ok mg (?S, ps[i := ?y])")
proof -
  have cu: "cnt P (ps[i := ?y]) + (if P (ps ! i) then 1 else 0) = cnt P ps + (if P ?y then 1 else 0)" for P
    by (rule cnt_update [OF i])
  have c: "unat prev = cnt (holds_user u) ps" using ok prev by (auto simp: slots_ok_def count_of_def split: option.splits)
  then have pos: "0 < unat prev" using cnt_pos [OF i, of "holds_user u"] pc by simp
  have "unat (count_of ?S v) = cnt (holds_user v) (ps[i := ?y])" for v
    using ok c unat_dec [OF pos] cu [of "holds_user v"] pc by (auto simp: slots_ok_def count_of_def split: if_splits)
  moreover have "map_of (user_connections ?S) v = Some 0 \<Longrightarrow> DropRemove v \<in> set (ps[i := ?y])" for v
  proof -
    assume a: "map_of (user_connections ?S) v = Some 0"
    show ?thesis
    proof (cases "v = u")
      case True
      with a have "prev = 1" by simp
      with True i show ?thesis by (simp add: set_update_memI)
    next
      case False
      with a ok pc show ?thesis
        using in_set_update_other [of "DropRemove v" ps i ?y] by (simp add: slots_ok_def)
    qed
  qed
  moreover have "cnt holds_global (ps[i := ?y]) = cnt holds_global ps" using cu [of holds_global] pc by simp
  ultimately show ?thesis using ok by (simp add: slots_ok_def)
qed

lemma slots_ok_step:
  assumes "slot_step mg c d" and "slots_ok mg c"
  shows "slots_ok mg d"
  using assms
proof (cases rule: slot_step.cases)
  case (claim_full i ps u m S)
  with assms(2) show ?thesis by (auto intro!: slots_ok_quiet)
next
  case (claim_global i ps u m S)
  have cu: "cnt P (ps[i := GotGlobal u m]) + (if P (ps ! i) then 1 else 0) = cnt P ps + (if P (GotGlobal u m) then 1 else 0)" for P
    by (rule cnt_update [OF claim_global(3)])
  have "Suc (unat (global_connections S)) \<le> unat mg" using claim_global(5) by (simp add: word_le_nat_alt)
  moreover have "unat mg < 2 ^ 32" using unsigned_less [of mg, where 'a = nat] by simp
  ultimately have "unat (global_connections S + 1) = Suc (unat (global_connections S))"
    by (intro unat_inc) simp
  with claim_global assms(2) cu [of holds_global] \<open>Suc _ \<le> _\<close> show ?thesis
    using cu [of "holds_user _"] in_set_update_other [of _ ps i "GotGlobal u m"]
    by (auto simp: slots_ok_def word_le_nat_alt)
next
  case (user_full i ps u m S)
  have cu: "cnt P (ps[i := Rollback]) + (if P (ps ! i) then 1 else 0) = cnt P ps + (if P Rollback then 1 else 0)" for P
    by (rule cnt_update [OF user_full(3)])
  have "count_of S u \<noteq> 0" using user_full(5,6) by (auto simp: count_of_entry)
  then have "fst (dm_entry u 0 (user_connections S)) = user_connections S"
    by (auto simp: count_of_def dm_entry_def split: option.splits)
  with user_full assms(2) show ?thesis
    using cu [of holds_global] cu [of "holds_user _"] in_set_update_other [of _ ps i Rollback]
    by (auto simp: slots_ok_def)
next
  case (claim_user i ps u m S)
  with assms(2) show ?thesis by (simp add: slots_ok_claim_user)
next
  case (rollback i ps S)
  with assms(2) show ?thesis by (auto intro!: slots_ok_global)
next
  case (drop_global i ps u S)
  with assms(2) show ?thesis by (auto intro!: slots_ok_global)
next
  case (drop_user_none i ps u S)
  then have "0 < cnt (holds_user u) ps" using cnt_pos [of i ps "holds_user u"] by simp
  with drop_user_none assms(2) have False by (auto simp: slots_ok_def count_of_def) (metis less_irrefl option.simps(4) unat_0)
  then show ?thesis ..
next
  case (drop_user i ps u S prev)
  with assms(2) show ?thesis using slots_ok_drop_user [of mg S ps i u prev] by simp
next
  case (drop_remove i ps u S)
  with assms(2) show ?thesis
    by (auto simp: count_of_def split: option.splits if_splits intro!: slots_ok_quiet)
qed

definition user_lim :: "string \<Rightarrow> u32 \<Rightarrow> slot_config \<Rightarrow> bool" where
  "user_lim u m c \<longleftrightarrow> list_all (uses_limit u m) (snd c) \<and> cnt (holds_user u) (snd c) \<le> unat m"

lemma list_all_update: "list_all P ps \<Longrightarrow> P y \<Longrightarrow> list_all P (ps[i := y])"
  using set_update_subset_insert [of ps i y] by (auto simp: list_all_iff)

lemma list_all_nth: "list_all P ps \<Longrightarrow> i < length ps \<Longrightarrow> P (ps ! i)"
  by (simp add: list_all_length)

lemma user_lim_quiet:
  assumes "user_lim u m (S, ps)" and i: "i < length ps" and "uses_limit u m y"
    and "holds_user u y \<Longrightarrow> holds_user u (ps ! i)"
  shows "user_lim u m (S', ps[i := y])"
  using assms cnt_update [OF i, of "holds_user u" y] by (auto simp: user_lim_def list_all_update split: if_splits)

lemma user_lim_step:
  assumes "slot_step mg c d" and "slots_ok mg c" and "user_lim u m c" and "0 < m"
  shows "user_lim u m d"
  using assms(1)
proof (cases rule: slot_step.cases)
  case (claim_user i ps v m' S)
  show ?thesis
  proof (cases "v = u")
    case True
    have "m' = m"
      using assms(3) list_all_nth [of "uses_limit u m" ps i] claim_user True by (simp add: user_lim_def)
    then have "count_of S u < m" using claim_user(5) True assms(4) by (simp add: count_of_entry not_le)
    then have "cnt (holds_user u) ps < unat m"
      using assms(2) claim_user(1) by (simp add: slots_ok_def word_less_nat_alt)
    then show ?thesis
      using assms(3) claim_user True cnt_update [OF claim_user(3), of "holds_user u" "Guard v"]
      by (simp add: user_lim_def list_all_update)
  next
    case False
    then show ?thesis using assms(3) claim_user by (auto intro: user_lim_quiet)
  qed
next
  case (claim_global i ps v m' S)
  have "uses_limit u m (ps ! i)"
    using assms(3) claim_global list_all_nth [of "uses_limit u m" ps i] by (simp add: user_lim_def)
  then show ?thesis using assms(3) claim_global by (auto intro!: user_lim_quiet)
qed (use assms(3) in \<open>auto intro!: user_lim_quiet\<close>)

definition start_config :: "(string \<times> u32) list \<Rightarrow> slot_config" where
  "start_config ts = (\<lparr>global_connections = 0, user_connections = []\<rparr>, map (\<lambda>(u, m). Start u m) ts)"

lemma cnt_Start [simp]:
  "cnt holds_global (map (\<lambda>(u, m). Start u m) ts) = 0" "cnt (holds_user v) (map (\<lambda>(u, m). Start u m) ts) = 0"
  by (auto simp: cnt_def filter_empty_conv)

lemma slots_ok_start: "length ts < 2 ^ 32 \<Longrightarrow> slots_ok mg (start_config ts)"
  by (simp add: slots_ok_def start_config_def count_of_def)

lemma reach_ok: "slot_reach mg c d \<Longrightarrow> slots_ok mg c \<Longrightarrow> slots_ok mg d"
  by (induction rule: slot_reach.induct) (auto intro: slots_ok_step)

lemma reach_lim: "slot_reach mg c d \<Longrightarrow> slots_ok mg c \<Longrightarrow> user_lim u m c \<Longrightarrow> 0 < m \<Longrightarrow> user_lim u m d"
  by (induction rule: slot_reach.induct) (auto intro: user_lim_step reach_ok)

lemma slot_step_reach: "slot_step mg c d \<Longrightarrow> slot_reach mg c d"
  by (meson slot_reach.intros)

lemma slot_reach_trans: "slot_reach mg d e \<Longrightarrow> slot_reach mg c d \<Longrightarrow> slot_reach mg c e"
  by (induction rule: slot_reach.induct) (auto intro: slot_reach.step)

subsection \<open>Properties\<close>

text \<open>C7: the connection limits hold under every interleaving of the atomic accesses of any number of
  threads (fewer than \<open>2^32\<close>): never more than \<open>mg\<close> connections are open in all, and if all
  threads of user \<open>u\<close> claim against the limit \<open>m > 0\<close>, never more than \<open>m\<close> of that user.\<close>

theorem slot_limits_interleaved:
  assumes "slot_reach mg (start_config ts) (S, ps)" and "length ts < 2 ^ 32"
    and "0 < m" and "list_all (\<lambda>(v, k). v = u \<longrightarrow> k = m) ts"
  shows "cnt is_guard ps \<le> unat mg \<and> cnt (\<lambda>p. p = Guard u) ps \<le> unat m"
proof -
  have ok0: "slots_ok mg (start_config ts)" using slots_ok_start assms(2) by blast
  have ok: "slots_ok mg (S, ps)" by (rule reach_ok [OF assms(1) ok0])
  have "list_all (uses_limit u m) (map (\<lambda>(u, m). Start u m) ts)" using assms(4) by (auto simp: list_all_iff)
  then have "user_lim u m (start_config ts)" by (simp add: user_lim_def start_config_def)
  from reach_lim [OF assms(1) ok0 this assms(3)] have "cnt (holds_user u) ps \<le> unat m" by (simp add: user_lim_def)
  moreover have "cnt (\<lambda>p. p = Guard u) ps \<le> cnt (holds_user u) ps" by (rule cnt_mono) simp
  moreover have "cnt is_guard ps \<le> cnt holds_global ps"
  proof (rule cnt_mono)
    fix p show "is_guard p \<Longrightarrow> holds_global p" by (cases p) simp_all
  qed
  ultimately show ?thesis using ok by (auto simp: slots_ok_def word_le_nat_alt)
qed

lemma start_one: "slot_reach 5 (start_config [(''u'', 2)]) (\<lparr>global_connections = 1, user_connections = []\<rparr>, [GotGlobal ''u'' 2])"
  using slot_step.claim_global [where i = 0 and ps = "[Start ''u'' 2]" and u = "''u''" and m = 2 and mg = 5 and S = "\<lparr>global_connections = 0, user_connections = []\<rparr>"]
  by (intro slot_step_reach) (simp add: start_config_def)

theorem slot_limits_interleaved_witness:
  "cnt is_guard [GotGlobal ''u'' 2] \<le> unat (5 :: u32) \<and> cnt (\<lambda>p. p = Guard ''u'') [GotGlobal ''u'' 2] \<le> unat (2 :: u32)"
  by (rule slot_limits_interleaved [OF start_one]) simp_all

text \<open>C18: no slot leaks: in every interleaving, once every thread has finished (been refused or has
  dropped its guard), the global count is zero and no user entry is left in the map.\<close>

theorem slots_all_returned:
  assumes "slot_reach mg (start_config ts) (S, ps)" and "length ts < 2 ^ 32" and "list_all (\<lambda>p. p = Done) ps"
  shows "global_connections S = 0 \<and> user_connections S = []"
proof -
  have ok: "slots_ok mg (S, ps)" by (rule reach_ok [OF assms(1) slots_ok_start [OF assms(2)]])
  have p: "ps = replicate (length ps) Done" using assms(3) by (auto simp: list_all_iff intro!: replicate_eqI)
  have z: "cnt holds_global ps = 0" "\<And>u. cnt (holds_user u) ps = 0"
    by (subst p, simp add: cnt_def)+
  then have g: "global_connections S = 0" using ok by (auto simp: slots_ok_def unat_eq_zero)
  have "map_of (user_connections S) u = None" for u
  proof (rule ccontr)
    assume "map_of (user_connections S) u \<noteq> None"
    then obtain c where c: "map_of (user_connections S) u = Some c" by blast
    then have "unat c = 0" using ok z(2) [of u] by (auto simp: slots_ok_def count_of_def split: option.splits)
    then have "DropRemove u \<in> set ps" using ok c by (auto simp: slots_ok_def unat_eq_zero)
    then show False using assms(3) by (auto simp: list_all_iff)
  qed
  then have "user_connections S = []" by (metis map_of_eq_empty_iff ext)
  with g show ?thesis by simp
qed

theorem slots_all_returned_witness:
  "global_connections \<lparr>global_connections = 0, user_connections = []\<rparr> = 0
   \<and> user_connections \<lparr>global_connections = 0, user_connections = []\<rparr> = []"
  using slots_all_returned [OF slot_step_reach [of 0 "start_config [(''u'', 2)]"
      "(\<lparr>global_connections = 0, user_connections = []\<rparr>, [Done])"]]
    slot_step.claim_full [where i = 0 and ps = "[Start ''u'' 2]" and u = "''u''" and m = 2 and mg = 0 and S = "\<lparr>global_connections = 0, user_connections = []\<rparr>"]
  by (simp add: start_config_def)

text \<open>The sequential operations are runs of the atomic accesses: \<open>acquire_connection\<close> and
  \<open>drop_guard\<close> end in the state and with the outcome of an uninterrupted thread.\<close>

theorem acquire_refines_steps:
  "slot_reach mg (S, [Start u m])
     (case acquire_connection mg u m S of (S', Inr _) \<Rightarrow> (S', [Guard u]) | (S', Inl _) \<Rightarrow> (S', [Done]))
   \<and> slot_reach mg (S, [Guard u]) (drop_guard u S, [Done])"
proof
  let ?S1 = "S\<lparr>global_connections := global_connections S + 1\<rparr>"
  show "slot_reach mg (S, [Start u m])
     (case acquire_connection mg u m S of (S', Inr _) \<Rightarrow> (S', [Guard u]) | (S', Inl _) \<Rightarrow> (S', [Done]))"
  proof (cases "global_connections S \<ge> mg")
    case True
    then show ?thesis
      using slot_step.claim_full [where i = 0 and ps = "[Start u m]" and u = u and m = m and mg = mg and S = S] by (simp add: acquire_connection_def slot_step_reach)
  next
    case False
    have 1: "slot_reach mg (S, [Start u m]) (?S1, [GotGlobal u m])"
      using False slot_step.claim_global [where i = 0 and ps = "[Start u m]" and u = u and m = m and mg = mg and S = S] by (simp add: slot_step_reach)
    show ?thesis
    proof (cases "m > 0 \<and> snd (dm_entry u 0 (user_connections S)) \<ge> m")
      case True
      have 2: "slot_step mg (?S1, [GotGlobal u m]) (?S1\<lparr>user_connections := fst (dm_entry u 0 (user_connections S))\<rparr>, [Rollback])"
        using True slot_step.user_full [where i = 0 and ps = "[GotGlobal u m]" and u = u and m = m and mg = mg and S = ?S1] by simp
      have "slot_reach mg (S, [Start u m]) (S\<lparr>user_connections := fst (dm_entry u 0 (user_connections S))\<rparr>, [Done])"
        using slot_reach.step [OF slot_reach.step [OF 1 2]
            slot_step.rollback [where i = 0 and ps = "[Rollback]" and mg = mg and S = "?S1\<lparr>user_connections := fst (dm_entry u 0 (user_connections S))\<rparr>"]]
        by (cases S) simp
      with True False show ?thesis
        by (cases S) (simp add: acquire_connection_def Let_def case_prod_beta)
    next
      case ok: False
      have "slot_step mg (?S1, [GotGlobal u m]) (?S1\<lparr>user_connections := dm_insert u (snd (dm_entry u 0 (user_connections S)) + 1)
          (fst (dm_entry u 0 (user_connections S)))\<rparr>, [Guard u])"
        using ok slot_step.claim_user [where i = 0 and ps = "[GotGlobal u m]" and u = u and m = m and mg = mg and S = ?S1] by simp
      from slot_reach.step [OF 1 this] ok False show ?thesis
        by (auto simp: acquire_connection_def Let_def case_prod_beta)
    qed
  qed
next
  let ?S1 = "S\<lparr>global_connections := global_connections S - 1\<rparr>"
  have 1: "slot_reach mg (S, [Guard u]) (?S1, [DropUser u])"
    using slot_step.drop_global [where i = 0 and ps = "[Guard u]" and u = u and mg = mg and S = S] by (simp add: slot_step_reach)
  show "slot_reach mg (S, [Guard u]) (drop_guard u S, [Done])"
  proof (cases "map_of (user_connections S) u")
    case None
    then show ?thesis
      using slot_reach.step [OF 1] slot_step.drop_user_none [where i = 0 and ps = "[DropUser u]" and u = u and mg = mg and S = ?S1] by (simp add: drop_guard_def)
  next
    case (Some prev)
    let ?S2 = "?S1\<lparr>user_connections := dm_insert u (prev - 1) (user_connections S)\<rparr>"
    have 2: "slot_reach mg (S, [Guard u]) (?S2, [if prev = 1 then DropRemove u else Done])"
      using slot_reach.step [OF 1] slot_step.drop_user [where i = 0 and ps = "[DropUser u]" and u = u and prev = prev and mg = mg and S = ?S1] Some by simp
    show ?thesis
    proof (cases "prev = 1")
      case True
      then show ?thesis
        using slot_reach.step [OF 2] slot_step.drop_remove [where i = 0 and ps = "[DropRemove u]" and u = u and mg = mg and S = ?S2] Some
        by (simp add: drop_guard_def Let_def)
    next
      case False
      then show ?thesis using 2 Some by (simp add: drop_guard_def Let_def)
    qed
  qed
qed

end
