(* ===== verification/Acl.thy ===== *)
theory Acl
  imports Ip_Guard
begin

text \<open>
  Models \<open>src/config/acl.rs\<close> (rule parsing, matching, policy evaluation, inheritance)
  and \<open>src/proxy/acl.rs\<close> (the decisions the proxy engine acts on). \<open>IpNet\<close> belongs to
  the \<open>ipnet\<close> crate: its parser, printer, \<open>contains\<close> test and the conversion from an
  address are the fields of \<open>ipnet_ops\<close> (theory \<open>Net\<close>), an argument of every definition that uses them.
  The evaluation order of the rule lists is an interface (\<open>deny_first\<close>) that both the
  post-resolution check and the hostname pre-check implement.
\<close>

subsection \<open>Data\<close>

datatype acl_error = InvalidRule string

datatype port_match = PortAny | PortExact u16 | PortRange u16 u16

datatype 'net acl_rule = Cidr 'net port_match | HostPattern string port_match

datatype acl_policy = Allow | Deny

datatype acl_policy_config = AllowConfig | DenyConfig

datatype pre_check_result = PreAllow | PreDeny | PreDefer

record 'net parsed_acl =
  default_policy :: acl_policy
  allow_rules :: "'net acl_rule list"
  deny_rules :: "'net acl_rule list"

record global_acl_config =
  global_default_policy :: acl_policy_config
  global_allow :: "string list"
  global_deny :: "string list"

record user_acl_config =
  user_default_policy :: "acl_policy_config option"
  user_allow :: "string list"
  user_deny :: "string list"
  user_inherit :: bool

subsection \<open>Strings\<close>

text \<open>\<open>str::find\<close> and \<open>str::rfind\<close> of an ASCII character: a byte offset.\<close>

fun find_char :: "char \<Rightarrow> string \<Rightarrow> nat option" where
  "find_char c [] = None"
| "find_char c (x # xs) = (if x = c then Some 0 else map_option Suc (find_char c xs))"

fun rfind_char :: "char \<Rightarrow> string \<Rightarrow> nat option" where
  "rfind_char c [] = None"
| "rfind_char c (x # xs) =
     (case rfind_char c xs of Some i \<Rightarrow> Some (Suc i) | None \<Rightarrow> if x = c then Some 0 else None)"

subsection \<open>Parsing and printing rules\<close>

definition split_host_port :: "string \<Rightarrow> acl_error + string \<times> string" where
  "split_host_port rule =
     (if rule \<noteq> [] \<and> hd rule = CHR ''['' then
        (case find_char CHR '']'' rule of
           Some bracket_end \<Rightarrow>
             (let host = drop 1 (take bracket_end rule) in
              if bracket_end + 1 < length rule \<and> rule ! (bracket_end + 1) = CHR '':''
              then Inr (host, drop (bracket_end + 2) rule)
              else Inr (host, ''*''))
         | None \<Rightarrow> Inl (InvalidRule (''unclosed bracket in: '' @ rule)))
      else (case rfind_char CHR '':'' rule of
          Some pos \<Rightarrow>
            (let host = take pos rule; port = drop (pos + 1) rule in
             if CHR '':'' \<in> set host \<and> CHR ''/'' \<notin> set host then Inr (rule, ''*'')
             else Inr (host, port))
        | None \<Rightarrow> Inr (rule, ''*'')))"

definition parse_u16 :: "string \<Rightarrow> u16 option" where
  "parse_u16 s = map_option of_nat (parse_uint 65536 s)"

definition parse_port_match :: "string \<Rightarrow> acl_error + port_match" where
  "parse_port_match port_str =
     (if port_str = ''*'' then Inr PortAny
      else case find_char CHR ''-'' port_str of
        Some dash_pos \<Rightarrow>
          (case parse_u16 (take dash_pos port_str) of
             None \<Rightarrow> Inl (InvalidRule (''invalid port range: '' @ port_str))
           | Some lo \<Rightarrow>
             (case parse_u16 (drop (dash_pos + 1) port_str) of
                None \<Rightarrow> Inl (InvalidRule (''invalid port range: '' @ port_str))
              | Some hi \<Rightarrow>
                  if hi < lo then Inl (InvalidRule (''port range low > high: '' @ port_str))
                  else Inr (PortRange lo hi)))
      | None \<Rightarrow>
          (case parse_u16 port_str of
             None \<Rightarrow> Inl (InvalidRule (''invalid port: '' @ port_str))
           | Some port \<Rightarrow> Inr (PortExact port)))"

definition acl_rule_parse :: "('net, 'x) ipnet_ops_scheme \<Rightarrow> string \<Rightarrow> acl_error + 'net acl_rule" where
  "acl_rule_parse N rule =
     (case split_host_port rule of
        Inl e \<Rightarrow> Inl e
      | Inr (host_part, port_part) \<Rightarrow>
        (case parse_port_match port_part of
           Inl e \<Rightarrow> Inl e
         | Inr port \<Rightarrow>
           (case net_parse N host_part of
              Some network \<Rightarrow> Inr (Cidr network port)
            | None \<Rightarrow>
              (case parse_ip host_part of
                 Some ip \<Rightarrow> Inr (Cidr (net_of_ip N ip) port)
               | None \<Rightarrow> Inr (HostPattern (to_ascii_lowercase host_part) port)))))"

fun parse_rules :: "('net, 'x) ipnet_ops_scheme \<Rightarrow> string list \<Rightarrow> acl_error + 'net acl_rule list" where
  "parse_rules N [] = Inr []"
| "parse_rules N (r # rs) =
     (case acl_rule_parse N r of
        Inl e \<Rightarrow> Inl e
      | Inr rule \<Rightarrow> (case parse_rules N rs of Inl e \<Rightarrow> Inl e | Inr rules \<Rightarrow> Inr (rule # rules)))"

fun show_port_match :: "port_match \<Rightarrow> string" where
  "show_port_match PortAny = ''*''"
| "show_port_match (PortExact p) = show_nat (unat p)"
| "show_port_match (PortRange lo hi) = show_nat (unat lo) @ ''-'' @ show_nat (unat hi)"

fun show_acl_rule :: "('net, 'x) ipnet_ops_scheme \<Rightarrow> 'net acl_rule \<Rightarrow> string" where
  "show_acl_rule N (Cidr network port) = net_show N network @ '':'' @ show_port_match port"
| "show_acl_rule N (HostPattern pattern port) = pattern @ '':'' @ show_port_match port"

subsection \<open>Matching\<close>

fun port_matches :: "port_match \<Rightarrow> u16 \<Rightarrow> bool" where
  "port_matches PortAny port = True"
| "port_matches (PortExact p) port = (p = port)"
| "port_matches (PortRange lo hi) port = (lo \<le> port \<and> port \<le> hi)"

definition hostname_matches :: "string \<Rightarrow> string \<Rightarrow> bool" where
  "hostname_matches host pattern =
     (if pattern = ''*'' then True
      else if take 2 pattern = ''*.'' then
        (let suffix = drop 2 pattern in
         eq_ignore_ascii_case host suffix
         \<or> (length suffix + 1 < length host
             \<and> host ! (length host - length suffix - 1) = CHR ''.''
             \<and> eq_ignore_ascii_case (drop (length host - length suffix) host) suffix))
      else eq_ignore_ascii_case host pattern)"

fun rule_matches :: "('net, 'x) ipnet_ops_scheme \<Rightarrow> 'net acl_rule \<Rightarrow> string \<Rightarrow> u16 \<Rightarrow> ipaddr option \<Rightarrow> bool" where
  "rule_matches N (Cidr network pm) host port resolved_ip =
     (if \<not> port_matches pm port then False
      else case resolved_ip of
        Some ip \<Rightarrow> net_contains N network ip
      | None \<Rightarrow> (case parse_ip host of Some ip \<Rightarrow> net_contains N network ip | None \<Rightarrow> False))"
| "rule_matches N (HostPattern pattern pm) host port resolved_ip =
     (if \<not> port_matches pm port then False else hostname_matches host pattern)"

text \<open>The test the hostname pre-check applies to a rule: CIDR rules count only for a literal address.\<close>

fun pre_matches :: "('net, 'x) ipnet_ops_scheme \<Rightarrow> 'net acl_rule \<Rightarrow> string \<Rightarrow> u16 \<Rightarrow> ipaddr option \<Rightarrow> bool" where
  "pre_matches N (HostPattern pattern pm) host port literal_ip =
     rule_matches N (HostPattern pattern pm) host port None"
| "pre_matches N (Cidr network pm) host port literal_ip =
     (literal_ip \<noteq> None \<and> rule_matches N (Cidr network pm) host port literal_ip)"

subsection \<open>Evaluation\<close>

definition check :: "('net, 'x) ipnet_ops_scheme \<Rightarrow> 'net parsed_acl \<Rightarrow> string \<Rightarrow> u16 \<Rightarrow> ipaddr option \<Rightarrow> acl_policy" where
  "check N acl host port resolved_ip =
     (case find (\<lambda>rule. rule_matches N rule host port resolved_ip) (deny_rules acl) of
        Some rule \<Rightarrow> Deny
      | None \<Rightarrow>
        (case find (\<lambda>rule. rule_matches N rule host port resolved_ip) (allow_rules acl) of
           Some rule \<Rightarrow> Allow
         | None \<Rightarrow> default_policy acl))"

definition check_verbose ::
  "('net, 'x) ipnet_ops_scheme \<Rightarrow> 'net parsed_acl \<Rightarrow> string \<Rightarrow> u16 \<Rightarrow> ipaddr option \<Rightarrow> acl_policy \<times> string option" where
  "check_verbose N acl host port resolved_ip =
     (case find (\<lambda>rule. rule_matches N rule host port resolved_ip) (deny_rules acl) of
        Some rule \<Rightarrow> (Deny, Some (''deny:'' @ show_acl_rule N rule))
      | None \<Rightarrow>
        (case find (\<lambda>rule. rule_matches N rule host port resolved_ip) (allow_rules acl) of
           Some rule \<Rightarrow> (Allow, Some (''allow:'' @ show_acl_rule N rule))
         | None \<Rightarrow> (default_policy acl, None)))"

definition check_hostname_only :: "('net, 'x) ipnet_ops_scheme \<Rightarrow> 'net parsed_acl \<Rightarrow> string \<Rightarrow> u16 \<Rightarrow> pre_check_result" where
  "check_hostname_only N acl host port =
     (let literal_ip = parse_ip host in
      case find (\<lambda>rule. pre_matches N rule host port literal_ip) (deny_rules acl) of
        Some rule \<Rightarrow> PreDeny
      | None \<Rightarrow>
        (case find (\<lambda>rule. pre_matches N rule host port literal_ip) (allow_rules acl) of
           Some rule \<Rightarrow> PreAllow
         | None \<Rightarrow> PreDefer))"

definition check_hostname_verbose ::
  "('net, 'x) ipnet_ops_scheme \<Rightarrow> 'net parsed_acl \<Rightarrow> string \<Rightarrow> u16 \<Rightarrow> pre_check_result \<times> string option" where
  "check_hostname_verbose N acl host port =
     (let literal_ip = parse_ip host in
      case find (\<lambda>rule. pre_matches N rule host port literal_ip) (deny_rules acl) of
        Some rule \<Rightarrow> (PreDeny, Some (''deny:'' @ show_acl_rule N rule))
      | None \<Rightarrow>
        (case find (\<lambda>rule. pre_matches N rule host port literal_ip) (allow_rules acl) of
           Some rule \<Rightarrow> (PreAllow, Some (''allow:'' @ show_acl_rule N rule))
         | None \<Rightarrow> (PreDefer, None)))"

subsection \<open>Configuration\<close>

fun to_policy :: "acl_policy_config \<Rightarrow> acl_policy" where
  "to_policy AllowConfig = Allow"
| "to_policy DenyConfig = Deny"

definition from_config ::
  "('net, 'x) ipnet_ops_scheme \<Rightarrow> acl_policy_config \<Rightarrow> string list \<Rightarrow> string list \<Rightarrow> acl_error + 'net parsed_acl" where
  "from_config N dp allow deny =
     (case parse_rules N allow of
        Inl e \<Rightarrow> Inl e
      | Inr as \<Rightarrow>
        (case parse_rules N deny of
           Inl e \<Rightarrow> Inl e
         | Inr ds \<Rightarrow> Inr \<lparr>default_policy = to_policy dp, allow_rules = as, deny_rules = ds\<rparr>))"

text \<open>One list of the merged configuration: global, then group (if any), then user rules, each part
  parsed in turn and the first error returned.\<close>

definition merge_rules ::
  "('net, 'x) ipnet_ops_scheme \<Rightarrow> string list \<Rightarrow> string list option \<Rightarrow> string list \<Rightarrow> acl_error + 'net acl_rule list" where
  "merge_rules N global grp user =
     (case parse_rules N global of
        Inl e \<Rightarrow> Inl e
      | Inr gl \<Rightarrow>
        (case (case grp of None \<Rightarrow> Inr [] | Some g \<Rightarrow> parse_rules N g) of
           Inl e \<Rightarrow> Inl e
         | Inr gr \<Rightarrow>
           (case parse_rules N user of
              Inl e \<Rightarrow> Inl e
            | Inr us \<Rightarrow> Inr (gl @ gr @ us))))"

definition from_config_merged_with_group ::
  "('net, 'x) ipnet_ops_scheme \<Rightarrow> global_acl_config \<Rightarrow> user_acl_config option \<Rightarrow> user_acl_config
     \<Rightarrow> acl_error + 'net parsed_acl" where
  "from_config_merged_with_group N global grp user =
     (if \<not> user_inherit user then
        from_config N (case user_default_policy user of Some p \<Rightarrow> p | None \<Rightarrow> AllowConfig)
          (user_allow user) (user_deny user)
      else
        (let group_policy = Option.bind grp user_default_policy;
             policy = (case user_default_policy user of
                         Some p \<Rightarrow> p
                       | None \<Rightarrow> (case group_policy of Some p \<Rightarrow> p | None \<Rightarrow> global_default_policy global))
         in case merge_rules N (global_deny global) (map_option user_deny grp) (user_deny user) of
              Inl e \<Rightarrow> Inl e
            | Inr deny \<Rightarrow>
              (case merge_rules N (global_allow global) (map_option user_allow grp) (user_allow user) of
                 Inl e \<Rightarrow> Inl e
               | Inr allow \<Rightarrow>
                   Inr \<lparr>default_policy = to_policy policy, allow_rules = allow, deny_rules = deny\<rparr>)))"

definition from_config_merged ::
  "('net, 'x) ipnet_ops_scheme \<Rightarrow> global_acl_config \<Rightarrow> user_acl_config \<Rightarrow> acl_error + 'net parsed_acl" where
  "from_config_merged N global user = from_config_merged_with_group N global None user"

subsection \<open>Decisions of the proxy\<close>

record acl_decision =
  allowed :: bool
  matched_rule :: "string option"

definition pre_check_hostname_and_log ::
  "('net, 'x) ipnet_ops_scheme \<Rightarrow> 'net parsed_acl \<Rightarrow> string \<Rightarrow> u16 \<Rightarrow> acl_decision" where
  "pre_check_hostname_and_log N acl host port =
     (case check_hostname_verbose N acl host port of
        (PreDeny, matched) \<Rightarrow> \<lparr>allowed = False, matched_rule = matched\<rparr>
      | (PreAllow, matched) \<Rightarrow> \<lparr>allowed = True, matched_rule = matched\<rparr>
      | (PreDefer, matched) \<Rightarrow> \<lparr>allowed = True, matched_rule = matched\<rparr>)"

definition check_and_log ::
  "('net, 'x) ipnet_ops_scheme \<Rightarrow> 'net parsed_acl \<Rightarrow> string \<Rightarrow> u16 \<Rightarrow> ipaddr option \<Rightarrow> acl_decision" where
  "check_and_log N acl host port resolved_ip =
     (case check_verbose N acl host port resolved_ip of
        (Allow, matched) \<Rightarrow> \<lparr>allowed = True, matched_rule = matched\<rparr>
      | (Deny, matched) \<Rightarrow> \<lparr>allowed = False, matched_rule = matched\<rparr>)"

subsection \<open>The interface: deny rules first, then allow rules, then a default\<close>

locale deny_first =
  fixes applies :: "'r \<Rightarrow> 'q \<Rightarrow> bool"
    and decide :: "'r list \<Rightarrow> 'r list \<Rightarrow> 'p \<Rightarrow> 'q \<Rightarrow> 'p"
    and yes :: 'p
    and no :: 'p
  assumes decide_law:
    "decide ds as dflt q =
       (if \<exists>r \<in> set ds. applies r q then no else if \<exists>r \<in> set as. applies r q then yes else dflt)"
    and yes_no: "yes \<noteq> no"
begin

lemma deny_wins: "r \<in> set ds \<Longrightarrow> applies r q \<Longrightarrow> decide ds as dflt q = no"
  by (auto simp: decide_law)

lemma yes_iff:
  "dflt = no \<Longrightarrow> decide ds as dflt q = yes \<longleftrightarrow>
     (\<forall>r \<in> set ds. \<not> applies r q) \<and> (\<exists>r \<in> set as. applies r q)"
  using yes_no by (auto simp: decide_law)

lemma more_denies: "set ds \<subseteq> set ds' \<Longrightarrow> decide ds as dflt q = no \<Longrightarrow> decide ds' as dflt q = no"
  using yes_no by (auto simp: decide_law split: if_splits)

lemma order_irrelevant:
  "set ds = set ds' \<Longrightarrow> set as = set as' \<Longrightarrow> decide ds as dflt q = decide ds' as' dflt q"
  by (simp add: decide_law)

end

lemma find_None: "find P xs = None \<longleftrightarrow> (\<forall>x \<in> set xs. \<not> P x)"
  by (induction xs) auto

lemma case_find: "(case find P xs of Some x \<Rightarrow> a | None \<Rightarrow> b) = (if \<exists>x \<in> set xs. P x then a else b)"
  by (induction xs) auto

interpretation post: deny_first
  "\<lambda>r (host, port, ip). rule_matches N r host port ip"
  "\<lambda>ds as dflt (host, port, ip). check N \<lparr>default_policy = dflt, allow_rules = as, deny_rules = ds\<rparr> host port ip"
  Allow Deny for N
  by unfold_locales (auto simp: check_def case_find)

interpretation pre: deny_first
  "\<lambda>r (host, port). pre_matches N r host port (parse_ip host)"
  "\<lambda>ds as dflt (host, port).
     (case check_hostname_only N \<lparr>default_policy = Deny, allow_rules = as, deny_rules = ds\<rparr> host port of
        PreDefer \<Rightarrow> dflt | r \<Rightarrow> r)"
  PreAllow PreDeny for N
  by unfold_locales (auto simp: check_hostname_only_def case_find Let_def)

subsection \<open>Lemmas\<close>

lemma check_eq:
  "check N acl host port ip =
     (if \<exists>r \<in> set (deny_rules acl). rule_matches N r host port ip then Deny
      else if \<exists>r \<in> set (allow_rules acl). rule_matches N r host port ip then Allow
      else default_policy acl)"
  by (simp add: check_def case_find)

lemma check_hostname_only_eq:
  "check_hostname_only N acl host port =
     (if \<exists>r \<in> set (deny_rules acl). pre_matches N r host port (parse_ip host) then PreDeny
      else if \<exists>r \<in> set (allow_rules acl). pre_matches N r host port (parse_ip host) then PreAllow
      else PreDefer)"
  by (simp add: check_hostname_only_def case_find Let_def)

lemma pre_matches_literal [simp]:
  "pre_matches N r host port (Some ip) = rule_matches N r host port (Some ip)"
  by (cases r) simp_all

lemma pre_matches_sound:
  "pre_matches N r host port (parse_ip host) \<Longrightarrow> (\<And>l. parse_ip host = Some l \<Longrightarrow> ip = l) \<Longrightarrow>
   rule_matches N r host port (Some ip)"
  by (cases r) (auto split: if_splits)

lemma check_no_deny: "check N acl host port ip = Allow \<Longrightarrow> r \<in> set (deny_rules acl) \<Longrightarrow> \<not> rule_matches N r host port ip"
  by (auto simp: check_eq split: if_splits)

lemma fst_check_verbose [simp]: "fst (check_verbose N acl host port ip) = check N acl host port ip"
  by (simp add: check_verbose_def check_def split: option.splits)

lemma fst_check_hostname_verbose [simp]:
  "fst (check_hostname_verbose N acl host port) = check_hostname_only N acl host port"
  by (simp add: check_hostname_verbose_def check_hostname_only_def Let_def split: option.splits)

lemma allowed_check_and_log [simp]:
  "allowed (check_and_log N acl host port ip) \<longleftrightarrow> check N acl host port ip = Allow"
  using fst_check_verbose [of N acl host port ip]
  by (auto simp: check_and_log_def simp del: fst_check_verbose split: prod.splits acl_policy.splits)

lemma allowed_pre_check [simp]:
  "allowed (pre_check_hostname_and_log N acl host port) \<longleftrightarrow> check_hostname_only N acl host port \<noteq> PreDeny"
  using fst_check_hostname_verbose [of N acl host port]
  by (auto simp: pre_check_hostname_and_log_def simp del: fst_check_hostname_verbose split: prod.splits pre_check_result.splits)

lemma parse_rules_in:
  "parse_rules N rs = Inr rules \<Longrightarrow> r \<in> set rs \<Longrightarrow> \<exists>rule \<in> set rules. acl_rule_parse N r = Inr rule"
  by (induction rs arbitrary: rules) (auto split: sum.splits)

lemma merge_rules_in:
  assumes "merge_rules N gl grp us = Inr rules"
    and "r \<in> set gl \<or> (\<exists>g. grp = Some g \<and> r \<in> set g) \<or> r \<in> set us"
  shows "\<exists>rule \<in> set rules. acl_rule_parse N r = Inr rule"
  using assms unfolding merge_rules_def
  by (auto split: sum.splits option.splits dest!: parse_rules_in)

lemma merged_deny_in:
  assumes "from_config_merged_with_group N global grp user = Inr acl" and "user_inherit user"
    and "r \<in> set (global_deny global) \<or> (\<exists>g. grp = Some g \<and> r \<in> set (user_deny g)) \<or> r \<in> set (user_deny user)"
  shows "\<exists>rule \<in> set (deny_rules acl). acl_rule_parse N r = Inr rule"
proof -
  from assms(1,2) obtain deny where
    "merge_rules N (global_deny global) (map_option user_deny grp) (user_deny user) = Inr deny"
    and "deny_rules acl = deny"
    by (auto simp: from_config_merged_with_group_def Let_def split: sum.splits)
  then show ?thesis using assms(3) merge_rules_in [of N _ _ _ deny r] by auto
qed

text \<open>Splitting and reading back a printed rule.\<close>

lemma rfind_char_none: "c \<notin> set s \<Longrightarrow> rfind_char c s = None"
  by (induction s) auto

lemma rfind_char_append: "c \<notin> set p \<Longrightarrow> rfind_char c (h @ c # p) = Some (length h)"
  by (induction h) (simp_all add: rfind_char_none)

lemma find_char_append: "c \<notin> set p \<Longrightarrow> find_char c (p @ c # q) = Some (length p)"
  by (induction p) auto

lemma find_char_none: "c \<notin> set s \<Longrightarrow> find_char c s = None"
  by (induction s) auto

lemma show_nat_chars:
  "CHR ''-'' \<notin> set (show_nat n)" "CHR '':'' \<notin> set (show_nat n)" "CHR ''*'' \<notin> set (show_nat n)"
  using show_nat_digits [of n] by (auto simp: list_all_iff is_ascii_digit_def)

lemma parse_u16_show [simp]: "parse_u16 (show_nat (unat p)) = Some p"
  using unat_u16 [of p] by (simp add: parse_u16_def)

fun wf_port :: "port_match \<Rightarrow> bool" where
  "wf_port (PortRange lo hi) = (lo \<le> hi)"
| "wf_port _ = True"

lemma show_port_no_colon: "CHR '':'' \<notin> set (show_port_match pm)"
  by (cases pm) (simp_all add: show_nat_chars)

lemma parse_port_match_show: "wf_port pm \<Longrightarrow> parse_port_match (show_port_match pm) = Inr pm"
proof (cases pm)
  case PortAny
  then show ?thesis by (simp add: parse_port_match_def)
next
  case (PortExact p)
  have "show_nat (unat p) \<noteq> ''*''" using show_nat_chars(3) [of "unat p"] by auto
  then show ?thesis
    by (simp add: PortExact parse_port_match_def find_char_none show_nat_chars)
next
  case (PortRange lo hi)
  assume "wf_port pm"
  moreover have "show_nat (unat lo) @ CHR ''-'' # show_nat (unat hi) \<noteq> ''*''"
    using show_nat_chars(3) [of "unat lo"] by (cases "show_nat (unat lo)") auto
  ultimately show ?thesis
    by (simp add: PortRange parse_port_match_def find_char_append show_nat_chars)
qed

lemma split_host_port_show:
  assumes "h = [] \<or> hd h \<noteq> CHR ''[''" and "CHR '':'' \<in> set h \<longrightarrow> CHR ''/'' \<in> set h" and "CHR '':'' \<notin> set p"
  shows "split_host_port (h @ CHR '':'' # p) = Inr (h, p)"
proof -
  have "hd (h @ CHR '':'' # p) \<noteq> CHR ''[''" using assms(1) by (cases h) auto
  then show ?thesis
    using assms(2,3) by (auto simp: split_host_port_def rfind_char_append Let_def)
qed

lemma to_ascii_lower_dot: "to_ascii_lower c = CHR ''.'' \<longleftrightarrow> c = CHR ''.''"
proof
  assume a: "to_ascii_lower c = CHR ''.''"
  show "c = CHR ''.''"
  proof (cases "is_ascii_upper c")
    case True
    then have "(of_char (to_ascii_lower c) :: nat) = of_char c + 32"
      by (simp add: to_ascii_lower_def is_ascii_upper_def)
    with a True show ?thesis by (simp add: is_ascii_upper_def)
  next
    case False
    with a show ?thesis by (simp add: to_ascii_lower_def)
  qed
qed (simp add: to_ascii_lower_def is_ascii_upper_def)

lemma hostname_matches_wildcard:
  "hostname_matches host (''*.'' @ suffix) \<longleftrightarrow>
     eq_ignore_ascii_case host suffix \<or>
     (\<exists>label. label \<noteq> [] \<and> to_ascii_lowercase host = label @ ''.'' @ to_ascii_lowercase suffix)"
proof -
  let ?n = "length host - length suffix - 1"
  have "(length suffix + 1 < length host \<and> host ! ?n = CHR ''.'' \<and>
         eq_ignore_ascii_case (drop (length host - length suffix) host) suffix) \<longleftrightarrow>
        (\<exists>label. label \<noteq> [] \<and> to_ascii_lowercase host = label @ ''.'' @ to_ascii_lowercase suffix)"
    (is "?L \<longleftrightarrow> ?R")
  proof
    assume L: ?L
    then have n: "?n < length host" "0 < ?n" "Suc ?n = length host - length suffix" by auto
    have "host = take ?n host @ host ! ?n # drop (Suc ?n) host"
      using n(1) by (simp add: id_take_nth_drop)
    with L n have "to_ascii_lowercase host =
        to_ascii_lowercase (take ?n host) @ ''.'' @ to_ascii_lowercase suffix"
      by (metis (no_types, lifting) append_Cons append_Nil eq_ignore_ascii_case_def list.simps(9)
          map_append to_ascii_lower_dot to_ascii_lowercase_def)
    moreover have "to_ascii_lowercase (take ?n host) \<noteq> []"
      using n by (auto simp: to_ascii_lowercase_def)
    ultimately show ?R by blast
  next
    assume ?R
    then obtain label where l: "label \<noteq> []"
      and eq: "to_ascii_lowercase host = label @ ''.'' @ to_ascii_lowercase suffix" by blast
    have len: "length host = length label + 1 + length suffix"
      using arg_cong [OF eq, of length] by simp
    have "to_ascii_lower (host ! length label) = CHR ''.''"
      using eq len by (metis add_Suc_right append_Cons length_to_ascii_lowercase less_add_Suc1 nth_append_length
          nth_map plus_1_eq_Suc add.commute add_Suc to_ascii_lowercase_def)
    moreover have "to_ascii_lowercase (drop (Suc (length label)) host) = to_ascii_lowercase suffix"
      using arg_cong [OF eq, of "drop (Suc (length label))"] by (simp add: to_ascii_lowercase_def drop_map)
    ultimately show ?L
      using l len by (simp add: to_ascii_lower_dot eq_ignore_ascii_case_def)
  qed
  then show ?thesis by (simp add: hostname_matches_def)
qed

subsection \<open>Properties\<close>

text \<open>C12: a deny rule of the global configuration, of the user's group or of the user is binding for
  every user who inherits: whatever allow rules and default policy the merged policy has, a target
  that the deny rule matches is denied, both by \<open>check\<close> and by the decision the proxy acts on.\<close>

theorem inherited_deny_binding:
  assumes "from_config_merged_with_group N global grp user = Inr acl" and "user_inherit user"
    and "r \<in> set (global_deny global) \<or> (\<exists>g. grp = Some g \<and> r \<in> set (user_deny g)) \<or> r \<in> set (user_deny user)"
    and "acl_rule_parse N r = Inr rule" and "rule_matches N rule host port ip"
  shows "check N acl host port ip = Deny \<and> \<not> allowed (check_and_log N acl host port ip)"
proof -
  have "\<exists>rule' \<in> set (deny_rules acl). acl_rule_parse N r = Inr rule'" by (rule merged_deny_in [OF assms(1-3)])
  with assms(4,5) have "check N acl host port ip = Deny" by (auto simp: check_eq)
  then show ?thesis by simp
qed

theorem inherited_deny_binding_witness:
  "check sample_net \<lparr>default_policy = Allow, allow_rules = [], deny_rules = [HostPattern ''x.org'' PortAny]\<rparr> ''x.org'' 80 None = Deny"
proof -
  have "split_host_port ''x.org:*'' = Inr (''x.org'', ''*'')" "to_ascii_lowercase ''x.org'' = ''x.org''" by code_simp+
  moreover have "parse_ip ''x.org'' = None" by (rule parse_ip_not_hex) (simp_all add: to_digit_def)
  ultimately have parse: "acl_rule_parse sample_net ''x.org:*'' = Inr (HostPattern ''x.org'' PortAny)"
    by (simp add: acl_rule_parse_def parse_port_match_def sample_net_def)
  have cfg: "from_config_merged_with_group sample_net
      \<lparr>global_default_policy = AllowConfig, global_allow = [], global_deny = [''x.org:*'']\<rparr> None
      \<lparr>user_default_policy = None, user_allow = [], user_deny = [], user_inherit = True\<rparr>
      = Inr \<lparr>default_policy = Allow, allow_rules = [], deny_rules = [HostPattern ''x.org'' PortAny]\<rparr>"
    by (simp add: from_config_merged_with_group_def merge_rules_def parse)
  have "rule_matches sample_net (HostPattern ''x.org'' PortAny) ''x.org'' 80 None"
    by (simp add: hostname_matches_def eq_ignore_ascii_case_def)
  from inherited_deny_binding [OF cfg _ _ parse this] show ?thesis by simp
qed

text \<open>For a target that is already a literal address the pre-check is complete: the check after
  resolution gives the pre-check's verdict, and the default policy where the pre-check defers.\<close>

theorem literal_precheck_complete:
  assumes "parse_ip host = Some ip"
  shows "check N acl host port (Some ip) =
     (case check_hostname_only N acl host port of
        PreDeny \<Rightarrow> Deny | PreAllow \<Rightarrow> Allow | PreDefer \<Rightarrow> default_policy acl)"
  by (simp add: assms check_eq check_hostname_only_eq)

text \<open>A pre-check denial is never wrong: whatever address the host resolves to (a literal address
  resolves to itself), the check after resolution denies as well. So refusing before the DNS
  lookup refuses nothing that would later be allowed.\<close>

theorem precheck_deny_sound:
  assumes "\<not> allowed (pre_check_hostname_and_log N acl host port)"
    and "\<And>l. parse_ip host = Some l \<Longrightarrow> ip = l"
  shows "check N acl host port (Some ip) = Deny"
proof -
  from assms(1) have "check_hostname_only N acl host port = PreDeny" by simp
  then obtain r where "r \<in> set (deny_rules acl)" "pre_matches N r host port (parse_ip host)"
    by (auto simp: check_hostname_only_eq split: if_splits)
  with pre_matches_sound [of N r host port ip] assms(2) show ?thesis
    by (auto simp: check_eq)
qed

theorem precheck_deny_sound_witness:
  "check sample_net \<lparr>default_policy = Allow, allow_rules = [], deny_rules = [HostPattern ''x.org'' PortAny]\<rparr> ''x.org'' 80
     (Some (V4 192 0 2 1)) = Deny"
proof (rule precheck_deny_sound)
  have "hostname_matches ''x.org'' ''x.org''" by code_simp
  then show "\<not> allowed (pre_check_hostname_and_log sample_net
      \<lparr>default_policy = Allow, allow_rules = [], deny_rules = [HostPattern ''x.org'' PortAny]\<rparr> ''x.org'' 80)"
    by (simp add: check_hostname_only_eq)
next
  have "parse_ip ''x.org'' = None" by (rule parse_ip_not_hex) (simp_all add: to_digit_def)
  then show "\<And>l. parse_ip ''x.org'' = Some l \<Longrightarrow> V4 192 0 2 1 = l" by simp
qed

text \<open>The pattern \<open>*.suffix\<close> matches, without regard to ASCII case, exactly the domain itself and
  the names that put a non-empty label and a dot before it; \<open>evilexample.com\<close> is not matched
  by \<open>*.example.com\<close>.\<close>

theorem wildcard_pattern_meaning:
  "rule_matches N (HostPattern (''*.'' @ suffix) pm) host port ip \<longleftrightarrow>
     port_matches pm port \<and>
     (to_ascii_lowercase host = to_ascii_lowercase suffix \<or>
      (\<exists>label. label \<noteq> [] \<and> to_ascii_lowercase host = label @ ''.'' @ to_ascii_lowercase suffix))"
  using hostname_matches_wildcard [of host suffix] by (simp add: eq_ignore_ascii_case_def)

text \<open>A sample policy for the witnesses of the theories that use one.\<close>

definition sample_acl :: "ipaddr parsed_acl" where
  "sample_acl = \<lparr>default_policy = Deny, allow_rules = [HostPattern ''example.org'' (PortExact 80)], deny_rules = []\<rparr>"

end
