(* ===== verification/Rolling_Window.thy ===== *)
theory Rolling_Window
  imports Prelude
begin

text \<open>
  Models \<open>src/quota/rolling_window.rs\<close>: a ring of counters with a cached sum, the time
  stamp of the last advance, and the three operations \<open>record\<close>, \<open>sum\<close> and
  \<open>advance\<close>. The counters are 64-bit and wrap (\<open>fetch_add\<close>); sums are taken in the
  release profile, where \<open>+\<close> wraps as well. Every reading of the clock is an argument:
  \<open>record\<close> reads it twice, once in \<open>advance\<close> and once in \<open>current_index\<close>.
  The compare-and-swap of \<open>advance\<close> always succeeds here, since an operation is one step.

  The reference is the log of all recorded events: with buckets of one second, \<open>sum\<close> is
  the total of the events younger than the window, those during whose recording the second changed
  excepted (\<open>window_sum_exact\<close>).
\<close>

subsection \<open>Model\<close>

record rolling_window =
  buckets :: "u64 list"
  window_secs :: nat
  bucket_secs :: nat
  last_advance :: nat
  cached_sum :: u64

definition div_ceil :: "nat \<Rightarrow> nat \<Rightarrow> nat" where
  "div_ceil a b = (if a mod b = 0 then a div b else a div b + 1)"

text \<open>\<open>RollingWindow::new\<close>; \<^const>\<open>None\<close> is the failed assertion.\<close>

definition rw_new :: "nat \<Rightarrow> nat \<Rightarrow> nat \<Rightarrow> rolling_window option" where
  "rw_new window_s num_buckets now =
     (if num_buckets > 0 \<and> window_s > 0 then
        Some \<lparr>buckets = replicate num_buckets 0, window_secs = window_s,
              bucket_secs = div_ceil window_s num_buckets, last_advance = now, cached_sum = 0\<rparr>
      else None)"

definition bucket_index :: "rolling_window \<Rightarrow> nat \<Rightarrow> nat" where
  "bucket_index w timestamp = (timestamp div bucket_secs w) mod length (buckets w)"

fun clear_buckets :: "nat \<Rightarrow> nat \<Rightarrow> u64 list \<Rightarrow> u64 list" where
  "clear_buckets start 0 bs = bs"
| "clear_buckets start (Suc k) bs = (clear_buckets start k bs)[(start + k) mod length bs := 0]"

definition advance :: "nat \<Rightarrow> rolling_window \<Rightarrow> rolling_window" where
  "advance now w =
     (let last = last_advance w; elapsed_secs = now - last in
      if elapsed_secs < bucket_secs w then w
      else
        (let w1 = w\<lparr>last_advance := now\<rparr>;
             buckets_to_clear = min (elapsed_secs div bucket_secs w) (length (buckets w)) in
         if buckets_to_clear \<ge> length (buckets w) then
           w1\<lparr>buckets := map (\<lambda>_. 0) (buckets w), cached_sum := 0\<rparr>
         else
           (let bs = clear_buckets (bucket_index w last + 1) buckets_to_clear (buckets w) in
            w1\<lparr>buckets := bs, cached_sum := sum_list bs\<rparr>)))"

definition rw_record :: "nat \<Rightarrow> nat \<Rightarrow> u64 \<Rightarrow> rolling_window \<Rightarrow> rolling_window" where
  "rw_record t1 t2 count w =
     (let w1 = advance t1 w; idx = bucket_index w1 t2 in
      w1\<lparr>buckets := (buckets w1)[idx := buckets w1 ! idx + count], cached_sum := cached_sum w1 + count\<rparr>)"

definition rw_sum :: "nat \<Rightarrow> rolling_window \<Rightarrow> rolling_window \<times> u64" where
  "rw_sum now w = (let w1 = advance now w in (w1, cached_sum w1))"

subsection \<open>Invariant\<close>

definition rw_ok :: "rolling_window \<Rightarrow> bool" where
  "rw_ok w \<longleftrightarrow> buckets w \<noteq> [] \<and> 0 < bucket_secs w \<and> cached_sum w = sum_list (buckets w)"

lemma length_clear_buckets [simp]: "length (clear_buckets s k bs) = length bs"
  by (induction k) simp_all

lemma nth_clear_buckets:
  "i < length bs \<Longrightarrow>
   clear_buckets s k bs ! i = (if \<exists>j < k. (s + j) mod length bs = i then 0 else bs ! i)"
proof (induction k)
  case (Suc k)
  have "(\<exists>j < Suc k. (s + j) mod length bs = i) \<longleftrightarrow> (s + k) mod length bs = i \<or> (\<exists>j < k. (s + j) mod length bs = i)"
    by (auto simp: less_Suc_eq)
  with Suc show ?case by (cases "(s + k) mod length bs = i") simp_all
qed simp

lemma sum_list_update_word:
  fixes xs :: "'a :: comm_monoid_add list"
  shows "i < length xs \<Longrightarrow> sum_list (xs[i := xs ! i + c]) = sum_list xs + c"
  by (induction xs arbitrary: i) (auto simp: ac_simps split: nat.split)

lemma bucket_index_less: "buckets w \<noteq> [] \<Longrightarrow> bucket_index w t < length (buckets w)"
  by (simp add: bucket_index_def)

lemma rw_new_ok: "rw_new ws n now = Some w \<Longrightarrow> rw_ok w"
  by (auto simp: rw_new_def rw_ok_def div_ceil_def sum_list_replicate mod_eq_0_iff_dvd
      div_greater_zero_iff dvd_imp_le split: if_splits)

lemma sum_list_map_zero [simp]: "sum_list (map (\<lambda>_. 0 :: 'a :: comm_monoid_add) xs) = 0"
  by (induction xs) simp_all

lemma advance_ok: "rw_ok w \<Longrightarrow> rw_ok (advance now w)"
  unfolding advance_def rw_ok_def Let_def using length_clear_buckets by (simp flip: length_greater_0_conv)

lemma advance_fields [simp]:
  "length (buckets (advance now w)) = length (buckets w)"
  "bucket_secs (advance now w) = bucket_secs w" "window_secs (advance now w) = window_secs w"
  by (auto simp: advance_def Let_def)

lemma rw_record_ok: "rw_ok w \<Longrightarrow> rw_ok (rw_record t1 t2 c w)"
  using advance_ok [of w t1] bucket_index_less [of "advance t1 w" t2]
  by (auto simp: rw_record_def Let_def rw_ok_def sum_list_update_word)

lemma advance_idle:
  assumes "rw_ok w" and "length (buckets w) * bucket_secs w \<le> now - last_advance w"
  shows "cached_sum (advance now w) = 0"
proof -
  have "0 < bucket_secs w" "buckets w \<noteq> []" using assms(1) by (simp_all add: rw_ok_def)
  then have "length (buckets w) \<le> (now - last_advance w) div bucket_secs w"
    using assms(2) by (simp add: less_eq_div_iff_mult_less_eq)
  moreover have "bucket_secs w \<le> now - last_advance w"
    using assms(2) \<open>buckets w \<noteq> []\<close> by (cases "buckets w") auto
  ultimately show ?thesis by (simp add: advance_def Let_def)
qed

subsection \<open>The reference: a log of events\<close>

text \<open>A sequence of uses: \<open>c\<close> units are recorded, with the clock readings \<open>t1\<close> and \<open>t2\<close>, or the sum is read.\<close>

datatype rw_op = RwRecord nat nat u64 | RwSum nat

fun rw_exec :: "rw_op \<Rightarrow> rolling_window \<Rightarrow> rolling_window" where
  "rw_exec (RwRecord t1 t2 c) w = rw_record t1 t2 c w"
| "rw_exec (RwSum t) w = fst (rw_sum t w)"

fun op_times :: "rw_op \<Rightarrow> nat list" where
  "op_times (RwRecord t1 t2 c) = [t1, t2]"
| "op_times (RwSum t) = [t]"

text \<open>The recordings during which the clock stayed in one second.\<close>

fun events :: "rw_op list \<Rightarrow> (nat \<times> u64) list" where
  "events [] = []"
| "events (RwRecord t1 t2 c # ops) = (if t1 = t2 then [(t1, c)] else []) @ events ops"
| "events (RwSum t # ops) = events ops"

definition log_sum :: "(nat \<Rightarrow> bool) \<Rightarrow> (nat \<times> u64) list \<Rightarrow> u64" where
  "log_sum P log = (\<Sum>(t, c) \<leftarrow> log. if P t then c else 0)"

lemma log_sum_simps [simp]:
  "log_sum P [] = 0" "log_sum P (log @ [(t, c)]) = log_sum P log + (if P t then c else 0)"
  by (simp_all add: log_sum_def)

lemma log_sum_cong: "(\<And>t c. (t, c) \<in> set log \<Longrightarrow> P t = Q t) \<Longrightarrow> log_sum P log = log_sum Q log"
  unfolding log_sum_def by (intro arg_cong [of _ _ sum_list] map_cong) auto

lemma log_sum_zero: "(\<And>t c. (t, c) \<in> set log \<Longrightarrow> \<not> P t) \<Longrightarrow> log_sum P log = 0"
proof -
  assume "\<And>t c. (t, c) \<in> set log \<Longrightarrow> \<not> P t"
  then have "log_sum P log = log_sum (\<lambda>_. False) log" by (intro log_sum_cong) auto
  also have "\<dots> = 0" by (induction log) (auto simp: log_sum_def)
  finally show ?thesis .
qed

lemma log_sum_split:
  "0 < n \<Longrightarrow> (\<Sum>i < n. log_sum (\<lambda>t. t mod n = i \<and> P t) log) = log_sum P log"
proof (induction log)
  case (Cons e log)
  obtain t c where e: "e = (t, c)" by fastforce
  have "(\<Sum>i < n. (if t mod n = i \<and> P t then c else 0)) = (if P t then c else 0)"
    using Cons.prems by (cases "P t") (simp_all add: sum.delta)
  with Cons show ?case by (simp add: e log_sum_def sum.distrib)
qed (simp add: log_sum_def)

text \<open>Bucket \<open>i\<close> of a ring of \<open>n\<close> one-second buckets holds the events of the window whose time is
  congruent to \<open>i\<close>.\<close>

definition tracks :: "rolling_window \<Rightarrow> (nat \<times> u64) list \<Rightarrow> bool" where
  "tracks w log \<longleftrightarrow> rw_ok w \<and> bucket_secs w = 1 \<and> (\<forall>(t, c) \<in> set log. t \<le> last_advance w)
     \<and> (\<forall>i < length (buckets w).
           buckets w ! i = log_sum (\<lambda>t. t mod length (buckets w) = i \<and> last_advance w < t + length (buckets w)) log)"

lemma mod_window:
  fixes n :: nat
  assumes "i < n" and "now - la < n" and "t \<le> la" and "t mod n = i" and "la < t + n" and "la \<le> now"
  shows "now < t + n \<longleftrightarrow> \<not> (\<exists>j < now - la. (la mod n + 1 + j) mod n = i)"
proof
  assume a: "now < t + n"
  show "\<not> (\<exists>j < now - la. (la mod n + 1 + j) mod n = i)"
  proof
    assume "\<exists>j < now - la. (la mod n + 1 + j) mod n = i"
    then obtain j where j: "j < now - la" "(la mod n + 1 + j) mod n = i" by blast
    have "(la + 1 + j) mod n = t mod n"
      using j(2) assms(4) by (metis add.assoc mod_add_left_eq)
    then have "n dvd la + 1 + j - t"
      using assms(3) by (simp add: mod_eq_dvd_iff_nat)
    moreover have "0 < la + 1 + j - t" "la + 1 + j - t < n" using a j(1) assms(3) by linarith+
    ultimately show False using nat_dvd_not_less by blast
  qed
next
  assume a: "\<not> (\<exists>j < now - la. (la mod n + 1 + j) mod n = i)"
  show "now < t + n"
  proof (rule ccontr)
    assume "\<not> now < t + n"
    then have "t + n - la - 1 < now - la" using assms(5) by linarith
    moreover have "(la mod n + 1 + (t + n - la - 1)) mod n = i"
    proof -
      have "(la mod n + 1 + (t + n - la - 1)) mod n = (la + (1 + (t + n - la - 1))) mod n"
        by (metis add.assoc mod_add_left_eq)
      also have "la + (1 + (t + n - la - 1)) = t + n" using assms(5) by linarith
      finally show ?thesis using assms(4) by simp
    qed
    ultimately show False using a by blast
  qed
qed

text \<open>The same with the buckets of the seconds after the last advance up to \<open>m\<close> left open: a recording during
  which the clock moves on to \<open>m\<close> leaves its count in one of them.\<close>

definition loose :: "nat \<Rightarrow> rolling_window \<Rightarrow> (nat \<times> u64) list \<Rightarrow> bool" where
  "loose m w log \<longleftrightarrow> rw_ok w \<and> bucket_secs w = 1 \<and> last_advance w \<le> m \<and> (\<forall>(t, c) \<in> set log. t \<le> last_advance w)
     \<and> (\<forall>i < length (buckets w). (\<exists>j < m - last_advance w. (last_advance w mod length (buckets w) + 1 + j) mod length (buckets w) = i)
           \<or> buckets w ! i = log_sum (\<lambda>t. t mod length (buckets w) = i \<and> last_advance w < t + length (buckets w)) log)"

lemma tracks_loose: "tracks w log \<Longrightarrow> last_advance w \<le> m \<Longrightarrow> loose m w log"
  by (auto simp: tracks_def loose_def)

lemma loose_now: "loose (last_advance w) w log \<Longrightarrow> tracks w log"
  by (auto simp: tracks_def loose_def)

lemma loose_advance:
  assumes tr: "loose m w log" and "m \<le> now"
  shows "tracks (advance now w) log \<and> last_advance (advance now w) = now"
proof -
  let ?n = "length (buckets w)" and ?k = "now - last_advance w" and ?w = "advance now w"
  let ?cleared = "\<lambda>k i. \<exists>j < k. (last_advance w mod ?n + 1 + j) mod ?n = i"
  have ok: "rw_ok w" and b1: "bucket_secs w = 1" and old: "\<And>t c. (t, c) \<in> set log \<Longrightarrow> t \<le> last_advance w" and la: "last_advance w \<le> m"
    and bk: "\<And>i. i < ?n \<Longrightarrow> \<not> ?cleared (m - last_advance w) i \<Longrightarrow> buckets w ! i = log_sum (\<lambda>t. t mod ?n = i \<and> last_advance w < t + ?n) log"
    using tr by (auto simp: loose_def)
  consider "?k = 0" | "0 < ?k" "?n \<le> ?k" | "0 < ?k" "?k < ?n" by linarith
  then show ?thesis
  proof cases
    case 1
    with la assms(2) have "m = last_advance w" "now = last_advance w" by simp_all
    with loose_now tr b1 show ?thesis by (simp add: advance_def)
  next
    case 2
    then have w': "?w = w\<lparr>last_advance := now, buckets := map (\<lambda>_. 0) (buckets w), cached_sum := 0\<rparr>"
      using b1 by (simp add: advance_def Let_def)
    have "log_sum (\<lambda>t. t mod ?n = i \<and> now < t + ?n) log = 0" for i
      using old 2 by (intro log_sum_zero) fastforce
    then show ?thesis using ok b1 old 2 by (force simp: w' tracks_def rw_ok_def)
  next
    case 3
    let ?bs = "clear_buckets (last_advance w mod ?n + 1) ?k (buckets w)"
    have w': "?w = w\<lparr>last_advance := now, buckets := ?bs, cached_sum := sum_list ?bs\<rparr>"
      using 3 b1 by (simp add: advance_def Let_def bucket_index_def)
    have "?bs ! i = log_sum (\<lambda>t. t mod ?n = i \<and> now < t + ?n) log" if i: "i < ?n" for i
    proof (cases "?cleared ?k i")
      case True
      then have "log_sum (\<lambda>t. t mod ?n = i \<and> now < t + ?n) log = 0"
        using mod_window [OF i 3(2)] old 3(1) by (intro log_sum_zero) fastforce
      then show ?thesis using True i by (simp add: nth_clear_buckets)
    next
      case False
      then have "log_sum (\<lambda>t. t mod ?n = i \<and> now < t + ?n) log
          = log_sum (\<lambda>t. t mod ?n = i \<and> last_advance w < t + ?n) log"
        using mod_window [OF i 3(2)] old 3(1) by (intro log_sum_cong) fastforce
      moreover have "?bs ! i = buckets w ! i" unfolding nth_clear_buckets [OF i] using False by (rule if_not_P)
      moreover have "m - last_advance w \<le> ?k" using assms(2) by simp
      then have "\<not> ?cleared (m - last_advance w) i" using False order_less_le_trans by blast
      ultimately show ?thesis using bk [OF i] by simp
    qed
    then show ?thesis using advance_ok [OF ok, of now] b1 old 3(1) by (fastforce simp: w' tracks_def)
  qed
qed

text \<open>A recording within one second is logged; one during which the clock moves on leaves the log as it is.\<close>

lemma loose_record:
  assumes "loose m w log" and "m \<le> t1" and "t1 \<le> t2"
  shows "loose t2 (rw_record t1 t2 c w) (log @ events [RwRecord t1 t2 c])"
proof -
  let ?w = "advance t1 w" and ?n = "length (buckets w)"
  have a: "tracks ?w log" "last_advance ?w = t1" using loose_advance [OF assms(1,2)] by auto
  then have ok: "rw_ok (rw_record t1 t2 c w)" "buckets w \<noteq> []"
    using assms(1) rw_record_ok [of w t1 t2 c] by (simp_all add: loose_def rw_ok_def)
  show ?thesis
  proof (cases "t1 = t2")
    case True
    with a ok have "tracks (rw_record t1 t2 c w) (log @ [(t1, c)])"
      by (auto simp: tracks_def rw_record_def Let_def bucket_index_def nth_list_update)
    then show ?thesis using True a by (simp add: tracks_loose rw_record_def Let_def)
  next
    case False
    then have "t2 - t1 - 1 < t2 - t1" "t1 + 1 + (t2 - t1 - 1) = t2" using assms(3) by simp_all
    then have "\<exists>j < t2 - t1. (t1 mod ?n + 1 + j) mod ?n = t2 mod ?n" by (metis add.assoc mod_add_left_eq)
    with a ok False assms(3) show ?thesis
      by (auto simp: loose_def tracks_def rw_record_def Let_def bucket_index_def nth_list_update)
  qed
qed

lemma loose_sum:
  assumes "loose m w log" and "m \<le> now"
  shows "snd (rw_sum now w) = log_sum (\<lambda>t. now < t + length (buckets w)) log"
proof -
  let ?w = "advance now w" and ?n = "length (buckets w)"
  have a: "tracks ?w log" "last_advance ?w = now" using loose_advance [OF assms] by auto
  have "0 < ?n" using assms(1) by (simp add: loose_def rw_ok_def)
  have "cached_sum ?w = (\<Sum>i < ?n. buckets ?w ! i)"
    using a(1) by (simp add: tracks_def rw_ok_def sum_list_sum_nth atLeast0LessThan)
  also have "\<dots> = (\<Sum>i < ?n. log_sum (\<lambda>t. t mod ?n = i \<and> now < t + ?n) log)"
    using a by (simp add: tracks_def)
  finally show ?thesis using log_sum_split [OF \<open>0 < ?n\<close>] by (simp add: rw_sum_def Let_def)
qed

lemma loose_exec:
  "loose m w log \<Longrightarrow> sorted (m # op_times act) \<Longrightarrow> loose (last (op_times act)) (rw_exec act w) (log @ events [act])"
proof (cases act)
  case (RwSum t)
  assume "loose m w log" "sorted (m # op_times act)"
  with RwSum loose_advance [of m w log t] show ?thesis by (simp add: rw_sum_def Let_def tracks_loose)
qed (auto simp del: events.simps intro: loose_record)

lemma events_Cons: "events (act # acts) = events [act] @ events acts"
  by (cases act) simp_all

lemma rw_exec_fields [simp]: "length (buckets (rw_exec act w)) = length (buckets w)"
  by (cases act) (simp_all add: rw_record_def rw_sum_def Let_def)

lemma loose_run:
  "loose m w log \<Longrightarrow> sorted (m # concat (map op_times ops) @ [now]) \<Longrightarrow>
   \<exists>m' \<le> now. loose m' (fold rw_exec ops w) (log @ events ops) \<and> length (buckets (fold rw_exec ops w)) = length (buckets w)"
proof (induction ops arbitrary: m w log)
  case (Cons act ops)
  have ne: "op_times act \<noteq> []" by (cases act) simp_all
  have "sorted (m # op_times act)" "sorted (last (op_times act) # concat (map op_times ops) @ [now])"
    using Cons.prems(2) last_in_set [OF ne] by (auto simp: sorted_append)
  from Cons.IH [OF loose_exec [OF Cons.prems(1) this(1)] this(2)] show ?case using events_Cons [of act ops] by simp
qed auto

lemma loose_new: "rw_new ws ws t0 = Some w \<Longrightarrow> loose t0 w [] \<and> length (buckets w) = ws"
  using rw_new_ok [of ws ws t0 w]
  by (auto simp: loose_def rw_new_def div_ceil_def split: if_splits)

subsection \<open>Properties\<close>

text \<open>C19: a window of \<open>ws\<close> buckets of one second is exact about the recordings that begin and end in the same second:
  after any sequence of recordings and readings, one after the other, whose clock never runs backwards, \<open>sum\<close> returns
  the total, modulo \<open>2^64\<close>, of exactly those of them that are less than \<open>ws\<close> seconds old. A recording during which the
  second changes, between the two readings of the clock in \<open>record\<close>, is lost: it adds nothing to any later sum.\<close>

theorem window_sum_exact:
  assumes "rw_new ws ws t0 = Some w" and "sorted (t0 # concat (map op_times acts) @ [now])"
  shows "snd (rw_sum now (fold rw_exec acts w)) = log_sum (\<lambda>t. now < t + ws) (events acts)"
proof -
  have w: "loose t0 w []" "length (buckets w) = ws" using loose_new [OF assms(1)] by auto
  from loose_run [OF w(1) assms(2)] loose_sum w(2) show ?thesis by fastforce
qed

theorem window_sum_exact_witness:
  "snd (rw_sum 106 (fold rw_exec [RwRecord 100 100 5, RwSum 101, RwRecord 103 103 7, RwRecord 104 105 9, RwRecord 106 106 1]
     (the (rw_new 5 5 100)))) = 8"
proof -
  let ?acts = "[RwRecord 100 100 5, RwSum 101, RwRecord 103 103 7, RwRecord 104 105 9, RwRecord 106 106 1]"
  have new: "rw_new 5 5 100 = Some (the (rw_new 5 5 100))" by (simp add: rw_new_def)
  have "snd (rw_sum 106 (fold rw_exec ?acts (the (rw_new 5 5 100)))) = log_sum (\<lambda>t. 106 < t + 5) (events ?acts)"
    by (rule window_sum_exact [OF new]) simp
  also have "\<dots> = 8" by (simp add: log_sum_def)
  finally show ?thesis .
qed

text \<open>With buckets longer than a second the window can forget an event it still covers: the
  first advance past a bucket boundary clears the buckets that follow the one of the last advance,
  counted in whole bucket lengths, and so can clear the bucket just written. Here 1000 units are
  recorded at second 121 of a window of one hour in sixty buckets created at second 119, and the sum
  read at second 179, 58 seconds later, is 0.\<close>

theorem coarse_window_forgets:
  "map_option (\<lambda>w. snd (rw_sum 179 (rw_record 121 121 1000 w))) (rw_new 3600 60 119) = Some 0"
proof -
  have "(replicate 60 (0 :: u64))[2 := 0] = replicate 60 0" by (simp add: list_update_same_conv)
  then show ?thesis
    by (simp add: rw_new_def div_ceil_def rw_record_def rw_sum_def advance_def bucket_index_def Let_def
        sum_list_replicate numeral_2_eq_2 [symmetric])
qed

end
