(* ===== verification/Quota.thy ===== *)
theory Quota
  imports Rolling_Window Net
begin

text \<open>
  Models \<open>src/quota/mod.rs\<close> (per-user and server-wide rate windows, daily, monthly and
  lifetime counters, the quota checks) and \<open>src/quota/bandwidth.rs\<close> (the throttle
  delay). One operation is one atomic step and takes one reading \<open>now\<close> of the clock, in
  seconds. The shared \<open>Arc<UserBandwidthState>\<close> is the entry of the user map;
  \<open>record_bytes_cached\<close>, which holds such an \<open>Arc\<close>, takes and returns the
  state. The calendar of the \<open>chrono\<close> crate and the \<open>f64\<close> operations are arguments.
\<close>

subsection \<open>External operations\<close>

text \<open>\<open>civil_month\<close>: year and month of a time stamp (\<open>Utc.timestamp_opt\<close>); \<open>month_start\<close>: the time
  stamp of the first of a month, midnight (\<open>from_ymd_opt\<close>); \<open>day_start\<close>: midnight of the day of a
  time stamp.\<close>

record chrono_ops =
  civil_month :: "nat \<Rightarrow> (int \<times> nat) option"
  month_start :: "int \<Rightarrow> nat \<Rightarrow> nat option"
  day_start :: "nat \<Rightarrow> nat"

subsection \<open>Configuration\<close>

record quota_config =
  daily_bandwidth_bytes :: u64
  daily_connection_limit :: u32
  monthly_bandwidth_bytes :: u64
  monthly_connection_limit :: u32
  bandwidth_per_hour_bytes :: u64
  total_bandwidth_bytes :: u64

record rate_limits_config =
  connections_per_second :: u32
  connections_per_minute :: u32
  connections_per_hour :: u32

record quota_limits =
  max_bandwidth_mbps :: u64
  max_new_connections_per_second :: u32
  max_new_connections_per_minute :: u32

datatype quota_result = QuotaOk duration | Exceeded string

subsection \<open>Throttle\<close>

definition overshoot_delay :: "('f, 'x) f64_ops_scheme \<Rightarrow> u64 \<Rightarrow> u64 \<Rightarrow> duration \<Rightarrow> duration" where
  "overshoot_delay F rate limit max_delay =
     (if limit > 0 \<and> rate > limit then
        (let overshoot_ratio = f_div F (f_of_u64 F rate) (f_of_u64 F limit);
             delay_secs = f_mul F (f_sub F overshoot_ratio (f_lit F 1 1)) (f_lit F 1 10) in
         if f_gt F delay_secs (f_lit F 1 1000)
         then max max_delay (f_from_secs F (f_min F delay_secs (f_lit F 1 1))) else max_delay)
      else max_delay)"

definition compute_throttle ::
  "('f, 'x) f64_ops_scheme \<Rightarrow> u64 \<Rightarrow> u64 \<Rightarrow> u64 \<Rightarrow> u64 \<Rightarrow> u64 \<Rightarrow> u64 \<Rightarrow> duration" where
  "compute_throttle F bytes_just_written per_conn_limit_kbps aggregate_rate_bps aggregate_limit_bps
      server_rate_bps server_limit_bps =
     (let d0 = 0;
          d1 = (if per_conn_limit_kbps > 0 then
                  (let bytes_per_sec = f_div F (f_mul F (f_of_u64 F per_conn_limit_kbps) (f_lit F 1000 1)) (f_lit F 8 1);
                       delay_secs = f_div F (f_of_u64 F bytes_just_written) bytes_per_sec in
                   if f_gt F delay_secs (f_lit F 1 1000) then max d0 (f_from_secs F delay_secs) else d0)
                else d0);
          d2 = overshoot_delay F aggregate_rate_bps aggregate_limit_bps d1
      in overshoot_delay F server_rate_bps server_limit_bps d2)"

subsection \<open>Per-user state\<close>

record user_bandwidth_state =
  second_window :: rolling_window
  hour_window :: rolling_window
  daily_bytes :: u64
  daily_connections :: u32
  monthly_bytes :: u64
  monthly_connections :: u32
  daily_reset :: nat
  monthly_reset :: nat
  conn_per_second :: rolling_window
  conn_per_minute :: rolling_window
  conn_per_hour :: rolling_window
  total_bytes :: u64
  last_activity :: nat

definition next_day_boundary :: "nat \<Rightarrow> nat" where
  "next_day_boundary now = (now div 86400 + 1) * 86400"

definition next_month_boundary :: "chrono_ops \<Rightarrow> nat \<Rightarrow> nat" where
  "next_month_boundary C now =
     (case civil_month C now of
        None \<Rightarrow> now + 30 * 86400
      | Some (y, m) \<Rightarrow>
          (let (year, month) = (if m = 12 then (y + 1, 1) else (y, m + 1)) in
           case month_start C year month of Some t \<Rightarrow> t | None \<Rightarrow> day_start C now))"

definition win :: "nat \<Rightarrow> nat \<Rightarrow> nat \<Rightarrow> rolling_window" where
  "win ws n now = the (rw_new ws n now)"

definition ubs_new :: "chrono_ops \<Rightarrow> nat \<Rightarrow> user_bandwidth_state" where
  "ubs_new C now =
     \<lparr>second_window = win 1 1 now, hour_window = win 3600 60 now,
      daily_bytes = 0, daily_connections = 0, monthly_bytes = 0, monthly_connections = 0,
      daily_reset = next_day_boundary now, monthly_reset = next_month_boundary C now,
      conn_per_second = win 1 1 now, conn_per_minute = win 60 60 now, conn_per_hour = win 3600 60 now,
      total_bytes = 0, last_activity = now\<rparr>"

definition lazy_reset :: "chrono_ops \<Rightarrow> nat \<Rightarrow> user_bandwidth_state \<Rightarrow> user_bandwidth_state" where
  "lazy_reset C now st =
     (let st1 = (if now \<ge> daily_reset st
                 then st\<lparr>daily_bytes := 0, daily_connections := 0, daily_reset := next_day_boundary now\<rparr>
                 else st)
      in if now \<ge> monthly_reset st1
         then st1\<lparr>monthly_bytes := 0, monthly_connections := 0, monthly_reset := next_month_boundary C now\<rparr>
         else st1)"

subsection \<open>Tracker\<close>

record quota_tracker =
  user_state :: "(string, user_bandwidth_state) dmap"
  server_conn_per_second :: "rolling_window option"
  server_conn_per_minute :: "rolling_window option"
  server_bandwidth :: rolling_window
  server_bandwidth_limit_bps :: u64

definition tracker_new :: "quota_limits \<Rightarrow> nat \<Rightarrow> quota_tracker" where
  "tracker_new limits now =
     \<lparr>user_state = [],
      server_conn_per_second = (if max_new_connections_per_second limits > 0 then Some (win 1 1 now) else None),
      server_conn_per_minute = (if max_new_connections_per_minute limits > 0 then Some (win 60 60 now) else None),
      server_bandwidth = win 1 1 now,
      server_bandwidth_limit_bps = max_bandwidth_mbps limits * 1000000 div 8\<rparr>"

definition get_user :: "chrono_ops \<Rightarrow> nat \<Rightarrow> string \<Rightarrow> quota_tracker \<Rightarrow> quota_tracker \<times> user_bandwidth_state" where
  "get_user C now username T =
     (let (m, st) = dm_entry username (ubs_new C now) (user_state T) in (T\<lparr>user_state := m\<rparr>, st))"

text \<open>The entry of a user after an operation changed the state behind its \<open>Arc\<close>.\<close>

definition put_user :: "string \<Rightarrow> user_bandwidth_state \<Rightarrow> quota_tracker \<Rightarrow> quota_tracker" where
  "put_user username st T = T\<lparr>user_state := dm_insert username st (user_state T)\<rparr>"

text \<open>The reading of an optional server limiter: the advanced window and whether its sum has reached the limit.\<close>

definition limiter_full :: "nat \<Rightarrow> rolling_window option \<Rightarrow> u32 \<Rightarrow> rolling_window option \<times> bool" where
  "limiter_full now lim limit =
     (case lim of None \<Rightarrow> (None, False) | Some w \<Rightarrow> (let (w1, s) = rw_sum now w in (Some w1, s \<ge> ucast limit)))"

definition user_rate_check ::
  "nat \<Rightarrow> rate_limits_config \<Rightarrow> user_bandwidth_state \<Rightarrow> user_bandwidth_state \<times> (string + unit)" where
  "user_rate_check now rl st =
     (let full = (\<lambda>w limit. limit > 0 \<and> snd (rw_sum now w) \<ge> (ucast limit :: u64));
          adv = (\<lambda>w (limit :: u32). if limit > 0 then fst (rw_sum now w) else w);
          msg = (\<lambda>per limit. ''per-user connection rate limit (per-'' @ per @ '': '' @ show_nat (unat limit) @ '') exceeded'');
          st1 = st\<lparr>conn_per_second := adv (conn_per_second st) (connections_per_second rl)\<rparr> in
      if full (conn_per_second st) (connections_per_second rl)
      then (st1, Inl (msg ''second'' (connections_per_second rl)))
      else
        (let st2 = st1\<lparr>conn_per_minute := adv (conn_per_minute st) (connections_per_minute rl)\<rparr> in
         if full (conn_per_minute st) (connections_per_minute rl)
         then (st2, Inl (msg ''minute'' (connections_per_minute rl)))
         else
           (let st3 = st2\<lparr>conn_per_hour := adv (conn_per_hour st) (connections_per_hour rl)\<rparr> in
            if full (conn_per_hour st) (connections_per_hour rl)
            then (st3, Inl (msg ''hour'' (connections_per_hour rl)))
            else (st3, Inr ()))))"

definition check_connection_rate ::
  "chrono_ops \<Rightarrow> nat \<Rightarrow> string \<Rightarrow> rate_limits_config \<Rightarrow> quota_limits \<Rightarrow> quota_tracker
     \<Rightarrow> quota_tracker \<times> (string + unit)" where
  "check_connection_rate C now username rl sl T =
     (let (l1, full1) = limiter_full now (server_conn_per_second T) (max_new_connections_per_second sl);
          T1 = T\<lparr>server_conn_per_second := l1\<rparr> in
      if full1 then (T1, Inl ''server connection rate limit (per-second) exceeded'')
      else
        (let (l2, full2) = limiter_full now (server_conn_per_minute T) (max_new_connections_per_minute sl);
             T2 = T1\<lparr>server_conn_per_minute := l2\<rparr> in
         if full2 then (T2, Inl ''server connection rate limit (per-minute) exceeded'')
         else
           (let (T3, st) = get_user C now username T2;
                (st1, res) = user_rate_check now rl (st\<lparr>last_activity := now\<rparr>)
            in (put_user username st1 T3, res))))"

definition connection_quota_error :: "quota_config option \<Rightarrow> user_bandwidth_state \<Rightarrow> string option" where
  "connection_quota_error quotas st =
     (case quotas of
        None \<Rightarrow> None
      | Some q \<Rightarrow>
          if daily_connection_limit q > 0 \<and> daily_connections st \<ge> daily_connection_limit q
          then Some ''daily connection quota exceeded''
          else if monthly_connection_limit q > 0 \<and> monthly_connections st \<ge> monthly_connection_limit q
          then Some ''monthly connection quota exceeded''
          else None)"

definition record_connection ::
  "chrono_ops \<Rightarrow> nat \<Rightarrow> string \<Rightarrow> quota_config option \<Rightarrow> quota_tracker \<Rightarrow> quota_tracker \<times> (string + unit)" where
  "record_connection C now username quotas T =
     (let (T1, st0) = get_user C now username T; st = lazy_reset C now st0 in
      case connection_quota_error quotas st of
        Some e \<Rightarrow> (put_user username st T1, Inl e)
      | None \<Rightarrow>
          (let st1 = st\<lparr>conn_per_second := rw_record now now 1 (conn_per_second st),
                         conn_per_minute := rw_record now now 1 (conn_per_minute st),
                         conn_per_hour := rw_record now now 1 (conn_per_hour st),
                         daily_connections := daily_connections st + 1,
                         monthly_connections := monthly_connections st + 1,
                         last_activity := now\<rparr>;
               T2 = T1\<lparr>server_conn_per_second := map_option (rw_record now now 1) (server_conn_per_second T1),
                        server_conn_per_minute := map_option (rw_record now now 1) (server_conn_per_minute T1)\<rparr>
           in (put_user username st1 T2, Inr ())))"

text \<open>The four bandwidth limits in the order the code tests them; the hourly one advances its window.\<close>

definition bandwidth_quota_check ::
  "nat \<Rightarrow> quota_config \<Rightarrow> user_bandwidth_state \<Rightarrow> user_bandwidth_state \<times> string option" where
  "bandwidth_quota_check now q st =
     (if total_bandwidth_bytes q > 0 \<and> total_bytes st \<ge> total_bandwidth_bytes q
      then (st, Some ''total bandwidth quota exceeded'')
      else if daily_bandwidth_bytes q > 0 \<and> daily_bytes st \<ge> daily_bandwidth_bytes q
      then (st, Some ''daily bandwidth quota exceeded'')
      else if monthly_bandwidth_bytes q > 0 \<and> monthly_bytes st \<ge> monthly_bandwidth_bytes q
      then (st, Some ''monthly bandwidth quota exceeded'')
      else if bandwidth_per_hour_bytes q > 0 then
        (let (w, s) = rw_sum now (hour_window st); st1 = st\<lparr>hour_window := w\<rparr> in
         if s \<ge> bandwidth_per_hour_bytes q then (st1, Some ''hourly bandwidth quota exceeded'') else (st1, None))
      else (st, None))"

definition check_bandwidth_quota ::
  "chrono_ops \<Rightarrow> nat \<Rightarrow> string \<Rightarrow> quota_config option \<Rightarrow> quota_tracker \<Rightarrow> quota_tracker \<times> (string + unit)" where
  "check_bandwidth_quota C now username quotas T =
     (case quotas of
        None \<Rightarrow> (T, Inr ())
      | Some q \<Rightarrow>
          (let (T1, st) = get_user C now username T;
               (st1, e) = bandwidth_quota_check now q (lazy_reset C now st)
           in (put_user username st1 T1, case e of Some m \<Rightarrow> Inl m | None \<Rightarrow> Inr ())))"

definition record_bytes_cached ::
  "chrono_ops \<Rightarrow> ('f, 'x) f64_ops_scheme \<Rightarrow> nat \<Rightarrow> user_bandwidth_state \<Rightarrow> u64 \<Rightarrow> u64 \<Rightarrow> u64 \<Rightarrow> quota_config option
     \<Rightarrow> quota_tracker \<Rightarrow> quota_tracker \<times> user_bandwidth_state \<times> quota_result" where
  "record_bytes_cached C F now state bytes per_conn_limit_kbps aggregate_limit_kbps quotas T =
     (let st0 = lazy_reset C now state;
          st = st0\<lparr>last_activity := now,
                    second_window := rw_record now now bytes (second_window st0),
                    hour_window := rw_record now now bytes (hour_window st0),
                    daily_bytes := daily_bytes st0 + bytes,
                    monthly_bytes := monthly_bytes st0 + bytes,
                    total_bytes := total_bytes st0 + bytes\<rparr>;
          T1 = T\<lparr>server_bandwidth := rw_record now now bytes (server_bandwidth T)\<rparr>;
          (st1, e) = (case quotas of None \<Rightarrow> (st, None) | Some q \<Rightarrow> bandwidth_quota_check now q st) in
      case e of
        Some m \<Rightarrow> (T1, st1, Exceeded m)
      | None \<Rightarrow>
          (let aggregate_limit_bps = aggregate_limit_kbps * 1000 div 8;
               (sw, aggregate_rate_bps) = rw_sum now (second_window st1);
               (bw, server_rate_bps) = rw_sum now (server_bandwidth T1);
               delay = compute_throttle F bytes per_conn_limit_kbps aggregate_rate_bps aggregate_limit_bps
                         server_rate_bps (server_bandwidth_limit_bps T1)
           in (T1\<lparr>server_bandwidth := bw\<rparr>, st1\<lparr>second_window := sw\<rparr>, QuotaOk delay)))"

definition record_bytes ::
  "chrono_ops \<Rightarrow> ('f, 'x) f64_ops_scheme \<Rightarrow> nat \<Rightarrow> string \<Rightarrow> u64 \<Rightarrow> u64 \<Rightarrow> u64 \<Rightarrow> quota_config option
     \<Rightarrow> quota_tracker \<Rightarrow> quota_tracker \<times> quota_result" where
  "record_bytes C F now username bytes per_conn_limit_kbps aggregate_limit_kbps quotas T =
     (let (T0, state) = get_user C now username T;
          st0 = lazy_reset C now state;
          st1 = st0\<lparr>last_activity := now\<rparr>;
          st2 = st1\<lparr>second_window := rw_record now now bytes (second_window st1)\<rparr>;
          st3 = st2\<lparr>hour_window := rw_record now now bytes (hour_window st2)\<rparr>;
          T1 = T0\<lparr>server_bandwidth := rw_record now now bytes (server_bandwidth T0)\<rparr>;
          st4 = st3\<lparr>daily_bytes := daily_bytes st3 + bytes\<rparr>;
          st5 = st4\<lparr>monthly_bytes := monthly_bytes st4 + bytes\<rparr>;
          st6 = st5\<lparr>total_bytes := total_bytes st5 + bytes\<rparr>;
          (st7, e) = (case quotas of None \<Rightarrow> (st6, None) | Some q \<Rightarrow> bandwidth_quota_check now q st6) in
      case e of
        Some m \<Rightarrow> (put_user username st7 T1, Exceeded m)
      | None \<Rightarrow>
          (let aggregate_limit_bps = aggregate_limit_kbps * 1000 div 8;
               (sw, aggregate_rate_bps) = rw_sum now (second_window st7);
               server_limit_bps = server_bandwidth_limit_bps T1;
               (bw, server_rate_bps) = rw_sum now (server_bandwidth T1);
               delay = compute_throttle F bytes per_conn_limit_kbps aggregate_rate_bps aggregate_limit_bps
                         server_rate_bps server_limit_bps
           in (put_user username (st7\<lparr>second_window := sw\<rparr>) (T1\<lparr>server_bandwidth := bw\<rparr>), QuotaOk delay)))"

record user_quota_usage =
  usage_daily_bytes :: u64
  usage_daily_connections :: u32
  usage_monthly_bytes :: u64
  usage_monthly_connections :: u32
  usage_current_rate_bps :: u64
  usage_hourly_bytes :: u64
  usage_total_bytes :: u64

definition get_user_usage ::
  "chrono_ops \<Rightarrow> nat \<Rightarrow> string \<Rightarrow> quota_tracker \<Rightarrow> quota_tracker \<times> user_quota_usage" where
  "get_user_usage C now username T =
     (let (T1, st0) = get_user C now username T; st = lazy_reset C now st0;
          (sw, rate) = rw_sum now (second_window st); (hw, hourly) = rw_sum now (hour_window st)
      in (put_user username (st\<lparr>second_window := sw, hour_window := hw\<rparr>) T1,
          \<lparr>usage_daily_bytes = daily_bytes st, usage_daily_connections = daily_connections st,
           usage_monthly_bytes = monthly_bytes st, usage_monthly_connections = monthly_connections st,
           usage_current_rate_bps = rate, usage_hourly_bytes = hourly, usage_total_bytes = total_bytes st\<rparr>))"

definition update_config :: "quota_limits \<Rightarrow> quota_tracker \<Rightarrow> quota_tracker" where
  "update_config limits T = T\<lparr>server_bandwidth_limit_bps := max_bandwidth_mbps limits * 1000000 div 8\<rparr>"

definition cleanup_stale :: "nat \<Rightarrow> nat \<Rightarrow> quota_tracker \<Rightarrow> quota_tracker" where
  "cleanup_stale now max_idle_secs T =
     T\<lparr>user_state := dm_retain (\<lambda>_ st. now - last_activity st < max_idle_secs) (user_state T)\<rparr>"

definition reset_user :: "string \<Rightarrow> quota_tracker \<Rightarrow> quota_tracker" where
  "reset_user username T =
     (case map_of (user_state T) username of
        None \<Rightarrow> T
      | Some st \<Rightarrow> put_user username
          (st\<lparr>daily_bytes := 0, daily_connections := 0, monthly_bytes := 0, monthly_connections := 0, total_bytes := 0\<rparr>) T)"

definition restore_user_usage ::
  "chrono_ops \<Rightarrow> nat \<Rightarrow> string \<Rightarrow> u64 \<Rightarrow> u32 \<Rightarrow> u64 \<Rightarrow> u32 \<Rightarrow> u64 \<Rightarrow> quota_tracker \<Rightarrow> quota_tracker" where
  "restore_user_usage C now username db dc mb mc tb T =
     (let (T1, st) = get_user C now username T
      in put_user username (st\<lparr>daily_bytes := db, daily_connections := dc, monthly_bytes := mb,
           monthly_connections := mc, total_bytes := tb\<rparr>) T1)"

definition tracked_users :: "quota_tracker \<Rightarrow> string list" where
  "tracked_users T = map fst (user_state T)"

subsection \<open>The tracker as a machine\<close>

datatype quota_op =
  OpCheckRate string rate_limits_config quota_limits
| OpConnect string "quota_config option"
| OpCheckBandwidth string "quota_config option"
| OpBytes string u64 u64 u64 "quota_config option"
| OpUsage string
| OpUpdate quota_limits
| OpCleanup nat
| OpReset string
| OpRestore string u64 u32 u64 u32 u64

fun quota_step :: "chrono_ops \<Rightarrow> ('f, 'x) f64_ops_scheme \<Rightarrow> nat \<times> quota_op \<Rightarrow> quota_tracker \<Rightarrow> quota_tracker" where
  "quota_step C F (now, OpCheckRate u rl sl) T = fst (check_connection_rate C now u rl sl T)"
| "quota_step C F (now, OpConnect u q) T = fst (record_connection C now u q T)"
| "quota_step C F (now, OpCheckBandwidth u q) T = fst (check_bandwidth_quota C now u q T)"
| "quota_step C F (now, OpBytes u b p a q) T = fst (record_bytes C F now u b p a q T)"
| "quota_step C F (now, OpUsage u) T = fst (get_user_usage C now u T)"
| "quota_step C F (now, OpUpdate l) T = update_config l T"
| "quota_step C F (now, OpCleanup s) T = cleanup_stale now s T"
| "quota_step C F (now, OpReset u) T = reset_user u T"
| "quota_step C F (now, OpRestore u db dc mb mc tb) T = restore_user_usage C now u db dc mb mc tb T"

text \<open>The invariant: distinct users, and every window's cached sum equals the sum of its buckets.\<close>

definition ubs_ok :: "user_bandwidth_state \<Rightarrow> bool" where
  "ubs_ok st \<longleftrightarrow> rw_ok (second_window st) \<and> rw_ok (hour_window st) \<and> rw_ok (conn_per_second st)
     \<and> rw_ok (conn_per_minute st) \<and> rw_ok (conn_per_hour st)"

definition tracker_ok :: "quota_tracker \<Rightarrow> bool" where
  "tracker_ok T \<longleftrightarrow> dm_ok (user_state T) \<and> (\<forall>u st. map_of (user_state T) u = Some st \<longrightarrow> ubs_ok st)
     \<and> pred_option rw_ok (server_conn_per_second T) \<and> pred_option rw_ok (server_conn_per_minute T)
     \<and> rw_ok (server_bandwidth T)"

named_theorems quota \<open>how the quota operations act on the parts of the state\<close>

lemma rw_ok_sum [simp]: "rw_ok w \<Longrightarrow> rw_ok (fst (rw_sum now w))"
  by (simp add: rw_sum_def Let_def advance_ok)

lemma rw_ok_win [simp]: "0 < n \<Longrightarrow> 0 < ws \<Longrightarrow> rw_ok (win ws n now)"
  using rw_new_ok [of ws n now "win ws n now"] by (simp add: win_def rw_new_def)

lemmas [simp] = rw_record_ok

definition user_view :: "chrono_ops \<Rightarrow> nat \<Rightarrow> string \<Rightarrow> quota_tracker \<Rightarrow> user_bandwidth_state" where
  "user_view C now u T = (case map_of (user_state T) u of Some st \<Rightarrow> st | None \<Rightarrow> ubs_new C now)"

lemma get_user_eq: "get_user C now u T = (T\<lparr>user_state := fst (dm_entry u (ubs_new C now) (user_state T))\<rparr>, user_view C now u T)"
  by (simp add: get_user_def user_view_def case_prod_beta snd_dm_entry Let_def)

lemma ubs_ok_new [simp]: "ubs_ok (ubs_new C now)"
  by (simp add: ubs_ok_def ubs_new_def)

lemma ubs_ok_view: "tracker_ok T \<Longrightarrow> ubs_ok (user_view C now u T)"
  by (simp add: user_view_def tracker_ok_def split: option.splits)

lemma lazy_reset_windows [simp]:
  "second_window (lazy_reset C now st) = second_window st" "hour_window (lazy_reset C now st) = hour_window st"
  "conn_per_second (lazy_reset C now st) = conn_per_second st"
  "conn_per_minute (lazy_reset C now st) = conn_per_minute st"
  "conn_per_hour (lazy_reset C now st) = conn_per_hour st" "total_bytes (lazy_reset C now st) = total_bytes st"
  by (simp_all add: lazy_reset_def Let_def)

lemma ubs_ok_lazy_reset [simp]: "ubs_ok (lazy_reset C now st) = ubs_ok st"
  by (simp add: ubs_ok_def)

lemma tracker_ok_put:
  "tracker_ok T \<Longrightarrow> ubs_ok st \<Longrightarrow> tracker_ok (put_user u st T)"
  by (simp add: tracker_ok_def put_user_def)

lemma tracker_ok_entry: "tracker_ok T \<Longrightarrow> tracker_ok (T\<lparr>user_state := fst (dm_entry u (ubs_new C now) (user_state T))\<rparr>)"
  by (auto simp: tracker_ok_def split: option.splits)

lemma ubs_ok_rate_check: "ubs_ok st \<Longrightarrow> ubs_ok (fst (user_rate_check now rl st))"
  by (simp add: user_rate_check_def ubs_ok_def Let_def)

lemma ubs_ok_bandwidth_check: "ubs_ok st \<Longrightarrow> ubs_ok (fst (bandwidth_quota_check now q st))"
  by (simp add: bandwidth_quota_check_def ubs_ok_def Let_def case_prod_beta)

lemma record_bytes_via_cached:
  "record_bytes C F now u b p a q T =
     (let (T0, st) = get_user C now u T; (T1, st', r) = record_bytes_cached C F now st b p a q T0
      in (put_user u st' T1, r))"
  by (simp add: record_bytes_def record_bytes_cached_def Let_def case_prod_beta split: option.splits)

lemma record_bytes_cached_ok:
  assumes "ubs_ok st" and "tracker_ok T"
  shows "tracker_ok (fst (record_bytes_cached C F now st b p a q T))
     \<and> ubs_ok (fst (snd (record_bytes_cached C F now st b p a q T)))"
proof -
  let ?st0 = "lazy_reset C now st"
  let ?st = "?st0\<lparr>last_activity := now, second_window := rw_record now now b (second_window ?st0),
       hour_window := rw_record now now b (hour_window ?st0), daily_bytes := daily_bytes ?st0 + b,
       monthly_bytes := monthly_bytes ?st0 + b, total_bytes := total_bytes ?st0 + b\<rparr>"
  let ?st1 = "fst (case q of None \<Rightarrow> (?st, None) | Some q \<Rightarrow> bandwidth_quota_check now q ?st)"
  have "ubs_ok ?st" using assms(1) by (simp add: ubs_ok_def)
  then have "ubs_ok ?st1" by (simp add: ubs_ok_bandwidth_check split: option.splits)
  moreover from this have "ubs_ok (?st1\<lparr>second_window := fst (rw_sum now (second_window ?st1))\<rparr>)"
    by (simp add: ubs_ok_def)
  ultimately show ?thesis
    using assms(2) unfolding record_bytes_cached_def Let_def case_prod_beta
    by (simp add: tracker_ok_def split: option.split)
qed

lemma limiter_full_ok: "pred_option rw_ok l \<Longrightarrow> pred_option rw_ok (fst (limiter_full now l n))"
  by (cases l) (simp_all add: limiter_full_def case_prod_beta)

lemma check_connection_rate_ok:
  assumes "tracker_ok T"
  shows "tracker_ok (fst (check_connection_rate C now u rl sl T))"
proof -
  let ?l1 = "fst (limiter_full now (server_conn_per_second T) (max_new_connections_per_second sl))"
  let ?l2 = "fst (limiter_full now (server_conn_per_minute T) (max_new_connections_per_minute sl))"
  have 1: "tracker_ok (T\<lparr>server_conn_per_second := ?l1\<rparr>)"
    and 2: "tracker_ok (T\<lparr>server_conn_per_second := ?l1, server_conn_per_minute := ?l2\<rparr>)" (is "tracker_ok ?T2")
    using assms by (simp_all add: tracker_ok_def limiter_full_ok)
  have "ubs_ok (user_view C now u ?T2\<lparr>last_activity := now\<rparr>)"
    using ubs_ok_view [OF 2, of C now u] by (simp add: ubs_ok_def)
  then have "tracker_ok (put_user u (fst (user_rate_check now rl (user_view C now u ?T2\<lparr>last_activity := now\<rparr>)))
      (?T2\<lparr>user_state := fst (dm_entry u (ubs_new C now) (user_state ?T2))\<rparr>))"
    by (intro tracker_ok_put tracker_ok_entry [OF 2] ubs_ok_rate_check)
  with 1 2 show ?thesis
    by (simp add: check_connection_rate_def Let_def case_prod_beta get_user_eq)
qed

lemma record_connection_ok:
  assumes "tracker_ok T"
  shows "tracker_ok (fst (record_connection C now u q T))"
proof -
  have ok: "ubs_ok (lazy_reset C now (user_view C now u T))" using assms by (simp add: ubs_ok_view)
  have "tracker_ok (T\<lparr>user_state := fst (dm_entry u (ubs_new C now) (user_state T)),
     server_conn_per_second := map_option (rw_record now now 1) (server_conn_per_second T),
     server_conn_per_minute := map_option (rw_record now now 1) (server_conn_per_minute T)\<rparr>)"
    using tracker_ok_entry [OF assms, of u C now]
    by (cases "server_conn_per_second T"; cases "server_conn_per_minute T") (simp_all add: tracker_ok_def)
  with ok show ?thesis
    using tracker_ok_entry [OF assms, of u C now]
    by (simp add: record_connection_def Let_def get_user_eq tracker_ok_put ubs_ok_def split: option.split)
qed

lemma quota_step_ok:
  assumes ok: "tracker_ok T"
  shows "tracker_ok (quota_step C F (now, a) T)"
proof (cases a)
  case (OpCheckBandwidth u q)
  with ok show ?thesis
    by (auto simp: check_bandwidth_quota_def Let_def case_prod_beta get_user_eq tracker_ok_put tracker_ok_entry
        ubs_ok_bandwidth_check ubs_ok_view split: option.splits)
next
  case (OpBytes u b p l q)
  with ok show ?thesis
    by (simp add: record_bytes_via_cached Let_def case_prod_beta get_user_eq tracker_ok_put
        record_bytes_cached_ok ubs_ok_view tracker_ok_entry)
next
  case (OpUsage u)
  have "ubs_ok (user_view C now u T)" using ok by (simp add: ubs_ok_view)
  with ok OpUsage show ?thesis
    by (simp add: get_user_usage_def Let_def case_prod_beta get_user_eq)
       (intro tracker_ok_put tracker_ok_entry, auto simp: ubs_ok_def)
next
  case (OpCleanup s)
  with ok show ?thesis
    by (auto simp: cleanup_stale_def tracker_ok_def map_of_dm_retain split: option.splits if_splits)
next
  case (OpReset u)
  have "ubs_ok st" if "map_of (user_state T) u = Some st" for st using ok that by (simp add: tracker_ok_def)
  with ok OpReset show ?thesis
    by (auto simp: reset_user_def ubs_ok_def split: option.splits intro!: tracker_ok_put)
next
  case (OpRestore u db dc mb mc tb)
  have "ubs_ok (user_view C now u T)" using ok by (simp add: ubs_ok_view)
  with ok OpRestore show ?thesis
    by (auto simp: restore_user_usage_def get_user_eq ubs_ok_def intro!: tracker_ok_put tracker_ok_entry)
next
  case (OpUpdate l)
  with ok show ?thesis by (simp add: update_config_def tracker_ok_def)
qed (use ok in \<open>simp_all add: check_connection_rate_ok record_connection_ok\<close>)

interpretation quota: machine "quota_step C F" tracker_ok for C F
  by unfold_locales (metis quota_step_ok surj_pair)

lemma tracker_ok_new [simp]: "tracker_ok (tracker_new limits now)"
  by (simp add: tracker_new_def tracker_ok_def)

subsection \<open>Counting the connections of a day\<close>

text \<open>The times at which connections of user \<open>u\<close> were accepted in a run.\<close>

fun accepted :: "chrono_ops \<Rightarrow> ('f, 'x) f64_ops_scheme \<Rightarrow> string \<Rightarrow> (nat \<times> quota_op) list \<Rightarrow> quota_tracker \<Rightarrow> nat list" where
  "accepted C F u [] T = []"
| "accepted C F u ((now, a) # ops) T =
     (case a of OpConnect v q \<Rightarrow> if v = u \<and> snd (record_connection C now v q T) = Inr () then [now] else [] | _ \<Rightarrow> [])
     @ accepted C F u ops (quota_step C F (now, a) T)"

definition dcount :: "nat \<Rightarrow> nat list \<Rightarrow> nat" where
  "dcount d ts = length (filter (\<lambda>t. t div 86400 = d) ts)"

text \<open>The counter of the current day agrees with the log; nothing was accepted on a later day.\<close>

definition day_inv :: "nat list \<Rightarrow> nat \<Rightarrow> nat \<Rightarrow> u32 \<Rightarrow> bool" where
  "day_inv ts clk dr dc \<longleftrightarrow> (\<exists>d. dr = (d + 1) * 86400 \<and> d * 86400 \<le> clk \<and> unat dc = dcount d ts
     \<and> (\<forall>t \<in> set ts. t div 86400 \<le> d))"

abbreviation ubs_day_inv :: "nat list \<Rightarrow> nat \<Rightarrow> user_bandwidth_state \<Rightarrow> bool" where
  "ubs_day_inv ts clk st \<equiv> day_inv ts clk (daily_reset st) (daily_connections st)"

lemma dcount_zero: "(\<And>t. t \<in> set ts \<Longrightarrow> t div 86400 < d) \<Longrightarrow> dcount d ts = 0"
  by (auto simp: dcount_def filter_empty_conv)

lemma day_inv_mono: "day_inv ts clk dr dc \<Longrightarrow> clk \<le> now \<Longrightarrow> day_inv ts now dr dc"
  by (auto simp: day_inv_def)

lemma day_inv_fresh: "day_inv ts clk (next_day_boundary now) dc \<Longrightarrow> unat dc = dcount (now div 86400) ts"
  by (auto simp: day_inv_def next_day_boundary_def)

lemma day_inv_reset:
  assumes "ubs_day_inv ts clk st" and "clk \<le> now"
  shows "ubs_day_inv ts now (lazy_reset C now st) \<and> daily_reset (lazy_reset C now st) = next_day_boundary now"
proof -
  obtain d where d: "daily_reset st = (d + 1) * 86400" "d * 86400 \<le> clk" "\<forall>t \<in> set ts. t div 86400 \<le> d"
    using assms(1) by (auto simp: day_inv_def)
  show ?thesis
  proof (cases "daily_reset st \<le> now")
    case True
    then have "d < now div 86400" using d(1) by simp
    with d(3) have "dcount (now div 86400) ts = 0" and "\<forall>t \<in> set ts. t div 86400 \<le> now div 86400"
      by (auto intro!: dcount_zero)
    then have "day_inv ts now (next_day_boundary now) 0"
      by (auto simp: day_inv_def next_day_boundary_def intro!: exI [of _ "now div 86400"])
    with True show ?thesis by (simp add: lazy_reset_def Let_def)
  next
    case False
    then have "now div 86400 = d" using d(1,2) assms(2) by (simp add: div_nat_eqI)
    then have "next_day_boundary now = daily_reset st" using d(1) by (simp add: next_day_boundary_def)
    with False assms show ?thesis by (auto simp: lazy_reset_def Let_def intro: day_inv_mono)
  qed
qed

lemma day_inv_connect:
  assumes "day_inv ts now (next_day_boundary now) dc" and "Suc (unat dc) < 2 ^ 32"
  shows "day_inv (ts @ [now]) now (next_day_boundary now) (dc + 1)"
proof -
  have "unat (dc + 1) = Suc (unat dc)" using assms(2) by (simp add: unat_word_ariths)
  with assms(1) show ?thesis by (auto simp: day_inv_def next_day_boundary_def dcount_def)
qed

text \<open>Only \<open>lazy_reset\<close> and \<open>record_connection\<close> touch the daily counter.\<close>

abbreviation day_part :: "user_bandwidth_state \<Rightarrow> nat \<times> u32" where
  "day_part st \<equiv> (daily_reset st, daily_connections st)"

lemma day_part_checks [simp]:
  "daily_reset (fst (user_rate_check now rl st)) = daily_reset st"
  "daily_connections (fst (user_rate_check now rl st)) = daily_connections st"
  "daily_reset (fst (bandwidth_quota_check now q st)) = daily_reset st"
  "daily_connections (fst (bandwidth_quota_check now q st)) = daily_connections st"
  by (simp_all add: user_rate_check_def bandwidth_quota_check_def Let_def case_prod_beta)

lemma day_part_cached [simp]:
  "daily_reset (fst (snd (record_bytes_cached C F now st b p l q T))) = daily_reset (lazy_reset C now st)"
  "daily_connections (fst (snd (record_bytes_cached C F now st b p l q T))) = daily_connections (lazy_reset C now st)"
  by (cases q; simp add: record_bytes_cached_def Let_def case_prod_beta split: option.split)+

lemma user_state_cached [simp]:
  "user_state (fst (record_bytes_cached C F now st b p l q T)) = user_state T"
  by (simp add: record_bytes_cached_def Let_def case_prod_beta split: option.split)

lemma map_of_put_user [simp]:
  "map_of (user_state (put_user v st T)) u = (if u = v then Some st else map_of (user_state T) u)"
  by (simp add: put_user_def)

definition user_day :: "nat list \<Rightarrow> nat \<Rightarrow> string \<Rightarrow> quota_tracker \<Rightarrow> bool" where
  "user_day ts clk u T \<longleftrightarrow> (case map_of (user_state T) u of None \<Rightarrow> ts = [] | Some st \<Rightarrow> ubs_day_inv ts clk st)"

lemma view_day: "user_day ts clk u T \<Longrightarrow> clk \<le> now \<Longrightarrow> ubs_day_inv ts now (user_view C now u T)"
proof (cases "map_of (user_state T) u")
  case None
  assume "user_day ts clk u T"
  with None have "ts = []" by (simp add: user_day_def)
  with None show ?thesis
    by (auto simp: user_view_def ubs_new_def day_inv_def next_day_boundary_def dcount_def intro!: exI [of _ "now div 86400"])
qed (auto simp: user_day_def user_view_def intro: day_inv_mono)

lemma user_day_mono: "user_day ts clk u T \<Longrightarrow> clk \<le> now \<Longrightarrow> user_day ts now u T"
  by (auto simp: user_day_def intro: day_inv_mono split: option.splits)

lemma user_day_put:
  "user_day ts clk u T \<Longrightarrow> clk \<le> now \<Longrightarrow> user_state T' = user_state T \<Longrightarrow>
   (u = v \<Longrightarrow> ubs_day_inv ts now (user_view C now u T) \<Longrightarrow> ubs_day_inv ts now st) \<Longrightarrow>
   user_day ts now u (put_user v st (T'\<lparr>user_state := fst (dm_entry v d (user_state T))\<rparr>))"
  using user_day_mono [of ts clk u T now] view_day [of ts clk u T now C]
  by (auto simp: user_day_def)

text \<open>The operations that do not erase counters on an administrator's behalf.\<close>

fun keeps_counters :: "quota_op \<Rightarrow> bool" where
  "keeps_counters (OpCleanup _) = False"
| "keeps_counters (OpReset _) = False"
| "keeps_counters (OpRestore _ _ _ _ _ _) = False"
| "keeps_counters _ = True"

text \<open>What an operation leaves in the entry of user \<open>u\<close>.\<close>

lemma map_of_get_put:
  "map_of (user_state (put_user v st (T\<lparr>user_state := fst (dm_entry v d (user_state T))\<rparr>))) u =
     (if u = v then Some st else map_of (user_state T) u)"
  by simp

lemma other_user [quota]:
  "u \<noteq> v \<Longrightarrow> map_of (user_state (fst (check_connection_rate C now v rl sl T))) u = map_of (user_state T) u"
  "u \<noteq> v \<Longrightarrow> map_of (user_state (fst (record_connection C now v q T))) u = map_of (user_state T) u"
  "u \<noteq> v \<Longrightarrow> map_of (user_state (fst (check_bandwidth_quota C now v q T))) u = map_of (user_state T) u"
  "u \<noteq> v \<Longrightarrow> map_of (user_state (fst (record_bytes C F now v b p l q T))) u = map_of (user_state T) u"
  "u \<noteq> v \<Longrightarrow> map_of (user_state (fst (get_user_usage C now v T))) u = map_of (user_state T) u"
  by (auto simp: check_connection_rate_def record_connection_def check_bandwidth_quota_def record_bytes_via_cached
      get_user_usage_def get_user_eq Let_def case_prod_beta split: option.split)

lemma same_user_rate:
  "(\<exists>st. map_of (user_state (fst (check_connection_rate C now u rl sl T))) u = Some st
       \<and> day_part st = day_part (user_view C now u T))
   \<or> map_of (user_state (fst (check_connection_rate C now u rl sl T))) u = map_of (user_state T) u"
  by (simp add: check_connection_rate_def get_user_eq Let_def case_prod_beta user_view_def)

lemma same_user_reset [quota]:
  "\<exists>st. map_of (user_state (fst (check_bandwidth_quota C now u (Some q) T))) u = Some st
       \<and> day_part st = day_part (lazy_reset C now (user_view C now u T))"
  "\<exists>st. map_of (user_state (fst (record_bytes C F now u b p l q' T))) u = Some st
       \<and> day_part st = day_part (lazy_reset C now (user_view C now u T))"
  "\<exists>st. map_of (user_state (fst (get_user_usage C now u T))) u = Some st
       \<and> day_part st = day_part (lazy_reset C now (user_view C now u T))"
  by (simp_all add: check_bandwidth_quota_def record_bytes_via_cached get_user_usage_def get_user_eq Let_def
      case_prod_beta)

lemma user_day_reset:
  assumes "user_day ts clk u T" "clk \<le> now"
    and "\<exists>st. map_of (user_state T') u = Some st \<and> day_part st = day_part (lazy_reset C now (user_view C now u T))"
  shows "user_day ts now u T'"
  using assms(3) day_inv_reset [OF view_day [OF assms(1,2)], of now C C] by (auto simp: user_day_def)

lemma user_day_same: "map_of (user_state T') u = map_of (user_state T) u \<Longrightarrow> user_day ts clk u T \<Longrightarrow> user_day ts clk u T'"
  by (simp add: user_day_def)

lemma check_bandwidth_quota_unlimited: "check_bandwidth_quota C now u None T = (T, Inr ())"
  by (simp add: check_bandwidth_quota_def)

lemma day_step:
  assumes inv: "user_day ts clk u T" and clk: "clk \<le> now" and "keeps_counters a" and "\<And>q. a \<noteq> OpConnect u q"
  shows "user_day ts now u (quota_step C F (now, a) T)"
proof -
  note mono = user_day_mono [OF inv clk] and reset = user_day_reset [OF inv clk]
  show ?thesis
  proof (cases a)
    case (OpCheckRate v rl sl)
    have "user_day ts now u T'" if "map_of (user_state T') u = Some st" "day_part st = day_part (user_view C now u T)" for T' st
      using view_day [OF inv clk, of C] that by (simp add: user_day_def)
    then show ?thesis
      using OpCheckRate same_user_rate [of C now u rl sl T] user_day_same [OF _ mono] other_user(1) [of u v]
      by (cases "v = u") fastforce+
  next
    case (OpConnect v q)
    then have "u \<noteq> v" using assms(4) by blast
    then show ?thesis using OpConnect user_day_same [OF other_user(2) mono] by simp
  next
    case (OpCheckBandwidth v q)
    then show ?thesis
      using mono reset [OF same_user_reset(1)] user_day_same [OF other_user(3) mono]
      by (cases "v = u"; cases q) (auto simp: check_bandwidth_quota_unlimited)
  next
    case (OpBytes v b p l q)
    then show ?thesis
      using reset [OF same_user_reset(2) [where F = F]] user_day_same [OF other_user(4) [where F = F] mono]
      by (cases "v = u") auto
  next
    case (OpUsage v)
    then show ?thesis
      using reset [OF same_user_reset(3)] user_day_same [OF other_user(5) mono] by (cases "v = u") auto
  next
    case (OpUpdate l)
    then show ?thesis using mono by (simp add: update_config_def user_day_def)
  qed (use assms(3) in simp_all)
qed

lemma day_connect:
  assumes inv: "user_day ts clk u T" and clk: "clk \<le> now" and L: "daily_connection_limit q = L" "0 < L"
  shows "if snd (record_connection C now u (Some q) T) = Inr ()
         then user_day (ts @ [now]) now u (fst (record_connection C now u (Some q) T)) \<and> dcount (now div 86400) ts < unat L
         else user_day ts now u (fst (record_connection C now u (Some q) T))"
proof -
  let ?st = "lazy_reset C now (user_view C now u T)"
  have d: "ubs_day_inv ts now ?st" "daily_reset ?st = next_day_boundary now"
    using day_inv_reset [OF view_day [OF inv clk], of now C C] by auto
  show ?thesis
  proof (cases "connection_quota_error (Some q) ?st")
    case None
    then have lt: "daily_connections ?st < L"
      using L by (auto simp: connection_quota_error_def split: if_splits)
    then have "Suc (unat (daily_connections ?st)) < 2 ^ 32"
      using unsigned_less [of L, where 'a = nat] by (simp add: word_less_nat_alt)
    then have "day_inv (ts @ [now]) now (next_day_boundary now) (daily_connections ?st + 1)"
      using day_inv_connect d by simp
    moreover have "dcount (now div 86400) ts < unat L"
      using lt d day_inv_fresh [of ts now now "daily_connections ?st"] by (simp add: word_less_nat_alt)
    ultimately show ?thesis
      using None d(2) by (simp add: record_connection_def Let_def get_user_eq user_day_def)
  next
    case (Some e)
    then show ?thesis using d by (simp add: record_connection_def Let_def get_user_eq user_day_def)
  qed
qed

lemma daily_count:
  assumes "user_day ts clk u T" and "sorted (clk # map fst ops)" and "0 < L" and "\<And>d. dcount d ts \<le> unat L"
    and "\<And>t a. (t, a) \<in> set ops \<Longrightarrow> keeps_counters a"
    and "\<And>t q. (t, OpConnect u q) \<in> set ops \<Longrightarrow> \<exists>q'. q = Some q' \<and> daily_connection_limit q' = L"
  shows "dcount d (ts @ accepted C F u ops T) \<le> unat L"
  using assms
proof (induction ops arbitrary: ts clk T)
  case (Cons e ops)
  obtain now a where e: "e = (now, a)" by fastforce
  have clk: "clk \<le> now" and srt: "sorted (now # map fst ops)" using Cons.prems(2) e by auto
  note rest = Cons.prems(5,6) [unfolded e, OF list.set_intros(2)]
  show ?case
  proof (cases "\<exists>q. a = OpConnect u q")
    case True
    then obtain q where a: "a = OpConnect u (Some q)" "daily_connection_limit q = L"
      using Cons.prems(6) e by fastforce
    note dc = day_connect [OF Cons.prems(1) clk a(2) Cons.prems(3), of C]
    show ?thesis
    proof (cases "snd (record_connection C now u (Some q) T) = Inr ()")
      case True
      with dc have "user_day (ts @ [now]) now u (fst (record_connection C now u (Some q) T))"
        "dcount (now div 86400) ts < unat L" by auto
      moreover from this(2) have "dcount d (ts @ [now]) \<le> unat L" for d
        using Cons.prems(4) [of d] by (auto simp: dcount_def)
      ultimately show ?thesis
        using Cons.IH [of "ts @ [now]" now] srt Cons.prems(3) rest True by (simp add: e a)
    next
      case False
      then show ?thesis using dc Cons.IH [of ts now] srt Cons.prems(3,4) rest by (simp add: e a)
    qed
  next
    case False
    then have "user_day ts now u (quota_step C F (now, a) T)"
      using Cons.prems(1,5) clk e by (intro day_step) auto
    moreover have "accepted C F u (e # ops) T = accepted C F u ops (quota_step C F (now, a) T)"
      using False by (auto simp: e split: quota_op.splits)
    ultimately show ?thesis using Cons.IH [of ts now] srt Cons.prems(3,4) rest by simp
  qed
qed simp

subsection \<open>The verdict on recorded bytes\<close>

definition bytes_recorded :: "chrono_ops \<Rightarrow> nat \<Rightarrow> u64 \<Rightarrow> user_bandwidth_state \<Rightarrow> user_bandwidth_state" where
  "bytes_recorded C now b st =
     (let st0 = lazy_reset C now st in
      st0\<lparr>last_activity := now, second_window := rw_record now now b (second_window st0),
           hour_window := rw_record now now b (hour_window st0), daily_bytes := daily_bytes st0 + b,
           monthly_bytes := monthly_bytes st0 + b, total_bytes := total_bytes st0 + b\<rparr>)"

lemma record_bytes_cached_via:
  "record_bytes_cached C F now st b p l (Some q) T =
     (let T1 = T\<lparr>server_bandwidth := rw_record now now b (server_bandwidth T)\<rparr>;
          (st1, e) = bandwidth_quota_check now q (bytes_recorded C now b st) in
      case e of
        Some m \<Rightarrow> (T1, st1, Exceeded m)
      | None \<Rightarrow>
          (T1\<lparr>server_bandwidth := fst (rw_sum now (server_bandwidth T1))\<rparr>,
           st1\<lparr>second_window := fst (rw_sum now (second_window st1))\<rparr>,
           QuotaOk (compute_throttle F b p (snd (rw_sum now (second_window st1))) (l * 1000 div 8)
             (snd (rw_sum now (server_bandwidth T1))) (server_bandwidth_limit_bps T))))"
  by (simp add: record_bytes_cached_def bytes_recorded_def Let_def case_prod_beta split: option.split)

lemma bandwidth_quota_check_verdict:
  "snd (bandwidth_quota_check now q st) = None \<longleftrightarrow>
     (total_bandwidth_bytes q = 0 \<or> total_bytes st < total_bandwidth_bytes q)
   \<and> (daily_bandwidth_bytes q = 0 \<or> daily_bytes st < daily_bandwidth_bytes q)
   \<and> (monthly_bandwidth_bytes q = 0 \<or> monthly_bytes st < monthly_bandwidth_bytes q)
   \<and> (bandwidth_per_hour_bytes q = 0 \<or> snd (rw_sum now (hour_window st)) < bandwidth_per_hour_bytes q)"
  by (auto simp: bandwidth_quota_check_def Let_def case_prod_beta word_gt_0 not_le)

lemma bandwidth_quota_check_counters [simp]:
  "total_bytes (fst (bandwidth_quota_check now q st)) = total_bytes st"
  "daily_bytes (fst (bandwidth_quota_check now q st)) = daily_bytes st"
  "monthly_bytes (fst (bandwidth_quota_check now q st)) = monthly_bytes st"
  by (simp_all add: bandwidth_quota_check_def Let_def case_prod_beta)

subsection \<open>Properties\<close>

text \<open>The daily connection quota is never exceeded. Take any run of tracker operations of any
  users, in which the clock never runs backwards, no administrator erases or restores counters, and
  each connection of user \<open>u\<close> is checked against the daily limit \<open>L > 0\<close>. Then on
  every UTC day at most \<open>L\<close> connections of \<open>u\<close> are accepted.\<close>

theorem daily_connection_quota:
  assumes "sorted (t0 # map fst ops)" and "0 < L"
    and "list_all (\<lambda>(t, a). keeps_counters a) ops"
    and "list_all (\<lambda>(t, a). case a of OpConnect v q \<Rightarrow> v = u \<longrightarrow> map_option daily_connection_limit q = Some L | _ \<Rightarrow> True) ops"
  shows "dcount d (accepted C F u ops (tracker_new limits t0)) \<le> unat L"
proof -
  have "user_day [] t0 u (tracker_new limits t0)" by (simp add: user_day_def tracker_new_def)
  from daily_count [OF this assms(1,2), of d C F] show ?thesis
    using assms(3,4) by (fastforce simp: dcount_def list_all_iff)
qed

definition sample_chrono :: chrono_ops where
  "sample_chrono = \<lparr>civil_month = (\<lambda>t. Some (1970, t div 2592000 + 1)), month_start = (\<lambda>y m. Some ((m - 1) * 2592000)),
     day_start = (\<lambda>t. t div 86400 * 86400)\<rparr>"

definition sample_f64 :: "int f64_ops" where
  "sample_f64 = \<lparr>f_of_u64 = uint, f_lit = (\<lambda>n d. int (n div d)), f_mul = (*), f_div = (div), f_sub = (-),
     f_gt = (>), f_min = min, f_from_secs = (\<lambda>x. from_secs (nat x)),
     f_add = (+), f_max = max, f_powf = (\<lambda>_ _. 1), f_to_u32 = of_int, f_of_duration = (\<lambda>d. int (d div from_secs 1)), f_neg = uminus, f_ge = (\<ge>)\<rparr>"

definition sample_quota :: quota_config where
  "sample_quota = \<lparr>daily_bandwidth_bytes = 1000, daily_connection_limit = 2, monthly_bandwidth_bytes = 0,
     monthly_connection_limit = 0, bandwidth_per_hour_bytes = 0, total_bandwidth_bytes = 0\<rparr>"

definition sample_limits :: quota_limits where
  "sample_limits = \<lparr>max_bandwidth_mbps = 0, max_new_connections_per_second = 0, max_new_connections_per_minute = 0\<rparr>"

definition sample_run :: "(nat \<times> quota_op) list" where
  "sample_run = [(100, OpConnect ''u'' (Some sample_quota)), (101, OpConnect ''u'' (Some sample_quota)),
     (102, OpConnect ''v'' None), (103, OpConnect ''u'' (Some sample_quota)), (90000, OpConnect ''u'' (Some sample_quota))]"

theorem daily_connection_quota_witness:
  "dcount 0 (accepted sample_chrono sample_f64 ''u'' sample_run (tracker_new sample_limits 50)) \<le> unat (2 :: u32)"
  by (rule daily_connection_quota) (simp_all add: sample_run_def sample_quota_def)

text \<open>\<open>record_bytes\<close> and \<open>record_bytes_cached\<close>, written out twice in the source, agree: the former
  is the latter on the user's entry, and the entry afterwards is the state the latter returns.\<close>

theorem record_bytes_cached_agrees:
  "record_bytes C F now u b p l q T =
     (case get_user C now u T of (T0, st) \<Rightarrow>
        (case record_bytes_cached C F now st b p l q T0 of (T1, st', r) \<Rightarrow> (put_user u st' T1, r)))"
  by (simp add: record_bytes_via_cached Let_def)

text \<open>Recording bytes is accounted in full and the verdict is exact: the lifetime counter grows by
  the bytes (modulo \<open>2^64\<close>), and the result is \<open>QuotaOk\<close> exactly if after the addition each
  configured limit (total, daily, monthly, hourly) is still above its counter.\<close>

theorem record_bytes_verdict:
  "case record_bytes_cached C F now st b p l (Some q) T of (T1, st', r) \<Rightarrow>
     total_bytes st' = total_bytes st + b
     \<and> ((\<exists>delay. r = QuotaOk delay) \<longleftrightarrow>
          (total_bandwidth_bytes q = 0 \<or> total_bytes st' < total_bandwidth_bytes q)
        \<and> (daily_bandwidth_bytes q = 0 \<or> daily_bytes st' < daily_bandwidth_bytes q)
        \<and> (monthly_bandwidth_bytes q = 0 \<or> monthly_bytes st' < monthly_bandwidth_bytes q)
        \<and> (bandwidth_per_hour_bytes q = 0
             \<or> snd (rw_sum now (rw_record now now b (hour_window st))) < bandwidth_per_hour_bytes q))"
proof -
  let ?st = "bytes_recorded C now b st"
  have st: "total_bytes ?st = total_bytes st + b" "hour_window ?st = rw_record now now b (hour_window st)"
    by (simp_all add: bytes_recorded_def Let_def)
  show ?thesis
    using bandwidth_quota_check_verdict [of now q ?st]
    by (cases "snd (bandwidth_quota_check now q ?st)")
      (simp_all add: record_bytes_cached_via Let_def case_prod_beta st)
qed

text \<open>The tracker is well formed in every reachable state: users are distinct, and the cached sum of
  every window, per user and server-wide, is the sum of its buckets, whatever operations ran.\<close>

theorem tracker_reachable_ok: "tracker_ok (fold (quota_step C F) ops (tracker_new limits t0))"
  by (rule quota.run_inv) simp

end
