(* ===== verification/User.thy ===== *)
theory User
  imports Acl Quota Socks_Protocol
begin

text \<open>
  Models \<open>src/auth/user.rs\<close> and \<open>src/auth/pubkey.rs\<close>: the runtime user with the
  inheritance from group and server resolved, expiry, source addresses and time windows, and the
  user store. The parsers of the \<open>chrono\<close> and \<open>russh\<close> crates are fields of
  \<open>user_ops\<close>; a point in time is a second count, its weekday and minute of the day are read
  off the calendar of \<open>user_ops\<close>.
\<close>

subsection \<open>Configuration\<close>

datatype user_role = RoleUser | RoleAdmin

record shell_permissions =
  show_connections :: bool
  show_bandwidth :: bool
  show_acl :: bool
  show_status :: bool
  show_history :: bool
  show_fingerprint :: bool
  test_command :: bool
  ping_command :: bool
  resolve_command :: bool
  bookmark_command :: bool
  alias_command :: bool
  show_quota :: bool

definition shell_permissions_default :: shell_permissions where
  "shell_permissions_default =
     \<lparr>show_connections = True, show_bandwidth = True, show_acl = True, show_status = True, show_history = True,
      show_fingerprint = True, test_command = True, ping_command = True, resolve_command = True,
      bookmark_command = True, alias_command = True, show_quota = True\<rparr>"

record motd_config =
  motd_enabled :: bool
  motd_template :: "string option"
  motd_colors :: bool

record time_access_config =
  access_hours :: "string option"
  access_days :: "string list"
  timezone :: string

record group_config =
  g_name :: string
  g_acl :: user_acl_config
  g_max_connections_per_user :: "u32 option"
  g_max_bandwidth_kbps :: "u64 option"
  g_max_aggregate_bandwidth_kbps :: "u64 option"
  g_max_new_connections_per_minute :: "u32 option"
  g_allow_forwarding :: "bool option"
  g_allow_shell :: "bool option"
  g_shell_permissions :: "shell_permissions option"
  g_motd :: "motd_config option"
  g_quotas :: "quota_config option"
  g_time_access :: "time_access_config option"
  g_auth_methods :: "string list option"
  g_idle_warning_secs :: "nat option"
  g_role :: "user_role option"
  g_colors :: "bool option"
  g_connect_retry :: "u32 option"
  g_connect_retry_delay_ms :: "u64 option"
  g_rate_limits :: "rate_limits_config option"

record 'net user_config =
  c_username :: string
  c_password_hash :: "string option"
  c_authorized_keys :: "string list"
  c_allow_forwarding :: bool
  c_allow_shell :: bool
  c_max_new_connections_per_minute :: u32
  c_max_bandwidth_kbps :: u64
  c_source_ips :: "'net list"
  c_expires_at :: "string option"
  c_upstream_proxy :: "string option"
  c_acl :: user_acl_config
  c_totp_secret :: "string option"
  c_totp_enabled :: bool
  c_max_aggregate_bandwidth_kbps :: u64
  c_group :: "string option"
  c_role :: user_role
  c_shell_permissions :: "shell_permissions option"
  c_motd :: "motd_config option"
  c_quotas :: "quota_config option"
  c_time_access :: "time_access_config option"
  c_auth_methods :: "string list option"
  c_idle_warning_secs :: "nat option"
  c_colors :: "bool option"
  c_connect_retry :: "u32 option"
  c_connect_retry_delay_ms :: "u64 option"
  c_aliases :: "(string \<times> string) list"
  c_max_connections :: "u32 option"
  c_rate_limits :: "rate_limits_config option"

text \<open>The fields of \<open>LimitsConfig\<close>, \<open>ServerConfig\<close> and \<open>ShellConfig\<close> that users inherit.\<close>

record server_defaults =
  d_idle_warning_secs :: nat
  d_max_connections_per_user :: u32
  d_connect_retry :: u32
  d_connect_retry_delay_ms :: u64
  d_colors :: bool

subsection \<open>External operations\<close>

record 'pk user_ops =
  parse_datetime :: "string \<Rightarrow> int option"
  parse_key_base64 :: "string \<Rightarrow> 'pk option"
  weekday_of :: "int \<Rightarrow> nat"
  minute_of_day :: "int \<Rightarrow> nat"

subsection \<open>Users\<close>

record ('net, 'pk) user =
  u_username :: string
  u_password_hash :: "string option"
  u_authorized_keys :: "string list"
  u_parsed_authorized_keys :: "'pk list"
  u_allow_forwarding :: bool
  u_allow_shell :: bool
  u_max_new_connections_per_minute :: u32
  u_max_bandwidth_kbps :: u64
  u_source_ips :: "'net list"
  u_expires_at :: "int option"
  u_upstream_proxy :: "string option"
  u_acl :: "'net parsed_acl"
  u_totp_enabled :: bool
  u_totp_secret :: "string option"
  u_max_aggregate_bandwidth_kbps :: u64
  u_group :: "string option"
  u_role :: user_role
  u_shell_permissions :: shell_permissions
  u_motd_config :: "motd_config option"
  u_quotas :: "quota_config option"
  u_time_access :: "time_access_config option"
  u_auth_methods :: "string list option"
  u_idle_warning_secs :: nat
  u_colors :: bool
  u_connect_retry :: u32
  u_connect_retry_delay_ms :: u64
  u_aliases :: "(string \<times> string) list"
  u_max_connections :: u32
  u_rate_limits :: rate_limits_config

datatype user_error = AclError acl_error | InvalidExpiresAt string

definition parse_authorized_key :: "('pk, 'x) user_ops_scheme \<Rightarrow> string \<Rightarrow> 'pk option" where
  "parse_authorized_key U line =
     (case split_whitespace line of _ # k # _ \<Rightarrow> parse_key_base64 U k | _ \<Rightarrow> None)"

definition parse_authorized_keys :: "('pk, 'x) user_ops_scheme \<Rightarrow> string list \<Rightarrow> 'pk list" where
  "parse_authorized_keys U key_lines = List.map_filter (parse_authorized_key U) key_lines"

definition key_matches_parsed :: "'pk \<Rightarrow> 'pk list \<Rightarrow> bool" where
  "key_matches_parsed presented authorized_keys = list_ex (\<lambda>k. presented = k) authorized_keys"

fun key_matches :: "('pk, 'x) user_ops_scheme \<Rightarrow> 'pk \<Rightarrow> string list \<Rightarrow> bool" where
  "key_matches U presented [] = False"
| "key_matches U presented (line # lines) =
     (case parse_authorized_key U line of
        Some authorized \<Rightarrow> if presented = authorized then True else key_matches U presented lines
      | None \<Rightarrow> key_matches U presented lines)"

definition resolve_shell_permissions :: "shell_permissions option \<Rightarrow> shell_permissions option \<Rightarrow> shell_permissions" where
  "resolve_shell_permissions user grp =
     (let after_group = (case grp of Some g \<Rightarrow> g | None \<Rightarrow> shell_permissions_default) in
      case user of Some u \<Rightarrow> u | None \<Rightarrow> after_group)"

definition resolve_rate_limits ::
  "rate_limits_config option \<Rightarrow> rate_limits_config option \<Rightarrow> u32 \<Rightarrow> rate_limits_config" where
  "resolve_rate_limits user grp legacy_per_minute =
     (let base = (case user of Some u \<Rightarrow> u
                  | None \<Rightarrow> (case grp of Some g \<Rightarrow> g
                             | None \<Rightarrow> \<lparr>connections_per_second = 0, connections_per_minute = 0, connections_per_hour = 0\<rparr>));
          merged = (if connections_per_minute base = 0 then legacy_per_minute
                    else if legacy_per_minute = 0 then connections_per_minute base
                    else min (connections_per_minute base) legacy_per_minute)
      in \<lparr>connections_per_second = connections_per_second base, connections_per_minute = merged,
          connections_per_hour = connections_per_hour base\<rparr>)"

text \<open>\<open>a.or_else(|| b).unwrap_or(d)\<close>, and \<open>a\<close> if it is positive, else \<open>b.unwrap_or(a)\<close>.\<close>

definition or_else :: "'a option \<Rightarrow> 'a option \<Rightarrow> 'a option" where
  "or_else a b = (case a of Some x \<Rightarrow> Some x | None \<Rightarrow> b)"

definition unwrap_or :: "'a option \<Rightarrow> 'a \<Rightarrow> 'a" where
  "unwrap_or a d = (case a of Some x \<Rightarrow> x | None \<Rightarrow> d)"

definition user_from_config ::
  "('net, 'x) ipnet_ops_scheme \<Rightarrow> ('pk, 'y) user_ops_scheme \<Rightarrow> 'net user_config \<Rightarrow> group_config list
     \<Rightarrow> global_acl_config \<Rightarrow> server_defaults \<Rightarrow> user_error + ('net, 'pk) user" where
  "user_from_config N U cfg groups global_acl D =
     (let group_cfg = Option.bind (c_group cfg) (\<lambda>name. find (\<lambda>g. g_name g = name) groups) in
      case from_config_merged_with_group N global_acl (map_option g_acl group_cfg) (c_acl cfg) of
        Inl e \<Rightarrow> Inl (AclError e)
      | Inr acl \<Rightarrow>
        (case (case c_expires_at cfg of
                 None \<Rightarrow> Some None
               | Some s \<Rightarrow> (case parse_datetime U s of None \<Rightarrow> None | Some t \<Rightarrow> Some (Some t))) of
           None \<Rightarrow> Inl (InvalidExpiresAt (c_username cfg))
         | Some expires_at \<Rightarrow>
             (let fwd = (case Option.bind group_cfg g_allow_forwarding of
                           None \<Rightarrow> c_allow_forwarding cfg | Some group_val \<Rightarrow> c_allow_forwarding cfg \<and> group_val);
                  shl = (case Option.bind group_cfg g_allow_shell of
                           None \<Rightarrow> c_allow_shell cfg | Some group_val \<Rightarrow> c_allow_shell cfg \<and> group_val);
                  per_minute = (if c_max_new_connections_per_minute cfg > 0 then c_max_new_connections_per_minute cfg
                                else unwrap_or (Option.bind group_cfg g_max_new_connections_per_minute)
                                       (c_max_new_connections_per_minute cfg));
                  bandwidth = (if c_max_bandwidth_kbps cfg > 0 then c_max_bandwidth_kbps cfg
                               else unwrap_or (Option.bind group_cfg g_max_bandwidth_kbps) (c_max_bandwidth_kbps cfg));
                  aggregate = (if c_max_aggregate_bandwidth_kbps cfg > 0 then c_max_aggregate_bandwidth_kbps cfg
                               else unwrap_or (Option.bind group_cfg g_max_aggregate_bandwidth_kbps)
                                      (c_max_aggregate_bandwidth_kbps cfg));
                  role = (if c_role cfg \<noteq> RoleUser then c_role cfg
                          else unwrap_or (Option.bind group_cfg g_role) (c_role cfg))
              in Inr
                \<lparr>u_username = c_username cfg,
                 u_password_hash = c_password_hash cfg,
                 u_authorized_keys = c_authorized_keys cfg,
                 u_parsed_authorized_keys = parse_authorized_keys U (c_authorized_keys cfg),
                 u_allow_forwarding = fwd,
                 u_allow_shell = shl,
                 u_max_new_connections_per_minute = per_minute,
                 u_max_bandwidth_kbps = bandwidth,
                 u_source_ips = c_source_ips cfg,
                 u_expires_at = expires_at,
                 u_upstream_proxy = c_upstream_proxy cfg,
                 u_acl = acl,
                 u_totp_enabled = c_totp_enabled cfg,
                 u_totp_secret = c_totp_secret cfg,
                 u_max_aggregate_bandwidth_kbps = aggregate,
                 u_group = c_group cfg,
                 u_role = role,
                 u_shell_permissions = resolve_shell_permissions (c_shell_permissions cfg)
                   (Option.bind group_cfg g_shell_permissions),
                 u_motd_config = or_else (c_motd cfg) (Option.bind group_cfg g_motd),
                 u_quotas = or_else (c_quotas cfg) (Option.bind group_cfg g_quotas),
                 u_time_access = or_else (c_time_access cfg) (Option.bind group_cfg g_time_access),
                 u_auth_methods = or_else (c_auth_methods cfg) (Option.bind group_cfg g_auth_methods),
                 u_idle_warning_secs = unwrap_or (or_else (c_idle_warning_secs cfg)
                   (Option.bind group_cfg g_idle_warning_secs)) (d_idle_warning_secs D),
                 u_colors = unwrap_or (or_else (c_colors cfg) (Option.bind group_cfg g_colors)) (d_colors D),
                 u_connect_retry = unwrap_or (or_else (c_connect_retry cfg) (Option.bind group_cfg g_connect_retry))
                   (d_connect_retry D),
                 u_connect_retry_delay_ms = unwrap_or (or_else (c_connect_retry_delay_ms cfg)
                   (Option.bind group_cfg g_connect_retry_delay_ms)) (d_connect_retry_delay_ms D),
                 u_aliases = c_aliases cfg,
                 u_max_connections = unwrap_or (or_else (c_max_connections cfg)
                   (Option.bind group_cfg g_max_connections_per_user)) (d_max_connections_per_user D),
                 u_rate_limits = resolve_rate_limits (c_rate_limits cfg) (Option.bind group_cfg g_rate_limits) per_minute\<rparr>)))"

subsection \<open>Checks\<close>

definition is_expired :: "int \<Rightarrow> ('net, 'pk) user \<Rightarrow> bool" where
  "is_expired now u = (case u_expires_at u of Some exp \<Rightarrow> now > exp | None \<Rightarrow> False)"

definition is_source_ip_allowed :: "('net, 'x) ipnet_ops_scheme \<Rightarrow> ipaddr \<Rightarrow> ('net, 'pk) user \<Rightarrow> bool" where
  "is_source_ip_allowed N ip u =
     (if u_source_ips u = [] then True
      else list_ex (\<lambda>net. net_contains N net (normalize_ip ip)) (u_source_ips u))"

text \<open>\<open>u32::from_str\<close>.\<close>

definition parse_u32 :: "string \<Rightarrow> nat option" where
  "parse_u32 s = parse_uint (2 ^ 32) s"

definition parse_hhmm :: "string \<Rightarrow> nat option" where
  "parse_hhmm s =
     (case split_on CHR '':'' (trim_str s) of
        [hs, ms] \<Rightarrow>
          (case parse_u32 hs of
             None \<Rightarrow> None
           | Some h \<Rightarrow>
             (case parse_u32 ms of
                None \<Rightarrow> None
              | Some m \<Rightarrow> if h > 23 \<or> m > 59 then None else Some (h * 60 + m)))
      | _ \<Rightarrow> None)"

definition parse_hour_range :: "string \<Rightarrow> (nat \<times> nat) option" where
  "parse_hour_range s =
     (case split_on CHR ''-'' s of
        [a, b] \<Rightarrow>
          (case parse_hhmm a of
             None \<Rightarrow> None
           | Some start \<Rightarrow> (case parse_hhmm b of None \<Rightarrow> None | Some stop \<Rightarrow> Some (start, stop)))
      | _ \<Rightarrow> None)"

definition day_name :: "nat \<Rightarrow> string" where
  "day_name d = (if d = 0 then ''mon'' else if d = 1 then ''tue'' else if d = 2 then ''wed''
     else if d = 3 then ''thu'' else if d = 4 then ''fri'' else if d = 5 then ''sat'' else ''sun'')"

definition check_time_access :: "('pk, 'x) user_ops_scheme \<Rightarrow> int \<Rightarrow> ('net, 'pk) user \<Rightarrow> bool" where
  "check_time_access U now u =
     (case u_time_access u of
        None \<Rightarrow> True
      | Some ta \<Rightarrow>
          if access_days ta \<noteq> [] \<and> \<not> list_ex (\<lambda>d. eq_ignore_ascii_case d (day_name (weekday_of U now))) (access_days ta)
          then False
          else (case access_hours ta of
                  None \<Rightarrow> True
                | Some hours \<Rightarrow>
                    (case parse_hour_range hours of
                       None \<Rightarrow> True
                     | Some (start, stop) \<Rightarrow>
                         \<not> (minute_of_day U now < start \<or> minute_of_day U now \<ge> stop))))"

subsection \<open>User store\<close>

type_synonym ('net, 'pk) user_store = "(string, ('net, 'pk) user) dmap"

fun user_store_from_config ::
  "('net, 'x) ipnet_ops_scheme \<Rightarrow> ('pk, 'y) user_ops_scheme \<Rightarrow> 'net user_config list \<Rightarrow> group_config list
     \<Rightarrow> global_acl_config \<Rightarrow> server_defaults \<Rightarrow> ('net, 'pk) user_store \<Rightarrow> user_error + ('net, 'pk) user_store" where
  "user_store_from_config N U [] groups global_acl D users = Inr users"
| "user_store_from_config N U (cfg # cfgs) groups global_acl D users =
     (case user_from_config N U cfg groups global_acl D of
        Inl e \<Rightarrow> Inl e
      | Inr u \<Rightarrow> user_store_from_config N U cfgs groups global_acl D (dm_insert (u_username u) u users))"

definition usernames :: "('net, 'pk) user_store \<Rightarrow> string list" where
  "usernames S = map fst S"

definition users_in_group :: "string \<Rightarrow> ('net, 'pk) user_store \<Rightarrow> ('net, 'pk) user list" where
  "users_in_group grp S = filter (\<lambda>u. u_group u = Some grp) (map snd S)"

subsection \<open>Lemmas\<close>

lemma user_from_config_fields:
  assumes "user_from_config N U cfg groups ga D = Inr u"
    and "group_cfg = Option.bind (c_group cfg) (\<lambda>name. find (\<lambda>g. g_name g = name) groups)"
  shows "from_config_merged_with_group N ga (map_option g_acl group_cfg) (c_acl cfg) = Inr (u_acl u)"
    and "u_username u = c_username cfg"
    and "u_allow_forwarding u = (c_allow_forwarding cfg \<and> Option.bind group_cfg g_allow_forwarding \<noteq> Some False)"
    and "u_allow_shell u = (c_allow_shell cfg \<and> Option.bind group_cfg g_allow_shell \<noteq> Some False)"
  using assms by (auto simp: user_from_config_def Let_def split: sum.splits option.splits)

lemma user_from_config_Inr:
  assumes "from_config_merged_with_group N ga
      (map_option g_acl (Option.bind (c_group cfg) (\<lambda>name. find (\<lambda>g. g_name g = name) groups))) (c_acl cfg) = Inr acl"
    and "c_expires_at cfg = None"
  shows "\<exists>u. user_from_config N U cfg groups ga D = Inr u"
  unfolding user_from_config_def Let_def assms option.case sum.case by (rule exI, rule HOL.refl)

lemma map_of_store:
  "user_store_from_config N U cfgs groups ga D users = Inr S \<Longrightarrow> map_of S name = Some u \<Longrightarrow>
   map_of users name = Some u \<or>
   (\<exists>cfg \<in> set cfgs. c_username cfg = name \<and> user_from_config N U cfg groups ga D = Inr u)"
proof (induction cfgs arbitrary: users)
  case (Cons cfg cfgs)
  then obtain v where v: "user_from_config N U cfg groups ga D = Inr v"
    and rest: "user_store_from_config N U cfgs groups ga D (dm_insert (u_username v) v users) = Inr S"
    by (auto split: sum.splits)
  from Cons.IH [OF rest Cons.prems(2)] v user_from_config_fields(2) [OF v refl] show ?case
    by (auto split: if_splits)
qed simp

lemma map_filter_Cons: "List.map_filter f (x # xs) = (case f x of None \<Rightarrow> [] | Some y \<Rightarrow> [y]) @ List.map_filter f xs"
  by (simp add: map_filter_def split: option.split)

lemma resolve_rate_limits_cases:
  "connections_per_minute (resolve_rate_limits a b l) =
     (let m = connections_per_minute (case a of Some u \<Rightarrow> u | None \<Rightarrow> (case b of Some g \<Rightarrow> g
                | None \<Rightarrow> \<lparr>connections_per_second = 0, connections_per_minute = 0, connections_per_hour = 0\<rparr>))
      in if m = 0 then l else if l = 0 then m else min m l)"
  by (simp add: resolve_rate_limits_def Let_def)

subsection \<open>Samples\<close>

text \<open>A user, a configuration of one user in a group that forbids forwarding, and library operations.\<close>

definition sample_user_ops :: "unit user_ops" where
  "sample_user_ops = \<lparr>parse_datetime = (\<lambda>_. None), parse_key_base64 = (\<lambda>_. None), weekday_of = (\<lambda>_. 0), minute_of_day = (\<lambda>_. 0)\<rparr>"

definition sample_user :: "(ipaddr, unit) user" where
  "sample_user =
     \<lparr>u_username = ''al'', u_password_hash = Some ''pw'', u_authorized_keys = [], u_parsed_authorized_keys = [],
      u_allow_forwarding = True, u_allow_shell = False, u_max_new_connections_per_minute = 0, u_max_bandwidth_kbps = 0,
      u_source_ips = [], u_expires_at = None, u_upstream_proxy = None, u_acl = sample_acl, u_totp_enabled = True,
      u_totp_secret = Some ''S'', u_max_aggregate_bandwidth_kbps = 0, u_group = None, u_role = RoleUser,
      u_shell_permissions = shell_permissions_default, u_motd_config = None, u_quotas = None, u_time_access = None,
      u_auth_methods = None, u_idle_warning_secs = 0, u_colors = False, u_connect_retry = 0, u_connect_retry_delay_ms = 0,
      u_aliases = [], u_max_connections = 1,
      u_rate_limits = \<lparr>connections_per_second = 0, connections_per_minute = 0, connections_per_hour = 0\<rparr>\<rparr>"

definition no_rules :: user_acl_config where
  "no_rules = \<lparr>user_default_policy = None, user_allow = [], user_deny = [], user_inherit = True\<rparr>"

definition sample_group :: group_config where
  "sample_group = \<lparr>g_name = ''g'', g_acl = no_rules, g_max_connections_per_user = None, g_max_bandwidth_kbps = None,
     g_max_aggregate_bandwidth_kbps = None, g_max_new_connections_per_minute = None, g_allow_forwarding = Some False,
     g_allow_shell = None, g_shell_permissions = None, g_motd = None, g_quotas = None, g_time_access = None,
     g_auth_methods = None, g_idle_warning_secs = None, g_role = None, g_colors = None, g_connect_retry = None,
     g_connect_retry_delay_ms = None, g_rate_limits = None\<rparr>"

definition sample_user_config :: "ipaddr user_config" where
  "sample_user_config = \<lparr>c_username = ''al'', c_password_hash = None, c_authorized_keys = [], c_allow_forwarding = True,
     c_allow_shell = True, c_max_new_connections_per_minute = 0, c_max_bandwidth_kbps = 0, c_source_ips = [],
     c_expires_at = None, c_upstream_proxy = None, c_acl = no_rules, c_totp_secret = None, c_totp_enabled = False,
     c_max_aggregate_bandwidth_kbps = 0, c_group = Some ''g'', c_role = RoleUser, c_shell_permissions = None,
     c_motd = None, c_quotas = None, c_time_access = None, c_auth_methods = None, c_idle_warning_secs = None,
     c_colors = None, c_connect_retry = None, c_connect_retry_delay_ms = None, c_aliases = [], c_max_connections = None,
     c_rate_limits = None\<rparr>"

definition sample_defaults :: server_defaults where
  "sample_defaults = \<lparr>d_idle_warning_secs = 0, d_max_connections_per_user = 5, d_connect_retry = 0,
     d_connect_retry_delay_ms = 0, d_colors = False\<rparr>"

definition sample_global_acl :: global_acl_config where
  "sample_global_acl = \<lparr>global_default_policy = AllowConfig, global_allow = [], global_deny = []\<rparr>"

subsection \<open>Properties\<close>

text \<open>Restrictions of the group and of the server bind every user loaded from the configuration.
  For a user of the store whose configuration inherits and names an existing group: a target
  matched by a deny rule of the server or of the group is denied, and a group that forbids
  forwarding or the shell forbids it for the user, whatever the user's own settings say.\<close>

theorem store_user_restricted:
  assumes "user_store_from_config N U cfgs groups ga D [] = Inr S" and "map_of S name = Some u"
    and "list_all (\<lambda>c. user_inherit (c_acl c) \<and> c_group c = Some gname) cfgs"
    and "find (\<lambda>g. g_name g = gname) groups = Some g"
  shows "(\<forall>r \<in> set (global_deny ga) \<union> set (user_deny (g_acl g)).
            \<forall>rule. acl_rule_parse N r = Inr rule \<longrightarrow> rule_matches N rule host port ip \<longrightarrow>
              check N (u_acl u) host port ip = Deny)
       \<and> (g_allow_forwarding g = Some False \<longrightarrow> \<not> u_allow_forwarding u)
       \<and> (g_allow_shell g = Some False \<longrightarrow> \<not> u_allow_shell u)"
proof -
  obtain cfg where cfg: "cfg \<in> set cfgs" and u: "user_from_config N U cfg groups ga D = Inr u"
    using map_of_store [OF assms(1,2)] by auto
  then have c: "user_inherit (c_acl cfg)" "Option.bind (c_group cfg) (\<lambda>name. find (\<lambda>g. g_name g = name) groups) = Some g"
    using assms(3,4) by (auto simp: list_all_iff)
  note f = user_from_config_fields [OF u c(2) [symmetric]]
  have "\<exists>rule' \<in> set (deny_rules (u_acl u)). acl_rule_parse N r = Inr rule'"
    if "r \<in> set (global_deny ga) \<union> set (user_deny (g_acl g))" for r
    using that f(1) c(1) by (intro merged_deny_in) auto
  then show ?thesis using f(3,4) by (fastforce simp: check_eq)
qed

theorem store_user_restricted_witness:
  "\<exists>S u. user_store_from_config sample_net sample_user_ops [sample_user_config] [sample_group] sample_global_acl sample_defaults [] = Inr S
     \<and> map_of S ''al'' = Some u \<and> \<not> u_allow_forwarding u"
proof -
  have c: "c_group sample_user_config = Some ''g''" "c_acl sample_user_config = no_rules" "c_expires_at sample_user_config = None"
      "c_username sample_user_config = ''al''" and g: "g_name sample_group = ''g''" "g_acl sample_group = no_rules"
    by (simp_all add: sample_user_config_def sample_group_def)
  have "from_config_merged_with_group sample_net sample_global_acl (Some no_rules) no_rules
      = Inr \<lparr>default_policy = Allow, allow_rules = [], deny_rules = []\<rparr>"
    by (simp add: from_config_merged_with_group_def merge_rules_def no_rules_def sample_global_acl_def)
  then have acl: "from_config_merged_with_group sample_net sample_global_acl
      (map_option g_acl (Option.bind (c_group sample_user_config) (\<lambda>name. find (\<lambda>g. g_name g = name) [sample_group])))
      (c_acl sample_user_config) = Inr \<lparr>default_policy = Allow, allow_rules = [], deny_rules = []\<rparr>"
    by (simp add: c g)
  obtain v where v: "user_from_config sample_net sample_user_ops sample_user_config [sample_group] sample_global_acl sample_defaults = Inr v"
    using user_from_config_Inr [OF acl c(3)] by blast
  have "u_username v = ''al''" using user_from_config_fields(2) [OF v HOL.refl] c by simp
  then have S: "user_store_from_config sample_net sample_user_ops [sample_user_config] [sample_group] sample_global_acl
      sample_defaults [] = Inr [(''al'', v)]" "map_of [(''al'', v)] ''al'' = Some v"
    by (simp_all add: v dm_insert_def)
  have "list_all (\<lambda>c. user_inherit (c_acl c) \<and> c_group c = Some ''g'') [sample_user_config]"
    "find (\<lambda>g. g_name g = ''g'') [sample_group] = Some sample_group"
    by (simp_all add: sample_user_config_def sample_group_def no_rules_def)
  from store_user_restricted [OF S this] have "\<not> u_allow_forwarding v" by (simp add: sample_group_def)
  with S show ?thesis by blast
qed

text \<open>The effective per-minute connection limit is the strictest one configured: it is zero
  (unlimited) only if both the window limit and the legacy limit are, and otherwise never above a
  positive one of them.\<close>

theorem strictest_rate_limit:
  "let m = connections_per_minute base; eff = connections_per_minute (resolve_rate_limits (Some base) grp legacy) in
     (eff = 0 \<longleftrightarrow> m = 0 \<and> legacy = 0) \<and> (m = 0 \<or> eff \<le> m) \<and> (legacy = 0 \<or> eff \<le> legacy) \<and> (eff = m \<or> eff = legacy)"
proof -
  define m where "m = connections_per_minute base"
  have z: "min m legacy = 0 \<longleftrightarrow> m = 0 \<or> legacy = 0"
    by (auto simp: min_def word_le_nat_alt unat_eq_zero)
  have "connections_per_minute (resolve_rate_limits (Some base) grp legacy) = (if m = 0 then legacy else if legacy = 0 then m else min m legacy)"
    by (simp add: resolve_rate_limits_cases m_def Let_def)
  with z show ?thesis unfolding Let_def m_def [symmetric] by (auto simp: min_def)
qed

text \<open>Matching a presented key against the pre-parsed keys is the same as matching it against the
  configured lines; a line that does not parse never matches.\<close>

theorem key_matches_agree:
  "key_matches_parsed presented (parse_authorized_keys U key_lines) = key_matches U presented key_lines"
  by (induction key_lines)
     (auto simp: key_matches_parsed_def parse_authorized_keys_def map_filter_Cons map_filter_def split: option.split)

text \<open>A time window that runs past midnight admits no one at any time: with a start at or after the
  end, the minute test rejects every minute of the day.\<close>

theorem overnight_window_never_open:
  assumes "u_time_access u = Some ta" and "access_hours ta = Some hours"
    and "parse_hour_range hours = Some (start, stop)" and "stop \<le> start"
  shows "\<not> check_time_access U now u"
  using assms by (auto simp: check_time_access_def)

end
