(* ===== verification/Forwarder.thy ===== *)
theory Forwarder
  imports Quota
begin

text \<open>
  Models \<open>src/proxy/forwarder.rs\<close>: the bidirectional relay with idle timeout, throttling, quota
  enforcement and the live byte counters of the session (\<open>LiveSession\<close> of \<open>src/proxy/mod.rs\<close>).
  A direction is driven by the outcomes of its reads and writes; the two spawned tasks of \<open>relay\<close>
  are an arbitrary interleaving of such events, one event being one atomic step. The quota state
  both directions hold an \<open>Arc\<close> to is the entry of the user in the tracker.
\<close>

subsection \<open>Model\<close>

record live_session =
  session_id :: string
  sess_username :: string
  sess_target_host :: string
  sess_target_port :: u16
  sess_source_ip :: string
  started_at :: nat
  bytes_up :: u64
  bytes_down :: u64
  protocol :: string

definition RELAY_BUFFER_SIZE :: nat where
  "RELAY_BUFFER_SIZE = 8192"

record relay_config =
  idle_timeout :: duration
  per_conn_bandwidth_kbps :: u64
  aggregate_bandwidth_kbps :: u64
  relay_username :: "string option"
  relay_quotas :: "quota_config option"

text \<open>What the two directions share: tracker, session, and the user whose state was fetched in advance.\<close>

record relay_env =
  env_tracker :: "quota_tracker option"
  env_cached :: "string option"
  env_session :: "live_session option"

text \<open>The outcome of one read: the bytes with the outcome of writing them on, or an error.\<close>

datatype read_event = Chunk "u8 list" bool | ReadError

record direction =
  total :: u64
  forwarded :: "u8 list"
  slept :: "duration list"
  running :: bool

definition direction_new :: direction where
  "direction_new = \<lparr>total = 0, forwarded = [], slept = [], running = True\<rparr>"

definition count_session :: "bool \<Rightarrow> u64 \<Rightarrow> live_session \<Rightarrow> live_session" where
  "count_session upload n s = (if upload then s\<lparr>bytes_up := bytes_up s + n\<rparr> else s\<lparr>bytes_down := bytes_down s + n\<rparr>)"

text \<open>The delay after a chunk of \<open>n\<close> bytes; \<^const>\<open>None\<close> if a quota is exceeded.\<close>

definition chunk_delay ::
  "chrono_ops \<Rightarrow> ('f, 'x) f64_ops_scheme \<Rightarrow> nat \<Rightarrow> relay_config \<Rightarrow> u64 \<Rightarrow> relay_env \<Rightarrow> relay_env \<times> duration option" where
  "chunk_delay C F now cfg n E =
     (case (env_tracker E, env_cached E) of
        (Some T, Some u) \<Rightarrow>
          (case record_bytes_cached C F now (user_view C now u T) n (per_conn_bandwidth_kbps cfg)
                  (aggregate_bandwidth_kbps cfg) (relay_quotas cfg) T of
             (T1, st, QuotaOk d) \<Rightarrow> (E\<lparr>env_tracker := Some (put_user u st T1)\<rparr>, Some d)
           | (T1, st, Exceeded _) \<Rightarrow> (E\<lparr>env_tracker := Some (put_user u st T1)\<rparr>, None))
      | _ \<Rightarrow>
          if per_conn_bandwidth_kbps cfg > 0 then
            (let bytes_per_sec = f_mul F (f_of_u64 F (per_conn_bandwidth_kbps cfg)) (f_div F (f_lit F 1000 1) (f_lit F 8 1));
                 delay_secs = f_div F (f_of_u64 F n) bytes_per_sec
             in (E, Some (if f_gt F delay_secs (f_lit F 1 1000) then f_from_secs F delay_secs else 0)))
          else (E, Some 0))"

definition effective_timeout :: "duration \<Rightarrow> duration" where
  "effective_timeout idle = (if idle = 0 then from_secs (365 * 24 * 3600) else idle)"

text \<open>One round of the loop of \<open>relay_one_direction\<close>: the time at which the read ends, how long it has waited, and
  its outcome. A direction that has left the loop ignores the event.\<close>

type_synonym relay_event = "nat \<times> duration \<times> read_event"

definition direction_step ::
  "chrono_ops \<Rightarrow> ('f, 'x) f64_ops_scheme \<Rightarrow> relay_config \<Rightarrow> bool \<Rightarrow> relay_event \<Rightarrow> relay_env \<times> direction
     \<Rightarrow> relay_env \<times> direction" where
  "direction_step C F cfg upload ev s =
     (let (now, waited, e) = ev; (E, d) = s in
      if \<not> running d then (E, d)
      else if waited > effective_timeout (idle_timeout cfg) then (E, d\<lparr>running := False\<rparr>)
      else case e of
        ReadError \<Rightarrow> (E, d\<lparr>running := False\<rparr>)
      | Chunk bs write_ok \<Rightarrow>
          if bs = [] \<or> \<not> write_ok then (E, d\<lparr>running := False\<rparr>)
          else
            (let n = of_nat (length bs);
                 d1 = d\<lparr>total := total d + n, forwarded := forwarded d @ bs\<rparr>;
                 E1 = E\<lparr>env_session := map_option (count_session upload n) (env_session E)\<rparr> in
             case chunk_delay C F now cfg n E1 of
               (E2, None) \<Rightarrow> (E2, d1\<lparr>running := False\<rparr>)
             | (E2, Some delay) \<Rightarrow> (E2, if delay = 0 then d1 else d1\<lparr>slept := slept d1 @ [delay]\<rparr>)))"

definition relay_one_direction ::
  "chrono_ops \<Rightarrow> ('f, 'x) f64_ops_scheme \<Rightarrow> relay_config \<Rightarrow> bool \<Rightarrow> relay_event list \<Rightarrow> relay_env
     \<Rightarrow> relay_env \<times> direction" where
  "relay_one_direction C F cfg upload evs E = fold (direction_step C F cfg upload) evs (E, direction_new)"

text \<open>The relay: the shared state and the directions a to b (upload) and b to a.\<close>

type_synonym relay_state = "relay_env \<times> direction \<times> direction"

definition relay_step ::
  "chrono_ops \<Rightarrow> ('f, 'x) f64_ops_scheme \<Rightarrow> relay_config \<Rightarrow> bool \<times> relay_event \<Rightarrow> relay_state \<Rightarrow> relay_state" where
  "relay_step C F cfg ev s =
     (let (upload, e) = ev; (E, up, down) = s in
      if upload then (case direction_step C F cfg True e (E, up) of (E', up') \<Rightarrow> (E', up', down))
      else (case direction_step C F cfg False e (E, down) of (E', down') \<Rightarrow> (E', up, down')))"

definition relay_start :: "chrono_ops \<Rightarrow> nat \<Rightarrow> relay_config \<Rightarrow> quota_tracker option \<Rightarrow> live_session option \<Rightarrow> relay_state" where
  "relay_start C now cfg qt session =
     ((case (qt, relay_username cfg) of
         (Some T, Some u) \<Rightarrow> \<lparr>env_tracker = Some (fst (get_user C now u T)), env_cached = Some u, env_session = session\<rparr>
       | _ \<Rightarrow> \<lparr>env_tracker = qt, env_cached = None, env_session = session\<rparr>),
      direction_new, direction_new)"

definition relay ::
  "chrono_ops \<Rightarrow> ('f, 'x) f64_ops_scheme \<Rightarrow> nat \<Rightarrow> relay_config \<Rightarrow> quota_tracker option \<Rightarrow> live_session option
     \<Rightarrow> (bool \<times> relay_event) list \<Rightarrow> relay_env \<times> u64 \<times> u64" where
  "relay C F now cfg qt session evs =
     (case fold (relay_step C F cfg) evs (relay_start C now cfg qt session) of
        (E, up, down) \<Rightarrow> (E, total up, total down))"

subsection \<open>One chunk\<close>

definition user_total :: "relay_env \<Rightarrow> u64" where
  "user_total E = (case (env_tracker E, env_cached E) of
     (Some T, Some u) \<Rightarrow> (case map_of (user_state T) u of Some st \<Rightarrow> total_bytes st | None \<Rightarrow> 0) | _ \<Rightarrow> 0)"

definition tracked :: "relay_env \<Rightarrow> bool" where
  "tracked E \<longleftrightarrow> (\<exists>T u st. env_tracker E = Some T \<and> env_cached E = Some u \<and> map_of (user_state T) u = Some st)"

lemma record_bytes_cached_total:
  "total_bytes (fst (snd (record_bytes_cached C F now st b p l q T))) = total_bytes st + b"
  by (simp add: record_bytes_cached_def Let_def case_prod_beta split: option.split)

lemma record_bytes_cached_exceeds:
  assumes "snd (snd (record_bytes_cached C F now st b p l (Some q) T)) = QuotaOk d" and "0 < total_bandwidth_bytes q"
  shows "total_bytes st + b < total_bandwidth_bytes q"
proof -
  have "snd (bandwidth_quota_check now q (bytes_recorded C now b st)) = None"
    using assms(1) by (auto simp: record_bytes_cached_via Let_def case_prod_beta split: option.splits)
  then have "total_bytes (bytes_recorded C now b st) < total_bandwidth_bytes q"
    using assms(2) by (auto simp: bandwidth_quota_check_verdict)
  then show ?thesis by (simp add: bytes_recorded_def Let_def)
qed

lemma chunk_delay_tracked:
  assumes "tracked E"
  shows "tracked (fst (chunk_delay C F now cfg n E)) \<and> user_total (fst (chunk_delay C F now cfg n E)) = user_total E + n
     \<and> env_session (fst (chunk_delay C F now cfg n E)) = env_session E
     \<and> (\<forall>q d. relay_quotas cfg = Some q \<longrightarrow> 0 < total_bandwidth_bytes q \<longrightarrow>
          snd (chunk_delay C F now cfg n E) = Some d \<longrightarrow> user_total E + n < total_bandwidth_bytes q)"
proof -
  from assms obtain T u st where E: "env_tracker E = Some T" "env_cached E = Some u" "map_of (user_state T) u = Some st"
    by (auto simp: tracked_def)
  then have v: "user_view C now u T = st" and t: "user_total E = total_bytes st"
    by (simp_all add: user_view_def user_total_def)
  obtain T1 st1 r where R: "record_bytes_cached C F now st n (per_conn_bandwidth_kbps cfg) (aggregate_bandwidth_kbps cfg)
      (relay_quotas cfg) T = (T1, st1, r)" by (metis prod_cases3)
  have t1: "total_bytes st1 = total_bytes st + n"
    using record_bytes_cached_total [of C F now st n "per_conn_bandwidth_kbps cfg" "aggregate_bandwidth_kbps cfg" "relay_quotas cfg" T]
    by (simp add: R)
  have lim: "total_bytes st + n < total_bandwidth_bytes q"
    if "relay_quotas cfg = Some q" "0 < total_bandwidth_bytes q" "r = QuotaOk d" for q d
    using record_bytes_cached_exceeds that R by (metis snd_conv)
  show ?thesis
    using E v t t1 R lim
    by (cases r) (auto simp: chunk_delay_def tracked_def user_total_def put_user_def)
qed

subsection \<open>Accounting\<close>

definition session_counts :: "live_session option \<Rightarrow> u64 \<times> u64" where
  "session_counts so = (case so of Some se \<Rightarrow> (bytes_up se, bytes_down se) | None \<Rightarrow> (0, 0))"

lemma session_counts_count [simp]:
  "session_counts (Some (count_session True n se)) = (fst (session_counts (Some se)) + n, snd (session_counts (Some se)))"
  "session_counts (Some (count_session False n se)) = (fst (session_counts (Some se)), snd (session_counts (Some se)) + n)"
  by (simp_all add: session_counts_def count_session_def)

text \<open>What one event may do to a direction: nothing but stop it, or forward one chunk and account for it.\<close>

lemma direction_step_cases:
  assumes "tracked E" and "direction_step C F cfg upload ev (E, d) = (E', d')"
  shows "(E' = E \<and> (d' = d \<or> d' = d\<lparr>running := False\<rparr>)) \<or>
     (\<exists>bs. snd (snd ev) = Chunk bs True \<and> running d \<and> tracked E'
        \<and> forwarded d' = forwarded d @ bs \<and> total d' = total d + of_nat (length bs)
        \<and> user_total E' = user_total E + of_nat (length bs)
        \<and> env_session E' = map_option (count_session upload (of_nat (length bs))) (env_session E)
        \<and> (\<forall>q. relay_quotas cfg = Some q \<longrightarrow> 0 < total_bandwidth_bytes q \<longrightarrow> running d' \<longrightarrow>
             user_total E' < total_bandwidth_bytes q))"
proof (cases "\<exists>bs. snd (snd ev) = Chunk bs True \<and> bs \<noteq> [] \<and> running d \<and> \<not> fst (snd ev) > effective_timeout (idle_timeout cfg)")
  case False
  then show ?thesis using assms(2)
    by (auto simp: direction_step_def Let_def case_prod_beta split: read_event.splits if_splits)
next
  case True
  then obtain bs where bs: "snd (snd ev) = Chunk bs True" "bs \<noteq> []" "running d"
    "\<not> fst (snd ev) > effective_timeout (idle_timeout cfg)" by blast
  let ?n = "of_nat (length bs) :: u64"
  let ?E1 = "E\<lparr>env_session := map_option (count_session upload ?n) (env_session E)\<rparr>"
  obtain E2 r where R: "chunk_delay C F (fst ev) cfg ?n ?E1 = (E2, r)" by (metis prod.collapse)
  have t: "tracked ?E1" "user_total ?E1 = user_total E"
    using assms(1) by (simp_all add: tracked_def user_total_def)
  from chunk_delay_tracked [OF t(1), of C F "fst ev" cfg ?n] R t(2)
  have c: "tracked E2" "user_total E2 = user_total E + ?n" "env_session E2 = env_session ?E1"
    "\<And>q dl. relay_quotas cfg = Some q \<Longrightarrow> 0 < total_bandwidth_bytes q \<Longrightarrow> r = Some dl \<Longrightarrow> user_total E2 < total_bandwidth_bytes q"
    by auto
  have "E' = E2 \<and> forwarded d' = forwarded d @ bs \<and> total d' = total d + ?n \<and> (running d' \<longrightarrow> r \<noteq> None)"
    using assms(2) bs R
    by (auto simp: direction_step_def Let_def case_prod_beta split: option.splits if_splits)
  then show ?thesis using bs c by auto
qed

definition relay_ok :: "relay_env \<Rightarrow> relay_state \<Rightarrow> bool" where
  "relay_ok E0 s \<longleftrightarrow>
     (case s of (E, up, down) \<Rightarrow>
        tracked E \<and> total up = of_nat (length (forwarded up)) \<and> total down = of_nat (length (forwarded down))
        \<and> user_total E = user_total E0 + total up + total down
        \<and> (env_session E = None \<longleftrightarrow> env_session E0 = None)
        \<and> (env_session E0 \<noteq> None \<longrightarrow> session_counts (env_session E) =
             (fst (session_counts (env_session E0)) + total up, snd (session_counts (env_session E0)) + total down)))"

lemma relay_step_ok:
  assumes "relay_ok E0 s"
  shows "relay_ok E0 (relay_step C F cfg ev s)"
proof -
  obtain E up down where s: "s = (E, up, down)" by (metis prod_cases3)
  obtain upload e where ev: "ev = (upload, e)" by (cases ev)
  have E: "tracked E" using assms s by (simp add: relay_ok_def)
  obtain E' d' where D: "direction_step C F cfg upload e (E, if upload then up else down) = (E', d')" by (metis prod.collapse)
  from direction_step_cases [OF E D] show ?thesis
    using assms D by (cases upload) (auto simp: s ev relay_step_def relay_ok_def algebra_simps)
qed

interpretation relaying: machine "relay_step C F cfg" "relay_ok E0" for C F cfg E0
  by unfold_locales (rule relay_step_ok)

lemma relay_start_ok:
  assumes "relay_username cfg = Some u"
  shows "relay_ok (fst (relay_start C now cfg (Some T) so)) (relay_start C now cfg (Some T) so)
     \<and> user_total (fst (relay_start C now cfg (Some T) so)) = total_bytes (user_view C now u T)
     \<and> env_session (fst (relay_start C now cfg (Some T) so)) = so
     \<and> env_cached (fst (relay_start C now cfg (Some T) so)) = Some u"
  using assms
  by (auto simp: relay_start_def relay_ok_def direction_new_def get_user_eq tracked_def user_total_def user_view_def
      session_counts_def split: option.split)

lemma env_cached_chunk [simp]: "env_cached (fst (chunk_delay C F now cfg n E)) = env_cached E"
  by (simp add: chunk_delay_def Let_def case_prod_beta split: option.split quota_result.split)

lemma env_cached_step [simp]: "env_cached (fst (relay_step C F cfg ev s)) = env_cached (fst s)"
  by (simp add: relay_step_def direction_step_def Let_def case_prod_beta split: read_event.split option.split)

lemma env_cached_run [simp]: "env_cached (fst (fold (relay_step C F cfg) evs s)) = env_cached (fst s)"
  by (induction evs arbitrary: s) simp_all

subsection \<open>The quota overshoot\<close>

definition stopped :: "direction \<Rightarrow> nat" where
  "stopped d = (if running d then 0 else 1)"

definition chunk_small :: "read_event \<Rightarrow> bool" where
  "chunk_small e = (case e of Chunk bs _ \<Rightarrow> length bs \<le> RELAY_BUFFER_SIZE | ReadError \<Rightarrow> True)"

definition within :: "nat \<Rightarrow> relay_state \<Rightarrow> bool" where
  "within M s = (case s of (E, up, down) \<Rightarrow>
     tracked E \<and> unat (user_total E) \<le> M + RELAY_BUFFER_SIZE * (stopped up + stopped down))"

lemma within_direction:
  assumes "tracked E" and "unat (user_total E) \<le> M + RELAY_BUFFER_SIZE * (stopped d + k)" and "k \<le> 1"
    and "relay_quotas cfg = Some q" and "0 < total_bandwidth_bytes q" and "unat (total_bandwidth_bytes q) \<le> M + 1"
    and "chunk_small (snd (snd ev))" and "M + 2 * RELAY_BUFFER_SIZE < 2 ^ 64"
    and "direction_step C F cfg upload ev (E, d) = (E', d')"
  shows "tracked E' \<and> unat (user_total E') \<le> M + RELAY_BUFFER_SIZE * (stopped d' + k)"
  using direction_step_cases [OF assms(1,9)]
proof (elim disjE exE conjE)
  assume "E' = E" "d' = d" then show ?thesis using assms(1,2) by simp
next
  assume "E' = E" "d' = d\<lparr>running := False\<rparr>" then show ?thesis using assms(1,2) by (simp add: stopped_def RELAY_BUFFER_SIZE_def split: if_splits)
next
  fix bs
  assume c: "snd (snd ev) = Chunk bs True" "running d" "tracked E'" "user_total E' = user_total E + of_nat (length bs)"
    "\<forall>q. relay_quotas cfg = Some q \<longrightarrow> 0 < total_bandwidth_bytes q \<longrightarrow> running d' \<longrightarrow> user_total E' < total_bandwidth_bytes q"
  have small: "length bs \<le> RELAY_BUFFER_SIZE" using assms(7) c(1) by (simp add: chunk_small_def)
  have "unat (user_total E') \<le> unat (user_total E) + unat (of_nat (length bs) :: u64)"
    unfolding c(4) unat_word_ariths(1) by (rule mod_less_eq_dividend)
  also have "\<dots> \<le> unat (user_total E) + length bs" by (simp add: unat_of_nat)
  also have "\<dots> \<le> M + RELAY_BUFFER_SIZE * (1 + k)" using assms(2) c(2) small by (simp add: stopped_def)
  finally have le: "unat (user_total E') \<le> M + RELAY_BUFFER_SIZE * (1 + k)" .
  show ?thesis
  proof (cases "running d'")
    case True
    with c(5) assms(4,5) have "user_total E' < total_bandwidth_bytes q" by blast
    then have "unat (user_total E') \<le> M" using assms(6) by (simp add: word_less_nat_alt)
    with c(3) show ?thesis by simp
  qed (use le c(3) in \<open>simp add: stopped_def\<close>)
qed

lemma within_step:
  assumes "within M s" and "chunk_small (snd (snd (snd ev)))"
    and "relay_quotas cfg = Some q" and "0 < total_bandwidth_bytes q" and "unat (total_bandwidth_bytes q) \<le> M + 1"
    and "M + 2 * RELAY_BUFFER_SIZE < 2 ^ 64"
  shows "within M (relay_step C F cfg ev s)"
proof -
  obtain E up down where s: "s = (E, up, down)" by (metis prod_cases3)
  obtain upload e where ev: "ev = (upload, e)" by (cases ev)
  let ?d = "if upload then up else down" and ?k = "stopped (if upload then down else up)"
  obtain E' d' where D: "direction_step C F cfg upload e (E, ?d) = (E', d')" by (metis prod.collapse)
  have E: "tracked E" "unat (user_total E) \<le> M + RELAY_BUFFER_SIZE * (stopped ?d + ?k)"
    using assms(1) by (auto simp: s within_def add.commute)
  have k: "?k \<le> 1" by (simp add: stopped_def)
  have small: "chunk_small (snd (snd e))" using assms(2) ev by simp
  from within_direction [OF E k assms(3-5) small assms(6) D] D show ?thesis
    by (cases upload) (auto simp: s ev relay_step_def within_def add.commute)
qed

lemma within_run:
  assumes "relay_quotas cfg = Some q" and "0 < total_bandwidth_bytes q" and "unat (total_bandwidth_bytes q) \<le> M + 1"
    and "M + 2 * RELAY_BUFFER_SIZE < 2 ^ 64"
  shows "list_all (\<lambda>ev. chunk_small (snd (snd (snd ev)))) evs \<Longrightarrow> within M s \<Longrightarrow> within M (fold (relay_step C F cfg) evs s)"
  by (induction evs arbitrary: s) (simp_all add: within_step [OF _ _ assms])

lemma within_bound: "within M (E, up, down) \<Longrightarrow> unat (user_total E) \<le> M + 2 * RELAY_BUFFER_SIZE"
  by (auto simp: within_def stopped_def RELAY_BUFFER_SIZE_def split: if_splits)

subsection \<open>Order of the bytes\<close>

fun chunk_bytes :: "read_event \<Rightarrow> u8 list" where
  "chunk_bytes (Chunk bs _) = bs"
| "chunk_bytes ReadError = []"

lemma direction_stopped [simp]: "\<not> running d \<Longrightarrow> direction_step C F cfg upload ev (E, d) = (E, d)"
  by (simp add: direction_step_def Let_def case_prod_beta)

lemma direction_step_forwarded:
  assumes "direction_step C F cfg upload ev (E, d) = (E', d')"
  shows "forwarded d' = forwarded d \<and> \<not> running d' \<or> forwarded d' = forwarded d \<and> \<not> running d
     \<or> forwarded d' = forwarded d @ chunk_bytes (snd (snd ev))"
  using assms
  by (auto simp: direction_step_def Let_def case_prod_beta split: read_event.splits if_splits option.splits)

definition dir_of :: "bool \<Rightarrow> relay_state \<Rightarrow> direction" where
  "dir_of upload s = (if upload then fst (snd s) else snd (snd s))"

text \<open>The chunks the events offer to one direction.\<close>

definition offered :: "bool \<Rightarrow> (bool \<times> relay_event) list \<Rightarrow> u8 list list" where
  "offered upload evs = map (\<lambda>ev. chunk_bytes (snd (snd (snd ev)))) (filter (\<lambda>ev. fst ev = upload) evs)"

lemma dir_of_step:
  "dir_of upload (relay_step C F cfg ev s) =
     (if fst ev = upload then snd (direction_step C F cfg upload (snd ev) (fst s, dir_of upload s)) else dir_of upload s)"
  by (simp add: relay_step_def dir_of_def Let_def case_prod_beta)

lemma dir_stopped: "\<not> running (dir_of upload s) \<Longrightarrow> dir_of upload (fold (relay_step C F cfg) evs s) = dir_of upload s"
  by (induction evs arbitrary: s) (simp_all add: dir_of_step)

lemma forwarded_prefix:
  "\<exists>k. forwarded (dir_of upload (fold (relay_step C F cfg) evs s)) = forwarded (dir_of upload s) @ concat (take k (offered upload evs))"
proof (induction evs arbitrary: s)
  case (Cons ev evs)
  let ?s = "relay_step C F cfg ev s"
  from Cons.IH [of ?s] obtain k where
    k: "forwarded (dir_of upload (fold (relay_step C F cfg) evs ?s)) = forwarded (dir_of upload ?s) @ concat (take k (offered upload evs))"
    by blast
  consider (other) "fst ev \<noteq> upload"
    | (stops) "fst ev = upload" "\<not> running (dir_of upload ?s)"
    | (goes) "fst ev = upload" "running (dir_of upload ?s)" by blast
  then show ?case
  proof cases
    case other
    then show ?thesis using k by (intro exI [of _ k]) (simp add: dir_of_step offered_def)
  next
    case stops
    obtain E' d' where D: "direction_step C F cfg upload (snd ev) (fst s, dir_of upload s) = (E', d')" by (metis prod.collapse)
    with stops have d': "dir_of upload ?s = d'" by (simp add: dir_of_step)
    from direction_step_forwarded [OF D]
    have "forwarded d' = forwarded (dir_of upload s) \<or> forwarded d' = forwarded (dir_of upload s) @ chunk_bytes (snd (snd (snd ev)))"
      by auto
    then show ?thesis
    proof
      assume "forwarded d' = forwarded (dir_of upload s)"
      then show ?thesis using stops d' by (intro exI [of _ 0]) (simp add: dir_stopped)
    next
      assume "forwarded d' = forwarded (dir_of upload s) @ chunk_bytes (snd (snd (snd ev)))"
      then show ?thesis using stops d' by (intro exI [of _ 1]) (simp add: dir_stopped offered_def)
    qed
  next
    case goes
    obtain E' d' where D: "direction_step C F cfg upload (snd ev) (fst s, dir_of upload s) = (E', d')" by (metis prod.collapse)
    with goes have d': "dir_of upload ?s = d'" by (simp add: dir_of_step)
    then have "running (dir_of upload s)"
      using goes D direction_stopped [of "dir_of upload s" C F cfg upload "snd ev" "fst s"] by fastforce
    with goes d' direction_step_forwarded [OF D]
    have "forwarded d' = forwarded (dir_of upload s) @ chunk_bytes (snd (snd (snd ev)))" by auto
    then show ?thesis using goes d' k by (intro exI [of _ "Suc k"]) (simp add: offered_def)
  qed
qed (simp add: offered_def)

subsection \<open>Properties\<close>

text \<open>C14: every relayed byte is accounted for, in both directions and under every interleaving of the two tasks:
  the user's lifetime counter in the tracker and the live counters of the session grow by exactly
  the byte totals the relay reports (modulo \<open>2^64\<close>).\<close>

theorem relay_accounting:
  assumes "relay_username cfg = Some u" and "relay C F now cfg (Some T) (Some se) evs = (E, up, down)"
  shows "\<exists>T' st se'. env_tracker E = Some T' \<and> map_of (user_state T') u = Some st \<and> env_session E = Some se'
     \<and> total_bytes st = total_bytes (user_view C now u T) + up + down
     \<and> bytes_up se' = bytes_up se + up \<and> bytes_down se' = bytes_down se + down"
proof -
  let ?s = "relay_start C now cfg (Some T) (Some se)"
  note start = relay_start_ok [OF assms(1), of C now T "Some se"]
  obtain du dd where R: "fold (relay_step C F cfg) evs ?s = (E, du, dd)" "up = total du" "down = total dd"
    using assms(2) by (auto simp: relay_def split: prod.splits)
  have ok: "relay_ok (fst ?s) (E, du, dd)"
    using relaying.run_inv [of "fst ?s" ?s C F cfg evs] start R by simp
  have "env_cached E = Some u"
    using env_cached_run [of C F cfg evs ?s] start R(1) by simp
  with ok start obtain T' st where t: "env_tracker E = Some T'" "map_of (user_state T') u = Some st"
      "total_bytes st = total_bytes (user_view C now u T) + up + down"
    by (auto simp: relay_ok_def tracked_def user_total_def R)
  from ok start obtain se' where "env_session E = Some se'" "bytes_up se' = bytes_up se + up" "bytes_down se' = bytes_down se + down"
    by (auto simp: relay_ok_def session_counts_def R split: option.splits)
  with t show ?thesis by blast
qed

definition sample_relay_config :: relay_config where
  "sample_relay_config = \<lparr>idle_timeout = 0, per_conn_bandwidth_kbps = 0, aggregate_bandwidth_kbps = 0,
     relay_username = Some ''u'', relay_quotas = Some (sample_quota\<lparr>total_bandwidth_bytes := 2\<rparr>)\<rparr>"

definition sample_session :: live_session where
  "sample_session = \<lparr>session_id = ''s0'', sess_username = ''u'', sess_target_host = ''h'', sess_target_port = 80,
     sess_source_ip = ''192.0.2.1'', started_at = 0, bytes_up = 0, bytes_down = 0, protocol = ''socks5''\<rparr>"

definition sample_events :: "(bool \<times> relay_event) list" where
  "sample_events = [(True, 60, 0, Chunk [1, 2, 3] True), (False, 61, 0, Chunk [4] True), (True, 62, 0, Chunk [5] True)]"

theorem relay_accounting_witness:
  "case relay sample_chrono sample_f64 50 sample_relay_config (Some (tracker_new sample_limits 50)) (Some sample_session) sample_events
   of (E, up, down) \<Rightarrow> \<exists>se. env_session E = Some se \<and> bytes_up se = up \<and> bytes_down se = down"
proof -
  obtain E up down where R: "relay sample_chrono sample_f64 50 sample_relay_config (Some (tracker_new sample_limits 50))
      (Some sample_session) sample_events = (E, up, down)" by (metis prod_cases3)
  have "relay_username sample_relay_config = Some ''u''" by (simp add: sample_relay_config_def)
  from relay_accounting [OF this R] show ?thesis unfolding R by (auto simp: sample_session_def)
qed

text \<open>C13: a lifetime quota is overshot by at most one buffer per direction: whatever the interleaving, as long as
  each read returns at most a buffer of 8192 bytes, the user's counter ends at most two buffers
  above the larger of its start and the limit less one.\<close>

theorem relay_quota_overshoot:
  assumes "relay_username cfg = Some u" and "relay_quotas cfg = Some q" and "0 < total_bandwidth_bytes q"
    and "list_all (\<lambda>ev. chunk_small (snd (snd (snd ev)))) evs"
    and "M = max (unat (total_bytes (user_view C now u T))) (unat (total_bandwidth_bytes q) - 1)"
    and "M + 2 * 8192 < 2 ^ 64"
    and "relay C F now cfg (Some T) so evs = (E, up, down)"
  shows "\<exists>T' st. env_tracker E = Some T' \<and> map_of (user_state T') u = Some st \<and> unat (total_bytes st) \<le> M + 2 * 8192"
proof -
  let ?s = "relay_start C now cfg (Some T) so"
  note start = relay_start_ok [OF assms(1), of C now T so]
  obtain du dd where R: "fold (relay_step C F cfg) evs ?s = (E, du, dd)"
    using assms(7) by (auto simp: relay_def split: prod.splits)
  have "within M ?s"
    using start assms(5) by (auto simp: within_def relay_ok_def split: prod.splits)
  moreover have "unat (total_bandwidth_bytes q) \<le> M + 1" using assms(5) by auto
  ultimately have w: "within M (E, du, dd)"
    using within_run [OF assms(2,3), of M evs ?s C F] assms(4,6) by (simp add: R RELAY_BUFFER_SIZE_def)
  have "env_cached E = Some u" using env_cached_run [of C F cfg evs ?s] start R by simp
  with w obtain T' st where "env_tracker E = Some T'" "map_of (user_state T') u = Some st" "user_total E = total_bytes st"
    by (auto simp: within_def tracked_def user_total_def)
  then show ?thesis using within_bound [OF w] by (auto simp: RELAY_BUFFER_SIZE_def)
qed

theorem relay_quota_overshoot_witness:
  "case relay sample_chrono sample_f64 50 sample_relay_config (Some (tracker_new sample_limits 50)) None sample_events
   of (E, up, down) \<Rightarrow> \<exists>T' st. env_tracker E = Some T' \<and> map_of (user_state T') ''u'' = Some st \<and> unat (total_bytes st) \<le> 1 + 2 * 8192"
proof -
  obtain E up down where R: "relay sample_chrono sample_f64 50 sample_relay_config (Some (tracker_new sample_limits 50))
      None sample_events = (E, up, down)" by (metis prod_cases3)
  have "\<exists>T' st. env_tracker E = Some T' \<and> map_of (user_state T') ''u'' = Some st \<and> unat (total_bytes st) \<le> 1 + 2 * 8192"
    by (rule relay_quota_overshoot [where q = "sample_quota\<lparr>total_bandwidth_bytes := 2\<rparr>", OF _ _ _ _ _ _ R])
      (simp_all add: sample_relay_config_def sample_events_def sample_quota_def chunk_small_def RELAY_BUFFER_SIZE_def
        user_view_def tracker_new_def ubs_new_def)
  then show ?thesis unfolding R by simp
qed

text \<open>The relay changes no byte: what a direction has forwarded is, in order, the concatenation of a prefix of
  the chunks read on its side, whatever the other direction does.\<close>

theorem relay_forwards_in_order:
  "\<exists>k. forwarded (dir_of upload (fold (relay_step C F cfg) evs (relay_start C now cfg qt so))) = concat (take k (offered upload evs))"
proof -
  have "forwarded (dir_of upload (relay_start C now cfg qt so)) = []"
    by (simp add: dir_of_def relay_start_def direction_new_def)
  then show ?thesis using forwarded_prefix [of upload C F cfg evs "relay_start C now cfg qt so"] by simp
qed

end
