(* ===== verification/Proxy_Engine.thy ===== *)
theory Proxy_Engine
  imports Connector Conn_Slots User Forwarder
begin

text \<open>
  Models the rest of \<open>src/proxy/mod.rs\<close> and \<open>ParsedUpstreamProxy\<close> of
  \<open>src/config/types.rs\<close>: the choice of an upstream proxy, the checked connect (access rules before
  and after, connection slot, direct or upstream connection), the relay of an SSH channel and the
  table of live sessions. The \<open>url\<close> and \<open>percent-encoding\<close> crates are the fields of
  \<open>url_ops\<close>. Audit records and metrics are in \<open>Observe_Engine\<close>.
\<close>

subsection \<open>Upstream proxies\<close>

record parsed_url =
  url_scheme :: string
  url_host :: "string option"
  url_port :: "u16 option"
  url_username :: string
  url_password :: "string option"

record url_ops =
  url_parse :: "string \<Rightarrow> parsed_url option"
  percent_decode_utf8 :: "string \<Rightarrow> string option"

datatype url_error = InvalidUrl | UnsupportedScheme string | MissingHost | MissingPort | UsernameEncoding

definition from_url :: "url_ops \<Rightarrow> string \<Rightarrow> url_error + parsed_upstream_proxy" where
  "from_url L raw =
     (case url_parse L raw of
        None \<Rightarrow> Inl InvalidUrl
      | Some parsed \<Rightarrow>
          if url_scheme parsed \<noteq> ''socks5'' then Inl (UnsupportedScheme (url_scheme parsed))
          else (case url_host parsed of
             None \<Rightarrow> Inl MissingHost
           | Some host \<Rightarrow>
             (case url_port parsed of
                None \<Rightarrow> Inl MissingPort
              | Some port \<Rightarrow>
                  (let pass = map_option (\<lambda>p. case percent_decode_utf8 L p of Some s \<Rightarrow> s | None \<Rightarrow> p) (url_password parsed) in
                   if url_username parsed \<noteq> [] then
                     (case percent_decode_utf8 L (url_username parsed) of
                        None \<Rightarrow> Inl UsernameEncoding
                      | Some name \<Rightarrow> Inr \<lparr>proxy_host = host, proxy_port = port, proxy_username = Some name, proxy_password = pass\<rparr>)
                   else Inr \<lparr>proxy_host = host, proxy_port = port, proxy_username = None, proxy_password = pass\<rparr>))))"

text \<open>The fields of \<open>AppConfig\<close> the engine reads.\<close>

record engine_config =
  max_connections :: u32
  connection_timeout :: nat
  limits_idle_timeout :: nat
  ip_guard_enabled :: bool
  global_upstream_proxy :: "string option"
  dns_cache_ttl :: int
  dns_cache_max_entries :: nat

definition resolve_upstream_proxy ::
  "url_ops \<Rightarrow> ('net, 'pk) user \<Rightarrow> engine_config \<Rightarrow> parsed_upstream_proxy option" where
  "resolve_upstream_proxy L usr cfg =
     (case (case u_upstream_proxy usr of Some url \<Rightarrow> Some url | None \<Rightarrow> global_upstream_proxy cfg) of
        None \<Rightarrow> None
      | Some url \<Rightarrow> (case from_url L url of Inr parsed \<Rightarrow> Some parsed | Inl _ \<Rightarrow> None))"

subsection \<open>Engine\<close>

record engine =
  eng_slots :: slots
  eng_dns :: dns_cache
  active_sessions :: "(string, live_session) dmap"
  session_counter :: u64

definition engine_new :: "engine_config \<Rightarrow> engine" where
  "engine_new cfg =
     \<lparr>eng_slots = \<lparr>global_connections = 0, user_connections = []\<rparr>,
      eng_dns = dns_new (dns_cache_ttl cfg) (dns_cache_max_entries cfg), active_sessions = [], session_counter = 0\<rparr>"

text \<open>The connected stream: to an address, or a tunnel with the bytes that can still be read from it.\<close>

datatype target_stream = Direct socket_addr | Tunnel "u8 list"

fun acquire_message :: "acquire_error \<Rightarrow> string" where
  "acquire_message GlobalLimit = ''global connection limit reached''"
| "acquire_message (UserLimit u) = ''per-user connection limit reached for '' @ [char_of (39 :: nat)] @ u @ [char_of (39 :: nat)]"

definition acl_denied :: "string \<Rightarrow> u16 \<Rightarrow> conn_error" where
  "acl_denied host port = bail_with (''ACL denied: '' @ host @ '':'' @ show_nat (unat port))"

text \<open>Leaving \<open>connect_checked\<close> with an error drops the guard.\<close>

definition release :: "string \<Rightarrow> engine \<Rightarrow> engine" where
  "release username G = G\<lparr>eng_slots := drop_guard username (eng_slots G)\<rparr>"

definition connect_checked ::
  "('net, 'x) ipnet_ops_scheme \<Rightarrow> network \<Rightarrow> engine_config \<Rightarrow> string \<Rightarrow> string \<Rightarrow> u16 \<Rightarrow> 'net parsed_acl \<Rightarrow> u32
     \<Rightarrow> parsed_upstream_proxy option \<Rightarrow> engine \<Rightarrow> engine \<times> (conn_error + target_stream \<times> socket_addr \<times> string)" where
  "connect_checked N W cfg username host port user_acl max_per_user upstream G =
     (if \<not> allowed (pre_check_hostname_and_log N user_acl host port) then (G, Inl (acl_denied host port))
      else (case acquire_connection (max_connections cfg) username max_per_user (eng_slots G) of
          (S, Inl e) \<Rightarrow> (G\<lparr>eng_slots := S\<rparr>, Inl (bail_with (acquire_message e)))
        | (S, Inr grd) \<Rightarrow>
            (let G1 = G\<lparr>eng_slots := S\<rparr> in
             case upstream of
               Some proxy \<Rightarrow>
                 (case snd (connect_via_socks5 W proxy host port (from_secs (connection_timeout cfg))) of
                    Inl e \<Rightarrow> (release grd G1, Inl e)
                  | Inr rest \<Rightarrow> (G1, Inr (Tunnel rest, (V4 0 0 0 0, 0), grd)))
             | None \<Rightarrow>
                 (case connect_with_cache W host port (connection_timeout cfg) (ip_guard_enabled cfg) (eng_dns G1) of
                    (D, Inl e) \<Rightarrow> (release grd (G1\<lparr>eng_dns := D\<rparr>), Inl e)
                  | (D, Inr resolved) \<Rightarrow>
                      if \<not> allowed (check_and_log N user_acl host port (Some (fst resolved)))
                      then (release grd (G1\<lparr>eng_dns := D\<rparr>), Inl (acl_denied host port))
                      else (G1\<lparr>eng_dns := D\<rparr>, Inr (Direct resolved, resolved, grd))))))"

definition connect_for_socks ::
  "('net, 'x) ipnet_ops_scheme \<Rightarrow> network \<Rightarrow> engine_config \<Rightarrow> string \<Rightarrow> string \<Rightarrow> u16 \<Rightarrow> 'net parsed_acl \<Rightarrow> u32
     \<Rightarrow> parsed_upstream_proxy option \<Rightarrow> engine \<Rightarrow> engine \<times> (conn_error + target_stream \<times> socket_addr \<times> string)" where
  "connect_for_socks N W cfg username host port user_acl max_per_user upstream G =
     connect_checked N W cfg username host port user_acl max_per_user upstream G"

subsection \<open>Sessions\<close>

definition register_session ::
  "nat \<Rightarrow> string \<Rightarrow> string \<Rightarrow> u16 \<Rightarrow> string \<Rightarrow> string \<Rightarrow> engine \<Rightarrow> engine \<times> live_session" where
  "register_session now username host port source proto G =
     (let sid = ''s'' @ show_nat (unat (session_counter G));
          session = \<lparr>session_id = sid, sess_username = username, sess_target_host = host, sess_target_port = port,
                     sess_source_ip = source, started_at = now, bytes_up = 0, bytes_down = 0, protocol = proto\<rparr>
      in (G\<lparr>session_counter := session_counter G + 1, active_sessions := dm_insert sid session (active_sessions G)\<rparr>, session))"

definition unregister_session :: "string \<Rightarrow> engine \<Rightarrow> engine" where
  "unregister_session sid G = G\<lparr>active_sessions := dm_remove sid (active_sessions G)\<rparr>"

record session_snapshot =
  snap_session_id :: string
  snap_username :: string
  snap_target_host :: string
  snap_target_port :: u16
  snap_source_ip :: string
  snap_started_at :: nat
  snap_bytes_up :: u64
  snap_bytes_down :: u64
  snap_protocol :: string

definition snapshot :: "live_session \<Rightarrow> session_snapshot" where
  "snapshot s = \<lparr>snap_session_id = session_id s, snap_username = sess_username s, snap_target_host = sess_target_host s,
     snap_target_port = sess_target_port s, snap_source_ip = sess_source_ip s, snap_started_at = started_at s,
     snap_bytes_up = bytes_up s, snap_bytes_down = bytes_down s, snap_protocol = protocol s\<rparr>"

definition get_sessions :: "engine \<Rightarrow> session_snapshot list" where
  "get_sessions G = map (snapshot \<circ> snd) (active_sessions G)"

definition get_user_sessions :: "string \<Rightarrow> engine \<Rightarrow> session_snapshot list" where
  "get_user_sessions username G = map (snapshot \<circ> snd) (filter (\<lambda>e. sess_username (snd e) = username) (active_sessions G))"

subsection \<open>The SSH relay\<close>

record 'net ssh_relay_request =
  req_username :: string
  req_host :: string
  req_port :: u16
  req_user_acl :: "'net parsed_acl"
  req_source_ip :: string
  req_bandwidth_limit_kbps :: u64
  req_max_per_user :: u32
  req_aggregate_bandwidth_kbps :: u64
  req_quota_tracker :: "quota_tracker option"
  req_quotas :: "quota_config option"
  req_upstream_proxy :: "parsed_upstream_proxy option"

text \<open>The events are those of the SSH channel (upload) and the target stream; the guard is dropped at the end.\<close>

definition connect_and_relay ::
  "('net, 'x) ipnet_ops_scheme \<Rightarrow> network \<Rightarrow> chrono_ops \<Rightarrow> ('f, 'y) f64_ops_scheme \<Rightarrow> engine_config \<Rightarrow> nat
     \<Rightarrow> (bool \<times> relay_event) list \<Rightarrow> 'net ssh_relay_request \<Rightarrow> engine
     \<Rightarrow> engine \<times> quota_tracker option \<times> (conn_error + u64 \<times> u64 \<times> socket_addr)" where
  "connect_and_relay N W C F cfg now evs req G =
     (case connect_checked N W cfg (req_username req) (req_host req) (req_port req) (req_user_acl req)
             (req_max_per_user req) (req_upstream_proxy req) G of
        (G1, Inl e) \<Rightarrow> (G1, req_quota_tracker req, Inl e)
      | (G1, Inr (_, resolved, grd)) \<Rightarrow>
          (let (G2, session) = register_session now (req_username req) (req_host req) (req_port req) (req_source_ip req) ''ssh'' G1;
               relay_cfg = \<lparr>idle_timeout = from_secs (limits_idle_timeout cfg),
                 per_conn_bandwidth_kbps = req_bandwidth_limit_kbps req,
                 aggregate_bandwidth_kbps = req_aggregate_bandwidth_kbps req,
                 relay_username = Some (req_username req), relay_quotas = req_quotas req\<rparr>;
               (E, up, down) = relay C F now relay_cfg (req_quota_tracker req) (Some session) evs
           in (release grd (unregister_session (session_id session) G2), env_tracker E, Inr (up, down, resolved))))"

subsection \<open>Slots\<close>

definition slot_counts :: "engine \<Rightarrow> u32 \<times> (string \<Rightarrow> u32)" where
  "slot_counts G = (active_connections (eng_slots G), count_of (eng_slots G))"

lemma acquire_ok:
  assumes "acquire_connection mg u m S = (S', Inr g)"
  shows "g = u \<and> \<not> global_connections S \<ge> mg \<and> global_connections S' = global_connections S + 1
     \<and> count_of S' = (count_of S)(u := count_of S u + 1) \<and> (m = 0 \<or> \<not> count_of S u \<ge> m)
     \<and> map_of (user_connections S') u \<noteq> None"
proof -
  let ?S1 = "S\<lparr>global_connections := global_connections S + 1\<rparr>"
  have e: "snd (dm_entry u 0 (user_connections S)) = count_of S u" by (rule count_of_entry)
  from assms have "g = u" "\<not> global_connections S \<ge> mg" "m = 0 \<or> \<not> count_of S u \<ge> m"
    and S': "S' = ?S1\<lparr>user_connections := dm_insert u (count_of S u + 1) (fst (dm_entry u 0 (user_connections S)))\<rparr>"
    by (auto simp: acquire_connection_def Let_def case_prod_beta e word_gt_0 split: if_splits)
  moreover have "count_of S' = (count_of S)(u := count_of S u + 1)"
    by (auto simp: S' count_of_def fun_eq_iff split: option.splits)
  ultimately show ?thesis by simp
qed

lemma acquire_fail:
  assumes "acquire_connection mg u m S = (S', Inl e)"
  shows "global_connections S' = global_connections S \<and> count_of S' = count_of S"
proof -
  have "count_of (S\<lparr>user_connections := fst (dm_entry u 0 (user_connections S))\<rparr>) = count_of S"
    by (auto simp: count_of_def fun_eq_iff split: option.splits)
  with assms show ?thesis
    by (auto simp: acquire_connection_def Let_def case_prod_beta split: if_splits)
qed

lemma drop_guard_counts:
  assumes "map_of (user_connections S) u \<noteq> None"
  shows "global_connections (drop_guard u S) = global_connections S - 1
     \<and> count_of (drop_guard u S) = (count_of S)(u := count_of S u - 1)"
  using assms by (auto simp: drop_guard_def Let_def count_of_def fun_eq_iff split: option.splits)

lemma release_acquired:
  assumes "acquire_connection mg u m (eng_slots G) = (S, Inr g)" and "eng_slots G1 = S"
  shows "slot_counts (release g G1) = slot_counts G"
  using acquire_ok [OF assms(1)] drop_guard_counts [of "eng_slots G1" u] assms(2)
  by (simp add: slot_counts_def release_def active_connections_def)

lemma connect_checked_fail:
  assumes "connect_checked N W cfg u host port acl m up G = (G', Inl e)"
  shows "slot_counts G' = slot_counts G"
proof -
  obtain S r where A: "acquire_connection (max_connections cfg) u m (eng_slots G) = (S, r)" by (metis prod.collapse)
  show ?thesis
  proof (cases r)
    case (Inl a)
    with A acquire_fail [of "max_connections cfg" u m "eng_slots G" S a] assms show ?thesis
      by (auto simp: connect_checked_def slot_counts_def active_connections_def split: if_splits)
  next
    case (Inr g)
    with A assms show ?thesis
      by (auto simp: connect_checked_def Let_def intro!: release_acquired
          split: if_splits option.splits sum.splits prod.splits)
  qed
qed

lemma connect_checked_direct:
  assumes "connect_checked N W cfg u host port acl m None G = (G', Inr (st, a, g))"
  shows "st = Direct a \<and> g = u \<and> check_hostname_only N acl host port \<noteq> PreDeny \<and> check N acl host port (Some (fst a)) = Allow
     \<and> (\<exists>D'. connect_with_cache W host port (connection_timeout cfg) (ip_guard_enabled cfg) (eng_dns G) = (D', Inr a))
     \<and> slot_counts G' = (fst (slot_counts G) + 1, (snd (slot_counts G))(u := snd (slot_counts G) u + 1))
     \<and> \<not> fst (slot_counts G) \<ge> max_connections cfg \<and> (m = 0 \<or> \<not> snd (slot_counts G) u \<ge> m)"
proof -
  obtain S where A: "acquire_connection (max_connections cfg) u m (eng_slots G) = (S, Inr g)"
    and r: "st = Direct a" "check_hostname_only N acl host port \<noteq> PreDeny" "check N acl host port (Some (fst a)) = Allow"
      "eng_slots G' = S"
      "\<exists>D'. connect_with_cache W host port (connection_timeout cfg) (ip_guard_enabled cfg) (eng_dns G) = (D', Inr a)"
    using assms by (auto simp: connect_checked_def Let_def split: if_splits sum.splits prod.splits)
  from acquire_ok [OF A] r show ?thesis
    by (auto simp: slot_counts_def active_connections_def)
qed

lemma connect_checked_upstream:
  assumes "check_hostname_only N acl host port \<noteq> PreDeny"
    and "acquire_connection (max_connections cfg) u m (eng_slots G) = (S, Inr g)"
    and "snd (connect_via_socks5 W proxy host port (from_secs (connection_timeout cfg))) = Inr rest"
  shows "connect_checked N W cfg u host port acl m (Some proxy) G = (G\<lparr>eng_slots := S\<rparr>, Inr (Tunnel rest, (V4 0 0 0 0, 0), g))"
  using assms by (simp add: connect_checked_def Let_def)

lemma connect_checked_success:
  assumes "connect_checked N W cfg u host port acl m up G = (G', Inr (st, a, g))"
  shows "acquire_connection (max_connections cfg) u m (eng_slots G) = (eng_slots G', Inr g)"
  using assms
  by (auto simp: connect_checked_def Let_def split: if_splits option.splits sum.splits prod.splits)

lemma connect_and_relay_slots: "slot_counts (fst (connect_and_relay N W C F cfg now evs req G)) = slot_counts G"
proof -
  obtain G1 r where R: "connect_checked N W cfg (req_username req) (req_host req) (req_port req) (req_user_acl req)
      (req_max_per_user req) (req_upstream_proxy req) G = (G1, r)" by (metis prod.collapse)
  show ?thesis
  proof (cases r)
    case (Inl e)
    with R connect_checked_fail show ?thesis by (fastforce simp: connect_and_relay_def)
  next
    case (Inr x)
    obtain st a g where x: "x = (st, a, g)" by (metis prod_cases3)
    have "slot_counts (release g G2) = slot_counts G" if "eng_slots G2 = eng_slots G1" for G2
      using release_acquired [OF connect_checked_success [OF R [unfolded Inr x]] that] .
    with R Inr x show ?thesis
      by (simp add: connect_and_relay_def Let_def case_prod_beta register_session_def unregister_session_def)
  qed
qed

subsection \<open>Sessions\<close>

datatype session_op = Register nat string string u16 string string | Unregister string

fun session_step :: "session_op \<Rightarrow> engine \<Rightarrow> engine" where
  "session_step (Register now u h p src proto) G = fst (register_session now u h p src proto G)"
| "session_step (Unregister sid) G = unregister_session sid G"

definition sid :: "nat \<Rightarrow> string" where
  "sid i = ''s'' @ show_nat i"

definition sessions_ok :: "nat \<Rightarrow> engine \<Rightarrow> bool" where
  "sessions_ok n G \<longleftrightarrow> unat (session_counter G) \<le> n \<and> dm_ok (active_sessions G)
     \<and> (\<forall>k v. map_of (active_sessions G) k = Some v \<longrightarrow> session_id v = k \<and> (\<exists>i < unat (session_counter G). k = sid i))"

lemma sessions_ok_step:
  assumes "sessions_ok n G" and "Suc n < 2 ^ 64"
  shows "sessions_ok (Suc n) (session_step op G)"
proof (cases op)
  case (Register now u h p src proto)
  have c: "unat (session_counter G + 1) = Suc (unat (session_counter G))"
    using assms by (simp add: sessions_ok_def unat_word_ariths(1))
  show ?thesis
    using assms(1) unfolding Register sessions_ok_def session_step.simps register_session_def Let_def fst_conv
    by (auto simp: c sid_def less_Suc_eq)
next
  case (Unregister k)
  with assms(1) show ?thesis by (auto simp: sessions_ok_def unregister_session_def)
qed

lemma sessions_ok_run:
  "sessions_ok n G \<Longrightarrow> n + length ops < 2 ^ 64 \<Longrightarrow> sessions_ok (n + length ops) (fold session_step ops G)"
proof (induction ops arbitrary: n G)
  case (Cons op ops)
  from Cons.IH [OF sessions_ok_step [OF Cons.prems(1)], of op] Cons.prems(2) show ?case by simp
qed simp

lemma sessions_ok_fresh: "sessions_ok n G \<Longrightarrow> map_of (active_sessions G) (sid (unat (session_counter G))) = None"
  by (cases "map_of (active_sessions G) (sid (unat (session_counter G)))") (auto simp: sessions_ok_def sid_def simp del: show_nat_inj dest: iffD1 [OF show_nat_inj])

subsection \<open>Properties\<close>

text \<open>C6: a direct connection is fully checked: if the engine returns a stream without an upstream proxy, then no
  deny rule matched before resolution, the access rules allow the host with the address actually
  connected to, the port is not zero, with the guard on the address lies in no reserved block, the
  global and the user's limit had room, and exactly one slot of the user was taken.\<close>

theorem direct_connection_checked:
  assumes "connect_checked N W cfg u host port acl m None G = (G', Inr (st, a, g))"
  shows "st = Direct a \<and> check_hostname_only N acl host port \<noteq> PreDeny \<and> check N acl host port (Some (fst a)) = Allow
     \<and> port \<noteq> 0 \<and> (ip_guard_enabled cfg \<longrightarrow> \<not> reserved_ip (fst a))
     \<and> \<not> fst (slot_counts G) \<ge> max_connections cfg \<and> (m = 0 \<or> \<not> snd (slot_counts G) u \<ge> m)
     \<and> slot_counts G' = (fst (slot_counts G) + 1, (snd (slot_counts G))(u := snd (slot_counts G) u + 1))"
proof -
  obtain D' where "connect_with_cache W host port (connection_timeout cfg) (ip_guard_enabled cfg) (eng_dns G) = (D', Inr a)"
    using connect_checked_direct [OF assms] by blast
  from connect_with_cache_ok [OF this] connect_checked_direct [OF assms] show ?thesis
    by (simp add: dangerous_iff)
qed

definition sample_engine_config :: engine_config where
  "sample_engine_config = \<lparr>max_connections = 5, connection_timeout = 10, limits_idle_timeout = 0, ip_guard_enabled = True,
     global_upstream_proxy = None, dns_cache_ttl = 60, dns_cache_max_entries = 10\<rparr>"

lemma sample_direct:
  "\<exists>G'. connect_checked sample_net sample_network sample_engine_config u ''example.org'' 80 sample_acl 1 None
      (engine_new sample_engine_config) = (G', Inr (Direct (V4 93 184 216 34, 80), (V4 93 184 216 34, 80), u))"
proof -
  have h: "hostname_matches ''example.org'' ''example.org''" by code_simp
  then have "check_hostname_only sample_net sample_acl ''example.org'' 80 = PreAllow"
    "check sample_net sample_acl ''example.org'' 80 (Some (V4 93 184 216 34)) = Allow"
    by (simp_all add: check_hostname_only_eq check_eq sample_acl_def)
  with sample_connect show ?thesis
    by (simp add: connect_checked_def engine_new_def sample_engine_config_def acquire_connection_def dm_entry_def Let_def)
qed

theorem direct_connection_checked_witness:
  "check sample_net sample_acl ''example.org'' 80 (Some (V4 93 184 216 34)) = Allow \<and> \<not> reserved_ip (V4 93 184 216 34)"
proof -
  obtain G' where "connect_checked sample_net sample_network sample_engine_config ''u'' ''example.org'' 80 sample_acl 1 None
      (engine_new sample_engine_config) = (G', Inr (Direct (V4 93 184 216 34, 80), (V4 93 184 216 34, 80), ''u''))"
    using sample_direct by blast
  from direct_connection_checked [OF this] show ?thesis by (simp add: sample_engine_config_def)
qed

text \<open>No failed connection keeps a slot: whatever goes wrong (a rule, a limit, the resolver, the connection
  attempt, the upstream handshake, the check after resolution), the global count and the count of
  every user are afterwards what they were before.\<close>

theorem failed_connection_returns_slot:
  assumes "connect_checked N W cfg u host port acl m up G = (G', Inl e)"
  shows "slot_counts G' = slot_counts G"
  using assms by (rule connect_checked_fail)

theorem failed_connection_returns_slot_witness:
  "\<exists>G' e. connect_checked sample_net sample_network sample_engine_config ''u'' ''other.org'' 80 sample_acl 1 None
      (engine_new sample_engine_config) = (G', Inl e) \<and> slot_counts G' = slot_counts (engine_new sample_engine_config)"
proof -
  have "\<not> hostname_matches ''other.org'' ''example.org''" by code_simp
  then have "check sample_net sample_acl ''other.org'' 80 (Some a) \<noteq> Allow" for a
    by (simp add: check_eq sample_acl_def)
  then obtain G' e where f: "connect_checked sample_net sample_network sample_engine_config ''u'' ''other.org'' 80 sample_acl 1 None
      (engine_new sample_engine_config) = (G', Inl e)"
    by (fastforce simp: connect_checked_def Let_def case_prod_beta split: sum.split)
  from failed_connection_returns_slot [OF f] f show ?thesis by blast
qed

text \<open>Relaying an SSH channel leaves no slot behind: after the relay, or after any failure before it, all
  connection counts are what they were, and the session is no longer listed.\<close>

theorem ssh_relay_returns_slot:
  "slot_counts (fst (connect_and_relay N W C F cfg now evs req G)) = slot_counts G
   \<and> (\<forall>up down a. snd (snd (connect_and_relay N W C F cfg now evs req G)) = Inr (up, down, a) \<longrightarrow>
        map_of (active_sessions (fst (connect_and_relay N W C F cfg now evs req G))) (sid (unat (session_counter G))) = None)"
proof -
  have [simp]: "session_counter (fst (connect_checked N W cfg u h p acl m up G)) = session_counter G" for u h p acl m up
    by (auto simp: connect_checked_def Let_def release_def case_prod_beta split: sum.splits option.splits)
  have "map_of (active_sessions (fst (connect_and_relay N W C F cfg now evs req G))) (sid (unat (session_counter G))) = None"
    if "\<exists>x. snd (snd (connect_and_relay N W C F cfg now evs req G)) = Inr x"
    using that
    by (auto simp: connect_and_relay_def Let_def case_prod_beta register_session_def unregister_session_def release_def sid_def
        split: sum.splits prod.splits)
  then show ?thesis using connect_and_relay_slots [of N W C F cfg now evs req G] by blast
qed

text \<open>The session table loses no session: as long as fewer than \<open>2^64\<close> operations were performed, a new
  session gets an identifier that no live session has, and each live session is listed under its own.\<close>

theorem session_ids_unique:
  assumes "length ops < 2 ^ 64" and "G = fold session_step ops (engine_new cfg)"
  shows "map_of (active_sessions G) (session_id (snd (register_session now u h p src proto G))) = None
     \<and> distinct (map snap_session_id (get_sessions G))"
proof -
  have "sessions_ok 0 (engine_new cfg)" by (simp add: sessions_ok_def engine_new_def)
  from sessions_ok_run [OF this, of ops] assms have ok: "sessions_ok (length ops) G" by simp
  have "map snap_session_id (get_sessions G) = map fst (active_sessions G)"
    using ok by (auto simp: get_sessions_def snapshot_def sessions_ok_def dm_ok_def)
  then show ?thesis
    using ok sessions_ok_fresh [OF ok] by (simp add: register_session_def Let_def sid_def sessions_ok_def dm_ok_def)
qed

theorem session_ids_unique_witness:
  "distinct (map snap_session_id (get_sessions (fold session_step
     [Register 1 ''a'' ''h'' 80 ''x'' ''ssh'', Register 2 ''b'' ''h'' 81 ''y'' ''ssh'', Unregister ''s0''] (engine_new sample_engine_config))))"
  using session_ids_unique [of "[Register 1 ''a'' ''h'' 80 ''x'' ''ssh'', Register 2 ''b'' ''h'' 81 ''y'' ''ssh'', Unregister ''s0'']"
      _ sample_engine_config, OF _ HOL.refl] by simp

text \<open>An upstream proxy switches a default-deny policy off: a policy that denies every host and address
  nevertheless lets the connection through an upstream proxy succeed, since the check before
  resolution defers to the one after it, which is skipped.\<close>

theorem upstream_skips_default_deny:
  "(\<forall>host port ip. check sample_net (sample_acl\<lparr>allow_rules := []\<rparr>) host port ip = Deny)
   \<and> snd (connect_checked sample_net (sample_network\<lparr>proxy_connect := \<lambda>_ _. Ready sample_peer\<rparr>)
       sample_engine_config ''u'' ''a.org'' 22 (sample_acl\<lparr>allow_rules := []\<rparr>) 1 (Some sample_proxy)
       (engine_new sample_engine_config)) = Inr (Tunnel [], (V4 0 0 0 0, 0), ''u'')"
proof
  show "\<forall>host port ip. check sample_net (sample_acl\<lparr>allow_rules := []\<rparr>) host port ip = Deny"
    by (simp add: check_eq sample_acl_def)
next
  have pre: "check_hostname_only sample_net (sample_acl\<lparr>allow_rules := []\<rparr>) ''a.org'' 22 \<noteq> PreDeny"
    by (simp add: check_hostname_only_eq sample_acl_def)
  obtain S where acq: "acquire_connection (max_connections sample_engine_config) ''u'' 1
      (eng_slots (engine_new sample_engine_config)) = (S, Inr ''u'')"
    by (simp add: engine_new_def sample_engine_config_def acquire_connection_def dm_entry_def Let_def)
  show "snd (connect_checked sample_net (sample_network\<lparr>proxy_connect := \<lambda>_ _. Ready sample_peer\<rparr>)
       sample_engine_config ''u'' ''a.org'' 22 (sample_acl\<lparr>allow_rules := []\<rparr>) 1 (Some sample_proxy)
       (engine_new sample_engine_config)) = Inr (Tunnel [], (V4 0 0 0 0, 0), ''u'')"
    by (subst connect_checked_upstream [OF pre acq, where rest = "[]"]) (simp_all add: sample_handshake)
qed

text \<open>C26: a host of 256 or more bytes passes the access rules under one name and reaches the upstream proxy under
  another: its length is cut to one byte, so a reader of the protocol takes a prefix of it for the
  host and the following two bytes for the port. A rule that denies this prefix does not deny the
  long name.\<close>

theorem upstream_length_bypass:
  assumes "validate_domain d = Inr ()" and "length pad = 254" and "host = d @ str_of (to_be_bytes q) @ pad"
    and "acl = \<lparr>default_policy = Allow, allow_rules = [], deny_rules = [HostPattern d PortAny]\<rparr>"
  shows "check N acl d q ip = Deny \<and> check_hostname_only N acl host port \<noteq> PreDeny
     \<and> read_connect_request (client_connect host port) = Inr (Domain d q, bytes_of pad @ to_be_bytes port)"
proof -
  have star: "CHR ''*'' \<notin> set d"
  proof
    assume "CHR ''*'' \<in> set d"
    then have "domain_char CHR ''*''" using validate_domain_chars [OF assms(1)] by (simp add: list_all_iff)
    then show False by (simp add: domain_char_def is_ascii_alphanumeric_def is_ascii_digit_def is_ascii_lower_def is_ascii_upper_def)
  qed
  then have m: "hostname_matches x d \<longleftrightarrow> eq_ignore_ascii_case x d" for x
    by (cases d) (auto simp: hostname_matches_def)
  have "length host = length d + 256"
    using assms(2,3) by (simp add: str_of_def to_be_bytes_def)
  then have "\<not> eq_ignore_ascii_case host d"
    using length_to_ascii_lowercase by (metis add_eq_self_zero eq_ignore_ascii_case_def zero_neq_numeral)
  then have "\<not> hostname_matches host d" "hostname_matches d d"
    by (simp_all add: m eq_ignore_ascii_case_def)
  with client_connect_wraps [OF assms(1,2)] show ?thesis
    by (simp add: assms(3,4) check_eq check_hostname_only_eq)
qed

theorem upstream_length_bypass_witness:
  "read_connect_request (client_connect (''evil.org'' @ str_of (to_be_bytes 80) @ replicate 254 CHR ''x'') 443)
     = Inr (Domain ''evil.org'' 80, bytes_of (replicate 254 CHR ''x'') @ to_be_bytes 443)"
proof -
  have v: "validate_domain ''evil.org'' = Inr ()" by code_simp
  have "length (replicate 254 CHR ''x'') = 254" by simp
  from upstream_length_bypass [OF v this HOL.refl HOL.refl, of sample_net 80 None 443] show ?thesis by blast
qed

end
