(* ===== verification/Auth.thy ===== *)
theory Auth
  imports User
begin

text \<open>
  Models \<open>src/auth/mod.rs\<close>, \<open>src/auth/password.rs\<close> (verification and the split of
  password and one-time code) and \<open>src/auth/certificate.rs\<close>. The hash, the one-time
  password and the certificate library are the fields of \<open>auth_ops\<close>. The replay map, a
  global of the source, is passed as state.
\<close>

subsection \<open>External operations\<close>

text \<open>\<open>totp_check\<close>: \<open>TOTP::new\<close> with the fixed parameters (\<^const>\<open>None\<close> if it refuses them), then
  \<open>check_current\<close> of a code at a time. \<open>cert_validates\<close>: \<open>Certificate::validate\<close> against a list
  of fingerprints: the signature of one of these keys and the validity period.\<close>

record ('h, 'cert, 'fp) auth_ops =
  hash_parse :: "string \<Rightarrow> 'h option"
  hash_verify :: "string \<Rightarrow> 'h \<Rightarrow> bool"
  totp_secret_bytes :: "string \<Rightarrow> u8 list option"
  totp_check :: "u8 list \<Rightarrow> string \<Rightarrow> nat \<Rightarrow> string \<Rightarrow> bool option"
  cert_is_user :: "'cert \<Rightarrow> bool"
  cert_validates :: "'cert \<Rightarrow> int \<Rightarrow> 'fp list \<Rightarrow> bool"
  cert_principals :: "'cert \<Rightarrow> string list"
  cert_critical_options :: "'cert \<Rightarrow> string list"
  ca_key_parse :: "string \<Rightarrow> ('fp \<times> string) option"

subsection \<open>Passwords\<close>

definition verify_password :: "('h, 'cert, 'fp, 'x) auth_ops_scheme \<Rightarrow> string \<Rightarrow> string \<Rightarrow> bool" where
  "verify_password A password hash =
     (case hash_parse A hash of None \<Rightarrow> False | Some parsed \<Rightarrow> hash_verify A password parsed)"

text \<open>\<open>str::is_char_boundary\<close> of a UTF-8 byte string.\<close>

definition is_char_boundary :: "string \<Rightarrow> nat \<Rightarrow> bool" where
  "is_char_boundary s i \<longleftrightarrow> i = 0 \<or> i = length s
     \<or> (i < length s \<and> ((of_char (s ! i) :: nat) < 128 \<or> 192 \<le> (of_char (s ! i) :: nat)))"

text \<open>\<open>extract_totp_from_password\<close>; \<^const>\<open>None\<close> is the panic of \<open>split_at\<close> off a character boundary.\<close>

definition extract_totp_from_password :: "string \<Rightarrow> (string \<times> string option) option" where
  "extract_totp_from_password combined =
     (let by_colon =
        (case rfind_char CHR '':'' combined of
           Some colon_pos \<Rightarrow>
             (let candidate_code = drop (colon_pos + 1) combined; password = take colon_pos combined in
              if length candidate_code = 6 \<and> list_all is_ascii_digit candidate_code \<and> password \<noteq> []
              then Some (password, Some candidate_code) else None)
         | None \<Rightarrow> None) in
      case by_colon of
        Some r \<Rightarrow> Some r
      | None \<Rightarrow>
          if length combined > 6 then
            (if \<not> is_char_boundary combined (length combined - 6) then None
             else
               (let password = take (length combined - 6) combined;
                    candidate_code = drop (length combined - 6) combined in
                if list_all is_ascii_digit candidate_code \<and> password \<noteq> []
                then Some (password, Some candidate_code) else Some (combined, None)))
          else Some (combined, None))"

subsection \<open>One-time codes and their replay map\<close>

type_synonym totp_map = "(string \<times> string, nat) dmap"

definition MAX_TOTP_CODES :: nat where
  "MAX_TOTP_CODES = 10000"

definition enforce_totp_hard_cap :: "nat \<Rightarrow> nat \<Rightarrow> totp_map \<Rightarrow> totp_map" where
  "enforce_totp_hard_cap max_codes now m =
     (let m1 = (if length m \<ge> max_codes then dm_retain (\<lambda>_ expiry. expiry > now) m else m) in
      if length m1 \<ge> max_codes
      then (let evict_count = max (max_codes div 10) 1 in dm_remove_all (dm_oldest (\<lambda>e. e) evict_count m1) m1)
      else m1)"

record ('net, 'pk, 'fp) auth_service =
  user_store :: "('net, 'pk) user_store"
  trusted_cas :: "('fp \<times> string) list"

text \<open>\<open>verify_totp\<close> reads the replay map and later inserts into it, with nothing held in between. \<open>totp_lookup\<close>
  is the method up to the answer of \<open>contains_key\<close>: \<^const>\<open>Some\<close> a verdict if it returns by then, \<^const>\<open>None\<close> if it
  goes on to record the code. \<open>totp_commit\<close> is that rest. \<open>verify_totp\<close> is the whole method
  when no other verification comes in between.\<close>

definition totp_lookup ::
  "('h, 'cert, 'fp, 'x) auth_ops_scheme \<Rightarrow> ('net, 'pk, 'fp) auth_service \<Rightarrow> nat \<Rightarrow> string \<Rightarrow> string \<Rightarrow> totp_map \<Rightarrow> bool option" where
  "totp_lookup A S now name code used =
     (case map_of (user_store S) name of
        None \<Rightarrow> Some False
      | Some user \<Rightarrow>
          if \<not> u_totp_enabled user then Some True
          else (case u_totp_secret user of
             None \<Rightarrow> Some False
           | Some secret \<Rightarrow>
             (case totp_secret_bytes A secret of
                None \<Rightarrow> Some False
              | Some bytes \<Rightarrow>
                  if bytes = [] then Some False
                  else (case totp_check A bytes name now code of
                     None \<Rightarrow> Some False
                   | Some valid \<Rightarrow>
                       if valid then (if dm_contains used (name, code) then Some False else None)
                       else Some False))))"

definition totp_commit :: "nat \<Rightarrow> string \<Rightarrow> string \<Rightarrow> totp_map \<Rightarrow> totp_map" where
  "totp_commit now name code used = dm_insert (name, code) (now + 60) (enforce_totp_hard_cap MAX_TOTP_CODES now used)"

definition verify_totp ::
  "('h, 'cert, 'fp, 'x) auth_ops_scheme \<Rightarrow> ('net, 'pk, 'fp) auth_service \<Rightarrow> nat \<Rightarrow> string \<Rightarrow> string \<Rightarrow> totp_map \<Rightarrow> totp_map \<times> bool" where
  "verify_totp A S now name code used =
     (case totp_lookup A S now name code used of
        Some verdict \<Rightarrow> (used, verdict)
      | None \<Rightarrow> (totp_commit now name code used, True))"

subsection \<open>Authentication\<close>

definition DUMMY_HASH :: string where
  "DUMMY_HASH = ''$argon2id$v=19$m=19456,t=2,p=1$AAAAAAAAAAAAAAAAAAAAAA$AAAAAAAAAAAAAAAAAAAAAAAAAAAAAAAAAAAAAAAAAAA''"

text \<open>\<open>verify_password\<close> together with the number of hash computations it performs: one, or none if
  the stored text is not a hash.\<close>

definition verify_counted :: "('h, 'cert, 'fp, 'x) auth_ops_scheme \<Rightarrow> string \<Rightarrow> string \<Rightarrow> bool \<times> nat" where
  "verify_counted A password hash =
     (verify_password A password hash, case hash_parse A hash of None \<Rightarrow> 0 | Some _ \<Rightarrow> 1)"

text \<open>The result of \<open>auth_password\<close> and the number of hash computations on the way.\<close>

definition auth_password ::
  "('h, 'cert, 'fp, 'x) auth_ops_scheme \<Rightarrow> ('net, 'pk, 'fp) auth_service \<Rightarrow> int \<Rightarrow> string \<Rightarrow> string \<Rightarrow> bool \<times> nat" where
  "auth_password A S now name password =
     (case map_of (user_store S) name of
        None \<Rightarrow> (let (_, n) = verify_counted A password DUMMY_HASH in (False, n))
      | Some user \<Rightarrow>
          (let (password_valid, n) =
             (case u_password_hash user of
                Some hash \<Rightarrow> verify_counted A password hash
              | None \<Rightarrow> (let (_, k) = verify_counted A password DUMMY_HASH in (False, k))) in
           if is_expired now user then (False, n) else (password_valid, n)))"

definition auth_publickey :: "('net, 'pk, 'fp) auth_service \<Rightarrow> int \<Rightarrow> string \<Rightarrow> 'pk \<Rightarrow> bool" where
  "auth_publickey S now name key =
     (case map_of (user_store S) name of
        None \<Rightarrow> False
      | Some user \<Rightarrow>
          if is_expired now user then False
          else if key_matches_parsed key (u_parsed_authorized_keys user) then True
          else False)"

fun critical_options_known :: "string list \<Rightarrow> bool" where
  "critical_options_known [] = True"
| "critical_options_known (n # ns) =
     (if n \<notin> {''force-command'', ''source-address'', ''verify-required''} then False else critical_options_known ns)"

definition verify_certificate ::
  "('h, 'cert, 'fp, 'x) auth_ops_scheme \<Rightarrow> int \<Rightarrow> 'cert \<Rightarrow> ('fp \<times> string) list \<Rightarrow> string \<Rightarrow> bool" where
  "verify_certificate A now cert cas name =
     (if cas = [] then False
      else if \<not> cert_is_user A cert then False
      else if \<not> cert_validates A cert now (map fst cas) then False
      else if cert_principals A cert \<noteq> [] \<and> \<not> list_ex (\<lambda>p. p = name) (cert_principals A cert) then False
      else critical_options_known (cert_critical_options A cert))"

definition auth_publickey_certificate ::
  "('h, 'cert, 'fp, 'x) auth_ops_scheme \<Rightarrow> ('net, 'pk, 'fp) auth_service \<Rightarrow> int \<Rightarrow> string \<Rightarrow> 'cert \<Rightarrow> bool" where
  "auth_publickey_certificate A S now name cert =
     (if trusted_cas S = [] then False
      else case map_of (user_store S) name of
        None \<Rightarrow> False
      | Some user \<Rightarrow> if is_expired now user then False else verify_certificate A now cert (trusted_cas S) name)"

definition parse_trusted_ca_keys :: "('h, 'cert, 'fp, 'x) auth_ops_scheme \<Rightarrow> string list \<Rightarrow> ('fp \<times> string) list" where
  "parse_trusted_ca_keys A ca_lines =
     List.map_filter (\<lambda>raw. let line = trim_str raw in
       if line = [] \<or> hd line = CHR ''#'' then None else ca_key_parse A line) ca_lines"

definition auth_new ::
  "('net, 'x) ipnet_ops_scheme \<Rightarrow> ('pk, 'y) user_ops_scheme \<Rightarrow> ('h, 'cert, 'fp, 'z) auth_ops_scheme \<Rightarrow> 'net user_config list
     \<Rightarrow> group_config list \<Rightarrow> global_acl_config \<Rightarrow> server_defaults \<Rightarrow> string list \<Rightarrow> user_error + ('net, 'pk, 'fp) auth_service" where
  "auth_new N U A users groups ga D ca_lines =
     (case user_store_from_config N U users groups ga D [] of
        Inl e \<Rightarrow> Inl e
      | Inr st \<Rightarrow> Inr \<lparr>user_store = st, trusted_cas = parse_trusted_ca_keys A ca_lines\<rparr>)"

text \<open>\<open>reload\<close>: on an error of the new configuration the service keeps its users and keys.\<close>

definition auth_reload ::
  "('net, 'x) ipnet_ops_scheme \<Rightarrow> ('pk, 'y) user_ops_scheme \<Rightarrow> ('h, 'cert, 'fp, 'z) auth_ops_scheme \<Rightarrow> 'net user_config list
     \<Rightarrow> group_config list \<Rightarrow> global_acl_config \<Rightarrow> server_defaults \<Rightarrow> string list \<Rightarrow> ('net, 'pk, 'fp) auth_service
     \<Rightarrow> ('net, 'pk, 'fp) auth_service \<times> (user_error + unit)" where
  "auth_reload N U A users groups ga D ca_lines S =
     (case user_store_from_config N U users groups ga D [] of
        Inl e \<Rightarrow> (S, Inl e)
      | Inr st \<Rightarrow> (S\<lparr>user_store := st, trusted_cas := parse_trusted_ca_keys A ca_lines\<rparr>, Inr ()))"

subsection \<open>The replay map as a machine\<close>

type_synonym totp_call = "nat \<times> string \<times> string"

definition totp_step ::
  "('h, 'cert, 'fp, 'x) auth_ops_scheme \<Rightarrow> ('net, 'pk, 'fp) auth_service \<Rightarrow> totp_call \<Rightarrow> totp_map \<Rightarrow> totp_map" where
  "totp_step A S c used = (case c of (now, name, code) \<Rightarrow> fst (verify_totp A S now name code used))"

definition totp_ok :: "totp_map \<Rightarrow> bool" where
  "totp_ok m \<longleftrightarrow> dm_ok m \<and> length m \<le> MAX_TOTP_CODES"

lemma hard_cap_room:
  assumes "dm_ok m" and "length m \<le> n" and "0 < n"
  shows "length (enforce_totp_hard_cap n now m) < n \<and> dm_ok (enforce_totp_hard_cap n now m)"
proof -
  let ?m = "if length m \<ge> n then dm_retain (\<lambda>_ expiry. expiry > now) m else m"
  have m: "dm_ok ?m" "length ?m \<le> n" using assms le_trans [OF length_dm_retain_le] by auto
  show ?thesis
    using m assms(3) by (auto simp: enforce_totp_hard_cap_def Let_def length_evict simp del: if_split split: if_split_asm)
qed

lemma verify_totp_eq:
  "verify_totp A S now name code used =
     (if snd (verify_totp A S now name code used) \<and> (\<exists>u. map_of (user_store S) name = Some u \<and> u_totp_enabled u)
      then (dm_insert (name, code) (now + 60) (enforce_totp_hard_cap MAX_TOTP_CODES now used), True)
      else (used, snd (verify_totp A S now name code used)))"
  by (auto simp: verify_totp_def totp_lookup_def totp_commit_def split: option.splits)

lemma verify_totp_fresh:
  assumes "map_of (user_store S) name = Some u" and "u_totp_enabled u" and "snd (verify_totp A S now name code used)"
  shows "\<not> dm_contains used (name, code)"
  using assms by (auto simp: verify_totp_def totp_lookup_def split: option.splits if_splits)

lemma totp_step_ok: "totp_ok m \<Longrightarrow> totp_ok (totp_step A S c m)"
proof -
  assume m: "totp_ok m"
  obtain now name code where c: "c = (now, name, code)" by (cases c) auto
  have "length (enforce_totp_hard_cap MAX_TOTP_CODES now m) < MAX_TOTP_CODES
      \<and> dm_ok (enforce_totp_hard_cap MAX_TOTP_CODES now m)"
    using m by (intro hard_cap_room) (simp_all add: totp_ok_def MAX_TOTP_CODES_def)
  with m show ?thesis
    unfolding totp_step_def c prod.case by (subst verify_totp_eq) (auto simp: totp_ok_def length_dm_insert)
qed

interpretation totp: machine "totp_step A S" totp_ok for A S
  by unfold_locales (rule totp_step_ok)

text \<open>The successful verifications of one user's code in a run.\<close>

fun totp_hits ::
  "('h, 'cert, 'fp, 'x) auth_ops_scheme \<Rightarrow> ('net, 'pk, 'fp) auth_service \<Rightarrow> string \<Rightarrow> string \<Rightarrow> totp_call list \<Rightarrow> totp_map \<Rightarrow> nat" where
  "totp_hits A S name code [] used = 0"
| "totp_hits A S name code ((now, n, c) # calls) used =
     (if n = name \<and> c = code \<and> snd (verify_totp A S now n c used) then 1 else 0)
     + totp_hits A S name code calls (fst (verify_totp A S now n c used))"

lemma hard_cap_id: "length m < n \<Longrightarrow> enforce_totp_hard_cap n now m = m"
  by (simp add: enforce_totp_hard_cap_def Let_def)

lemma totp_hits_bound:
  assumes "map_of (user_store S) name = Some u" and "u_totp_enabled u"
    and "length used + length calls \<le> MAX_TOTP_CODES"
  shows "totp_hits A S name code calls used \<le> (if dm_contains used (name, code) then 0 else 1)"
  using assms(3)
proof (induction calls arbitrary: used)
  case (Cons call calls)
  obtain now n c where call: "call = (now, n, c)" by (cases call) auto
  let ?r = "verify_totp A S now n c used"
  have cap: "enforce_totp_hard_cap MAX_TOTP_CODES now used = used"
    using Cons.prems by (intro hard_cap_id) simp
  have st: "fst ?r = used \<or> fst ?r = dm_insert (n, c) (now + 60) used"
    using verify_totp_eq [of A S now n c used] cap by (metis fst_conv)
  then have "length (fst ?r) + length calls \<le> MAX_TOTP_CODES"
    using Cons.prems by (auto simp: length_dm_insert)
  note ih = Cons.IH [OF this]
  show ?case
  proof (cases "n = name \<and> c = code \<and> snd ?r")
    case True
    then have "\<not> dm_contains used (name, code)" using verify_totp_fresh [OF assms(1,2)] by blast
    moreover have "dm_contains (fst ?r) (name, code)"
      using True assms(1,2) verify_totp_eq [of A S now n c used] cap by (metis dm_contains_insert fst_conv)
    ultimately show ?thesis using ih True by (simp add: call)
  next
    case False
    have "dm_contains used (name, code) \<Longrightarrow> dm_contains (fst ?r) (name, code)" using st by auto
    then show ?thesis using ih False by (auto simp: call split: if_splits)
  qed
qed simp

subsection \<open>Splitting the password\<close>

lemma rfind_char_Some: "rfind_char c s = Some i \<Longrightarrow> i < length s \<and> s ! i = c \<and> c \<notin> set (drop (Suc i) s)"
proof (induction s arbitrary: i)
  case (Cons x s)
  show ?case
  proof (cases "rfind_char c s")
    case None
    then have "c \<notin> set s"
    proof (induction s)
      case (Cons y s)
      then show ?case by (auto split: option.splits if_splits)
    qed simp
    with None Cons.prems show ?thesis by (auto split: if_splits)
  next
    case (Some j)
    with Cons show ?thesis by auto
  qed
qed simp

lemma take_drop_nth: "i < length s \<Longrightarrow> s = take i s @ s ! i # drop (Suc i) s"
  by (rule id_take_nth_drop)

text \<open>Library operations and a service with one user, for the witnesses.\<close>

definition sample_auth_ops :: "(string, unit, unit) auth_ops" where
  "sample_auth_ops =
     \<lparr>hash_parse = Some, hash_verify = (=), totp_secret_bytes = (\<lambda>_. Some [1]),
        totp_check = (\<lambda>_ _ _ code. Some (code = ''123456'')), cert_is_user = (\<lambda>_. True), cert_validates = (\<lambda>_ _ _. True),
        cert_principals = (\<lambda>_. []), cert_critical_options = (\<lambda>_. []), ca_key_parse = (\<lambda>_. None)\<rparr>"

definition sample_auth :: "(ipaddr, unit, unit) auth_service" where
  "sample_auth = \<lparr>user_store = [(''al'', sample_user)], trusted_cas = [((), ''ca'')]\<rparr>"

subsection \<open>Properties\<close>

text \<open>C17: a one-time code works once. For a user with one-time codes enabled, in any sequence of at
  most 10000 verifications by any users, at any times, at most one verification of a given
  code of that user succeeds.\<close>

theorem totp_code_once:
  assumes "map_of (user_store S) name = Some u" and "u_totp_enabled u" and "length calls \<le> 10000"
  shows "totp_hits A S name code calls [] \<le> 1"
  using totp_hits_bound [OF assms(1,2), of "[]" calls A code] assms(3)
  by (simp add: MAX_TOTP_CODES_def dm_contains_def)

theorem totp_code_once_witness:
  "totp_hits sample_auth_ops sample_auth ''al'' ''123456'' [(0, ''al'', ''123456''), (5, ''al'', ''123456'')] [] \<le> 1"
  by (rule totp_code_once [where u = sample_user]) (simp_all add: sample_auth_def sample_user_def)

text \<open>Between the two halves the code is not protected: verifications that have all read the replay map before the
  first of them records its code are all accepted, while one after the other only the first would be.\<close>

theorem totp_race:
  assumes "totp_lookup A S t1 name code used = None" and "totp_lookup A S t2 name code used = None"
  shows "dm_contains (totp_commit t2 name code (totp_commit t1 name code used)) (name, code)
       \<and> \<not> snd (verify_totp A S t2 name code (fst (verify_totp A S t1 name code used)))"
proof -
  have first: "fst (verify_totp A S t1 name code used) = totp_commit t1 name code used"
    using assms(1) by (simp add: verify_totp_def)
  have "totp_lookup A S t2 name code (totp_commit t1 name code used) = Some False"
    using assms(2) by (auto simp: totp_lookup_def totp_commit_def split: option.splits if_splits)
  then have "\<not> snd (verify_totp A S t2 name code (totp_commit t1 name code used))" by (simp add: verify_totp_def)
  moreover have "dm_contains (totp_commit t2 name code (totp_commit t1 name code used)) (name, code)" by (simp add: totp_commit_def)
  ultimately show ?thesis by (simp add: first)
qed

theorem totp_race_example:
  "totp_lookup sample_auth_ops sample_auth 0 ''al'' ''123456'' [] = None
   \<and> \<not> snd (verify_totp sample_auth_ops sample_auth 1 ''al'' ''123456'' (fst (verify_totp sample_auth_ops sample_auth 0 ''al'' ''123456'' [])))"
proof -
  have "totp_lookup sample_auth_ops sample_auth t ''al'' ''123456'' [] = None" for t
    by (simp add: totp_lookup_def sample_auth_def sample_user_def sample_auth_ops_def dm_contains_def)
  from totp_race [OF this this, of 1 0] this show ?thesis by simp
qed

text \<open>The replay map is bounded: it never holds more than 10000 codes.\<close>

theorem totp_map_bounded: "length (fold (totp_step A S) calls []) \<le> 10000"
proof -
  have "totp_ok (fold (totp_step A S) calls [])" by (rule totp.run_inv) (simp add: totp_ok_def)
  then show ?thesis by (simp add: totp_ok_def MAX_TOTP_CODES_def)
qed

text \<open>C21: Password authentication succeeds exactly for a known, unexpired user with a password hash
  that the password satisfies; and whoever asks, it computes exactly one hash, provided the dummy
  hash and the stored hash are well formed, so that the time does not tell whether the user exists,
  has a password or is expired.\<close>

theorem auth_password_uniform:
  assumes "hash_parse A DUMMY_HASH \<noteq> None"
    and "\<And>u h. map_of (user_store S) name = Some u \<Longrightarrow> u_password_hash u = Some h \<Longrightarrow> hash_parse A h \<noteq> None"
  shows "(fst (auth_password A S now name pw) \<longleftrightarrow>
            (\<exists>u h. map_of (user_store S) name = Some u \<and> u_password_hash u = Some h \<and> verify_password A pw h
               \<and> \<not> is_expired now u))
       \<and> snd (auth_password A S now name pw) = 1"
proof (cases "map_of (user_store S) name")
  case None
  then show ?thesis using assms(1) by (auto simp: auth_password_def verify_counted_def)
next
  case (Some u)
  have "hash_parse A h \<noteq> None" if "u_password_hash u = Some h" for h using assms(2) Some that by blast
  with Some assms(1) show ?thesis
    by (cases "u_password_hash u") (auto simp: auth_password_def verify_counted_def)
qed

theorem auth_password_uniform_witness:
  "snd (auth_password sample_auth_ops sample_auth 0 ''nobody'' ''x'') = 1"
  by (rule auth_password_uniform [THEN conjunct2]) (simp_all add: sample_auth_ops_def)

text \<open>A certificate authenticates a user only if a trusted authority signed it and it is in its
  validity period, it is a user certificate, it names the user or no principal at all, it has no
  unknown critical option, and the account exists and has not expired.\<close>

theorem certificate_auth_sound:
  assumes "auth_publickey_certificate A S now name cert"
  shows "trusted_cas S \<noteq> [] \<and> cert_validates A cert now (map fst (trusted_cas S)) \<and> cert_is_user A cert
       \<and> (cert_principals A cert = [] \<or> name \<in> set (cert_principals A cert))
       \<and> set (cert_critical_options A cert) \<subseteq> {''force-command'', ''source-address'', ''verify-required''}
       \<and> (\<exists>u. map_of (user_store S) name = Some u \<and> \<not> is_expired now u)"
proof -
  have "critical_options_known ns \<longleftrightarrow> set ns \<subseteq> {''force-command'', ''source-address'', ''verify-required''}" for ns
    by (induction ns) auto
  with assms show ?thesis
    by (auto simp: auth_publickey_certificate_def verify_certificate_def list_ex_iff split: if_splits option.splits)
qed

theorem certificate_auth_sound_witness:
  "trusted_cas sample_auth \<noteq> [] \<and> (\<exists>u. map_of (user_store sample_auth) ''al'' = Some u \<and> \<not> is_expired 0 u)"
proof -
  have "auth_publickey_certificate sample_auth_ops sample_auth 0 ''al'' ()"
    by (simp add: auth_publickey_certificate_def verify_certificate_def sample_auth_def sample_auth_ops_def sample_user_def is_expired_def)
  from certificate_auth_sound [OF this] show ?thesis by blast
qed

text \<open>Splitting a combined password never invents anything: a returned code has six digits, and
  the combined text is the non-empty password followed by the code, with at most a colon between.\<close>

theorem extract_totp_sound:
  assumes "extract_totp_from_password s = Some (pw, Some code)"
  shows "length code = 6 \<and> list_all is_ascii_digit code \<and> pw \<noteq> [] \<and> (s = pw @ '':'' @ code \<or> s = pw @ code)"
proof (cases "rfind_char CHR '':'' s")
  case None
  with assms show ?thesis by (auto simp: extract_totp_from_password_def Let_def split: if_splits)
next
  case (Some i)
  then have split: "s = take i s @ CHR '':'' # drop (Suc i) s" using rfind_char_Some take_drop_nth by metis
  show ?thesis
  proof (cases "length (drop (Suc i) s) = 6 \<and> list_all is_ascii_digit (drop (Suc i) s) \<and> take i s \<noteq> []")
    case True
    with Some assms have "pw = take i s" "code = drop (Suc i) s"
      by (simp_all add: extract_totp_from_password_def Let_def)
    with True split show ?thesis by simp
  next
    case False
    with Some assms show ?thesis
      by (auto simp: extract_totp_from_password_def Let_def split: if_splits)
  qed
qed

theorem extract_totp_sound_witness:
  "length ''123456'' = 6 \<and> ''pw:123456'' = ''pw'' @ '':'' @ ''123456''"
proof -
  have "extract_totp_from_password ''pw:123456'' = Some (''pw'', Some ''123456'')" by code_simp
  from extract_totp_sound [OF this] show ?thesis by simp
qed

text \<open>A password of a user with one-time codes can panic the server: \<open>split_at(len - 6)\<close> panics
  when that offset is inside a multi-byte character, as in \<open>a\<close>, an e with an acute accent
  (bytes C3 A9) and five digits.\<close>

theorem extract_totp_panics:
  "valid_utf8 [0x61, 0xC3, 0xA9, 0x31, 0x32, 0x33, 0x34, 0x35]
   \<and> extract_totp_from_password (str_of [0x61, 0xC3, 0xA9, 0x31, 0x32, 0x33, 0x34, 0x35]) = None"
  by code_simp

text \<open>A reload that fails changes nothing, and one that succeeds replaces the users and the trusted
  authorities by exactly those a restart with the new configuration would load.\<close>

theorem auth_reload_atomic:
  "auth_reload N U A users groups ga D cas S =
     (case auth_new N U A users groups ga D cas of Inl e \<Rightarrow> (S, Inl e) | Inr S' \<Rightarrow> (S', Inr ()))"
  by (simp add: auth_reload_def auth_new_def split: sum.split)

end
