(* ===== verification/Ban.thy ===== *)
theory Ban
  imports Ip_Guard
begin

text \<open>
  Models \<open>src/security/ban.rs\<close>: failure time stamps per address, bans with an expiry, the
  capacity bound and the periodic cleanup. Every operation takes its clock reading as an
  argument. Their audit records are in \<open>Observe_Engine\<close>.
\<close>

subsection \<open>Model\<close>

record 'net ban_manager =
  failures :: "(ipaddr, instant list) dmap"
  bans :: "(ipaddr, instant) dmap"
  threshold :: u32
  window :: duration
  ban_duration :: duration
  whitelist :: "'net list"
  ban_enabled :: bool

fun parse_whitelist :: "('net, 'x) ipnet_ops_scheme \<Rightarrow> string list \<Rightarrow> 'net list" where
  "parse_whitelist N [] = []"
| "parse_whitelist N (s # ss) =
     (case net_parse N s of
        Some net \<Rightarrow> net # parse_whitelist N ss
      | None \<Rightarrow>
        (case parse_ip s of
           Some ip \<Rightarrow> net_of_ip N ip # parse_whitelist N ss
         | None \<Rightarrow> parse_whitelist N ss))"

definition ban_new ::
  "('net, 'x) ipnet_ops_scheme \<Rightarrow> bool \<Rightarrow> u32 \<Rightarrow> nat \<Rightarrow> nat \<Rightarrow> string list \<Rightarrow> 'net ban_manager" where
  "ban_new N en th window_secs duration_secs wl =
     \<lparr>failures = [], bans = [], threshold = th, window = from_secs window_secs,
      ban_duration = from_secs duration_secs, whitelist = parse_whitelist N wl, ban_enabled = en\<rparr>"

definition ban_update_config ::
  "('net, 'x) ipnet_ops_scheme \<Rightarrow> bool \<Rightarrow> u32 \<Rightarrow> nat \<Rightarrow> nat \<Rightarrow> string list \<Rightarrow> 'net ban_manager \<Rightarrow> 'net ban_manager" where
  "ban_update_config N en th window_secs duration_secs wl B =
     B\<lparr>ban_enabled := en, threshold := th, window := from_secs window_secs,
       ban_duration := from_secs duration_secs, whitelist := parse_whitelist N wl\<rparr>"

definition is_whitelisted :: "('net, 'x) ipnet_ops_scheme \<Rightarrow> 'net ban_manager \<Rightarrow> ipaddr \<Rightarrow> bool" where
  "is_whitelisted N B ip = list_ex (\<lambda>net. net_contains N net ip) (whitelist B)"

text \<open>The stored time stamps of an address after one more failure: those inside the window, cut to the
  cap from the front, and the new one.\<close>

definition push_failure :: "u32 \<Rightarrow> duration \<Rightarrow> instant \<Rightarrow> instant list \<Rightarrow> instant list" where
  "push_failure th win now fs =
     (let kept = filter (\<lambda>t. now - t < win) fs;
          max_entries = max (unat th * 2) 10;
          cut = (if length kept \<ge> max_entries then drop (length kept - max_entries + 1) kept else kept)
      in cut @ [now])"

definition record_failure :: "('net, 'x) ipnet_ops_scheme \<Rightarrow> instant \<Rightarrow> ipaddr \<Rightarrow> 'net ban_manager \<Rightarrow> 'net ban_manager" where
  "record_failure N now ip B =
     (if \<not> ban_enabled B \<or> is_whitelisted N B ip then B
      else if \<not> dm_contains (failures B) ip \<and> length (failures B) \<ge> 100000 then B
      else
        (let (m, fs) = dm_entry ip [] (failures B);
             fs' = push_failure (threshold B) (window B) now fs in
         if length fs' \<ge> unat (threshold B)
         then B\<lparr>failures := dm_insert ip [] m, bans := dm_insert ip (now + ban_duration B) (bans B)\<rparr>
         else B\<lparr>failures := dm_insert ip fs' m\<rparr>))"

definition is_banned :: "('net, 'x) ipnet_ops_scheme \<Rightarrow> instant \<Rightarrow> ipaddr \<Rightarrow> 'net ban_manager \<Rightarrow> 'net ban_manager \<times> bool" where
  "is_banned N now ip B =
     (if \<not> ban_enabled B \<or> is_whitelisted N B ip then (B, False)
      else case map_of (bans B) ip of
        Some expiry \<Rightarrow>
          if now \<ge> expiry then (B\<lparr>bans := dm_remove ip (bans B)\<rparr>, False) else (B, True)
      | None \<Rightarrow> (B, False))"

definition ban_ip :: "instant \<Rightarrow> ipaddr \<Rightarrow> duration \<Rightarrow> 'net ban_manager \<Rightarrow> 'net ban_manager" where
  "ban_ip now ip dur B = B\<lparr>bans := dm_insert ip (now + dur) (bans B)\<rparr>"

definition unban :: "ipaddr \<Rightarrow> 'net ban_manager \<Rightarrow> 'net ban_manager \<times> bool" where
  "unban ip B = (B\<lparr>bans := dm_remove ip (bans B)\<rparr>, dm_contains (bans B) ip)"

definition banned_ips :: "instant \<Rightarrow> 'net ban_manager \<Rightarrow> (ipaddr \<times> instant) list" where
  "banned_ips now B = filter (\<lambda>(_, expiry). now < expiry) (bans B)"

definition cleanup_stale_failures :: "instant \<Rightarrow> 'net ban_manager \<Rightarrow> 'net ban_manager" where
  "cleanup_stale_failures now B =
     B\<lparr>failures := dm_retain (\<lambda>_ fs. fs \<noteq> [])
          (map (\<lambda>(ip, fs). (ip, filter (\<lambda>t. now - t < window B) fs)) (failures B)),
       bans := dm_retain (\<lambda>_ expiry. now < expiry) (bans B)\<rparr>"

subsection \<open>The manager as a machine\<close>

datatype ban_op = OpFail ipaddr | OpCheck ipaddr | OpBan ipaddr duration | OpUnban ipaddr | OpCleanup

fun ban_step :: "('net, 'x) ipnet_ops_scheme \<Rightarrow> instant \<times> ban_op \<Rightarrow> 'net ban_manager \<Rightarrow> 'net ban_manager" where
  "ban_step N (now, OpFail ip) B = record_failure N now ip B"
| "ban_step N (now, OpCheck ip) B = fst (is_banned N now ip B)"
| "ban_step N (now, OpBan ip d) B = ban_ip now ip d B"
| "ban_step N (now, OpUnban ip) B = fst (unban ip B)"
| "ban_step N (now, OpCleanup) B = cleanup_stale_failures now B"

text \<open>The invariant: distinct keys, at most 100000 tracked addresses, and fewer stored failures per
  address than the threshold (reaching it bans and clears).\<close>

definition ban_ok :: "'net ban_manager \<Rightarrow> bool" where
  "ban_ok B \<longleftrightarrow> dm_ok (failures B) \<and> dm_ok (bans B) \<and> length (failures B) \<le> 100000
     \<and> (\<forall>ip fs. map_of (failures B) ip = Some fs \<longrightarrow> length fs < max 1 (unat (threshold B)))"

lemma dm_ok_map: "dm_ok (map (\<lambda>(k, v). (k, f k v)) m) = dm_ok m"
  by (simp add: dm_ok_def comp_def case_prod_beta)

lemma map_of_map_key: "map_of (map (\<lambda>(k, v). (k, f v)) m) k = map_option f (map_of m k)"
  by (induction m) auto

lemma map_of_cleanup:
  "dm_ok (failures B) \<Longrightarrow> map_of (failures (cleanup_stale_failures now B)) ip =
     (case map_of (failures B) ip of None \<Rightarrow> None
      | Some fs \<Rightarrow> if filter (\<lambda>t. now - t < window B) fs = [] then None else Some (filter (\<lambda>t. now - t < window B) fs))"
  using map_of_dm_retain [of "map (\<lambda>(ip, fs). (ip, filter (\<lambda>t. now - t < window B) fs)) (failures B)" "\<lambda>_ fs. fs \<noteq> []" ip]
  by (auto simp: cleanup_stale_failures_def dm_ok_map map_of_map_key split: option.splits)

lemma ban_ok_cleanup: "ban_ok B \<Longrightarrow> ban_ok (cleanup_stale_failures now B)"
proof -
  assume ok: "ban_ok B"
  let ?m = "map (\<lambda>(ip, fs). (ip, filter (\<lambda>t. now - t < window B) fs)) (failures B)"
  have "dm_ok (dm_retain (\<lambda>_ fs. fs \<noteq> []) ?m)" using ok by (simp add: ban_ok_def dm_ok_map)
  moreover have "length (dm_retain (\<lambda>_ fs. fs \<noteq> []) ?m) \<le> 100000"
    using ok length_dm_retain_le [of "\<lambda>_ fs. fs \<noteq> []" ?m] by (simp add: ban_ok_def)
  moreover have "length (filter P fs) < max 1 (unat (threshold B))"
    if "map_of (failures B) ip = Some fs" for ip fs and P :: "nat \<Rightarrow> bool"
    using ok that length_filter_le [of P fs] unfolding ban_ok_def by (meson le_less_trans)
  ultimately show ?thesis
    using ok map_of_cleanup [of B now]
    by (auto simp: ban_ok_def cleanup_stale_failures_def split: option.splits if_splits)
qed

lemma ban_ok_record: "ban_ok B \<Longrightarrow> ban_ok (record_failure N now ip B)"
proof -
  assume ok: "ban_ok B"
  have "length (dm_insert ip x (fst (dm_entry ip [] (failures B)))) \<le> 100000"
    if "dm_contains (failures B) ip \<or> length (failures B) < 100000" for x
    using ok that by (auto simp: ban_ok_def length_dm_insert dm_entry_def dm_contains_map_of split: option.splits)
  with ok show ?thesis
    by (auto simp: record_failure_def ban_ok_def Let_def case_prod_beta)
qed

lemma ban_ok_step: "ban_ok B \<Longrightarrow> ban_ok (ban_step N e B)"
  by (cases e; cases "snd e")
     (auto simp: ban_ok_record ban_ok_cleanup, auto simp: ban_ok_def is_banned_def ban_ip_def unban_def split: option.splits)

interpretation ban: machine "ban_step N" ban_ok for N
  by unfold_locales (rule ban_ok_step)

lemma ban_ok_new: "ban_ok (ban_new N en th w d wl)"
  by (simp add: ban_ok_def ban_new_def)

subsection \<open>Reaching the threshold\<close>

abbreviation ban_conf :: "'net ban_manager \<Rightarrow> u32 \<times> duration \<times> duration \<times> 'net list \<times> bool" where
  "ban_conf B \<equiv> (threshold B, window B, ban_duration B, whitelist B, ban_enabled B)"

lemma ban_conf_step: "ban_conf (ban_step N e B) = ban_conf B"
  by (cases e; cases "snd e")
     (auto simp: record_failure_def is_banned_def ban_ip_def unban_def cleanup_stale_failures_def Let_def case_prod_beta
       split: option.splits)

lemma is_whitelisted_step: "is_whitelisted N (ban_step N e B) ip = is_whitelisted N B ip"
  using ban_conf_step [of N e B] by (simp add: is_whitelisted_def)

lemma length_failures_step: "length (failures (ban_step N e B)) \<le> Suc (length (failures B))"
proof -
  have "length (failures (cleanup_stale_failures now B)) \<le> Suc (length (failures B))" for now
    by (simp add: cleanup_stale_failures_def le_SucI le_trans [OF length_dm_retain_le])
  then show ?thesis
    by (cases e; cases "snd e")
       (auto simp: record_failure_def is_banned_def ban_ip_def unban_def Let_def case_prod_beta length_dm_insert
         dm_entry_def dm_contains_map_of split: option.splits)
qed

text \<open>Either a ban that lasts at least \<open>dur\<close> past \<open>t0\<close> stands, or \<open>k\<close> failures since \<open>t0\<close> are on record.\<close>

definition progress :: "instant \<Rightarrow> ipaddr \<Rightarrow> nat \<Rightarrow> 'net ban_manager \<Rightarrow> bool" where
  "progress t0 ip k B \<longleftrightarrow>
     (\<exists>e. map_of (bans B) ip = Some e \<and> t0 + ban_duration B \<le> e) \<or>
     (k < unat (threshold B) \<and> k \<le> length (filter (\<lambda>t. t0 \<le> t) (case map_of (failures B) ip of Some fs \<Rightarrow> fs | None \<Rightarrow> [])))"

definition interferes :: "ipaddr \<Rightarrow> ban_op \<Rightarrow> bool" where
  "interferes ip a = (case a of OpBan i _ \<Rightarrow> i = ip | OpUnban i \<Rightarrow> i = ip | _ \<Rightarrow> False)"

lemma push_failure_small:
  "length fs < max 1 (unat th) \<Longrightarrow> push_failure th w now fs = filter (\<lambda>t. now - t < w) fs @ [now]"
proof -
  assume "length fs < max 1 (unat th)"
  then have "\<not> max (unat th * 2) 10 \<le> length (filter (\<lambda>t. now - t < w) fs)"
    using length_filter_le [of "\<lambda>t. now - t < w" fs] by linarith
  then show ?thesis unfolding push_failure_def Let_def by (simp only: if_False)
qed

lemma filter_window:
  "t - t0 < w \<Longrightarrow> filter (\<lambda>x. t0 \<le> x) (filter (\<lambda>x. t - x < w) fs) = filter (\<lambda>x. t0 \<le> x) fs" for t :: nat
  by (auto simp: filter_filter intro!: filter_cong)

lemma progress_fail:
  assumes ok: "ban_ok B" and en: "ban_enabled B" "\<not> is_whitelisted N B ip" and cap: "length (failures B) < 100000"
    and t: "t0 \<le> t" "t - t0 < window B" and pr: "progress t0 ip k B"
  shows "progress t0 ip (Suc k) (record_failure N t ip B)"
proof -
  let ?fs = "case map_of (failures B) ip of Some fs \<Rightarrow> fs | None \<Rightarrow> []"
  let ?fs' = "filter (\<lambda>x. t - x < window B) ?fs @ [t]"
  have "length ?fs < max 1 (unat (threshold B))" using ok by (auto simp: ban_ok_def split: option.splits)
  then have push: "push_failure (threshold B) (window B) t ?fs = ?fs'" by (rule push_failure_small)
  have cnt: "length (filter (\<lambda>x. t0 \<le> x) ?fs') = Suc (length (filter (\<lambda>x. t0 \<le> x) ?fs))"
    using t by (simp only: filter_append filter_window) simp
  have rec: "record_failure N t ip B =
      (let m = fst (dm_entry ip [] (failures B)) in
       if unat (threshold B) \<le> length ?fs'
       then B\<lparr>failures := dm_insert ip [] m, bans := dm_insert ip (t + ban_duration B) (bans B)\<rparr>
       else B\<lparr>failures := dm_insert ip ?fs' m\<rparr>)"
    using en cap push by (simp add: record_failure_def Let_def case_prod_beta snd_dm_entry)
  show ?thesis
  proof (cases "unat (threshold B) \<le> length ?fs'")
    case True
    then show ?thesis using t by (simp add: rec progress_def Let_def)
  next
    case False
    have "length (filter (\<lambda>x. t0 \<le> x) ?fs') \<le> length ?fs'" by (rule length_filter_le)
    then show ?thesis
      using False pr cnt by (simp add: rec progress_def Let_def) (auto split: option.splits)
  qed
qed

lemma progress_other:
  assumes "ban_ok B" and "t - t0 < window B" and "t < t0 + ban_duration B"
    and "progress t0 ip k B" and "a \<noteq> OpFail ip" and "\<not> interferes ip a"
  shows "progress t0 ip k (ban_step N (t, a) B)"
proof (cases a)
  case (OpFail i)
  with assms show ?thesis
    by (auto simp: progress_def record_failure_def Let_def case_prod_beta)
next
  case (OpCheck i)
  with assms show ?thesis
    by (auto simp: progress_def is_banned_def split: option.splits if_splits)
next
  case OpCleanup
  have f: "filter (\<lambda>x. t0 \<le> x) (filter (\<lambda>x. t - x < window B) fs) = filter (\<lambda>x. t0 \<le> x) fs" for fs
    using assms(2) by (rule filter_window)
  have b: "map_of (bans (cleanup_stale_failures t B)) ip =
      (case map_of (bans B) ip of Some e \<Rightarrow> if t < e then Some e else None | None \<Rightarrow> None)"
    using assms(1) by (simp add: cleanup_stale_failures_def map_of_dm_retain ban_ok_def)
  have same: "threshold (cleanup_stale_failures t B) = threshold B"
    "ban_duration (cleanup_stale_failures t B) = ban_duration B" by (simp_all add: cleanup_stale_failures_def)
  have "length (filter (\<lambda>x. t0 \<le> x) (case map_of (failures (cleanup_stale_failures t B)) ip of Some fs \<Rightarrow> fs | None \<Rightarrow> []))
      = length (filter (\<lambda>x. t0 \<le> x) (case map_of (failures B) ip of Some fs \<Rightarrow> fs | None \<Rightarrow> []))"
  proof (cases "map_of (failures B) ip")
    case (Some fs)
    then show ?thesis
      using assms(1) f [of fs] by (cases "filter (\<lambda>x. t - x < window B) fs = []") (simp_all add: map_of_cleanup ban_ok_def)
  qed (use assms(1) in \<open>simp add: map_of_cleanup ban_ok_def\<close>)
  with OpCleanup assms(3,4) show ?thesis by (auto simp: progress_def b same)
qed (use assms in \<open>auto simp: progress_def ban_ip_def unban_def interferes_def\<close>)

lemma progress_run:
  assumes "ban_ok B" and "ban_enabled B" and "\<not> is_whitelisted N B ip"
    and "sorted (t0 # map fst ops @ [now])" and "now - t0 < window B" and "now < t0 + ban_duration B"
    and "list_all (\<lambda>(t, a). \<not> interferes ip a) ops" and "length (failures B) + length ops \<le> 100000"
    and "progress t0 ip k B"
  shows "progress t0 ip (k + length (filter (\<lambda>(t, a). a = OpFail ip) ops)) (fold (ban_step N) ops B)"
  using assms
proof (induction ops arbitrary: B k)
  case (Cons e ops)
  obtain t a where e: "e = (t, a)" by fastforce
  let ?B = "ban_step N (t, a) B"
  have conf: "ban_conf ?B = ban_conf B" by (rule ban_conf_step)
  have t: "t0 \<le> t" "t - t0 < window B" "t < t0 + ban_duration B" using Cons.prems(4-6) e by auto
  have "progress t0 ip (k + (if a = OpFail ip then 1 else 0)) ?B"
    using progress_fail [OF Cons.prems(1-3) _ t(1,2) Cons.prems(9)]
      progress_other [OF Cons.prems(1) t(2,3) Cons.prems(9)] Cons.prems(7,8) e by fastforce
  moreover have "length (failures ?B) + length ops \<le> 100000"
    using Cons.prems(8) length_failures_step [of N "(t, a)" B] by simp
  ultimately show ?case
    using Cons.IH [of ?B "k + (if a = OpFail ip then 1 else 0)"] Cons.prems(1-7) conf
    by (simp add: e ban_ok_step is_whitelisted_step split: if_splits)
qed simp

lemma is_banned_iff:
  "snd (is_banned N now ip B) \<longleftrightarrow>
     ban_enabled B \<and> \<not> is_whitelisted N B ip \<and> (\<exists>e. map_of (bans B) ip = Some e \<and> now < e)"
  by (auto simp: is_banned_def not_le split: option.splits)

lemma fold_conf: "ban_conf (fold (ban_step N) ops B) = ban_conf B"
proof (induction ops arbitrary: B)
  case (Cons e ops)
  then show ?case using ban_conf_step [of N e B] by simp
qed simp

subsection \<open>A ban from an empty record\<close>

text \<open>No ban, and exactly \<open>k\<close> failures on record, none before \<open>t0\<close>; a ban that expires at \<open>e\<close>, where at time \<open>t\<close> the entry may be
  gone only if it has expired.\<close>

abbreviation recorded :: "ipaddr \<Rightarrow> 'net ban_manager \<Rightarrow> instant list" where
  "recorded ip B \<equiv> (case map_of (failures B) ip of Some fs \<Rightarrow> fs | None \<Rightarrow> [])"

definition counting :: "instant \<Rightarrow> ipaddr \<Rightarrow> nat \<Rightarrow> 'net ban_manager \<Rightarrow> bool" where
  "counting t0 ip k B \<longleftrightarrow> map_of (bans B) ip = None \<and> length (recorded ip B) = k \<and> (\<forall>t \<in> set (recorded ip B). t0 \<le> t)"

definition standing :: "instant \<Rightarrow> instant \<Rightarrow> ipaddr \<Rightarrow> 'net ban_manager \<Rightarrow> bool" where
  "standing e t ip B \<longleftrightarrow> map_of (bans B) ip = Some e \<or> map_of (bans B) ip = None \<and> e \<le> t"

lemma all_in_window: "t - t0 < w \<Longrightarrow> \<forall>x \<in> set fs. t0 \<le> x \<Longrightarrow> filter (\<lambda>x. t - x < w) fs = fs" for t :: nat
  by (auto simp: filter_id_conv)

lemma record_failure_counting:
  assumes "ban_ok B" and "ban_enabled B" and "\<not> is_whitelisted N B ip" and "length (failures B) < 100000"
    and "t - t0 < window B" and "counting t0 ip k B"
  shows "record_failure N t ip B =
      (let m = fst (dm_entry ip [] (failures B)) in
       if unat (threshold B) \<le> Suc k
       then B\<lparr>failures := dm_insert ip [] m, bans := dm_insert ip (t + ban_duration B) (bans B)\<rparr>
       else B\<lparr>failures := dm_insert ip (recorded ip B @ [t]) m\<rparr>)"
proof -
  have "length (recorded ip B) < max 1 (unat (threshold B))" using assms(1) by (auto simp: ban_ok_def split: option.splits)
  from push_failure_small [OF this, of "window B" t] all_in_window [OF assms(5)] assms(6)
  have "push_failure (threshold B) (window B) t (recorded ip B) = recorded ip B @ [t]" by (simp add: counting_def)
  then show ?thesis
    using assms(2-4,6) by (simp add: record_failure_def Let_def case_prod_beta snd_dm_entry counting_def)
qed

lemma counting_fail:
  assumes "ban_ok B" and "ban_enabled B" and "\<not> is_whitelisted N B ip" and "length (failures B) < 100000"
    and "t - t0 < window B" and "counting t0 ip k B" and "t0 \<le> t" and "Suc k < unat (threshold B)"
  shows "counting t0 ip (Suc k) (record_failure N t ip B)"
  using assms(6-8) unfolding record_failure_counting [OF assms(1-6)] by (auto simp: counting_def Let_def)

lemma counting_last:
  assumes "ban_ok B" and "ban_enabled B" and "\<not> is_whitelisted N B ip" and "length (failures B) < 100000"
    and "t - t0 < window B" and "counting t0 ip k B" and "unat (threshold B) = Suc k"
  shows "standing (t + ban_duration B) t ip (record_failure N t ip B)"
  using assms(7) unfolding record_failure_counting [OF assms(1-6)] by (simp add: standing_def Let_def)

lemma recorded_cleanup:
  assumes "ban_ok B" and "t - t0 < window B" and "\<forall>x \<in> set (recorded ip B). t0 \<le> x"
  shows "recorded ip (cleanup_stale_failures t B) = recorded ip B"
proof (cases "map_of (failures B) ip")
  case (Some fs)
  with assms all_in_window [OF assms(2), of fs] show ?thesis by (simp add: map_of_cleanup ban_ok_def)
qed (use assms in \<open>simp add: map_of_cleanup ban_ok_def\<close>)

lemma bans_cleanup:
  "ban_ok B \<Longrightarrow> map_of (bans (cleanup_stale_failures t B)) ip =
     (case map_of (bans B) ip of Some e \<Rightarrow> if t < e then Some e else None | None \<Rightarrow> None)"
  by (simp add: cleanup_stale_failures_def map_of_dm_retain ban_ok_def)

lemma counting_other:
  assumes "ban_ok B" and "t - t0 < window B" and "counting t0 ip k B" and "a \<noteq> OpFail ip" and "\<not> interferes ip a"
  shows "counting t0 ip k (ban_step N (t, a) B)"
proof (cases a)
  case OpCleanup
  with assms recorded_cleanup [OF assms(1,2)] show ?thesis by (simp add: counting_def bans_cleanup)
qed (use assms in \<open>auto simp: counting_def record_failure_def is_banned_def ban_ip_def unban_def interferes_def Let_def case_prod_beta
    split: option.splits\<close>)

lemma counting_run:
  assumes "ban_ok B" and "ban_enabled B" and "\<not> is_whitelisted N B ip"
    and "sorted (t0 # map fst ops @ [now])" and "now - t0 < window B"
    and "list_all (\<lambda>(t, a). \<not> interferes ip a) ops" and "length (failures B) + length ops < 100000"
    and "k + length (filter (\<lambda>(t, a). a = OpFail ip) ops) < unat (threshold B)" and "counting t0 ip k B"
  shows "counting t0 ip (k + length (filter (\<lambda>(t, a). a = OpFail ip) ops)) (fold (ban_step N) ops B)"
  using assms
proof (induction ops arbitrary: B k)
  case (Cons e ops)
  obtain t a where e: "e = (t, a)" by fastforce
  let ?B = "ban_step N (t, a) B"
  have conf: "ban_conf ?B = ban_conf B" by (rule ban_conf_step)
  have t: "t0 \<le> t" "t - t0 < window B" using Cons.prems(4,5) e by auto
  have "counting t0 ip (k + (if a = OpFail ip then 1 else 0)) ?B"
    using counting_fail [OF Cons.prems(1-3) _ t(2) Cons.prems(9) t(1)]
      counting_other [OF Cons.prems(1) t(2) Cons.prems(9)] Cons.prems(6-8) e by fastforce
  moreover have "length (failures ?B) + length ops < 100000"
    using Cons.prems(7) length_failures_step [of N "(t, a)" B] by simp
  ultimately show ?case
    using Cons.IH [of ?B "k + (if a = OpFail ip then 1 else 0)"] Cons.prems conf
    by (simp add: e ban_ok_step is_whitelisted_step split: if_splits)
qed simp

lemma standing_step:
  assumes "ban_ok B" and "standing e s ip B" and "s \<le> t" and "a \<noteq> OpFail ip" and "\<not> interferes ip a"
  shows "standing e t ip (ban_step N (t, a) B)"
proof (cases a)
  case OpCleanup
  with assms show ?thesis by (auto simp: standing_def bans_cleanup split: if_splits)
qed (use assms in \<open>auto simp: standing_def record_failure_def is_banned_def ban_ip_def unban_def interferes_def Let_def case_prod_beta
    split: option.splits\<close>)

lemma standing_run:
  "sorted (s # map fst ops @ [now]) \<Longrightarrow> list_all (\<lambda>(t, a). \<not> interferes ip a \<and> a \<noteq> OpFail ip) ops \<Longrightarrow> ban_ok B \<Longrightarrow> standing e s ip B
   \<Longrightarrow> standing e now ip (fold (ban_step N) ops B)"
proof (induction ops arbitrary: s B)
  case Nil
  then show ?case by (auto simp: standing_def)
next
  case (Cons o1 ops)
  obtain t a where o1: "o1 = (t, a)" by fastforce
  have "s \<le> t" "a \<noteq> OpFail ip" "\<not> interferes ip a" using Cons.prems(1,2) by (simp_all add: o1)
  then have "standing e t ip (ban_step N (t, a) B)" by (rule standing_step [OF Cons.prems(3,4)])
  with Cons.IH [of t "ban_step N (t, a) B"] Cons.prems show ?case by (simp add: o1 ban_ok_step)
qed

lemma length_failures_run: "length (failures (fold (ban_step N) ops B)) \<le> length (failures B) + length ops"
proof (induction ops arbitrary: B)
  case (Cons a ops)
  from Cons [of "ban_step N a B"] length_failures_step [of N a B] show ?case by simp
qed simp

subsection \<open>Properties\<close>

text \<open>Whatever is on record for an address before, \<open>threshold\<close> failures inside one window ban it, and the ban holds at
  least until the ban duration has passed since the first of them.\<close>

theorem threshold_bans_any_history:
  assumes "ban_ok B" and "ban_enabled B" and "\<not> is_whitelisted N B ip"
    and "sorted (since # map fst ops @ [now])" and "now - since < window B" and "now < since + ban_duration B"
    and "\<not> list_ex (\<lambda>(t, a). interferes ip a) ops" and "length (failures B) + length ops \<le> 100000"
    and "0 < threshold B" and "unat (threshold B) \<le> length (filter (\<lambda>(t, a). a = OpFail ip) ops)"
  shows "snd (is_banned N now ip (fold (ban_step N) ops B))"
proof -
  let ?B = "fold (ban_step N) ops B"
  have "progress since ip 0 B" using assms(9) by (simp add: progress_def word_less_nat_alt)
  from progress_run [OF assms(1-6) _ assms(8) this] assms(7)
  have "progress since ip (length (filter (\<lambda>(t, a). a = OpFail ip) ops)) ?B"
    by (simp add: list_all_iff list_ex_iff case_prod_beta)
  moreover have conf: "ban_conf ?B = ban_conf B" by (rule fold_conf)
  ultimately obtain e where "map_of (bans ?B) ip = Some e" "since + ban_duration B \<le> e"
    using assms(10) by (auto simp: progress_def)
  with conf assms(2,3,6) show ?thesis by (auto simp: is_banned_iff is_whitelisted_def)
qed

text \<open>C16: the threshold bans, at the failure that reaches it, for exactly the configured duration. Take an address that
  is neither banned, whitelisted nor has failures on record, and a run in which the clock does not run backwards,
  nobody bans or unbans the address by hand and fewer than 100000 addresses are tracked. If it fails one time less than
  the threshold, it is not banned. If it then fails once more, inside one window, at time \<open>t\<close>, it is banned: whatever checks,
  failures of other addresses and cleanups follow, for however long, a check at time \<open>now\<close> finds the ban
  exactly if \<open>now\<close> is before \<open>t\<close> plus the ban duration.\<close>

theorem threshold_bans:
  assumes "ban_ok B" and "ban_enabled B" and "\<not> is_whitelisted N B ip"
    and "map_of (bans B) ip = None" and "map_of (failures B) ip = None"
    and "sorted (since # map fst before @ [t])" and "t - since < window B"
    and "\<not> list_ex (\<lambda>(t, a). interferes ip a) before" and "length (failures B) + length before < 100000"
    and "unat (threshold B) = Suc (length (filter (\<lambda>(t, a). a = OpFail ip) before))"
    and "sorted (t # map fst after @ [now])" and "\<not> list_ex (\<lambda>(t, a). interferes ip a \<or> a = OpFail ip) after"
  shows "\<not> snd (is_banned N t ip (fold (ban_step N) before B))
    \<and> (snd (is_banned N now ip (fold (ban_step N) (before @ (t, OpFail ip) # after) B)) \<longleftrightarrow> now < t + ban_duration B)"
proof -
  let ?B1 = "fold (ban_step N) before B" and ?k = "length (filter (\<lambda>(t, a). a = OpFail ip) before)"
  have conf: "ban_conf ?B1 = ban_conf B" by (rule fold_conf)
  have "counting since ip 0 B" using assms(4,5) by (simp add: counting_def)
  from counting_run [OF assms(1-3) assms(6,7) _ assms(9) _ this] assms(8,10) have c: "counting since ip ?k ?B1"
    by (simp add: list_all_iff list_ex_iff case_prod_beta)
  have "standing (t + ban_duration B) t ip (record_failure N t ip ?B1)"
    using counting_last [OF ban.run_inv [OF assms(1)] _ _ _ _ c] assms(2,3,6,7,9,10) conf length_failures_run [of N before B]
    by (simp add: is_whitelisted_def)
  moreover have "list_all (\<lambda>(t, a). \<not> interferes ip a \<and> a \<noteq> OpFail ip) after"
    using assms(12) by (simp add: list_all_iff list_ex_iff case_prod_beta)
  moreover have "ban_ok (record_failure N t ip ?B1)" by (intro ban_ok_record ban.run_inv assms(1))
  ultimately have "standing (t + ban_duration B) now ip (fold (ban_step N) after (record_failure N t ip ?B1))"
    using standing_run [OF assms(11)] by blast
  moreover have "ban_conf (fold (ban_step N) (before @ (t, OpFail ip) # after) B) = ban_conf B" by (rule fold_conf)
  ultimately show ?thesis using assms(2,3) c
    by (auto simp: is_banned_iff is_whitelisted_def standing_def counting_def)
qed

theorem threshold_bans_witness:
  "let B = ban_new sample_net True 2 60 900 []; ip = V4 203 0 113 9;
       run = [(from_secs 100, OpFail ip), (from_secs 110, OpFail (V4 10 0 0 1)), (from_secs 130, OpFail ip), (from_secs 700, OpCleanup)] in
   snd (is_banned sample_net (from_secs 1029) ip (fold (ban_step sample_net) run B))
   \<and> \<not> snd (is_banned sample_net (from_secs 1030) ip (fold (ban_step sample_net) run B))"
proof -
  let ?B = "ban_new sample_net True 2 60 900 []" and ?ip = "V4 203 0 113 9"
  let ?before = "[(from_secs 100, OpFail ?ip), (from_secs 110, OpFail (V4 10 0 0 1))]" and ?after = "[(from_secs 700, OpCleanup)]"
  have "snd (is_banned sample_net now ?ip (fold (ban_step sample_net) (?before @ (from_secs 130, OpFail ?ip) # ?after) ?B))
      \<longleftrightarrow> now < from_secs 130 + ban_duration ?B" if "from_secs 700 \<le> now" for now
    by (rule threshold_bans [where since = "from_secs 100", THEN conjunct2])
      (use that in \<open>simp_all add: ban_ok_def ban_new_def sample_net_def is_whitelisted_def interferes_def from_secs_def\<close>)
  from this [of "from_secs 1029"] this [of "from_secs 1030"] show ?thesis by (simp add: ban_new_def from_secs_def)
qed

text \<open>\<open>is_banned\<close> reports exactly the unexpired bans of an enabled manager outside its whitelist,
  and removing the expired entry on the way never changes the answer for any address at any later
  time.\<close>

theorem is_banned_exact:
  assumes "now \<le> later"
  shows "(snd (is_banned N now ip B) \<longleftrightarrow>
            ban_enabled B \<and> \<not> is_whitelisted N B ip \<and> (\<exists>e. map_of (bans B) ip = Some e \<and> now < e))
       \<and> snd (is_banned N later ip' (fst (is_banned N now ip B))) = snd (is_banned N later ip' B)"
proof -
  have "is_whitelisted N (fst (is_banned N now ip B)) ip' = is_whitelisted N B ip'"
    by (auto simp: is_banned_def is_whitelisted_def split: option.splits)
  then show ?thesis
    unfolding is_banned_iff using assms
    by (auto simp: is_banned_def split: option.splits if_splits)
qed

theorem is_banned_exact_witness:
  "snd (is_banned sample_net 5 (V4 1 2 3 4) (ban_ip 0 (V4 1 2 3 4) 10 (ban_new sample_net True 2 60 900 [])))
   \<and> \<not> snd (is_banned sample_net 20 (V4 1 2 3 4)
        (fst (is_banned sample_net 12 (V4 1 2 3 4) (ban_ip 0 (V4 1 2 3 4) 10 (ban_new sample_net True 2 60 900 [])))))"
  using is_banned_exact [of 5 5 sample_net "V4 1 2 3 4" "ban_ip 0 (V4 1 2 3 4) 10 (ban_new sample_net True 2 60 900 [])"]
    is_banned_exact [of 12 20 sample_net "V4 1 2 3 4" "ban_ip 0 (V4 1 2 3 4) 10 (ban_new sample_net True 2 60 900 [])" "V4 1 2 3 4"]
  by (simp add: is_banned_iff ban_ip_def ban_new_def is_whitelisted_def)

text \<open>The memory of the ban manager is bounded: after any sequence of operations at most 100000
  addresses are tracked, each with fewer time stamps than the threshold.\<close>

theorem ban_memory_bounded:
  "let B = fold (ban_step N) ops (ban_new N en th w d wl) in
   length (failures B) \<le> 100000 \<and> list_all (\<lambda>(ip, fs). length fs < max 1 (unat th)) (failures B)"
proof -
  let ?B = "fold (ban_step N) ops (ban_new N en th w d wl)"
  have ok: "ban_ok ?B" by (rule ban.run_inv) (rule ban_ok_new)
  have "threshold ?B = th" using fold_conf [of N ops "ban_new N en th w d wl"] by (simp add: ban_new_def)
  moreover have "map_of (failures ?B) ip = Some fs" if "(ip, fs) \<in> set (failures ?B)" for ip fs
    using ok that by (simp add: ban_ok_def dm_ok_def)
  ultimately show ?thesis using ok by (fastforce simp: ban_ok_def list_all_iff Let_def)
qed

end
