(* ===== verification/Rate_Limit.thy ===== *)
theory Rate_Limit
  imports Prelude Net
begin

text \<open>
  Models \<open>src/security/rate_limit.rs\<close>: the per-address and the per-user limiter tables with
  their capacity bound, stale cleanup and eviction. A single limiter belongs to the
  \<open>governor\<close> crate; its constructor and its test are an argument. The two tables are
  written out separately, as in the source; cleanup and eviction, whose source text is the same up to
  the key type, are one polymorphic definition each.
\<close>

subsection \<open>Model\<close>

record 'l governor_ops =
  gov_per_minute :: "u32 \<Rightarrow> instant \<Rightarrow> 'l"
  gov_check :: "instant \<Rightarrow> 'l \<Rightarrow> 'l \<times> bool"

record 'l tracked_limiter =
  limiter :: 'l
  last_used :: instant

type_synonym ('k, 'l) limiter_table = "('k, 'l tracked_limiter) dmap"

record 'l ip_rate_limiter =
  ip_limiters :: "(ipaddr, 'l) limiter_table"
  ip_max_per_minute :: u32
  ip_max_entries :: nat

record 'l user_rate_limiter =
  user_limiters :: "(string, 'l) limiter_table"
  user_max_entries :: nat

definition limiters_cleanup_stale :: "instant \<Rightarrow> duration \<Rightarrow> ('k, 'l) limiter_table \<Rightarrow> ('k, 'l) limiter_table" where
  "limiters_cleanup_stale now max_age m = dm_retain (\<lambda>_ tr. now - last_used tr < max_age) m"

definition evict_oldest :: "nat \<Rightarrow> ('k, 'l) limiter_table \<Rightarrow> ('k, 'l) limiter_table \<times> nat" where
  "evict_oldest n m =
     (if n = 0 \<or> m = [] then (m, 0)
      else (let to_evict = min (length m) n in (dm_remove_all (dm_oldest last_used to_evict m) m, to_evict)))"

text \<open>\<open>NonZeroU32::new(n).unwrap_or(NonZeroU32::MIN)\<close>.\<close>

definition non_zero :: "u32 \<Rightarrow> u32" where
  "non_zero n = (if n = 0 then 1 else n)"

definition ip_limiter_new :: "u32 \<Rightarrow> nat \<Rightarrow> 'l ip_rate_limiter" where
  "ip_limiter_new per_minute entries = \<lparr>ip_limiters = [], ip_max_per_minute = per_minute, ip_max_entries = entries\<rparr>"

definition user_limiter_new :: "nat \<Rightarrow> 'l user_rate_limiter" where
  "user_limiter_new entries = \<lparr>user_limiters = [], user_max_entries = entries\<rparr>"

definition ip_limiter_check ::
  "('l, 'x) governor_ops_scheme \<Rightarrow> instant \<Rightarrow> ipaddr \<Rightarrow> 'l ip_rate_limiter \<Rightarrow> 'l ip_rate_limiter \<times> bool" where
  "ip_limiter_check G now ip R =
     (if ip_max_per_minute R = 0 then (R, True)
      else
        (let m0 = ip_limiters R;
             m1 = (if \<not> dm_contains m0 ip \<and> length m0 \<ge> ip_max_entries R
                   then (let c = limiters_cleanup_stale now (from_secs 600) m0 in
                         if length c \<ge> ip_max_entries R then fst (evict_oldest (ip_max_entries R div 10) c) else c)
                   else m0);
             (m2, tracked) = dm_entry ip \<lparr>limiter = gov_per_minute G (non_zero (ip_max_per_minute R)) now, last_used = now\<rparr> m1;
             (l, ok) = gov_check G now (limiter tracked)
         in (R\<lparr>ip_limiters := dm_insert ip \<lparr>limiter = l, last_used = now\<rparr> m2\<rparr>, ok)))"

definition user_limiter_check ::
  "('l, 'x) governor_ops_scheme \<Rightarrow> instant \<Rightarrow> string \<Rightarrow> u32 \<Rightarrow> 'l user_rate_limiter \<Rightarrow> 'l user_rate_limiter \<times> bool" where
  "user_limiter_check G now username max_per_minute R =
     (if max_per_minute = 0 then (R, True)
      else
        (let m0 = user_limiters R;
             m1 = (if \<not> dm_contains m0 username \<and> length m0 \<ge> user_max_entries R
                   then (let c = limiters_cleanup_stale now (from_secs 600) m0 in
                         if length c \<ge> user_max_entries R then fst (evict_oldest (user_max_entries R div 10) c) else c)
                   else m0);
             (m2, tracked) = dm_entry username \<lparr>limiter = gov_per_minute G (non_zero max_per_minute) now, last_used = now\<rparr> m1;
             (l, ok) = gov_check G now (limiter tracked)
         in (R\<lparr>user_limiters := dm_insert username \<lparr>limiter = l, last_used = now\<rparr> m2\<rparr>, ok)))"

definition ip_cleanup_stale :: "instant \<Rightarrow> duration \<Rightarrow> 'l ip_rate_limiter \<Rightarrow> 'l ip_rate_limiter" where
  "ip_cleanup_stale now max_age R = R\<lparr>ip_limiters := limiters_cleanup_stale now max_age (ip_limiters R)\<rparr>"

definition user_cleanup_stale :: "instant \<Rightarrow> duration \<Rightarrow> 'l user_rate_limiter \<Rightarrow> 'l user_rate_limiter" where
  "user_cleanup_stale now max_age R = R\<lparr>user_limiters := limiters_cleanup_stale now max_age (user_limiters R)\<rparr>"

subsection \<open>A table with room for a key\<close>

text \<open>The table after the capacity test of \<open>check\<close>: cleaned and evicted if it was full and the key new.\<close>

definition make_room :: "instant \<Rightarrow> 'k \<Rightarrow> nat \<Rightarrow> ('k, 'l) limiter_table \<Rightarrow> ('k, 'l) limiter_table" where
  "make_room now k cap m =
     (if \<not> dm_contains m k \<and> length m \<ge> cap
      then (let c = limiters_cleanup_stale now (from_secs 600) m in
            if length c \<ge> cap then fst (evict_oldest (cap div 10) c) else c)
      else m)"

definition touch :: "'k \<Rightarrow> 'l tracked_limiter \<Rightarrow> 'l tracked_limiter \<Rightarrow> ('k, 'l) limiter_table \<Rightarrow> ('k, 'l) limiter_table" where
  "touch k d tr m = dm_insert k tr (fst (dm_entry k d m))"

lemma dm_ok_make_room [simp]: "dm_ok m \<Longrightarrow> dm_ok (make_room now k cap m)"
  by (simp add: make_room_def limiters_cleanup_stale_def evict_oldest_def Let_def)

lemma length_evict_oldest: "dm_ok m \<Longrightarrow> length (fst (evict_oldest n m)) = length m - min (length m) n"
  by (auto simp: evict_oldest_def Let_def length_evict)

lemma length_make_room:
  assumes "dm_ok m" and "10 \<le> cap" and "length m \<le> cap" and "\<not> dm_contains m k"
  shows "length (make_room now k cap m) < cap"
proof -
  let ?c = "limiters_cleanup_stale now (from_secs 600) m"
  have c: "dm_ok ?c" "length ?c \<le> cap"
    using assms(1,3) by (simp_all add: limiters_cleanup_stale_def le_trans [OF length_dm_retain_le])
  show ?thesis
    using assms(2-4) c by (auto simp: make_room_def Let_def length_evict_oldest)
qed

lemma length_touch: "length (touch k d tr m) = (if dm_contains m k then length m else Suc (length m))"
  by (auto simp: touch_def length_dm_insert dm_entry_def dm_contains_map_of split: option.splits)

lemma length_touch_make_room:
  assumes "dm_ok m" and "10 \<le> cap" and "length m \<le> cap"
  shows "length (touch k d tr (make_room now k cap m)) \<le> cap"
proof (cases "dm_contains m k")
  case True
  then show ?thesis using assms(3) by (simp add: length_touch make_room_def)
next
  case False
  then have "length (make_room now k cap m) < cap" by (rule length_make_room [OF assms])
  then show ?thesis by (simp add: length_touch)
qed

subsection \<open>The tables as machines\<close>

datatype 'q limiter_op = LCheck 'q | LCleanup duration

fun ip_limiter_step :: "('l, 'x) governor_ops_scheme \<Rightarrow> instant \<times> ipaddr limiter_op \<Rightarrow> 'l ip_rate_limiter \<Rightarrow> 'l ip_rate_limiter" where
  "ip_limiter_step G (now, LCheck ip) R = fst (ip_limiter_check G now ip R)"
| "ip_limiter_step G (now, LCleanup age) R = ip_cleanup_stale now age R"

fun user_limiter_step :: "('l, 'x) governor_ops_scheme \<Rightarrow> instant \<times> (string \<times> u32) limiter_op \<Rightarrow> 'l user_rate_limiter \<Rightarrow> 'l user_rate_limiter" where
  "user_limiter_step G (now, LCheck (u, n)) R = fst (user_limiter_check G now u n R)"
| "user_limiter_step G (now, LCleanup age) R = user_cleanup_stale now age R"

definition table_ok :: "nat \<Rightarrow> ('k, 'l) limiter_table \<Rightarrow> bool" where
  "table_ok cap m \<longleftrightarrow> dm_ok m \<and> 10 \<le> cap \<and> length m \<le> cap"

lemma table_ok_touch: "table_ok cap m \<Longrightarrow> table_ok cap (touch k d tr (make_room now k cap m))"
  using length_touch_make_room [of m cap] by (simp add: table_ok_def) (simp add: touch_def)

lemma table_ok_cleanup: "table_ok cap m \<Longrightarrow> table_ok cap (limiters_cleanup_stale now age m)"
  by (simp add: table_ok_def limiters_cleanup_stale_def le_trans [OF length_dm_retain_le])

lemma ip_limiter_check_eq:
  "ip_limiter_check G now ip R =
     (if ip_max_per_minute R = 0 then (R, True)
      else let m = make_room now ip (ip_max_entries R) (ip_limiters R);
               d = \<lparr>limiter = gov_per_minute G (non_zero (ip_max_per_minute R)) now, last_used = now\<rparr>;
               r = gov_check G now (limiter (case map_of m ip of Some tr \<Rightarrow> tr | None \<Rightarrow> d))
           in (R\<lparr>ip_limiters := touch ip d \<lparr>limiter = fst r, last_used = now\<rparr> m\<rparr>, snd r))"
  by (simp add: ip_limiter_check_def make_room_def touch_def Let_def case_prod_beta snd_dm_entry)

lemma user_limiter_check_eq:
  "user_limiter_check G now u n R =
     (if n = 0 then (R, True)
      else let m = make_room now u (user_max_entries R) (user_limiters R);
               d = \<lparr>limiter = gov_per_minute G (non_zero n) now, last_used = now\<rparr>;
               r = gov_check G now (limiter (case map_of m u of Some tr \<Rightarrow> tr | None \<Rightarrow> d))
           in (R\<lparr>user_limiters := touch u d \<lparr>limiter = fst r, last_used = now\<rparr> m\<rparr>, snd r))"
  by (simp add: user_limiter_check_def make_room_def touch_def Let_def case_prod_beta snd_dm_entry)

lemma ip_limiter_step_ok:
  "table_ok (ip_max_entries R) (ip_limiters R) \<Longrightarrow>
   table_ok (ip_max_entries (ip_limiter_step G a R)) (ip_limiters (ip_limiter_step G a R))"
  by (cases "(G, a, R)" rule: ip_limiter_step.cases)
     (simp_all add: ip_limiter_check_eq ip_cleanup_stale_def Let_def table_ok_touch table_ok_cleanup)

lemma user_limiter_step_ok:
  "table_ok (user_max_entries R) (user_limiters R) \<Longrightarrow>
   table_ok (user_max_entries (user_limiter_step G a R)) (user_limiters (user_limiter_step G a R))"
  by (cases "(G, a, R)" rule: user_limiter_step.cases)
     (simp_all add: user_limiter_check_eq user_cleanup_stale_def Let_def table_ok_touch table_ok_cleanup)

interpretation ip_table: machine "ip_limiter_step G" "\<lambda>R. table_ok (ip_max_entries R) (ip_limiters R)" for G
  by unfold_locales (rule ip_limiter_step_ok)

interpretation user_table: machine "user_limiter_step G" "\<lambda>R. table_ok (user_max_entries R) (user_limiters R)" for G
  by unfold_locales (rule user_limiter_step_ok)

lemma ip_max_entries_run [simp]: "ip_max_entries (fold (ip_limiter_step G) ops R) = ip_max_entries R"
proof (induction ops arbitrary: R)
  case (Cons a ops)
  have "ip_max_entries (ip_limiter_step G a R) = ip_max_entries R"
    by (cases "(G, a, R)" rule: ip_limiter_step.cases) (simp_all add: ip_limiter_check_eq ip_cleanup_stale_def Let_def)
  with Cons show ?case by simp
qed simp

lemma user_max_entries_run [simp]: "user_max_entries (fold (user_limiter_step G) ops R) = user_max_entries R"
proof (induction ops arbitrary: R)
  case (Cons a ops)
  have "user_max_entries (user_limiter_step G a R) = user_max_entries R"
    by (cases "(G, a, R)" rule: user_limiter_step.cases) (simp_all add: user_limiter_check_eq user_cleanup_stale_def Let_def)
  with Cons show ?case by simp
qed simp

subsection \<open>Properties\<close>

text \<open>The limiter tables stay within their configured size, so that an attacker who varies the
  address or the user name cannot exhaust memory: with a bound of at least ten entries, no sequence
  of checks and cleanups makes either table larger than the bound.\<close>

theorem limiter_tables_bounded:
  assumes "10 \<le> cap"
  shows "length (ip_limiters (fold (ip_limiter_step G) ops (ip_limiter_new n cap))) \<le> cap
       \<and> length (user_limiters (fold (user_limiter_step G) ops' (user_limiter_new cap))) \<le> cap"
proof -
  have "table_ok cap (ip_limiters (ip_limiter_new n cap))" "table_ok cap (user_limiters (user_limiter_new cap))"
    using assms by (simp_all add: table_ok_def ip_limiter_new_def user_limiter_new_def)
  then show ?thesis
    using ip_table.run_inv [of "ip_limiter_new n cap" G ops] user_table.run_inv [of "user_limiter_new cap" G ops']
    by (simp add: ip_limiter_new_def user_limiter_new_def table_ok_def)
qed

definition sample_gov :: "nat governor_ops" where
  "sample_gov = \<lparr>gov_per_minute = (\<lambda>n _. unat n), gov_check = (\<lambda>_ l. (l - 1, 0 < l))\<rparr>"

theorem limiter_tables_bounded_witness:
  "length (ip_limiters (fold (ip_limiter_step sample_gov) [(1, LCheck (V4 10 0 0 1)), (2, LCheck (V4 10 0 0 2))]
     (ip_limiter_new 5 10))) \<le> 10
   \<and> length (user_limiters (fold (user_limiter_step sample_gov) [(1, LCheck (''a'', 3)), (2, LCleanup 1)]
     (user_limiter_new 10))) \<le> 10"
  by (rule limiter_tables_bounded) simp

text \<open>With a bound below ten the code's eviction of a tenth of the bound evicts nothing, and the
  table outgrows its bound: here a bound of one entry and two addresses.\<close>

theorem small_limiter_table_overflows:
  "length (ip_limiters (fold (ip_limiter_step sample_gov) [(1, LCheck (V4 10 0 0 1)), (2, LCheck (V4 10 0 0 2))]
     (ip_limiter_new 5 1))) = 2"
  by (simp add: ip_limiter_new_def ip_limiter_check_eq make_room_def touch_def dm_contains_def dm_entry_def Let_def
      limiters_cleanup_stale_def evict_oldest_def dm_retain_def dm_insert_def from_secs_def)

text \<open>Eviction takes the least recently used entries and exactly as many as asked for: the table
  shrinks by \<open>min n (length m)\<close>, and no evicted entry was used later than a kept one.\<close>

theorem evict_oldest_lru:
  assumes "dm_ok m"
  shows "length (fst (evict_oldest n m)) + snd (evict_oldest n m) = length m
       \<and> snd (evict_oldest n m) = min (length m) n
       \<and> (\<forall>(k, v) \<in> set m. \<forall>(k', v') \<in> set (fst (evict_oldest n m)).
            k \<notin> fst ` set (fst (evict_oldest n m)) \<longrightarrow> last_used v \<le> last_used v')"
proof -
  have "last_used v \<le> last_used v'"
    if "(k, v) \<in> set m" "(k', v') \<in> set (fst (evict_oldest n m))" "k \<notin> fst ` set (fst (evict_oldest n m))" for k v k' v'
  proof (cases "n = 0 \<or> m = []")
    case True
    with that show ?thesis by (force simp: evict_oldest_def)
  next
    case False
    let ?o = "dm_oldest last_used (min (length m) n) m"
    have e: "fst (evict_oldest n m) = dm_remove_all ?o m" using False by (simp add: evict_oldest_def Let_def)
    have "k \<in> set ?o" using that(1,3) by (force simp: e dm_remove_all_eq)
    then show ?thesis using evict_oldest_first [OF assms that(1)] that(2) e by simp
  qed
  then show ?thesis
    using assms by (auto simp: length_evict_oldest) (auto simp: evict_oldest_def Let_def)
qed

theorem evict_oldest_lru_witness:
  "snd (evict_oldest 1 [(1 :: nat, \<lparr>limiter = 0 :: nat, last_used = 5\<rparr>), (2, \<lparr>limiter = 0, last_used = 3\<rparr>)]) = 1"
  using evict_oldest_lru [of "[(1 :: nat, \<lparr>limiter = 0 :: nat, last_used = 5\<rparr>), (2, \<lparr>limiter = 0, last_used = 3\<rparr>)]" 1]
  by (simp add: dm_ok_def)

end
