(* ===== verification/Security.thy ===== *)
theory Security
  imports Ban Rate_Limit
begin

text \<open>
  Models \<open>src/security/ip_reputation.rs\<close> and \<open>src/security/mod.rs\<close>: the reputation
  scores (over abstract \<open>f64\<close> operations) and the security manager that puts the source
  filter, the bans, the limiters and the scores behind one pre-authentication check.
\<close>

subsection \<open>Reputation\<close>

record 'f ip_score =
  score :: 'f
  last_updated :: instant
  last_auth_failure :: "instant option"
  auth_failure_count :: u32

record 'f reputation_manager =
  scores :: "(ipaddr, 'f ip_score) dmap"
  rep_ban_threshold :: u32
  rep_enabled :: bool

definition rep_new :: "bool \<Rightarrow> u32 \<Rightarrow> 'f reputation_manager" where
  "rep_new en th = \<lparr>scores = [], rep_ban_threshold = th, rep_enabled = en\<rparr>"

definition apply_decay :: "('f, 'x) f64_ops_scheme \<Rightarrow> instant \<Rightarrow> 'f \<Rightarrow> instant \<Rightarrow> 'f" where
  "apply_decay F now s updated =
     (let elapsed_secs = f_of_duration F (now - updated); half_lives = f_div F elapsed_secs (f_lit F 3600 1)
      in f_mul F s (f_powf F (f_lit F 1 2) half_lives))"

definition add_score :: "('f, 'x) f64_ops_scheme \<Rightarrow> instant \<Rightarrow> ipaddr \<Rightarrow> 'f \<Rightarrow> 'f reputation_manager \<Rightarrow> 'f reputation_manager" where
  "add_score F now ip delta R =
     (let (m, e) = dm_entry ip \<lparr>score = f_lit F 0 1, last_updated = now, last_auth_failure = None, auth_failure_count = 0\<rparr> (scores R);
          e1 = e\<lparr>score := apply_decay F now (score e) (last_updated e)\<rparr>;
          e2 = e1\<lparr>score := f_max F (f_add F (score e1) delta) (f_lit F 0 1), last_updated := now\<rparr>;
          e3 = (if f_gt F delta (f_lit F 0 1)
                then e2\<lparr>last_auth_failure := Some now, auth_failure_count := auth_failure_count e2 + 1\<rparr> else e2)
      in R\<lparr>scores := dm_insert ip e3 m\<rparr>)"

definition rep_record_auth_failure :: "('f, 'x) f64_ops_scheme \<Rightarrow> instant \<Rightarrow> ipaddr \<Rightarrow> 'f reputation_manager \<Rightarrow> 'f reputation_manager" where
  "rep_record_auth_failure F now ip R = (if \<not> rep_enabled R then R else add_score F now ip (f_lit F 10 1) R)"

definition rep_record_acl_denial :: "('f, 'x) f64_ops_scheme \<Rightarrow> instant \<Rightarrow> ipaddr \<Rightarrow> 'f reputation_manager \<Rightarrow> 'f reputation_manager" where
  "rep_record_acl_denial F now ip R = (if \<not> rep_enabled R then R else add_score F now ip (f_lit F 5 1) R)"

definition rep_record_rapid_connections :: "('f, 'x) f64_ops_scheme \<Rightarrow> instant \<Rightarrow> ipaddr \<Rightarrow> 'f reputation_manager \<Rightarrow> 'f reputation_manager" where
  "rep_record_rapid_connections F now ip R = (if \<not> rep_enabled R then R else add_score F now ip (f_lit F 3 1) R)"

definition rep_record_auth_success :: "('f, 'x) f64_ops_scheme \<Rightarrow> instant \<Rightarrow> ipaddr \<Rightarrow> 'f reputation_manager \<Rightarrow> 'f reputation_manager" where
  "rep_record_auth_success F now ip R = (if \<not> rep_enabled R then R else add_score F now ip (f_neg F (f_lit F 5 1)) R)"

definition get_score :: "('f, 'x) f64_ops_scheme \<Rightarrow> instant \<Rightarrow> ipaddr \<Rightarrow> 'f reputation_manager \<Rightarrow> u32" where
  "get_score F now ip R =
     (if \<not> rep_enabled R then 0
      else case map_of (scores R) ip of
        Some e \<Rightarrow> f_to_u32 F (f_max F (apply_decay F now (score e) (last_updated e)) (f_lit F 0 1))
      | None \<Rightarrow> 0)"

definition should_ban :: "('f, 'x) f64_ops_scheme \<Rightarrow> instant \<Rightarrow> ipaddr \<Rightarrow> 'f reputation_manager \<Rightarrow> bool" where
  "should_ban F now ip R =
     (if \<not> rep_enabled R \<or> rep_ban_threshold R = 0 then False else get_score F now ip R \<ge> rep_ban_threshold R)"

definition rep_cleanup :: "('f, 'x) f64_ops_scheme \<Rightarrow> instant \<Rightarrow> 'f reputation_manager \<Rightarrow> 'f reputation_manager" where
  "rep_cleanup F now R =
     R\<lparr>scores := dm_retain (\<lambda>_ e. f_ge F (apply_decay F now (score e) (last_updated e)) (f_lit F 1 1)) (scores R)\<rparr>"

definition all_scores :: "('f, 'x) f64_ops_scheme \<Rightarrow> instant \<Rightarrow> 'f reputation_manager \<Rightarrow> (ipaddr \<times> u32) list" where
  "all_scores F now R =
     filter (\<lambda>(_, s). s > 0)
       (map (\<lambda>(ip, e). (ip, f_to_u32 F (f_max F (apply_decay F now (score e) (last_updated e)) (f_lit F 0 1)))) (scores R))"

subsection \<open>Security manager\<close>

record 'net security_config =
  cfg_ban_enabled :: bool
  cfg_ban_threshold :: u32
  cfg_ban_window :: nat
  cfg_ban_duration :: nat
  cfg_ban_whitelist :: "string list"
  cfg_rate_limit_max_users :: nat
  cfg_max_new_connections_per_ip_per_minute :: u32
  cfg_rate_limit_max_ips :: nat
  cfg_ip_reputation_enabled :: bool
  cfg_ip_reputation_ban_threshold :: u32
  cfg_allowed_source_ips :: "'net list"

record ('net, 'l, 'f) security_manager =
  ban_mgr :: "'net ban_manager"
  rate_limiter :: "'l user_rate_limiter"
  ip_limiter :: "'l ip_rate_limiter"
  reputation :: "'f reputation_manager"
  global_allowed_ips :: "'net list"
  ban_whitelist :: "'net list"

fun parse_ban_whitelist :: "('net, 'x) ipnet_ops_scheme \<Rightarrow> string list \<Rightarrow> 'net list" where
  "parse_ban_whitelist N [] = []"
| "parse_ban_whitelist N (s # ss) =
     (case net_parse N s of
        Some net \<Rightarrow> net # parse_ban_whitelist N ss
      | None \<Rightarrow>
        (case parse_ip s of
           Some ip \<Rightarrow> net_of_ip N ip # parse_ban_whitelist N ss
         | None \<Rightarrow> parse_ban_whitelist N ss))"

definition security_new :: "('net, 'x) ipnet_ops_scheme \<Rightarrow> 'net security_config \<Rightarrow> ('net, 'l, 'f) security_manager" where
  "security_new N c =
     \<lparr>ban_mgr = ban_new N (cfg_ban_enabled c) (cfg_ban_threshold c) (cfg_ban_window c) (cfg_ban_duration c) (cfg_ban_whitelist c),
      rate_limiter = user_limiter_new (cfg_rate_limit_max_users c),
      ip_limiter = ip_limiter_new (cfg_max_new_connections_per_ip_per_minute c) (cfg_rate_limit_max_ips c),
      reputation = rep_new (cfg_ip_reputation_enabled c) (cfg_ip_reputation_ban_threshold c),
      global_allowed_ips = cfg_allowed_source_ips c,
      ban_whitelist = parse_ban_whitelist N (cfg_ban_whitelist c)\<rparr>"

definition security_reload ::
  "('net, 'x) ipnet_ops_scheme \<Rightarrow> 'net security_config \<Rightarrow> ('net, 'l, 'f) security_manager \<Rightarrow> ('net, 'l, 'f) security_manager" where
  "security_reload N c S =
     S\<lparr>ban_mgr := ban_update_config N (cfg_ban_enabled c) (cfg_ban_threshold c) (cfg_ban_window c) (cfg_ban_duration c)
          (cfg_ban_whitelist c) (ban_mgr S),
       rate_limiter := user_limiter_new (cfg_rate_limit_max_users c),
       ip_limiter := ip_limiter_new (cfg_max_new_connections_per_ip_per_minute c) (cfg_rate_limit_max_ips c),
       reputation := rep_new (cfg_ip_reputation_enabled c) (cfg_ip_reputation_ban_threshold c),
       global_allowed_ips := cfg_allowed_source_ips c,
       ban_whitelist := parse_ban_whitelist N (cfg_ban_whitelist c)\<rparr>"

definition sec_is_banned ::
  "('net, 'x) ipnet_ops_scheme \<Rightarrow> instant \<Rightarrow> ipaddr \<Rightarrow> ('net, 'l, 'f) security_manager \<Rightarrow> ('net, 'l, 'f) security_manager \<times> bool" where
  "sec_is_banned N now ip S =
     (let (B, r) = is_banned N now (normalize_ip ip) (ban_mgr S) in (S\<lparr>ban_mgr := B\<rparr>, r))"

definition record_auth_failure ::
  "('net, 'x) ipnet_ops_scheme \<Rightarrow> instant \<Rightarrow> ipaddr \<Rightarrow> ('net, 'l, 'f) security_manager \<Rightarrow> ('net, 'l, 'f) security_manager" where
  "record_auth_failure N now ip S = S\<lparr>ban_mgr := record_failure N now (normalize_ip ip) (ban_mgr S)\<rparr>"

definition check_source_ip :: "('net, 'x) ipnet_ops_scheme \<Rightarrow> ipaddr \<Rightarrow> ('net, 'l, 'f) security_manager \<Rightarrow> bool" where
  "check_source_ip N ip S = is_allowed N (normalize_ip ip) (global_allowed_ips S)"

definition pre_auth_check ::
  "('net, 'x) ipnet_ops_scheme \<Rightarrow> ('l, 'y) governor_ops_scheme \<Rightarrow> ('f, 'z) f64_ops_scheme \<Rightarrow> instant \<Rightarrow> ipaddr
     \<Rightarrow> ('net, 'l, 'f) security_manager \<Rightarrow> ('net, 'l, 'f) security_manager \<times> (string + unit)" where
  "pre_auth_check N G F now ip S =
     (let normalized = normalize_ip ip;
          (S1, limited) =
            (if list_ex (\<lambda>net. net_contains N net normalized) (ban_whitelist S) then (S, False)
             else (let (L, ok) = ip_limiter_check G now normalized (ip_limiter S) in (S\<lparr>ip_limiter := L\<rparr>, \<not> ok))) in
      if limited then (S1, Inl ''IP rate limit exceeded'')
      else if \<not> check_source_ip N ip S1 then (S1, Inl ''disallowed source IP'')
      else
        (let (S2, banned) = sec_is_banned N now ip S1 in
         if banned then (S2, Inl ''banned IP'')
         else if should_ban F now normalized (reputation S2) then (S2, Inl ''IP reputation too low'')
         else (S2, Inr ())))"

definition check_rate_limit ::
  "('l, 'y) governor_ops_scheme \<Rightarrow> instant \<Rightarrow> string \<Rightarrow> u32 \<Rightarrow> ('net, 'l, 'f) security_manager
     \<Rightarrow> ('net, 'l, 'f) security_manager \<times> bool" where
  "check_rate_limit G now username max_per_minute S =
     (let (R, ok) = user_limiter_check G now username max_per_minute (rate_limiter S) in (S\<lparr>rate_limiter := R\<rparr>, ok))"

definition cleanup_rate_limiters :: "instant \<Rightarrow> duration \<Rightarrow> ('net, 'l, 'f) security_manager \<Rightarrow> ('net, 'l, 'f) security_manager" where
  "cleanup_rate_limiters now max_age S =
     S\<lparr>rate_limiter := user_cleanup_stale now max_age (rate_limiter S),
       ip_limiter := ip_cleanup_stale now max_age (ip_limiter S)\<rparr>"

definition rate_limiter_sizes :: "('net, 'l, 'f) security_manager \<Rightarrow> nat \<times> nat" where
  "rate_limiter_sizes S = (length (ip_limiters (ip_limiter S)), length (user_limiters (rate_limiter S)))"

text \<open>One round of the background task of \<open>spawn_cleanup_task\<close>.\<close>

definition security_cleanup :: "instant \<Rightarrow> ('net, 'l, 'f) security_manager \<Rightarrow> ('net, 'l, 'f) security_manager" where
  "security_cleanup now S =
     cleanup_rate_limiters now (from_secs 600) (S\<lparr>ban_mgr := cleanup_stale_failures now (ban_mgr S)\<rparr>)"

subsection \<open>Lemmas\<close>

lemma normalize_idem [simp]: "normalize_ip (normalize_ip ip) = normalize_ip ip"
  by (cases ip) (simp_all add: normalize_ip_def)

lemma check_source_ip_normal [simp]: "check_source_ip N (normalize_ip ip) S = check_source_ip N ip S"
  by (simp add: check_source_ip_def)

lemma sec_is_banned_normal [simp]: "sec_is_banned N now (normalize_ip ip) S = sec_is_banned N now ip S"
  by (simp add: sec_is_banned_def)

lemma parse_ban_whitelist_eq: "parse_ban_whitelist N ss = parse_whitelist N ss"
  by (induction ss) (simp_all split: option.splits)

subsection \<open>Properties\<close>

text \<open>The gate before authentication admits an address only if it is in the allowed source
  networks (when any are configured), has no unexpired ban (unless whitelisted or banning is off),
  its reputation is below the threshold, and the limiter, unless the address is whitelisted, lets it
  through; and it admits every such address.\<close>

theorem pre_auth_check_iff:
  "snd (pre_auth_check N G F now ip S) = Inr () \<longleftrightarrow>
     (list_ex (\<lambda>net. net_contains N net (normalize_ip ip)) (ban_whitelist S)
        \<or> snd (ip_limiter_check G now (normalize_ip ip) (ip_limiter S)))
   \<and> (global_allowed_ips S = [] \<or> list_ex (\<lambda>net. net_contains N net (normalize_ip ip)) (global_allowed_ips S))
   \<and> \<not> snd (is_banned N now (normalize_ip ip) (ban_mgr S))
   \<and> \<not> should_ban F now (normalize_ip ip) (reputation S)"
  by (auto simp: pre_auth_check_def Let_def case_prod_beta check_source_ip_def is_allowed_def sec_is_banned_def)

text \<open>An attacker cannot use the IPv4-mapped spelling of an address to escape its bans, failures
  or limits: every operation of the security manager does the same for an address and for its
  normal form.\<close>

theorem security_mapped_agree:
  "pre_auth_check N G F now (normalize_ip ip) S = pre_auth_check N G F now ip S
   \<and> record_auth_failure N now (normalize_ip ip) S = record_auth_failure N now ip S
   \<and> sec_is_banned N now (normalize_ip ip) S = sec_is_banned N now ip S"
  by (simp add: pre_auth_check_def record_auth_failure_def Let_def case_prod_beta)

text \<open>Reloading the configuration keeps every ban and every recorded failure; a banned address
  stays banned under the new configuration unless that one disables banning or whitelists it.\<close>

theorem reload_keeps_bans:
  "bans (ban_mgr (security_reload N c S)) = bans (ban_mgr S)
   \<and> failures (ban_mgr (security_reload N c S)) = failures (ban_mgr S)
   \<and> (snd (sec_is_banned N now ip (security_reload N c S)) \<longleftrightarrow>
        cfg_ban_enabled c \<and> \<not> list_ex (\<lambda>net. net_contains N net (normalize_ip ip)) (parse_whitelist N (cfg_ban_whitelist c))
        \<and> (\<exists>e. map_of (bans (ban_mgr S)) (normalize_ip ip) = Some e \<and> now < e))"
  by (simp add: security_reload_def ban_update_config_def sec_is_banned_def case_prod_beta is_banned_iff
      is_whitelisted_def)

end
