(* ===== verification/App_Context.thy ===== *)
theory App_Context
  imports Proxy_Engine Auth Security
begin

text \<open>
  Models \<open>src/context.rs\<close>: the state the front ends share (\<open>AppContext\<close>), the parts of the
  configuration they read, and the record of the third-party operations every handler is given.
\<close>

subsection \<open>Context\<close>

text \<open>The operations of the libraries, the configuration and the shared state of \<open>AppContext\<close>.\<close>

record ('net, 'pk, 'h, 'cert, 'fp, 'l, 'f) libs =
  lib_net :: "'net ipnet_ops"
  lib_user :: "'pk user_ops"
  lib_auth :: "('h, 'cert, 'fp) auth_ops"
  lib_gov :: "'l governor_ops"
  lib_f64 :: "'f f64_ops"
  lib_chrono :: chrono_ops
  lib_url :: url_ops

record socks_config =
  engine_cfg :: engine_config
  limits_cfg :: quota_limits
  totp_required_for :: "string list"

record ('net, 'pk, 'fp, 'l, 'f) app_context =
  security :: "('net, 'l, 'f) security_manager"
  auth_svc :: "('net, 'pk, 'fp) auth_service"
  used_codes :: totp_map
  quota :: quota_tracker
  proxy_engine :: engine

text \<open>The clock readings of one handshake or request.\<close>

record clock =
  at_pre_auth :: instant
  at_auth :: nat
  at_failure :: instant
  at_access :: int
  at_rate :: instant
  at_quota_rate :: nat
  at_quota_record :: nat
  at_quota_bandwidth :: nat
  at_relay :: nat

subsection \<open>A concrete server\<close>

text \<open>A concrete server for the witnesses: one user with a password and one-time codes, no limits.\<close>

definition sample_libs :: "(ipaddr, unit, string, unit, unit, nat, int) libs" where
  "sample_libs =
     \<lparr>lib_net = sample_net,
      lib_user = sample_user_ops,
      lib_auth = sample_auth_ops, lib_gov = sample_gov, lib_f64 = sample_f64, lib_chrono = sample_chrono,
      lib_url = \<lparr>url_parse = (\<lambda>_. None), percent_decode_utf8 = (\<lambda>_. None)\<rparr>\<rparr>"

definition sample_context :: "(ipaddr, unit, unit, nat, int) app_context" where
  "sample_context =
     \<lparr>security = security_new sample_net \<lparr>cfg_ban_enabled = True, cfg_ban_threshold = 3, cfg_ban_window = 60, cfg_ban_duration = 600,
        cfg_ban_whitelist = [], cfg_rate_limit_max_users = 10, cfg_max_new_connections_per_ip_per_minute = 0,
        cfg_rate_limit_max_ips = 10, cfg_ip_reputation_enabled = False, cfg_ip_reputation_ban_threshold = 0,
        cfg_allowed_source_ips = []\<rparr>,
      auth_svc = \<lparr>user_store = [(''al'', sample_user)], trusted_cas = []\<rparr>, used_codes = [],
      quota = tracker_new sample_limits 50, proxy_engine = engine_new sample_engine_config\<rparr>"

definition sample_socks_config :: socks_config where
  "sample_socks_config = \<lparr>engine_cfg = sample_engine_config, limits_cfg = sample_limits, totp_required_for = [''socks5'']\<rparr>"

definition sample_clock :: clock where
  "sample_clock = \<lparr>at_pre_auth = 0, at_auth = 60, at_failure = 0, at_access = 60, at_rate = 0, at_quota_rate = 60,
     at_quota_record = 60, at_quota_bandwidth = 60, at_relay = 60\<rparr>"

lemma sample_pre_auth:
  "snd (pre_auth_check sample_net sample_gov sample_f64 0 ip (security sample_context)) = Inr ()"
  by (simp add: pre_auth_check_def sample_context_def security_new_def check_source_ip_def is_allowed_def sec_is_banned_def
      ip_limiter_check_def ip_limiter_new_def ban_new_def is_banned_def is_whitelisted_def should_ban_def rep_new_def
      Let_def case_prod_beta)

end
