(* ===== verification/Config.thy ===== *)
theory Config
  imports App_Context
begin

text \<open>
  Models the configuration, \<open>src/config/types.rs\<close>, \<open>src/config/mod.rs\<close> and \<open>src/config/redact.rs\<close>:
  the sections with their default values, the validation of a configuration, the loading of a file and
  the redaction of secrets for display. The TOML parser, the \<open>url\<close> crate and the file system are
  parameters; a path is a string. A check that returns \<open>Result<()>\<close> is an optional error.
\<close>

subsection \<open>Sections\<close>

datatype log_level = LevelTrace | LevelDebug | LevelInfo | LevelWarn | LevelError

datatype log_format = FormatPretty | FormatJson

record server_config =
  sv_ssh_listen :: string
  sv_socks5_listen :: "string option"
  sv_host_key_path :: string
  sv_server_id :: string
  sv_banner :: string
  sv_motd_path :: "string option"
  sv_proxy_protocol :: bool
  sv_allowed_ciphers :: "string list"
  sv_allowed_kex :: "string list"
  sv_shutdown_timeout :: u64
  sv_socks5_tls_cert :: "string option"
  sv_socks5_tls_key :: "string option"
  sv_dns_cache_ttl :: int
  sv_dns_cache_max_entries :: u32
  sv_connect_retry :: u32
  sv_connect_retry_delay_ms :: u64
  sv_bookmarks_path :: "string option"
  sv_ssh_keepalive_interval_secs :: u64
  sv_ssh_keepalive_max :: u32
  sv_ssh_auth_timeout :: u64

record shell_config =
  sh_hostname :: string
  sh_prompt :: string
  sh_colors :: bool
  sh_autocomplete :: bool

record limits_config =
  lc_max_connections :: u32
  lc_max_connections_per_user :: u32
  lc_connection_timeout :: u64
  lc_idle_timeout :: u64
  lc_max_auth_attempts :: u32
  lc_socks5_handshake_timeout :: u64
  lc_idle_warning_secs :: u64
  lc_max_bandwidth_mbps :: u64
  lc_max_new_connections_per_second :: u32
  lc_max_new_connections_per_minute :: u32
  lc_udp_relay_timeout :: u64
  lc_max_udp_sessions_per_user :: u32

record 'net security_section =
  se_allowed_source_ips :: "'net list"
  se_ban_enabled :: bool
  se_ban_threshold :: u32
  se_ban_window :: u64
  se_ban_duration :: u64
  se_ban_whitelist :: "string list"
  se_ip_guard_enabled :: bool
  se_totp_required_for :: "string list"
  se_max_new_connections_per_ip_per_minute :: u32
  se_ip_reputation_enabled :: bool
  se_ip_reputation_ban_threshold :: u32
  se_trusted_user_ca_keys :: "string list"
  se_argon2_memory_cost :: u32
  se_argon2_time_cost :: u32
  se_argon2_parallelism :: u32
  se_rate_limit_cleanup_interval :: u64
  se_rate_limit_max_ips :: nat
  se_rate_limit_max_users :: nat

record logging_config =
  lo_level :: log_level
  lo_format :: log_format
  lo_audit_log_path :: "string option"
  lo_audit_max_size_mb :: u64
  lo_audit_max_files :: u32
  lo_connection_flow_logs :: bool

record metrics_config =
  me_enabled :: bool
  me_listen :: string
  me_max_metric_labels :: u32

record api_config =
  api_enabled :: bool
  api_listen :: string
  api_token :: string

record geoip_config =
  geo_enabled :: bool
  geo_database_path :: "string option"
  geo_allowed_countries :: "string list"
  geo_denied_countries :: "string list"
  geo_fail_closed :: bool

record webhook_config =
  wh_url :: string
  wh_events :: "string list"
  wh_secret :: "string option"
  wh_allow_private_ips :: bool
  wh_max_retries :: u32
  wh_retry_delay_ms :: u64
  wh_max_retry_delay_ms :: u64

datatype alert_condition =
  BandwidthExceeded | ConnectionsExceeded | MonthlyBandwidthExceeded | HourlyBandwidthExceeded | AuthFailures

record alert_rule =
  ar_name :: string
  ar_condition :: alert_condition
  ar_threshold :: u64
  ar_window_secs :: u64
  ar_users :: "string list"
  ar_webhook_url :: "string option"

record alerting_config =
  al_enabled :: bool
  al_rules :: "alert_rule list"

record maintenance_window_config =
  mw_schedule :: string
  mw_timezone :: string
  mw_message :: string
  mw_disconnect_existing :: bool

record connection_pool_config =
  cp_enabled :: bool
  cp_max_idle_per_host :: u32
  cp_idle_timeout_secs :: u64

record 'net app_config =
  ac_server :: server_config
  ac_shell :: shell_config
  ac_limits :: limits_config
  ac_security :: "'net security_section"
  ac_logging :: logging_config
  ac_metrics :: metrics_config
  ac_api :: api_config
  ac_geoip :: geoip_config
  ac_upstream_proxy :: "string option"
  ac_webhooks :: "webhook_config list"
  ac_acl :: global_acl_config
  ac_users :: "'net user_config list"
  ac_groups :: "group_config list"
  ac_motd :: motd_config
  ac_alerting :: alerting_config
  ac_maintenance_windows :: "maintenance_window_config list"
  ac_connection_pool :: connection_pool_config

subsection \<open>Default values\<close>

text \<open>The section with only its required fields given, as the \<open>serde\<close> attributes fill it.\<close>

definition server_config_default :: "string \<Rightarrow> server_config" where
  "server_config_default ssh_listen =
     \<lparr>sv_ssh_listen = ssh_listen, sv_socks5_listen = None, sv_host_key_path = ''host_key'',
      sv_server_id = ''SSH-2.0-s5'', sv_banner = ''Welcome to s5'', sv_motd_path = None, sv_proxy_protocol = False,
      sv_allowed_ciphers = [], sv_allowed_kex = [], sv_shutdown_timeout = 30, sv_socks5_tls_cert = None,
      sv_socks5_tls_key = None, sv_dns_cache_ttl = - 1, sv_dns_cache_max_entries = 1000, sv_connect_retry = 0,
      sv_connect_retry_delay_ms = 1000, sv_bookmarks_path = None, sv_ssh_keepalive_interval_secs = 15,
      sv_ssh_keepalive_max = 3, sv_ssh_auth_timeout = 120\<rparr>"

definition shell_config_default :: shell_config where
  "shell_config_default = \<lparr>sh_hostname = ''s5-proxy'', sh_prompt = ''$ '', sh_colors = True, sh_autocomplete = True\<rparr>"

definition limits_config_default :: limits_config where
  "limits_config_default =
     \<lparr>lc_max_connections = 1000, lc_max_connections_per_user = 0, lc_connection_timeout = 300, lc_idle_timeout = 0,
      lc_max_auth_attempts = 3, lc_socks5_handshake_timeout = 30, lc_idle_warning_secs = 0, lc_max_bandwidth_mbps = 0,
      lc_max_new_connections_per_second = 0, lc_max_new_connections_per_minute = 0, lc_udp_relay_timeout = 300,
      lc_max_udp_sessions_per_user = 0\<rparr>"

definition security_section_default :: "'net security_section" where
  "security_section_default =
     \<lparr>se_allowed_source_ips = [], se_ban_enabled = True, se_ban_threshold = 5, se_ban_window = 300,
      se_ban_duration = 900, se_ban_whitelist = [], se_ip_guard_enabled = True, se_totp_required_for = [],
      se_max_new_connections_per_ip_per_minute = 0, se_ip_reputation_enabled = False,
      se_ip_reputation_ban_threshold = 100, se_trusted_user_ca_keys = [], se_argon2_memory_cost = 19456,
      se_argon2_time_cost = 2, se_argon2_parallelism = 1, se_rate_limit_cleanup_interval = 60,
      se_rate_limit_max_ips = 100000, se_rate_limit_max_users = 10000\<rparr>"

definition logging_config_default :: logging_config where
  "logging_config_default =
     \<lparr>lo_level = LevelInfo, lo_format = FormatPretty, lo_audit_log_path = None, lo_audit_max_size_mb = 100,
      lo_audit_max_files = 5, lo_connection_flow_logs = False\<rparr>"

definition metrics_config_default :: metrics_config where
  "metrics_config_default = \<lparr>me_enabled = False, me_listen = ''127.0.0.1:9090'', me_max_metric_labels = 100\<rparr>"

definition api_config_default :: api_config where
  "api_config_default = \<lparr>api_enabled = False, api_listen = ''127.0.0.1:9091'', api_token = []\<rparr>"

definition geoip_config_default :: geoip_config where
  "geoip_config_default =
     \<lparr>geo_enabled = False, geo_database_path = None, geo_allowed_countries = [], geo_denied_countries = [],
      geo_fail_closed = False\<rparr>"

definition global_acl_config_default :: global_acl_config where
  "global_acl_config_default = \<lparr>global_default_policy = AllowConfig, global_allow = [], global_deny = []\<rparr>"

definition user_acl_config_default :: user_acl_config where
  "user_acl_config_default = \<lparr>user_default_policy = None, user_allow = [], user_deny = [], user_inherit = True\<rparr>"

definition motd_config_default :: motd_config where
  "motd_config_default = \<lparr>motd_enabled = True, motd_template = None, motd_colors = True\<rparr>"

definition alerting_config_default :: alerting_config where
  "alerting_config_default = \<lparr>al_enabled = False, al_rules = []\<rparr>"

definition connection_pool_config_default :: connection_pool_config where
  "connection_pool_config_default = \<lparr>cp_enabled = False, cp_max_idle_per_host = 10, cp_idle_timeout_secs = 60\<rparr>"

definition user_config_default :: "string \<Rightarrow> 'net user_config" where
  "user_config_default name =
     \<lparr>c_username = name, c_password_hash = None, c_authorized_keys = [], c_allow_forwarding = True, c_allow_shell = True,
      c_max_new_connections_per_minute = 0, c_max_bandwidth_kbps = 0, c_source_ips = [], c_expires_at = None,
      c_upstream_proxy = None, c_acl = user_acl_config_default, c_totp_secret = None, c_totp_enabled = False,
      c_max_aggregate_bandwidth_kbps = 0, c_group = None, c_role = RoleUser, c_shell_permissions = None, c_motd = None,
      c_quotas = None, c_time_access = None, c_auth_methods = None, c_idle_warning_secs = None, c_colors = None,
      c_connect_retry = None, c_connect_retry_delay_ms = None, c_aliases = [], c_max_connections = None,
      c_rate_limits = None\<rparr>"

text \<open>A file with a \<open>[server]\<close> section that sets \<open>ssh_listen\<close> and with these users.\<close>

definition app_config_default :: "string \<Rightarrow> 'net user_config list \<Rightarrow> 'net app_config" where
  "app_config_default ssh_listen users =
     \<lparr>ac_server = server_config_default ssh_listen, ac_shell = shell_config_default, ac_limits = limits_config_default,
      ac_security = security_section_default, ac_logging = logging_config_default, ac_metrics = metrics_config_default,
      ac_api = api_config_default, ac_geoip = geoip_config_default, ac_upstream_proxy = None, ac_webhooks = [],
      ac_acl = global_acl_config_default, ac_users = users, ac_groups = [], ac_motd = motd_config_default,
      ac_alerting = alerting_config_default, ac_maintenance_windows = [],
      ac_connection_pool = connection_pool_config_default\<rparr>"

subsection \<open>What the components read\<close>

definition server_defaults_of :: "'net app_config \<Rightarrow> server_defaults" where
  "server_defaults_of cfg =
     \<lparr>d_idle_warning_secs = unat (lc_idle_warning_secs (ac_limits cfg)),
      d_max_connections_per_user = lc_max_connections_per_user (ac_limits cfg),
      d_connect_retry = sv_connect_retry (ac_server cfg),
      d_connect_retry_delay_ms = sv_connect_retry_delay_ms (ac_server cfg), d_colors = sh_colors (ac_shell cfg)\<rparr>"

definition security_config_of :: "'net app_config \<Rightarrow> 'net security_config" where
  "security_config_of cfg =
     (let s = ac_security cfg in
      \<lparr>cfg_ban_enabled = se_ban_enabled s, cfg_ban_threshold = se_ban_threshold s,
       cfg_ban_window = unat (se_ban_window s), cfg_ban_duration = unat (se_ban_duration s),
       cfg_ban_whitelist = se_ban_whitelist s, cfg_rate_limit_max_users = se_rate_limit_max_users s,
       cfg_max_new_connections_per_ip_per_minute = se_max_new_connections_per_ip_per_minute s,
       cfg_rate_limit_max_ips = se_rate_limit_max_ips s, cfg_ip_reputation_enabled = se_ip_reputation_enabled s,
       cfg_ip_reputation_ban_threshold = se_ip_reputation_ban_threshold s,
       cfg_allowed_source_ips = se_allowed_source_ips s\<rparr>)"

definition quota_limits_of :: "'net app_config \<Rightarrow> quota_limits" where
  "quota_limits_of cfg =
     \<lparr>max_bandwidth_mbps = lc_max_bandwidth_mbps (ac_limits cfg),
      max_new_connections_per_second = lc_max_new_connections_per_second (ac_limits cfg),
      max_new_connections_per_minute = lc_max_new_connections_per_minute (ac_limits cfg)\<rparr>"

definition auth_new_of ::
  "('net, 'x) ipnet_ops_scheme \<Rightarrow> ('pk, 'y) user_ops_scheme \<Rightarrow> ('h, 'cert, 'fp, 'z) auth_ops_scheme \<Rightarrow> 'net app_config
     \<Rightarrow> user_error + ('net, 'pk, 'fp) auth_service" where
  "auth_new_of N U A cfg =
     auth_new N U A (ac_users cfg) (ac_groups cfg) (ac_acl cfg) (server_defaults_of cfg)
       (se_trusted_user_ca_keys (ac_security cfg))"

subsection \<open>Validation\<close>

datatype config_error =
  SshListenEmpty | BadServerId string | ConnectionTimeoutZero | BanThresholdZero | HandshakeTimeoutLow u64
| HandshakeTimeoutHigh u64 | TlsPairIncomplete | TlsCertNotFound string | TlsKeyNotFound string
| GlobalAclRule string | NoUsers | EmptyUsername | NoCredential string | DuplicateUsername string
| UserAclRule string string | ApiTokenEmpty | ApiTokenShort nat | WebhookUrl nat string | WebhookScheme nat string
| WebhookLocalhost nat string | WebhookPrivate nat ipaddr string | FileMetadata string | FileTooLarge nat
| FileUnreadable string | TomlError

text \<open>\<open>if c { bail!(e) }\<close>, and checks in sequence: the first error is returned.\<close>

definition bail_if :: "bool \<Rightarrow> 'e \<Rightarrow> 'e option" where
  "bail_if c e = (if c then Some e else None)"

primrec first_error :: "'e option list \<Rightarrow> 'e option" where
  "first_error [] = None"
| "first_error (r # rs) = (case r of Some e \<Rightarrow> Some e | None \<Rightarrow> first_error rs)"

definition rule_error :: "('net, 'x) ipnet_ops_scheme \<Rightarrow> (string \<Rightarrow> 'e) \<Rightarrow> string \<Rightarrow> 'e option" where
  "rule_error N mk rule = (case acl_rule_parse N rule of Inl _ \<Rightarrow> Some (mk rule) | Inr _ \<Rightarrow> None)"

definition validate_global_acl :: "('net, 'x) ipnet_ops_scheme \<Rightarrow> 'net app_config \<Rightarrow> config_error option" where
  "validate_global_acl N cfg =
     first_error (map (rule_error N GlobalAclRule) (global_allow (ac_acl cfg))
       @ map (rule_error N GlobalAclRule) (global_deny (ac_acl cfg)))"

definition validate_server :: "'net app_config \<Rightarrow> config_error option" where
  "validate_server cfg =
     first_error
       [bail_if (sv_ssh_listen (ac_server cfg) = []) SshListenEmpty,
        bail_if (\<not> starts_with ''SSH-2.0-'' (sv_server_id (ac_server cfg))) (BadServerId (sv_server_id (ac_server cfg)))]"

definition validate_limits :: "'net app_config \<Rightarrow> config_error option" where
  "validate_limits cfg =
     first_error
       [bail_if (lc_connection_timeout (ac_limits cfg) = 0) ConnectionTimeoutZero,
        bail_if (se_ban_enabled (ac_security cfg) \<and> se_ban_threshold (ac_security cfg) < 1) BanThresholdZero]"

fun validate_user_list ::
  "('net, 'x) ipnet_ops_scheme \<Rightarrow> string list \<Rightarrow> 'net user_config list \<Rightarrow> config_error option" where
  "validate_user_list N seen [] = None"
| "validate_user_list N seen (u # us) =
     first_error
       ([bail_if (c_username u = []) EmptyUsername,
         bail_if (c_password_hash u = None \<and> c_authorized_keys u = []) (NoCredential (c_username u)),
         bail_if (c_username u \<in> set seen) (DuplicateUsername (c_username u))]
        @ map (rule_error N (UserAclRule (c_username u))) (user_allow (c_acl u))
        @ map (rule_error N (UserAclRule (c_username u))) (user_deny (c_acl u))
        @ [validate_user_list N (c_username u # seen) us])"

definition validate_users :: "('net, 'x) ipnet_ops_scheme \<Rightarrow> 'net app_config \<Rightarrow> config_error option" where
  "validate_users N cfg = first_error [bail_if (ac_users cfg = []) NoUsers, validate_user_list N [] (ac_users cfg)]"

definition validate_api :: "'net app_config \<Rightarrow> config_error option" where
  "validate_api cfg =
     first_error
       [bail_if (api_enabled (ac_api cfg) \<and> api_token (ac_api cfg) = []) ApiTokenEmpty,
        bail_if (api_enabled (ac_api cfg) \<and> api_token (ac_api cfg) \<noteq> [] \<and> length (api_token (ac_api cfg)) < 16)
          (ApiTokenShort (length (api_token (ac_api cfg))))]"

definition trim_brackets :: "string \<Rightarrow> string" where
  "trim_brackets host = rev (dropWhile (\<lambda>c. c = CHR '']'') (rev (dropWhile (\<lambda>c. c = CHR ''['') host)))"

definition dangerous_host :: "string \<Rightarrow> ipaddr option" where
  "dangerous_host s = (case parse_ip s of Some ip \<Rightarrow> if is_dangerous_ip ip then Some ip else None | None \<Rightarrow> None)"

definition validate_webhook :: "url_ops \<Rightarrow> nat \<times> webhook_config \<Rightarrow> config_error option" where
  "validate_webhook L = (\<lambda>(i, webhook).
     case url_parse L (wh_url webhook) of
       None \<Rightarrow> Some (WebhookUrl i (wh_url webhook))
     | Some parsed \<Rightarrow>
         if url_scheme parsed \<noteq> ''http'' \<and> url_scheme parsed \<noteq> ''https'' then Some (WebhookScheme i (wh_url webhook))
         else if wh_allow_private_ips webhook then None
         else case url_host parsed of
           None \<Rightarrow> None
         | Some host \<Rightarrow>
             first_error
               [bail_if (host = ''localhost'' \<or> host = ''0.0.0.0'') (WebhookLocalhost i (wh_url webhook)),
                map_option (\<lambda>ip. WebhookPrivate i ip (wh_url webhook)) (dangerous_host host),
                (if trim_brackets host \<noteq> host
                 then map_option (\<lambda>ip. WebhookPrivate i ip (wh_url webhook)) (dangerous_host (trim_brackets host))
                 else None)])"

definition validate_webhooks :: "url_ops \<Rightarrow> 'net app_config \<Rightarrow> config_error option" where
  "validate_webhooks L cfg = first_error (map (validate_webhook L) (enumerate 0 (ac_webhooks cfg)))"

definition validate_socks5_handshake_timeout :: "'net app_config \<Rightarrow> config_error option" where
  "validate_socks5_handshake_timeout cfg =
     (let timeout = lc_socks5_handshake_timeout (ac_limits cfg) in
      first_error [bail_if (timeout < 5) (HandshakeTimeoutLow timeout), bail_if (timeout > 120) (HandshakeTimeoutHigh timeout)])"

definition validate_socks5_tls :: "(string \<Rightarrow> bool) \<Rightarrow> 'net app_config \<Rightarrow> config_error option" where
  "validate_socks5_tls path_exists cfg =
     (case (sv_socks5_tls_cert (ac_server cfg), sv_socks5_tls_key (ac_server cfg)) of
        (None, None) \<Rightarrow> None
      | (Some cert_path, Some key_path) \<Rightarrow>
          first_error
            [bail_if (\<not> path_exists cert_path) (TlsCertNotFound cert_path),
             bail_if (\<not> path_exists key_path) (TlsKeyNotFound key_path)]
      | _ \<Rightarrow> Some TlsPairIncomplete)"

definition validate_config ::
  "('net, 'x) ipnet_ops_scheme \<Rightarrow> url_ops \<Rightarrow> (string \<Rightarrow> bool) \<Rightarrow> 'net app_config \<Rightarrow> config_error option" where
  "validate_config N L path_exists cfg =
     first_error
       [validate_server cfg, validate_limits cfg, validate_socks5_handshake_timeout cfg,
        validate_socks5_tls path_exists cfg, validate_global_acl N cfg, validate_users N cfg, validate_api cfg,
        validate_webhooks L cfg]"

subsection \<open>Loading\<close>

text \<open>The file system and the TOML parser: the size of a file, its text (None where reading fails or
  the bytes are not UTF-8), whether a path exists, the deserialised configuration.\<close>

record 'net config_io =
  file_len :: "string \<Rightarrow> nat option"
  read_to_string :: "string \<Rightarrow> string option"
  path_exists :: "string \<Rightarrow> bool"
  toml_from_str :: "string \<Rightarrow> 'net app_config option"

definition MAX_CONFIG_SIZE :: nat where
  "MAX_CONFIG_SIZE = 1048576"

definition parse_config ::
  "('net, 'x) ipnet_ops_scheme \<Rightarrow> url_ops \<Rightarrow> 'net config_io \<Rightarrow> string \<Rightarrow> config_error + 'net app_config" where
  "parse_config N L F content =
     (case toml_from_str F content of
        None \<Rightarrow> Inl TomlError
      | Some cfg \<Rightarrow> (case validate_config N L (path_exists F) cfg of Some e \<Rightarrow> Inl e | None \<Rightarrow> Inr cfg))"

definition load_config ::
  "('net, 'x) ipnet_ops_scheme \<Rightarrow> url_ops \<Rightarrow> 'net config_io \<Rightarrow> string \<Rightarrow> config_error + 'net app_config" where
  "load_config N L F path =
     (case file_len F path of
        None \<Rightarrow> Inl (FileMetadata path)
      | Some len \<Rightarrow>
          if len > MAX_CONFIG_SIZE then Inl (FileTooLarge len)
          else case read_to_string F path of
            None \<Rightarrow> Inl (FileUnreadable path)
          | Some content \<Rightarrow> parse_config N L F content)"

subsection \<open>Redaction\<close>

definition redact_config :: "'net app_config \<Rightarrow> 'net app_config" where
  "redact_config cfg =
     cfg\<lparr>ac_api := (if api_token (ac_api cfg) \<noteq> [] then (ac_api cfg)\<lparr>api_token := ''***''\<rparr> else ac_api cfg),
         ac_users := map (\<lambda>u. u\<lparr>c_password_hash := map_option (\<lambda>_. ''***'') (c_password_hash u),
                               c_totp_secret := map_option (\<lambda>_. ''***'') (c_totp_secret u)\<rparr>) (ac_users cfg),
         ac_webhooks := map (\<lambda>w. w\<lparr>wh_secret := map_option (\<lambda>_. ''***'') (wh_secret w)\<rparr>) (ac_webhooks cfg)\<rparr>"

subsection \<open>What a validated configuration satisfies\<close>

lemma first_error_None [simp]: "first_error rs = None \<longleftrightarrow> (\<forall>r \<in> set rs. r = None)"
  by (induction rs) (auto split: option.split)

declare first_error.simps [simp del]

lemma bail_if_None [simp]: "bail_if c e = None \<longleftrightarrow> \<not> c"
  by (simp add: bail_if_def)

definition rules_parse :: "('net, 'x) ipnet_ops_scheme \<Rightarrow> string list \<Rightarrow> bool" where
  "rules_parse N rs = list_all (\<lambda>r. case acl_rule_parse N r of Inr _ \<Rightarrow> True | Inl _ \<Rightarrow> False) rs"

lemma rule_error_None: "(\<forall>r \<in> set rs. rule_error N mk r = None) \<longleftrightarrow> rules_parse N rs"
  by (auto simp: rules_parse_def list_all_iff rule_error_def split: sum.splits)

lemma validate_user_list_None:
  "validate_user_list N seen us = None \<longleftrightarrow>
     distinct (map c_username us) \<and> set seen \<inter> set (map c_username us) = {} \<and>
     list_all (\<lambda>u. c_username u \<noteq> [] \<and> (c_password_hash u \<noteq> None \<or> c_authorized_keys u \<noteq> [])
       \<and> rules_parse N (user_allow (c_acl u)) \<and> rules_parse N (user_deny (c_acl u))) us"
  by (induction us arbitrary: seen) (auto simp: ball_Un rule_error_None)

lemma dangerous_host_None: "dangerous_host s = None \<longleftrightarrow> (\<forall>ip. parse_ip s = Some ip \<longrightarrow> \<not> is_dangerous_ip ip)"
  by (auto simp: dangerous_host_def split: option.splits)

text \<open>A webhook target as the check intends it: an http or https URL whose host, where private targets
  are not allowed, is not a local name or a reserved address, plain or in brackets.\<close>

definition webhook_target_ok :: "url_ops \<Rightarrow> webhook_config \<Rightarrow> bool" where
  "webhook_target_ok L w \<longleftrightarrow> (\<exists>parsed. url_parse L (wh_url w) = Some parsed
     \<and> url_scheme parsed \<in> {''http'', ''https''}
     \<and> (wh_allow_private_ips w \<or> (\<forall>host. url_host parsed = Some host \<longrightarrow>
          host \<notin> {''localhost'', ''0.0.0.0''} \<and> dangerous_host host = None \<and> dangerous_host (trim_brackets host) = None)))"

lemma validate_webhook_None: "validate_webhook L (i, w) = None \<longleftrightarrow> webhook_target_ok L w"
  by (auto simp: validate_webhook_def webhook_target_ok_def split: option.split)

lemma validate_webhooks_None: "validate_webhooks L cfg = None \<longleftrightarrow> list_all (webhook_target_ok L) (ac_webhooks cfg)"
proof -
  have "(\<forall>x \<in> set (enumerate n ws). validate_webhook L x = None) \<longleftrightarrow> list_all (webhook_target_ok L) ws" for n ws
    by (induction ws arbitrary: n) (auto simp: validate_webhook_None)
  then show ?thesis by (auto simp: validate_webhooks_def)
qed

lemma validate_socks5_tls_None:
  "validate_socks5_tls present cfg = None \<longleftrightarrow>
     (sv_socks5_tls_cert (ac_server cfg) = None \<longleftrightarrow> sv_socks5_tls_key (ac_server cfg) = None)
     \<and> list_all present (List.map_filter id [sv_socks5_tls_cert (ac_server cfg), sv_socks5_tls_key (ac_server cfg)])"
  by (auto simp: validate_socks5_tls_def map_filter_def split: option.split)

lemma validate_global_acl_None:
  "validate_global_acl N cfg = None \<longleftrightarrow> rules_parse N (global_allow (ac_acl cfg)) \<and> rules_parse N (global_deny (ac_acl cfg))"
  by (auto simp: validate_global_acl_def ball_Un rule_error_None)

lemma validate_users_None:
  "validate_users N cfg = None \<longleftrightarrow> ac_users cfg \<noteq> [] \<and> validate_user_list N [] (ac_users cfg) = None"
  by (simp add: validate_users_def)

lemma validate_server_None:
  "validate_server cfg = None \<longleftrightarrow>
     sv_ssh_listen (ac_server cfg) \<noteq> [] \<and> starts_with ''SSH-2.0-'' (sv_server_id (ac_server cfg))"
  by (simp add: validate_server_def)

lemma validate_limits_None:
  "validate_limits cfg = None \<longleftrightarrow> lc_connection_timeout (ac_limits cfg) \<noteq> 0
     \<and> (\<not> se_ban_enabled (ac_security cfg) \<or> se_ban_threshold (ac_security cfg) \<noteq> 0)"
  by (auto simp: validate_limits_def not_less)

lemma validate_timeout_None:
  "validate_socks5_handshake_timeout cfg = None \<longleftrightarrow>
     5 \<le> lc_socks5_handshake_timeout (ac_limits cfg) \<and> lc_socks5_handshake_timeout (ac_limits cfg) \<le> 120"
  by (simp add: validate_socks5_handshake_timeout_def Let_def not_less)

lemma validate_api_None:
  "validate_api cfg = None \<longleftrightarrow> \<not> api_enabled (ac_api cfg) \<or> 16 \<le> length (api_token (ac_api cfg))"
  by (auto simp: validate_api_def not_less)

lemma validate_config_parts:
  "validate_config N L present cfg = None \<longleftrightarrow>
     validate_server cfg = None \<and> validate_limits cfg = None \<and> validate_socks5_handshake_timeout cfg = None
   \<and> validate_socks5_tls present cfg = None \<and> validate_global_acl N cfg = None \<and> validate_users N cfg = None
   \<and> validate_api cfg = None \<and> validate_webhooks L cfg = None"
  by (simp add: validate_config_def)

lemmas validate_None = validate_server_None validate_limits_None validate_timeout_None validate_socks5_tls_None
  validate_global_acl_None validate_users_None validate_user_list_None validate_api_None validate_webhooks_None

text \<open>Validation accepts a configuration exactly if it listens somewhere under a proper SSH
  identification, its timeouts and ban threshold are in range, certificate and key of the SOCKS5
  listener are both present as files or both absent, every global and user rule parses, there is a
  user, user names are non-empty and distinct and each has a password hash or a key, an enabled
  management interface has a token of at least 16 bytes, and every webhook target is admissible.\<close>

theorem validate_config_iff:
  "validate_config N L present cfg = None \<longleftrightarrow>
     sv_ssh_listen (ac_server cfg) \<noteq> [] \<and> starts_with ''SSH-2.0-'' (sv_server_id (ac_server cfg))
   \<and> lc_connection_timeout (ac_limits cfg) \<noteq> 0
   \<and> (\<not> se_ban_enabled (ac_security cfg) \<or> se_ban_threshold (ac_security cfg) \<noteq> 0)
   \<and> 5 \<le> lc_socks5_handshake_timeout (ac_limits cfg) \<and> lc_socks5_handshake_timeout (ac_limits cfg) \<le> 120
   \<and> (sv_socks5_tls_cert (ac_server cfg) = None \<longleftrightarrow> sv_socks5_tls_key (ac_server cfg) = None)
   \<and> list_all present (List.map_filter id [sv_socks5_tls_cert (ac_server cfg), sv_socks5_tls_key (ac_server cfg)])
   \<and> rules_parse N (global_allow (ac_acl cfg)) \<and> rules_parse N (global_deny (ac_acl cfg))
   \<and> ac_users cfg \<noteq> [] \<and> distinct (map c_username (ac_users cfg))
   \<and> list_all (\<lambda>u. c_username u \<noteq> [] \<and> (c_password_hash u \<noteq> None \<or> c_authorized_keys u \<noteq> [])
        \<and> rules_parse N (user_allow (c_acl u)) \<and> rules_parse N (user_deny (c_acl u))) (ac_users cfg)
   \<and> (\<not> api_enabled (ac_api cfg) \<or> 16 \<le> length (api_token (ac_api cfg)))
   \<and> list_all (webhook_target_ok L) (ac_webhooks cfg)"
  unfolding validate_config_parts validate_None by (simp only: list.set Int_empty_left simp_thms) blast

lemma parse_rules_Inr: "rules_parse N rs \<Longrightarrow> \<exists>rules. parse_rules N rs = Inr rules"
  by (induction rs) (auto simp: rules_parse_def split: sum.splits)

definition acl_parses :: "('net, 'x) ipnet_ops_scheme \<Rightarrow> user_acl_config \<Rightarrow> bool" where
  "acl_parses N acl \<longleftrightarrow> rules_parse N (user_allow acl) \<and> rules_parse N (user_deny acl)"

lemma merge_rules_Inr:
  assumes "rules_parse N gl" and "\<And>g. grp = Some g \<Longrightarrow> rules_parse N g" and "rules_parse N us"
  shows "\<exists>rules. merge_rules N gl grp us = Inr rules"
  using parse_rules_Inr [OF assms(1)] parse_rules_Inr [OF assms(3)] parse_rules_Inr [OF assms(2)]
  by (auto simp: merge_rules_def split: option.split)

lemma merged_Inr:
  assumes "rules_parse N (global_allow ga)" "rules_parse N (global_deny ga)" "acl_parses N acl"
    and "\<And>g. grp = Some g \<Longrightarrow> acl_parses N g"
  shows "\<exists>acl'. from_config_merged_with_group N ga grp acl = Inr acl'"
proof -
  have "\<exists>rs. merge_rules N (global_deny ga) (map_option user_deny grp) (user_deny acl) = Inr rs"
    "\<exists>rs. merge_rules N (global_allow ga) (map_option user_allow grp) (user_allow acl) = Inr rs"
    using assms by (auto simp: acl_parses_def intro!: merge_rules_Inr)
  moreover have "\<exists>rs. parse_rules N (user_allow acl) = Inr rs" "\<exists>rs. parse_rules N (user_deny acl) = Inr rs"
    using assms(3) by (auto simp: acl_parses_def intro!: parse_rules_Inr)
  ultimately show ?thesis by (auto simp: from_config_merged_with_group_def from_config_def Let_def)
qed

definition expiry_parses :: "('pk, 'y) user_ops_scheme \<Rightarrow> 'net user_config \<Rightarrow> bool" where
  "expiry_parses U u \<longleftrightarrow> (case c_expires_at u of None \<Rightarrow> True | Some s \<Rightarrow> parse_datetime U s \<noteq> None)"

lemma user_from_config_total:
  assumes "rules_parse N (global_allow ga)" "rules_parse N (global_deny ga)" "acl_parses N (c_acl cfg)"
    and "list_all (\<lambda>g. acl_parses N (g_acl g)) groups" and "expiry_parses U cfg"
  shows "\<exists>u. user_from_config N U cfg groups ga D = Inr u \<and> u_username u = c_username cfg"
proof -
  let ?g = "Option.bind (c_group cfg) (\<lambda>name. find (\<lambda>g. g_name g = name) groups)"
  have "acl_parses N g" if "map_option g_acl ?g = Some g" for g
    using that assms(4) by (auto simp: list_all_iff find_Some_iff bind_eq_Some_conv)
  then obtain acl where a: "from_config_merged_with_group N ga (map_option g_acl ?g) (c_acl cfg) = Inr acl"
    using merged_Inr [OF assms(1,2,3)] by blast
  have "\<exists>u. user_from_config N U cfg groups ga D = Inr u"
    using assms(5) unfolding user_from_config_def Let_def a expiry_parses_def by (auto split: option.splits)
  then show ?thesis using user_from_config_fields(2) by blast
qed

lemma map_fst_insert_new: "k \<notin> set (map fst m) \<Longrightarrow> map fst (dm_insert k v m) = map fst m @ [k]"
  by (induction m) (auto simp: dm_insert_def)

lemma store_total:
  assumes "\<forall>cfg \<in> set cfgs. \<exists>u. user_from_config N U cfg groups ga D = Inr u \<and> u_username u = c_username cfg"
    and "distinct (map fst users @ map c_username cfgs)"
  shows "\<exists>S. user_store_from_config N U cfgs groups ga D users = Inr S \<and> usernames S = map fst users @ map c_username cfgs"
  using assms
proof (induction cfgs arbitrary: users)
  case (Cons cfg cfgs)
  then obtain u where u: "user_from_config N U cfg groups ga D = Inr u" "u_username u = c_username cfg" by auto
  have m: "map fst (dm_insert (c_username cfg) u users) = map fst users @ [c_username cfg]"
    using Cons.prems(2) by (intro map_fst_insert_new) auto
  show ?case using Cons.IH [of "dm_insert (c_username cfg) u users"] Cons.prems u m by auto
qed (simp add: usernames_def)

lemma validated_auth:
  assumes "validate_config N L present cfg = None"
    and "list_all (\<lambda>g. acl_parses N (g_acl g)) (ac_groups cfg)" and "list_all (expiry_parses U) (ac_users cfg)"
  shows "\<exists>S. auth_new_of N U A cfg = Inr S \<and> usernames (user_store S) = map c_username (ac_users cfg)"
proof -
  have v: "rules_parse N (global_allow (ac_acl cfg))" "rules_parse N (global_deny (ac_acl cfg))"
    "distinct (map c_username (ac_users cfg))" "\<forall>u \<in> set (ac_users cfg). acl_parses N (c_acl u)"
    using assms(1) unfolding validate_config_parts validate_None by (auto simp: list_all_iff acl_parses_def)
  have "\<forall>u \<in> set (ac_users cfg). \<exists>x. user_from_config N U u (ac_groups cfg) (ac_acl cfg) (server_defaults_of cfg) = Inr x
      \<and> u_username x = c_username u"
    using v assms(2,3) by (auto simp: list_all_iff intro!: user_from_config_total)
  from store_total [OF this, of "[]"] v(3) show ?thesis
    by (auto simp: auth_new_of_def auth_new_def)
qed

text \<open>C33: a validated configuration whose group rules parse and whose expiry dates are readable always
  gives an authentication service, which knows exactly the configured users.\<close>

theorem valid_config_starts:
  assumes "validate_config N L present cfg = None"
    and "list_all (\<lambda>g. acl_parses N (g_acl g)) (ac_groups cfg)" and "list_all (expiry_parses U) (ac_users cfg)"
  shows "\<exists>S. auth_new_of N U A cfg = Inr S \<and> usernames (user_store S) = map c_username (ac_users cfg)"
  by (rule validated_auth [OF assms])

text \<open>Replacing every secret of a configuration.\<close>

definition map_secrets :: "(string \<Rightarrow> string) \<Rightarrow> 'net app_config \<Rightarrow> 'net app_config" where
  "map_secrets f cfg =
     cfg\<lparr>ac_api := (ac_api cfg)\<lparr>api_token := f (api_token (ac_api cfg))\<rparr>,
         ac_users := map (\<lambda>u. u\<lparr>c_password_hash := map_option f (c_password_hash u),
                               c_totp_secret := map_option f (c_totp_secret u)\<rparr>) (ac_users cfg),
         ac_webhooks := map (\<lambda>w. w\<lparr>wh_secret := map_option f (wh_secret w)\<rparr>) (ac_webhooks cfg)\<rparr>"

text \<open>The redacted configuration does not depend on the password hashes, one-time-code secrets,
  webhook secrets and the interface token, beyond whether they are set.\<close>

theorem redact_config_secrets:
  assumes "\<And>s. f s = [] \<longleftrightarrow> s = []"
  shows "redact_config (map_secrets f cfg) = redact_config cfg"
  using assms by (simp add: redact_config_def map_secrets_def option.map_comp comp_def)

text \<open>The URL of an upstream proxy, with the password it may contain, is shown as it is.\<close>

lemma redact_keeps_upstream_url:
  "ac_upstream_proxy (redact_config cfg) = ac_upstream_proxy cfg"
  "map c_upstream_proxy (ac_users (redact_config cfg)) = map c_upstream_proxy (ac_users cfg)"
  by (simp_all add: redact_config_def)

subsection \<open>A concrete configuration\<close>

definition sample_app_config :: "ipaddr app_config" where
  "sample_app_config = app_config_default ''0.0.0.0:2222''
     [(user_config_default ''al'')\<lparr>c_password_hash := Some ''hash''\<rparr>]"

definition sample_url_ops :: url_ops where
  "sample_url_ops = \<lparr>url_parse = (\<lambda>_. None), percent_decode_utf8 = (\<lambda>_. None)\<rparr>"

lemma sample_config_valid: "validate_config sample_net sample_url_ops (\<lambda>_. False) sample_app_config = None"
  unfolding validate_config_parts validate_None
  by (simp add: sample_app_config_def app_config_default_def server_config_default_def limits_config_default_def
      security_section_default_def global_acl_config_default_def api_config_default_def user_config_default_def
      user_acl_config_default_def rules_parse_def starts_with_def map_filter_def)

theorem valid_config_starts_witness:
  "\<exists>S. auth_new_of sample_net sample_user_ops sample_auth_ops sample_app_config = Inr S \<and> usernames (user_store S) = [''al'']"
  using valid_config_starts [OF sample_config_valid, of sample_user_ops sample_auth_ops]
  by (simp add: sample_app_config_def app_config_default_def expiry_parses_def user_config_default_def)

theorem redact_config_secrets_witness:
  "redact_config (map_secrets (map (\<lambda>c. CHR ''x'')) sample_app_config) = redact_config sample_app_config
   \<and> map_secrets (map (\<lambda>c. CHR ''x'')) sample_app_config \<noteq> sample_app_config"
proof
  show "redact_config (map_secrets (map (\<lambda>c. CHR ''x'')) sample_app_config) = redact_config sample_app_config"
    by (rule redact_config_secrets) simp
  have "map c_password_hash (ac_users (map_secrets (map (\<lambda>c. CHR ''x'')) sample_app_config)) = [Some ''xxxx'']"
    "map c_password_hash (ac_users sample_app_config) = [Some ''hash'']"
    by (simp_all add: map_secrets_def sample_app_config_def app_config_default_def)
  then show "map_secrets (map (\<lambda>c. CHR ''x'')) sample_app_config \<noteq> sample_app_config" by auto
qed

theorem validate_config_iff_witness:
  "validate_config sample_net sample_url_ops (\<lambda>_. False) sample_app_config = None"
  by (rule validate_config_iff [THEN iffD2])
    (simp add: sample_app_config_def app_config_default_def server_config_default_def limits_config_default_def
      security_section_default_def global_acl_config_default_def api_config_default_def user_config_default_def
      user_acl_config_default_def rules_parse_def starts_with_def map_filter_def)

end
