(* ===== verification/Config_Env.thy ===== *)
theory Config_Env
  imports Config
begin

text \<open>
  Models \<open>src/config/env.rs\<close> and the choice of the configuration in \<open>src/main.rs\<close>: configuration from
  environment variables (one user or indexed users), secrets from files, overrides on top of a file
  and the removal of secrets from the environment. The environment is a map of variables; a
  value that is not Unicode is visible to \<open>var_os\<close> only. Fields parse as the types they have.
\<close>

subsection \<open>Reading variables\<close>

type_synonym env = "(string, string) dmap"

definition env_var :: "env \<Rightarrow> string \<Rightarrow> string option" where
  "env_var E key = (case map_of E key of Some v \<Rightarrow> if valid_utf8 (bytes_of v) then Some v else None | None \<Rightarrow> None)"

definition opt_env :: "env \<Rightarrow> string \<Rightarrow> string option" where
  "opt_env E key = (case env_var E key of Some v \<Rightarrow> if v = [] then None else Some v | None \<Rightarrow> None)"

datatype env_error =
  MissingVar string | SecretFileUnreadable string | SecretFileEmpty string | NoCredentialVars
| IndexedNoCredentials nat string | NoIndexedUsers | InvalidCidr string | InvalidPolicy string
| InvalidLogLevel string | InvalidLogFormat string

definition resolve_env_or_file :: "'net config_io \<Rightarrow> env \<Rightarrow> string \<Rightarrow> env_error + string option" where
  "resolve_env_or_file F E key =
     (case opt_env E key of
        Some val \<Rightarrow> Inr (Some val)
      | None \<Rightarrow>
          (case opt_env E (key @ ''_FILE'') of
             None \<Rightarrow> Inr None
           | Some path \<Rightarrow>
               (case read_to_string F path of
                  None \<Rightarrow> Inl (SecretFileUnreadable (key @ ''_FILE''))
                | Some content \<Rightarrow>
                    (let trimmed = trim_str content in
                     if trimmed = [] then Inl (SecretFileEmpty (key @ ''_FILE'')) else Inr (Some trimmed)))))"

definition require_env :: "env \<Rightarrow> string \<Rightarrow> env_error + string" where
  "require_env E key = (case opt_env E key of Some v \<Rightarrow> Inr v | None \<Rightarrow> Inl (MissingVar key))"

text \<open>\<open>parse_env\<close> for a type with this \<open>from_str\<close>.\<close>

definition parse_env :: "(string \<Rightarrow> 'a option) \<Rightarrow> env \<Rightarrow> string \<Rightarrow> 'a \<Rightarrow> 'a" where
  "parse_env from_str E key d = unwrap_or (Option.bind (opt_env E key) from_str) d"

definition u32_from_str :: "string \<Rightarrow> u32 option" where
  "u32_from_str s = map_option of_nat (parse_uint (2 ^ 32) s)"

definition u64_from_str :: "string \<Rightarrow> u64 option" where
  "u64_from_str s = map_option of_nat (parse_uint (2 ^ 64) s)"

definition usize_from_str :: "string \<Rightarrow> nat option" where
  "usize_from_str s = parse_uint (2 ^ 64) s"

definition i64_from_str :: "string \<Rightarrow> int option" where
  "i64_from_str s =
     (case s of
        c # cs \<Rightarrow>
          if c = CHR ''-'' then
            (if cs \<noteq> [] \<and> list_all is_ascii_digit cs then map_option (\<lambda>n. - int n) (parse_uint (2 ^ 63 + 1) cs) else None)
          else map_option int (parse_uint (2 ^ 63) s)
      | [] \<Rightarrow> None)"

definition parse_bool_env :: "env \<Rightarrow> string \<Rightarrow> bool \<Rightarrow> bool" where
  "parse_bool_env E key d =
     (case opt_env E key of
        None \<Rightarrow> d
      | Some v \<Rightarrow> to_ascii_lowercase v \<in> {''true'', ''1'', ''yes''})"

definition parse_csv_env :: "env \<Rightarrow> string \<Rightarrow> string list" where
  "parse_csv_env E key =
     (case opt_env E key of
        None \<Rightarrow> []
      | Some s \<Rightarrow> filter (\<lambda>v. v \<noteq> []) (map trim_str (split_on CHR '','' s)))"

fun parse_all :: "(string \<Rightarrow> 'a option) \<Rightarrow> string list \<Rightarrow> 'a list option" where
  "parse_all f [] = Some []"
| "parse_all f (s # ss) =
     (case f s of None \<Rightarrow> None | Some x \<Rightarrow> (case parse_all f ss of None \<Rightarrow> None | Some xs \<Rightarrow> Some (x # xs)))"

definition parse_cidr_csv_env :: "('net, 'x) ipnet_ops_scheme \<Rightarrow> env \<Rightarrow> string \<Rightarrow> env_error + 'net list" where
  "parse_cidr_csv_env N E key =
     (case opt_env E key of
        None \<Rightarrow> Inr []
      | Some s \<Rightarrow>
          (case parse_all (\<lambda>v. net_parse N (trim_str v)) (filter (\<lambda>v. trim_str v \<noteq> []) (split_on CHR '','' s)) of
             None \<Rightarrow> Inl (InvalidCidr key)
           | Some nets \<Rightarrow> Inr nets))"

definition parse_acl_policy :: "string \<Rightarrow> env_error + acl_policy_config" where
  "parse_acl_policy s =
     (let l = to_ascii_lowercase s in
      if l = ''allow'' then Inr AllowConfig else if l = ''deny'' then Inr DenyConfig else Inl (InvalidPolicy s))"

definition parse_log_level :: "string \<Rightarrow> env_error + log_level" where
  "parse_log_level s =
     (let l = to_ascii_lowercase s in
      if l = ''trace'' then Inr LevelTrace else if l = ''debug'' then Inr LevelDebug
      else if l = ''info'' then Inr LevelInfo else if l = ''warn'' then Inr LevelWarn
      else if l = ''error'' then Inr LevelError else Inl (InvalidLogLevel s))"

definition parse_log_format :: "string \<Rightarrow> env_error + log_format" where
  "parse_log_format s =
     (let l = to_ascii_lowercase s in
      if l = ''pretty'' then Inr FormatPretty else if l = ''json'' then Inr FormatJson else Inl (InvalidLogFormat s))"

text \<open>\<open>opt_env(key).map(parse).transpose()?\<close>.\<close>

definition opt_parsed :: "(string \<Rightarrow> env_error + 'a) \<Rightarrow> env \<Rightarrow> string \<Rightarrow> env_error + 'a option" where
  "opt_parsed f E key =
     (case opt_env E key of
        None \<Rightarrow> Inr None
      | Some s \<Rightarrow> (case f s of Inl e \<Rightarrow> Inl e | Inr x \<Rightarrow> Inr (Some x)))"

subsection \<open>Users\<close>

definition build_rate_limits_from_env :: "env \<Rightarrow> string \<Rightarrow> rate_limits_config option" where
  "build_rate_limits_from_env E prefix =
     (let per_sec = opt_env E (prefix @ ''_PER_SECOND''); per_min = opt_env E (prefix @ ''_PER_MINUTE'');
          per_hour = opt_env E (prefix @ ''_PER_HOUR'')
      in if per_sec = None \<and> per_min = None \<and> per_hour = None then None
         else Some \<lparr>connections_per_second = unwrap_or (Option.bind per_sec u32_from_str) 0,
                    connections_per_minute = unwrap_or (Option.bind per_min u32_from_str) 0,
                    connections_per_hour = unwrap_or (Option.bind per_hour u32_from_str) 0\<rparr>)"

definition build_user_config ::
  "('net, 'x) ipnet_ops_scheme \<Rightarrow> 'net config_io \<Rightarrow> env \<Rightarrow> string \<Rightarrow> string \<Rightarrow> string option \<Rightarrow> string list
     \<Rightarrow> env_error + 'net user_config" where
  "build_user_config N F E prefix username password_hash authorized_keys =
     (case parse_cidr_csv_env N E (prefix @ ''SOURCE_IPS'') of
        Inl e \<Rightarrow> Inl e
      | Inr nets \<Rightarrow>
        (case opt_parsed parse_acl_policy E (prefix @ ''ACL_DEFAULT_POLICY'') of
           Inl e \<Rightarrow> Inl e
         | Inr policy \<Rightarrow>
           (case resolve_env_or_file F E (prefix @ ''TOTP_SECRET'') of
              Inl e \<Rightarrow> Inl e
            | Inr totp \<Rightarrow> Inr
                \<lparr>c_username = username, c_password_hash = password_hash, c_authorized_keys = authorized_keys,
                 c_allow_forwarding = parse_bool_env E (prefix @ ''ALLOW_FORWARDING'') True,
                 c_allow_shell = parse_bool_env E (prefix @ ''ALLOW_SHELL'') True,
                 c_max_new_connections_per_minute = parse_env u32_from_str E (prefix @ ''MAX_NEW_CONNECTIONS_PER_MINUTE'') 0,
                 c_max_bandwidth_kbps = parse_env u64_from_str E (prefix @ ''MAX_BANDWIDTH_KBPS'') 0,
                 c_source_ips = nets,
                 c_expires_at = opt_env E (prefix @ ''EXPIRES_AT''),
                 c_upstream_proxy = opt_env E (prefix @ ''UPSTREAM_PROXY''),
                 c_acl = \<lparr>user_default_policy = policy, user_allow = parse_csv_env E (prefix @ ''ACL_ALLOW''),
                          user_deny = parse_csv_env E (prefix @ ''ACL_DENY''),
                          user_inherit = parse_bool_env E (prefix @ ''ACL_INHERIT'') True\<rparr>,
                 c_totp_secret = totp,
                 c_totp_enabled = parse_bool_env E (prefix @ ''TOTP_ENABLED'') False,
                 c_max_aggregate_bandwidth_kbps = parse_env u64_from_str E (prefix @ ''MAX_AGGREGATE_BANDWIDTH_KBPS'') 0,
                 c_group = opt_env E (prefix @ ''GROUP''),
                 c_role = RoleUser, c_shell_permissions = None, c_motd = None, c_quotas = None, c_time_access = None,
                 c_auth_methods = None, c_idle_warning_secs = None, c_colors = None, c_connect_retry = None,
                 c_connect_retry_delay_ms = None, c_aliases = [],
                 c_max_connections = map_option (\<lambda>v. unwrap_or (u32_from_str v) 0) (opt_env E (prefix @ ''MAX_CONNECTIONS'')),
                 c_rate_limits = build_rate_limits_from_env E (prefix @ ''RATE_LIMIT'')\<rparr>)))"

definition split_keys :: "string option \<Rightarrow> string list" where
  "split_keys ks = (case ks of None \<Rightarrow> [] | Some s \<Rightarrow> map trim_str (split_on CHR '','' s))"

definition build_single_user_from_env ::
  "('net, 'x) ipnet_ops_scheme \<Rightarrow> 'net config_io \<Rightarrow> env \<Rightarrow> env_error + 'net user_config" where
  "build_single_user_from_env N F E =
     (case resolve_env_or_file F E ''S5_PASSWORD_HASH'' of
        Inl e \<Rightarrow> Inl e
      | Inr password_hash \<Rightarrow>
        (let keys = opt_env E ''S5_AUTHORIZED_KEYS'' in
         if password_hash = None \<and> keys = None then Inl NoCredentialVars
         else
           (case build_user_config N F E ''S5_'' (unwrap_or (opt_env E ''S5_USERNAME'') ''user'') password_hash (split_keys keys) of
              Inl e \<Rightarrow> Inl e
            | Inr user \<Rightarrow>
                (let user1 = (if c_upstream_proxy user = None
                              then user\<lparr>c_upstream_proxy := opt_env E ''S5_USER_UPSTREAM_PROXY''\<rparr> else user)
                 in Inr (if c_max_connections user1 = None
                         then user1\<lparr>c_max_connections :=
                                map_option (\<lambda>v. unwrap_or (u32_from_str v) 0) (opt_env E ''S5_MAX_CONNECTIONS_USER'')\<rparr>
                         else user1)))))"

definition user_prefix :: "nat \<Rightarrow> string" where
  "user_prefix idx = ''S5_USER_'' @ show_nat idx @ ''_''"

text \<open>The indices from \<open>idx\<close> on whose user name is in the environment: finitely many, so the loops
  over the indices end.\<close>

definition indices_from :: "env \<Rightarrow> nat \<Rightarrow> nat set" where
  "indices_from E idx = {j. idx \<le> j \<and> dm_contains E (user_prefix j @ ''USERNAME'')}"

lemma user_prefix_inj [simp]: "user_prefix i = user_prefix j \<longleftrightarrow> i = j"
  by (simp add: user_prefix_def)

lemma finite_indices [simp]: "finite (indices_from E idx)"
proof -
  have "inj_on (\<lambda>j. user_prefix j @ ''USERNAME'') (indices_from E idx)" by (auto intro!: inj_onI)
  moreover have "(\<lambda>j. user_prefix j @ ''USERNAME'') ` indices_from E idx \<subseteq> set (map fst E)"
    by (auto simp: indices_from_def dm_contains_def)
  ultimately show ?thesis by (meson List.finite_set inj_on_finite)
qed

lemma indices_decrease:
  assumes "dm_contains E (user_prefix idx @ ''USERNAME'')"
    and "\<And>k. dm_contains E' k \<Longrightarrow> dm_contains E k"
  shows "card (indices_from E' (Suc idx)) < card (indices_from E idx)"
proof (rule psubset_card_mono)
  have "idx \<in> indices_from E idx" using assms(1) by (simp add: indices_from_def)
  moreover have "indices_from E' (Suc idx) \<subseteq> indices_from E idx - {idx}" using assms(2) by (auto simp: indices_from_def)
  ultimately show "indices_from E' (Suc idx) \<subset> indices_from E idx" by blast
qed simp

lemma opt_env_contains: "opt_env E k = Some v \<Longrightarrow> dm_contains E k"
  by (auto simp: opt_env_def env_var_def dm_contains_map_of split: option.splits)

function collect_indexed_from ::
  "('net, 'x) ipnet_ops_scheme \<Rightarrow> 'net config_io \<Rightarrow> env \<Rightarrow> nat \<Rightarrow> env_error + 'net user_config list" where
  "collect_indexed_from N F E idx =
     (let prefix = user_prefix idx in
      case opt_env E (prefix @ ''USERNAME'') of
        None \<Rightarrow> Inr []
      | Some username \<Rightarrow>
        (case resolve_env_or_file F E (prefix @ ''PASSWORD_HASH'') of
           Inl e \<Rightarrow> Inl e
         | Inr password_hash \<Rightarrow>
           (let keys = opt_env E (prefix @ ''AUTHORIZED_KEYS'') in
            if password_hash = None \<and> keys = None then Inl (IndexedNoCredentials idx username)
            else
              (case build_user_config N F E prefix username password_hash (split_keys keys) of
                 Inl e \<Rightarrow> Inl e
               | Inr u \<Rightarrow>
                 (case collect_indexed_from N F E (Suc idx) of Inl e \<Rightarrow> Inl e | Inr us \<Rightarrow> Inr (u # us))))))"
  by pat_completeness auto

termination
  by (relation "measure (\<lambda>(N, F, E, idx). card (indices_from E idx))")
    (auto intro!: indices_decrease dest: opt_env_contains)

declare collect_indexed_from.simps [simp del]

definition collect_indexed_users ::
  "('net, 'x) ipnet_ops_scheme \<Rightarrow> 'net config_io \<Rightarrow> env \<Rightarrow> env_error + 'net user_config list" where
  "collect_indexed_users N F E =
     (case collect_indexed_from N F E 0 of
        Inl e \<Rightarrow> Inl e
      | Inr users \<Rightarrow> if users = [] then Inl NoIndexedUsers else Inr users)"

subsection \<open>Clearing secrets\<close>

definition sensitive_suffixes :: "string list" where
  "sensitive_suffixes =
     [''PASSWORD_HASH'', ''PASSWORD_HASH_FILE'', ''API_TOKEN'', ''API_TOKEN_FILE'', ''TOTP_SECRET'', ''TOTP_SECRET_FILE'']"

definition clear_prefixed :: "string \<Rightarrow> env \<Rightarrow> env" where
  "clear_prefixed prefix E = dm_remove_all (map (\<lambda>s. prefix @ s) sensitive_suffixes) E"

lemma clear_prefixed_contains: "dm_contains (clear_prefixed p E) k \<Longrightarrow> dm_contains E k"
  by (auto simp: clear_prefixed_def dm_remove_all_eq dm_contains_def)

function clear_indexed :: "env \<Rightarrow> nat \<Rightarrow> env" where
  "clear_indexed E idx =
     (if dm_contains E (user_prefix idx @ ''USERNAME'') then clear_indexed (clear_prefixed (user_prefix idx) E) (Suc idx) else E)"
  by pat_completeness auto

termination
  by (relation "measure (\<lambda>(E, idx). card (indices_from E idx))")
    (auto intro!: indices_decrease dest: clear_prefixed_contains)

declare clear_indexed.simps [simp del]

definition clear_sensitive_env_vars :: "env \<Rightarrow> env" where
  "clear_sensitive_env_vars E = clear_indexed (clear_prefixed ''S5_'' E) 0"

subsection \<open>Configuration from the environment\<close>

definition is_set :: "env \<Rightarrow> string \<Rightarrow> bool" where
  "is_set E key \<longleftrightarrow> env_var E key \<noteq> None"

definition can_build_from_env :: "env \<Rightarrow> bool" where
  "can_build_from_env E \<longleftrightarrow> is_set E ''S5_SSH_LISTEN'' \<and>
     (is_set E ''S5_USER_0_USERNAME'' \<or> is_set E ''S5_PASSWORD_HASH'' \<or> is_set E ''S5_PASSWORD_HASH_FILE''
      \<or> is_set E ''S5_AUTHORIZED_KEYS'')"

definition env_server :: "env \<Rightarrow> string \<Rightarrow> server_config" where
  "env_server E ssh_listen =
     \<lparr>sv_ssh_listen = ssh_listen, sv_socks5_listen = opt_env E ''S5_SOCKS5_LISTEN'',
      sv_host_key_path = unwrap_or (opt_env E ''S5_HOST_KEY_PATH'') ''host_key'',
      sv_server_id = unwrap_or (opt_env E ''S5_SERVER_ID'') ''SSH-2.0-s5'',
      sv_banner = unwrap_or (opt_env E ''S5_BANNER'') ''Welcome to s5'',
      sv_motd_path = opt_env E ''S5_MOTD_PATH'',
      sv_proxy_protocol = parse_bool_env E ''S5_PROXY_PROTOCOL'' False,
      sv_allowed_ciphers = parse_csv_env E ''S5_ALLOWED_CIPHERS'',
      sv_allowed_kex = parse_csv_env E ''S5_ALLOWED_KEX'',
      sv_shutdown_timeout = parse_env u64_from_str E ''S5_SHUTDOWN_TIMEOUT'' 30,
      sv_socks5_tls_cert = opt_env E ''S5_SOCKS5_TLS_CERT'',
      sv_socks5_tls_key = opt_env E ''S5_SOCKS5_TLS_KEY'',
      sv_dns_cache_ttl = parse_env i64_from_str E ''S5_DNS_CACHE_TTL'' (- 1),
      sv_dns_cache_max_entries = parse_env u32_from_str E ''S5_DNS_CACHE_MAX_ENTRIES'' 1000,
      sv_connect_retry = parse_env u32_from_str E ''S5_CONNECT_RETRY'' 0,
      sv_connect_retry_delay_ms = parse_env u64_from_str E ''S5_CONNECT_RETRY_DELAY_MS'' 1000,
      sv_bookmarks_path = opt_env E ''S5_BOOKMARKS_PATH'',
      sv_ssh_keepalive_interval_secs = parse_env u64_from_str E ''S5_SSH_KEEPALIVE_INTERVAL'' 15,
      sv_ssh_keepalive_max = parse_env u32_from_str E ''S5_SSH_KEEPALIVE_MAX'' 3,
      sv_ssh_auth_timeout = parse_env u64_from_str E ''S5_SSH_AUTH_TIMEOUT'' 120\<rparr>"

definition env_shell :: "env \<Rightarrow> shell_config" where
  "env_shell E =
     \<lparr>sh_hostname = unwrap_or (opt_env E ''S5_SHELL_HOSTNAME'') ''s5-proxy'',
      sh_prompt = unwrap_or (opt_env E ''S5_SHELL_PROMPT'') ''$ '',
      sh_colors = parse_bool_env E ''S5_SHELL_COLORS'' True,
      sh_autocomplete = parse_bool_env E ''S5_SHELL_AUTOCOMPLETE'' True\<rparr>"

definition env_limits :: "env \<Rightarrow> limits_config" where
  "env_limits E =
     \<lparr>lc_max_connections = parse_env u32_from_str E ''S5_MAX_CONNECTIONS'' 1000,
      lc_max_connections_per_user = parse_env u32_from_str E ''S5_MAX_CONNECTIONS_PER_USER'' 0,
      lc_connection_timeout = parse_env u64_from_str E ''S5_CONNECTION_TIMEOUT'' 300,
      lc_idle_timeout = parse_env u64_from_str E ''S5_IDLE_TIMEOUT'' 0,
      lc_max_auth_attempts = parse_env u32_from_str E ''S5_MAX_AUTH_ATTEMPTS'' 3,
      lc_socks5_handshake_timeout = parse_env u64_from_str E ''S5_SOCKS5_HANDSHAKE_TIMEOUT'' 30,
      lc_idle_warning_secs = parse_env u64_from_str E ''S5_IDLE_WARNING_SECS'' 0,
      lc_max_bandwidth_mbps = parse_env u64_from_str E ''S5_MAX_BANDWIDTH_MBPS'' 0,
      lc_max_new_connections_per_second = parse_env u32_from_str E ''S5_MAX_NEW_CONNECTIONS_PER_SECOND'' 0,
      lc_max_new_connections_per_minute = parse_env u32_from_str E ''S5_MAX_NEW_CONNECTIONS_PER_MINUTE_SERVER'' 0,
      lc_udp_relay_timeout = parse_env u64_from_str E ''S5_UDP_RELAY_TIMEOUT'' 300,
      lc_max_udp_sessions_per_user = parse_env u32_from_str E ''S5_MAX_UDP_SESSIONS_PER_USER'' 0\<rparr>"

definition env_security :: "env \<Rightarrow> 'net list \<Rightarrow> 'net security_section" where
  "env_security E nets =
     \<lparr>se_allowed_source_ips = nets,
      se_ban_enabled = parse_bool_env E ''S5_BAN_ENABLED'' True,
      se_ban_threshold = parse_env u32_from_str E ''S5_BAN_THRESHOLD'' 5,
      se_ban_window = parse_env u64_from_str E ''S5_BAN_WINDOW'' 300,
      se_ban_duration = parse_env u64_from_str E ''S5_BAN_DURATION'' 900,
      se_ban_whitelist = parse_csv_env E ''S5_BAN_WHITELIST'',
      se_ip_guard_enabled = parse_bool_env E ''S5_IP_GUARD_ENABLED'' True,
      se_totp_required_for = parse_csv_env E ''S5_TOTP_REQUIRED_FOR'',
      se_max_new_connections_per_ip_per_minute = parse_env u32_from_str E ''S5_MAX_NEW_CONNECTIONS_PER_IP_PER_MINUTE'' 0,
      se_ip_reputation_enabled = parse_bool_env E ''S5_IP_REPUTATION_ENABLED'' False,
      se_ip_reputation_ban_threshold = parse_env u32_from_str E ''S5_IP_REPUTATION_BAN_THRESHOLD'' 100,
      se_trusted_user_ca_keys = parse_csv_env E ''S5_TRUSTED_USER_CA_KEYS'',
      se_argon2_memory_cost = parse_env u32_from_str E ''S5_ARGON2_MEMORY_COST'' 19456,
      se_argon2_time_cost = parse_env u32_from_str E ''S5_ARGON2_TIME_COST'' 2,
      se_argon2_parallelism = parse_env u32_from_str E ''S5_ARGON2_PARALLELISM'' 1,
      se_rate_limit_cleanup_interval = parse_env u64_from_str E ''S5_RATE_LIMIT_CLEANUP_INTERVAL'' 60,
      se_rate_limit_max_ips = parse_env usize_from_str E ''S5_RATE_LIMIT_MAX_IPS'' 100000,
      se_rate_limit_max_users = parse_env usize_from_str E ''S5_RATE_LIMIT_MAX_USERS'' 10000\<rparr>"

definition env_app_config ::
  "env \<Rightarrow> string \<Rightarrow> 'net user_config list \<Rightarrow> 'net list \<Rightarrow> log_level option \<Rightarrow> log_format option \<Rightarrow> string option
     \<Rightarrow> acl_policy_config option \<Rightarrow> 'net app_config" where
  "env_app_config E ssh_listen users nets level format token policy =
     \<lparr>ac_server = env_server E ssh_listen, ac_shell = env_shell E, ac_limits = env_limits E,
      ac_security = env_security E nets,
      ac_logging =
        \<lparr>lo_level = unwrap_or level LevelInfo, lo_format = unwrap_or format FormatPretty,
         lo_audit_log_path = opt_env E ''S5_AUDIT_LOG_PATH'',
         lo_audit_max_size_mb = parse_env u64_from_str E ''S5_AUDIT_MAX_SIZE_MB'' 100,
         lo_audit_max_files = parse_env u32_from_str E ''S5_AUDIT_MAX_FILES'' 5,
         lo_connection_flow_logs = parse_bool_env E ''S5_CONNECTION_FLOW_LOGS'' False\<rparr>,
      ac_metrics =
        \<lparr>me_enabled = parse_bool_env E ''S5_METRICS_ENABLED'' False,
         me_listen = unwrap_or (opt_env E ''S5_METRICS_LISTEN'') ''127.0.0.1:9090'',
         me_max_metric_labels = parse_env u32_from_str E ''S5_MAX_METRIC_LABELS'' 100\<rparr>,
      ac_api =
        \<lparr>api_enabled = parse_bool_env E ''S5_API_ENABLED'' False,
         api_listen = unwrap_or (opt_env E ''S5_API_LISTEN'') ''127.0.0.1:9091'',
         api_token = unwrap_or token []\<rparr>,
      ac_geoip =
        \<lparr>geo_enabled = parse_bool_env E ''S5_GEOIP_ENABLED'' False,
         geo_database_path = opt_env E ''S5_GEOIP_DATABASE_PATH'',
         geo_allowed_countries = parse_csv_env E ''S5_GEOIP_ALLOWED_COUNTRIES'',
         geo_denied_countries = parse_csv_env E ''S5_GEOIP_DENIED_COUNTRIES'',
         geo_fail_closed = parse_bool_env E ''S5_GEOIP_FAIL_CLOSED'' False\<rparr>,
      ac_upstream_proxy = opt_env E ''S5_UPSTREAM_PROXY_URL'', ac_webhooks = [],
      ac_acl =
        \<lparr>global_default_policy = unwrap_or policy AllowConfig, global_allow = parse_csv_env E ''S5_GLOBAL_ACL_ALLOW'',
         global_deny = parse_csv_env E ''S5_GLOBAL_ACL_DENY''\<rparr>,
      ac_users = users, ac_groups = [], ac_motd = motd_config_default, ac_alerting = alerting_config_default,
      ac_maintenance_windows = [], ac_connection_pool = connection_pool_config_default\<rparr>"

definition env_users :: "('net, 'x) ipnet_ops_scheme \<Rightarrow> 'net config_io \<Rightarrow> env \<Rightarrow> env_error + 'net user_config list" where
  "env_users N F E =
     (if is_set E ''S5_USER_0_USERNAME'' then collect_indexed_users N F E
      else (case build_single_user_from_env N F E of Inl e \<Rightarrow> Inl e | Inr u \<Rightarrow> Inr [u]))"

text \<open>The configuration, and the environment the process goes on with.\<close>

definition build_config_from_env ::
  "('net, 'x) ipnet_ops_scheme \<Rightarrow> 'net config_io \<Rightarrow> env \<Rightarrow> env \<times> (env_error + 'net app_config)" where
  "build_config_from_env N F E =
     (case require_env E ''S5_SSH_LISTEN'' of
        Inl e \<Rightarrow> (E, Inl e)
      | Inr ssh_listen \<Rightarrow>
     (case env_users N F E of
        Inl e \<Rightarrow> (E, Inl e)
      | Inr users \<Rightarrow>
     (case parse_cidr_csv_env N E ''S5_ALLOWED_SOURCE_IPS'' of
        Inl e \<Rightarrow> (E, Inl e)
      | Inr nets \<Rightarrow>
     (case opt_parsed parse_log_level E ''S5_LOG_LEVEL'' of
        Inl e \<Rightarrow> (E, Inl e)
      | Inr level \<Rightarrow>
     (case opt_parsed parse_log_format E ''S5_LOG_FORMAT'' of
        Inl e \<Rightarrow> (E, Inl e)
      | Inr format \<Rightarrow>
     (case resolve_env_or_file F E ''S5_API_TOKEN'' of
        Inl e \<Rightarrow> (E, Inl e)
      | Inr token \<Rightarrow>
     (case opt_parsed parse_acl_policy E ''S5_GLOBAL_ACL_DEFAULT_POLICY'' of
        Inl e \<Rightarrow> (E, Inl e)
      | Inr policy \<Rightarrow>
          (clear_sensitive_env_vars E, Inr (env_app_config E ssh_listen users nets level format token policy)))))))))"

subsection \<open>Overrides\<close>

definition when_set :: "env \<Rightarrow> string \<Rightarrow> (string \<Rightarrow> 'c \<Rightarrow> 'c) \<Rightarrow> 'c \<Rightarrow> 'c" where
  "when_set E key f c = (case opt_env E key of None \<Rightarrow> c | Some v \<Rightarrow> f v c)"

definition if_set :: "env \<Rightarrow> string \<Rightarrow> ('c \<Rightarrow> 'c) \<Rightarrow> 'c \<Rightarrow> 'c" where
  "if_set E key f c = (if is_set E key then f c else c)"

definition override_server :: "env \<Rightarrow> server_config \<Rightarrow> server_config" where
  "override_server E =
     if_set E ''S5_PROXY_PROTOCOL'' (\<lambda>s. s\<lparr>sv_proxy_protocol := parse_bool_env E ''S5_PROXY_PROTOCOL'' False\<rparr>)
     \<circ> when_set E ''S5_BANNER'' (\<lambda>v s. s\<lparr>sv_banner := v\<rparr>)
     \<circ> when_set E ''S5_HOST_KEY_PATH'' (\<lambda>v s. s\<lparr>sv_host_key_path := v\<rparr>)
     \<circ> when_set E ''S5_SOCKS5_LISTEN'' (\<lambda>v s. s\<lparr>sv_socks5_listen := Some v\<rparr>)
     \<circ> when_set E ''S5_SSH_LISTEN'' (\<lambda>v s. s\<lparr>sv_ssh_listen := v\<rparr>)"

definition override_logging :: "env \<Rightarrow> logging_config \<Rightarrow> logging_config" where
  "override_logging E =
     when_set E ''S5_LOG_FORMAT'' (\<lambda>v l. case parse_log_format v of Inr x \<Rightarrow> l\<lparr>lo_format := x\<rparr> | Inl _ \<Rightarrow> l)
     \<circ> when_set E ''S5_LOG_LEVEL'' (\<lambda>v l. case parse_log_level v of Inr x \<Rightarrow> l\<lparr>lo_level := x\<rparr> | Inl _ \<Rightarrow> l)"

definition override_limits :: "env \<Rightarrow> limits_config \<Rightarrow> limits_config" where
  "override_limits E =
     if_set E ''S5_MAX_NEW_CONNECTIONS_PER_MINUTE_SERVER'' (\<lambda>l. l\<lparr>lc_max_new_connections_per_minute :=
       parse_env u32_from_str E ''S5_MAX_NEW_CONNECTIONS_PER_MINUTE_SERVER'' (lc_max_new_connections_per_minute l)\<rparr>)
     \<circ> if_set E ''S5_MAX_NEW_CONNECTIONS_PER_SECOND'' (\<lambda>l. l\<lparr>lc_max_new_connections_per_second :=
       parse_env u32_from_str E ''S5_MAX_NEW_CONNECTIONS_PER_SECOND'' (lc_max_new_connections_per_second l)\<rparr>)
     \<circ> if_set E ''S5_MAX_BANDWIDTH_MBPS'' (\<lambda>l. l\<lparr>lc_max_bandwidth_mbps :=
       parse_env u64_from_str E ''S5_MAX_BANDWIDTH_MBPS'' (lc_max_bandwidth_mbps l)\<rparr>)
     \<circ> if_set E ''S5_IDLE_TIMEOUT'' (\<lambda>l. l\<lparr>lc_idle_timeout := parse_env u64_from_str E ''S5_IDLE_TIMEOUT'' (lc_idle_timeout l)\<rparr>)
     \<circ> if_set E ''S5_CONNECTION_TIMEOUT'' (\<lambda>l. l\<lparr>lc_connection_timeout :=
       parse_env u64_from_str E ''S5_CONNECTION_TIMEOUT'' (lc_connection_timeout l)\<rparr>)
     \<circ> if_set E ''S5_MAX_CONNECTIONS_PER_USER'' (\<lambda>l. l\<lparr>lc_max_connections_per_user :=
       parse_env u32_from_str E ''S5_MAX_CONNECTIONS_PER_USER'' (lc_max_connections_per_user l)\<rparr>)
     \<circ> if_set E ''S5_MAX_CONNECTIONS'' (\<lambda>l. l\<lparr>lc_max_connections :=
       parse_env u32_from_str E ''S5_MAX_CONNECTIONS'' (lc_max_connections l)\<rparr>)
     \<circ> if_set E ''S5_SOCKS5_HANDSHAKE_TIMEOUT'' (\<lambda>l. l\<lparr>lc_socks5_handshake_timeout :=
       parse_env u64_from_str E ''S5_SOCKS5_HANDSHAKE_TIMEOUT'' (lc_socks5_handshake_timeout l)\<rparr>)"

definition override_security :: "env \<Rightarrow> 'net security_section \<Rightarrow> 'net security_section" where
  "override_security E =
     if_set E ''S5_ARGON2_PARALLELISM'' (\<lambda>s. s\<lparr>se_argon2_parallelism :=
       parse_env u32_from_str E ''S5_ARGON2_PARALLELISM'' (se_argon2_parallelism s)\<rparr>)
     \<circ> if_set E ''S5_ARGON2_TIME_COST'' (\<lambda>s. s\<lparr>se_argon2_time_cost :=
       parse_env u32_from_str E ''S5_ARGON2_TIME_COST'' (se_argon2_time_cost s)\<rparr>)
     \<circ> if_set E ''S5_ARGON2_MEMORY_COST'' (\<lambda>s. s\<lparr>se_argon2_memory_cost :=
       parse_env u32_from_str E ''S5_ARGON2_MEMORY_COST'' (se_argon2_memory_cost s)\<rparr>)
     \<circ> if_set E ''S5_RATE_LIMIT_MAX_USERS'' (\<lambda>s. s\<lparr>se_rate_limit_max_users :=
       parse_env usize_from_str E ''S5_RATE_LIMIT_MAX_USERS'' (se_rate_limit_max_users s)\<rparr>)
     \<circ> if_set E ''S5_RATE_LIMIT_MAX_IPS'' (\<lambda>s. s\<lparr>se_rate_limit_max_ips :=
       parse_env usize_from_str E ''S5_RATE_LIMIT_MAX_IPS'' (se_rate_limit_max_ips s)\<rparr>)
     \<circ> if_set E ''S5_RATE_LIMIT_CLEANUP_INTERVAL'' (\<lambda>s. s\<lparr>se_rate_limit_cleanup_interval :=
       parse_env u64_from_str E ''S5_RATE_LIMIT_CLEANUP_INTERVAL'' (se_rate_limit_cleanup_interval s)\<rparr>)
     \<circ> if_set E ''S5_BAN_THRESHOLD'' (\<lambda>s. s\<lparr>se_ban_threshold :=
       parse_env u32_from_str E ''S5_BAN_THRESHOLD'' (se_ban_threshold s)\<rparr>)
     \<circ> if_set E ''S5_BAN_ENABLED'' (\<lambda>s. s\<lparr>se_ban_enabled := parse_bool_env E ''S5_BAN_ENABLED'' (se_ban_enabled s)\<rparr>)"

definition override_api :: "'net config_io \<Rightarrow> env \<Rightarrow> api_config \<Rightarrow> api_config" where
  "override_api F E =
     when_set E ''S5_API_LISTEN'' (\<lambda>v a. a\<lparr>api_listen := v\<rparr>)
     \<circ> if_set E ''S5_API_ENABLED'' (\<lambda>a. a\<lparr>api_enabled := parse_bool_env E ''S5_API_ENABLED'' (api_enabled a)\<rparr>)
     \<circ> (\<lambda>a. case resolve_env_or_file F E ''S5_API_TOKEN'' of Inr (Some v) \<Rightarrow> a\<lparr>api_token := v\<rparr> | _ \<Rightarrow> a)"

definition override_metrics :: "env \<Rightarrow> metrics_config \<Rightarrow> metrics_config" where
  "override_metrics E =
     when_set E ''S5_METRICS_LISTEN'' (\<lambda>v m. m\<lparr>me_listen := v\<rparr>)
     \<circ> if_set E ''S5_METRICS_ENABLED'' (\<lambda>m. m\<lparr>me_enabled := parse_bool_env E ''S5_METRICS_ENABLED'' (me_enabled m)\<rparr>)"

definition override_acl :: "env \<Rightarrow> global_acl_config \<Rightarrow> global_acl_config" where
  "override_acl E =
     if_set E ''S5_GLOBAL_ACL_DENY'' (\<lambda>g. g\<lparr>global_deny := parse_csv_env E ''S5_GLOBAL_ACL_DENY''\<rparr>)
     \<circ> if_set E ''S5_GLOBAL_ACL_ALLOW'' (\<lambda>g. g\<lparr>global_allow := parse_csv_env E ''S5_GLOBAL_ACL_ALLOW''\<rparr>)
     \<circ> when_set E ''S5_GLOBAL_ACL_DEFAULT_POLICY''
         (\<lambda>v g. case parse_acl_policy v of Inr p \<Rightarrow> g\<lparr>global_default_policy := p\<rparr> | Inl _ \<Rightarrow> g)"

text \<open>The overrides touch seven sections, each independently of the others.\<close>

definition apply_env_overrides :: "'net config_io \<Rightarrow> env \<Rightarrow> 'net app_config \<Rightarrow> 'net app_config" where
  "apply_env_overrides F E cfg =
     cfg\<lparr>ac_server := override_server E (ac_server cfg), ac_limits := override_limits E (ac_limits cfg),
         ac_logging := override_logging E (ac_logging cfg), ac_security := override_security E (ac_security cfg),
         ac_api := override_api F E (ac_api cfg), ac_metrics := override_metrics E (ac_metrics cfg),
         ac_acl := override_acl E (ac_acl cfg)\<rparr>"

subsection \<open>The configuration the server starts with\<close>

datatype startup_error = FromFile config_error | FromEnv env_error

text \<open>The environment afterwards, and the configuration with the path a reload reads again.\<close>

definition startup_config ::
  "('net, 'x) ipnet_ops_scheme \<Rightarrow> url_ops \<Rightarrow> 'net config_io \<Rightarrow> string \<Rightarrow> env
     \<Rightarrow> env \<times> (startup_error + 'net app_config \<times> string option)" where
  "startup_config N L F path E =
     (if path_exists F path then
        (case load_config N L F path of
           Inl e \<Rightarrow> (E, Inl (FromFile e))
         | Inr cfg \<Rightarrow> (E, Inr (apply_env_overrides F E cfg, Some path)))
      else if can_build_from_env E then
        (case build_config_from_env N F E of
           (E', Inl e) \<Rightarrow> (E', Inl (FromEnv e))
         | (E', Inr cfg) \<Rightarrow>
             (case validate_config N L (path_exists F) cfg of
                Some e \<Rightarrow> (E', Inl (FromFile e))
              | None \<Rightarrow> (E', Inr (cfg, None))))
      else
        (case load_config N L F path of
           Inl e \<Rightarrow> (E, Inl (FromFile e))
         | Inr cfg \<Rightarrow> (E, Inr (cfg, Some path))))"

subsection \<open>Defaults\<close>

text \<open>Every variable of the program that is not listed is unset.\<close>

definition only_set :: "string list \<Rightarrow> env \<Rightarrow> bool" where
  "only_set keys E \<longleftrightarrow> (\<forall>k. starts_with ''S5_'' k \<longrightarrow> k \<notin> set keys \<longrightarrow> map_of E k = None)"

lemma only_set_opt: "only_set keys E \<Longrightarrow> starts_with ''S5_'' k \<Longrightarrow> k \<notin> set keys \<Longrightarrow> opt_env E k = None"
  by (simp add: only_set_def opt_env_def env_var_def)

lemma only_set_var: "only_set keys E \<Longrightarrow> starts_with ''S5_'' k \<Longrightarrow> k \<notin> set keys \<Longrightarrow> \<not> is_set E k"
  by (simp add: only_set_def is_set_def env_var_def)

lemma opt_env_Some: "map_of E k = Some v \<Longrightarrow> ascii v \<Longrightarrow> v \<noteq> [] \<Longrightarrow> opt_env E k = Some v"
  by (simp add: opt_env_def env_var_def valid_utf8_ascii)

lemma env_defaults:
  assumes "only_set [''S5_SSH_LISTEN'', ''S5_PASSWORD_HASH''] E"
    and "map_of E ''S5_SSH_LISTEN'' = Some listen" and "ascii listen" and "listen \<noteq> []"
    and "map_of E ''S5_PASSWORD_HASH'' = Some hash" and "ascii hash" and "hash \<noteq> []"
  shows "snd (build_config_from_env N F E) =
    Inr (app_config_default listen [(user_config_default ''user'')\<lparr>c_password_hash := Some hash\<rparr>])"
proof -
  note unset = only_set_opt [OF assms(1)] only_set_var [OF assms(1)]
  note given = opt_env_Some [OF assms(2,3,4)] opt_env_Some [OF assms(5,6,7)]
  have "env_users N F E = Inr [(user_config_default ''user'')\<lparr>c_password_hash := Some hash\<rparr>]"
    by (simp add: env_users_def build_single_user_from_env_def resolve_env_or_file_def build_user_config_def
        parse_cidr_csv_env_def opt_parsed_def parse_bool_env_def parse_env_def parse_csv_env_def
        build_rate_limits_from_env_def split_keys_def unwrap_or_def user_config_default_def user_acl_config_default_def
        Let_def given unset starts_with_def)
  then show ?thesis
    by (simp add: build_config_from_env_def require_env_def parse_cidr_csv_env_def opt_parsed_def resolve_env_or_file_def
        env_app_config_def env_server_def env_shell_def env_limits_def env_security_def app_config_default_def
        server_config_default_def shell_config_default_def limits_config_default_def security_section_default_def
        logging_config_default_def metrics_config_default_def api_config_default_def geoip_config_default_def
        global_acl_config_default_def parse_bool_env_def parse_env_def parse_csv_env_def unwrap_or_def
        given unset starts_with_def)
qed

text \<open>C34: a server started from the environment with nothing but a listening address and a password
  hash has exactly the configuration a file with these two settings gives: the defaults of the
  environment and of the file agree.\<close>

theorem env_defaults_agree:
  assumes "only_set [''S5_SSH_LISTEN'', ''S5_PASSWORD_HASH''] E"
    and "map_of E ''S5_SSH_LISTEN'' = Some listen" and "ascii listen" and "listen \<noteq> []"
    and "map_of E ''S5_PASSWORD_HASH'' = Some hash" and "ascii hash" and "hash \<noteq> []"
  shows "snd (build_config_from_env N F E) =
    Inr (app_config_default listen [(user_config_default ''user'')\<lparr>c_password_hash := Some hash\<rparr>])"
  by (rule env_defaults [OF assms])

definition sample_io :: "ipaddr config_io" where
  "sample_io = \<lparr>file_len = (\<lambda>_. Some 10), read_to_string = (\<lambda>_. Some ''x''), path_exists = (\<lambda>p. p = ''config.toml''),
     toml_from_str = (\<lambda>_. Some sample_app_config)\<rparr>"

theorem env_defaults_agree_witness:
  "snd (build_config_from_env sample_net sample_io [(''S5_SSH_LISTEN'', ''0.0.0.0:2222''), (''S5_PASSWORD_HASH'', ''h'')]) =
    Inr (app_config_default ''0.0.0.0:2222'' [(user_config_default ''user'')\<lparr>c_password_hash := Some ''h''\<rparr>])"
  by (rule env_defaults_agree) (simp_all add: only_set_def ascii_def)

subsection \<open>Indexed users\<close>


subsection \<open>Secrets in the environment\<close>

lemma user_prefix_append [simp]: "user_prefix i @ s = user_prefix j @ t \<longleftrightarrow> i = j \<and> s = t"
proof
  have n: "CHR ''_'' \<notin> set (show_nat n)" for n
    using show_nat_digits [of n] by (auto simp: list_all_iff is_ascii_digit_def)
  assume "user_prefix i @ s = user_prefix j @ t"
  then have e: "show_nat i @ CHR ''_'' # s = show_nat j @ CHR ''_'' # t" by (simp add: user_prefix_def)
  then have "show_nat i = show_nat j" using n takeWhile_delim by metis
  with e show "i = j \<and> s = t" by (metis append_same_eq digits_value_show_nat list.inject same_append_eq)
qed simp









text \<open>Overrides are applied after the validation of the file and are not validated: a server whose
  file is valid starts with a handshake timeout of zero if the variable says so.\<close>

theorem overrides_not_validated:
  assumes "path_exists F path" and "load_config N L F path = Inr cfg"
    and "map_of E ''S5_SOCKS5_HANDSHAKE_TIMEOUT'' = Some ''0''"
  shows "\<exists>cfg'. startup_config N L F path E = (E, Inr (cfg', Some path))
    \<and> validate_config N L (path_exists F) cfg = None \<and> validate_config N L (path_exists F) cfg' \<noteq> None"
proof -
  let ?c = "apply_env_overrides F E cfg"
  have z: "opt_env E ''S5_SOCKS5_HANDSHAKE_TIMEOUT'' = Some ''0''" using assms(3) by (intro opt_env_Some) (simp_all add: ascii_def)
  have "is_set E ''S5_SOCKS5_HANDSHAKE_TIMEOUT''"
    using assms(3) valid_utf8_ascii [of "''0''"] by (simp add: is_set_def env_var_def ascii_def)
  moreover have "parse_env u64_from_str E ''S5_SOCKS5_HANDSHAKE_TIMEOUT'' d = 0" for d
    using parse_uint_show_nat [of 0 "2 ^ 64"] by (simp add: parse_env_def z u64_from_str_def unwrap_or_def)
  ultimately have "lc_socks5_handshake_timeout (ac_limits ?c) = 0"
    by (simp add: apply_env_overrides_def override_limits_def if_set_def)
  then have "validate_config N L (path_exists F) ?c \<noteq> None"
    unfolding validate_config_parts validate_timeout_None by simp
  moreover have "validate_config N L (path_exists F) cfg = None"
    using assms(2) by (auto simp: load_config_def parse_config_def split: option.splits if_splits)
  ultimately show ?thesis using assms(1,2) by (simp add: startup_config_def)
qed

theorem overrides_not_validated_witness:
  "\<exists>cfg'. startup_config sample_net sample_url_ops sample_io ''config.toml'' [(''S5_SOCKS5_HANDSHAKE_TIMEOUT'', ''0'')]
     = ([(''S5_SOCKS5_HANDSHAKE_TIMEOUT'', ''0'')], Inr (cfg', Some ''config.toml''))"
proof -
  have "validate_config sample_net sample_url_ops (path_exists sample_io) sample_app_config = None"
    using sample_config_valid unfolding validate_config_parts validate_None
    by (simp add: sample_app_config_def app_config_default_def server_config_default_def map_filter_def)
  then have "load_config sample_net sample_url_ops sample_io ''config.toml'' = Inr sample_app_config"
    by (simp add: load_config_def parse_config_def sample_io_def MAX_CONFIG_SIZE_def)
  then show ?thesis
    using overrides_not_validated [of sample_io "''config.toml''" sample_net sample_url_ops sample_app_config
        "[(''S5_SOCKS5_HANDSHAKE_TIMEOUT'', ''0'')]"] by (auto simp: sample_io_def)
qed

end
