(* ===== verification/Metrics.thy ===== *)
theory Metrics
  imports Config_Env
begin

text \<open>
  Models \<open>src/metrics/mod.rs\<close> and \<open>src/metrics/collectors.rs\<close>: the families of counters and
  histograms with their labels, the cap on the number of user labels and its pruning after a reload.
  A family of the \<open>prometheus-client\<close> crate is a map from labels to values that creates an
  entry on its first use and never drops one; a histogram is the list of its observations. The files of
  \<open>/proc\<close> the process gauges are read from are arguments. The counter of dropped audit events is part of the
  logger; the gauges \<open>connections_active\<close> and \<open>banned_ips_current\<close>, which nothing ever sets, are left out.
\<close>

subsection \<open>Model\<close>

record 'f metrics =
  bytes_transferred :: "(string, 'f) dmap"
  auth_failures_total :: "(string, nat) dmap"
  auth_successes_total :: "(string \<times> string, nat) dmap"
  errors_total :: "(string, nat) dmap"
  cardinality_capped_total :: nat
  quota_bandwidth_used_bytes :: "(string \<times> string, 'f) dmap"
  quota_connections_used :: "(string \<times> string, nat) dmap"
  quota_exceeded_total :: "(string \<times> string, nat) dmap"
  connection_duration_seconds :: "(string, 'f list) dmap"
  connection_duration_by_type_seconds :: "(string \<times> string, 'f list) dmap"
  connections_rejected_total :: "(string, nat) dmap"
  http_requests_total :: "(string \<times> string \<times> string, nat) dmap"
  http_request_duration_seconds :: "(string \<times> string, 'f list) dmap"
  known_users :: "string list"
  max_labels :: u32
  connections_total :: nat
  dns_cache_hits_total :: nat
  dns_cache_misses_total :: nat
  process_resident_memory_bytes :: u64
  process_open_fds :: u64

definition metrics_new :: "u32 \<Rightarrow> 'f metrics" where
  "metrics_new labels =
     \<lparr>bytes_transferred = [], auth_failures_total = [], auth_successes_total = [], errors_total = [],
      cardinality_capped_total = 0, quota_bandwidth_used_bytes = [], quota_connections_used = [],
      quota_exceeded_total = [], connection_duration_seconds = [], connection_duration_by_type_seconds = [],
      connections_rejected_total = [], http_requests_total = [], http_request_duration_seconds = [],
      known_users = [], max_labels = labels, connections_total = 0, dns_cache_hits_total = 0, dns_cache_misses_total = 0,
      process_resident_memory_bytes = 0, process_open_fds = 0\<rparr>"

text \<open>\<open>get_or_create(label).inc()\<close>, \<open>inc_by(x)\<close> and \<open>observe(x)\<close>.\<close>

definition inc :: "'k \<Rightarrow> ('k, nat) dmap \<Rightarrow> ('k, nat) dmap" where
  "inc k m = dm_insert k (Suc (snd (dm_entry k 0 m))) m"

definition inc_by :: "('f, 'x) f64_ops_scheme \<Rightarrow> 'k \<Rightarrow> u64 \<Rightarrow> ('k, 'f) dmap \<Rightarrow> ('k, 'f) dmap" where
  "inc_by F k n m = dm_insert k (f_add F (snd (dm_entry k (f_lit F 0 1) m)) (f_of_u64 F n)) m"

definition observe :: "'k \<Rightarrow> 'f \<Rightarrow> ('k, 'f list) dmap \<Rightarrow> ('k, 'f list) dmap" where
  "observe k x m = dm_insert k (snd (dm_entry k [] m) @ [x]) m"

definition resolve_label :: "string \<Rightarrow> 'f metrics \<Rightarrow> 'f metrics \<times> string" where
  "resolve_label username M =
     (if username \<in> set (known_users M) then (M, username)
      else if (of_nat (length (known_users M)) :: u32) < max_labels M
      then (M\<lparr>known_users := username # known_users M\<rparr>, username)
      else (M\<lparr>cardinality_capped_total := Suc (cardinality_capped_total M)\<rparr>, ''_other''))"

definition m_record_auth_success :: "string \<Rightarrow> string \<Rightarrow> 'f metrics \<Rightarrow> 'f metrics" where
  "m_record_auth_success username meth M =
     (let (M1, label) = resolve_label username M in M1\<lparr>auth_successes_total := inc (label, meth) (auth_successes_total M1)\<rparr>)"

definition m_record_auth_failure :: "string \<Rightarrow> 'f metrics \<Rightarrow> 'f metrics" where
  "m_record_auth_failure meth M = M\<lparr>auth_failures_total := inc meth (auth_failures_total M)\<rparr>"

definition record_error :: "string \<Rightarrow> 'f metrics \<Rightarrow> 'f metrics" where
  "record_error error_type M = M\<lparr>errors_total := inc error_type (errors_total M)\<rparr>"

definition record_bytes_transferred :: "('f, 'x) f64_ops_scheme \<Rightarrow> string \<Rightarrow> u64 \<Rightarrow> 'f metrics \<Rightarrow> 'f metrics" where
  "record_bytes_transferred F username n M =
     (let (M1, label) = resolve_label username M in M1\<lparr>bytes_transferred := inc_by F label n (bytes_transferred M1)\<rparr>)"

definition record_quota_bandwidth :: "('f, 'x) f64_ops_scheme \<Rightarrow> string \<Rightarrow> string \<Rightarrow> u64 \<Rightarrow> 'f metrics \<Rightarrow> 'f metrics" where
  "record_quota_bandwidth F username wdw n M =
     (let (M1, label) = resolve_label username M
      in M1\<lparr>quota_bandwidth_used_bytes := inc_by F (label, wdw) n (quota_bandwidth_used_bytes M1)\<rparr>)"

definition record_quota_connection :: "string \<Rightarrow> string \<Rightarrow> 'f metrics \<Rightarrow> 'f metrics" where
  "record_quota_connection username period M =
     (let (M1, label) = resolve_label username M in M1\<lparr>quota_connections_used := inc (label, period) (quota_connections_used M1)\<rparr>)"

definition record_connection_duration :: "string \<Rightarrow> 'f \<Rightarrow> 'f metrics \<Rightarrow> 'f metrics" where
  "record_connection_duration username secs M =
     (let (M1, label) = resolve_label username M
      in M1\<lparr>connection_duration_seconds := observe label secs (connection_duration_seconds M1)\<rparr>)"

definition record_typed_connection_duration :: "string \<Rightarrow> string \<Rightarrow> 'f \<Rightarrow> 'f metrics \<Rightarrow> 'f metrics" where
  "record_typed_connection_duration username conn_type secs M =
     (let (M1, label) = resolve_label username M
      in M1\<lparr>connection_duration_by_type_seconds := observe (conn_type, label) secs (connection_duration_by_type_seconds M1),
            connection_duration_seconds := observe label secs (connection_duration_seconds M1)\<rparr>)"

definition record_quota_exceeded :: "string \<Rightarrow> string \<Rightarrow> 'f metrics \<Rightarrow> 'f metrics" where
  "record_quota_exceeded username quota_type M =
     (let (M1, label) = resolve_label username M in M1\<lparr>quota_exceeded_total := inc (label, quota_type) (quota_exceeded_total M1)\<rparr>)"

definition record_connection_rejected :: "string \<Rightarrow> 'f metrics \<Rightarrow> 'f metrics" where
  "record_connection_rejected reason M = M\<lparr>connections_rejected_total := inc reason (connections_rejected_total M)\<rparr>"

definition record_http_request :: "string \<Rightarrow> string \<Rightarrow> u16 \<Rightarrow> 'f metrics \<Rightarrow> 'f metrics" where
  "record_http_request meth path status M =
     M\<lparr>http_requests_total := inc (meth, path, show_nat (unat status)) (http_requests_total M)\<rparr>"

definition record_http_request_duration :: "string \<Rightarrow> string \<Rightarrow> 'f \<Rightarrow> 'f metrics \<Rightarrow> 'f metrics" where
  "record_http_request_duration meth path secs M =
     M\<lparr>http_request_duration_seconds := observe (meth, path) secs (http_request_duration_seconds M)\<rparr>"

text \<open>The counters the engine and the resolver advance.\<close>

definition count_connection :: "'f metrics \<Rightarrow> 'f metrics" where
  "count_connection M = M\<lparr>connections_total := Suc (connections_total M)\<rparr>"

definition count_dns_hit :: "'f metrics \<Rightarrow> 'f metrics" where
  "count_dns_hit M = M\<lparr>dns_cache_hits_total := Suc (dns_cache_hits_total M)\<rparr>"

definition count_dns_miss :: "'f metrics \<Rightarrow> 'f metrics" where
  "count_dns_miss M = M\<lparr>dns_cache_misses_total := Suc (dns_cache_misses_total M)\<rparr>"

text \<open>The texts of \<open>statm\<close> and the number of entries of \<open>fd\<close>, if they can be read.\<close>

definition update_system_metrics :: "string option \<Rightarrow> nat option \<Rightarrow> 'f metrics \<Rightarrow> 'f metrics" where
  "update_system_metrics statm fds M =
     (let M1 = (case statm of
                  None \<Rightarrow> M
                | Some text \<Rightarrow>
                    (case split_whitespace text of
                       _ # rss_pages # _ \<Rightarrow>
                         (case i64_from_str rss_pages of
                            Some pages \<Rightarrow> M\<lparr>process_resident_memory_bytes := of_int pages * 4096\<rparr>
                          | None \<Rightarrow> M)
                     | _ \<Rightarrow> M))
      in case fds of Some n \<Rightarrow> M1\<lparr>process_open_fds := of_nat n\<rparr> | None \<Rightarrow> M1)"

definition prune_known_users :: "string list \<Rightarrow> 'f metrics \<Rightarrow> 'f metrics" where
  "prune_known_users active_usernames M = M\<lparr>known_users := filter (\<lambda>u. u \<in> set active_usernames) (known_users M)\<rparr>"

subsection \<open>The registry as a machine\<close>

datatype 'f metrics_op =
  OpAuthSuccess string string | OpAuthFail string | OpError string | OpBytes string u64
| OpQuotaBandwidth string string u64 | OpQuotaConnection string string | OpDuration string 'f
| OpTypedDuration string string 'f | OpQuotaExceeded string string | OpRejected string
| OpHttp string string u16 | OpHttpDuration string string 'f
| OpConnection | OpDnsHit | OpDnsMiss | OpSystem "string option" "nat option"

fun metrics_step :: "('f, 'x) f64_ops_scheme \<Rightarrow> 'f metrics_op \<Rightarrow> 'f metrics \<Rightarrow> 'f metrics" where
  "metrics_step F (OpAuthSuccess u m) = m_record_auth_success u m"
| "metrics_step F (OpAuthFail m) = m_record_auth_failure m"
| "metrics_step F (OpError t) = record_error t"
| "metrics_step F (OpBytes u n) = record_bytes_transferred F u n"
| "metrics_step F (OpQuotaBandwidth u w n) = record_quota_bandwidth F u w n"
| "metrics_step F (OpQuotaConnection u p) = record_quota_connection u p"
| "metrics_step F (OpDuration u x) = record_connection_duration u x"
| "metrics_step F (OpTypedDuration u t x) = record_typed_connection_duration u t x"
| "metrics_step F (OpQuotaExceeded u t) = record_quota_exceeded u t"
| "metrics_step F (OpRejected r) = record_connection_rejected r"
| "metrics_step F (OpHttp m p s) = record_http_request m p s"
| "metrics_step F (OpHttpDuration m p x) = record_http_request_duration m p x"
| "metrics_step F OpConnection = count_connection"
| "metrics_step F OpDnsHit = count_dns_hit"
| "metrics_step F OpDnsMiss = count_dns_miss"
| "metrics_step F (OpSystem statm fds) = update_system_metrics statm fds"

text \<open>The user labels in use in the families labelled by users.\<close>

definition user_labels :: "'f metrics \<Rightarrow> string set" where
  "user_labels M = fst ` set (bytes_transferred M) \<union> fst ` fst ` set (auth_successes_total M)
     \<union> fst ` fst ` set (quota_bandwidth_used_bytes M) \<union> fst ` fst ` set (quota_connections_used M)
     \<union> fst ` fst ` set (quota_exceeded_total M) \<union> fst ` set (connection_duration_seconds M)
     \<union> snd ` fst ` set (connection_duration_by_type_seconds M)"

definition metrics_ok :: "'f metrics \<Rightarrow> bool" where
  "metrics_ok M \<longleftrightarrow> user_labels M \<subseteq> insert ''_other'' (set (known_users M)) \<and> distinct (known_users M)
     \<and> length (known_users M) \<le> unat (max_labels M)"

lemma keys_dm_insert: "fst ` set (dm_insert k v m) = insert k (fst ` set m)"
  by (simp add: dm_insert_def dom_update flip: dom_map_of_conv_image_fst) (simp add: update_conv')

lemma label_sets:
  "fst ` set (inc k c) = insert k (fst ` set c)" "fst ` set (inc_by F k n d) = insert k (fst ` set d)"
  "fst ` set (observe k x e) = insert k (fst ` set e)"
  by (simp_all add: inc_def inc_by_def observe_def keys_dm_insert)

lemma user_labels_other [simp]:
  "user_labels (M\<lparr>known_users := x\<rparr>) = user_labels M" "user_labels (M\<lparr>cardinality_capped_total := c\<rparr>) = user_labels M"
  "user_labels (M\<lparr>auth_failures_total := a\<rparr>) = user_labels M" "user_labels (M\<lparr>errors_total := e\<rparr>) = user_labels M"
  "user_labels (M\<lparr>connections_rejected_total := r\<rparr>) = user_labels M"
  "user_labels (M\<lparr>http_requests_total := h\<rparr>) = user_labels M"
  "user_labels (M\<lparr>http_request_duration_seconds := d\<rparr>) = user_labels M"
  "user_labels (M\<lparr>connections_total := n1\<rparr>) = user_labels M" "user_labels (M\<lparr>dns_cache_hits_total := n2\<rparr>) = user_labels M"
  "user_labels (M\<lparr>dns_cache_misses_total := n3\<rparr>) = user_labels M"
  "user_labels (M\<lparr>process_resident_memory_bytes := w1\<rparr>) = user_labels M" "user_labels (M\<lparr>process_open_fds := w2\<rparr>) = user_labels M"
  by (simp_all add: user_labels_def)

lemma user_labels_new [simp]:
  "user_labels (M\<lparr>bytes_transferred := inc_by F l n (bytes_transferred M)\<rparr>) = insert l (user_labels M)"
  "user_labels (M\<lparr>auth_successes_total := inc (l, s) (auth_successes_total M)\<rparr>) = insert l (user_labels M)"
  "user_labels (M\<lparr>quota_bandwidth_used_bytes := inc_by F (l, s) n (quota_bandwidth_used_bytes M)\<rparr>) = insert l (user_labels M)"
  "user_labels (M\<lparr>quota_connections_used := inc (l, s) (quota_connections_used M)\<rparr>) = insert l (user_labels M)"
  "user_labels (M\<lparr>quota_exceeded_total := inc (l, s) (quota_exceeded_total M)\<rparr>) = insert l (user_labels M)"
  "user_labels (M\<lparr>connection_duration_seconds := observe l x (connection_duration_seconds M)\<rparr>) = insert l (user_labels M)"
  "user_labels (M\<lparr>connection_duration_by_type_seconds := observe (s, l) x (connection_duration_by_type_seconds M)\<rparr>)
     = insert l (user_labels M)"
  by (simp_all add: user_labels_def label_sets)

lemma resolve_label_cases:
  obtains "resolve_label u M = (M, u)" "u \<in> set (known_users M)"
  | "resolve_label u M = (M\<lparr>known_users := u # known_users M\<rparr>, u)" "u \<notin> set (known_users M)"
      "(of_nat (length (known_users M)) :: u32) < max_labels M"
  | "resolve_label u M = (M\<lparr>cardinality_capped_total := Suc (cardinality_capped_total M)\<rparr>, ''_other'')"
  unfolding resolve_label_def by (meson)

lemma resolve_label_ok:
  assumes "metrics_ok M"
  shows "metrics_ok (fst (resolve_label u M))
    \<and> snd (resolve_label u M) \<in> insert ''_other'' (set (known_users (fst (resolve_label u M))))"
proof -
  have len: "length (known_users M) \<le> unat (max_labels M)" using assms by (simp add: metrics_ok_def)
  then have "unat (of_nat (length (known_users M)) :: u32) = length (known_users M)"
    using unsigned_less [of "max_labels M", where 'a = nat] by (simp add: unat_of_nat)
  then show ?thesis using assms
    by (cases rule: resolve_label_cases [of u M]) (auto simp: metrics_ok_def word_less_nat_alt)
qed

lemma labelled_ok:
  assumes "metrics_ok M" and "user_labels M2 = insert (snd (resolve_label u M)) (user_labels (fst (resolve_label u M)))"
    and "known_users M2 = known_users (fst (resolve_label u M))" and "max_labels M2 = max_labels (fst (resolve_label u M))"
  shows "metrics_ok M2"
  using resolve_label_ok [OF assms(1), of u] assms(2-4) by (auto simp: metrics_ok_def)

lemma unlabelled_ok:
  "metrics_ok M \<Longrightarrow> user_labels M2 = user_labels M \<Longrightarrow> known_users M2 = known_users M \<Longrightarrow> max_labels M2 = max_labels M \<Longrightarrow> metrics_ok M2"
  by (simp add: metrics_ok_def)

lemma typed_duration_labels:
  "user_labels (M\<lparr>connection_duration_by_type_seconds := observe (s, l) x (connection_duration_by_type_seconds M),
      connection_duration_seconds := observe l x (connection_duration_seconds M)\<rparr>) = insert l (user_labels M)"
  by (simp add: user_labels_def label_sets)

lemmas labelled_ops = m_record_auth_success_def record_bytes_transferred_def record_quota_bandwidth_def
  record_quota_connection_def record_connection_duration_def record_typed_connection_duration_def
  record_quota_exceeded_def

lemmas unlabelled_ops = m_record_auth_failure_def record_error_def record_connection_rejected_def record_http_request_def
  record_http_request_duration_def count_connection_def count_dns_hit_def count_dns_miss_def

lemma update_system_simps [simp]:
  "user_labels (update_system_metrics statm fds M) = user_labels M"
  "known_users (update_system_metrics statm fds M) = known_users M"
  "max_labels (update_system_metrics statm fds M) = max_labels M"
  by (simp_all add: update_system_metrics_def Let_def split: option.split list.split)

lemma metrics_ok_step:
  assumes "metrics_ok M"
  shows "metrics_ok (metrics_step F oper M)"
proof (cases oper)
  case (OpAuthSuccess u m)
  show ?thesis unfolding OpAuthSuccess
    by (rule labelled_ok [OF assms, of _ u]) (simp_all add: labelled_ops case_prod_beta typed_duration_labels)
next
  case (OpBytes u n)
  show ?thesis unfolding OpBytes
    by (rule labelled_ok [OF assms, of _ u]) (simp_all add: labelled_ops case_prod_beta typed_duration_labels)
next
  case (OpQuotaBandwidth u w n)
  show ?thesis unfolding OpQuotaBandwidth
    by (rule labelled_ok [OF assms, of _ u]) (simp_all add: labelled_ops case_prod_beta typed_duration_labels)
next
  case (OpQuotaConnection u p)
  show ?thesis unfolding OpQuotaConnection
    by (rule labelled_ok [OF assms, of _ u]) (simp_all add: labelled_ops case_prod_beta typed_duration_labels)
next
  case (OpDuration u x)
  show ?thesis unfolding OpDuration
    by (rule labelled_ok [OF assms, of _ u]) (simp_all add: labelled_ops case_prod_beta typed_duration_labels)
next
  case (OpTypedDuration u t x)
  show ?thesis unfolding OpTypedDuration
    by (rule labelled_ok [OF assms, of _ u]) (simp_all add: labelled_ops case_prod_beta typed_duration_labels)
next
  case (OpQuotaExceeded u t)
  show ?thesis unfolding OpQuotaExceeded
    by (rule labelled_ok [OF assms, of _ u]) (simp_all add: labelled_ops case_prod_beta typed_duration_labels)
qed (auto simp: unlabelled_ops intro!: unlabelled_ok [OF assms])

interpretation metrics: machine "metrics_step F" metrics_ok for F
  by unfold_locales (rule metrics_ok_step)

lemma metrics_ok_new: "metrics_ok (metrics_new n)"
  by (simp add: metrics_ok_def metrics_new_def user_labels_def)

lemma metrics_step_max [simp]: "max_labels (metrics_step F oper M) = max_labels M"
  by (cases oper) (simp_all add: labelled_ops unlabelled_ops case_prod_beta resolve_label_def)

lemma metrics_run_max: "max_labels (fold (metrics_step F) ops M) = max_labels M"
  by (induction ops arbitrary: M) simp_all

text \<open>Between two reloads, whatever is recorded for however many users, the families labelled by
  users have at most as many different user labels as configured, and one for the others.\<close>

theorem metric_labels_bounded:
  "card (user_labels (fold (metrics_step F) ops (metrics_new n))) \<le> Suc (unat n)"
proof -
  let ?M = "fold (metrics_step F) ops (metrics_new n)"
  have ok: "metrics_ok ?M" by (rule metrics.run_inv) (rule metrics_ok_new)
  then have "card (user_labels ?M) \<le> card (insert ''_other'' (set (known_users ?M)))"
    by (intro card_mono) (simp_all add: metrics_ok_def)
  also have "\<dots> \<le> Suc (length (known_users ?M))"
    by (metis card_insert_le_m1 card_length le_SucI List.finite_set Suc_le_mono card_insert_if)
  also have "\<dots> \<le> Suc (unat n)" using ok metrics_run_max [of F ops "metrics_new n"] by (simp add: metrics_ok_def metrics_new_def)
  finally show ?thesis .
qed

text \<open>Pruning frees places for new labels but drops no series: with a limit of one, two users are
  labelled after a reload.\<close>

lemma pruned_labels_exceed:
  "user_labels (record_quota_connection ''b'' ''day'' (prune_known_users [''b'']
     (record_quota_connection ''a'' ''day'' (metrics_new 1)))) = {''a'', ''b''}
   \<and> user_labels (record_quota_connection ''c'' ''day'' (prune_known_users [''c''] (record_quota_connection ''b'' ''day''
       (prune_known_users [''b''] (record_quota_connection ''a'' ''day'' (metrics_new 1)))))) = {''a'', ''b'', ''c''}"
  by (auto simp: record_quota_connection_def resolve_label_def prune_known_users_def metrics_new_def user_labels_def
      label_sets)

text \<open>A user under the cap is counted under the own name, and no other counter of the family changes.\<close>

lemma auth_success_counted:
  assumes "u \<in> set (known_users M)"
  shows "map_of (auth_successes_total (m_record_auth_success u m M)) k =
    (if k = (u, m) then Some (Suc (case map_of (auth_successes_total M) (u, m) of Some c \<Rightarrow> c | None \<Rightarrow> 0))
     else map_of (auth_successes_total M) k)"
  using assms by (simp add: m_record_auth_success_def resolve_label_def inc_def snd_dm_entry)

end
