(* ===== verification/Shell_Parser.thy ===== *)
theory Shell_Parser
  imports Strings
begin

text \<open>
  Models \<open>src/shell/parser.rs\<close>: the split of a command line into arguments, with single quotes,
  double quotes and backslash escapes. The loop over the characters is a fold over \<open>tok_step\<close>; a
  character is the list of its UTF-8 bytes.
\<close>

subsection \<open>The tokenizer\<close>

record tok_state =
  tokens :: "string list"
  current :: string
  in_single_quote :: bool
  in_double_quote :: bool
  escape_next :: bool

definition tok_init :: tok_state where
  "tok_init = \<lparr>tokens = [], current = [], in_single_quote = False, in_double_quote = False, escape_next = False\<rparr>"

definition BACKSLASH :: char where "BACKSLASH = CHR 0x5C"
definition SINGLE_QUOTE :: char where "SINGLE_QUOTE = CHR 0x27"
definition DOUBLE_QUOTE :: char where "DOUBLE_QUOTE = CHR 0x22"

definition tok_step :: "string \<Rightarrow> tok_state \<Rightarrow> tok_state" where
  "tok_step ch st =
     (if escape_next st then st\<lparr>current := current st @ ch, escape_next := False\<rparr>
      else if ch = [BACKSLASH] \<and> \<not> in_single_quote st then st\<lparr>escape_next := True\<rparr>
      else if ch = [SINGLE_QUOTE] \<and> \<not> in_double_quote st then st\<lparr>in_single_quote := \<not> in_single_quote st\<rparr>
      else if ch = [DOUBLE_QUOTE] \<and> \<not> in_single_quote st then st\<lparr>in_double_quote := \<not> in_double_quote st\<rparr>
      else if is_whitespace ch \<and> \<not> in_single_quote st \<and> \<not> in_double_quote st then
        (if current st \<noteq> [] then st\<lparr>tokens := tokens st @ [current st], current := []\<rparr> else st)
      else st\<lparr>current := current st @ ch\<rparr>)"

definition tok_finish :: "tok_state \<Rightarrow> string list" where
  "tok_finish st = (if current st \<noteq> [] then tokens st @ [current st] else tokens st)"

definition tokenize :: "string \<Rightarrow> string list" where
  "tokenize input = tok_finish (fold tok_step (utf8_chars input) tok_init)"

subsection \<open>Lemmas\<close>

text \<open>The state between two characters outside quotes and escapes.\<close>

definition plain :: "string list \<Rightarrow> string \<Rightarrow> tok_state" where
  "plain ts cur = \<lparr>tokens = ts, current = cur, in_single_quote = False, in_double_quote = False, escape_next = False\<rparr>"

definition quoted :: "string list \<Rightarrow> string \<Rightarrow> tok_state" where
  "quoted ts cur = (plain ts cur)\<lparr>in_single_quote := True\<rparr>"

definition special :: "string \<Rightarrow> bool" where
  "special ch \<longleftrightarrow> ch = [BACKSLASH] \<or> ch = [SINGLE_QUOTE] \<or> ch = [DOUBLE_QUOTE]"

lemmas tok_chars = BACKSLASH_def SINGLE_QUOTE_def DOUBLE_QUOTE_def

lemma plain_sel [simp]:
  "tokens (plain ts cur) = ts" "current (plain ts cur) = cur" "tok_init = plain [] []"
  by (simp_all add: plain_def tok_init_def)

lemma step_escaped [simp]: "tok_step ch (tok_step [BACKSLASH] (plain ts cur)) = plain ts (cur @ ch)"
  by (simp add: tok_step_def plain_def)

lemma step_open [simp]: "tok_step [SINGLE_QUOTE] (plain ts cur) = quoted ts cur"
  by (simp add: tok_step_def plain_def quoted_def tok_chars)

lemma step_quoted [simp]: "ch \<noteq> [SINGLE_QUOTE] \<Longrightarrow> tok_step ch (quoted ts cur) = quoted ts (cur @ ch)"
  by (simp add: tok_step_def plain_def quoted_def tok_chars)

lemma step_close [simp]: "tok_step [SINGLE_QUOTE] (quoted ts cur) = plain ts cur"
  by (simp add: tok_step_def plain_def quoted_def tok_chars)

lemma step_plain:
  "\<not> special ch \<Longrightarrow> tok_step ch (plain ts cur) =
     (if is_whitespace ch then plain (if cur = [] then ts else ts @ [cur]) [] else plain ts (cur @ ch))"
  by (simp add: tok_step_def plain_def special_def)

lemma step_space [simp]:
  "tok_step '' '' (plain ts cur) = plain (if cur = [] then ts else ts @ [cur]) []"
  by (simp add: step_plain special_def tok_chars is_whitespace_def white_space_def)

lemma finish_plain: "tok_finish (plain ts cur) = (if cur = [] then ts else ts @ [cur])"
  by (simp add: tok_finish_def)

text \<open>An argument written with every character escaped, and one written in single quotes.\<close>

definition escape_arg :: "string \<Rightarrow> string" where
  "escape_arg a = concat (map (\<lambda>ch. BACKSLASH # ch) (utf8_chars a))"

definition quote_arg :: "string \<Rightarrow> string" where
  "quote_arg a = SINGLE_QUOTE # a @ [SINGLE_QUOTE]"

text \<open>How an argument can be written so that it reads back: escaped, in single quotes when it holds none, or as it is
  when it holds neither quotes, backslashes nor white space.\<close>

definition word :: "string \<Rightarrow> bool" where
  "word a \<longleftrightarrow> a \<noteq> [] \<and> valid_utf8 (bytes_of a) \<and> list_all (\<lambda>ch. \<not> special ch \<and> \<not> is_whitespace ch) (utf8_chars a)"

definition writes :: "string \<Rightarrow> string \<Rightarrow> bool" where
  "writes a w \<longleftrightarrow> a \<noteq> [] \<and> valid_utf8 (bytes_of a)
     \<and> (w = escape_arg a \<or> w = quote_arg a \<and> SINGLE_QUOTE \<notin> set a \<or> w = a \<and> word a)"

text \<open>The characters of the written forms.\<close>

lemma tok_char_starts [simp]:
  "starts_char (BACKSLASH # s)" "starts_char (SINGLE_QUOTE # s)" "starts_char (CHR '' '' # s)"
  by (simp_all add: starts_char_def cont_char_def tok_chars)

lemma escape_arg_Nil [simp]: "escape_arg a = [] \<longleftrightarrow> a = []"
  by (cases "utf8_chars a") (auto simp: escape_arg_def)

lemma escape_arg_chars: "starts_char a \<Longrightarrow> utf8_chars (escape_arg a) = concat (map (\<lambda>ch. [[BACKSLASH], ch]) (utf8_chars a))"
proof -
  let ?chs = "concat (map (\<lambda>ch. [[BACKSLASH], ch]) (utf8_chars a))"
  assume "starts_char a"
  then have "list_all char_ok ?chs" using utf8_chars_ok by (auto simp: list_all_iff char_ok_def cont_char_def tok_chars)
  moreover have "concat (concat (map (\<lambda>ch. [[BACKSLASH], ch]) chs)) = concat (map (\<lambda>ch. BACKSLASH # ch) chs)" for chs
    by (induction chs) simp_all
  then have "concat ?chs = escape_arg a" by (simp add: escape_arg_def)
  ultimately show ?thesis using utf8_chars_concat [of ?chs] by simp
qed

lemma quote_arg_chars: "starts_char a \<Longrightarrow> utf8_chars (quote_arg a) = [SINGLE_QUOTE] # utf8_chars a @ [[SINGLE_QUOTE]]"
proof -
  assume "starts_char a"
  then have "starts_char (a @ [SINGLE_QUOTE])" by (cases a) (simp_all add: starts_char_def cont_char_def tok_chars)
  then show ?thesis by (simp add: quote_arg_def utf8_chars_append utf8_chars_single)
qed

lemma char_no_quote: "SINGLE_QUOTE \<notin> set a \<Longrightarrow> ch \<in> set (utf8_chars a) \<Longrightarrow> ch \<noteq> [SINGLE_QUOTE]"
  by (metis concat_utf8_chars in_set_conv_decomp list.set_intros(1) set_concat UN_I)

lemma fold_escaped: "fold tok_step (concat (map (\<lambda>ch. [[BACKSLASH], ch]) chs)) (plain ts cur) = plain ts (cur @ concat chs)"
  by (induction chs arbitrary: cur) simp_all

lemma fold_quoted: "[SINGLE_QUOTE] \<notin> set chs \<Longrightarrow> fold tok_step chs (quoted ts cur) = quoted ts (cur @ concat chs)"
  by (induction chs arbitrary: cur) auto

lemma fold_word: "list_all (\<lambda>ch. \<not> special ch \<and> \<not> is_whitespace ch) chs \<Longrightarrow> fold tok_step chs (plain ts cur) = plain ts (cur @ concat chs)"
  by (induction chs arbitrary: cur) (simp_all add: step_plain)

lemma writes_starts: "writes a w \<Longrightarrow> starts_char w"
proof -
  assume w: "writes a w"
  then have a: "a \<noteq> []" "starts_char a" using starts_char_valid by (auto simp: writes_def)
  have "starts_char (escape_arg a)" using a(1) by (cases "utf8_chars a") (auto simp: escape_arg_def)
  with w a show ?thesis by (auto simp: writes_def quote_arg_def)
qed

lemma fold_writes: "writes a w \<Longrightarrow> fold tok_step (utf8_chars w) (plain ts cur) = plain ts (cur @ a)"
proof -
  assume w: "writes a w"
  then have a: "starts_char a" using starts_char_valid by (auto simp: writes_def)
  from w consider "w = escape_arg a" | "w = quote_arg a" "SINGLE_QUOTE \<notin> set a" | "w = a" "word a" by (auto simp: writes_def)
  then show ?thesis
  proof cases
    case 1
    with a show ?thesis by (simp add: escape_arg_chars fold_escaped)
  next
    case 2
    then have "[SINGLE_QUOTE] \<notin> set (utf8_chars a)" using char_no_quote by blast
    with a 2 show ?thesis by (simp add: quote_arg_chars fold_quoted)
  next
    case 3
    then show ?thesis by (simp add: word_def fold_word)
  qed
qed

lemma writes_nonempty: "writes a w \<Longrightarrow> w \<noteq> []"
  using escape_arg_Nil [of a] by (auto simp: writes_def quote_arg_def simp del: escape_arg_Nil)

lemma fold_line:
  "list_all2 writes as ws \<Longrightarrow> as \<noteq> [] \<Longrightarrow>
   fold tok_step (utf8_chars (join '' '' ws)) (plain ts []) = plain (ts @ butlast as) (last as) \<and> starts_char (join '' '' ws)"
proof (induction as ws arbitrary: ts rule: list_all2_induct)
  case (Cons a as w ws)
  show ?case
  proof (cases ws)
    case Nil
    with Cons show ?thesis by (simp add: fold_writes writes_starts)
  next
    case (Cons w' ws')
    with Cons.hyps have "as \<noteq> []" "a \<noteq> []" "w \<noteq> []" using writes_nonempty by (auto simp: writes_def)
    moreover from this Cons.IH [of "ts @ [a]"] have "starts_char (join '' '' ws)" by simp
    moreover have "starts_char (w @ s)" for s using writes_starts [OF Cons.hyps(1)] \<open>w \<noteq> []\<close> by (cases w) (simp_all add: starts_char_def)
    ultimately show ?thesis
      using Cons Cons.hyps(1) Cons.IH [of "ts @ [a]"] by (simp add: fold_writes utf8_chars_append utf8_chars_single)
  qed
qed simp

lemma tokenize_written:
  assumes "list_all2 writes as ws"
  shows "tokenize (join '' '' ws) = as"
proof (cases "as = []")
  case True
  with assms show ?thesis by (simp add: tokenize_def finish_plain)
next
  case False
  then have "last as \<noteq> []" using assms by (metis last_in_set list_all2_conv_all_nth in_set_conv_nth writes_def)
  with False fold_line [OF assms] show ?thesis by (simp add: tokenize_def finish_plain)
qed

lemma tokenize_words: "list_all word ws \<Longrightarrow> tokenize (join '' '' ws) = ws"
  by (rule tokenize_written) (auto simp: list_all2_same list_all_iff writes_def word_def)

lemma tok_step_nonempty:
  "[] \<notin> set (tokens st) \<Longrightarrow> [] \<notin> set (tokens (tok_step ch st))"
  by (auto simp: tok_step_def)

lemma tokenize_nonempty: "[] \<notin> set (tokenize line)"
proof -
  have "[] \<notin> set (tokens (fold tok_step chs st))" if "[] \<notin> set (tokens st)" for chs st
    using that by (induction chs arbitrary: st) (simp_all add: tok_step_nonempty)
  from this [of tok_init "utf8_chars line"] show ?thesis by (auto simp: tokenize_def tok_finish_def)
qed

lemma split_whitespace_fold:
  "list_all (\<lambda>ch. \<not> special ch) chs \<Longrightarrow>
   tok_finish (fold tok_step chs (plain ts cur)) = ts @ split_whitespace_aux cur chs"
  by (induction chs arbitrary: ts cur) (simp_all add: finish_plain step_plain)

subsection \<open>Properties\<close>

text \<open>C24: a command line can carry any arguments: non-empty arguments in UTF-8, each written with every character escaped by a
  backslash, in single quotes when it holds none, or plainly when it holds neither quotes, backslashes nor (Unicode)
  white space, and separated by spaces, are read back exactly as they were.\<close>

theorem tokenize_reads_back:
  assumes "list_all2 writes as ws"
  shows "tokenize (join '' '' ws) = as"
  using assms by (rule tokenize_written)

theorem tokenize_reads_back_witness:
  "tokenize (join '' '' [quote_arg ''a b'', escape_arg [SINGLE_QUOTE, CHR '' ''], quote_arg ([CHR 0x61, CHR 0xC2, CHR 0xA0, CHR 0x62])])
     = [''a b'', [SINGLE_QUOTE, CHR '' ''], [CHR 0x61, CHR 0xC2, CHR 0xA0, CHR 0x62]]"
  by (rule tokenize_reads_back) (simp add: writes_def tok_chars bytes_of_def cont_byte_def)

text \<open>An unquoted no-break space separates arguments as a space does.\<close>

theorem tokenize_no_break_space:
  "tokenize ([CHR 0x61, CHR 0xC2, CHR 0xA0, CHR 0x62]) = [''a'', ''b'']"
  by code_simp

text \<open>Without quotes and backslashes the tokenizer is the plain split at white space.\<close>

theorem tokenize_plain:
  assumes "list_all (\<lambda>ch. \<not> special ch) (utf8_chars line)"
  shows "tokenize line = split_whitespace line"
  using split_whitespace_fold [OF assms, of "[]" "[]"] by (simp add: tokenize_def split_whitespace_def)

theorem tokenize_plain_witness: "tokenize ''ls  -la /etc'' = split_whitespace ''ls  -la /etc''"
  by (rule tokenize_plain) (simp add: special_def tok_chars utf8_chars_ascii ascii_def)

end
