(* ===== verification/Virtual_Fs.thy ===== *)
theory Virtual_Fs
  imports Strings "HOL-Library.List_Lexorder" "HOL-Library.Char_ord"
begin

text \<open>
  Models \<open>src/shell/filesystem.rs\<close>: the in-memory file system of the restricted shell. The map of
  files is an association list, the set of directories a list; paths are byte strings. The version
  string is that of \<open>Cargo.toml\<close>, which the build substitutes.
\<close>

subsection \<open>State\<close>

record virtual_fs =
  vfiles :: "(string, string) dmap"
  vdirs :: "string list"
  vcwd :: string
  vhome :: string

record dir_entry =
  entry_name :: string
  entry_is_dir :: bool

definition CARGO_PKG_VERSION :: string where
  "CARGO_PKG_VERSION = ''1.0.0''"

definition LF :: string where "LF = [CHR 0x0A]"
definition DQ :: string where "DQ = [CHR 0x22]"

definition virtual_fs_new :: "string \<Rightarrow> string \<Rightarrow> virtual_fs" where
  "virtual_fs_new username hostname =
     (let home = ''/home/'' @ username in
      \<lparr>vfiles =
         dm_insert (home @ ''/.profile'') (''# s5 shell profile'' @ LF)
          (dm_insert ''/etc/passwd'' (username @ '':x:1000:1000::/home/'' @ username @ '':/bin/sh'' @ LF)
           (dm_insert ''/etc/os-release''
              (''NAME='' @ DQ @ ''s5'' @ DQ @ LF @ ''VERSION='' @ DQ @ CARGO_PKG_VERSION @ DQ @ LF @ ''ID=s5'' @ LF
               @ ''PRETTY_NAME='' @ DQ @ ''s5 SSH Proxy'' @ DQ @ LF)
            (dm_insert ''/etc/hostname'' (hostname @ LF) []))),
       vdirs = [''/'', ''/home'', home, ''/etc'', ''/tmp'', ''/var'', ''/var/log'', home @ ''/.ssh''],
       vcwd = home, vhome = home\<rparr>)"

subsection \<open>Operations\<close>

definition is_dir :: "virtual_fs \<Rightarrow> string \<Rightarrow> bool" where
  "is_dir fs path \<longleftrightarrow> path \<in> set (vdirs fs)"

definition is_file :: "virtual_fs \<Rightarrow> string \<Rightarrow> bool" where
  "is_file fs path \<longleftrightarrow> dm_contains (vfiles fs) path"

text \<open>One component of a path: nothing, the parent (\<open>pop\<close> of an empty vector does nothing), or a name.\<close>

definition push_component :: "string list \<Rightarrow> string \<Rightarrow> string list" where
  "push_component components c =
     (if c = '''' \<or> c = ''.'' then components
      else if c = ''..'' then butlast components
      else components @ [c])"

definition path_string :: "string list \<Rightarrow> string" where
  "path_string components = (if components = [] then ''/'' else ''/'' @ join ''/'' components)"

definition resolve_path :: "virtual_fs \<Rightarrow> string \<Rightarrow> string" where
  "resolve_path fs p =
     (let path = (if starts_with ''~'' p then vhome fs @ drop 1 p else p);
          base = (if starts_with ''/'' path then '''' else vcwd fs);
          components = (if base \<noteq> '''' then filter (\<lambda>c. c \<noteq> '''') (split_on CHR ''/'' base) else [])
      in path_string (foldl push_component components (split_on CHR ''/'' path)))"

definition cd :: "string \<Rightarrow> virtual_fs \<Rightarrow> virtual_fs \<times> (string + unit)" where
  "cd path fs =
     (let resolved = resolve_path fs path in
      if is_dir fs resolved then (fs\<lparr>vcwd := resolved\<rparr>, Inr ())
      else if is_file fs resolved then (fs, Inl (''cd: not a directory: '' @ path))
      else (fs, Inl (''cd: no such file or directory: '' @ path)))"

definition read_file :: "virtual_fs \<Rightarrow> string \<Rightarrow> string + string" where
  "read_file fs path =
     (case map_of (vfiles fs) (resolve_path fs path) of
        Some s \<Rightarrow> Inr s
      | None \<Rightarrow> Inl (''cat: '' @ path @ '': No such file or directory''))"

text \<open>The entries of a directory among some paths: those directly under it, by their last component.\<close>

definition children :: "string \<Rightarrow> bool \<Rightarrow> string list \<Rightarrow> dir_entry list" where
  "children prfx d paths =
     List.map_filter (\<lambda>p. case strip_prefix prfx p of
        Some rest \<Rightarrow> if CHR ''/'' \<notin> set rest \<and> rest \<noteq> '''' then Some \<lparr>entry_name = rest, entry_is_dir = d\<rparr> else None
      | None \<Rightarrow> None) paths"

definition list_dir :: "virtual_fs \<Rightarrow> string \<Rightarrow> string + dir_entry list" where
  "list_dir fs path =
     (let resolved = resolve_path fs path in
      if \<not> is_dir fs resolved then
        (if is_file fs resolved then Inr [\<lparr>entry_name = last (split_on CHR ''/'' resolved), entry_is_dir = False\<rparr>]
         else Inl (''ls: cannot access '' @ [CHR 0x27] @ path @ [CHR 0x27] @ '': No such file or directory''))
      else
        (let prfx = (if resolved = ''/'' then ''/'' else resolved @ ''/'') in
         Inr (sort_key entry_name
           (children prfx True (filter (\<lambda>d. d \<noteq> resolved) (vdirs fs)) @ children prfx False (map fst (vfiles fs))))))"

subsection \<open>Canonical paths\<close>

text \<open>A component of a canonical path: a name, neither empty nor a dot entry, without a slash.\<close>

definition clean :: "string \<Rightarrow> bool" where
  "clean c \<longleftrightarrow> c \<noteq> '''' \<and> c \<noteq> ''.'' \<and> c \<noteq> ''..'' \<and> CHR ''/'' \<notin> set c"

definition canonical :: "string \<Rightarrow> bool" where
  "canonical p \<longleftrightarrow> starts_with ''/'' p \<and> (p = ''/'' \<or> list_all clean (split_on CHR ''/'' (drop 1 p)))"

definition fs_inv :: "virtual_fs \<Rightarrow> bool" where
  "fs_inv fs \<longleftrightarrow> is_dir fs (vcwd fs) \<and> canonical (vcwd fs)"

lemma push_clean: "list_all clean cs \<Longrightarrow> CHR ''/'' \<notin> set c \<Longrightarrow> list_all clean (push_component cs c)"
  by (auto simp: push_component_def clean_def list_all_iff dest: in_set_butlastD)

lemma foldl_push_clean:
  "list_all clean cs \<Longrightarrow> (\<And>c. c \<in> set ps \<Longrightarrow> CHR ''/'' \<notin> set c) \<Longrightarrow> list_all clean (foldl push_component cs ps)"
  by (induction ps arbitrary: cs) (simp_all add: push_clean)

lemma split_join: "list_all clean cs \<Longrightarrow> cs \<noteq> [] \<Longrightarrow> split_on CHR ''/'' (join ''/'' cs) = cs"
proof (induction cs)
  case (Cons c cs)
  then show ?case by (cases cs) (simp_all add: clean_def)
qed simp

lemma canonical_path_string: "list_all clean cs \<Longrightarrow> canonical (path_string cs)"
  by (simp add: canonical_def path_string_def starts_with_def split_join)

lemma join_nth: "l \<noteq> [] \<Longrightarrow> join sep ((x # a) # l) = x # join sep (a # l)"
  by (cases l) simp_all

lemma join_split: "join [c] (split_on c s) = s"
proof (induction s)
  case (Cons x s)
  obtain l ls where "split_on c s = l # ls" by (meson neq_Nil_conv split_on_not_Nil)
  with Cons show ?case by (cases ls) (simp_all)
qed simp

lemma canonical_cases:
  assumes "canonical p"
  obtains cs where "list_all clean cs" "p = path_string cs"
proof (cases "p = ''/''")
  case True
  then show ?thesis using that [of "[]"] by (simp add: path_string_def)
next
  case False
  from assms obtain q where q: "p = CHR ''/'' # q" by (auto simp: canonical_def starts_with_iff)
  with assms False have "list_all clean (split_on CHR ''/'' q)" by (simp add: canonical_def)
  then show ?thesis using that [of "split_on CHR ''/'' q"] by (simp add: q path_string_def join_split)
qed

text \<open>The components of a canonical path, as the loop over it sees them.\<close>

lemma split_path_string:
  "list_all clean cs \<Longrightarrow> split_on CHR ''/'' (path_string cs) = '''' # (if cs = [] then [''''] else cs)"
  by (simp add: path_string_def split_join)

lemma foldl_push_app: "list_all clean cs \<Longrightarrow> foldl push_component bs cs = bs @ cs"
  by (induction cs arbitrary: bs) (simp_all add: push_component_def clean_def)

lemma filter_components: "list_all clean cs \<Longrightarrow> filter (\<lambda>c. c \<noteq> '''') (split_on CHR ''/'' (path_string cs)) = cs"
  by (auto simp: split_path_string clean_def list_all_iff filter_id_conv)

lemma path_string_head: "starts_with ''/'' (path_string cs)" "\<not> starts_with ''~'' (path_string cs)" "path_string cs \<noteq> ''''"
  by (simp_all add: path_string_def starts_with_def)

lemma resolve_canonical:
  assumes "canonical p"
  shows "resolve_path fs p = p"
  using assms
proof (rule canonical_cases)
  fix cs
  assume cs: "list_all clean cs" "p = path_string cs"
  then have "foldl push_component [] (split_on CHR ''/'' p) = cs"
    by (simp add: split_path_string push_component_def foldl_push_app)
  then show ?thesis by (simp add: resolve_path_def path_string_head cs(2))
qed

lemma resolve_is_canonical:
  assumes "canonical (vcwd fs)"
  shows "canonical (resolve_path fs p)"
proof -
  obtain cs where "list_all clean cs" "vcwd fs = path_string cs" using assms by (rule canonical_cases)
  then have "list_all clean (filter (\<lambda>c. c \<noteq> '''') (split_on CHR ''/'' (vcwd fs)))"
    by (simp add: filter_components)
  then show ?thesis
    unfolding resolve_path_def Let_def
    by (intro canonical_path_string foldl_push_clean) (auto dest: split_on_parts)
qed

lemma cd_inv: "fs_inv fs \<Longrightarrow> fs_inv (fst (cd p fs))"
  by (simp add: cd_def fs_inv_def is_dir_def Let_def resolve_is_canonical)

interpretation directories: machine "\<lambda>p. fst \<circ> cd p" fs_inv
  by unfold_locales (simp add: cd_inv)

lemma vdirs_new:
  "vdirs (virtual_fs_new u h) =
     [''/'', ''/home'', ''/home/'' @ u, ''/etc'', ''/tmp'', ''/var'', ''/var/log'', ''/home/'' @ u @ ''/.ssh'']"
  by (simp add: virtual_fs_new_def Let_def)

lemma new_inv: "clean u \<Longrightarrow> fs_inv (virtual_fs_new u h)"
proof -
  assume u: "clean u"
  then have "''/home/'' @ u = path_string [''home'', u]" by (simp add: path_string_def)
  with u have "canonical (''/home/'' @ u)"
    using canonical_path_string [of "[''home'', u]"] by (simp add: clean_def)
  then show ?thesis by (simp add: fs_inv_def virtual_fs_new_def is_dir_def Let_def)
qed

lemma cd_keeps [simp]:
  "vfiles (fst (cd p fs)) = vfiles fs" "vdirs (fst (cd p fs)) = vdirs fs" "vhome (fst (cd p fs)) = vhome fs"
  by (simp_all add: cd_def Let_def)

lemma cds_keep:
  "vfiles (fold (\<lambda>p. fst \<circ> cd p) ps fs) = vfiles fs" "vdirs (fold (\<lambda>p. fst \<circ> cd p) ps fs) = vdirs fs"
  by (induction ps arbitrary: fs) simp_all

subsection \<open>Properties\<close>

text \<open>The virtual directory never leaves the fixed tree: after any sequence of \<open>cd\<close> commands of a user whose name is
  an ordinary path component, the working directory is one of the eight directories the shell was
  created with, in canonical form, every path resolves to a canonical absolute path, and reading a
  file returns the text of one of the four virtual files.\<close>

theorem shell_confined:
  assumes "clean u" and "fs = fold (\<lambda>p. fst \<circ> cd p) ps (virtual_fs_new u h)"
  shows "vcwd fs \<in> set (vdirs (virtual_fs_new u h)) \<and> canonical (vcwd fs) \<and> canonical (resolve_path fs p)
     \<and> (read_file fs q = Inr text \<longrightarrow>
          map_of (vfiles (virtual_fs_new u h)) (resolve_path fs q) = Some text)"
proof -
  have "fs_inv fs" unfolding assms(2) by (rule directories.run_inv [OF new_inv [OF assms(1)]])
  then show ?thesis
    using cds_keep [of ps "virtual_fs_new u h"] assms(2) resolve_is_canonical
    by (auto simp: fs_inv_def is_dir_def read_file_def split: option.splits)
qed

theorem shell_confined_witness:
  "canonical (vcwd (fold (\<lambda>p. fst \<circ> cd p) [''/var/log'', ''..''] (virtual_fs_new ''al'' ''s5'')))
   \<and> vcwd (fold (\<lambda>p. fst \<circ> cd p) [''/var/log'', ''..''] (virtual_fs_new ''al'' ''s5'')) = ''/var''"
proof -
  have c: "clean ''al''" by (simp add: clean_def)
  have r1: "resolve_path (virtual_fs_new ''al'' ''s5'') ''/var/log'' = ''/var/log''"
    by (rule resolve_canonical) (simp add: canonical_def starts_with_def clean_def)
  have r2: "resolve_path ((virtual_fs_new ''al'' ''s5'')\<lparr>vcwd := ''/var/log''\<rparr>) ''..'' = ''/var''"
    by (simp add: resolve_path_def starts_with_def push_component_def path_string_def)
  have "vcwd (fold (\<lambda>p. fst \<circ> cd p) [''/var/log'', ''..''] (virtual_fs_new ''al'' ''s5'')) = ''/var''"
    by (simp add: cd_def r1 r2 is_dir_def vdirs_new)
  with shell_confined [OF c HOL.refl, THEN conjunct2, THEN conjunct1] show ?thesis by (rule conjI)
qed

text \<open>Path resolution is idempotent and agrees with the walk along the components: a canonical path resolves to
  itself, and \<open>cd\<close> to an existing directory makes it the working directory, from where \<open>.\<close> is it and
  \<open>..\<close> its parent.\<close>

theorem resolve_path_laws:
  assumes "fs_inv fs" and "list_all clean cs" and "is_dir fs (path_string cs)"
  shows "resolve_path fs (resolve_path fs p) = resolve_path fs p
     \<and> cd (path_string cs) fs = (fs\<lparr>vcwd := path_string cs\<rparr>, Inr ())
     \<and> resolve_path (fs\<lparr>vcwd := path_string cs\<rparr>) ''.'' = path_string cs
     \<and> resolve_path (fs\<lparr>vcwd := path_string cs\<rparr>) ''..'' = path_string (butlast cs)"
proof (intro conjI)
  have r: "resolve_path fs (path_string cs) = path_string cs"
    using resolve_canonical canonical_path_string assms(2) by blast
  show "resolve_path fs (resolve_path fs p) = resolve_path fs p"
    using assms(1) by (intro resolve_canonical resolve_is_canonical) (simp add: fs_inv_def)
  show "cd (path_string cs) fs = (fs\<lparr>vcwd := path_string cs\<rparr>, Inr ())"
    using assms(3) by (simp add: cd_def r)
  show "resolve_path (fs\<lparr>vcwd := path_string cs\<rparr>) ''.'' = path_string cs"
    "resolve_path (fs\<lparr>vcwd := path_string cs\<rparr>) ''..'' = path_string (butlast cs)"
    using filter_components [OF assms(2)]
    by (simp_all add: resolve_path_def starts_with_def path_string_head push_component_def)
qed

theorem resolve_path_laws_witness:
  "resolve_path ((virtual_fs_new ''al'' ''s5'')\<lparr>vcwd := path_string [''var'', ''log'']\<rparr>) ''..'' = path_string [''var'']"
proof -
  have "is_dir (virtual_fs_new ''al'' ''s5'') (path_string [''var'', ''log''])"
    by (simp add: vdirs_new is_dir_def path_string_def)
  moreover have "fs_inv (virtual_fs_new ''al'' ''s5'')" by (rule new_inv) (simp add: clean_def)
  ultimately show ?thesis
    using resolve_path_laws [of "virtual_fs_new ''al'' ''s5''" "[''var'', ''log'']"] by (simp add: clean_def)
qed

end
