(* ===== verification/Shell_Commands.thy ===== *)
theory Shell_Commands
  imports Shell_Parser Virtual_Fs User Conn_Slots
begin

text \<open>
  Models \<open>src/shell/commands/\<close>, \<open>src/shell/context.rs\<close> and the formatting of \<open>src/utils.rs\<close>: every
  command of the restricted shell, the expansion of aliases and the dispatch. The shared connection
  table and quota tracker a command reads are fields of the context, as in the source; a command
  that asks the tracker for the usage also rolls its windows, so the tracker is part of the result.
  The resolver of the operating system, the architecture name, the clock readings and the decimal
  formatting of floating-point numbers are arguments (\<open>shell_ops\<close>).
\<close>

subsection \<open>Text\<close>

definition EOL :: string where "EOL = [CHR 0x0D, CHR 0x0A]"
definition SQ :: string where "SQ = [CHR 0x27]"
definition ESC :: string where "ESC = [CHR 0x1B]"

definition GREEN :: string where "GREEN = ESC @ ''[32m''"
definition RED :: string where "RED = ESC @ ''[31m''"
definition YELLOW :: string where "YELLOW = ESC @ ''[33m''"
definition CYAN :: string where "CYAN = ESC @ ''[36m''"
definition BOLD :: string where "BOLD = ESC @ ''[1m''"
definition RESET :: string where "RESET = ESC @ ''[0m''"

definition color :: "string \<Rightarrow> string \<Rightarrow> bool \<Rightarrow> string" where
  "color code text enabled = (if enabled then code @ text @ RESET else text)"

text \<open>\<open>IpAddr\<close>'s \<open>Display\<close>: an IPv4-mapped address in mixed notation, the first longest run of two or
  more zero groups compressed.\<close>

fun show_hex :: "nat \<Rightarrow> string" where
  "show_hex n = (if n < 16 then [digit_char n] else show_hex (n div 16) @ [digit_char (n mod 16)])"

declare show_hex.simps [simp del]

definition zero_run :: "u16 list \<Rightarrow> nat" where
  "zero_run xs = length (takeWhile (\<lambda>x. x = 0) xs)"

fun longest_zeros :: "nat \<Rightarrow> nat \<times> nat \<Rightarrow> u16 list \<Rightarrow> nat \<times> nat" where
  "longest_zeros i best [] = best"
| "longest_zeros i best (x # xs) =
     longest_zeros (Suc i) (if zero_run (x # xs) > snd best then (i, zero_run (x # xs)) else best) xs"

definition show_segments :: "u16 list \<Rightarrow> string" where
  "show_segments xs = join '':'' (map (\<lambda>x. show_hex (unat x)) xs)"

definition show_ip :: "ipaddr \<Rightarrow> string" where
  "show_ip ip =
     (case ip of
        V4 a b c d \<Rightarrow> show_ipv4 a b c d
      | V6 s0 s1 s2 s3 s4 s5 s6 s7 \<Rightarrow>
          if [s0, s1, s2, s3, s4, s5] = [0, 0, 0, 0, 0, 0xFFFF] then
            ''::ffff:'' @ join ''.'' (map (\<lambda>b. show_nat (unat b)) (concat (map (\<lambda>s. [drop_bit 8 s, s AND 0xFF]) [s6, s7])))
          else
            (let segs = [s0, s1, s2, s3, s4, s5, s6, s7]; (st, len) = longest_zeros 0 (0, 0) segs in
             if len > 1 then show_segments (take st segs) @ ''::'' @ show_segments (drop (st + len) segs)
             else show_segments segs))"

subsection \<open>External operations, context, results\<close>

record ('net, 'f) shell_ops =
  sh_net :: "'net ipnet_ops"
  sh_chrono :: chrono_ops
  sh_f64 :: "'f f64_ops"
  fmt_tenths :: "'f \<Rightarrow> string"
  resolve_host :: "string \<Rightarrow> string + ipaddr list"
  lookup_time :: duration
  target_arch :: string
  uptime_secs :: nat
  usage_now :: nat

record 'net shell_context =
  sc_username :: string
  sc_auth_method :: string
  sc_source_ip :: string
  sc_role :: user_role
  sc_group :: "string option"
  sc_permissions :: shell_permissions
  sc_acl :: "'net parsed_acl"
  sc_colors :: bool
  sc_expires_at :: "string option"
  sc_max_bandwidth_kbps :: u64
  sc_bookmarks :: "(string, string) dmap"
  sc_aliases :: "(string, string) dmap"
  sc_ssh_key_fingerprint :: "string option"
  sc_proxy_engine :: "slots option"
  sc_quota_tracker :: "quota_tracker option"
  sc_quota_config :: "quota_config option"

record command_result =
  out_text :: string
  exit_requested :: bool

definition result_output :: "string \<Rightarrow> command_result" where
  "result_output text = \<lparr>out_text = text, exit_requested = False\<rparr>"

text \<open>The refusal of a command.\<close>

definition denied :: "string \<Rightarrow> command_result" where
  "denied what = result_output (''Permission denied: '' @ what @ EOL)"

definition result_exit :: command_result where
  "result_exit = \<lparr>out_text = ''logout'' @ EOL, exit_requested = True\<rparr>"

definition result_empty :: command_result where
  "result_empty = \<lparr>out_text = [], exit_requested = False\<rparr>"

definition uptime :: "nat \<Rightarrow> string" where
  "uptime secs =
     (if secs < 60 then show_nat secs @ ''s''
      else if secs < 3600 then show_nat (secs div 60) @ ''m '' @ show_nat (secs mod 60) @ ''s''
      else show_nat (secs div 3600) @ ''h '' @ show_nat (secs mod 3600 div 60) @ ''m '' @ show_nat (secs mod 60) @ ''s'')"

definition KB :: u64 where "KB = 1024"
definition MB :: u64 where "MB = 1024 * KB"
definition GB :: u64 where "GB = 1024 * MB"
definition TB :: u64 where "TB = 1024 * GB"

definition format_bytes :: "('net, 'f) shell_ops \<Rightarrow> u64 \<Rightarrow> string" where
  "format_bytes P bytes =
     (let scaled = (\<lambda>u. fmt_tenths P (f_div (sh_f64 P) (f_of_u64 (sh_f64 P) bytes) (f_of_u64 (sh_f64 P) u))) in
      if bytes = 0 then ''unlimited''
      else if bytes \<ge> TB then scaled TB @ '' TB''
      else if bytes \<ge> GB then scaled GB @ '' GB''
      else if bytes \<ge> MB then scaled MB @ '' MB''
      else if bytes \<ge> KB then scaled KB @ '' KB''
      else show_nat (unat bytes) @ '' B'')"

definition format_bytes_used :: "('net, 'f) shell_ops \<Rightarrow> u64 \<Rightarrow> string" where
  "format_bytes_used P bytes = (if bytes = 0 then ''0 B'' else format_bytes P bytes)"

definition format_rate :: "('net, 'f) shell_ops \<Rightarrow> u64 \<Rightarrow> string" where
  "format_rate P bps =
     (let scaled = (\<lambda>u. fmt_tenths P (f_div (sh_f64 P) (f_of_u64 (sh_f64 P) bps) (f_lit (sh_f64 P) u 1))) in
      if bps \<ge> 1000000 then scaled 1000000 @ '' Mbps''
      else if bps \<ge> 1000 then scaled 1000 @ '' Kbps''
      else show_nat (unat bps) @ '' bps'')"

definition format_limit :: "('net, 'f) shell_ops \<Rightarrow> u64 \<Rightarrow> string" where
  "format_limit P limit = (if limit = 0 then ''unlimited'' else format_bytes_used P limit)"

definition format_conn_limit :: "u32 \<Rightarrow> string" where
  "format_conn_limit limit = (if limit = 0 then ''unlimited'' else show_nat (unat limit))"

fun show_role :: "user_role \<Rightarrow> string" where
  "show_role RoleUser = ''user''"
| "show_role RoleAdmin = ''admin''"

subsection \<open>Basic commands\<close>

definition ls_run :: "string list \<Rightarrow> virtual_fs \<Rightarrow> command_result" where
  "ls_run args fs =
     (let show_hidden = list_ex (\<lambda>a. CHR ''a'' \<in> set a) args;
          long_format = list_ex (\<lambda>a. CHR ''l'' \<in> set a) args;
          path = (case find (\<lambda>a. \<not> starts_with ''-'' a) args of Some p \<Rightarrow> p | None \<Rightarrow> ''.'') in
      case list_dir fs path of
        Inr all_entries \<Rightarrow>
          (let entries = filter (\<lambda>e. show_hidden \<or> \<not> starts_with ''.'' (entry_name e)) all_entries in
           if entries = [] then result_empty
           else if long_format then
             result_output (concat (map (\<lambda>e.
               (if entry_is_dir e then ''drwxr-xr-x  2 root root 4096 Jan  1 00:00 ''
                else ''-rw-r--r--  1 root root   64 Jan  1 00:00 '') @ entry_name e @ EOL) entries))
           else result_output (join ''  '' (map (\<lambda>e. if entry_is_dir e then entry_name e @ ''/'' else entry_name e) entries) @ EOL))
      | Inl msg \<Rightarrow> result_output (msg @ EOL))"

definition pwd_run :: "virtual_fs \<Rightarrow> command_result" where
  "pwd_run fs = result_output (vcwd fs @ EOL)"

definition cd_run :: "string list \<Rightarrow> virtual_fs \<Rightarrow> virtual_fs \<times> command_result" where
  "cd_run args fs =
     (case cd (case args of a # _ \<Rightarrow> a | [] \<Rightarrow> ''~'') fs of
        (fs', Inr _) \<Rightarrow> (fs', result_empty)
      | (fs', Inl msg) \<Rightarrow> (fs', result_output (msg @ EOL)))"

definition cat_run :: "string list \<Rightarrow> virtual_fs \<Rightarrow> command_result" where
  "cat_run args fs =
     (if args = [] then result_output (''cat: missing operand'' @ EOL)
      else result_output (concat (map (\<lambda>path.
        case read_file fs path of
          Inr content \<Rightarrow> concat (map (\<lambda>line. if line \<noteq> [] then line @ EOL else []) (split_on CHR 0x0A content))
        | Inl msg \<Rightarrow> msg @ EOL) args)))"

definition whoami_run :: "string \<Rightarrow> command_result" where
  "whoami_run username = result_output (username @ EOL)"

definition uname_run :: "('net, 'f) shell_ops \<Rightarrow> string list \<Rightarrow> string \<Rightarrow> command_result" where
  "uname_run P args hostname =
     (if args = [] then result_output (''s5'' @ EOL)
      else if ''-a'' \<in> set args then
        result_output (''s5 '' @ hostname @ '' '' @ CARGO_PKG_VERSION @ '' '' @ target_arch P @ '' s5/'' @ CARGO_PKG_VERSION @ '' s5'' @ EOL)
      else
        (let flags = concat args;
             parts = (if CHR ''s'' \<in> set flags then [''s5''] else []) @ (if CHR ''n'' \<in> set flags then [hostname] else [])
               @ (if CHR ''r'' \<in> set flags then [CARGO_PKG_VERSION] else []) @ (if CHR ''m'' \<in> set flags then [target_arch P] else [])
               @ (if CHR ''o'' \<in> set flags then [''s5''] else [])
         in result_output (join '' '' (if parts = [] then [''s5''] else parts) @ EOL)))"

definition help_basic :: string where
  "help_basic = concat (map (\<lambda>l. l @ EOL)
     [''Available commands:'', [],
      ''ls [path]          List directory contents'',
      ''cd [path]          Change directory'',
      ''pwd                Print working directory'',
      ''cat <file>         Display file contents'',
      ''whoami             Print current user'',
      ''hostname           Print hostname'',
      ''uname [-a]         Print system information'',
      ''id                 Print user identity'',
      ''echo <text>        Print text'',
      ''env                Print environment variables'',
      ''clear              Clear screen'',
      ''help               Show this help'',
      ''exit               Close connection''])"

definition help_extended :: string where
  "help_extended = concat (map (\<lambda>l. l @ EOL)
     [[], ''Proxy commands:'', [],
      ''show connections   Show active proxy connections'',
      ''show bandwidth     Show bandwidth usage and limits'',
      ''show quota         Show quota limits and current usage'',
      ''show acl           Show effective ACL rules'',
      ''show status        Show session status'',
      ''show history       Show proxy connection history'',
      ''show fingerprint   Show SSH key fingerprint'',
      ''test <host:port>   Test if destination is allowed by ACL'',
      ''ping <host[:port]> DNS resolve and ACL check for host'',
      ''resolve <domain>   DNS lookup showing all IPs'',
      ''bookmark add|list|remove  Manage destination bookmarks'',
      ''alias                     List all aliases'',
      ''alias <name>=<command>    Create alias'',
      ''alias remove <name>       Remove alias''])"

definition help_run :: "'net shell_context option \<Rightarrow> command_result" where
  "help_run ctx = result_output (help_basic @ (if ctx \<noteq> None then help_extended else []))"

subsection \<open>Bookmarks and aliases\<close>

type_synonym 'net ctx_command = "string list \<Rightarrow> 'net shell_context \<Rightarrow> 'net shell_context \<times> command_result"

definition bookmark_add :: "'net ctx_command" where
  "bookmark_add args ctx =
     (case args of
        name # target # _ \<Rightarrow>
          if CHR '':'' \<notin> set target then
            (ctx, result_output (''Invalid target '' @ SQ @ target @ SQ @ ''. Expected format: host:port'' @ EOL))
          else
            (let action = (if dm_contains (sc_bookmarks ctx) name then ''Updated'' else ''Added'') in
             (ctx\<lparr>sc_bookmarks := dm_insert name target (sc_bookmarks ctx)\<rparr>,
              result_output (color GREEN action (sc_colors ctx) @ '' bookmark '' @ color CYAN name (sc_colors ctx) @ '' -> '' @ target @ EOL)))
      | _ \<Rightarrow> (ctx, result_output (''Usage: bookmark add <name> <host:port>'' @ EOL)))"

definition bookmark_list :: "'net shell_context \<Rightarrow> command_result" where
  "bookmark_list ctx =
     (if sc_bookmarks ctx = [] then result_output (''No bookmarks defined'' @ EOL)
      else result_output (color CYAN ''Bookmarks:'' (sc_colors ctx) @ EOL
        @ concat (map (\<lambda>(name, target). ''  '' @ color YELLOW name (sc_colors ctx) @ '' -> '' @ target @ EOL)
            (sort_key fst (sc_bookmarks ctx)))))"

definition bookmark_remove :: "'net ctx_command" where
  "bookmark_remove args ctx =
     (case args of
        [] \<Rightarrow> (ctx, result_output (''Usage: bookmark remove <name>'' @ EOL))
      | name # _ \<Rightarrow>
          if dm_contains (sc_bookmarks ctx) name then
            (ctx\<lparr>sc_bookmarks := dm_remove name (sc_bookmarks ctx)\<rparr>,
             result_output (color GREEN ''Removed'' (sc_colors ctx) @ '' bookmark '' @ SQ @ name @ SQ @ EOL))
          else (ctx, result_output (''Bookmark '' @ SQ @ name @ SQ @ '' not found'' @ EOL)))"

definition bookmark_run :: "'net ctx_command" where
  "bookmark_run args ctx =
     (if \<not> bookmark_command (sc_permissions ctx) then (ctx, denied ''bookmark'')
      else case args of
        [] \<Rightarrow> (ctx, result_output (''Usage: bookmark <add|list|remove> [args...]'' @ EOL))
      | sub # rest \<Rightarrow>
          if sub = ''add'' then bookmark_add rest ctx
          else if sub = ''list'' \<or> sub = ''ls'' then (ctx, bookmark_list ctx)
          else if sub = ''remove'' \<or> sub = ''rm'' \<or> sub = ''del'' then bookmark_remove rest ctx
          else (ctx, result_output (''bookmark: unknown subcommand '' @ SQ @ sub @ SQ @ EOL
                 @ ''Usage: bookmark <add|list|remove> [args...]'' @ EOL)))"

definition alias_list :: "'net shell_context \<Rightarrow> command_result" where
  "alias_list ctx =
     (if sc_aliases ctx = [] then result_output (''No aliases defined'' @ EOL)
      else result_output (color CYAN ''Aliases:'' (sc_colors ctx) @ EOL
        @ concat (map (\<lambda>(name, command). ''  '' @ color YELLOW name (sc_colors ctx) @ '' = '' @ SQ @ command @ SQ @ EOL)
            (sort_key fst (sc_aliases ctx)))))"

definition alias_set :: "string \<Rightarrow> string \<Rightarrow> 'net shell_context \<Rightarrow> 'net shell_context \<times> command_result" where
  "alias_set name command ctx =
     (let action = (if dm_contains (sc_aliases ctx) name then ''Updated'' else ''Added'') in
      (ctx\<lparr>sc_aliases := dm_insert name command (sc_aliases ctx)\<rparr>,
       result_output (color GREEN action (sc_colors ctx) @ '' alias: '' @ color YELLOW name (sc_colors ctx) @ '' = ''
         @ SQ @ command @ SQ @ EOL)))"

definition alias_remove :: "'net ctx_command" where
  "alias_remove args ctx =
     (case args of
        [] \<Rightarrow> (ctx, result_output (''Usage: alias remove <name>'' @ EOL))
      | name # _ \<Rightarrow>
          if dm_contains (sc_aliases ctx) name then
            (ctx\<lparr>sc_aliases := dm_remove name (sc_aliases ctx)\<rparr>,
             result_output (color GREEN ''Removed'' (sc_colors ctx) @ '' alias '' @ SQ @ name @ SQ @ EOL))
          else (ctx, result_output (''Alias '' @ SQ @ name @ SQ @ '' not found'' @ EOL)))"

definition alias_run :: "'net ctx_command" where
  "alias_run args ctx =
     (if \<not> alias_command (sc_permissions ctx) then (ctx, denied ''alias'')
      else case args of
        [] \<Rightarrow> (ctx, alias_list ctx)
      | first # rest \<Rightarrow>
          if first = ''remove'' \<or> first = ''rm'' \<or> first = ''del'' then alias_remove rest ctx
          else case find_char CHR ''='' first of
            Some eq_pos \<Rightarrow>
              (let name = take eq_pos first; command = drop (eq_pos + 1) first;
                   full_command = (if rest \<noteq> [] then (if command = [] then join '' '' rest else command @ '' '' @ join '' '' rest)
                                   else command) in
               if name = [] then (ctx, result_output (''Usage: alias <name>=<command>'' @ EOL))
               else if full_command = [] then (ctx, result_output (''Usage: alias <name>=<command>'' @ EOL))
               else alias_set name full_command ctx)
          | None \<Rightarrow> (ctx, result_output (''Usage: alias [<name>=<command>] | alias remove <name>'' @ EOL)))"

subsection \<open>Commands on destinations\<close>

definition parse_host_port :: "string \<Rightarrow> (string \<times> u16) option" where
  "parse_host_port input =
     (if starts_with ''['' input then
        (case find_char CHR '']'' input of
           None \<Rightarrow> None
         | Some bracket_end \<Rightarrow>
             if bracket_end + 1 < length input \<and> input ! (bracket_end + 1) = CHR '':'' then
               map_option (\<lambda>port. (drop 1 (take bracket_end input), port)) (parse_u16 (drop (bracket_end + 2) input))
             else None)
      else
        (case rfind_char CHR '':'' input of
           None \<Rightarrow> None
         | Some colon_pos \<Rightarrow>
             (case parse_u16 (drop (colon_pos + 1) input) of
                None \<Rightarrow> None
              | Some port \<Rightarrow> if take colon_pos input = [] then None else Some (take colon_pos input, port))))"

definition parse_host_port_default :: "string \<Rightarrow> string \<times> u16" where
  "parse_host_port_default input =
     (let bare = (case rfind_char CHR '':'' input of
            None \<Rightarrow> (input, 80)
          | Some colon_pos \<Rightarrow>
              if CHR '':'' \<notin> set (take colon_pos input) then
                (case parse_u16 (drop (colon_pos + 1) input) of
                   Some port \<Rightarrow> (take colon_pos input, port) | None \<Rightarrow> (input, 80))
              else (input, 80)) in
      if starts_with ''['' input then
        (case find_char CHR '']'' input of
           None \<Rightarrow> bare
         | Some bracket_end \<Rightarrow>
             (drop 1 (take bracket_end input),
              if bracket_end + 1 < length input \<and> input ! (bracket_end + 1) = CHR '':'' then
                (case parse_u16 (drop (bracket_end + 2) input) of Some port \<Rightarrow> port | None \<Rightarrow> 80)
              else 80))
      else bare)"

definition test_run :: "('net, 'f) shell_ops \<Rightarrow> string list \<Rightarrow> 'net shell_context \<Rightarrow> command_result" where
  "test_run P args ctx =
     (if \<not> test_command (sc_permissions ctx) then denied ''test''
      else case args of
        [] \<Rightarrow> result_output (''Usage: test <host:port>'' @ EOL)
      | target # _ \<Rightarrow>
          (case parse_host_port target of
             None \<Rightarrow> result_output (''Invalid target '' @ SQ @ target @ SQ @ ''. Expected format: host:port'' @ EOL)
           | Some (host, port) \<Rightarrow>
               (let (policy, matched_rule) = check_verbose (sh_net P) (sc_acl ctx) host port None;
                    status = (case policy of Allow \<Rightarrow> color GREEN ''ALLOWED'' (sc_colors ctx)
                                           | Deny \<Rightarrow> color RED ''DENIED'' (sc_colors ctx)) in
                result_output (host @ '':'' @ show_nat (unat port) @ '' -> '' @ status
                  @ (case matched_rule of Some rule \<Rightarrow> '' (rule: '' @ rule @ '')'' | None \<Rightarrow> '' (default policy)'') @ EOL))))"

definition elapsed_ms :: "('net, 'f) shell_ops \<Rightarrow> string" where
  "elapsed_ms P = fmt_tenths P (f_mul (sh_f64 P) (f_of_duration (sh_f64 P) (lookup_time P)) (f_lit (sh_f64 P) 1000 1)) @ ''ms''"

definition ping_run :: "('net, 'f) shell_ops \<Rightarrow> string list \<Rightarrow> 'net shell_context \<Rightarrow> command_result" where
  "ping_run P args ctx =
     (if \<not> ping_command (sc_permissions ctx) then denied ''ping''
      else case args of
        [] \<Rightarrow> result_output (''Usage: ping <host[:port]>'' @ EOL)
      | target # _ \<Rightarrow>
          (let (host, port) = parse_host_port_default target; colors = sc_colors ctx;
               head = ''Resolving '' @ color CYAN host colors @ ''...'' @ EOL in
           case resolve_host P (host @ '':'' @ show_nat (unat port)) of
             Inl e \<Rightarrow> result_output (head @ color RED ''Resolution failed'' colors @ '': '' @ e @ EOL)
           | Inr [] \<Rightarrow> result_output (head @ color RED ''No addresses found'' colors @ EOL)
           | Inr (ip # _) \<Rightarrow>
               (let first_ip = show_ip ip;
                    (policy, rule) = check_verbose (sh_net P) (sc_acl ctx) host port (parse_ip first_ip) in
                result_output (head @ ''Resolved to: '' @ color GREEN first_ip colors @ '' ('' @ elapsed_ms P @ '')'' @ EOL
                  @ ''ACL check: '' @ (case policy of Allow \<Rightarrow> color GREEN ''allowed'' colors | Deny \<Rightarrow> color RED ''denied'' colors)
                  @ (case rule of Some r \<Rightarrow> '' ('' @ r @ '')'' | None \<Rightarrow> '' (default policy)'') @ EOL
                  @ ''Note: TCP connect requires async context'' @ EOL))))"

definition resolve_run :: "('net, 'f) shell_ops \<Rightarrow> string list \<Rightarrow> 'net shell_context \<Rightarrow> command_result" where
  "resolve_run P args ctx =
     (if \<not> resolve_command (sc_permissions ctx) then denied ''resolve''
      else case args of
        [] \<Rightarrow> result_output (''Usage: resolve <domain>'' @ EOL)
      | domain # _ \<Rightarrow>
          (let colors = sc_colors ctx; head = ''Resolving '' @ color CYAN domain colors @ ''...'' @ EOL in
           case resolve_host P (domain @ '':0'') of
             Inl e \<Rightarrow> result_output (head @ color RED ''Resolution failed'' colors @ '': '' @ e @ EOL)
           | Inr addrs \<Rightarrow>
               (let ips = remdups_adj (map show_ip addrs) in
                if ips = [] then result_output (head @ color RED ''No addresses found'' colors @ EOL)
                else result_output (head @ ''Resolved '' @ show_nat (length ips) @ '' address(es) in '' @ elapsed_ms P @ '':'' @ EOL
                  @ concat (map (\<lambda>ip. ''  '' @ color GREEN ip colors @ EOL) ips)))))"

subsection \<open>Show\<close>

definition denied_show :: "string \<Rightarrow> command_result" where
  "denied_show name = denied (''show '' @ name)"

definition connection_count :: "'net shell_context \<Rightarrow> u32" where
  "connection_count ctx = (case sc_proxy_engine ctx of Some S \<Rightarrow> count_of S (sc_username ctx) | None \<Rightarrow> 0)"

definition show_connections_cmd :: "'net shell_context \<Rightarrow> command_result" where
  "show_connections_cmd ctx =
     (if \<not> show_connections (sc_permissions ctx) then denied_show ''connections''
      else if connection_count ctx > 0 then
        result_output (''Active connections: '' @ show_nat (unat (connection_count ctx)) @ EOL)
      else result_output (''No active proxy connections'' @ EOL))"

text \<open>The usage of the user, with the tracker after its windows were rolled.\<close>

definition user_usage ::
  "('net, 'f) shell_ops \<Rightarrow> 'net shell_context \<Rightarrow> 'net shell_context \<times> user_quota_usage option" where
  "user_usage P ctx =
     (case sc_quota_tracker ctx of
        None \<Rightarrow> (ctx, None)
      | Some T \<Rightarrow>
          (let (T', u) = get_user_usage (sh_chrono P) (usage_now P) (sc_username ctx) T in
           (ctx\<lparr>sc_quota_tracker := Some T'\<rparr>, Some u)))"

definition show_bandwidth_cmd :: "('net, 'f) shell_ops \<Rightarrow> 'net shell_context \<Rightarrow> 'net shell_context \<times> command_result" where
  "show_bandwidth_cmd P ctx =
     (if \<not> show_bandwidth (sc_permissions ctx) then (ctx, denied_show ''bandwidth'')
      else
        (let limit = (if sc_max_bandwidth_kbps ctx = 0 then ''unlimited'' else show_nat (unat (sc_max_bandwidth_kbps ctx)) @ '' kbps'') in
         case user_usage P ctx of
           (ctx', Some u) \<Rightarrow>
             (ctx', result_output (''Bandwidth usage:'' @ EOL
                @ ''  Daily:    '' @ format_bytes_used P (usage_daily_bytes u) @ '' used'' @ EOL
                @ ''  Monthly:  '' @ format_bytes_used P (usage_monthly_bytes u) @ '' used'' @ EOL
                @ ''  Hourly:   '' @ format_bytes_used P (usage_hourly_bytes u) @ '' used'' @ EOL
                @ ''  Rate:     '' @ format_rate P (usage_current_rate_bps u * 8) @ EOL
                @ ''  Limit:    '' @ limit @ EOL))
         | (ctx', None) \<Rightarrow> (ctx', result_output (''Upload: 0 B | Download: 0 B | Limit: '' @ limit @ EOL))))"

definition CROSS :: string where "CROSS = [CHR 0xE2, CHR 0x9C, CHR 0x97]"
definition TICK :: string where "TICK = [CHR 0xE2, CHR 0x9C, CHR 0x93]"

definition show_acl_cmd :: "('net, 'f) shell_ops \<Rightarrow> 'net shell_context \<Rightarrow> command_result" where
  "show_acl_cmd P ctx =
     (if \<not> show_acl (sc_permissions ctx) then denied_show ''acl''
      else
        (let colors = sc_colors ctx; acl = sc_acl ctx;
             rules = (\<lambda>code label mark rs. if rs = [] then [] else
               ''  '' @ color code label colors @ '' rules:'' @ EOL
               @ concat (map (\<lambda>r. ''    '' @ color code mark colors @ '' '' @ show_acl_rule (sh_net P) r @ EOL) rs) @ EOL) in
         result_output (color BOLD ''ACL Rules'' colors @ ''  Default policy: ''
           @ (case default_policy acl of Allow \<Rightarrow> color GREEN ''allow'' colors | Deny \<Rightarrow> color RED ''deny'' colors) @ EOL @ EOL
           @ rules RED ''Deny'' CROSS (deny_rules acl) @ rules GREEN ''Allow'' TICK (allow_rules acl)
           @ (if deny_rules acl = [] \<and> allow_rules acl = [] then ''  No explicit rules configured.'' @ EOL else []))))"

definition rate_limit_line :: "'net shell_context \<Rightarrow> string" where
  "rate_limit_line ctx =
     (if sc_max_bandwidth_kbps ctx > 0 then ''  Rate limit:  '' @ show_nat (unat (sc_max_bandwidth_kbps ctx)) @ '' kbps'' @ EOL
      else ''  Rate limit:  unlimited'' @ EOL)"

definition show_status_cmd :: "('net, 'f) shell_ops \<Rightarrow> 'net shell_context \<Rightarrow> command_result" where
  "show_status_cmd P ctx =
     (if \<not> show_status (sc_permissions ctx) then denied_show ''status''
      else
        (let colors = sc_colors ctx in
         result_output (color BOLD ''Session Status'' colors @ EOL
           @ ''  User:        '' @ color CYAN (sc_username ctx) colors @ EOL
           @ ''  Role:        '' @ show_role (sc_role ctx) @ EOL
           @ (case sc_group ctx of Some g \<Rightarrow> ''  Group:       '' @ g @ EOL | None \<Rightarrow> [])
           @ ''  Auth:        '' @ sc_auth_method ctx @ EOL
           @ ''  Source IP:   '' @ sc_source_ip ctx @ EOL
           @ ''  Uptime:      '' @ uptime (uptime_secs P) @ EOL
           @ ''  Connections: '' @ show_nat (unat (connection_count ctx)) @ '' active'' @ EOL
           @ (case sc_expires_at ctx of Some e \<Rightarrow> ''  Expires:     '' @ color YELLOW e colors @ EOL | None \<Rightarrow> ''  Expires:     never'' @ EOL)
           @ rate_limit_line ctx)))"

definition show_history_cmd :: "('net, 'f) shell_ops \<Rightarrow> 'net shell_context \<Rightarrow> 'net shell_context \<times> command_result" where
  "show_history_cmd P ctx =
     (if \<not> show_history (sc_permissions ctx) then (ctx, denied_show ''history'')
      else case user_usage P ctx of
        (ctx', Some u) \<Rightarrow>
          (ctx', result_output (''Connection summary:'' @ EOL
             @ ''  Today:      '' @ show_nat (unat (usage_daily_connections u)) @ '' connections, ''
             @ format_bytes_used P (usage_daily_bytes u) @ '' transferred'' @ EOL
             @ ''  This month: '' @ show_nat (unat (usage_monthly_connections u)) @ '' connections, ''
             @ format_bytes_used P (usage_monthly_bytes u) @ '' transferred'' @ EOL))
      | (ctx', None) \<Rightarrow> (ctx', result_output (''No connection history available'' @ EOL)))"

definition show_quota_cmd :: "('net, 'f) shell_ops \<Rightarrow> 'net shell_context \<Rightarrow> 'net shell_context \<times> command_result" where
  "show_quota_cmd P ctx =
     (if \<not> show_quota (sc_permissions ctx) then (ctx, denied_show ''quota'')
      else
        (let (ctx', usage) = user_usage P ctx;
             used = (\<lambda>f. case usage of Some u \<Rightarrow> f u | None \<Rightarrow> 0);
             used_c = (\<lambda>f. case usage of Some u \<Rightarrow> f u | None \<Rightarrow> 0);
             limit = (\<lambda>f. case sc_quota_config ctx of Some c \<Rightarrow> f c | None \<Rightarrow> 0);
             limit_c = (\<lambda>f. case sc_quota_config ctx of Some c \<Rightarrow> f c | None \<Rightarrow> 0);
             bytes = (\<lambda>label f g. label @ format_bytes_used P (used f) @ '' / '' @ format_limit P (limit g) @ EOL);
             conns = (\<lambda>label f g. label @ show_nat (unat (used_c f)) @ '' / '' @ format_conn_limit (limit_c g) @ EOL) in
         (ctx', result_output (''Quota usage:'' @ EOL @ ''  Bandwidth:'' @ EOL
            @ bytes ''    Hourly:    '' usage_hourly_bytes bandwidth_per_hour_bytes
            @ bytes ''    Daily:     '' usage_daily_bytes daily_bandwidth_bytes
            @ bytes ''    Monthly:   '' usage_monthly_bytes monthly_bandwidth_bytes
            @ bytes ''    Total:     '' usage_total_bytes total_bandwidth_bytes
            @ ''  Connections:'' @ EOL
            @ conns ''    Daily:     '' usage_daily_connections daily_connection_limit
            @ conns ''    Monthly:   '' usage_monthly_connections monthly_connection_limit
            @ rate_limit_line ctx))))"

definition show_fingerprint_cmd :: "'net shell_context \<Rightarrow> command_result" where
  "show_fingerprint_cmd ctx =
     (if \<not> show_fingerprint (sc_permissions ctx) then denied_show ''fingerprint''
      else case sc_ssh_key_fingerprint ctx of
        Some fp \<Rightarrow> result_output (''SSH key fingerprint: '' @ fp @ EOL)
      | None \<Rightarrow> result_output (''No key fingerprint available'' @ EOL))"

definition show_run :: "('net, 'f) shell_ops \<Rightarrow> 'net ctx_command" where
  "show_run P args ctx =
     (case args of
        [] \<Rightarrow> (ctx, result_output (''Usage: show <connections|bandwidth|quota|acl|status|history|fingerprint>'' @ EOL))
      | sub # _ \<Rightarrow>
          if sub = ''connections'' \<or> sub = ''conn'' then (ctx, show_connections_cmd ctx)
          else if sub = ''bandwidth'' \<or> sub = ''bw'' then show_bandwidth_cmd P ctx
          else if sub = ''quota'' \<or> sub = ''quotas'' then show_quota_cmd P ctx
          else if sub = ''acl'' then (ctx, show_acl_cmd P ctx)
          else if sub = ''status'' then (ctx, show_status_cmd P ctx)
          else if sub = ''history'' \<or> sub = ''hist'' then show_history_cmd P ctx
          else if sub = ''fingerprint'' \<or> sub = ''fp'' then (ctx, show_fingerprint_cmd ctx)
          else (ctx, result_output (''show: unknown subcommand '' @ SQ @ sub @ SQ @ EOL
                 @ ''Available: connections, bandwidth, quota, acl, status, history, fingerprint'' @ EOL)))"

subsection \<open>Dispatch\<close>

type_synonym 'net shell_state = "virtual_fs \<times> 'net shell_context option"

text \<open>An extended command: it needs the context.\<close>

definition needs_context :: "string \<Rightarrow> ('net shell_context \<Rightarrow> 'net shell_context \<times> command_result) \<Rightarrow> 'net shell_state
     \<Rightarrow> 'net shell_state \<times> command_result" where
  "needs_context name f st =
     (case st of
        (fs, Some c) \<Rightarrow> (let (c', r) = f c in ((fs, Some c'), r))
      | (fs, None) \<Rightarrow> ((fs, None), result_output (name @ '': context not available'' @ EOL)))"

definition execute_inner ::
  "('net, 'f) shell_ops \<Rightarrow> string \<Rightarrow> string \<Rightarrow> string \<Rightarrow> string list \<Rightarrow> 'net shell_state \<Rightarrow> 'net shell_state \<times> command_result" where
  "execute_inner P username hostname cmd args st =
     (let fs = fst st in
      if cmd = ''ls'' then (st, ls_run args fs)
      else if cmd = ''pwd'' then (st, pwd_run fs)
      else if cmd = ''cd'' then (let (fs', r) = cd_run args fs in ((fs', snd st), r))
      else if cmd = ''cat'' then (st, cat_run args fs)
      else if cmd = ''whoami'' then (st, whoami_run username)
      else if cmd = ''uname'' then (st, uname_run P args hostname)
      else if cmd = ''help'' then (st, help_run (snd st))
      else if cmd = ''exit'' \<or> cmd = ''logout'' then (st, result_exit)
      else if cmd = ''echo'' then (st, result_output (join '' '' args @ EOL))
      else if cmd = ''id'' then
        (st, result_output (''uid=1000('' @ username @ '') gid=1000('' @ username @ '') groups=1000('' @ username @ '')'' @ EOL))
      else if cmd = ''hostname'' then (st, result_output (hostname @ EOL))
      else if cmd = ''clear'' then (st, result_output (ESC @ ''[2J'' @ ESC @ ''[H''))
      else if cmd = ''env'' \<or> cmd = ''printenv'' then
        (st, result_output (''HOME=/home/'' @ username @ EOL @ ''USER='' @ username @ EOL @ ''SHELL=/bin/sh'' @ EOL
           @ ''HOSTNAME='' @ hostname @ EOL @ ''TERM=xterm-256color'' @ EOL @ ''PATH=/usr/local/bin:/usr/bin:/bin'' @ EOL))
      else if cmd = [] then (st, result_empty)
      else if cmd = ''show'' then needs_context cmd (show_run P args) st
      else if cmd = ''test'' then needs_context cmd (\<lambda>c. (c, test_run P args c)) st
      else if cmd = ''ping'' then needs_context cmd (\<lambda>c. (c, ping_run P args c)) st
      else if cmd = ''resolve'' then needs_context cmd (\<lambda>c. (c, resolve_run P args c)) st
      else if cmd = ''bookmark'' then needs_context cmd (bookmark_run args) st
      else if cmd = ''alias'' then needs_context cmd (alias_run args) st
      else if starts_with ''#'' cmd then (st, result_empty)
      else (st, result_output (cmd @ '': command not found'' @ EOL)))"

definition execute_command ::
  "('net, 'f) shell_ops \<Rightarrow> string \<Rightarrow> string \<Rightarrow> string \<Rightarrow> string list \<Rightarrow> 'net shell_state \<Rightarrow> 'net shell_state \<times> command_result" where
  "execute_command P username hostname cmd args st =
     (case Option.bind (snd st) (\<lambda>c. map_of (sc_aliases c) cmd) of
        None \<Rightarrow> execute_inner P username hostname cmd args st
      | Some expanded \<Rightarrow>
          (case tokenize expanded of
             [] \<Rightarrow> execute_inner P username hostname cmd args st
           | alias_cmd # alias_tokens \<Rightarrow> execute_inner P username hostname alias_cmd (alias_tokens @ args) st))"

subsection \<open>What a command may change\<close>

text \<open>The same session: only bookmarks, aliases and the rolled usage windows may differ.\<close>

definition same_session :: "'net shell_context \<Rightarrow> 'net shell_context \<Rightarrow> bool" where
  "same_session c c' \<longleftrightarrow>
     c' = c\<lparr>sc_bookmarks := sc_bookmarks c', sc_aliases := sc_aliases c', sc_quota_tracker := sc_quota_tracker c'\<rparr>"

fun same_shell :: "'net shell_state \<Rightarrow> 'net shell_state \<Rightarrow> bool" where
  "same_shell (fs, co) (fs', co') \<longleftrightarrow>
     vfiles fs' = vfiles fs \<and> vdirs fs' = vdirs fs \<and> vhome fs' = vhome fs \<and> (fs_inv fs \<longrightarrow> fs_inv fs') \<and> rel_option same_session co co'"

lemma same_session_refl [simp]: "same_session c c"
  by (simp add: same_session_def)

lemma same_session_fields:
  assumes "same_session c c'"
  shows "sc_username c' = sc_username c" "sc_role c' = sc_role c" "sc_permissions c' = sc_permissions c" "sc_acl c' = sc_acl c"
    "sc_quota_config c' = sc_quota_config c" "sc_proxy_engine c' = sc_proxy_engine c"
proof -
  have c': "c' = c\<lparr>sc_bookmarks := sc_bookmarks c', sc_aliases := sc_aliases c', sc_quota_tracker := sc_quota_tracker c'\<rparr>"
    using assms by (simp add: same_session_def)
  show "sc_username c' = sc_username c" by (subst c') simp
  show "sc_role c' = sc_role c" by (subst c') simp
  show "sc_permissions c' = sc_permissions c" by (subst c') simp
  show "sc_acl c' = sc_acl c" by (subst c') simp
  show "sc_quota_config c' = sc_quota_config c" by (subst c') simp
  show "sc_proxy_engine c' = sc_proxy_engine c" by (subst c') simp
qed

lemma same_session_updates [simp]:
  "same_session c (c\<lparr>sc_bookmarks := x\<rparr>)" "same_session c (c\<lparr>sc_aliases := y\<rparr>)" "same_session c (c\<lparr>sc_quota_tracker := z\<rparr>)"
  by (simp_all add: same_session_def)

lemma same_session_trans: "same_session a b \<Longrightarrow> same_session b c \<Longrightarrow> same_session a c"
  by (cases a; cases b; cases c) (auto simp: same_session_def)

lemma usage_frame: "same_session c (fst (user_usage P c))"
  by (simp add: user_usage_def Let_def case_prod_beta split: option.split)

lemma show_frame: "same_session c (fst (show_run P args c))"
  using usage_frame [of c P]
  by (simp add: show_run_def show_bandwidth_cmd_def show_history_cmd_def show_quota_cmd_def Let_def case_prod_beta
      split: list.split option.split)

lemma bookmark_frame: "same_session c (fst (bookmark_run args c))"
  by (simp add: bookmark_run_def bookmark_add_def bookmark_remove_def Let_def split: list.split)

lemma alias_frame: "same_session c (fst (alias_run args c))"
  by (simp add: alias_run_def alias_set_def alias_remove_def Let_def split: list.split option.split)

lemma cd_run_frame:
  "vfiles (fst (cd_run args fs)) = vfiles fs" "vdirs (fst (cd_run args fs)) = vdirs fs" "vhome (fst (cd_run args fs)) = vhome fs"
  "fs_inv fs \<Longrightarrow> fs_inv (fst (cd_run args fs))"
proof -
  let ?d = "cd (case args of a # _ \<Rightarrow> a | [] \<Rightarrow> ''~'') fs"
  have e: "fst (cd_run args fs) = fst ?d" by (simp add: cd_run_def case_prod_beta split: sum.split)
  show "vfiles (fst (cd_run args fs)) = vfiles fs" "vdirs (fst (cd_run args fs)) = vdirs fs" "vhome (fst (cd_run args fs)) = vhome fs"
    by (simp_all add: e)
  show "fs_inv fs \<Longrightarrow> fs_inv (fst (cd_run args fs))" by (simp add: e cd_inv)
qed

lemma same_shell_refl [simp]: "same_shell st st"
  by (cases st) (simp add: option.rel_refl)

lemma needs_context_frame:
  "(\<And>c. same_session c (fst (f c))) \<Longrightarrow> same_shell st (fst (needs_context name f st))"
  by (cases st; cases "snd st") (auto simp: needs_context_def Let_def case_prod_beta)

lemma same_shell_if: "(b \<Longrightarrow> same_shell st (fst x)) \<Longrightarrow> (\<not> b \<Longrightarrow> same_shell st (fst y)) \<Longrightarrow> same_shell st (fst (if b then x else y))"
  by simp

lemma execute_inner_frame: "same_shell st (fst (execute_inner P u h cmd args st))"
proof -
  have cd: "same_shell st (fst (let (fs', r) = cd_run args (fst st) in ((fs', snd st), r)))"
    by (cases st) (simp add: Let_def case_prod_beta cd_run_frame option.rel_refl)
  show ?thesis
    unfolding execute_inner_def Let_def [of "fst st"]
    by (intro same_shell_if cd needs_context_frame show_frame bookmark_frame alias_frame) simp_all
qed

lemma execute_command_frame: "same_shell st (fst (execute_command P u h cmd args st))"
  by (simp add: execute_command_def execute_inner_frame split: option.split list.split)

subsection \<open>Permissions\<close>

text \<open>Which commands a set of permissions covers, and the command an alias stands for.\<close>

fun show_permitted :: "shell_permissions \<Rightarrow> string list \<Rightarrow> bool" where
  "show_permitted p [] = True"
| "show_permitted p (sub # _) =
     (if sub = ''connections'' \<or> sub = ''conn'' then show_connections p
      else if sub = ''bandwidth'' \<or> sub = ''bw'' then show_bandwidth p
      else if sub = ''quota'' \<or> sub = ''quotas'' then show_quota p
      else if sub = ''acl'' then show_acl p
      else if sub = ''status'' then show_status p
      else if sub = ''history'' \<or> sub = ''hist'' then show_history p
      else if sub = ''fingerprint'' \<or> sub = ''fp'' then show_fingerprint p
      else True)"

definition permitted :: "shell_permissions \<Rightarrow> string \<Rightarrow> string list \<Rightarrow> bool" where
  "permitted p cmd args =
     (if cmd = ''show'' then show_permitted p args
      else if cmd = ''test'' then test_command p
      else if cmd = ''ping'' then ping_command p
      else if cmd = ''resolve'' then resolve_command p
      else if cmd = ''bookmark'' then bookmark_command p
      else if cmd = ''alias'' then alias_command p
      else True)"

definition expand :: "'net shell_context \<Rightarrow> string \<Rightarrow> string list \<Rightarrow> string \<times> string list" where
  "expand c cmd args =
     (case Option.bind (map_of (sc_aliases c) cmd) (\<lambda>text. case tokenize text of [] \<Rightarrow> None | t # ts \<Rightarrow> Some (t, ts)) of
        Some (t, ts) \<Rightarrow> (t, ts @ args) | None \<Rightarrow> (cmd, args))"

definition refusal :: "command_result \<Rightarrow> bool" where
  "refusal r \<longleftrightarrow> \<not> exit_requested r \<and> starts_with ''Permission denied: '' (out_text r)"

lemma execute_command_expand:
  "execute_command P u h cmd args (fs, Some c) =
   execute_inner P u h (fst (expand c cmd args)) (snd (expand c cmd args)) (fs, Some c)"
  by (simp add: execute_command_def expand_def split: option.split list.split)

lemma refusal_denied [simp]: "refusal (denied n)" "refusal (denied_show n)"
  by (simp_all add: refusal_def denied_def denied_show_def result_output_def starts_with_def)

text \<open>A command that is refused leaves the context as it is; the refusal of a chain of alternatives.\<close>

definition denies :: "'net shell_context \<Rightarrow> 'net shell_context \<times> command_result \<Rightarrow> bool" where
  "denies c z \<longleftrightarrow> fst z = c \<and> refusal (snd z)"

lemma denies_if:
  "(\<not> p \<Longrightarrow> denies c x) \<Longrightarrow> (\<not> q \<Longrightarrow> denies c y) \<Longrightarrow> \<not> (if b then p else q) \<Longrightarrow> denies c (if b then x else y)"
  by (simp split: if_splits)

lemma denies_show: "\<not> show_permitted (sc_permissions c) args \<Longrightarrow> denies c (show_run P args c)"
proof (cases args)
  case (Cons sub rest)
  assume "\<not> show_permitted (sc_permissions c) args"
  then show ?thesis
    unfolding Cons show_run_def show_permitted.simps list.case
    by - (erule denies_if [rotated 2] | simp add: denies_def show_connections_cmd_def show_bandwidth_cmd_def show_quota_cmd_def
        show_acl_cmd_def show_status_cmd_def show_history_cmd_def show_fingerprint_cmd_def)+
qed simp

lemma needs_context_denies:
  "denies c (f c) \<Longrightarrow> \<exists>r. needs_context n f (fs, Some c) = ((fs, Some c), r) \<and> refusal r"
  by (auto simp: needs_context_def denies_def Let_def case_prod_beta)

lemma execute_inner_denied:
  assumes "\<not> permitted (sc_permissions c) cmd args"
  shows "\<exists>r. execute_inner P u h cmd args (fs, Some c) = ((fs, Some c), r) \<and> refusal r"
proof -
  have cmds: "cmd = ''show'' \<and> \<not> show_permitted (sc_permissions c) args
      \<or> cmd = ''test'' \<and> \<not> test_command (sc_permissions c) \<or> cmd = ''ping'' \<and> \<not> ping_command (sc_permissions c)
      \<or> cmd = ''resolve'' \<and> \<not> resolve_command (sc_permissions c) \<or> cmd = ''bookmark'' \<and> \<not> bookmark_command (sc_permissions c)
      \<or> cmd = ''alias'' \<and> \<not> alias_command (sc_permissions c)"
    using assms by (simp add: permitted_def split: if_splits)
  have d_test: "denies c (c, test_run P args c)" if "\<not> test_command (sc_permissions c)"
    using that by (simp add: denies_def test_run_def)
  have d_ping: "denies c (c, ping_run P args c)" if "\<not> ping_command (sc_permissions c)"
    using that by (simp add: denies_def ping_run_def)
  have d_resolve: "denies c (c, resolve_run P args c)" if "\<not> resolve_command (sc_permissions c)"
    using that by (simp add: denies_def resolve_run_def)
  have d_bookmark: "denies c (bookmark_run args c)" if "\<not> bookmark_command (sc_permissions c)"
    using that by (simp add: denies_def bookmark_run_def)
  have d_alias: "denies c (alias_run args c)" if "\<not> alias_command (sc_permissions c)"
    using that by (simp add: denies_def alias_run_def)
  from cmds show ?thesis
    by (elim disjE conjE)
      (simp_all add: execute_inner_def needs_context_denies denies_show d_test d_ping d_resolve d_bookmark d_alias)
qed

subsection \<open>Concrete operations\<close>

definition sample_shell_ops :: "(ipaddr, int) shell_ops" where
  "sample_shell_ops =
     \<lparr>sh_net = sample_net, sh_chrono = sample_chrono, sh_f64 = sample_f64, fmt_tenths = (\<lambda>_. ''0.0''),
      resolve_host = (\<lambda>_. Inl ''no resolver''), lookup_time = 0, target_arch = ''x86_64'', uptime_secs = 0, usage_now = 60\<rparr>"

end
