(* ===== verification/Audit_Log.thy ===== *)
theory Audit_Log
  imports Shell_Commands "HOL-Library.Sublist"
begin

text \<open>
  Models \<open>src/audit/events.rs\<close> and \<open>src/audit/mod.rs\<close>: the audit events and their constructors, the
  logger with its bounded channel, its counter of dropped events and its buffer of recent ones, and the writer
  task with the rotation of the log files. Where the source has a constructor with a correlation id and one
  without, the model has one with an optional id. Between the two attempts to queue a critical event the writer
  may take events from the channel: their number is an argument. A disk is a map from paths to contents; the
  outcome of every file operation and the serialiser are parameters.
\<close>

subsection \<open>Events\<close>

datatype audit_event =
  AuthSuccess int "string option" string string string
| AuthFailure int "string option" string string string
| ProxyComplete int "string option" string string u16 u64 u64 u64 u64 string "string option" "string option"
| AclDeny int "string option" string string u16 "string option" string "string option" string
| BanCreated int string u64
| BanExpired int string
| ConnectionNew int "string option" string string
| ConnectionClosed int "string option" string string
| ConfigReload int u64 bool "string option"
| QuotaExceededEvent int "string option" string string u64 u64
| SessionAuthenticated int "string option" string string string string
| SessionEnded int "string option" string string string u64 u64
| RateLimitExceeded int "string option" string string string
| MaintenanceToggled int bool string

definition auth_success :: "int \<Rightarrow> string option \<Rightarrow> string \<Rightarrow> socket_addr \<Rightarrow> string \<Rightarrow> audit_event" where
  "auth_success now cid username source meth = AuthSuccess now cid username (show_ip (fst source)) meth"

definition auth_failure :: "int \<Rightarrow> string option \<Rightarrow> string \<Rightarrow> socket_addr \<Rightarrow> string \<Rightarrow> audit_event" where
  "auth_failure now cid username source meth = AuthFailure now cid username (show_ip (fst source)) meth"

definition proxy_complete ::
  "int \<Rightarrow> string option \<Rightarrow> string \<Rightarrow> string \<Rightarrow> u16 \<Rightarrow> u64 \<Rightarrow> u64 \<Rightarrow> u64 \<Rightarrow> socket_addr \<Rightarrow> string option \<Rightarrow> audit_event" where
  "proxy_complete now cid username host port b_up b_down duration_ms source resolved_ip =
     ProxyComplete now cid username host port (b_up + b_down) b_up b_down duration_ms (show_ip (fst source)) resolved_ip None"

definition acl_deny ::
  "int \<Rightarrow> string option \<Rightarrow> string \<Rightarrow> string \<Rightarrow> u16 \<Rightarrow> string option \<Rightarrow> string \<Rightarrow> string option \<Rightarrow> string \<Rightarrow> audit_event" where
  "acl_deny now cid username host port resolved_ip source_ip rule why =
     AclDeny now cid username host port resolved_ip source_ip rule why"

definition connection_new :: "int \<Rightarrow> string option \<Rightarrow> socket_addr \<Rightarrow> string \<Rightarrow> audit_event" where
  "connection_new now cid source protocol = ConnectionNew now cid (show_ip (fst source)) protocol"

definition connection_closed :: "int \<Rightarrow> string option \<Rightarrow> socket_addr \<Rightarrow> string \<Rightarrow> audit_event" where
  "connection_closed now cid source protocol = ConnectionClosed now cid (show_ip (fst source)) protocol"

definition config_reload :: "int \<Rightarrow> u64 \<Rightarrow> bool \<Rightarrow> string option \<Rightarrow> audit_event" where
  "config_reload now users_count success error = ConfigReload now users_count success error"

definition quota_exceeded :: "int \<Rightarrow> string option \<Rightarrow> string \<Rightarrow> string \<Rightarrow> u64 \<Rightarrow> u64 \<Rightarrow> audit_event" where
  "quota_exceeded now cid username quota_type current_usage limit = QuotaExceededEvent now cid username quota_type current_usage limit"

definition session_authenticated :: "int \<Rightarrow> string option \<Rightarrow> string \<Rightarrow> socket_addr \<Rightarrow> string \<Rightarrow> string \<Rightarrow> audit_event" where
  "session_authenticated now cid username source protocol meth =
     SessionAuthenticated now cid username (show_ip (fst source)) protocol meth"

definition session_ended :: "int \<Rightarrow> string option \<Rightarrow> string \<Rightarrow> socket_addr \<Rightarrow> string \<Rightarrow> u64 \<Rightarrow> u64 \<Rightarrow> audit_event" where
  "session_ended now cid username source protocol duration_secs bytes =
     SessionEnded now cid username (show_ip (fst source)) protocol duration_secs bytes"

definition rate_limit_exceeded :: "int \<Rightarrow> string option \<Rightarrow> string \<Rightarrow> socket_addr \<Rightarrow> string \<Rightarrow> audit_event" where
  "rate_limit_exceeded now cid username source limit_type = RateLimitExceeded now cid username (show_ip (fst source)) limit_type"

definition maintenance_toggled :: "int \<Rightarrow> bool \<Rightarrow> string \<Rightarrow> audit_event" where
  "maintenance_toggled now enabled source = MaintenanceToggled now enabled source"

definition ban_created :: "int \<Rightarrow> ipaddr \<Rightarrow> u64 \<Rightarrow> audit_event" where
  "ban_created now ip duration_secs = BanCreated now (show_ip ip) duration_secs"

definition ban_expired :: "int \<Rightarrow> ipaddr \<Rightarrow> audit_event" where
  "ban_expired now ip = BanExpired now (show_ip ip)"

fun event_type :: "audit_event \<Rightarrow> string" where
  "event_type (AuthSuccess _ _ _ _ _) = ''auth.success''"
| "event_type (AuthFailure _ _ _ _ _) = ''auth.failure''"
| "event_type (ProxyComplete _ _ _ _ _ _ _ _ _ _ _ _) = ''proxy.complete''"
| "event_type (AclDeny _ _ _ _ _ _ _ _ _) = ''acl.deny''"
| "event_type (BanCreated _ _ _) = ''ban.created''"
| "event_type (BanExpired _ _) = ''ban.expired''"
| "event_type (ConnectionNew _ _ _ _) = ''connection.new''"
| "event_type (ConnectionClosed _ _ _ _) = ''connection.closed''"
| "event_type (ConfigReload _ _ _ _) = ''config.reload''"
| "event_type (QuotaExceededEvent _ _ _ _ _ _) = ''quota.exceeded''"
| "event_type (SessionAuthenticated _ _ _ _ _ _) = ''session.authenticated''"
| "event_type (SessionEnded _ _ _ _ _ _ _) = ''session.ended''"
| "event_type (RateLimitExceeded _ _ _ _ _) = ''rate_limit.exceeded''"
| "event_type (MaintenanceToggled _ _ _) = ''maintenance.toggled''"

fun is_critical :: "audit_event \<Rightarrow> bool" where
  "is_critical (AclDeny _ _ _ _ _ _ _ _ _) = True"
| "is_critical (BanCreated _ _ _) = True"
| "is_critical (BanExpired _ _) = True"
| "is_critical (ConfigReload _ _ _ _) = True"
| "is_critical (AuthFailure _ _ _ _ _) = True"
| "is_critical (QuotaExceededEvent _ _ _ _ _ _) = True"
| "is_critical (RateLimitExceeded _ _ _ _ _) = True"
| "is_critical (MaintenanceToggled _ _ _) = True"
| "is_critical _ = False"

subsection \<open>Logger\<close>

definition AUDIT_CHANNEL_CAPACITY :: nat where
  "AUDIT_CHANNEL_CAPACITY = 10000"

definition RECENT_EVENTS_CAPACITY :: nat where
  "RECENT_EVENTS_CAPACITY = 100"

text \<open>The channel of the logger: the queued events and whether the receiver still exists.\<close>

record audit_logger =
  au_queue :: "audit_event list"
  au_open :: bool
  au_capacity :: nat
  au_dropped_count :: u64
  au_dropped_metric :: "nat option"
  au_recent_events :: "audit_event list"

definition audit_new :: audit_logger where
  "audit_new =
     \<lparr>au_queue = [], au_open = True, au_capacity = AUDIT_CHANNEL_CAPACITY, au_dropped_count = 0, au_dropped_metric = None,
      au_recent_events = []\<rparr>"

definition set_dropped_metric :: "nat \<Rightarrow> audit_logger \<Rightarrow> audit_logger" where
  "set_dropped_metric counter L =
     (case au_dropped_metric L of None \<Rightarrow> L\<lparr>au_dropped_metric := Some counter\<rparr> | Some _ \<Rightarrow> L)"

definition get_recent_events :: "nat \<Rightarrow> audit_logger \<Rightarrow> audit_event list" where
  "get_recent_events n L = drop (length (au_recent_events L) - n) (au_recent_events L)"

text \<open>\<open>Sender::try_send\<close> of the channel: full, closed, or queued.\<close>

datatype send_result = SendOk | SendFull | SendClosed

definition chan_try_send :: "audit_event \<Rightarrow> audit_logger \<Rightarrow> audit_logger \<times> send_result" where
  "chan_try_send e L =
     (if \<not> au_open L then (L, SendClosed)
      else if length (au_queue L) \<ge> au_capacity L then (L, SendFull)
      else (L\<lparr>au_queue := au_queue L @ [e]\<rparr>, SendOk))"

definition count_drop :: "audit_logger \<Rightarrow> audit_logger" where
  "count_drop L = L\<lparr>au_dropped_count := au_dropped_count L + 1, au_dropped_metric := map_option Suc (au_dropped_metric L)\<rparr>"

definition remember :: "audit_event \<Rightarrow> audit_logger \<Rightarrow> audit_logger" where
  "remember e L =
     L\<lparr>au_recent_events :=
         (if length (au_recent_events L) \<ge> RECENT_EVENTS_CAPACITY then tl (au_recent_events L) else au_recent_events L) @ [e]\<rparr>"

text \<open>The result also says which events the writer took while the logger was between its two attempts.\<close>

definition audit_try_send :: "nat \<Rightarrow> audit_event \<Rightarrow> audit_logger \<Rightarrow> audit_logger \<times> audit_event list" where
  "audit_try_send taken e L =
     (let L1 = remember e L in
      if is_critical e then
        (case chan_try_send e L1 of
           (L2, SendOk) \<Rightarrow> (L2, [])
         | (L2, SendFull) \<Rightarrow>
             (let L3 = L2\<lparr>au_queue := drop taken (au_queue L2)\<rparr>; out = take taken (au_queue L2) in
              case chan_try_send e L3 of
                (L4, SendOk) \<Rightarrow> (L4, out)
              | (L4, _) \<Rightarrow> (count_drop L4, out))
         | (L2, SendClosed) \<Rightarrow> (count_drop L2, []))
      else
        (case chan_try_send e L1 of
           (L2, SendOk) \<Rightarrow> (L2, [])
         | (L2, SendFull) \<Rightarrow> (count_drop L2, [])
         | (L2, SendClosed) \<Rightarrow> (count_drop L2, [])))"

text \<open>\<open>receiver.recv()\<close> of the writer.\<close>

definition audit_recv :: "audit_logger \<Rightarrow> audit_logger \<times> audit_event option" where
  "audit_recv L = (case au_queue L of [] \<Rightarrow> (L, None) | e # es \<Rightarrow> (L\<lparr>au_queue := es\<rparr>, Some e))"

text \<open>The \<open>log_*\<close> methods build an event and send it, without or with a correlation id.\<close>

definition log_event :: "nat \<Rightarrow> audit_event \<Rightarrow> audit_logger \<Rightarrow> audit_logger" where
  "log_event taken e L = fst (audit_try_send taken e L)"

definition log_auth_success :: "nat \<Rightarrow> int \<Rightarrow> string \<Rightarrow> socket_addr \<Rightarrow> string \<Rightarrow> audit_logger \<Rightarrow> audit_logger" where
  "log_auth_success taken now username source meth = log_event taken (auth_success now None username source meth)"

definition log_auth_success_cid :: "nat \<Rightarrow> int \<Rightarrow> string \<Rightarrow> string \<Rightarrow> socket_addr \<Rightarrow> string \<Rightarrow> audit_logger \<Rightarrow> audit_logger" where
  "log_auth_success_cid taken now cid username source meth = log_event taken (auth_success now (Some cid) username source meth)"

definition log_auth_failure :: "nat \<Rightarrow> int \<Rightarrow> string \<Rightarrow> socket_addr \<Rightarrow> string \<Rightarrow> audit_logger \<Rightarrow> audit_logger" where
  "log_auth_failure taken now username source meth = log_event taken (auth_failure now None username source meth)"

definition log_auth_failure_cid :: "nat \<Rightarrow> int \<Rightarrow> string \<Rightarrow> string \<Rightarrow> socket_addr \<Rightarrow> string \<Rightarrow> audit_logger \<Rightarrow> audit_logger" where
  "log_auth_failure_cid taken now cid username source meth = log_event taken (auth_failure now (Some cid) username source meth)"

definition log_proxy_complete ::
  "nat \<Rightarrow> int \<Rightarrow> string \<Rightarrow> string \<Rightarrow> u16 \<Rightarrow> u64 \<Rightarrow> u64 \<Rightarrow> u64 \<Rightarrow> socket_addr \<Rightarrow> string option \<Rightarrow> audit_logger
     \<Rightarrow> audit_logger" where
  "log_proxy_complete taken now username host port b_up b_down duration_ms source resolved_ip =
     log_event taken (proxy_complete now None username host port b_up b_down duration_ms source resolved_ip)"

definition log_proxy_complete_cid ::
  "nat \<Rightarrow> int \<Rightarrow> string \<Rightarrow> string \<Rightarrow> string \<Rightarrow> u16 \<Rightarrow> u64 \<Rightarrow> u64 \<Rightarrow> u64 \<Rightarrow> socket_addr \<Rightarrow> string option \<Rightarrow> audit_logger
     \<Rightarrow> audit_logger" where
  "log_proxy_complete_cid taken now cid username host port b_up b_down duration_ms source resolved_ip =
     log_event taken (proxy_complete now (Some cid) username host port b_up b_down duration_ms source resolved_ip)"

definition log_acl_deny ::
  "nat \<Rightarrow> int \<Rightarrow> string \<Rightarrow> string \<Rightarrow> u16 \<Rightarrow> string option \<Rightarrow> string \<Rightarrow> string option \<Rightarrow> string \<Rightarrow> audit_logger
     \<Rightarrow> audit_logger" where
  "log_acl_deny taken now username host port resolved_ip source_ip rule why =
     log_event taken (acl_deny now None username host port resolved_ip source_ip rule why)"

definition log_acl_deny_cid ::
  "nat \<Rightarrow> int \<Rightarrow> string \<Rightarrow> string \<Rightarrow> string \<Rightarrow> u16 \<Rightarrow> string option \<Rightarrow> string \<Rightarrow> string option \<Rightarrow> string \<Rightarrow> audit_logger
     \<Rightarrow> audit_logger" where
  "log_acl_deny_cid taken now cid username host port resolved_ip source_ip rule why =
     log_event taken (acl_deny now (Some cid) username host port resolved_ip source_ip rule why)"

definition log_connection_new :: "nat \<Rightarrow> int \<Rightarrow> socket_addr \<Rightarrow> string \<Rightarrow> audit_logger \<Rightarrow> audit_logger" where
  "log_connection_new taken now source protocol = log_event taken (connection_new now None source protocol)"

definition log_connection_new_cid :: "nat \<Rightarrow> int \<Rightarrow> string \<Rightarrow> socket_addr \<Rightarrow> string \<Rightarrow> audit_logger \<Rightarrow> audit_logger" where
  "log_connection_new_cid taken now cid source protocol = log_event taken (connection_new now (Some cid) source protocol)"

definition log_connection_closed :: "nat \<Rightarrow> int \<Rightarrow> socket_addr \<Rightarrow> string \<Rightarrow> audit_logger \<Rightarrow> audit_logger" where
  "log_connection_closed taken now source protocol = log_event taken (connection_closed now None source protocol)"

definition log_connection_closed_cid :: "nat \<Rightarrow> int \<Rightarrow> string \<Rightarrow> socket_addr \<Rightarrow> string \<Rightarrow> audit_logger \<Rightarrow> audit_logger" where
  "log_connection_closed_cid taken now cid source protocol = log_event taken (connection_closed now (Some cid) source protocol)"

definition log_config_reload :: "nat \<Rightarrow> int \<Rightarrow> u64 \<Rightarrow> bool \<Rightarrow> string option \<Rightarrow> audit_logger \<Rightarrow> audit_logger" where
  "log_config_reload taken now users_count success error = log_event taken (config_reload now users_count success error)"

definition log_quota_exceeded :: "nat \<Rightarrow> int \<Rightarrow> string \<Rightarrow> string \<Rightarrow> u64 \<Rightarrow> u64 \<Rightarrow> audit_logger \<Rightarrow> audit_logger" where
  "log_quota_exceeded taken now username quota_type current_usage limit =
     log_event taken (quota_exceeded now None username quota_type current_usage limit)"

definition log_session_authenticated ::
  "nat \<Rightarrow> int \<Rightarrow> string \<Rightarrow> socket_addr \<Rightarrow> string \<Rightarrow> string \<Rightarrow> audit_logger \<Rightarrow> audit_logger" where
  "log_session_authenticated taken now username source protocol meth =
     log_event taken (session_authenticated now None username source protocol meth)"

definition log_session_authenticated_cid ::
  "nat \<Rightarrow> int \<Rightarrow> string \<Rightarrow> string \<Rightarrow> socket_addr \<Rightarrow> string \<Rightarrow> string \<Rightarrow> audit_logger \<Rightarrow> audit_logger" where
  "log_session_authenticated_cid taken now cid username source protocol meth =
     log_event taken (session_authenticated now (Some cid) username source protocol meth)"

definition log_session_ended ::
  "nat \<Rightarrow> int \<Rightarrow> string \<Rightarrow> socket_addr \<Rightarrow> string \<Rightarrow> u64 \<Rightarrow> u64 \<Rightarrow> audit_logger \<Rightarrow> audit_logger" where
  "log_session_ended taken now username source protocol duration_secs bytes =
     log_event taken (session_ended now None username source protocol duration_secs bytes)"

definition log_rate_limit_exceeded ::
  "nat \<Rightarrow> int \<Rightarrow> string \<Rightarrow> socket_addr \<Rightarrow> string \<Rightarrow> audit_logger \<Rightarrow> audit_logger" where
  "log_rate_limit_exceeded taken now username source limit_type =
     log_event taken (rate_limit_exceeded now None username source limit_type)"

definition log_rate_limit_exceeded_cid ::
  "nat \<Rightarrow> int \<Rightarrow> string \<Rightarrow> string \<Rightarrow> socket_addr \<Rightarrow> string \<Rightarrow> audit_logger \<Rightarrow> audit_logger" where
  "log_rate_limit_exceeded_cid taken now cid username source limit_type =
     log_event taken (rate_limit_exceeded now (Some cid) username source limit_type)"

definition log_maintenance_toggled :: "nat \<Rightarrow> int \<Rightarrow> bool \<Rightarrow> string \<Rightarrow> audit_logger \<Rightarrow> audit_logger" where
  "log_maintenance_toggled taken now enabled source = log_event taken (maintenance_toggled now enabled source)"

definition log_ban_created :: "nat \<Rightarrow> int \<Rightarrow> ipaddr \<Rightarrow> u64 \<Rightarrow> audit_logger \<Rightarrow> audit_logger" where
  "log_ban_created taken now ip duration_secs = log_event taken (ban_created now ip duration_secs)"

definition log_ban_expired :: "nat \<Rightarrow> int \<Rightarrow> ipaddr \<Rightarrow> audit_logger \<Rightarrow> audit_logger" where
  "log_ban_expired taken now ip = log_event taken (ban_expired now ip)"

subsection \<open>Writer\<close>

type_synonym disk = "(string, string) dmap"

text \<open>What the file system does for one event: the outcome of writing and flushing the line (a failure
  leaves the given number of its bytes in the file), whether each rename succeeds on an existing file,
  whether the log opens again.\<close>

datatype write_outcome = WriteOk | WriteFails nat | FlushFails nat

record file_outcome =
  fo_write :: write_outcome
  fo_rename :: "string \<Rightarrow> bool"
  fo_reopen :: bool

definition rename_file :: "file_outcome \<Rightarrow> string \<Rightarrow> string \<Rightarrow> disk \<Rightarrow> disk" where
  "rename_file X from to d =
     (case map_of d from of
        Some c \<Rightarrow> if fo_rename X from then dm_insert to c (dm_remove from d) else d
      | None \<Rightarrow> d)"

definition rotated :: "string \<Rightarrow> nat \<Rightarrow> string" where
  "rotated path i = path @ ''.'' @ show_nat i"

definition rotate_audit_files :: "file_outcome \<Rightarrow> string \<Rightarrow> u32 \<Rightarrow> disk \<Rightarrow> disk" where
  "rotate_audit_files X path max_files d =
     rename_file X path (rotated path 1)
       (fold (\<lambda>i. rename_file X (rotated path i) (rotated path (Suc i))) (rev [Suc 0..<unat max_files]) d)"

text \<open>The writer task: its disk, whether the log is open, the size it counts, and the calls of the dispatcher.\<close>

record audit_writer =
  aw_disk :: disk
  aw_file :: bool
  aw_size :: u64
  aw_dispatched :: "(string \<times> audit_event) list"

text \<open>Opening with \<open>create\<close> and \<open>append\<close>.\<close>

definition open_append :: "string \<Rightarrow> disk \<Rightarrow> disk" where
  "open_append path d = fst (dm_entry path [] d)"

definition file_append :: "string \<Rightarrow> string \<Rightarrow> disk \<Rightarrow> disk" where
  "file_append path text d = dm_insert path (snd (dm_entry path [] d) @ text) d"

definition writer_start :: "string option \<Rightarrow> bool \<Rightarrow> bool \<Rightarrow> disk \<Rightarrow> audit_writer" where
  "writer_start log_path opens metadata_ok d =
     (case log_path of
        None \<Rightarrow> \<lparr>aw_disk = d, aw_file = False, aw_size = 0, aw_dispatched = []\<rparr>
      | Some path \<Rightarrow>
          if opens then
            \<lparr>aw_disk = open_append path d, aw_file = True,
             aw_size = (if metadata_ok then of_nat (length (snd (dm_entry path [] d))) else 0), aw_dispatched = []\<rparr>
          else \<lparr>aw_disk = d, aw_file = False, aw_size = 0, aw_dispatched = []\<rparr>)"

definition write_line ::
  "string option \<Rightarrow> u64 \<Rightarrow> u32 \<Rightarrow> file_outcome \<Rightarrow> string \<Rightarrow> audit_writer \<Rightarrow> audit_writer" where
  "write_line log_path max_size_bytes max_files X json W =
     (case log_path of
        None \<Rightarrow> W
      | Some path \<Rightarrow>
          let line = json @ [char_of (10 :: nat)] in
          (case fo_write X of
             WriteFails k \<Rightarrow> W\<lparr>aw_disk := file_append path (take k line) (aw_disk W)\<rparr>
           | outcome \<Rightarrow>
               (let put = (case outcome of FlushFails k \<Rightarrow> take k line | _ \<Rightarrow> line);
                    W1 = W\<lparr>aw_disk := file_append path put (aw_disk W), aw_size := aw_size W + of_nat (length line)\<rparr> in
                if max_size_bytes > 0 \<and> aw_size W1 \<ge> max_size_bytes then
                  (let d = rotate_audit_files X path max_files (aw_disk W1) in
                   if fo_reopen X then W1\<lparr>aw_disk := open_append path d, aw_size := 0\<rparr>
                   else W1\<lparr>aw_disk := d, aw_file := False\<rparr>)
                else W1)))"

text \<open>One iteration of the loop of \<open>audit_writer_task\<close>; \<open>hooks\<close> tells whether a dispatcher is configured, \<open>to_value\<close>
  whether the event converts to a JSON value.\<close>

definition audit_writer_task ::
  "(audit_event \<Rightarrow> string option) \<Rightarrow> (audit_event \<Rightarrow> bool) \<Rightarrow> bool \<Rightarrow> string option \<Rightarrow> u64 \<Rightarrow> u32
     \<Rightarrow> file_outcome \<times> audit_event \<Rightarrow> audit_writer \<Rightarrow> audit_writer" where
  "audit_writer_task to_json to_value hooks log_path max_size_bytes max_files step W =
     (case step of (X, e) \<Rightarrow>
       case to_json e of
         None \<Rightarrow> W
       | Some json \<Rightarrow>
           let W1 = (if hooks \<and> to_value e then W\<lparr>aw_dispatched := aw_dispatched W @ [(event_type e, e)]\<rparr> else W) in
           if aw_file W1 then write_line log_path max_size_bytes max_files X json W1 else W1)"

subsection \<open>What the writer receives\<close>

datatype audit_op = OpLog nat audit_event | OpRecv

text \<open>The logger, the events the writer has received and the events logged so far.\<close>

fun audit_step :: "audit_op \<Rightarrow> audit_logger \<times> audit_event list \<times> audit_event list \<Rightarrow> audit_logger \<times> audit_event list \<times> audit_event list" where
  "audit_step (OpLog taken e) (L, got, logged) =
     (case audit_try_send taken e L of (L', out) \<Rightarrow> (L', got @ out, logged @ [e]))"
| "audit_step OpRecv (L, got, logged) =
     (case audit_recv L of (L', None) \<Rightarrow> (L', got, logged) | (L', Some e) \<Rightarrow> (L', got @ [e], logged))"

fun audit_inv :: "audit_logger \<times> audit_event list \<times> audit_event list \<Rightarrow> bool" where
  "audit_inv (L, got, logged) \<longleftrightarrow>
     subseq (got @ au_queue L) logged \<and> au_dropped_count L = of_nat (length logged - length (got @ au_queue L))
     \<and> au_recent_events L = drop (length logged - RECENT_EVENTS_CAPACITY) logged
     \<and> au_capacity L = AUDIT_CHANNEL_CAPACITY \<and> length (au_queue L) \<le> au_capacity L"

lemma subseq_extend:
  assumes "subseq xs ys"
  shows "subseq xs (ys @ [e])" "subseq (xs @ [e]) (ys @ [e])"
  using assms by (simp_all add: list_emb_append_mono subseq_rev_drop_many)

lemma remember_recent:
  assumes "au_recent_events L = drop (length logged - RECENT_EVENTS_CAPACITY) logged"
  shows "au_recent_events (remember e L) = drop (length (logged @ [e]) - RECENT_EVENTS_CAPACITY) (logged @ [e])"
proof (cases "RECENT_EVENTS_CAPACITY \<le> length logged")
  case True
  then have "tl (drop (length logged - RECENT_EVENTS_CAPACITY) logged) = drop (Suc (length logged) - RECENT_EVENTS_CAPACITY) logged"
    by (metis Suc_diff_le drop_Suc tl_drop)
  then show ?thesis using assms True by (simp add: remember_def RECENT_EVENTS_CAPACITY_def)
qed (use assms in \<open>simp add: remember_def\<close>)

text \<open>A call either queues the event or counts it; what the writer takes meanwhile comes off the front.\<close>

lemma audit_try_send_cases:
  assumes "audit_try_send taken e L = (L', out)"
  obtains k where "out = take k (au_queue L)" "au_queue L' = drop k (au_queue L) @ [e]" "length (au_queue L') \<le> au_capacity L"
      "au_dropped_count L' = au_dropped_count L"
  | k where "out = take k (au_queue L)" "au_queue L' = drop k (au_queue L)" "au_dropped_count L' = au_dropped_count L + 1"
proof -
  note defs = audit_try_send_def chan_try_send_def count_drop_def remember_def Let_def
  have "(\<exists>k. out = take k (au_queue L) \<and> au_queue L' = drop k (au_queue L) @ [e] \<and> length (au_queue L') \<le> au_capacity L
       \<and> au_dropped_count L' = au_dropped_count L)
    \<or> (\<exists>k. out = take k (au_queue L) \<and> au_queue L' = drop k (au_queue L) \<and> au_dropped_count L' = au_dropped_count L + 1)"
    using assms by (auto simp: defs not_le split: if_splits intro: exI [of _ 0] exI [of _ taken])
  then show ?thesis using that by blast
qed

lemma audit_try_send_keeps:
  "audit_try_send taken e L = (L', out) \<Longrightarrow>
   au_capacity L' = au_capacity L \<and> au_recent_events L' = au_recent_events (remember e L)"
  by (auto simp: audit_try_send_def chan_try_send_def count_drop_def remember_def Let_def split: if_splits)

lemma audit_log_inv:
  assumes "audit_inv (L, got, logged)"
  shows "audit_inv (audit_step (OpLog taken e) (L, got, logged))"
proof -
  obtain L' out where t: "audit_try_send taken e L = (L', out)" by fastforce
  let ?n = "length (got @ au_queue L)"
  have s: "subseq (got @ au_queue L) logged" and c: "au_capacity L = AUDIT_CHANNEL_CAPACITY"
    and d: "au_dropped_count L = of_nat (length logged - ?n)" and q: "length (au_queue L) \<le> au_capacity L"
    and r: "au_recent_events L = drop (length logged - RECENT_EVENTS_CAPACITY) logged"
    using assms by simp_all
  note keeps = audit_try_send_keeps [OF t, unfolded remember_recent [OF r] c]
  have n: "?n \<le> length logged" by (rule list_emb_length [OF s])
  from t show ?thesis
  proof (cases rule: audit_try_send_cases)
    case (1 k)
    have same: "got @ out @ au_queue L' = (got @ au_queue L) @ [e]" unfolding 1(1,2) by simp
    have "length (got @ out @ au_queue L') = Suc ?n" unfolding same by simp
    then show ?thesis
      using subseq_extend(2) [OF s, of e] keeps 1 d c unfolding same [symmetric] by (simp add: t)
  next
    case (2 k)
    have same: "got @ out @ au_queue L' = got @ au_queue L" unfolding 2(1,2) by simp
    have len: "length (got @ out @ au_queue L') = ?n" unfolding same ..
    have "length (au_queue L') \<le> AUDIT_CHANNEL_CAPACITY" using 2(2) q c by simp
    moreover have "au_dropped_count L' = of_nat (Suc (length logged) - ?n)" using 2(3) d n by (simp add: Suc_diff_le)
    ultimately show ?thesis
      using subseq_extend(1) [OF s, of e] keeps unfolding same [symmetric] by (simp add: t flip: len)
  qed
qed

lemma audit_recv_inv:
  assumes "audit_inv (L, got, logged)"
  shows "audit_inv (audit_step OpRecv (L, got, logged))"
  using assms by (cases "au_queue L") (auto simp: audit_recv_def)

interpretation audit: machine audit_step audit_inv
proof
  fix s a assume "audit_inv s"
  then show "audit_inv (audit_step a s)"
    by (cases s; cases a) (simp_all only: audit_log_inv audit_recv_inv)
qed

text \<open>C35: in every run of log calls and receptions, the writer receives events in the order they were
  logged and each at most once, the counter counts exactly the events that are neither received nor queued, the
  channel stays within its capacity and the buffer holds exactly the last hundred events logged.\<close>

theorem audit_delivery:
  "case fold audit_step ops (audit_new, [], []) of (L, got, logged) \<Rightarrow>
     subseq (got @ au_queue L) logged
     \<and> au_dropped_count L = of_nat (length logged - length (got @ au_queue L))
     \<and> length (au_queue L) \<le> AUDIT_CHANNEL_CAPACITY
     \<and> au_recent_events L = drop (length logged - RECENT_EVENTS_CAPACITY) logged"
proof -
  have "audit_inv (fold audit_step ops (audit_new, [], []))" by (rule audit.run_inv) (simp add: audit_new_def)
  then show ?thesis by (auto split: prod.split)
qed

text \<open>A critical event has no priority: unless the writer takes an event between the two attempts, it
  is dropped exactly when any other event would be.\<close>

lemma critical_not_prioritised:
  "audit_try_send 0 e L =
     (case chan_try_send e (remember e L) of (L2, SendOk) \<Rightarrow> (L2, []) | (L2, _) \<Rightarrow> (count_drop L2, []))"
  by (auto simp: audit_try_send_def chan_try_send_def Let_def split: if_splits)

subsection \<open>Rotation keeps the newest part of the log\<close>

text \<open>The abstract log: the current file and the older ones, newest first, of which at most \<open>n\<close> are kept.\<close>

type_synonym abs_log = "string \<times> string list"

fun abs_write :: "nat \<Rightarrow> nat \<Rightarrow> string \<Rightarrow> abs_log \<Rightarrow> abs_log" where
  "abs_write limit n line (cur, old) =
     (if length (cur @ line) \<ge> limit then ([], take n ((cur @ line) # old)) else (cur @ line, old))"

definition kept_files :: "u32 \<Rightarrow> nat" where
  "kept_files max_files = max 1 (unat max_files)"

fun log_rel :: "string \<Rightarrow> nat \<Rightarrow> disk \<Rightarrow> abs_log \<Rightarrow> bool" where
  "log_rel path n d (cur, old) \<longleftrightarrow> map_of d path = Some cur \<and> length old \<le> n
     \<and> (\<forall>i < n. map_of d (rotated path (Suc i)) = (if i < length old then Some (old ! i) else None))"

definition all_well :: file_outcome where
  "all_well = \<lparr>fo_write = WriteOk, fo_rename = (\<lambda>_. True), fo_reopen = True\<rparr>"

lemma rotated_eq [simp]: "rotated path i = rotated path j \<longleftrightarrow> i = j" "rotated path i \<noteq> path" "path \<noteq> rotated path i"
  by (auto simp: rotated_def )

lemma rename_well:
  "map_of (rename_file all_well from to d) p =
     (if p = to \<and> map_of d from \<noteq> None then map_of d from else if p = from then None else map_of d p)"
  by (auto simp: rename_file_def all_well_def split: option.split)

lemma shift_files:
  "map_of (fold (\<lambda>i. rename_file all_well (rotated path i) (rotated path (Suc i))) (rev [Suc 0..<m]) d) (rotated path j) =
     (if 1 < m \<and> 1 \<le> j \<and> j \<le> m
      then (if j = 1 then None
            else if j = m \<and> map_of d (rotated path (m - 1)) = None then map_of d (rotated path m)
            else map_of d (rotated path (j - 1)))
      else map_of d (rotated path j))"
proof (induction m arbitrary: d)
  case (Suc m)
  show ?case
  proof (cases "1 \<le> m")
    case True
    then have "rev [Suc 0..<Suc m] = m # rev [Suc 0..<m]" by simp
    then show ?thesis using True by (auto simp: Suc rename_well)
  qed simp
qed simp

lemma shift_path:
  "map_of (fold (\<lambda>i. rename_file all_well (rotated path i) (rotated path (Suc i))) is d) path = map_of d path"
  by (induction "is" arbitrary: d) (simp_all add: rename_well)

lemma rotate_rel:
  assumes "log_rel path (kept_files max_files) d (cur, old)"
  shows "log_rel path (kept_files max_files) (open_append path (rotate_audit_files all_well path max_files d))
           ([], take (kept_files max_files) (cur # old))"
proof -
  let ?n = "kept_files max_files"
  have c: "map_of d path = Some cur" and len: "length old \<le> ?n"
    and o: "\<And>i. i < ?n \<Longrightarrow> map_of d (rotated path (Suc i)) = (if i < length old then Some (old ! i) else None)"
    using assms by auto
  let ?r = "rotate_audit_files all_well path max_files d"
  have one: "map_of ?r (rotated path 1) = Some cur" and p: "map_of ?r path = None"
    using c by (simp_all add: rotate_audit_files_def rename_well shift_path)
  have "map_of ?r (rotated path (Suc i)) = (if i < Suc (length old) then Some ((cur # old) ! i) else None)" if i: "i < ?n" for i
  proof (cases i)
    case (Suc k)
    then have "1 < unat max_files" "?n = unat max_files" using i by (auto simp: kept_files_def split: if_splits)
    then show ?thesis
      using o [of k] o [of "Suc k"] i Suc
      by (cases "unat max_files = Suc (Suc k)") (auto simp: rotate_audit_files_def rename_well shift_files)
  qed (use one in simp)
  then show ?thesis using p one len
    by (simp add: open_append_def)
qed

lemma file_append_rel:
  "log_rel path n d (cur, old) \<Longrightarrow> log_rel path n (file_append path t d) (cur @ t, old)"
  by (simp add: file_append_def snd_dm_entry)

lemma u64_add_nat: "m + n < 2 ^ 64 \<Longrightarrow> unat (of_nat m + of_nat n :: u64) = m + n"
  unfolding of_nat_add [symmetric] by (simp add: unsigned_of_nat take_bit_nat_eq_self del: of_nat_add)

text \<open>Without failures the writer refines the abstract log, and the size it counts is that of the file.\<close>

definition line_of :: "string \<Rightarrow> string" where
  "line_of json = json @ [char_of (10 :: nat)]"

lemma write_line_refines:
  assumes "log_rel path (kept_files max_files) (aw_disk W) (cur, old)" and "aw_size W = of_nat (length cur)"
    and "0 < max_size" and "length cur < 2 ^ 63" and "length (line_of json) < 2 ^ 63"
  defines "W' \<equiv> write_line (Some path) max_size max_files all_well json W"
    and "A' \<equiv> abs_write (unat max_size) (kept_files max_files) (line_of json) (cur, old)"
  shows "log_rel path (kept_files max_files) (aw_disk W') A'" "aw_size W' = of_nat (length (fst A'))" "aw_file W' = aw_file W"
proof -
  let ?line = "line_of json" and ?d = "file_append path (line_of json) (aw_disk W)"
  have rel: "log_rel path (kept_files max_files) ?d (cur @ ?line, old)" by (rule file_append_rel) (rule assms(1))
  have sz: "unat (aw_size W + of_nat (length ?line)) = length cur + length ?line"
    unfolding assms(2) by (rule u64_add_nat) (use assms(4,5) in simp)
  then have full: "max_size \<le> aw_size W + of_nat (length ?line) \<longleftrightarrow> unat max_size \<le> length cur + length ?line"
    by (simp add: word_le_nat_alt)
  have W': "W' = (let W1 = W\<lparr>aw_disk := ?d, aw_size := aw_size W + of_nat (length ?line)\<rparr> in
      if unat max_size \<le> length cur + length ?line
      then W1\<lparr>aw_disk := open_append path (rotate_audit_files all_well path max_files ?d), aw_size := 0\<rparr> else W1)"
    using assms(3) full unfolding W'_def write_line_def line_of_def [symmetric] by (simp add: all_well_def Let_def)
  show "log_rel path (kept_files max_files) (aw_disk W') A'"
    unfolding W' A'_def Let_def using rel rotate_rel [OF rel] by (simp del: log_rel.simps)
  show "aw_size W' = of_nat (length (fst A'))" "aw_file W' = aw_file W" unfolding W' A'_def Let_def using assms(2) by simp_all
qed

text \<open>What an observer can still read: the older files from the oldest on, then the current one.\<close>

definition file_content :: "disk \<Rightarrow> string \<Rightarrow> string" where
  "file_content d p = (case map_of d p of Some c \<Rightarrow> c | None \<Rightarrow> [])"

definition trail :: "string \<Rightarrow> nat \<Rightarrow> disk \<Rightarrow> string" where
  "trail path n d = concat (map (\<lambda>i. file_content d (rotated path i)) (rev [1..<Suc n])) @ file_content d path"

lemma trail_rel:
  assumes "log_rel path n d (cur, old)"
  shows "trail path n d = concat (rev old) @ cur"
proof -
  let ?f = "\<lambda>i. if i < length old then old ! i else []"
  have len: "length old \<le> n" using assms by simp
  have "map (\<lambda>i. file_content d (rotated path i)) [1..<Suc n] = map ?f [0..<n]"
    unfolding One_nat_def map_Suc_upt [symmetric] map_map
    by (rule map_cong) (use assms in \<open>auto simp: file_content_def\<close>)
  moreover have "map ?f [0..<n] = old @ replicate (n - length old) []"
    by (rule nth_equalityI) (use len in \<open>auto simp: nth_append\<close>)
  moreover have "map g (rev xs) = rev (map g xs)" for g :: "nat \<Rightarrow> string" and xs by (rule rev_map [symmetric])
  ultimately show ?thesis using assms by (simp add: trail_def file_content_def del: upt_Suc)
qed

fun abs_inv :: "nat \<Rightarrow> nat \<Rightarrow> string \<Rightarrow> abs_log \<Rightarrow> bool" where
  "abs_inv limit n written (cur, old) \<longleftrightarrow>
     (\<exists>lost. written = lost @ concat (rev old) @ cur \<and> (lost \<noteq> [] \<longrightarrow> length old = n))
     \<and> length old \<le> n \<and> length cur < limit \<and> (\<forall>f \<in> set old. limit \<le> length f)"

lemma abs_write_inv:
  assumes "abs_inv limit n written (cur, old)" and "0 < limit"
  shows "abs_inv limit n (written @ line) (abs_write limit n line (cur, old))"
proof (cases "length (cur @ line) \<ge> limit")
  case False
  then show ?thesis using assms by auto
next
  case True
  let ?all = "(cur @ line) # old"
  obtain lost where l: "written = lost @ concat (rev old) @ cur" "lost \<noteq> [] \<longrightarrow> length old = n" using assms(1) by auto
  have "concat (rev ?all) = concat (rev (drop n ?all)) @ concat (rev (take n ?all))"
    by (metis append_take_drop_id concat_append rev_append)
  then have "written @ line = (lost @ concat (rev (drop n ?all))) @ concat (rev (take n ?all))" using l(1) by simp
  moreover have "lost @ concat (rev (drop n ?all)) \<noteq> [] \<longrightarrow> length (take n ?all) = n"
    using l(2) assms(1) by (cases "length ?all \<le> n") auto
  moreover have "\<forall>f \<in> set (take n ?all). limit \<le> length f" using True assms(1) set_take_subset [of n ?all] by fastforce
  ultimately show ?thesis using True assms(2) by auto
qed

lemma concat_size: "\<forall>f \<in> set old. limit \<le> length f \<Longrightarrow> length old * limit \<le> length (concat (rev old))"
  by (induction old) (auto simp: add.commute intro: add_mono)

definition writer_inv :: "string \<Rightarrow> u64 \<Rightarrow> u32 \<Rightarrow> string \<Rightarrow> audit_writer \<Rightarrow> bool" where
  "writer_inv path max_size max_files written W \<longleftrightarrow> aw_file W \<and>
     (\<exists>cur old. log_rel path (kept_files max_files) (aw_disk W) (cur, old) \<and> aw_size W = of_nat (length cur)
        \<and> abs_inv (unat max_size) (kept_files max_files) written (cur, old))"

lemma writer_inv_step:
  assumes "writer_inv path max_size max_files written W" and "0 < max_size" and "unat max_size \<le> 2 ^ 63"
    and "to_json e = Some json" and "length (line_of json) < 2 ^ 63"
  shows "writer_inv path max_size max_files (written @ line_of json)
           (audit_writer_task to_json to_value hooks (Some path) max_size max_files (all_well, e) W)"
proof -
  let ?W = "if hooks \<and> to_value e then W\<lparr>aw_dispatched := aw_dispatched W @ [(event_type e, e)]\<rparr> else W"
  have t: "audit_writer_task to_json to_value hooks (Some path) max_size max_files (all_well, e) W =
      write_line (Some path) max_size max_files all_well json ?W" and "aw_file ?W"
    using assms(1,4) by (simp_all add: audit_writer_task_def writer_inv_def Let_def)
  obtain cur old where c: "log_rel path (kept_files max_files) (aw_disk ?W) (cur, old)" "aw_size ?W = of_nat (length cur)"
    and i: "abs_inv (unat max_size) (kept_files max_files) written (cur, old)"
    using assms(1) unfolding writer_inv_def by (cases "hooks \<and> to_value e") (auto simp del: log_rel.simps abs_inv.simps)
  have "length cur < 2 ^ 63" using i assms(3) by simp
  note r = write_line_refines [OF c assms(2) this assms(5)]
  have "0 < unat max_size" using assms(2) by (simp add: word_less_nat_alt)
  with abs_write_inv [OF i, of "line_of json"] r \<open>aw_file ?W\<close> show ?thesis
    unfolding t writer_inv_def by (metis prod.collapse)
qed

lemma writer_inv_start:
  assumes "map_of d path = None" and "\<And>i. map_of d (rotated path i) = None" and "0 < max_size"
  shows "writer_inv path max_size max_files [] (writer_start (Some path) True metadata_ok d)"
  using assms by (auto simp: writer_inv_def writer_start_def open_append_def snd_dm_entry word_less_nat_alt intro!: exI [of _ "[]"])

lemma writer_inv_run:
  assumes "writer_inv path max_size max_files written W" and "0 < max_size" and "unat max_size \<le> 2 ^ 63"
    and "\<forall>e \<in> set es. \<exists>json. to_json e = Some json \<and> length (line_of json) < 2 ^ 63"
  shows "writer_inv path max_size max_files (written @ concat (map (line_of \<circ> the \<circ> to_json) es))
           (fold (audit_writer_task to_json to_value hooks (Some path) max_size max_files) (map (Pair all_well) es) W)"
  using assms(1,4)
proof (induction es arbitrary: W written)
  case (Cons e es)
  then obtain json where j: "to_json e = Some json" "length (line_of json) < 2 ^ 63" by auto
  have "writer_inv path max_size max_files (written @ line_of json)
      (audit_writer_task to_json to_value hooks (Some path) max_size max_files (all_well, e) W)"
    by (rule writer_inv_step) (use Cons.prems(1) assms(2,3) j in auto)
  from Cons.IH [OF this] Cons.prems(2) j show ?case by simp
qed simp

text \<open>C30: on a fresh disk and without I/O failures, the files that can still be read hold exactly the
  newest part of everything written, in order; nothing is lost before the older files alone hold the
  configured number of files of the configured size, and the current file stays below that size.\<close>

theorem audit_log_retained:
  fixes max_files :: u32 and hooks :: bool and to_value :: "audit_event \<Rightarrow> bool"
  assumes "0 < max_size" and "unat max_size \<le> 2 ^ 63"
    and "\<forall>e \<in> set es. \<exists>json. to_json e = Some json \<and> length (line_of json) < 2 ^ 63"
    and "map_of d path = None" and "\<And>i. map_of d (rotated path i) = None"
  defines "D \<equiv> aw_disk (fold (audit_writer_task to_json to_value hooks (Some path) max_size max_files) (map (Pair all_well) es)
                  (writer_start (Some path) True True d))"
  shows "\<exists>lost. concat (map (line_of \<circ> the \<circ> to_json) es) = lost @ trail path (kept_files max_files) D
     \<and> (lost \<noteq> [] \<longrightarrow> kept_files max_files * unat max_size \<le> length (trail path (kept_files max_files) D))
     \<and> length (file_content D path) < unat max_size"
proof -
  have "writer_inv path max_size max_files [] (writer_start (Some path) True True d)"
    by (rule writer_inv_start) (use assms in auto)
  from writer_inv_run [OF this assms(1-3), of to_value hooks]
  obtain cur old where r: "log_rel path (kept_files max_files) D (cur, old)"
    and i: "abs_inv (unat max_size) (kept_files max_files) (concat (map (line_of \<circ> the \<circ> to_json) es)) (cur, old)"
    unfolding writer_inv_def D_def append_Nil by blast
  have t: "trail path (kept_files max_files) D = concat (rev old) @ cur" "file_content D path = cur"
    using trail_rel [OF r] r by (simp_all add: file_content_def)
  have "length old * unat max_size \<le> length (concat (rev old))" using i by (intro concat_size) simp
  then show ?thesis using i unfolding t by auto
qed

definition sample_json :: "audit_event \<Rightarrow> string option" where
  "sample_json e = Some (event_type e)"

theorem audit_log_retained_witness:
  "let es = [BanExpired 0 ''1.2.3.4'', BanExpired 1 ''1.2.3.4'', MaintenanceToggled 2 True ''signal''];
       D = aw_disk (fold (audit_writer_task sample_json (\<lambda>_. True) False (Some ''a'') 12 1) (map (Pair all_well) es)
             (writer_start (Some ''a'') True True [])) in
   (\<exists>lost. concat (map (line_of \<circ> the \<circ> sample_json) es) = lost @ trail ''a'' (kept_files 1) D
     \<and> (lost \<noteq> [] \<longrightarrow> kept_files 1 * unat (12 :: u64) \<le> length (trail ''a'' (kept_files 1) D))
     \<and> length (file_content D ''a'') < unat (12 :: u64))"
proof -
  let ?es = "[BanExpired 0 ''1.2.3.4'', BanExpired 1 ''1.2.3.4'', MaintenanceToggled 2 True ''signal'']"
  have "\<forall>e \<in> set ?es. \<exists>json. sample_json e = Some json \<and> length (line_of json) < 2 ^ 63"
    by (simp add: sample_json_def line_of_def)
  from audit_log_retained [OF _ _ this, of 12 "[]" "''a''"] show ?thesis by (simp add: Let_def)
qed

text \<open>Once the log could not be reopened after a rotation, nothing is ever written again.\<close>

lemma writer_stays_closed:
  "\<not> aw_file W \<Longrightarrow>
   aw_disk (fold (audit_writer_task to_json to_value hooks log_path max_size max_files) steps W) = aw_disk W
   \<and> \<not> aw_file (fold (audit_writer_task to_json to_value hooks log_path max_size max_files) steps W)"
proof (induction steps arbitrary: W)
  case (Cons s steps)
  have "\<not> aw_file (audit_writer_task to_json to_value hooks log_path max_size max_files s W)"
    "aw_disk (audit_writer_task to_json to_value hooks log_path max_size max_files s W) = aw_disk W"
    using Cons.prems by (simp_all add: audit_writer_task_def Let_def split: prod.split option.split)
  with Cons.IH show ?case by simp
qed simp

end
