(* ===== verification/Server.thy ===== *)
theory Server
  imports Config_Env Metrics Audit_Log App_Context
begin

text \<open>
  Models \<open>src/server.rs\<close> with the maintenance windows of \<open>src/config/types.rs\<close>: the services that
  survive a reload, the signal handlers, the scheduler of the maintenance windows and the loop that drains connections on shutdown. The listeners and the host
  key are in \<open>Listeners\<close>; \<open>System\<close> puts the services and the connections together. The texts of errors in audit records are parameters; an operation that writes an
  audit record takes its time stamp and the number of records the writer takes meanwhile.
\<close>

subsection \<open>Maintenance windows\<close>

definition mw_is_active :: "('pk, 'x) user_ops_scheme \<Rightarrow> int \<Rightarrow> maintenance_window_config \<Rightarrow> bool" where
  "mw_is_active U now w =
     (case splitn 2 CHR '' '' (mw_schedule w) of
        [day, time_range] \<Rightarrow>
          (let day_spec = to_ascii_lowercase day in
           if day_spec \<noteq> ''daily'' \<and> day_spec \<noteq> day_name (weekday_of U now) then False
           else (case split_on CHR ''-'' time_range of
                   [a, b] \<Rightarrow>
                     (case (parse_hhmm a, parse_hhmm b) of
                        (Some start_mins, Some end_mins) \<Rightarrow>
                          start_mins \<le> minute_of_day U now \<and> minute_of_day U now < end_mins
                      | _ \<Rightarrow> False)
                 | _ \<Rightarrow> False))
      | _ \<Rightarrow> False)"

subsection \<open>The services\<close>

record ('net, 'pk, 'fp, 'l, 'f) server =
  srv_auth :: "('net, 'pk, 'fp) auth_service"
  srv_security :: "('net, 'l, 'f) security_manager"
  srv_quota :: quota_tracker
  srv_metrics :: "'f metrics"
  srv_audit :: audit_logger
  srv_maintenance :: bool
  srv_shutdown :: bool

text \<open>The services of \<open>run_with_post_init\<close>.\<close>

definition server_new ::
  "('net, 'pk, 'h, 'cert, 'fp, 'l, 'f) libs \<Rightarrow> nat \<Rightarrow> 'net app_config \<Rightarrow> user_error + ('net, 'pk, 'fp, 'l, 'f) server" where
  "server_new L now cfg =
     (case auth_new_of (lib_net L) (lib_user L) (lib_auth L) cfg of
        Inl e \<Rightarrow> Inl e
      | Inr svc \<Rightarrow>
          Inr \<lparr>srv_auth = svc, srv_security = security_new (lib_net L) (security_config_of cfg),
               srv_quota = tracker_new (quota_limits_of cfg) now, srv_metrics = metrics_new (me_max_metric_labels (ac_metrics cfg)),
               srv_audit = set_dropped_metric 0 audit_new, srv_maintenance = False, srv_shutdown = False\<rparr>)"

definition auth_reload_of ::
  "('net, 'pk, 'h, 'cert, 'fp, 'l, 'f) libs \<Rightarrow> 'net app_config \<Rightarrow> ('net, 'pk, 'fp) auth_service
     \<Rightarrow> ('net, 'pk, 'fp) auth_service \<times> (user_error + unit)" where
  "auth_reload_of L cfg =
     auth_reload (lib_net L) (lib_user L) (lib_auth L) (ac_users cfg) (ac_groups cfg) (ac_acl cfg) (server_defaults_of cfg)
       (se_trusted_user_ca_keys (ac_security cfg))"

text \<open>The texts of errors, and the clock and writer of one audit record.\<close>

record reload_env =
  re_config_msg :: "config_error \<Rightarrow> string"
  re_user_msg :: "user_error \<Rightarrow> string"
  re_now :: int
  re_taken :: nat

definition record_reload ::
  "reload_env \<Rightarrow> u64 \<Rightarrow> bool \<Rightarrow> string option \<Rightarrow> ('net, 'pk, 'fp, 'l, 'f) server \<Rightarrow> ('net, 'pk, 'fp, 'l, 'f) server" where
  "record_reload X users_count success error S =
     S\<lparr>srv_audit := log_config_reload (re_taken X) (re_now X) users_count success error (srv_audit S)\<rparr>"

text \<open>\<open>SIGHUP\<close>.\<close>

definition sighup ::
  "('net, 'pk, 'h, 'cert, 'fp, 'l, 'f) libs \<Rightarrow> 'net config_io \<Rightarrow> string \<Rightarrow> reload_env
     \<Rightarrow> ('net, 'pk, 'fp, 'l, 'f) server \<Rightarrow> ('net, 'pk, 'fp, 'l, 'f) server" where
  "sighup L F config_path X S =
     (case load_config (lib_net L) (lib_url L) F config_path of
        Inl e \<Rightarrow> record_reload X 0 False (Some (re_config_msg X e)) S
      | Inr cfg \<Rightarrow>
          (case auth_reload_of L cfg (srv_auth S) of
             (svc, Inl e) \<Rightarrow> record_reload X 0 False (Some (re_user_msg X e)) (S\<lparr>srv_auth := svc\<rparr>)
           | (svc, Inr _) \<Rightarrow>
               record_reload X (of_nat (length (ac_users cfg))) True None
                 (S\<lparr>srv_auth := svc, srv_security := security_reload (lib_net L) (security_config_of cfg) (srv_security S),
                    srv_quota := update_config (quota_limits_of cfg) (srv_quota S),
                    srv_metrics := prune_known_users (map c_username (ac_users cfg)) (srv_metrics S)\<rparr>)))"

definition toggle_maintenance ::
  "int \<Rightarrow> nat \<Rightarrow> bool \<Rightarrow> string \<Rightarrow> ('net, 'pk, 'fp, 'l, 'f) server \<Rightarrow> ('net, 'pk, 'fp, 'l, 'f) server" where
  "toggle_maintenance now taken enabled source S =
     S\<lparr>srv_maintenance := enabled, srv_audit := log_maintenance_toggled taken now enabled source (srv_audit S)\<rparr>"

definition sigusr1 :: "int \<Rightarrow> nat \<Rightarrow> ('net, 'pk, 'fp, 'l, 'f) server \<Rightarrow> ('net, 'pk, 'fp, 'l, 'f) server" where
  "sigusr1 now taken S = toggle_maintenance now taken (\<not> srv_maintenance S) ''signal'' S"

definition sigterm :: "('net, 'pk, 'fp, 'l, 'f) server \<Rightarrow> ('net, 'pk, 'fp, 'l, 'f) server" where
  "sigterm S = S\<lparr>srv_shutdown := True\<rparr>"

text \<open>One tick of the scheduler, which runs only where windows are configured.\<close>

definition maintenance_tick ::
  "('pk, 'x) user_ops_scheme \<Rightarrow> maintenance_window_config list \<Rightarrow> int \<Rightarrow> nat
     \<Rightarrow> ('net, 'pk, 'fp, 'l, 'f) server \<Rightarrow> ('net, 'pk, 'fp, 'l, 'f) server" where
  "maintenance_tick U windows now taken S =
     (if windows = [] then S
      else let should = list_ex (mw_is_active U now) windows in
        if should \<noteq> srv_maintenance S then toggle_maintenance now taken should ''scheduler'' S else S)"

text \<open>The supervisor once shutdown is requested.\<close>

definition begin_shutdown :: "('net, 'pk, 'fp, 'l, 'f) server \<Rightarrow> ('net, 'pk, 'fp, 'l, 'f) server" where
  "begin_shutdown S = S\<lparr>srv_maintenance := True\<rparr>"

text \<open>The drain loop: reading \<open>i\<close> of the active connections and of the clock in milliseconds; the result is
  whether all connections ended, and the number of readings taken. The deadline is computed with \<open>Instant + Duration\<close>, which
  panics past the \<open>latest\<close> instant the platform can represent; the timeout of the configuration is not validated.\<close>

partial_function (option) drain :: "(nat \<Rightarrow> u32) \<Rightarrow> (nat \<Rightarrow> nat) \<Rightarrow> nat \<Rightarrow> nat \<Rightarrow> (bool \<times> nat) option" where
  "drain active clk deadline i =
     (if active i = 0 then Some (True, Suc i)
      else if clk i \<ge> deadline then Some (False, Suc i)
      else drain active clk deadline (Suc i))"

datatype drain_end = DeadlineOverflow | Ended bool nat

definition drain_connections :: "nat \<Rightarrow> (nat \<Rightarrow> u32) \<Rightarrow> (nat \<Rightarrow> nat) \<Rightarrow> u64 \<Rightarrow> nat \<Rightarrow> drain_end option" where
  "drain_connections latest active clk shutdown_timeout start =
     (let drain_deadline = start + unat shutdown_timeout * 1000 in
      if drain_deadline > latest then Some DeadlineOverflow
      else case drain active clk drain_deadline 0 of None \<Rightarrow> None | Some (drained, n) \<Rightarrow> Some (Ended drained n))"

subsection \<open>Reloading\<close>

lemma auth_reload_of_eq:
  "auth_reload_of L cfg svc =
     (case auth_new_of (lib_net L) (lib_user L) (lib_auth L) cfg of Inl e \<Rightarrow> (svc, Inl e) | Inr svc' \<Rightarrow> (svc', Inr ()))"
  by (simp add: auth_reload_of_def auth_new_of_def auth_reload_def auth_new_def split: sum.split)

lemma load_config_validated: "load_config N L F path = Inr cfg \<Longrightarrow> validate_config N L (path_exists F) cfg = None"
  by (auto simp: load_config_def parse_config_def split: option.splits if_splits)

lemma last_recent: "last (au_recent_events (log_event taken e A)) = e"
  using audit_try_send_keeps [of taken e A "fst (audit_try_send taken e A)" "snd (audit_try_send taken e A)"]
  by (simp add: log_event_def remember_def)

lemma record_reload_simps [simp]:
  "srv_auth (record_reload X n ok err S) = srv_auth S" "srv_security (record_reload X n ok err S) = srv_security S"
  "srv_quota (record_reload X n ok err S) = srv_quota S" "srv_metrics (record_reload X n ok err S) = srv_metrics S"
  "srv_maintenance (record_reload X n ok err S) = srv_maintenance S" "srv_shutdown (record_reload X n ok err S) = srv_shutdown S"
  "last (au_recent_events (srv_audit (record_reload X n ok err S))) = ConfigReload (re_now X) n ok err"
  by (simp_all add: record_reload_def log_config_reload_def last_recent config_reload_def)

text \<open>What a server must look like after it has taken over a configuration: authentication and security are those of a
  server started with it, the bans and the failures on record excepted, which are kept; of the quota tracker the
  bandwidth limit of the server follows, everything else is kept.\<close>

definition runs_config ::
  "('net, 'pk, 'h, 'cert, 'fp, 'l, 'f) libs \<Rightarrow> 'net app_config \<Rightarrow> ('net, 'pk, 'fp, 'l, 'f) server \<Rightarrow> ('net, 'pk, 'fp, 'l, 'f) server \<Rightarrow> bool" where
  "runs_config L cfg S S' \<longleftrightarrow>
     auth_new_of (lib_net L) (lib_user L) (lib_auth L) cfg = Inr (srv_auth S')
     \<and> (let fresh = security_new (lib_net L) (security_config_of cfg); old = ban_mgr (srv_security S) in
        srv_security S' = fresh\<lparr>ban_mgr := (ban_mgr fresh)\<lparr>bans := bans old, failures := failures old\<rparr>\<rparr>)
     \<and> srv_quota S' = (srv_quota S)\<lparr>server_bandwidth_limit_bps := server_bandwidth_limit_bps (tracker_new (quota_limits_of cfg) 0)\<rparr>"

lemmas service_defs = security_reload_def ban_update_config_def update_config_def security_config_of_def quota_limits_of_def
  security_new_def ban_new_def tracker_new_def prune_known_users_def Let_def

lemma sighup_fails:
  assumes "\<And>cfg svc. load_config (lib_net L) (lib_url L) F path = Inr cfg \<Longrightarrow>
     auth_new_of (lib_net L) (lib_user L) (lib_auth L) cfg \<noteq> Inr svc"
  shows "\<exists>err. sighup L F path X S = record_reload X 0 False (Some err) S"
  using assms by (auto simp: sighup_def auth_reload_of_eq split: sum.split)

lemma sighup_works:
  assumes "load_config (lib_net L) (lib_url L) F path = Inr cfg"
    and "auth_new_of (lib_net L) (lib_user L) (lib_auth L) cfg = Inr svc"
  shows "runs_config L cfg S (sighup L F path X S)"
    "bans (ban_mgr (srv_security (sighup L F path X S))) = bans (ban_mgr (srv_security S))"
    "user_state (srv_quota (sighup L F path X S)) = user_state (srv_quota S)"
    "last (au_recent_events (srv_audit (sighup L F path X S))) = ConfigReload (re_now X) (of_nat (length (ac_users cfg))) True None"
  using assms by (simp_all add: sighup_def auth_reload_of_eq runs_config_def service_defs)

text \<open>C29: a reload on SIGHUP is all or nothing. Either the file gives a valid configuration whose users
  resolve: then authentication and security are afterwards those of a server started with that file, except that bans
  and failures on record are kept, and of the quota tracker the bandwidth limit follows while counters and connection
  rate windows stay as they were. Or none of the services changes. The audit log says which case it was.\<close>

theorem reload_all_or_nothing:
  "let S' = sighup L F path X S in
   bans (ban_mgr (srv_security S')) = bans (ban_mgr (srv_security S)) \<and> user_state (srv_quota S') = user_state (srv_quota S)
   \<and> ((\<exists>cfg. load_config (lib_net L) (lib_url L) F path = Inr cfg \<and> validate_config (lib_net L) (lib_url L) (path_exists F) cfg = None
         \<and> runs_config L cfg S S'
         \<and> last (au_recent_events (srv_audit S')) = ConfigReload (re_now X) (of_nat (length (ac_users cfg))) True None)
      \<or> srv_auth S' = srv_auth S \<and> srv_security S' = srv_security S \<and> srv_quota S' = srv_quota S
         \<and> srv_metrics S' = srv_metrics S
         \<and> (\<exists>err. last (au_recent_events (srv_audit S')) = ConfigReload (re_now X) 0 False (Some err)))"
proof (cases "\<exists>cfg svc. load_config (lib_net L) (lib_url L) F path = Inr cfg
    \<and> auth_new_of (lib_net L) (lib_user L) (lib_auth L) cfg = Inr svc")
  case True
  then obtain cfg svc where c: "load_config (lib_net L) (lib_url L) F path = Inr cfg"
    "auth_new_of (lib_net L) (lib_user L) (lib_auth L) cfg = Inr svc" by blast
  show ?thesis unfolding Let_def using sighup_works(1) [OF c, of S X] sighup_works(2-4) [OF c, of X S]
      load_config_validated [OF c(1)] c(1) by blast
next
  case False
  then obtain err where "sighup L F path X S = record_reload X 0 False (Some err) S" using sighup_fails by blast
  then show ?thesis by (simp add: Let_def)
qed

subsection \<open>Shutdown\<close>

lemma drain_result:
  assumes "\<forall>i < n. active i \<noteq> 0 \<and> clk i < deadline" and "active n = 0 \<or> deadline \<le> clk n"
  shows "drain active clk deadline 0 = Some (active n = 0, Suc n)"
proof -
  have "drain active clk deadline (n - k) = Some (active n = 0, Suc n)" if "k \<le> n" for k
    using that
  proof (induction k)
    case 0
    show ?case using assms(2) by (subst drain.simps) auto
  next
    case (Suc k)
    then have "Suc (n - Suc k) = n - k" by simp
    moreover have "active (n - Suc k) \<noteq> 0" "clk (n - Suc k) < deadline" using assms(1) Suc.prems by simp_all
    ultimately show ?case using Suc by (simp add: drain.simps [of _ _ _ "n - Suc k"])
  qed
  from this [of n] show ?thesis by simp
qed

text \<open>C39: where the deadline can be represented and every pause takes at least its 250 milliseconds, the drain loop ends
  after at most one reading and four more for each second of the timeout; it ends as drained exactly if its last reading saw no connection,
  and gives up only after the timeout and with connections active at every reading. A timeout whose deadline
  cannot be represented panics before the first reading.\<close>

theorem drain_terminates:
  assumes "\<And>i. clk (Suc i) \<ge> clk i + 250" and "clk 0 \<ge> start"
  shows "if start + 1000 * unat shutdown_timeout > latest
    then drain_connections latest active clk shutdown_timeout start = Some DeadlineOverflow
    else \<exists>n drained. drain_connections latest active clk shutdown_timeout start = Some (Ended drained (Suc n))
      \<and> Suc n \<le> 1 + 4 * unat shutdown_timeout
      \<and> (drained \<longleftrightarrow> active n = 0) \<and> (\<forall>i < n. active i \<noteq> 0)
      \<and> (drained \<or> clk n \<ge> start + 1000 * unat shutdown_timeout)"
proof -
  let ?stop = "\<lambda>i. active i = 0 \<or> start + unat shutdown_timeout * 1000 \<le> clk i"
  have clk: "clk i \<ge> start + 250 * i" for i
  proof (induction i)
    case (Suc i)
    with assms(1) [of i] show ?case by simp
  qed (use assms(2) in simp)
  have "?stop (4 * unat shutdown_timeout)" using clk [of "4 * unat shutdown_timeout"] by simp
  moreover from this obtain n where st: "?stop n" and min: "\<forall>i < n. \<not> ?stop i" using exists_least_iff [of ?stop] by blast
  ultimately have le: "Suc n \<le> 1 + 4 * unat shutdown_timeout" using not_le_imp_less by auto
  have before: "\<forall>i < n. active i \<noteq> 0 \<and> clk i < start + unat shutdown_timeout * 1000" using min by (simp add: not_le)
  have "drain active clk (start + unat shutdown_timeout * 1000) 0 = Some (active n = 0, Suc n)" by (rule drain_result [OF before st])
  then have "drain_connections latest active clk shutdown_timeout start =
      (if start + 1000 * unat shutdown_timeout > latest then Some DeadlineOverflow else Some (Ended (active n = 0) (Suc n)))"
    by (simp add: drain_connections_def Let_def mult.commute)
  moreover have "active n = 0 \<or> clk n \<ge> start + 1000 * unat shutdown_timeout" using st by (simp add: mult.commute)
  ultimately show ?thesis using le before by auto
qed

theorem drain_terminates_witness:
  "\<exists>n drained. drain_connections 2000 (\<lambda>i. if i < 3 then 1 else 0) (\<lambda>i. 300 * i) 1 0 = Some (Ended drained (Suc n))
    \<and> Suc n \<le> 1 + 4 * unat (1 :: u64)"
proof -
  let ?active = "\<lambda>i :: nat. if i < 3 then 1 else 0 :: u32"
  have "\<not> 0 + 1000 * unat (1 :: u64) > 2000" by simp
  moreover have "if 0 + 1000 * unat (1 :: u64) > 2000
    then drain_connections 2000 ?active (\<lambda>i. 300 * i) 1 0 = Some DeadlineOverflow
    else \<exists>n drained. drain_connections 2000 ?active (\<lambda>i. 300 * i) 1 0 = Some (Ended drained (Suc n))
      \<and> Suc n \<le> 1 + 4 * unat (1 :: u64)
      \<and> (drained \<longleftrightarrow> ?active n = 0) \<and> (\<forall>i < n. ?active i \<noteq> 0)
      \<and> (drained \<or> 300 * n \<ge> 0 + 1000 * unat (1 :: u64))"
    by (rule drain_terminates) simp_all
  ultimately show ?thesis by (metis (no_types, lifting))
qed

subsection \<open>Overrides of the environment\<close>

lemma override_ban_threshold:
  assumes "map_of E ''S5_BAN_THRESHOLD'' = Some (show_nat n)" and "n < 2 ^ 32"
  shows "se_ban_threshold (override_security E s) = of_nat n"
proof -
  have a: "ascii (show_nat n)" using show_nat_digits [of n] by (auto simp: ascii_def list_all_iff is_ascii_digit_def)
  have z: "opt_env E ''S5_BAN_THRESHOLD'' = Some (show_nat n)" by (rule opt_env_Some) (use assms a in simp_all)
  have i: "is_set E ''S5_BAN_THRESHOLD''" using assms(1) valid_utf8_ascii [OF a] by (simp add: is_set_def env_var_def)
  have "parse_env u32_from_str E ''S5_BAN_THRESHOLD'' d = of_nat n" for d
    using assms(2) by (simp add: parse_env_def z u32_from_str_def unwrap_or_def)
  then show ?thesis using i by (simp add: override_security_def if_set_def)
qed

text \<open>An override from the environment is lost at the next SIGHUP: a server started with a file and an
  override of the ban threshold enforces the override, and after a successful reload of the very same file it
  enforces the value of the file.\<close>

theorem reload_drops_overrides:
  assumes "path_exists F path" and "load_config (lib_net L) (lib_url L) F path = Inr cfg"
    and "map_of E ''S5_BAN_THRESHOLD'' = Some (show_nat n)" and "n < 2 ^ 32"
    and "startup_config (lib_net L) (lib_url L) F path E = (E, Inr (cfg', Some path))" and "server_new L now cfg' = Inr S"
    and "auth_new_of (lib_net L) (lib_user L) (lib_auth L) cfg = Inr svc"
  shows "threshold (ban_mgr (srv_security S)) = of_nat n
    \<and> threshold (ban_mgr (srv_security (sighup L F path X S))) = se_ban_threshold (ac_security cfg)"
proof
  have "cfg' = apply_env_overrides F E cfg" using assms(1,2,5) by (simp add: startup_config_def)
  then have "se_ban_threshold (ac_security cfg') = of_nat n"
    using override_ban_threshold [OF assms(3,4)] by (simp add: apply_env_overrides_def)
  then show "threshold (ban_mgr (srv_security S)) = of_nat n"
    using assms(6) by (auto simp: server_new_def security_new_def ban_new_def security_config_of_def Let_def split: sum.splits)
  show "threshold (ban_mgr (srv_security (sighup L F path X S))) = se_ban_threshold (ac_security cfg)"
    using sighup_works(1) [OF assms(2,7), of S X] by (simp add: runs_config_def service_defs)
qed

lemma sample_load: "load_config sample_net sample_url_ops sample_io ''config.toml'' = Inr sample_app_config"
proof -
  have "validate_config sample_net sample_url_ops (path_exists sample_io) sample_app_config = None"
    using sample_config_valid unfolding validate_config_parts validate_None
    by (simp add: sample_app_config_def app_config_default_def server_config_default_def map_filter_def)
  then show ?thesis by (simp add: load_config_def parse_config_def sample_io_def MAX_CONFIG_SIZE_def)
qed

lemma sample_auth: "\<exists>svc. auth_new_of sample_net sample_user_ops sample_auth_ops sample_app_config = Inr svc"
  using validated_auth [OF sample_config_valid, of sample_user_ops sample_auth_ops]
  by (auto simp: sample_app_config_def app_config_default_def expiry_parses_def user_config_default_def)

theorem reload_drops_overrides_witness:
  "\<exists>S cfg'. startup_config sample_net sample_url_ops sample_io ''config.toml'' [(''S5_BAN_THRESHOLD'', ''3'')]
        = ([(''S5_BAN_THRESHOLD'', ''3'')], Inr (cfg', Some ''config.toml''))
     \<and> server_new sample_libs 0 cfg' = Inr S \<and> threshold (ban_mgr (srv_security S)) = 3
     \<and> threshold (ban_mgr (srv_security (sighup sample_libs sample_io ''config.toml'' X S))) = 5"
proof -
  let ?E = "[(''S5_BAN_THRESHOLD'', ''3'')] :: env"
  let ?cfg = "apply_env_overrides sample_io ?E sample_app_config"
  have three: "show_nat 3 = ''3''" by code_simp
  have libs: "lib_net sample_libs = sample_net" "lib_url sample_libs = sample_url_ops" "lib_user sample_libs = sample_user_ops"
    "lib_auth sample_libs = sample_auth_ops"
    by (simp_all add: sample_libs_def sample_url_ops_def)
  have st: "startup_config sample_net sample_url_ops sample_io ''config.toml'' ?E = (?E, Inr (?cfg, Some ''config.toml''))"
    using sample_load by (simp add: startup_config_def sample_io_def)
  obtain svc where svc: "auth_new_of sample_net sample_user_ops sample_auth_ops sample_app_config = Inr svc" using sample_auth by blast
  have "auth_new_of sample_net sample_user_ops sample_auth_ops ?cfg = auth_new_of sample_net sample_user_ops sample_auth_ops sample_app_config"
    by (simp add: auth_new_of_def apply_env_overrides_def server_defaults_of_def override_server_def override_limits_def override_acl_def
        override_security_def when_set_def if_set_def is_set_def opt_env_def env_var_def)
  then obtain S where S: "server_new sample_libs 0 ?cfg = Inr S" using svc by (simp add: server_new_def libs)
  have "se_ban_threshold (ac_security sample_app_config) = 5"
    by (simp add: sample_app_config_def app_config_default_def security_section_default_def)
  with reload_drops_overrides [of sample_io "''config.toml''" sample_libs sample_app_config ?E 3 ?cfg 0 S svc X, unfolded libs] st S svc sample_load
  show ?thesis by (simp add: three sample_io_def)
qed

subsection \<open>When a window is active\<close>

definition two_digits :: "nat \<Rightarrow> string" where
  "two_digits n = [digit_char (n div 10), digit_char (n mod 10)]"

definition show_hhmm :: "nat \<Rightarrow> string" where
  "show_hhmm m = two_digits (m div 60) @ '':'' @ two_digits (m mod 60)"

lemma two_digits_facts:
  assumes "n < 100"
  shows "parse_u32 (two_digits n) = Some n" "list_all is_ascii_digit (two_digits n)"
proof -
  have d: "n div 10 < 10" "n mod 10 < 10" using assms by simp_all
  show l: "list_all is_ascii_digit (two_digits n)" using d by (simp add: two_digits_def is_ascii_digit_digit_char)
  have "digits_value 10 0 (two_digits n) = n" using d by (simp add: two_digits_def to_digit_digit_char)
  then show "parse_u32 (two_digits n) = Some n"
    using parse_uint_digits [OF _ l, of "2 ^ 32"] assms by (simp add: parse_u32_def two_digits_def)
qed

lemma digits_clean:
  assumes "list_all is_ascii_digit s"
  shows "CHR '':'' \<notin> set s" "CHR ''-'' \<notin> set s" "ascii s" "\<forall>c \<in> set s. \<not> is_whitespace [c]"
  using assms by (auto simp: list_all_iff is_ascii_digit_def is_whitespace_def white_space_def ascii_def)

lemma parse_show_hhmm:
  assumes "m < 1440"
  shows "parse_hhmm (show_hhmm m) = Some m" "CHR ''-'' \<notin> set (show_hhmm m)"
proof -
  let ?h = "two_digits (m div 60)" and ?m = "two_digits (m mod 60)"
  have b: "m div 60 < 24" "m mod 60 < 60" using assms by simp_all
  then have f: "parse_u32 ?h = Some (m div 60)" "parse_u32 ?m = Some (m mod 60)" "list_all is_ascii_digit ?h" "list_all is_ascii_digit ?m"
    using two_digits_facts by simp_all
  note c = digits_clean [OF f(3)] digits_clean [OF f(4)]
  show "CHR ''-'' \<notin> set (show_hhmm m)" using c by (simp add: show_hhmm_def)
  have "trim_str (show_hhmm m) = show_hhmm m"
    by (rule trim_str_clean) (use c in \<open>auto simp: show_hhmm_def is_whitespace_def white_space_def ascii_def\<close>)
  moreover have "split_on CHR '':'' (show_hhmm m) = [?h, ?m]" using c by (simp add: show_hhmm_def)
  ultimately show "parse_hhmm (show_hhmm m) = Some m" using f b by (simp add: parse_hhmm_def)
qed

text \<open>A window written as a day, or as daily, and two times of day is active exactly on that day, in
  whatever case it is written, from the first time to before the second; where the second is not after the
  first, it is never active.\<close>

theorem maintenance_window_exact:
  assumes "CHR '' '' \<notin> set day" and "a < 1440" and "b < 1440" and "mw_schedule w = day @ '' '' @ show_hhmm a @ ''-'' @ show_hhmm b"
  shows "(mw_is_active U now w \<longleftrightarrow>
      to_ascii_lowercase day \<in> {''daily'', day_name (weekday_of U now)} \<and> a \<le> minute_of_day U now \<and> minute_of_day U now < b)
    \<and> (b \<le> a \<longrightarrow> \<not> mw_is_active U now w)"
proof -
  have s: "splitn 2 CHR '' '' (mw_schedule w) = [day, show_hhmm a @ ''-'' @ show_hhmm b]"
    using splitn_append [OF assms(1), of 0 "show_hhmm a @ ''-'' @ show_hhmm b"] by (simp add: assms(4) numeral_2_eq_2)
  have d: "split_on CHR ''-'' (show_hhmm a @ CHR ''-'' # show_hhmm b) = [show_hhmm a, show_hhmm b]"
    using parse_show_hhmm(2) [OF assms(2)] parse_show_hhmm(2) [OF assms(3)] by simp
  show ?thesis
    unfolding mw_is_active_def s using parse_show_hhmm(1) [OF assms(2)] parse_show_hhmm(1) [OF assms(3)]
    by (simp add: d Let_def)
qed

theorem maintenance_window_exact_witness:
  "let w = \<lparr>mw_schedule = ''Mon 22:30-23:00'', mw_timezone = ''UTC'', mw_message = [], mw_disconnect_existing = False\<rparr>;
       U = \<lparr>parse_datetime = (\<lambda>_. None), parse_key_base64 = (\<lambda>_. None :: unit option), weekday_of = (\<lambda>_. 0), minute_of_day = (\<lambda>_. 1350)\<rparr>
   in mw_is_active U 0 w"
proof -
  let ?w = "\<lparr>mw_schedule = ''Mon 22:30-23:00'', mw_timezone = ''UTC'', mw_message = [], mw_disconnect_existing = False\<rparr>"
  have "mw_schedule ?w = ''Mon'' @ '' '' @ show_hhmm 1350 @ ''-'' @ show_hhmm 1380"
    by code_simp
  moreover have "to_ascii_lowercase ''Mon'' = day_name 0" by code_simp
  ultimately show ?thesis
    using maintenance_window_exact [of "''Mon''" 1350 1380 ?w
        "\<lparr>parse_datetime = (\<lambda>_. None), parse_key_base64 = (\<lambda>_. None :: unit option), weekday_of = (\<lambda>_. 0), minute_of_day = (\<lambda>_. 1350)\<rparr>" 0]
    by (simp add: Let_def)
qed

lemma scheduler_authoritative:
  "windows \<noteq> [] \<Longrightarrow> srv_maintenance (maintenance_tick U windows now taken S) = list_ex (mw_is_active U now) windows"
  by (simp add: maintenance_tick_def toggle_maintenance_def Let_def)

end
