(* ===== verification/Observe_Engine.thy ===== *)
theory Observe_Engine
  imports Server
begin

text \<open>
  What the security manager, the proxy engine and the relay tell the audit log and the metrics while they work
  (the calls in \<open>src/security/ban.rs\<close>, \<open>src/proxy/mod.rs\<close>, \<open>src/proxy/connector.rs\<close> and
  \<open>src/proxy/forwarder.rs\<close>). Each operation is given once more with its calls as a second result, in their order;
  that it otherwise does what the model without the calls does is proved for each.
\<close>

subsection \<open>Calls\<close>

text \<open>A call of a \<open>log_*\<close> method, with the correlation id where the method takes one.\<close>

datatype audit_call =
  LogConnectionNew socket_addr string string
| LogConnectionClosed socket_addr string string
| LogAuthSuccess string socket_addr string string
| LogAuthFailure string socket_addr string string
| LogSessionAuthenticated string socket_addr string string string
| LogRateLimitExceeded string socket_addr string string
| LogQuotaExceeded string string u64 u64
| LogProxyComplete string string u16 u64 u64 u64 socket_addr "string option" string
| LogAclDeny string string u16 "string option" string "string option" string
| LogBanCreated ipaddr u64
| LogBanExpired ipaddr

fun audit_call_event :: "int \<Rightarrow> audit_call \<Rightarrow> audit_event" where
  "audit_call_event now (LogConnectionNew peer proto cid) = connection_new now (Some cid) peer proto"
| "audit_call_event now (LogConnectionClosed peer proto cid) = connection_closed now (Some cid) peer proto"
| "audit_call_event now (LogAuthSuccess u peer m cid) = auth_success now (Some cid) u peer m"
| "audit_call_event now (LogAuthFailure u peer m cid) = auth_failure now (Some cid) u peer m"
| "audit_call_event now (LogSessionAuthenticated u peer proto m cid) = session_authenticated now (Some cid) u peer proto m"
| "audit_call_event now (LogRateLimitExceeded u peer l cid) = rate_limit_exceeded now (Some cid) u peer l"
| "audit_call_event now (LogQuotaExceeded u q cur lim) = quota_exceeded now None u q cur lim"
| "audit_call_event now (LogProxyComplete u h p bu bd ms peer ip cid) = proxy_complete now (Some cid) u h p bu bd ms peer ip"
| "audit_call_event now (LogAclDeny u h p ip src rule why) = acl_deny now None u h p ip src rule why"
| "audit_call_event now (LogBanCreated ip secs) = ban_created now ip secs"
| "audit_call_event now (LogBanExpired ip) = ban_expired now ip"

text \<open>A call to the audit log or to the metrics.\<close>

datatype 'f observation = Audited audit_call | Measured "'f metrics_op"

text \<open>What the calls do to the two services; \<open>now\<close> and \<open>taken\<close> give the time stamp of the \<open>i\<close>-th audit record and what the
  writer takes meanwhile.\<close>

fun observe_all ::
  "('f, 'x) f64_ops_scheme \<Rightarrow> (nat \<Rightarrow> int) \<Rightarrow> (nat \<Rightarrow> nat) \<Rightarrow> 'f observation list \<Rightarrow> audit_logger \<times> 'f metrics \<Rightarrow> audit_logger \<times> 'f metrics" where
  "observe_all F now taken [] s = s"
| "observe_all F now taken (Audited c # os) (A, M) =
     observe_all F (now \<circ> Suc) (taken \<circ> Suc) os (log_event (taken 0) (audit_call_event (now 0) c) A, M)"
| "observe_all F now taken (Measured m # os) (A, M) = observe_all F now taken os (A, metrics_step F m M)"

definition audits :: "'f observation list \<Rightarrow> audit_call list" where
  "audits os = concat (map (\<lambda>ob. case ob of Audited c \<Rightarrow> [c] | Measured _ \<Rightarrow> []) os)"

definition measures :: "'f observation list \<Rightarrow> 'f metrics_op list" where
  "measures os = concat (map (\<lambda>ob. case ob of Audited _ \<Rightarrow> [] | Measured m \<Rightarrow> [m]) os)"

lemma audits_simps [simp]:
  "audits [] = []" "audits (Audited c # os) = c # audits os" "audits (Measured m # os) = audits os"
  "audits (os @ os') = audits os @ audits os'"
  by (simp_all add: audits_def)

lemma measures_simps [simp]:
  "measures [] = []" "measures (Audited c # os) = measures os" "measures (Measured m # os) = m # measures os"
  "measures (os @ os') = measures os @ measures os'"
  by (simp_all add: measures_def)

lemma observe_all_metrics: "snd (observe_all F now taken os (A, M)) = fold (metrics_step F) (measures os) M"
  by (induction F now taken os "(A, M)" arbitrary: A M rule: observe_all.induct) auto

text \<open>The port of the peer and the correlation id of the connection.\<close>

record conn_tag =
  tag_port :: u16
  tag_cid :: string

subsection \<open>Bans\<close>

definition record_failure_obs ::
  "('net, 'x) ipnet_ops_scheme \<Rightarrow> instant \<Rightarrow> ipaddr \<Rightarrow> 'net ban_manager \<Rightarrow> 'net ban_manager \<times> 'f observation list" where
  "record_failure_obs N now ip B =
     (if \<not> ban_enabled B \<or> is_whitelisted N B ip then (B, [])
      else if \<not> dm_contains (failures B) ip \<and> length (failures B) \<ge> 100000 then (B, [])
      else
        (let (m, fs) = dm_entry ip [] (failures B);
             fs' = push_failure (threshold B) (window B) now fs in
         if length fs' \<ge> unat (threshold B)
         then (B\<lparr>failures := dm_insert ip [] m, bans := dm_insert ip (now + ban_duration B) (bans B)\<rparr>,
               [Audited (LogBanCreated ip (of_nat (ban_duration B div from_secs 1)))])
         else (B\<lparr>failures := dm_insert ip fs' m\<rparr>, [])))"

definition is_banned_obs ::
  "('net, 'x) ipnet_ops_scheme \<Rightarrow> instant \<Rightarrow> ipaddr \<Rightarrow> 'net ban_manager \<Rightarrow> 'net ban_manager \<times> bool \<times> 'f observation list" where
  "is_banned_obs N now ip B =
     (if \<not> ban_enabled B \<or> is_whitelisted N B ip then (B, False, [])
      else case map_of (bans B) ip of
        Some expiry \<Rightarrow>
          if now \<ge> expiry then (B\<lparr>bans := dm_remove ip (bans B)\<rparr>, False, [Audited (LogBanExpired ip)]) else (B, True, [])
      | None \<Rightarrow> (B, False, []))"

definition record_auth_failure_obs ::
  "('net, 'x) ipnet_ops_scheme \<Rightarrow> instant \<Rightarrow> ipaddr \<Rightarrow> ('net, 'l, 'f) security_manager
     \<Rightarrow> ('net, 'l, 'f) security_manager \<times> 'f observation list" where
  "record_auth_failure_obs N now ip S =
     (let (B, os) = record_failure_obs N now (normalize_ip ip) (ban_mgr S) in (S\<lparr>ban_mgr := B\<rparr>, os))"

lemma record_failure_obs_fst [simp]: "fst (record_failure_obs N now ip B) = record_failure N now ip B"
  by (simp add: record_failure_obs_def record_failure_def Let_def case_prod_beta)

lemma is_banned_obs_fst [simp]:
  "fst (is_banned_obs N now ip B) = fst (is_banned N now ip B)" "fst (snd (is_banned_obs N now ip B)) = snd (is_banned N now ip B)"
  by (simp_all add: is_banned_obs_def is_banned_def split: option.split)

lemma record_auth_failure_obs_fst [simp]: "fst (record_auth_failure_obs N now ip S) = record_auth_failure N now ip S"
  by (simp add: record_auth_failure_obs_def record_auth_failure_def Let_def case_prod_beta)

definition pre_auth_check_obs ::
  "('net, 'x) ipnet_ops_scheme \<Rightarrow> ('l, 'y) governor_ops_scheme \<Rightarrow> ('f, 'z) f64_ops_scheme \<Rightarrow> instant \<Rightarrow> ipaddr
     \<Rightarrow> ('net, 'l, 'f) security_manager \<Rightarrow> ('net, 'l, 'f) security_manager \<times> (string + unit) \<times> 'f observation list" where
  "pre_auth_check_obs N G F now ip S =
     (let normalized = normalize_ip ip;
          (S1, limited) =
            (if list_ex (\<lambda>net. net_contains N net normalized) (ban_whitelist S) then (S, False)
             else (let (L, ok) = ip_limiter_check G now normalized (ip_limiter S) in (S\<lparr>ip_limiter := L\<rparr>, \<not> ok))) in
      if limited then (S1, Inl ''IP rate limit exceeded'', [])
      else if \<not> check_source_ip N ip S1 then (S1, Inl ''disallowed source IP'', [])
      else
        (let (B, banned, os) = is_banned_obs N now normalized (ban_mgr S1); S2 = S1\<lparr>ban_mgr := B\<rparr> in
         if banned then (S2, Inl ''banned IP'', os)
         else if should_ban F now normalized (reputation S2) then (S2, Inl ''IP reputation too low'', os)
         else (S2, Inr (), os)))"

lemma pre_auth_check_obs_fst [simp]:
  "fst (pre_auth_check_obs N G F now ip S) = fst (pre_auth_check N G F now ip S)"
  "fst (snd (pre_auth_check_obs N G F now ip S)) = snd (pre_auth_check N G F now ip S)"
  by (simp_all add: pre_auth_check_obs_def pre_auth_check_def sec_is_banned_def Let_def case_prod_beta)

text \<open>A failure that changes the bans is audited, with the address and the duration; what is audited is in force.\<close>

lemma ban_audited:
  "bans (record_failure N now ip B) \<noteq> bans B \<Longrightarrow>
     snd (record_failure_obs N now ip B) = [Audited (LogBanCreated ip (of_nat (ban_duration B div from_secs 1)))]"
  "snd (record_failure_obs N now ip B) \<noteq> [] \<Longrightarrow> map_of (bans (record_failure N now ip B)) ip = Some (now + ban_duration B)"
  by (auto simp: record_failure_obs_def record_failure_def Let_def case_prod_beta split: if_splits)

lemma expiry_audited:
  "snd (snd (is_banned_obs N now ip B)) =
     (if bans (fst (is_banned N now ip B)) = bans B then [] else [Audited (LogBanExpired ip)])"
  by (auto simp: is_banned_obs_def is_banned_def split: option.split dest: arg_cong [where f = "\<lambda>m. map_of m ip"])

subsection \<open>Connecting\<close>

definition connect_with_cache_obs ::
  "network \<Rightarrow> string \<Rightarrow> u16 \<Rightarrow> nat \<Rightarrow> bool \<Rightarrow> dns_cache \<Rightarrow> dns_cache \<times> (conn_error + socket_addr) \<times> 'f observation list" where
  "connect_with_cache_obs W host port timeout_secs guarded D =
     (if port = 0 then (D, Inl (bail_with ''port 0 is not allowed''), [])
      else
        (let (D1, cached) = dns_get (clock_get W) (cache_key host port) guarded D in
         case cached of
           Some as \<Rightarrow> (D1, connect_to_addrs W as timeout_secs host port, [Measured OpDnsHit])
         | None \<Rightarrow>
             (case resolve_and_check W host port timeout_secs guarded of
                Inl e \<Rightarrow> (D1, Inl e, [Measured OpDnsMiss])
              | Inr as \<Rightarrow> (dns_insert (clock_insert W) (cache_key host port) as None D1,
                            connect_to_addrs W as timeout_secs host port, [Measured OpDnsMiss]))))"

lemma connect_with_cache_obs_fst [simp]:
  "fst (connect_with_cache_obs W host port t g D) = fst (connect_with_cache W host port t g D)"
  "fst (snd (connect_with_cache_obs W host port t g D)) = snd (connect_with_cache W host port t g D)"
  by (simp_all add: connect_with_cache_obs_def connect_with_cache_def Let_def case_prod_beta split: option.split sum.split)

definition connect_checked_obs ::
  "('net, 'x) ipnet_ops_scheme \<Rightarrow> network \<Rightarrow> engine_config \<Rightarrow> string \<Rightarrow> string \<Rightarrow> u16 \<Rightarrow> 'net parsed_acl \<Rightarrow> string \<Rightarrow> u32
     \<Rightarrow> parsed_upstream_proxy option \<Rightarrow> engine
     \<Rightarrow> engine \<times> (conn_error + target_stream \<times> socket_addr \<times> string) \<times> 'f observation list" where
  "connect_checked_obs N W cfg username host port user_acl source_ip max_per_user upstream G =
     (let pre = pre_check_hostname_and_log N user_acl host port in
      if \<not> allowed pre then
        (G, Inl (acl_denied host port),
         [Audited (LogAclDeny username host port None source_ip (matched_rule pre) ''hostname pre-check'')])
      else (case acquire_connection (max_connections cfg) username max_per_user (eng_slots G) of
          (S, Inl e) \<Rightarrow> (G\<lparr>eng_slots := S\<rparr>, Inl (bail_with (acquire_message e)), [])
        | (S, Inr grd) \<Rightarrow>
            (let G1 = G\<lparr>eng_slots := S\<rparr> in
             case upstream of
               Some proxy \<Rightarrow>
                 (case snd (connect_via_socks5 W proxy host port (from_secs (connection_timeout cfg))) of
                    Inl e \<Rightarrow> (release grd G1, Inl e, [])
                  | Inr rest \<Rightarrow> (G1, Inr (Tunnel rest, (V4 0 0 0 0, 0), grd), []))
             | None \<Rightarrow>
                 (case connect_with_cache_obs W host port (connection_timeout cfg) (ip_guard_enabled cfg) (eng_dns G1) of
                    (D, Inl e, os) \<Rightarrow> (release grd (G1\<lparr>eng_dns := D\<rparr>), Inl e, os)
                  | (D, Inr resolved, os) \<Rightarrow>
                      (let post = check_and_log N user_acl host port (Some (fst resolved)) in
                       if \<not> allowed post
                       then (release grd (G1\<lparr>eng_dns := D\<rparr>), Inl (acl_denied host port),
                             os @ [Audited (LogAclDeny username host port (Some (show_ip (fst resolved))) source_ip
                               (matched_rule post) ''post-check'')])
                       else (G1\<lparr>eng_dns := D\<rparr>, Inr (Direct resolved, resolved, grd), os))))))"

lemma connect_checked_obs_fst [simp]:
  "fst (connect_checked_obs N W cfg u host port acl src m up G) = fst (connect_checked N W cfg u host port acl m up G)"
  "fst (snd (connect_checked_obs N W cfg u host port acl src m up G)) = snd (connect_checked N W cfg u host port acl m up G)"
  by (simp_all add: connect_checked_obs_def connect_checked_def Let_def case_prod_beta split: option.split sum.split)

subsection \<open>Relaying\<close>

text \<open>The relay audits the quota that ends a direction, under the name it relays for.\<close>

definition chunk_delay_obs ::
  "chrono_ops \<Rightarrow> ('f, 'x) f64_ops_scheme \<Rightarrow> nat \<Rightarrow> relay_config \<Rightarrow> u64 \<Rightarrow> relay_env \<Rightarrow> relay_env \<times> duration option \<times> 'f observation list" where
  "chunk_delay_obs C F now cfg n E =
     (case (env_tracker E, env_cached E) of
        (Some T, Some u) \<Rightarrow>
          (case record_bytes_cached C F now (user_view C now u T) n (per_conn_bandwidth_kbps cfg)
                  (aggregate_bandwidth_kbps cfg) (relay_quotas cfg) T of
             (T1, st, QuotaOk d) \<Rightarrow> (E\<lparr>env_tracker := Some (put_user u st T1)\<rparr>, Some d, [])
           | (T1, st, Exceeded reason) \<Rightarrow>
               (E\<lparr>env_tracker := Some (put_user u st T1)\<rparr>, None,
                case relay_username cfg of Some name \<Rightarrow> [Audited (LogQuotaExceeded name reason 0 0)] | None \<Rightarrow> []))
      | _ \<Rightarrow> (let (E', d) = chunk_delay C F now cfg n E in (E', d, [])))"

definition direction_step_obs ::
  "chrono_ops \<Rightarrow> ('f, 'x) f64_ops_scheme \<Rightarrow> relay_config \<Rightarrow> bool \<Rightarrow> relay_event \<Rightarrow> relay_env \<times> direction
     \<Rightarrow> (relay_env \<times> direction) \<times> 'f observation list" where
  "direction_step_obs C F cfg upload ev s =
     (let (now, waited, e) = ev; (E, d) = s in
      if \<not> running d then ((E, d), [])
      else if waited > effective_timeout (idle_timeout cfg) then ((E, d\<lparr>running := False\<rparr>), [])
      else case e of
        ReadError \<Rightarrow> ((E, d\<lparr>running := False\<rparr>), [])
      | Chunk bs write_ok \<Rightarrow>
          if bs = [] \<or> \<not> write_ok then ((E, d\<lparr>running := False\<rparr>), [])
          else
            (let n = of_nat (length bs);
                 d1 = d\<lparr>total := total d + n, forwarded := forwarded d @ bs\<rparr>;
                 E1 = E\<lparr>env_session := map_option (count_session upload n) (env_session E)\<rparr> in
             case chunk_delay_obs C F now cfg n E1 of
               (E2, None, os) \<Rightarrow> ((E2, d1\<lparr>running := False\<rparr>), os)
             | (E2, Some delay, os) \<Rightarrow> ((E2, if delay = 0 then d1 else d1\<lparr>slept := slept d1 @ [delay]\<rparr>), os)))"

definition relay_step_obs ::
  "chrono_ops \<Rightarrow> ('f, 'x) f64_ops_scheme \<Rightarrow> relay_config \<Rightarrow> bool \<times> relay_event \<Rightarrow> relay_state \<times> 'f observation list
     \<Rightarrow> relay_state \<times> 'f observation list" where
  "relay_step_obs C F cfg ev s =
     (let (upload, e) = ev; ((E, up, down), os) = s in
      if upload then (case direction_step_obs C F cfg True e (E, up) of ((E', up'), os') \<Rightarrow> ((E', up', down), os @ os'))
      else (case direction_step_obs C F cfg False e (E, down) of ((E', down'), os') \<Rightarrow> ((E', up, down'), os @ os')))"

definition relay_obs ::
  "chrono_ops \<Rightarrow> ('f, 'x) f64_ops_scheme \<Rightarrow> nat \<Rightarrow> relay_config \<Rightarrow> quota_tracker option \<Rightarrow> live_session option
     \<Rightarrow> (bool \<times> relay_event) list \<Rightarrow> (relay_env \<times> u64 \<times> u64) \<times> 'f observation list" where
  "relay_obs C F now cfg qt session evs =
     (case fold (relay_step_obs C F cfg) evs (relay_start C now cfg qt session, []) of
        ((E, up, down), os) \<Rightarrow> ((E, total up, total down), os))"

lemma chunk_delay_obs_fst [simp]:
  "fst (chunk_delay_obs C F now cfg n E) = fst (chunk_delay C F now cfg n E)"
  "fst (snd (chunk_delay_obs C F now cfg n E)) = snd (chunk_delay C F now cfg n E)"
  by (auto simp: chunk_delay_obs_def chunk_delay_def Let_def case_prod_beta split: option.split quota_result.split)

lemma direction_step_obs_fst [simp]: "fst (direction_step_obs C F cfg upload ev s) = direction_step C F cfg upload ev s"
  by (auto simp: direction_step_obs_def direction_step_def Let_def case_prod_beta split: read_event.split option.split)

lemma relay_step_obs_fst: "fst (relay_step_obs C F cfg ev s) = relay_step C F cfg ev (fst s)"
  by (simp add: relay_step_obs_def relay_step_def Let_def case_prod_beta)

lemma relay_run_obs_fst: "fst (fold (relay_step_obs C F cfg) evs s) = fold (relay_step C F cfg) evs (fst s)"
  by (induction evs arbitrary: s) (simp_all add: relay_step_obs_fst)

lemma relay_obs_fst [simp]: "fst (relay_obs C F now cfg qt session evs) = relay C F now cfg qt session evs"
  using relay_run_obs_fst [of C F cfg evs "(relay_start C now cfg qt session, [])"]
  by (simp add: relay_obs_def relay_def case_prod_beta)

definition register_session_obs ::
  "nat \<Rightarrow> string \<Rightarrow> string \<Rightarrow> u16 \<Rightarrow> string \<Rightarrow> string \<Rightarrow> engine \<Rightarrow> engine \<times> live_session \<times> 'f observation list" where
  "register_session_obs now username host port source proto G =
     (let (G1, session) = register_session now username host port source proto G in (G1, session, [Measured OpConnection]))"

definition connect_and_relay_obs ::
  "('net, 'x) ipnet_ops_scheme \<Rightarrow> network \<Rightarrow> chrono_ops \<Rightarrow> ('f, 'y) f64_ops_scheme \<Rightarrow> engine_config \<Rightarrow> nat
     \<Rightarrow> (bool \<times> relay_event) list \<Rightarrow> 'net ssh_relay_request \<Rightarrow> engine
     \<Rightarrow> engine \<times> quota_tracker option \<times> (conn_error + u64 \<times> u64 \<times> socket_addr) \<times> 'f observation list" where
  "connect_and_relay_obs N W C F cfg now evs req G =
     (case connect_checked_obs N W cfg (req_username req) (req_host req) (req_port req) (req_user_acl req) (req_source_ip req)
             (req_max_per_user req) (req_upstream_proxy req) G of
        (G1, Inl e, os) \<Rightarrow> (G1, req_quota_tracker req, Inl e, os)
      | (G1, Inr (_, resolved, grd), os) \<Rightarrow>
          (let (G2, session, os1) = register_session_obs now (req_username req) (req_host req) (req_port req) (req_source_ip req) ''ssh'' G1;
               relay_cfg = \<lparr>idle_timeout = from_secs (limits_idle_timeout cfg),
                 per_conn_bandwidth_kbps = req_bandwidth_limit_kbps req,
                 aggregate_bandwidth_kbps = req_aggregate_bandwidth_kbps req,
                 relay_username = Some (req_username req), relay_quotas = req_quotas req\<rparr>;
               ((E, up, down), os2) = relay_obs C F now relay_cfg (req_quota_tracker req) (Some session) evs
           in (release grd (unregister_session (session_id session) G2), env_tracker E, Inr (up, down, resolved), os @ os1 @ os2)))"

lemma connect_and_relay_obs_fst [simp]:
  "fst (connect_and_relay_obs N W C F cfg now evs req G) = fst (connect_and_relay N W C F cfg now evs req G)"
  "fst (snd (connect_and_relay_obs N W C F cfg now evs req G)) = fst (snd (connect_and_relay N W C F cfg now evs req G))"
  "fst (snd (snd (connect_and_relay_obs N W C F cfg now evs req G))) = snd (snd (connect_and_relay N W C F cfg now evs req G))"
  by (simp_all add: connect_and_relay_def connect_and_relay_obs_def register_session_obs_def Let_def case_prod_beta split: sum.split)

text \<open>A direction is stopped by a quota exactly when the excess is audited; each direction audits at most one.\<close>

lemma quota_stop_audited:
  assumes "direction_step_obs C F cfg upload ev (E, d) = ((E', d'), os)" and "relay_username cfg = Some name"
    and "os \<noteq> []"
  shows "\<exists>reason. os = [Audited (LogQuotaExceeded name reason 0 0)] \<and> running d \<and> \<not> running d'"
  using assms
  by (auto simp: direction_step_obs_def chunk_delay_obs_def Let_def case_prod_beta split: if_splits read_event.splits option.splits
      quota_result.splits)

subsection \<open>Kinds of calls\<close>

fun is_login_call :: "audit_call \<Rightarrow> bool" where
  "is_login_call (LogAuthSuccess _ _ _ _) = True"
| "is_login_call (LogAuthFailure _ _ _ _) = True"
| "is_login_call (LogSessionAuthenticated _ _ _ _ _) = True"
| "is_login_call _ = False"

definition logins :: "'f observation list \<Rightarrow> audit_call list" where
  "logins os = filter is_login_call (audits os)"

lemma logins_simps [simp]:
  "logins [] = []" "logins (Measured m # os) = logins os"
  "logins (Audited c # os) = (if is_login_call c then c # logins os else logins os)" "logins (os @ os') = logins os @ logins os'"
  by (simp_all add: logins_def)

text \<open>The calls the services make on their own: neither logins nor the beginning or end of a connection.\<close>

fun is_service_call :: "audit_call \<Rightarrow> bool" where
  "is_service_call (LogBanCreated _ _) = True"
| "is_service_call (LogBanExpired _) = True"
| "is_service_call (LogAclDeny _ _ _ _ _ _ _) = True"
| "is_service_call (LogQuotaExceeded _ _ _ _) = True"
| "is_service_call (LogRateLimitExceeded _ _ _ _) = True"
| "is_service_call _ = False"

definition service_only :: "'f observation list \<Rightarrow> bool" where
  "service_only os \<longleftrightarrow> list_all is_service_call (audits os)"

lemma service_only_simps [simp]:
  "service_only []" "service_only (Measured m # os) = service_only os"
  "service_only (Audited c # os) \<longleftrightarrow> is_service_call c \<and> service_only os" "service_only (os @ os') \<longleftrightarrow> service_only os \<and> service_only os'"
  by (simp_all add: service_only_def)

lemma service_only_logins [simp]: "service_only os \<Longrightarrow> logins os = []"
  by (auto simp: service_only_def logins_def list_all_iff filter_empty_conv elim!: is_service_call.elims dest!: bspec)

lemma service_only_record_failure [simp]: "service_only (snd (record_auth_failure_obs N now ip S))"
  by (simp add: record_auth_failure_obs_def record_failure_obs_def Let_def case_prod_beta)

lemma service_only_pre_auth [simp]: "service_only (snd (snd (pre_auth_check_obs N G F now ip S)))"
  by (simp add: pre_auth_check_obs_def is_banned_obs_def Let_def case_prod_beta split: option.split)

lemma service_only_connect [simp]: "service_only (snd (snd (connect_checked_obs N W cfg u host port acl src m up G)))"
  by (auto simp: connect_checked_obs_def connect_with_cache_obs_def Let_def case_prod_beta split: option.split sum.split)

lemma service_only_direction [simp]: "service_only (snd (direction_step_obs C F cfg upload ev s))"
  by (auto simp: direction_step_obs_def chunk_delay_obs_def Let_def case_prod_beta split: read_event.split option.split quota_result.split)

lemma service_only_relay [simp]: "service_only (snd (relay_obs C F now cfg qt session evs))"
proof -
  have "service_only (snd (fold (relay_step_obs C F cfg) evs s)) = service_only (snd s)" for s
    by (induction evs arbitrary: s) (simp_all add: relay_step_obs_def Let_def case_prod_beta)
  then show ?thesis by (simp add: relay_obs_def case_prod_beta)
qed

end
