(* ===== verification/Socks_Handler.thy ===== *)
theory Socks_Handler
  imports App_Context
begin

text \<open>
  Models \<open>src/socks/handler.rs\<close>: the SOCKS5 handshake from the check of the peer to the reply, the
  classification of connection errors, and the handling of a whole connection with its relay. The
  client is the list of bytes it sends and the outcome of each write to it; the bytes written back
  are part of the result. The clock readings of a handshake are the fields of \<open>clock\<close>. The
  cancellation of a handshake by its timeout, the TLS variant, the audit records and the metrics are in
  \<open>Observe_Socks\<close>.
\<close>

subsection \<open>Error classification\<close>

definition classify_connect_error :: "conn_error \<Rightarrow> string" where
  "classify_connect_error err =
     (let msg = err_msg err in
      if contains ''ACL denied'' msg then ''acl_denied''
      else if contains ''connection limit'' msg then ''connection_refused''
      else if contains ''DNS'' msg \<or> contains ''dns'' msg \<or> contains ''lookup'' msg then ''dns_failure''
      else case err_io err of
        Some ConnectionRefused \<Rightarrow> ''connection_refused''
      | Some ConnectionReset \<Rightarrow> ''relay_error''
      | Some ConnectionAborted \<Rightarrow> ''relay_error''
      | Some TimedOut \<Rightarrow> ''connection_timeout''
      | Some _ \<Rightarrow> ''relay_error''
      | None \<Rightarrow> ''relay_error'')"

definition classify_error_reply :: "conn_error \<Rightarrow> u8" where
  "classify_error_reply err =
     (let msg = err_msg err in
      if contains ''ACL denied'' msg \<or> contains ''connection limit'' msg then REPLY_NOT_ALLOWED
      else case err_io err of
        Some ConnectionRefused \<Rightarrow> REPLY_CONNECTION_REFUSED
      | Some PermissionDenied \<Rightarrow> REPLY_NOT_ALLOWED
      | Some _ \<Rightarrow> REPLY_HOST_UNREACHABLE
      | None \<Rightarrow> REPLY_GENERAL_FAILURE)"

subsection \<open>Peers\<close>

text \<open>The client: the bytes it sends and the outcome of each write to it.\<close>

record client_peer =
  client_ip :: ipaddr
  client_ip_text :: string
  client_bytes :: "u8 list"
  client_write :: "nat \<Rightarrow> bool"

record 'net relay_info =
  ri_target :: target_stream
  ri_resolved :: socket_addr
  ri_username :: string
  ri_host :: string
  ri_port :: u16
  ri_bandwidth_limit_kbps :: u64
  ri_aggregate_bandwidth_kbps :: u64
  ri_quotas :: "quota_config option"
  ri_guard :: string

text \<open>How a handshake ends: with a relay, rejected (\<open>Ok(None)\<close>), with an error, or with a panic.\<close>

datatype 'net handshake_end = Relay "'net relay_info" | Rejected | HsError socks_error | Panic

type_synonym ('net, 'c) hs = "'c \<Rightarrow> 'c \<times> u8 list list \<times> 'net handshake_end"

subsection \<open>Phases\<close>

text \<open>The password phase: the code split off where required, the password and the code verified. The result
  is the replay map, the two verdicts, the code and the user; \<^const>\<open>None\<close> is a panic.\<close>

definition password_phase ::
  "('net, 'pk, 'h, 'cert, 'fp, 'l, 'f) libs \<Rightarrow> socks_config \<Rightarrow> nat \<Rightarrow> credentials \<Rightarrow> ('net, 'pk, 'fp) auth_service \<Rightarrow> totp_map
     \<Rightarrow> (totp_map \<times> bool \<times> bool \<times> string option \<times> ('net, 'pk) user option) option" where
  "password_phase L cfg now creds auth used =
     (let totp_required = (''socks5'' \<in> set (totp_required_for cfg));
          user_has_totp = (case map_of (user_store auth) (cred_username creds) of
             Some u \<Rightarrow> u_totp_enabled u \<and> u_totp_secret u \<noteq> None | None \<Rightarrow> False);
          split = (if totp_required \<and> user_has_totp then extract_totp_from_password (cred_password creds)
                   else Some (cred_password creds, None)) in
      case split of
        None \<Rightarrow> None
      | Some (actual_password, totp_code) \<Rightarrow>
          (let pass_ok = fst (auth_password (lib_auth L) auth (int now) (cred_username creds) actual_password);
               (used', t_ok) =
                 (if pass_ok then
                    (case totp_code of
                       Some code \<Rightarrow> verify_totp (lib_auth L) auth now (cred_username creds) code used
                     | None \<Rightarrow> (used, True))
                  else (used, False))
           in Some (used', pass_ok, t_ok, totp_code, map_of (user_store auth) (cred_username creds))))"

text \<open>The checks between authentication and the request, in their order; \<open>True\<close> lets the user through.\<close>

definition admission ::
  "('net, 'pk, 'h, 'cert, 'fp, 'l, 'f) libs \<Rightarrow> socks_config \<Rightarrow> clock \<Rightarrow> ipaddr \<Rightarrow> string \<Rightarrow> ('net, 'pk) user
     \<Rightarrow> ('net, 'pk, 'fp, 'l, 'f) app_context \<Rightarrow> ('net, 'pk, 'fp, 'l, 'f) app_context \<times> bool" where
  "admission L cfg t ip username usr ctx =
     (if \<not> is_source_ip_allowed (lib_net L) ip usr then (ctx, False)
      else if \<not> check_time_access (lib_user L) (at_access t) usr then (ctx, False)
      else
        (let (sec, rate_ok) = check_rate_limit (lib_gov L) (at_rate t) username (u_max_new_connections_per_minute usr) (security ctx);
             ctx1 = ctx\<lparr>security := sec\<rparr> in
         if \<not> rate_ok then (ctx1, False)
         else
           (let (q2, r2) = check_connection_rate (lib_chrono L) (at_quota_rate t) username (u_rate_limits usr) (limits_cfg cfg) (quota ctx1);
                ctx2 = ctx1\<lparr>quota := q2\<rparr> in
            if r2 \<noteq> Inr () then (ctx2, False)
            else
              (let (q3, r3) = record_connection (lib_chrono L) (at_quota_record t) username (u_quotas usr) (quota ctx2);
                   ctx3 = ctx2\<lparr>quota := q3\<rparr> in
               if r3 \<noteq> Inr () then (ctx3, False)
               else
                 (let (q4, r4) = check_bandwidth_quota (lib_chrono L) (at_quota_bandwidth t) username (u_quotas usr) (quota ctx3);
                      ctx4 = ctx3\<lparr>quota := q4\<rparr> in
                  if r4 \<noteq> Inr () then (ctx4, False)
                  else (ctx4, u_allow_forwarding usr))))))"

definition addr_octets :: "socket_addr \<Rightarrow> target_addr" where
  "addr_octets a =
     (case fst a of
        V4 w x y z \<Rightarrow> Ipv4 w x y z (snd a)
      | V6 s0 s1 s2 s3 s4 s5 s6 s7 \<Rightarrow>
          Ipv6 (concat (map to_be_bytes [s0, s1, s2, s3, s4, s5, s6, s7])) (snd a))"

text \<open>The request phase: the request is read, the connection made and answered. \<open>out\<close> is what was written before.\<close>

definition request_phase ::
  "('net, 'pk, 'h, 'cert, 'fp, 'l, 'f) libs \<Rightarrow> network \<Rightarrow> socks_config \<Rightarrow> client_peer \<Rightarrow> credentials \<Rightarrow> ('net, 'pk) user
     \<Rightarrow> u8 list \<Rightarrow> u8 list list \<Rightarrow> ('net, ('net, 'pk, 'fp, 'l, 'f) app_context) hs" where
  "request_phase L W cfg cl creds usr bs out ctx =
     (case read_connect_request bs of
        Inl (e, reply) \<Rightarrow> (ctx, if reply = [] then out else out @ [reply], HsError e)
      | Inr (target, _) \<Rightarrow>
          (let host = host_string target; port = target_port target;
               upstream = resolve_upstream_proxy (lib_url L) usr (engine_cfg cfg) in
           case connect_for_socks (lib_net L) W (engine_cfg cfg) (cred_username creds) host port (u_acl usr)
                  (u_max_connections usr) upstream (proxy_engine ctx) of
             (G, Inr (stream, resolved, grd)) \<Rightarrow>
               (let ctx1 = ctx\<lparr>proxy_engine := G\<rparr> in
                if \<not> client_write cl (length out) then (ctx1\<lparr>proxy_engine := release grd G\<rparr>, out, HsError UnexpectedEof)
                else (ctx1, out @ [the (send_reply REPLY_SUCCESS (addr_octets resolved))],
                   Relay \<lparr>ri_target = stream, ri_resolved = resolved, ri_username = cred_username creds, ri_host = host,
                     ri_port = port, ri_bandwidth_limit_kbps = u_max_bandwidth_kbps usr,
                     ri_aggregate_bandwidth_kbps = u_max_aggregate_bandwidth_kbps usr, ri_quotas = u_quotas usr, ri_guard = grd\<rparr>))
           | (G, Inl e) \<Rightarrow>
               (let ctx1 = ctx\<lparr>proxy_engine := G\<rparr> in
                if \<not> client_write cl (length out) then (ctx1, out, HsError UnexpectedEof)
                else (ctx1, out @ [failure_reply (classify_error_reply e)], Rejected))))"

definition auth_phase ::
  "('net, 'pk, 'h, 'cert, 'fp, 'l, 'f) libs \<Rightarrow> network \<Rightarrow> socks_config \<Rightarrow> clock \<Rightarrow> client_peer \<Rightarrow> credentials
     \<Rightarrow> u8 list \<Rightarrow> u8 list list \<Rightarrow> ('net, ('net, 'pk, 'fp, 'l, 'f) app_context) hs" where
  "auth_phase L W cfg t cl creds bs out ctx =
     (case password_phase L cfg (at_auth t) creds (auth_svc ctx) (used_codes ctx) of
        None \<Rightarrow> (ctx, out, Panic)
      | Some (used, password_ok, code_ok, totp_code, user_opt) \<Rightarrow>
          (let ctx1 = ctx\<lparr>used_codes := used\<rparr> in
           if \<not> password_ok \<or> \<not> code_ok then
             (if \<not> client_write cl (length out) then (ctx1, out, HsError UnexpectedEof)
              else (ctx1\<lparr>security := record_auth_failure (lib_net L) (at_failure t) (client_ip cl) (security ctx1)\<rparr>,
                    out @ [send_auth_result False], Rejected))
           else if \<not> client_write cl (length out) then (ctx1, out, HsError UnexpectedEof)
           else
             (let out1 = out @ [send_auth_result True] in
              case user_opt of
                None \<Rightarrow> (ctx1, out1, HsError (Bail ''user disappeared after auth''))
              | Some usr \<Rightarrow>
                  (let (ctx2, admitted) = admission L cfg t (client_ip cl) (cred_username creds) usr ctx1 in
                   if \<not> admitted then (ctx2, out1, Rejected)
                   else request_phase L W cfg cl creds usr bs out1 ctx2))))"

definition socks5_handshake ::
  "('net, 'pk, 'h, 'cert, 'fp, 'l, 'f) libs \<Rightarrow> network \<Rightarrow> socks_config \<Rightarrow> clock \<Rightarrow> client_peer
     \<Rightarrow> ('net, ('net, 'pk, 'fp, 'l, 'f) app_context) hs" where
  "socks5_handshake L W cfg t cl ctx =
     (let (sec, pre) = pre_auth_check (lib_net L) (lib_gov L) (lib_f64 L) (at_pre_auth t) (client_ip cl) (security ctx);
          ctx1 = ctx\<lparr>security := sec\<rparr> in
      case pre of
        Inl reason \<Rightarrow>
          (ctx1, if reason = ''banned IP'' \<and> client_write cl 0 then [send_method_selection AUTH_NO_ACCEPTABLE] else [], Rejected)
      | Inr _ \<Rightarrow>
          (case read_greeting (client_bytes cl) of
             Inl (e, _) \<Rightarrow> (ctx1, [], HsError e)
           | Inr (methods, bs) \<Rightarrow>
               if \<not> client_write cl 0 then (ctx1, [], HsError UnexpectedEof)
               else if AUTH_PASSWORD \<notin> set methods then (ctx1, [send_method_selection AUTH_NO_ACCEPTABLE], Rejected)
               else (case read_credentials bs of
                  Inl (e, _) \<Rightarrow> (ctx1, [send_method_selection AUTH_PASSWORD], HsError e)
                | Inr (creds, bs') \<Rightarrow> auth_phase L W cfg t cl creds bs' [send_method_selection AUTH_PASSWORD] ctx1)))"

definition to_relay_config :: "'net relay_info \<Rightarrow> nat \<Rightarrow> relay_config" where
  "to_relay_config ri idle_timeout_secs =
     \<lparr>idle_timeout = from_secs idle_timeout_secs, per_conn_bandwidth_kbps = ri_bandwidth_limit_kbps ri,
      aggregate_bandwidth_kbps = ri_aggregate_bandwidth_kbps ri, relay_username = Some (ri_username ri),
      relay_quotas = ri_quotas ri\<rparr>"

text \<open>A whole connection: the handshake, then session, relay and the drop of the guard. The result is the bytes
  written during the handshake, how it ended, and the byte counts of the relay.\<close>

definition handle_connection ::
  "('net, 'pk, 'h, 'cert, 'fp, 'l, 'f) libs \<Rightarrow> network \<Rightarrow> socks_config \<Rightarrow> clock \<Rightarrow> string \<Rightarrow> (bool \<times> relay_event) list \<Rightarrow> client_peer
     \<Rightarrow> ('net, 'pk, 'fp, 'l, 'f) app_context
     \<Rightarrow> ('net, 'pk, 'fp, 'l, 'f) app_context \<times> u8 list list \<times> 'net handshake_end \<times> (u64 \<times> u64) option" where
  "handle_connection L W cfg t proto evs cl ctx =
     (case socks5_handshake L W cfg t cl ctx of
        (ctx1, out, Relay ri) \<Rightarrow>
          (let (G, session) = register_session (at_relay t) (ri_username ri) (ri_host ri) (ri_port ri) (client_ip_text cl) proto
                 (proxy_engine ctx1);
               (E, up, down) = relay (lib_chrono L) (lib_f64 L) (at_relay t) (to_relay_config ri (limits_idle_timeout (engine_cfg cfg)))
                 (Some (quota ctx1)) (Some session) evs;
               ctx2 = ctx1\<lparr>quota := (case env_tracker E of Some T \<Rightarrow> T | None \<Rightarrow> quota ctx1),
                           proxy_engine := release (ri_guard ri) (unregister_session (session_id session) G)\<rparr>
           in (ctx2, out, Relay ri, Some (up, down)))
      | (ctx1, out, e) \<Rightarrow> (ctx1, out, e, None))"

subsection \<open>Lemmas\<close>

lemma admission_engine [simp]:
  "proxy_engine (fst (admission L cfg t ip u usr ctx)) = proxy_engine ctx"
  "auth_svc (fst (admission L cfg t ip u usr ctx)) = auth_svc ctx"
  by (simp_all add: admission_def Let_def case_prod_beta)

lemma admission_True:
  assumes "snd (admission L cfg t ip u usr ctx)"
  shows "is_source_ip_allowed (lib_net L) ip usr \<and> check_time_access (lib_user L) (at_access t) usr \<and> u_allow_forwarding usr
     \<and> snd (check_rate_limit (lib_gov L) (at_rate t) u (u_max_new_connections_per_minute usr) (security ctx))
     \<and> snd (check_connection_rate (lib_chrono L) (at_quota_rate t) u (u_rate_limits usr) (limits_cfg cfg) (quota ctx)) = Inr ()"
  using assms by (auto simp: admission_def Let_def case_prod_beta split: if_splits)

lemma password_phase_ok:
  assumes "password_phase L cfg now creds auth used = Some (used', True, True, code, usr)"
  shows "usr = map_of (user_store auth) (cred_username creds)
     \<and> (\<exists>pw. fst (auth_password (lib_auth L) auth (int now) (cred_username creds) pw)
          \<and> (code = None \<and> pw = cred_password creds
             \<or> (\<exists>c. code = Some c \<and> extract_totp_from_password (cred_password creds) = Some (pw, Some c)
                    \<and> snd (verify_totp (lib_auth L) auth now (cred_username creds) c used))
             \<or> code = None \<and> extract_totp_from_password (cred_password creds) = Some (pw, None)))"
  using assms
  by (auto simp: password_phase_def Let_def case_prod_beta split: if_splits option.splits)

lemma request_phase_Relay:
  assumes "request_phase L W cfg cl creds usr bs out ctx = (ctx', out', Relay ri)"
  shows "\<exists>target rest G. read_connect_request bs = Inr (target, rest)
     \<and> connect_checked (lib_net L) W (engine_cfg cfg) (cred_username creds) (host_string target) (target_port target) (u_acl usr)
          (u_max_connections usr) (resolve_upstream_proxy (lib_url L) usr (engine_cfg cfg)) (proxy_engine ctx)
          = (G, Inr (ri_target ri, ri_resolved ri, ri_guard ri))
     \<and> ctx' = ctx\<lparr>proxy_engine := G\<rparr> \<and> ri_username ri = cred_username creds
     \<and> ri_host ri = host_string target \<and> ri_port ri = target_port target
     \<and> out' = out @ [the (send_reply REPLY_SUCCESS (addr_octets (ri_resolved ri)))]"
  using assms
  by (auto simp: request_phase_def connect_for_socks_def Let_def split: sum.splits prod.splits if_splits)

lemma request_phase_slots:
  assumes "request_phase L W cfg cl creds usr bs out ctx = (ctx', out', e)" and "\<And>ri. e \<noteq> Relay ri"
  shows "slot_counts (proxy_engine ctx') = slot_counts (proxy_engine ctx)"
proof (cases "read_connect_request bs")
  case (Inl x)
  with assms show ?thesis by (auto simp: request_phase_def split: prod.splits)
next
  case (Inr y)
  let ?h = "host_string (fst y)" and ?p = "target_port (fst y)"
  obtain G r where C: "connect_checked (lib_net L) W (engine_cfg cfg) (cred_username creds) ?h ?p (u_acl usr)
      (u_max_connections usr) (resolve_upstream_proxy (lib_url L) usr (engine_cfg cfg)) (proxy_engine ctx) = (G, r)"
    by (metis prod.collapse)
  show ?thesis
  proof (cases r)
    case (Inl err)
    with C Inr assms connect_checked_fail show ?thesis
      by (auto simp: request_phase_def connect_for_socks_def Let_def case_prod_beta split: if_splits)
  next
    case (Inr z)
    obtain st a g where z: "z = (st, a, g)" by (metis prod_cases3)
    have "slot_counts (release g G) = slot_counts (proxy_engine ctx)"
      using release_acquired [OF connect_checked_success [OF C [unfolded Inr z]]] by simp
    with C Inr z assms \<open>read_connect_request bs = Inr y\<close> show ?thesis
      by (auto simp: request_phase_def connect_for_socks_def Let_def case_prod_beta split: if_splits)
  qed
qed

lemma auth_phase_slots:
  assumes "auth_phase L W cfg t cl creds bs out ctx = (ctx', out', e)" and "\<And>ri. e \<noteq> Relay ri"
  shows "slot_counts (proxy_engine ctx') = slot_counts (proxy_engine ctx)"
proof -
  have "slot_counts (proxy_engine ctx') = slot_counts (proxy_engine ctx)"
    if "request_phase L W cfg cl creds usr bs (out @ [send_auth_result True])
          (fst (admission L cfg t (client_ip cl) (cred_username creds) usr (ctx\<lparr>used_codes := used\<rparr>))) = (ctx', out', e)" for usr used
    using request_phase_slots [OF that assms(2)] by simp
  moreover have "proxy_engine (fst (admission L cfg t (client_ip cl) (cred_username creds) usr (ctx\<lparr>used_codes := used\<rparr>))) = proxy_engine ctx"
    for usr used by simp
  ultimately show ?thesis
    using assms(1) unfolding auth_phase_def Let_def case_prod_beta
    by (auto split: option.splits if_splits)
qed

lemma socks5_handshake_slots:
  assumes "socks5_handshake L W cfg t cl ctx = (ctx', out', e)" and "\<And>ri. e \<noteq> Relay ri"
  shows "slot_counts (proxy_engine ctx') = slot_counts (proxy_engine ctx)"
proof -
  have "slot_counts (proxy_engine ctx') = slot_counts (proxy_engine ctx)"
    if "auth_phase L W cfg t cl creds bs out (ctx\<lparr>security := sec\<rparr>) = (ctx', out', e)" for creds bs out sec
    using auth_phase_slots [OF that assms(2)] by simp
  then show ?thesis
    using assms(1) unfolding socks5_handshake_def Let_def case_prod_beta
    by (auto split: sum.splits prod.splits if_splits)
qed

text \<open>What precedes a relay: the greeting, the credentials, and the authentication that let the request phase run.\<close>

lemma socks5_handshake_Relay:
  assumes "socks5_handshake L W cfg t cl ctx = (ctx', out, Relay ri)"
  obtains methods bs creds bs' used code usr ctx2 where
    "snd (pre_auth_check (lib_net L) (lib_gov L) (lib_f64 L) (at_pre_auth t) (client_ip cl) (security ctx)) = Inr ()"
    "read_greeting (client_bytes cl) = Inr (methods, bs)" "AUTH_PASSWORD \<in> set methods" "read_credentials bs = Inr (creds, bs')"
    "password_phase L cfg (at_auth t) creds (auth_svc ctx) (used_codes ctx) = Some (used, True, True, code, Some usr)"
    "snd (admission L cfg t (client_ip cl) (cred_username creds) usr ctx2)" "proxy_engine ctx2 = proxy_engine ctx"
    "request_phase L W cfg cl creds usr bs' [send_method_selection AUTH_PASSWORD, send_auth_result True]
       (fst (admission L cfg t (client_ip cl) (cred_username creds) usr ctx2)) = (ctx', out, Relay ri)"
proof -
  let ?P = "pre_auth_check (lib_net L) (lib_gov L) (lib_f64 L) (at_pre_auth t) (client_ip cl) (security ctx)"
  let ?c = "ctx\<lparr>security := fst ?P\<rparr>"
  from assms obtain methods bs creds bs' where pre: "snd ?P = Inr ()"
    "read_greeting (client_bytes cl) = Inr (methods, bs)" "AUTH_PASSWORD \<in> set methods" "read_credentials bs = Inr (creds, bs')"
    and A: "auth_phase L W cfg t cl creds bs' [send_method_selection AUTH_PASSWORD] ?c = (ctx', out, Relay ri)"
    unfolding socks5_handshake_def Let_def case_prod_beta
    by (auto split: sum.splits prod.splits if_splits)
  from A obtain used code usr where ph: "password_phase L cfg (at_auth t) creds (auth_svc ctx) (used_codes ctx) = Some (used, True, True, code, Some usr)"
    and adm: "snd (admission L cfg t (client_ip cl) (cred_username creds) usr (?c\<lparr>used_codes := used\<rparr>))"
    and req: "request_phase L W cfg cl creds usr bs' [send_method_selection AUTH_PASSWORD, send_auth_result True]
       (fst (admission L cfg t (client_ip cl) (cred_username creds) usr (?c\<lparr>used_codes := used\<rparr>))) = (ctx', out, Relay ri)"
    unfolding auth_phase_def Let_def case_prod_beta
    by (auto split: option.splits if_splits)
  show thesis by (rule that [OF pre ph adm _ req]) simp
qed

lemma socks5_handshake_acquired:
  assumes "socks5_handshake L W cfg t cl ctx = (ctx', out, Relay ri)"
  shows "\<exists>u m. acquire_connection (max_connections (engine_cfg cfg)) u m (eng_slots (proxy_engine ctx))
     = (eng_slots (proxy_engine ctx'), Inr (ri_guard ri))"
  using assms
proof (rule socks5_handshake_Relay)
  fix bs' creds usr ctx2
  assume eng: "proxy_engine ctx2 = proxy_engine ctx"
    and req: "request_phase L W cfg cl creds usr bs' [send_method_selection AUTH_PASSWORD, send_auth_result True]
       (fst (admission L cfg t (client_ip cl) (cred_username creds) usr ctx2)) = (ctx', out, Relay ri)"
  from request_phase_Relay [OF req] obtain target G where
    conn: "connect_checked (lib_net L) W (engine_cfg cfg) (cred_username creds) (host_string target) (target_port target) (u_acl usr)
          (u_max_connections usr) (resolve_upstream_proxy (lib_url L) usr (engine_cfg cfg)) (proxy_engine ctx)
          = (G, Inr (ri_target ri, ri_resolved ri, ri_guard ri))" and "proxy_engine ctx' = G"
    by (auto simp: eng)
  with connect_checked_success [OF conn] show ?thesis by blast
qed

subsection \<open>A concrete client\<close>

text \<open>A client that logs in as \<open>al\<close> with the given password and asks for \<open>example.org:80\<close>.\<close>

definition sample_client :: "string \<Rightarrow> client_peer" where
  "sample_client pw = \<lparr>client_ip = V4 192 0 2 7, client_ip_text = ''192.0.2.7'',
     client_bytes = [5, 1, 2] @ client_auth ''al'' pw @ client_connect ''example.org'' 80, client_write = (\<lambda>_. True)\<rparr>"

fun is_relay :: "'net handshake_end \<Rightarrow> bool" where
  "is_relay (Relay _) = True"
| "is_relay _ = False"

lemma sample_greeting: "read_greeting ([5, 1, 2] @ rest) = Inr ([2], rest)"
  by (rule greeting_codec.roundtrip) simp_all

lemma sample_credentials:
  assumes "wf_field name" and "wf_field pw"
  shows "read_credentials (client_auth name pw @ rest) = Inr (\<lparr>cred_username = name, cred_password = pw\<rparr>, rest)"
  using assms
  by (intro credentials_codec.roundtrip) (simp_all add: wf_credentials_def credentials_encoding_def client_auth_def wf_field_def)

lemma sample_admission:
  assumes "server_conn_per_second (quota ctx) = None" and "server_conn_per_minute (quota ctx) = None"
  shows "snd (admission sample_libs sample_socks_config sample_clock ip u sample_user ctx)"
  using assms
  by (simp add: admission_def sample_user_def is_source_ip_allowed_def check_time_access_def check_rate_limit_def
      user_limiter_check_def check_connection_rate_def limiter_full_def user_rate_check_def record_connection_def
      connection_quota_error_def check_bandwidth_quota_def Let_def case_prod_beta)

lemma sample_request:
  assumes "proxy_engine ctx = engine_new sample_engine_config" and "cred_username creds = u"
  shows "is_relay (snd (snd (request_phase sample_libs sample_network sample_socks_config (sample_client pw) creds sample_user
     (client_connect ''example.org'' 80) out ctx)))"
proof -
  have v: "validate_domain ''example.org'' = Inr ()" by code_simp
  have r: "read_connect_request (client_connect ''example.org'' 80) = Inr (Domain ''example.org'' 80, [])"
    unfolding connect_codec.dec_iff
    by (simp add: v client_connect_def connect_encoding_def SOCKS_VERSION_def CMD_CONNECT_def)
  obtain G' where "connect_checked sample_net sample_network sample_engine_config u ''example.org'' 80 sample_acl 1 None
      (engine_new sample_engine_config) = (G', Inr (Direct (V4 93 184 216 34, 80), (V4 93 184 216 34, 80), u))"
    using sample_direct by blast
  with assms r show ?thesis
    by (simp add: request_phase_def connect_for_socks_def sample_libs_def sample_user_def sample_socks_config_def
        sample_client_def resolve_upstream_proxy_def sample_engine_config_def Let_def)
qed

lemma sample_password:
  "password_phase sample_libs sample_socks_config 60 \<lparr>cred_username = ''al'', cred_password = ''pw:123456''\<rparr>
     \<lparr>user_store = [(''al'', sample_user)], trusted_cas = []\<rparr> []
   = Some ([((''al'', ''123456''), 120)], True, True, Some ''123456'', Some sample_user)"
proof -
  have "extract_totp_from_password ''pw:123456'' = Some (''pw'', Some ''123456'')" by code_simp
  then show ?thesis
    by (simp add: password_phase_def sample_libs_def sample_socks_config_def sample_user_def auth_password_def
        verify_counted_def verify_password_def sample_auth_ops_def is_expired_def verify_totp_def totp_lookup_def totp_commit_def enforce_totp_hard_cap_def MAX_TOTP_CODES_def
        dm_contains_def dm_insert_def Let_def)
qed

lemma sample_relay: "is_relay (snd (snd (socks5_handshake sample_libs sample_network sample_socks_config sample_clock
     (sample_client ''pw:123456'') sample_context)))"
proof -
  let ?out = "[send_method_selection AUTH_PASSWORD]"
  have wf: "wf_field ''al''" "wf_field ''pw:123456''"
    by (simp_all add: wf_field_def valid_utf8_ascii ascii_def)
  have ctx: "auth_svc sample_context = \<lparr>user_store = [(''al'', sample_user)], trusted_cas = []\<rparr>" "used_codes sample_context = []"
    "proxy_engine sample_context = engine_new sample_engine_config"
    "server_conn_per_second (quota sample_context) = None" "server_conn_per_minute (quota sample_context) = None"
    by (simp_all add: sample_context_def tracker_new_def sample_limits_def)
  have auth: "is_relay (snd (snd (auth_phase sample_libs sample_network sample_socks_config sample_clock (sample_client ''pw:123456'')
      \<lparr>cred_username = ''al'', cred_password = ''pw:123456''\<rparr> (client_connect ''example.org'' 80) ?out (sample_context\<lparr>security := sec\<rparr>))))" for sec
    using sample_password sample_admission sample_request
    by (simp add: auth_phase_def ctx sample_clock_def sample_client_def case_prod_beta Let_def)
  show ?thesis
    using sample_pre_auth auth sample_greeting sample_credentials [OF wf]
    by (simp add: socks5_handshake_def sample_client_def sample_libs_def sample_clock_def case_prod_beta Let_def AUTH_PASSWORD_def)
qed

subsection \<open>Properties\<close>

text \<open>C3: nobody gets a relay unauthenticated or against the policy. If the handshake ends in a relay, then the
  peer passed the check before authentication, offered the password method, and sent credentials of
  a known, unexpired user whose password hash accepts the password (all of it, or what remains when
  the code is split off); the user's source networks and access hours admit the peer, the rate
  limiter let the user through, and forwarding is allowed; the request was read from the very next
  bytes, and without an upstream proxy the access rules allow the address connected to.\<close>

theorem handshake_relay_authorised:
  assumes "socks5_handshake L W cfg t cl ctx = (ctx', out, Relay ri)"
  shows "\<exists>methods bs creds bs' usr h pw target rest.
     snd (pre_auth_check (lib_net L) (lib_gov L) (lib_f64 L) (at_pre_auth t) (client_ip cl) (security ctx)) = Inr ()
     \<and> read_greeting (client_bytes cl) = Inr (methods, bs) \<and> AUTH_PASSWORD \<in> set methods
     \<and> read_credentials bs = Inr (creds, bs') \<and> ri_username ri = cred_username creds
     \<and> map_of (user_store (auth_svc ctx)) (cred_username creds) = Some usr
     \<and> u_password_hash usr = Some h \<and> verify_password (lib_auth L) pw h \<and> \<not> is_expired (int (at_auth t)) usr
     \<and> (pw = cred_password creds \<or> (\<exists>c. extract_totp_from_password (cred_password creds) = Some (pw, c)))
     \<and> is_source_ip_allowed (lib_net L) (client_ip cl) usr \<and> check_time_access (lib_user L) (at_access t) usr
     \<and> u_allow_forwarding usr
     \<and> read_connect_request bs' = Inr (target, rest) \<and> ri_host ri = host_string target \<and> ri_port ri = target_port target
     \<and> (resolve_upstream_proxy (lib_url L) usr (engine_cfg cfg) = None \<longrightarrow>
          check (lib_net L) (u_acl usr) (ri_host ri) (ri_port ri) (Some (fst (ri_resolved ri))) = Allow
          \<and> ri_target ri = Direct (ri_resolved ri)
          \<and> (ip_guard_enabled (engine_cfg cfg) \<longrightarrow> \<not> reserved_ip (fst (ri_resolved ri))))"
  using assms
proof (rule socks5_handshake_Relay)
  fix methods bs creds bs' used code usr ctx2
  assume pre: "snd (pre_auth_check (lib_net L) (lib_gov L) (lib_f64 L) (at_pre_auth t) (client_ip cl) (security ctx)) = Inr ()"
      "read_greeting (client_bytes cl) = Inr (methods, bs)" "AUTH_PASSWORD \<in> set methods" "read_credentials bs = Inr (creds, bs')"
    and ph: "password_phase L cfg (at_auth t) creds (auth_svc ctx) (used_codes ctx) = Some (used, True, True, code, Some usr)"
    and adm: "snd (admission L cfg t (client_ip cl) (cred_username creds) usr ctx2)" "proxy_engine ctx2 = proxy_engine ctx"
    and req: "request_phase L W cfg cl creds usr bs' [send_method_selection AUTH_PASSWORD, send_auth_result True]
       (fst (admission L cfg t (client_ip cl) (cred_username creds) usr ctx2)) = (ctx', out, Relay ri)"
  obtain pw where pw: "fst (auth_password (lib_auth L) (auth_svc ctx) (int (at_auth t)) (cred_username creds) pw)"
    "pw = cred_password creds \<or> (\<exists>c. extract_totp_from_password (cred_password creds) = Some (pw, c))"
    and usr: "map_of (user_store (auth_svc ctx)) (cred_username creds) = Some usr"
    using password_phase_ok [OF ph] by auto
  from pw(1) usr obtain h where h: "u_password_hash usr = Some h" "verify_password (lib_auth L) pw h" "\<not> is_expired (int (at_auth t)) usr"
    by (auto simp: auth_password_def verify_counted_def case_prod_beta split: option.splits if_splits)
  obtain target rest G where tg: "read_connect_request bs' = Inr (target, rest)" "ri_username ri = cred_username creds"
      "ri_host ri = host_string target" "ri_port ri = target_port target"
    and conn: "connect_checked (lib_net L) W (engine_cfg cfg) (cred_username creds) (host_string target) (target_port target) (u_acl usr)
          (u_max_connections usr) (resolve_upstream_proxy (lib_url L) usr (engine_cfg cfg)) (proxy_engine ctx)
          = (G, Inr (ri_target ri, ri_resolved ri, ri_guard ri))"
    using request_phase_Relay [OF req] adm(2) by auto
  have direct: "check (lib_net L) (u_acl usr) (ri_host ri) (ri_port ri) (Some (fst (ri_resolved ri))) = Allow
      \<and> ri_target ri = Direct (ri_resolved ri) \<and> (ip_guard_enabled (engine_cfg cfg) \<longrightarrow> \<not> reserved_ip (fst (ri_resolved ri)))"
    if "resolve_upstream_proxy (lib_url L) usr (engine_cfg cfg) = None"
    using connect_checked_direct [OF conn [unfolded that]] connect_with_cache_ok tg by (metis dangerous_iff)
  show ?thesis
    by (intro exI [of _ methods] exI [of _ bs] exI [of _ creds] exI [of _ bs'] exI [of _ usr] exI [of _ h] exI [of _ pw]
        exI [of _ target] exI [of _ rest] conjI)
      (use pre usr h pw(2) admission_True [OF adm(1)] tg direct in blast)+
qed

theorem handshake_relay_authorised_witness:
  "\<exists>creds bs bs' h pw. read_credentials bs = Inr (creds, bs') \<and> u_password_hash sample_user = Some h
     \<and> verify_password (lib_auth sample_libs) pw h
     \<and> (pw = cred_password creds \<or> (\<exists>c. extract_totp_from_password (cred_password creds) = Some (pw, c)))"
proof -
  obtain ctx' out ri where R: "socks5_handshake sample_libs sample_network sample_socks_config sample_clock
     (sample_client ''pw:123456'') sample_context = (ctx', out, Relay ri)"
    using sample_relay by (metis is_relay.elims(2) prod.collapse)
  have "usr = sample_user" if "map_of (user_store (auth_svc sample_context)) u = Some usr" for u usr
    using that by (auto simp: sample_context_def split: if_splits)
  with handshake_relay_authorised [OF R] show ?thesis by metis
qed

text \<open>A connection handled to its end leaves no slot behind.\<close>

lemma handle_connection_slots:
  "slot_counts (proxy_engine (fst (handle_connection L W cfg t proto evs cl ctx))) = slot_counts (proxy_engine ctx)"
proof -
  obtain ctx1 out e where H: "socks5_handshake L W cfg t cl ctx = (ctx1, out, e)" by (metis prod_cases3)
  show ?thesis
  proof (cases "\<exists>ri. e = Relay ri")
    case False
    then have "slot_counts (proxy_engine ctx1) = slot_counts (proxy_engine ctx)" using socks5_handshake_slots [OF H] by blast
    with H False show ?thesis by (cases e) (simp_all add: handle_connection_def)
  next
    case True
    then obtain ri where e: "e = Relay ri" by blast
    have "slot_counts (release (ri_guard ri) G) = slot_counts (proxy_engine ctx)" if "eng_slots G = eng_slots (proxy_engine ctx1)" for G
      using socks5_handshake_acquired [OF H [unfolded e]] release_acquired that by blast
    then show ?thesis
      by (simp add: H e handle_connection_def Let_def case_prod_beta register_session_def unregister_session_def)
  qed
qed


text \<open>C27: the second factor can be left out over SOCKS5: where one-time codes are required and the user has them
  enabled, the plain password without any code still authenticates; no code is verified or used up.\<close>

theorem socks_second_factor_skipped:
  assumes "''socks5'' \<in> set (totp_required_for cfg)" and "map_of (user_store auth) name = Some usr"
    and "u_totp_enabled usr" and "u_totp_secret usr \<noteq> None" and "extract_totp_from_password pw = Some (pw, None)"
    and "u_password_hash usr = Some h" and "verify_password (lib_auth L) pw h" and "\<not> is_expired (int now) usr"
  shows "password_phase L cfg now \<lparr>cred_username = name, cred_password = pw\<rparr> auth used = Some (used, True, True, None, Some usr)"
  using assms by (simp add: password_phase_def auth_password_def verify_counted_def Let_def)

theorem socks_second_factor_skipped_witness:
  "password_phase sample_libs sample_socks_config 60 \<lparr>cred_username = ''al'', cred_password = ''pw''\<rparr>
     \<lparr>user_store = [(''al'', sample_user)], trusted_cas = []\<rparr> [] = Some ([], True, True, None, Some sample_user)"
proof -
  have "extract_totp_from_password ''pw'' = Some (''pw'', None)" by code_simp
  then show ?thesis
    by (intro socks_second_factor_skipped [where h = "''pw''"])
      (simp_all add: sample_socks_config_def sample_user_def sample_libs_def sample_auth_ops_def verify_password_def is_expired_def)
qed

end
