(* ===== verification/Observe_Socks.thy ===== *)
theory Observe_Socks
  imports Observe_Engine Socks_Handler
begin

text \<open>
  The SOCKS5 handler of \<open>src/socks/handler.rs\<close> with its calls to the audit log and the metrics and with the
  timeout of the handshake. A handshake that is cancelled by its timeout stops at the operation it waits for: a read
  or write of the client, or the attempt to connect. In the model that operation is one that does not succeed, and
  \<open>stalls\<close> says that it was waited for until the timeout; the code after it then does not run.
\<close>

subsection \<open>Handshake\<close>

definition peer_of :: "conn_tag \<Rightarrow> client_peer \<Rightarrow> socket_addr" where
  "peer_of g cl = (client_ip cl, tag_port g)"

datatype 'net hs_outcome = Finished "'net handshake_end" | TimedOutHs

definition finished_or_stalled :: "bool \<Rightarrow> 'net handshake_end \<Rightarrow> 'net hs_outcome" where
  "finished_or_stalled stalls e = (if stalls \<and> e = HsError UnexpectedEof then TimedOutHs else Finished e)"

definition admission_obs ::
  "('net, 'pk, 'h, 'cert, 'fp, 'l, 'f) libs \<Rightarrow> socks_config \<Rightarrow> clock \<Rightarrow> socket_addr \<Rightarrow> string \<Rightarrow> string \<Rightarrow> ('net, 'pk) user
     \<Rightarrow> ('net, 'pk, 'fp, 'l, 'f) app_context \<Rightarrow> ('net, 'pk, 'fp, 'l, 'f) app_context \<times> bool \<times> 'f observation list" where
  "admission_obs L cfg t peer cid username usr ctx =
     (if \<not> is_source_ip_allowed (lib_net L) (fst peer) usr then (ctx, False, [])
      else if \<not> check_time_access (lib_user L) (at_access t) usr then (ctx, False, [Measured (OpRejected ''time_access_denied'')])
      else
        (let (sec, rate_ok) = check_rate_limit (lib_gov L) (at_rate t) username (u_max_new_connections_per_minute usr) (security ctx);
             ctx1 = ctx\<lparr>security := sec\<rparr> in
         if \<not> rate_ok then
           (ctx1, False, [Audited (LogRateLimitExceeded username peer ''legacy_per_minute'' cid), Measured (OpRejected ''rate_limited'')])
         else
           (case check_connection_rate (lib_chrono L) (at_quota_rate t) username (u_rate_limits usr) (limits_cfg cfg) (quota ctx1) of
              (q2, Inl reason) \<Rightarrow>
                (ctx1\<lparr>quota := q2\<rparr>, False,
                 [Audited (LogRateLimitExceeded username peer reason cid), Measured (OpRejected ''rate_limited'')])
            | (q2, Inr _) \<Rightarrow>
                (case record_connection (lib_chrono L) (at_quota_record t) username (u_quotas usr) q2 of
                   (q3, Inl reason) \<Rightarrow>
                     (ctx1\<lparr>quota := q3\<rparr>, False,
                      [Audited (LogQuotaExceeded username reason 0 0), Measured (OpError ''quota_exceeded''),
                       Measured (OpRejected ''quota_exceeded'')])
                 | (q3, Inr _) \<Rightarrow>
                     (case check_bandwidth_quota (lib_chrono L) (at_quota_bandwidth t) username (u_quotas usr) q3 of
                        (q4, Inl reason) \<Rightarrow>
                          (ctx1\<lparr>quota := q4\<rparr>, False,
                           [Audited (LogQuotaExceeded username reason 0 0), Measured (OpError ''quota_exceeded''),
                            Measured (OpRejected ''quota_exceeded'')])
                      | (q4, Inr _) \<Rightarrow> (ctx1\<lparr>quota := q4\<rparr>, u_allow_forwarding usr, []))))))"

text \<open>The attempt to connect fails in the network, not at a rule or a limit.\<close>

definition connect_pending ::
  "('net, 'x) ipnet_ops_scheme \<Rightarrow> network \<Rightarrow> engine_config \<Rightarrow> string \<Rightarrow> string \<Rightarrow> u16 \<Rightarrow> 'net parsed_acl \<Rightarrow> u32
     \<Rightarrow> parsed_upstream_proxy option \<Rightarrow> engine \<Rightarrow> bool" where
  "connect_pending N W cfg username host port user_acl max_per_user upstream G \<longleftrightarrow>
     allowed (pre_check_hostname_and_log N user_acl host port)
     \<and> \<not> isl (snd (acquire_connection (max_connections cfg) username max_per_user (eng_slots G)))
     \<and> (case upstream of
          Some proxy \<Rightarrow> isl (snd (connect_via_socks5 W proxy host port (from_secs (connection_timeout cfg))))
        | None \<Rightarrow> isl (snd (connect_with_cache W host port (connection_timeout cfg) (ip_guard_enabled cfg) (eng_dns G))))"

type_synonym ('net, 'f, 'c) hs_obs = "'c \<Rightarrow> 'c \<times> u8 list list \<times> 'net hs_outcome \<times> 'f observation list"

definition request_phase_obs ::
  "('net, 'pk, 'h, 'cert, 'fp, 'l, 'f) libs \<Rightarrow> network \<Rightarrow> socks_config \<Rightarrow> bool \<Rightarrow> client_peer \<Rightarrow> credentials \<Rightarrow> ('net, 'pk) user
     \<Rightarrow> u8 list \<Rightarrow> u8 list list \<Rightarrow> ('net, 'f, ('net, 'pk, 'fp, 'l, 'f) app_context) hs_obs" where
  "request_phase_obs L W cfg stalls cl creds usr bs out ctx =
     (case read_connect_request bs of
        Inl (e, reply) \<Rightarrow> (ctx, if reply = [] then out else out @ [reply], finished_or_stalled stalls (HsError e), [])
      | Inr (target, _) \<Rightarrow>
          (let host = host_string target; port = target_port target;
               upstream = resolve_upstream_proxy (lib_url L) usr (engine_cfg cfg) in
           case connect_checked_obs (lib_net L) W (engine_cfg cfg) (cred_username creds) host port (u_acl usr)
                  (client_ip_text cl) (u_max_connections usr) upstream (proxy_engine ctx) of
             (G, Inr (stream, resolved, grd), os) \<Rightarrow>
               (let ctx1 = ctx\<lparr>proxy_engine := G\<rparr> in
                if \<not> client_write cl (length out)
                then (ctx1\<lparr>proxy_engine := release grd G\<rparr>, out, finished_or_stalled stalls (HsError UnexpectedEof), os)
                else (ctx1, out @ [the (send_reply REPLY_SUCCESS (addr_octets resolved))],
                   Finished (Relay \<lparr>ri_target = stream, ri_resolved = resolved, ri_username = cred_username creds, ri_host = host,
                     ri_port = port, ri_bandwidth_limit_kbps = u_max_bandwidth_kbps usr,
                     ri_aggregate_bandwidth_kbps = u_max_aggregate_bandwidth_kbps usr, ri_quotas = u_quotas usr, ri_guard = grd\<rparr>), os))
           | (G, Inl e, os) \<Rightarrow>
               (let ctx1 = ctx\<lparr>proxy_engine := G\<rparr> in
                if stalls \<and> connect_pending (lib_net L) W (engine_cfg cfg) (cred_username creds) host port (u_acl usr)
                     (u_max_connections usr) upstream (proxy_engine ctx)
                then (ctx1, out, TimedOutHs, os)
                else
                  (let os1 = os @ [Measured (OpError (classify_connect_error e))] in
                   if \<not> client_write cl (length out) then (ctx1, out, finished_or_stalled stalls (HsError UnexpectedEof), os1)
                   else (ctx1, out @ [failure_reply (classify_error_reply e)], Finished Rejected, os1)))))"

definition auth_phase_obs ::
  "('net, 'pk, 'h, 'cert, 'fp, 'l, 'f) libs \<Rightarrow> network \<Rightarrow> socks_config \<Rightarrow> clock \<Rightarrow> bool \<Rightarrow> conn_tag \<Rightarrow> client_peer \<Rightarrow> credentials
     \<Rightarrow> u8 list \<Rightarrow> u8 list list \<Rightarrow> ('net, 'f, ('net, 'pk, 'fp, 'l, 'f) app_context) hs_obs" where
  "auth_phase_obs L W cfg t stalls g cl creds bs out ctx =
     (case password_phase L cfg (at_auth t) creds (auth_svc ctx) (used_codes ctx) of
        None \<Rightarrow> (ctx, out, Finished Panic, [])
      | Some (used, password_ok, code_ok, totp_code, user_opt) \<Rightarrow>
          (let ctx1 = ctx\<lparr>used_codes := used\<rparr>; name = cred_username creds; peer = peer_of g cl in
           if \<not> password_ok \<or> \<not> code_ok then
             (let with_code = (totp_code \<noteq> None \<and> password_ok);
                  audit_method = (if with_code then ''socks5+totp'' else ''socks5'');
                  metric_method = (if with_code then ''totp'' else ''password'') in
              if \<not> client_write cl (length out) then (ctx1, out, finished_or_stalled stalls (HsError UnexpectedEof), [])
              else
                (let (sec, os) = record_auth_failure_obs (lib_net L) (at_failure t) (client_ip cl) (security ctx1) in
                 (ctx1\<lparr>security := sec\<rparr>, out @ [send_auth_result False], Finished Rejected,
                  os @ [Audited (LogAuthFailure name peer audit_method (tag_cid g)), Measured (OpAuthFail metric_method),
                        Measured (OpError ''auth_failure''), Measured (OpRejected ''auth_failed'')])))
           else if \<not> client_write cl (length out) then (ctx1, out, finished_or_stalled stalls (HsError UnexpectedEof), [])
           else
             (let out1 = out @ [send_auth_result True];
                  socks5_method = (if ''socks5'' \<in> set (totp_required_for cfg) \<and> totp_code \<noteq> None then ''password+totp'' else ''password'');
                  os1 = [Audited (LogAuthSuccess name peer ''socks5'' (tag_cid g)),
                         Audited (LogSessionAuthenticated name peer ''socks5'' socks5_method (tag_cid g)),
                         Measured (OpAuthSuccess name socks5_method)] in
              case user_opt of
                None \<Rightarrow> (ctx1, out1, Finished (HsError (Bail ''user disappeared after auth'')), os1)
              | Some usr \<Rightarrow>
                  (let (ctx2, admitted, os2) = admission_obs L cfg t peer (tag_cid g) name usr ctx1 in
                   if \<not> admitted then (ctx2, out1, Finished Rejected, os1 @ os2)
                   else (case request_phase_obs L W cfg stalls cl creds usr bs out1 ctx2 of
                           (ctx3, out2, e, os3) \<Rightarrow> (ctx3, out2, e, os1 @ os2 @ os3))))))"

text \<open>A banned peer is answered after its greeting was read, whatever it was; only then is it counted.\<close>

definition socks5_handshake_obs ::
  "('net, 'pk, 'h, 'cert, 'fp, 'l, 'f) libs \<Rightarrow> network \<Rightarrow> socks_config \<Rightarrow> clock \<Rightarrow> bool \<Rightarrow> conn_tag \<Rightarrow> client_peer
     \<Rightarrow> ('net, 'f, ('net, 'pk, 'fp, 'l, 'f) app_context) hs_obs" where
  "socks5_handshake_obs L W cfg t stalls g cl ctx =
     (let (sec, pre, os) = pre_auth_check_obs (lib_net L) (lib_gov L) (lib_f64 L) (at_pre_auth t) (client_ip cl) (security ctx);
          ctx1 = ctx\<lparr>security := sec\<rparr> in
      case pre of
        Inl reason \<Rightarrow>
          (let banned = (reason = ''banned IP'');
               waits = (banned \<and> (read_greeting (client_bytes cl) = Inl (UnexpectedEof, []) \<or> \<not> client_write cl 0));
               metric_reason = (if banned then ''banned'' else if contains ''rate'' reason then ''rate_limited'' else ''acl_denied'') in
           if stalls \<and> waits then (ctx1, [], TimedOutHs, os)
           else (ctx1, if banned \<and> client_write cl 0 then [send_method_selection AUTH_NO_ACCEPTABLE] else [], Finished Rejected,
                 os @ [Measured (OpRejected metric_reason)]))
      | Inr _ \<Rightarrow>
          (case read_greeting (client_bytes cl) of
             Inl (e, _) \<Rightarrow> (ctx1, [], finished_or_stalled stalls (HsError e), os)
           | Inr (methods, bs) \<Rightarrow>
               if \<not> client_write cl 0 then (ctx1, [], finished_or_stalled stalls (HsError UnexpectedEof), os)
               else if AUTH_PASSWORD \<notin> set methods then (ctx1, [send_method_selection AUTH_NO_ACCEPTABLE], Finished Rejected, os)
               else (case read_credentials bs of
                  Inl (e, _) \<Rightarrow> (ctx1, [send_method_selection AUTH_PASSWORD], finished_or_stalled stalls (HsError e), os)
                | Inr (creds, bs') \<Rightarrow>
                    (case auth_phase_obs L W cfg t stalls g cl creds bs' [send_method_selection AUTH_PASSWORD] ctx1 of
                       (ctx2, out, e, os') \<Rightarrow> (ctx2, out, e, os @ os')))))"

subsection \<open>Connections\<close>

definition log_relay_complete ::
  "('f, 'x) f64_ops_scheme \<Rightarrow> 'net relay_info \<Rightarrow> u64 \<Rightarrow> u64 \<Rightarrow> u64 \<Rightarrow> socket_addr \<Rightarrow> string \<Rightarrow> 'f observation list" where
  "log_relay_complete F ri up down duration_ms peer cid =
     [Audited (LogProxyComplete (ri_username ri) (ri_host ri) (ri_port ri) up down duration_ms peer
        (Some (show_ip (fst (ri_resolved ri)))) cid),
      Measured (OpBytes (ri_username ri) (up + down)),
      Measured (OpTypedDuration (ri_username ri) ''socks5'' (f_div F (f_of_u64 F duration_ms) (f_lit F 1000 1)))]"

text \<open>\<open>handle_connection\<close> from the address of its peer on, where \<open>proto\<close> is \<open>socks5\<close>; \<open>handle_tls_connection\<close> has the same body with \<open>socks5-tls\<close>. An error
  leaves the function at once; a timeout does not.\<close>

definition handle_connection_obs ::
  "('net, 'pk, 'h, 'cert, 'fp, 'l, 'f) libs \<Rightarrow> network \<Rightarrow> socks_config \<Rightarrow> clock \<Rightarrow> string \<Rightarrow> bool \<Rightarrow> conn_tag \<Rightarrow> u64
     \<Rightarrow> (bool \<times> relay_event) list \<Rightarrow> client_peer \<Rightarrow> ('net, 'pk, 'fp, 'l, 'f) app_context
     \<Rightarrow> ('net, 'pk, 'fp, 'l, 'f) app_context \<times> u8 list list \<times> 'net hs_outcome \<times> (u64 \<times> u64) option \<times> 'f observation list" where
  "handle_connection_obs L W cfg t proto stalls g duration_ms evs cl ctx =
     (let peer = peer_of g cl; new = Audited (LogConnectionNew peer proto (tag_cid g));
          closed = Audited (LogConnectionClosed peer proto (tag_cid g)) in
      case socks5_handshake_obs L W cfg t stalls g cl ctx of
        (ctx1, out, Finished (Relay ri), os) \<Rightarrow>
          (let (G, session, os1) = register_session_obs (at_relay t) (ri_username ri) (ri_host ri) (ri_port ri) (client_ip_text cl) proto
                 (proxy_engine ctx1);
               ((E, up, down), os2) = relay_obs (lib_chrono L) (lib_f64 L) (at_relay t) (to_relay_config ri (limits_idle_timeout (engine_cfg cfg)))
                 (Some (quota ctx1)) (Some session) evs;
               ctx2 = ctx1\<lparr>quota := (case env_tracker E of Some T \<Rightarrow> T | None \<Rightarrow> quota ctx1),
                           proxy_engine := release (ri_guard ri) (unregister_session (session_id session) G)\<rparr>
           in (ctx2, out, Finished (Relay ri), Some (up, down),
               new # os @ os1 @ os2 @ log_relay_complete (lib_f64 L) ri up down duration_ms peer (tag_cid g) @ [closed]))
      | (ctx1, out, Finished Rejected, os) \<Rightarrow> (ctx1, out, Finished Rejected, None, new # os @ [closed])
      | (ctx1, out, Finished e, os) \<Rightarrow> (ctx1, out, Finished e, None, new # os)
      | (ctx1, out, TimedOutHs, os) \<Rightarrow> (ctx1, out, TimedOutHs, None, new # os @ [closed]))"

text \<open>Both functions ask the stream for the address of its peer first. Where there is none (the client has already
  gone) the error leaves the function before any audit call: \<^const>\<open>Inl\<close> with the context as it was. What follows
  the address is \<open>handle_connection_obs\<close>.\<close>

definition with_peer_addr ::
  "('net, 'pk, 'h, 'cert, 'fp, 'l, 'f) libs \<Rightarrow> network \<Rightarrow> socks_config \<Rightarrow> clock \<Rightarrow> string \<Rightarrow> socket_addr option \<Rightarrow> bool \<Rightarrow> string \<Rightarrow> u64
     \<Rightarrow> (bool \<times> relay_event) list \<Rightarrow> client_peer \<Rightarrow> ('net, 'pk, 'fp, 'l, 'f) app_context
     \<Rightarrow> ('net, 'pk, 'fp, 'l, 'f) app_context
        + ('net, 'pk, 'fp, 'l, 'f) app_context \<times> u8 list list \<times> 'net hs_outcome \<times> (u64 \<times> u64) option \<times> 'f observation list" where
  "with_peer_addr L W cfg t proto peer_addr stalls conn_id duration_ms evs cl ctx =
     (case peer_addr of
        None \<Rightarrow> Inl ctx
      | Some (ip, port) \<Rightarrow>
          Inr (handle_connection_obs L W cfg t proto stalls \<lparr>tag_port = port, tag_cid = conn_id\<rparr> duration_ms evs
                 (cl\<lparr>client_ip := ip, client_ip_text := show_ip ip\<rparr>) ctx))"

definition handle_tcp_connection ::
  "('net, 'pk, 'h, 'cert, 'fp, 'l, 'f) libs \<Rightarrow> network \<Rightarrow> socks_config \<Rightarrow> clock \<Rightarrow> socket_addr option \<Rightarrow> bool \<Rightarrow> string \<Rightarrow> u64
     \<Rightarrow> (bool \<times> relay_event) list \<Rightarrow> client_peer \<Rightarrow> ('net, 'pk, 'fp, 'l, 'f) app_context
     \<Rightarrow> ('net, 'pk, 'fp, 'l, 'f) app_context
        + ('net, 'pk, 'fp, 'l, 'f) app_context \<times> u8 list list \<times> 'net hs_outcome \<times> (u64 \<times> u64) option \<times> 'f observation list" where
  "handle_tcp_connection L W cfg t = with_peer_addr L W cfg t ''socks5''"

definition handle_tls_connection ::
  "('net, 'pk, 'h, 'cert, 'fp, 'l, 'f) libs \<Rightarrow> network \<Rightarrow> socks_config \<Rightarrow> clock \<Rightarrow> socket_addr option \<Rightarrow> bool \<Rightarrow> string \<Rightarrow> u64
     \<Rightarrow> (bool \<times> relay_event) list \<Rightarrow> client_peer \<Rightarrow> ('net, 'pk, 'fp, 'l, 'f) app_context
     \<Rightarrow> ('net, 'pk, 'fp, 'l, 'f) app_context
        + ('net, 'pk, 'fp, 'l, 'f) app_context \<times> u8 list list \<times> 'net hs_outcome \<times> (u64 \<times> u64) option \<times> 'f observation list" where
  "handle_tls_connection L W cfg t = with_peer_addr L W cfg t ''socks5-tls''"

subsection \<open>The calls change nothing\<close>

lemma admission_obs_fst [simp]:
  "fst (admission_obs L cfg t peer cid u usr ctx) = fst (admission L cfg t (fst peer) u usr ctx)"
  "fst (snd (admission_obs L cfg t peer cid u usr ctx)) = snd (admission L cfg t (fst peer) u usr ctx)"
  by (auto simp: admission_obs_def admission_def Let_def case_prod_beta split: sum.splits)

lemma finished_not_stalled [simp]: "finished_or_stalled False e = Finished e"
  by (simp add: finished_or_stalled_def)

lemma request_phase_obs_fst [simp]:
  "fst (request_phase_obs L W cfg False cl creds usr bs out ctx) = fst (request_phase L W cfg cl creds usr bs out ctx)"
  "fst (snd (request_phase_obs L W cfg False cl creds usr bs out ctx)) = fst (snd (request_phase L W cfg cl creds usr bs out ctx))"
  "fst (snd (snd (request_phase_obs L W cfg False cl creds usr bs out ctx))) =
     Finished (snd (snd (request_phase L W cfg cl creds usr bs out ctx)))"
  by (simp_all add: request_phase_obs_def request_phase_def connect_for_socks_def Let_def case_prod_beta split: sum.split)

lemma auth_phase_obs_result:
  "\<exists>os. auth_phase_obs L W cfg t False g cl creds bs out ctx =
     (case auth_phase L W cfg t cl creds bs out ctx of (ctx', out', e) \<Rightarrow> (ctx', out', Finished e, os))"
proof (cases "password_phase L cfg (at_auth t) creds (auth_svc ctx) (used_codes ctx)")
  case None
  then show ?thesis by (simp add: auth_phase_obs_def auth_phase_def)
next
  case (Some p)
  obtain used ok1 ok2 code usr_opt where p: "p = (used, ok1, ok2, code, usr_opt)" by (metis prod_cases5)
  show ?thesis
  proof (cases "ok1 \<and> ok2 \<and> client_write cl (length out)")
    case False
    then show ?thesis by (auto simp: auth_phase_obs_def auth_phase_def Some p Let_def case_prod_beta)
  next
    case True
    then show ?thesis
      by (cases usr_opt) (auto simp: auth_phase_obs_def auth_phase_def Some p peer_of_def Let_def case_prod_beta)
  qed
qed

lemma auth_phase_obs_fst [simp]:
  "fst (auth_phase_obs L W cfg t False g cl creds bs out ctx) = fst (auth_phase L W cfg t cl creds bs out ctx)"
  "fst (snd (auth_phase_obs L W cfg t False g cl creds bs out ctx)) = fst (snd (auth_phase L W cfg t cl creds bs out ctx))"
  "fst (snd (snd (auth_phase_obs L W cfg t False g cl creds bs out ctx))) = Finished (snd (snd (auth_phase L W cfg t cl creds bs out ctx)))"
  using auth_phase_obs_result [of L W cfg t g cl creds bs out ctx] by (auto simp: case_prod_beta)

lemma socks5_handshake_obs_fst [simp]:
  "fst (socks5_handshake_obs L W cfg t False g cl ctx) = fst (socks5_handshake L W cfg t cl ctx)"
  "fst (snd (socks5_handshake_obs L W cfg t False g cl ctx)) = fst (snd (socks5_handshake L W cfg t cl ctx))"
  "fst (snd (snd (socks5_handshake_obs L W cfg t False g cl ctx))) = Finished (snd (snd (socks5_handshake L W cfg t cl ctx)))"
  by (simp_all add: socks5_handshake_obs_def socks5_handshake_def Let_def case_prod_beta split: sum.split)

text \<open>Without a timeout, the handler with the calls does exactly what the handler without them does.\<close>

lemma observed_connection_result:
  "\<exists>os. handle_connection_obs L W cfg t proto False g duration_ms evs cl ctx =
     (case handle_connection L W cfg t proto evs cl ctx of (ctx', out, e, n) \<Rightarrow> (ctx', out, Finished e, n, os))"
proof -
  obtain ctx1 out e where H: "socks5_handshake L W cfg t cl ctx = (ctx1, out, e)" by (metis prod_cases3)
  obtain c o' e' os where X: "socks5_handshake_obs L W cfg t False g cl ctx = (c, o', e', os)" by (metis prod_cases4)
  then have O: "socks5_handshake_obs L W cfg t False g cl ctx = (ctx1, out, Finished e, os)"
    using socks5_handshake_obs_fst [of L W cfg t g cl ctx] by (simp add: H)
  show ?thesis
    by (cases e) (auto simp: handle_connection_obs_def handle_connection_def H O register_session_obs_def Let_def case_prod_beta
        split: option.split)
qed

subsection \<open>Logins\<close>

lemma service_only_admission [simp]: "service_only (snd (snd (admission_obs L cfg t peer cid u usr ctx)))"
  by (auto simp: admission_obs_def Let_def case_prod_beta split: sum.split)

lemma request_phase_obs_facts:
  assumes "request_phase_obs L W cfg stalls cl creds usr bs out ctx = (ctx', out', e, os)"
  shows "service_only os" "\<exists>xs. out' = out @ xs" "security ctx' = security ctx"
proof -
  have "service_only os \<and> (\<exists>xs. out' = out @ xs) \<and> security ctx' = security ctx"
    using assms by (auto simp: request_phase_obs_def Let_def case_prod_beta split: sum.splits if_splits)
  then show "service_only os" "\<exists>xs. out' = out @ xs" "security ctx' = security ctx" by blast+
qed

text \<open>The name the client gave, if it got as far as giving one.\<close>

definition claimed_user :: "client_peer \<Rightarrow> string" where
  "claimed_user cl =
     (case read_greeting (client_bytes cl) of
        Inl _ \<Rightarrow> []
      | Inr (_, bs) \<Rightarrow> (case read_credentials bs of Inl _ \<Rightarrow> [] | Inr (creds, _) \<Rightarrow> cred_username creds))"

text \<open>What the log must say of the login, given what was written to the client.\<close>

definition login_record :: "conn_tag \<Rightarrow> client_peer \<Rightarrow> string \<Rightarrow> string \<Rightarrow> u8 list list \<Rightarrow> audit_call list" where
  "login_record g cl name meth out =
     (if take 2 out = [send_method_selection AUTH_PASSWORD, send_auth_result False]
      then [LogAuthFailure name (peer_of g cl) meth (tag_cid g)]
      else if take 2 out = [send_method_selection AUTH_PASSWORD, send_auth_result True]
      then [LogAuthSuccess name (peer_of g cl) ''socks5'' (tag_cid g),
            LogSessionAuthenticated name (peer_of g cl) ''socks5'' meth (tag_cid g)]
      else [])"

lemma auth_results_differ [simp]: "send_auth_result True \<noteq> send_auth_result False" "send_auth_result False \<noteq> send_auth_result True"
  by (simp_all add: send_auth_result_def AUTH_SUCCESS_def AUTH_FAILURE_def)

lemma auth_phase_obs_logins:
  assumes "auth_phase_obs L W cfg t stalls g cl creds bs [send_method_selection AUTH_PASSWORD] ctx = (ctx', out, e, os)"
  shows "(\<exists>m. logins os = login_record g cl (cred_username creds) m out)
    \<and> (take 2 out = [send_method_selection AUTH_PASSWORD, send_auth_result False]
       \<longrightarrow> security ctx' = record_auth_failure (lib_net L) (at_failure t) (client_ip cl) (security ctx))"
proof (cases "password_phase L cfg (at_auth t) creds (auth_svc ctx) (used_codes ctx)")
  case None
  then show ?thesis using assms by (auto simp: auth_phase_obs_def login_record_def)
next
  case (Some p)
  obtain used ok1 ok2 code usr_opt where p: "p = (used, ok1, ok2, code, usr_opt)" by (metis prod_cases5)
  show ?thesis
  proof (cases "ok1 \<and> ok2 \<and> client_write cl 1 \<and> usr_opt \<noteq> None")
    case False
    then show ?thesis
      using assms by (auto simp: auth_phase_obs_def login_record_def Some p Let_def case_prod_beta split: if_splits)
  next
    case True
    then obtain usr where u: "usr_opt = Some usr" by blast
    let ?out1 = "[send_method_selection AUTH_PASSWORD, send_auth_result True]"
    obtain ctx2 adm os2 where A: "admission_obs L cfg t (peer_of g cl) (tag_cid g) (cred_username creds) usr (ctx\<lparr>used_codes := used\<rparr>)
        = (ctx2, adm, os2)" by (metis prod_cases3)
    have "service_only os2" using service_only_admission [of L cfg t "peer_of g cl" "tag_cid g" "cred_username creds" usr] A by (metis snd_conv)
    moreover have "service_only os'" "take 2 out' = ?out1" if "request_phase_obs L W cfg stalls cl creds usr bs ?out1 ctx2 = (c, out', e', os')"
      for c out' e' os' using request_phase_obs_facts [OF that] by auto
    ultimately show ?thesis
      using assms True by (auto simp: auth_phase_obs_def login_record_def Some p u A Let_def split: if_splits prod.splits)
  qed
qed

lemma socks5_handshake_obs_logins:
  assumes "socks5_handshake_obs L W cfg t stalls g cl ctx = (ctx', out, e, os)"
  shows "(\<exists>m. logins os = login_record g cl (claimed_user cl) m out)
    \<and> (take 2 out = [send_method_selection AUTH_PASSWORD, send_auth_result False]
       \<longrightarrow> security ctx' = record_auth_failure (lib_net L) (at_failure t) (client_ip cl)
             (fst (pre_auth_check (lib_net L) (lib_gov L) (lib_f64 L) (at_pre_auth t) (client_ip cl) (security ctx))))"
proof -
  let ?P = "pre_auth_check_obs (lib_net L) (lib_gov L) (lib_f64 L) (at_pre_auth t) (client_ip cl) (security ctx)"
  let ?c = "ctx\<lparr>security := fst ?P\<rparr>"
  show ?thesis
  proof (cases "\<exists>methods bs creds bs'. fst (snd ?P) = Inr () \<and> read_greeting (client_bytes cl) = Inr (methods, bs) \<and> client_write cl 0
      \<and> AUTH_PASSWORD \<in> set methods \<and> read_credentials bs = Inr (creds, bs')")
    case True
    then obtain methods bs creds bs' where h: "fst (snd ?P) = Inr ()" "read_greeting (client_bytes cl) = Inr (methods, bs)" "client_write cl 0"
      "AUTH_PASSWORD \<in> set methods" "read_credentials bs = Inr (creds, bs')" by blast
    obtain c o' e' os' where A: "auth_phase_obs L W cfg t stalls g cl creds bs' [send_method_selection AUTH_PASSWORD] ?c = (c, o', e', os')"
      by (metis prod_cases4)
    have "service_only (snd (snd ?P))" by simp
    moreover have "ctx' = c" "out = o'" "os = snd (snd ?P) @ os'"
      using assms h A by (simp_all add: socks5_handshake_obs_def Let_def case_prod_beta)
    ultimately show ?thesis using auth_phase_obs_logins [OF A] h by (simp add: claimed_user_def)
  next
    case False
    have "take 2 out \<noteq> [send_method_selection AUTH_PASSWORD, send_auth_result b]" for b
      using assms False by (auto simp: socks5_handshake_obs_def Let_def case_prod_beta split: sum.splits if_splits)
    moreover have "logins os = []"
      using assms False by (auto simp: socks5_handshake_obs_def Let_def case_prod_beta split: sum.splits if_splits)
    ultimately show ?thesis by (simp add: login_record_def)
  qed
qed

lemma handle_connection_obs_cases:
  assumes "handle_connection_obs L W cfg t proto stalls g duration_ms evs cl ctx = (ctx', out, e, n, os)"
  obtains (relay) ctx1 ri os1 os2 up down where
      "socks5_handshake_obs L W cfg t stalls g cl ctx = (ctx1, out, Finished (Relay ri), os1)" "e = Finished (Relay ri)" "n = Some (up, down)"
      "service_only os2" "security ctx' = security ctx1"
      "os = Audited (LogConnectionNew (peer_of g cl) proto (tag_cid g)) # os1 @ os2
         @ log_relay_complete (lib_f64 L) ri up down duration_ms (peer_of g cl) (tag_cid g)
         @ [Audited (LogConnectionClosed (peer_of g cl) proto (tag_cid g))]"
  | (none) os1 where
      "socks5_handshake_obs L W cfg t stalls g cl ctx = (ctx', out, e, os1)" "n = None"
      "os = Audited (LogConnectionNew (peer_of g cl) proto (tag_cid g)) # os1
         @ (if e = Finished Rejected \<or> e = TimedOutHs then [Audited (LogConnectionClosed (peer_of g cl) proto (tag_cid g))] else [])"
      "\<And>ri. e \<noteq> Finished (Relay ri)"
proof -
  obtain ctx1 o1 e1 os1 where H: "socks5_handshake_obs L W cfg t stalls g cl ctx = (ctx1, o1, e1, os1)" by (metis prod_cases4)
  show thesis
  proof (cases "\<exists>ri. e1 = Finished (Relay ri)")
    case True
    then obtain ri where e1: "e1 = Finished (Relay ri)" by blast
    obtain G session where R: "register_session (at_relay t) (ri_username ri) (ri_host ri) (ri_port ri) (client_ip_text cl) proto
        (proxy_engine ctx1) = (G, session)" by (metis prod.collapse)
    obtain E up down ob2 where Y: "relay_obs (lib_chrono L) (lib_f64 L) (at_relay t) (to_relay_config ri (limits_idle_timeout (engine_cfg cfg)))
        (Some (quota ctx1)) (Some session) evs = ((E, up, down), ob2)" by (metis prod.collapse)
    have "service_only (Measured OpConnection # ob2)"
      using service_only_relay [of "lib_chrono L" "lib_f64 L" "at_relay t" "to_relay_config ri (limits_idle_timeout (engine_cfg cfg))"
          "Some (quota ctx1)" "Some session" evs] by (simp add: Y)
    with assms H e1 R Y show ?thesis by (intro relay [of ctx1 ri os1 up down "Measured OpConnection # ob2"])
        (auto simp: handle_connection_obs_def register_session_obs_def Let_def)
  next
    case False
    then show ?thesis
      using assms H by (intro none [of os1]) (auto simp: handle_connection_obs_def Let_def split: hs_outcome.splits handshake_end.splits)
  qed
qed

subsection \<open>The trail of a connection\<close>

text \<open>The handshake itself never reports the beginning or the end of a connection.\<close>

definition handshake_calls :: "'f observation list \<Rightarrow> bool" where
  "handshake_calls os \<longleftrightarrow> list_all (\<lambda>c. is_service_call c \<or> is_login_call c) (audits os)"

lemma handshake_calls_simps [simp]:
  "handshake_calls []" "handshake_calls (Measured m # os) = handshake_calls os"
  "handshake_calls (Audited c # os) \<longleftrightarrow> (is_service_call c \<or> is_login_call c) \<and> handshake_calls os"
  "handshake_calls (os @ os') \<longleftrightarrow> handshake_calls os \<and> handshake_calls os'"
  by (simp_all add: handshake_calls_def)

lemma service_handshake_calls [simp]: "service_only os \<Longrightarrow> handshake_calls os"
  by (auto simp: service_only_def handshake_calls_def list_all_iff)

lemma handshake_calls_request [simp]: "handshake_calls (snd (snd (snd (request_phase_obs L W cfg stalls cl creds usr bs out ctx))))"
  using request_phase_obs_facts(1) service_handshake_calls by (metis prod.collapse)

lemma handshake_calls_auth [simp]: "handshake_calls (snd (snd (snd (auth_phase_obs L W cfg t stalls g cl creds bs out ctx))))"
proof (cases "password_phase L cfg (at_auth t) creds (auth_svc ctx) (used_codes ctx)")
  case None
  then show ?thesis by (simp add: auth_phase_obs_def)
next
  case (Some p)
  obtain used ok1 ok2 code usr_opt where p: "p = (used, ok1, ok2, code, usr_opt)" by (metis prod_cases5)
  show ?thesis
    by (cases "ok1 \<and> ok2"; cases usr_opt) (simp_all add: auth_phase_obs_def Some p Let_def case_prod_beta)
qed

lemma handshake_calls_handshake: "handshake_calls (snd (snd (snd (socks5_handshake_obs L W cfg t stalls g cl ctx))))"
  by (auto simp: socks5_handshake_obs_def Let_def case_prod_beta split: sum.split)

lemma handshake_not_closed: "handshake_calls xs \<Longrightarrow> LogConnectionClosed p q c \<notin> set (audits xs)"
  by (auto simp: handshake_calls_def list_all_iff)

text \<open>The calls to the audit log on behalf of a connection whose peer address is known: the beginning first, and at the end the
  bytes relayed in each direction if there was a relay, and the closing; a handshake that is refused or times out is
  closed too. A connection that ends in an error has a beginning and no end.\<close>

theorem connection_trail:
  "case handle_connection_obs L W cfg t proto stalls g duration_ms evs cl ctx of (ctx', out, e, n, os) \<Rightarrow>
     let peer = peer_of g cl; closed = LogConnectionClosed peer proto (tag_cid g) in
     \<exists>mid. closed \<notin> set mid \<and> audits os = LogConnectionNew peer proto (tag_cid g) # mid @
       (case e of
          Finished (Relay ri) \<Rightarrow>
            [LogProxyComplete (ri_username ri) (ri_host ri) (ri_port ri) (fst (the n)) (snd (the n)) duration_ms peer
               (Some (show_ip (fst (ri_resolved ri)))) (tag_cid g), closed]
        | Finished Rejected \<Rightarrow> [closed]
        | TimedOutHs \<Rightarrow> [closed]
        | Finished (HsError _) \<Rightarrow> []
        | Finished Panic \<Rightarrow> [])"
proof -
  obtain ctx' out e n os where H: "handle_connection_obs L W cfg t proto stalls g duration_ms evs cl ctx = (ctx', out, e, n, os)"
    by (metis prod_cases5)
  from H show ?thesis
  proof (cases rule: handle_connection_obs_cases)
    case (relay ctx1 ri os1 os2 up down)
    have "handshake_calls (os1 @ os2)" using handshake_calls_handshake [of L W cfg t stalls g cl ctx] relay by simp
    from handshake_not_closed [OF this] show ?thesis
      by (simp add: H relay log_relay_complete_def Let_def exI [of _ "audits (os1 @ os2)"])
  next
    case (none os1)
    have "handshake_calls os1" using handshake_calls_handshake [of L W cfg t stalls g cl ctx] none by simp
    from handshake_not_closed [OF this] none show ?thesis
      by (auto simp: H Let_def split: hs_outcome.split handshake_end.split intro!: exI [of _ "audits os1"])
  qed
qed

text \<open>C9: logins are audited as the client experiences them: the log has a failure under the name the client gave
  exactly if the client was told that it failed, and a success exactly if it was told so; each failure the
  client is told of counts towards a ban.\<close>

theorem socks_logins_audited:
  assumes "handle_connection_obs L W cfg t proto stalls g duration_ms evs cl ctx = (ctx', out, e, n, os)"
  shows "(\<exists>m. logins os = login_record g cl (claimed_user cl) m out)
    \<and> (take 2 out = [send_method_selection AUTH_PASSWORD, send_auth_result False]
       \<longrightarrow> security ctx' = record_auth_failure (lib_net L) (at_failure t) (client_ip cl)
             (fst (pre_auth_check (lib_net L) (lib_gov L) (lib_f64 L) (at_pre_auth t) (client_ip cl) (security ctx))))"
  using assms
proof (cases rule: handle_connection_obs_cases)
  case (relay ctx1 ri os1 os2 up down)
  then show ?thesis using socks5_handshake_obs_logins [OF relay(1)] by (simp add: log_relay_complete_def)
next
  case (none os1)
  then show ?thesis using socks5_handshake_obs_logins [OF none(1)] by simp
qed

lemma sample_wrong_password:
  "password_phase sample_libs sample_socks_config 60 \<lparr>cred_username = ''al'', cred_password = ''bad''\<rparr>
     \<lparr>user_store = [(''al'', sample_user)], trusted_cas = []\<rparr> [] = Some ([], False, False, None, Some sample_user)"
proof -
  have "extract_totp_from_password ''bad'' = Some (''bad'', None)" by code_simp
  then show ?thesis
    by (simp add: password_phase_def sample_libs_def sample_socks_config_def sample_user_def auth_password_def
        verify_counted_def verify_password_def sample_auth_ops_def is_expired_def Let_def)
qed

theorem socks_logins_audited_witness:
  "\<exists>ctx' out e n os m.
     handle_connection_obs sample_libs sample_network sample_socks_config sample_clock ''socks5'' False \<lparr>tag_port = 4000, tag_cid = ''c''\<rparr> 0 []
       (sample_client ''bad'') sample_context = (ctx', out, e, n, os)
     \<and> logins os = [LogAuthFailure ''al'' (V4 192 0 2 7, 4000) m ''c'']
     \<and> security ctx' = record_auth_failure sample_net 0 (V4 192 0 2 7)
          (fst (pre_auth_check sample_net sample_gov sample_f64 0 (V4 192 0 2 7) (security sample_context)))"
proof -
  let ?g = "\<lparr>tag_port = 4000, tag_cid = ''c''\<rparr> :: conn_tag"
  obtain ctx' out e n os where H: "handle_connection_obs sample_libs sample_network sample_socks_config sample_clock ''socks5'' False ?g 0 []
      (sample_client ''bad'') sample_context = (ctx', out, e, n, os)" by (metis prod_cases5)
  have wf: "wf_field ''al''" "wf_field ''bad''" by (simp_all add: wf_field_def valid_utf8_ascii ascii_def)
  have auth: "auth_svc sample_context = \<lparr>user_store = [(''al'', sample_user)], trusted_cas = []\<rparr>" "used_codes sample_context = []"
    by (simp_all add: sample_context_def)
  have out: "out = [send_method_selection AUTH_PASSWORD, send_auth_result False]"
  proof -
    have "fst (snd (socks5_handshake sample_libs sample_network sample_socks_config sample_clock (sample_client ''bad'') sample_context))
        = [send_method_selection AUTH_PASSWORD, send_auth_result False]"
      using sample_pre_auth sample_greeting sample_credentials [OF wf] sample_wrong_password
      by (simp add: socks5_handshake_def sample_client_def sample_libs_def sample_clock_def auth_phase_def auth case_prod_beta Let_def
          AUTH_PASSWORD_def)
    moreover obtain os' where "handle_connection_obs sample_libs sample_network sample_socks_config sample_clock ''socks5'' False ?g 0 []
        (sample_client ''bad'') sample_context = (case handle_connection sample_libs sample_network sample_socks_config sample_clock
          ''socks5'' [] (sample_client ''bad'') sample_context of (c, o', e', n') \<Rightarrow> (c, o', Finished e', n', os'))"
      using observed_connection_result by blast
    ultimately show ?thesis using H
      by (auto simp: handle_connection_def case_prod_beta Let_def split: handshake_end.splits)
  qed
  have "claimed_user (sample_client ''bad'') = ''al''"
    using sample_greeting sample_credentials [OF wf] by (simp add: claimed_user_def sample_client_def)
  with socks_logins_audited [OF H] H out show ?thesis
    by (auto simp: login_record_def peer_of_def sample_client_def sample_libs_def sample_clock_def)
qed

subsection \<open>Timeouts\<close>

text \<open>A timeout changes neither the state the handshake leaves nor whether it ends in a relay.\<close>

lemma finished_relay [simp]:
  "e \<noteq> Relay ri \<Longrightarrow> finished_or_stalled stalls e \<noteq> Finished (Relay ri)" "finished_or_stalled stalls (Relay ri) = Finished (Relay ri)"
  "finished_or_stalled stalls Rejected = Finished Rejected" "finished_or_stalled stalls Panic = Finished Panic"
  by (auto simp: finished_or_stalled_def)

lemma request_phase_obs_state:
  "fst (request_phase_obs L W cfg stalls cl creds usr bs out ctx) = fst (request_phase L W cfg cl creds usr bs out ctx)
   \<and> (fst (snd (snd (request_phase_obs L W cfg stalls cl creds usr bs out ctx))) = Finished (Relay ri)
      \<longleftrightarrow> snd (snd (request_phase L W cfg cl creds usr bs out ctx)) = Relay ri)"
  by (simp add: request_phase_obs_def request_phase_def connect_for_socks_def Let_def case_prod_beta split: sum.split)

lemma auth_phase_obs_state:
  "fst (auth_phase_obs L W cfg t stalls g cl creds bs out ctx) = fst (auth_phase L W cfg t cl creds bs out ctx)
   \<and> (fst (snd (snd (auth_phase_obs L W cfg t stalls g cl creds bs out ctx))) = Finished (Relay ri)
      \<longleftrightarrow> snd (snd (auth_phase L W cfg t cl creds bs out ctx)) = Relay ri)"
proof (cases "password_phase L cfg (at_auth t) creds (auth_svc ctx) (used_codes ctx)")
  case None
  then show ?thesis by (simp add: auth_phase_obs_def auth_phase_def)
next
  case (Some p)
  obtain used ok1 ok2 code usr_opt where p: "p = (used, ok1, ok2, code, usr_opt)" by (metis prod_cases5)
  show ?thesis
  proof (cases "ok1 \<and> ok2 \<and> client_write cl (length out)")
    case False
    then show ?thesis by (auto simp: auth_phase_obs_def auth_phase_def Some p Let_def case_prod_beta)
  next
    case True
    then show ?thesis
      by (cases usr_opt)
        (simp_all add: auth_phase_obs_def auth_phase_def Some p peer_of_def Let_def case_prod_beta request_phase_obs_state)
  qed
qed

lemma socks5_handshake_obs_state:
  "fst (socks5_handshake_obs L W cfg t stalls g cl ctx) = fst (socks5_handshake L W cfg t cl ctx)
   \<and> (fst (snd (snd (socks5_handshake_obs L W cfg t stalls g cl ctx))) = Finished (Relay ri)
      \<longleftrightarrow> snd (snd (socks5_handshake L W cfg t cl ctx)) = Relay ri)"
  by (simp add: socks5_handshake_obs_def socks5_handshake_def Let_def case_prod_beta auth_phase_obs_state split: sum.split)

lemma observed_connection_state:
  "fst (handle_connection_obs L W cfg t proto stalls g duration_ms evs cl ctx) = fst (handle_connection L W cfg t proto evs cl ctx)"
proof -
  obtain ctx1 out e where H: "socks5_handshake L W cfg t cl ctx = (ctx1, out, e)" by (metis prod_cases3)
  obtain c o' e' os where X: "socks5_handshake_obs L W cfg t stalls g cl ctx = (c, o', e', os)" by (metis prod_cases4)
  have c: "c = ctx1" and e': "\<And>ri. e' = Finished (Relay ri) \<longleftrightarrow> e = Relay ri"
    using socks5_handshake_obs_state [of L W cfg t stalls g cl ctx] by (simp_all add: H X)
  show ?thesis
  proof (cases "\<exists>ri. e = Relay ri")
    case True
    then obtain ri where e: "e = Relay ri" by blast
    with e' have "e' = Finished (Relay ri)" by simp
    with e show ?thesis
      by (simp add: handle_connection_obs_def handle_connection_def H X c register_session_obs_def Let_def case_prod_beta
          split: option.split)
  next
    case False
    with e' have "\<And>ri. e' \<noteq> Finished (Relay ri)" by simp
    with False show ?thesis
      by (auto simp: handle_connection_obs_def handle_connection_def H X c Let_def split: hs_outcome.split handshake_end.split)
  qed
qed

text \<open>A connection handled to its end leaves no slot behind: whatever the client sends, however the handshake
  ends, also by its timeout while the connection to the target is being made, and whatever is relayed, all
  connection counts are afterwards what they were before.\<close>

theorem handled_connection_returns_slot:
  "slot_counts (proxy_engine (fst (handle_connection_obs L W cfg t proto stalls g duration_ms evs cl ctx))) = slot_counts (proxy_engine ctx)"
  by (simp add: observed_connection_state handle_connection_slots)

end
