(* ===== verification/Terminal.thy ===== *)
theory Terminal
  imports Strings
begin

text \<open>
  Models \<open>src/shell/terminal.rs\<close>: the line editor of the shell, byte by byte, with cursor, history,
  escape sequences and tab completion. An indexing operation that would panic in Rust
  (\<open>Vec::remove\<close>, \<open>Vec::insert\<close>, an index or a slice out of range) makes the result \<^const>\<open>None\<close>;
  \<open>terminal_total\<close> shows that no input ever does. Slices are only taken of the ASCII completions,
  where every offset is a character boundary.
\<close>

subsection \<open>State\<close>

definition MAX_LINE_LENGTH :: nat where "MAX_LINE_LENGTH = 4096"
definition MAX_HISTORY :: nat where "MAX_HISTORY = 100"

definition COMPLETABLE_COMMANDS :: "string list" where
  "COMPLETABLE_COMMANDS =
     [''alias'', ''bookmark'', ''cat'', ''cd'', ''clear'', ''echo'', ''env'', ''exit'', ''help'', ''hostname'', ''id'',
      ''logout'', ''ls'', ''ping'', ''printenv'', ''pwd'', ''resolve'', ''show'', ''test'', ''uname'', ''whoami'']"

definition SHOW_SUBCOMMANDS :: "string list" where
  "SHOW_SUBCOMMANDS = [''acl'', ''bandwidth'', ''connections'', ''fingerprint'', ''history'', ''quota'', ''status'']"

definition BOOKMARK_SUBCOMMANDS :: "string list" where
  "BOOKMARK_SUBCOMMANDS = [''add'', ''list'', ''remove'']"

definition ALIAS_SUBCOMMANDS :: "string list" where
  "ALIAS_SUBCOMMANDS = [''remove'']"

datatype escape_state = Normal | GotEsc | GotCsi

record terminal_state =
  line_buffer :: "u8 list"
  cursor_pos :: nat
  t_cols :: u32
  t_rows :: u32
  autocomplete :: bool
  history :: "string list"
  history_index :: "nat option"
  saved_line :: "u8 list"
  esc_state :: escape_state

definition terminal_new :: terminal_state where
  "terminal_new =
     \<lparr>line_buffer = [], cursor_pos = 0, t_cols = 80, t_rows = 24, autocomplete = True, history = [], history_index = None,
      saved_line = [], esc_state = Normal\<rparr>"

type_synonym echo_result = "(terminal_state \<times> u8 list \<times> string option) option"

definition CRLF :: "u8 list" where "CRLF = [0x0D, 0x0A]"
definition ERASE :: "u8 list" where "ERASE = [0x08, 0x20, 0x08]"

definition set_size :: "u32 \<Rightarrow> u32 \<Rightarrow> terminal_state \<Rightarrow> terminal_state" where
  "set_size c r t = t\<lparr>t_cols := c, t_rows := r\<rparr>"

definition current_line :: "terminal_state \<Rightarrow> string" where
  "current_line t = from_utf8_lossy (line_buffer t)"

subsection \<open>History\<close>

definition replace_line :: "u8 list \<Rightarrow> terminal_state \<Rightarrow> terminal_state \<times> u8 list" where
  "replace_line new_content t =
     (let old_len = length (line_buffer t) in
      (t\<lparr>line_buffer := new_content, cursor_pos := length new_content\<rparr>,
       replicate (cursor_pos t) 0x08 @ replicate old_len 0x20 @ replicate old_len 0x08 @ new_content))"

definition goto_history :: "nat \<Rightarrow> terminal_state \<Rightarrow> echo_result" where
  "goto_history i t =
     (if i < length (history t) then
        (let (t', echo) = replace_line (bytes_of (history t ! i)) (t\<lparr>history_index := Some i\<rparr>) in Some (t', echo, None))
      else None)"

definition history_prev :: "terminal_state \<Rightarrow> echo_result" where
  "history_prev t =
     (if history t = [] then Some (t, [], None)
      else case history_index t of
        None \<Rightarrow> goto_history (length (history t) - 1) (t\<lparr>saved_line := line_buffer t\<rparr>)
      | Some 0 \<Rightarrow> Some (t, [], None)
      | Some i \<Rightarrow> goto_history (i - 1) t)"

definition history_next :: "terminal_state \<Rightarrow> echo_result" where
  "history_next t =
     (case history_index t of
        None \<Rightarrow> Some (t, [], None)
      | Some i \<Rightarrow>
          if i + 1 \<ge> length (history t) then
            (let (t', echo) = replace_line (saved_line t) (t\<lparr>history_index := None, saved_line := []\<rparr>) in Some (t', echo, None))
          else goto_history (i + 1) t)"

subsection \<open>Completion\<close>

text \<open>The index of the first difference, and the prefix all strings share.\<close>

fun mismatch :: "string \<Rightarrow> string \<Rightarrow> nat option" where
  "mismatch (a # as) (b # bs) = (if a \<noteq> b then Some 0 else map_option Suc (mismatch as bs))"
| "mismatch _ _ = None"

definition common_len :: "string \<Rightarrow> nat \<Rightarrow> string \<Rightarrow> nat" where
  "common_len first len s =
     (let len = min len (length s) in case mismatch first s of Some i \<Rightarrow> min len i | None \<Rightarrow> len)"

definition common_prefix :: "string list \<Rightarrow> string" where
  "common_prefix ss =
     (case ss of [] \<Rightarrow> [] | first # rest \<Rightarrow> take (foldl (common_len first) (length first) rest) first)"

definition subcommands :: "string \<Rightarrow> string list \<Rightarrow> string \<Rightarrow> string list" where
  "subcommands cmd subs trimmed =
     (let prfx = (case strip_prefix cmd trimmed of Some r \<Rightarrow> r | None \<Rightarrow> '''') in
      map (\<lambda>c. cmd @ c) (filter (starts_with prfx) subs))"

definition completions :: "string \<Rightarrow> string list" where
  "completions trimmed =
     (if starts_with ''show '' trimmed then subcommands ''show '' SHOW_SUBCOMMANDS trimmed
      else if starts_with ''bookmark '' trimmed then subcommands ''bookmark '' BOOKMARK_SUBCOMMANDS trimmed
      else if starts_with ''alias '' trimmed then subcommands ''alias '' ALIAS_SUBCOMMANDS trimmed
      else if CHR '' '' \<notin> set trimmed then filter (starts_with trimmed) COMPLETABLE_COMMANDS
      else [])"

definition slice_from :: "string \<Rightarrow> nat \<Rightarrow> string option" where
  "slice_from s n = (if n \<le> length s then Some (drop n s) else None)"

definition append_line :: "u8 list \<Rightarrow> terminal_state \<Rightarrow> terminal_state" where
  "append_line bs t = t\<lparr>line_buffer := line_buffer t @ bs, cursor_pos := length (line_buffer t @ bs)\<rparr>"

definition handle_tab_completion :: "terminal_state \<Rightarrow> echo_result" where
  "handle_tab_completion t =
     (let trimmed = trim_start (from_utf8_lossy (line_buffer t)) in
      case completions trimmed of
        [] \<Rightarrow> Some (t, [0x07], None)
      | [completion] \<Rightarrow>
          (case slice_from completion (length trimmed) of
             None \<Rightarrow> None
           | Some suffix \<Rightarrow> (let bytes = bytes_of (suffix @ '' '') in Some (append_line bytes t, bytes, None)))
      | cs \<Rightarrow>
          (let common = common_prefix cs in
           if length common > length trimmed then
             (case slice_from common (length trimmed) of
                None \<Rightarrow> None
              | Some suffix \<Rightarrow> Some (append_line (bytes_of suffix) t, bytes_of suffix, None))
           else Some (t, CRLF @ concat (map (\<lambda>c. bytes_of c @ [0x20, 0x20]) cs) @ CRLF @ line_buffer t, None)))"

subsection \<open>Input\<close>

definition clear_line :: "terminal_state \<Rightarrow> terminal_state" where
  "clear_line t = t\<lparr>history_index := None, saved_line := [], line_buffer := [], cursor_pos := 0\<rparr>"

definition push_history :: "string \<Rightarrow> terminal_state \<Rightarrow> terminal_state" where
  "push_history line t =
     (if trim_str line \<noteq> [] \<and> (history t = [] \<or> last (history t) \<noteq> line) then
        (let h = history t @ [line] in t\<lparr>history := (if length h > MAX_HISTORY then drop 1 h else h)\<rparr>)
      else t)"

definition process_csi :: "u8 \<Rightarrow> terminal_state \<Rightarrow> echo_result" where
  "process_csi byte t =
     (if byte = 0x41 then history_prev t
      else if byte = 0x42 then history_next t
      else if byte = 0x43 then
        (if cursor_pos t < length (line_buffer t) then Some (t\<lparr>cursor_pos := cursor_pos t + 1\<rparr>, [0x1B, 0x5B, 0x43], None)
         else Some (t, [], None))
      else if byte = 0x44 then
        (if cursor_pos t > 0 then Some (t\<lparr>cursor_pos := cursor_pos t - 1\<rparr>, [0x1B, 0x5B, 0x44], None)
         else Some (t, [], None))
      else Some (t, [], None))"

definition enter :: "terminal_state \<Rightarrow> echo_result" where
  "enter t = (let line = from_utf8_lossy (line_buffer t) in Some (clear_line (push_history line t), CRLF, Some line))"

definition backspace :: "terminal_state \<Rightarrow> echo_result" where
  "backspace t =
     (if cursor_pos t > 0 then
        (if cursor_pos t - 1 < length (line_buffer t) then
           Some (t\<lparr>line_buffer := take (cursor_pos t - 1) (line_buffer t) @ drop (cursor_pos t) (line_buffer t),
                   cursor_pos := cursor_pos t - 1\<rparr>, ERASE, None)
         else None)
      else Some (t, [], None))"

definition insert_byte :: "u8 \<Rightarrow> terminal_state \<Rightarrow> echo_result" where
  "insert_byte byte t =
     (if length (line_buffer t) \<ge> MAX_LINE_LENGTH then Some (t, [0x07], None)
      else if cursor_pos t \<le> length (line_buffer t) then
        Some (t\<lparr>line_buffer := take (cursor_pos t) (line_buffer t) @ byte # drop (cursor_pos t) (line_buffer t),
                cursor_pos := cursor_pos t + 1\<rparr>, [byte], None)
      else None)"

definition process_byte :: "u8 \<Rightarrow> terminal_state \<Rightarrow> echo_result" where
  "process_byte byte t =
     (case esc_state t of
        GotEsc \<Rightarrow> Some (t\<lparr>esc_state := (if byte = 0x5B then GotCsi else Normal)\<rparr>, [], None)
      | GotCsi \<Rightarrow> process_csi byte (t\<lparr>esc_state := Normal\<rparr>)
      | Normal \<Rightarrow>
          if byte = 0x0D \<or> byte = 0x0A then enter t
          else if byte = 0x7F \<or> byte = 0x08 then backspace t
          else if byte = 0x03 then Some (clear_line t, [0x5E, 0x43, 0x0D, 0x0A], Some '''')
          else if byte = 0x04 then Some (t, [], if line_buffer t = [] then Some ''exit'' else None)
          else if byte = 0x15 then
            Some (t\<lparr>line_buffer := [], cursor_pos := 0\<rparr>, concat (replicate (cursor_pos t) ERASE), None)
          else if byte = 0x0C then Some (t, [0x1B, 0x5B, 0x32, 0x4A, 0x1B, 0x5B, 0x48] @ line_buffer t, None)
          else if byte = 0x09 then (if \<not> autocomplete t then Some (t, [], None) else handle_tab_completion t)
          else if byte = 0x1B then Some (t\<lparr>esc_state := GotEsc\<rparr>, [], None)
          else if byte \<ge> 0x20 then insert_byte byte t
          else Some (t, [], None))"

text \<open>A whole input: the final state, all that is echoed, and the lines completed on the way.\<close>

fun process_bytes :: "u8 list \<Rightarrow> terminal_state \<Rightarrow> (terminal_state \<times> u8 list \<times> string list) option" where
  "process_bytes [] t = Some (t, [], [])"
| "process_bytes (b # bs) t =
     (case process_byte b t of
        None \<Rightarrow> None
      | Some (t1, echo, line) \<Rightarrow>
          (case process_bytes bs t1 of
             None \<Rightarrow> None
           | Some (t2, echo2, lines) \<Rightarrow> Some (t2, echo @ echo2, (case line of Some l \<Rightarrow> l # lines | None \<Rightarrow> lines))))"

subsection \<open>The common prefix\<close>

lemma mismatch_le:
  "k \<le> length a \<Longrightarrow> k \<le> length b \<Longrightarrow>
   take k a = take k b \<longleftrightarrow> (case mismatch a b of Some i \<Rightarrow> k \<le> i | None \<Rightarrow> True)"
proof (induction a b arbitrary: k rule: mismatch.induct)
  case (1 a as b bs)
  then show ?case by (cases k) (auto split: option.splits)
qed auto

lemma common_len_le:
  "k \<le> length first \<Longrightarrow>
   k \<le> common_len first len s \<longleftrightarrow> k \<le> len \<and> k \<le> length s \<and> take k first = take k s"
  using mismatch_le [of k first s] by (auto simp: common_len_def Let_def split: option.splits)

lemma foldl_common_len_le:
  "k \<le> length first \<Longrightarrow>
   k \<le> foldl (common_len first) len rest \<longleftrightarrow> k \<le> len \<and> (\<forall>s \<in> set rest. k \<le> length s \<and> take k first = take k s)"
  by (induction rest arbitrary: len) (auto simp: common_len_le)

lemma starts_with_take: "starts_with p (take n s) \<longleftrightarrow> length p \<le> n \<and> starts_with p s"
proof -
  have "length p \<le> n" if "take (min n (length p)) s = p" using that by (metis length_take min.cobounded1 min.cobounded2 min.orderE nle_le)
  then show ?thesis by (auto simp: starts_with_def min_def split: if_splits)
qed

lemma starts_with_length: "starts_with p s \<Longrightarrow> length p \<le> length s"
  by (auto simp: starts_with_iff)

subsection \<open>Nothing panics\<close>

definition term_inv :: "terminal_state \<Rightarrow> bool" where
  "term_inv t \<longleftrightarrow> cursor_pos t \<le> length (line_buffer t) \<and> length (history t) \<le> MAX_HISTORY
     \<and> (\<forall>i. history_index t = Some i \<longrightarrow> i < length (history t))"

definition safe :: "echo_result \<Rightarrow> bool" where
  "safe r \<longleftrightarrow> (case r of Some (t, _) \<Rightarrow> term_inv t | None \<Rightarrow> False)"

lemma safe_Some [simp]: "safe (Some (t, e)) = term_inv t"
  by (simp add: safe_def)

lemma term_inv_esc [simp]: "term_inv (t\<lparr>esc_state := x\<rparr>) = term_inv t"
  by (simp add: term_inv_def)

lemma term_inv_saved [simp]: "term_inv (t\<lparr>saved_line := x\<rparr>) = term_inv t"
  by (simp add: term_inv_def)

lemma safe_goto_history: "term_inv t \<Longrightarrow> i < length (history t) \<Longrightarrow> safe (goto_history i t)"
  by (simp add: goto_history_def replace_line_def term_inv_def Let_def)

lemma safe_history_prev: "term_inv t \<Longrightarrow> safe (history_prev t)"
  by (auto simp: history_prev_def term_inv_def [of t] intro!: safe_goto_history split: option.splits nat.splits)

lemma safe_history_next: "term_inv t \<Longrightarrow> safe (history_next t)"
  by (auto simp: history_next_def intro!: safe_goto_history split: option.splits)
    (auto simp: replace_line_def term_inv_def Let_def)

lemma completions_extend: "c \<in> set (completions tr) \<Longrightarrow> starts_with tr c"
  by (auto simp: completions_def subcommands_def starts_with_iff strip_prefix_def Let_def split: if_splits)

lemma common_prefix_extends:
  assumes "ss \<noteq> []" and "\<And>c. c \<in> set ss \<Longrightarrow> starts_with p c"
  shows "starts_with p (common_prefix ss)"
proof (cases ss)
  case (Cons first rest)
  have f: "starts_with p first" using assms Cons by simp
  then have "length p \<le> length first" by (rule starts_with_length)
  moreover have "length p \<le> length c \<and> take (length p) first = take (length p) c" if "c \<in> set rest" for c
    using assms(2) [of c] f that Cons starts_with_length by (auto simp: starts_with_def)
  ultimately show ?thesis using f by (simp add: Cons common_prefix_def starts_with_take foldl_common_len_le)
qed (simp add: assms)

lemma safe_append [simp]: "term_inv t \<Longrightarrow> term_inv (append_line bs t)"
  by (simp add: append_line_def term_inv_def)

lemma safe_tab:
  assumes "term_inv t"
  shows "safe (handle_tab_completion t)"
proof -
  let ?tr = "trim_start (from_utf8_lossy (line_buffer t))"
  have one: "length ?tr \<le> length c" if "c \<in> set (completions ?tr)" for c
    using completions_extend that starts_with_length by blast
  have "length ?tr \<le> length (common_prefix (completions ?tr))" if "completions ?tr \<noteq> []"
    using common_prefix_extends [OF that completions_extend] starts_with_length by blast
  with one assms show ?thesis
    by (simp add: handle_tab_completion_def slice_from_def Let_def split: list.split)
qed

lemma term_inv_push_clear: "term_inv t \<Longrightarrow> term_inv (clear_line (push_history l t))"
  by (auto simp: term_inv_def clear_line_def push_history_def Let_def)

lemma safeD: "safe r \<Longrightarrow> \<exists>t e l. r = Some (t, e, l) \<and> term_inv t"
  by (auto simp: safe_def split: option.splits)

lemma safe_process_byte:
  assumes "term_inv t"
  shows "safe (process_byte b t)"
proof -
  have "safe (process_csi c (t\<lparr>esc_state := Normal\<rparr>))" for c
    using assms safe_history_prev [of "t\<lparr>esc_state := Normal\<rparr>"] safe_history_next [of "t\<lparr>esc_state := Normal\<rparr>"]
    by (auto simp: process_csi_def term_inv_def)
  moreover have "safe (backspace t)" "safe (insert_byte b t)" "term_inv (clear_line t)"
      "term_inv (t\<lparr>line_buffer := [], cursor_pos := 0\<rparr>)"
    using assms by (auto simp: backspace_def insert_byte_def clear_line_def term_inv_def)
  moreover have "safe (enter t)" using assms term_inv_push_clear by (simp add: enter_def Let_def)
  ultimately show ?thesis
    using assms safe_tab by (cases "esc_state t") (simp_all add: process_byte_def)
qed

interpretation terminal: machine "\<lambda>b t. case process_byte b t of Some (t', _) \<Rightarrow> t' | None \<Rightarrow> t" term_inv
  using safeD [OF safe_process_byte] by unfold_locales (metis (no_types, lifting) case_prod_conv option.simps(5))

lemma process_bytes_state:
  "term_inv t \<Longrightarrow> \<exists>echo lines. process_bytes bs t =
     Some (fold (\<lambda>b t. case process_byte b t of Some (t', _) \<Rightarrow> t' | None \<Rightarrow> t) bs t, echo, lines)"
proof (induction bs arbitrary: t)
  case (Cons b bs)
  obtain t1 e l where b: "process_byte b t = Some (t1, e, l)" "term_inv t1"
    using safeD [OF safe_process_byte [OF Cons.prems]] by blast
  then show ?case using Cons.IH [OF b(2)] by auto
qed simp

lemma term_inv_new: "term_inv terminal_new"
  by (simp add: term_inv_def terminal_new_def)

text \<open>Completed and remembered lines are well-formed.\<close>

definition utf8_lines :: "string list \<Rightarrow> bool" where
  "utf8_lines ls \<longleftrightarrow> list_all (\<lambda>l. valid_utf8 (bytes_of l)) ls"

lemma utf8_from_lossy [simp]: "valid_utf8 (bytes_of (from_utf8_lossy bs))"
  by (simp add: from_utf8_lossy_def valid_utf8_lossy)

lemma goto_history_keeps: "goto_history i t = Some (t', e, l) \<Longrightarrow> history t' = history t \<and> l = None"
  by (auto simp: goto_history_def replace_line_def Let_def split: if_splits)

lemma csi_keeps: "process_csi b t = Some (t', e, l) \<Longrightarrow> history t' = history t \<and> l = None"
  by (auto simp: process_csi_def history_prev_def history_next_def replace_line_def Let_def dest!: goto_history_keeps
      split: if_splits option.splits nat.splits)

lemma edits_keep:
  "handle_tab_completion t = Some (t', e, l) \<Longrightarrow> history t' = history t \<and> l = None"
  "backspace t = Some (t', e, l) \<Longrightarrow> history t' = history t \<and> l = None"
  "insert_byte b t = Some (t', e, l) \<Longrightarrow> history t' = history t \<and> l = None"
  by (auto simp: handle_tab_completion_def backspace_def insert_byte_def append_line_def Let_def
      split: list.splits option.splits if_splits)

lemma push_history_set: "set (history (push_history l t)) \<subseteq> insert l (set (history t))"
  by (auto simp: push_history_def Let_def dest: in_set_dropD)

lemma clear_line_history [simp]: "history (clear_line t) = history t"
  by (simp add: clear_line_def)

lemma enter_utf8:
  "utf8_lines (history t) \<Longrightarrow> enter t = Some (t', e, l) \<Longrightarrow> utf8_lines (history t') \<and> (\<forall>x. l = Some x \<longrightarrow> valid_utf8 (bytes_of x))"
  using push_history_set [of "from_utf8_lossy (line_buffer t)" t]
  by (auto simp: enter_def utf8_lines_def list_all_iff Let_def)

lemma process_byte_utf8:
  assumes "utf8_lines (history t)" and "process_byte b t = Some (t', e, l)"
  shows "utf8_lines (history t') \<and> (\<forall>x. l = Some x \<longrightarrow> valid_utf8 (bytes_of x))"
proof -
  have ok: "utf8_lines (history t') \<and> (\<forall>x. l = Some x \<longrightarrow> valid_utf8 (bytes_of x))" if "history t' = history t \<and> l = None"
    using that assms(1) by simp
  have words: "valid_utf8 (bytes_of [])" "valid_utf8 (bytes_of ''exit'')"
    by (rule valid_utf8_ascii, simp add: ascii_def)+
  show ?thesis
  proof (cases "esc_state t")
    case Normal
    with assms(2) show ?thesis
      using ok edits_keep(1) [of t t' e l] edits_keep(2) [of t t' e l] edits_keep(3) [of b t t' e l] enter_utf8 [OF assms(1)] assms(1) words
      by (auto simp: process_byte_def split: if_splits)
  qed (use assms ok csi_keeps in \<open>auto simp: process_byte_def split: if_splits\<close>)
qed

lemma process_bytes_utf8:
  "utf8_lines (history t) \<Longrightarrow> process_bytes bs t = Some (t', e, ls) \<Longrightarrow> utf8_lines (history t') \<and> utf8_lines ls"
proof (induction bs arbitrary: t t' e ls)
  case Nil
  then show ?case by (simp add: utf8_lines_def)
next
  case (Cons b bs)
  from Cons.prems obtain t1 e1 l e2 ls2 where b: "process_byte b t = Some (t1, e1, l)" "process_bytes bs t1 = Some (t', e2, ls2)"
    and ls: "ls = (case l of Some l \<Rightarrow> l # ls2 | None \<Rightarrow> ls2)"
    by (auto split: option.splits)
  note p = process_byte_utf8 [OF Cons.prems(1) b(1)]
  with Cons.IH [OF _ b(2)] show ?case by (auto simp: ls utf8_lines_def split: option.split)
qed

subsection \<open>Typing a line\<close>

definition printable :: "u8 \<Rightarrow> bool" where
  "printable b \<longleftrightarrow> 0x20 \<le> b \<and> b < 0x7F"

lemma process_printable:
  assumes "printable b" and "esc_state t = Normal"
  shows "process_byte b t = insert_byte b t"
proof -
  have "b \<noteq> 0x0D" "b \<noteq> 0x0A" "b \<noteq> 0x7F" "b \<noteq> 0x08" "b \<noteq> 0x03" "b \<noteq> 0x04" "b \<noteq> 0x15" "b \<noteq> 0x0C" "b \<noteq> 0x09" "b \<noteq> 0x1B"
    using assms(1) by (auto simp: printable_def)
  with assms show ?thesis by (simp add: process_byte_def printable_def)
qed

lemma printable_ascii: "list_all printable (bytes_of s) \<Longrightarrow> ascii s"
  by (induction s) (simp_all add: ascii_def bytes_of_def printable_def word_less_nat_alt unat_of_nat)

text \<open>A terminal at the end of the line it is editing.\<close>

definition at_end :: "terminal_state \<Rightarrow> bool" where
  "at_end t \<longleftrightarrow> esc_state t = Normal \<and> cursor_pos t = length (line_buffer t)"

lemma process_typed_byte:
  assumes "at_end t" and "printable b" and "length (line_buffer t) < MAX_LINE_LENGTH"
  shows "process_byte b t = Some (append_line [b] t, [b], None)" "at_end (append_line [b] t)"
  using assms by (simp_all add: process_printable at_end_def insert_byte_def append_line_def)

lemma append_line_append [simp]: "append_line ys (append_line xs t) = append_line (xs @ ys) t"
  by (simp add: append_line_def)

lemma append_line_Nil: "at_end t \<Longrightarrow> append_line [] t = t"
  by (simp add: append_line_def at_end_def)

lemma line_append_line [simp]: "line_buffer (append_line bs t) = line_buffer t @ bs"
  by (simp add: append_line_def)

lemma process_enter:
  assumes "at_end t" and "line_buffer t = []" and "list_all printable (bytes_of s)"
  shows "process_byte 0x0D (append_line (bytes_of s) t)
     = Some (clear_line (push_history s (append_line (bytes_of s) t)), CRLF, Some s)"
  using assms by (simp add: process_byte_def enter_def append_line_def at_end_def lossy_ascii printable_ascii Let_def)

lemma process_typed:
  "at_end t \<Longrightarrow> list_all printable bs \<Longrightarrow> length (line_buffer t) + length bs \<le> MAX_LINE_LENGTH \<Longrightarrow>
   process_bytes (bs @ cs) t =
     (case process_bytes cs (append_line bs t) of
        None \<Rightarrow> None | Some (t', e, ls) \<Rightarrow> Some (t', bs @ e, ls))"
proof (induction bs arbitrary: t)
  case Nil
  then show ?case by (simp add: append_line_Nil split: option.splits prod.splits)
next
  case (Cons b bs)
  then show ?case
    using process_typed_byte [of t b] Cons.IH [of "append_line [b] t"] by (simp split: option.splits prod.splits)
qed


subsection \<open>Properties\<close>

text \<open>No input crashes the line editor: whatever bytes arrive, in whatever order, every index stays in range
  (no operation panics), the cursor stays within the line, at most 100 lines of history are kept and
  history navigation points into them.\<close>

theorem terminal_total:
  "\<exists>t echo lines. process_bytes bs terminal_new = Some (t, echo, lines) \<and> cursor_pos t \<le> length (line_buffer t)
     \<and> length (history t) \<le> 100 \<and> (\<forall>i. history_index t = Some i \<longrightarrow> i < length (history t))"
  using process_bytes_state [OF term_inv_new, of bs] terminal.run_inv [OF term_inv_new, of bs]
  by (auto simp: term_inv_def MAX_HISTORY_def)

theorem terminal_total_witness:
  "\<exists>t echo lines. process_bytes [0x1B, 0x5B, 0x41, 0x7F, 0x61, 0x0D, 0x1B, 0x5B, 0x41] terminal_new = Some (t, echo, lines)
     \<and> cursor_pos t \<le> length (line_buffer t)"
  using terminal_total [of "[0x1B, 0x5B, 0x41, 0x7F, 0x61, 0x0D, 0x1B, 0x5B, 0x41]"] by blast

text \<open>The line editor keeps the type invariant of strings: whatever bytes arrive, every completed line and every line in the
  history is well-formed UTF-8.\<close>

theorem completed_lines_utf8:
  assumes "process_bytes bs terminal_new = Some (t, echo, lines)"
  shows "(\<forall>l \<in> set lines. valid_utf8 (bytes_of l)) \<and> (\<forall>l \<in> set (history t). valid_utf8 (bytes_of l))"
  using process_bytes_utf8 [OF _ assms] by (simp add: utf8_lines_def terminal_new_def list_all_iff)

theorem completed_lines_utf8_witness:
  "\<exists>t echo lines. process_bytes [0xFF, 0x0D] terminal_new = Some (t, echo, lines) \<and> (\<forall>l \<in> set lines. valid_utf8 (bytes_of l))"
proof -
  obtain t echo lines where "process_bytes [0xFF, 0x0D] terminal_new = Some (t, echo, lines)"
    using process_bytes_state [OF term_inv_new] by blast
  with completed_lines_utf8 show ?thesis by blast
qed

text \<open>The line that is executed is the line that was typed: printable ASCII characters typed into an empty line, up
  to the length limit, are echoed one by one, and Enter completes exactly this line and empties the
  editor.\<close>

theorem typed_line_completes:
  assumes "at_end t" and "line_buffer t = []" and "list_all printable (bytes_of s)" and "length s \<le> 4096"
  shows "process_bytes (bytes_of s @ [0x0D]) t = Some (clear_line (push_history s (append_line (bytes_of s) t)), bytes_of s @ CRLF, [s])"
  using assms by (simp add: process_typed process_enter MAX_LINE_LENGTH_def)

theorem typed_line_completes_witness:
  "process_bytes (bytes_of ''ls'' @ [0x0D]) terminal_new
   = Some (clear_line (push_history ''ls'' (append_line (bytes_of ''ls'') terminal_new)), bytes_of ''ls'' @ CRLF, [''ls''])"
  by (rule typed_line_completes) (simp_all add: at_end_def terminal_new_def bytes_of_def printable_def)

text \<open>Completion extends the line with what all candidates agree on: a string is a prefix of the computed common
  prefix if and only if it is a prefix of every candidate.\<close>

theorem common_prefix_longest:
  assumes "ss \<noteq> []"
  shows "starts_with p (common_prefix ss) \<longleftrightarrow> (\<forall>s \<in> set ss. starts_with p s)"
proof
  assume p: "starts_with p (common_prefix ss)"
  obtain first rest where ss: "ss = first # rest" using assms by (cases ss) auto
  have f: "starts_with p first" "length p \<le> foldl (common_len first) (length first) rest"
    using p by (simp_all add: ss common_prefix_def starts_with_take)
  then have "\<forall>s \<in> set rest. take (length p) first = take (length p) s"
    using foldl_common_len_le [OF starts_with_length [OF f(1)]] by blast
  with f(1) show "\<forall>s \<in> set ss. starts_with p s" by (simp add: ss starts_with_def)
next
  assume "\<forall>s \<in> set ss. starts_with p s"
  with assms show "starts_with p (common_prefix ss)" by (intro common_prefix_extends) auto
qed

theorem common_prefix_longest_witness:
  "starts_with ''c'' (common_prefix [''cat'', ''cd'', ''clear''])"
  using common_prefix_longest [of "[''cat'', ''cd'', ''clear'']" "''c''"] by (simp add: starts_with_def)

text \<open>Looking through the history loses nothing: from a line being edited, one step up shows the last command and
  one step down brings the line back, with the cursor at its end.\<close>

theorem history_round_trip:
  assumes "term_inv t" and "history_index t = None" and "history t \<noteq> []"
  shows "\<exists>t1 e1 t2 e2. history_prev t = Some (t1, e1, None) \<and> line_buffer t1 = bytes_of (last (history t))
     \<and> history_next t1 = Some (t2, e2, None) \<and> line_buffer t2 = line_buffer t \<and> history_index t2 = None
     \<and> history t2 = history t"
  using assms
  by (auto simp: history_prev_def goto_history_def replace_line_def history_next_def last_conv_nth Let_def)

theorem history_round_trip_witness:
  "\<exists>t1 e1. history_prev (terminal_new\<lparr>history := [''pwd''], line_buffer := [0x6C]\<rparr>) = Some (t1, e1, None)
     \<and> line_buffer t1 = bytes_of ''pwd''"
  using history_round_trip [of "terminal_new\<lparr>history := [''pwd''], line_buffer := [0x6C]\<rparr>"]
  by (auto simp: term_inv_def terminal_new_def MAX_HISTORY_def)

text \<open>The length limit holds for typed bytes only: a line of ill-formed bytes comes back from the history three times
  as long.\<close>

lemma recalled_line_grows:
  "line_buffer (fst (the (process_bytes ([0x80, 0x80, 0x0D, 0x1B, 0x5B, 0x41]) terminal_new)))
   = [0xEF, 0xBF, 0xBD, 0xEF, 0xBF, 0xBD]"
  by code_simp

end
