(* ===== verification/Shell.thy ===== *)
theory Shell
  imports Shell_Commands Terminal
begin

text \<open>
  Models \<open>src/shell/executor.rs\<close> and \<open>src/shell/mod.rs\<close>: a command line is trimmed, split and
  executed; a shell session feeds the bytes of its channel to the line editor, executes every
  completed line and writes echo, output and prompt back. What a session sends is a list of
  \<open>shell_out\<close>; the result of a write is ignored, as in the source. \<^const>\<open>None\<close> is a panic.
\<close>

subsection \<open>Executor\<close>

record 'net executor =
  ex_state :: "'net shell_state"
  ex_username :: string
  ex_hostname :: string

definition executor_new :: "string \<Rightarrow> string \<Rightarrow> 'net executor" where
  "executor_new username hostname =
     \<lparr>ex_state = (virtual_fs_new username hostname, None), ex_username = username, ex_hostname = hostname\<rparr>"

definition set_executor_context :: "'net shell_context \<Rightarrow> 'net executor \<Rightarrow> 'net executor" where
  "set_executor_context ctx ex = ex\<lparr>ex_state := (fst (ex_state ex), Some ctx)\<rparr>"

definition execute :: "('net, 'f) shell_ops \<Rightarrow> string \<Rightarrow> 'net executor \<Rightarrow> 'net executor \<times> command_result" where
  "execute P line ex =
     (let line = trim_str line in
      if line = [] then (ex, result_empty)
      else case tokenize line of
        [] \<Rightarrow> (ex, result_empty)
      | cmd # args \<Rightarrow>
          (let (st, r) = execute_command P (ex_username ex) (ex_hostname ex) cmd args (ex_state ex) in (ex\<lparr>ex_state := st\<rparr>, r)))"

definition format_cwd :: "'net executor \<Rightarrow> string" where
  "format_cwd ex =
     (let cwd = vcwd (fst (ex_state ex)); home = vhome (fst (ex_state ex)) in
      if cwd = home then ''~''
      else case strip_prefix home cwd of Some rest \<Rightarrow> ''~'' @ rest | None \<Rightarrow> cwd)"

definition prompt :: "'net executor \<Rightarrow> string" where
  "prompt ex = ex_username ex @ ''@'' @ ex_hostname ex @ '':'' @ format_cwd ex @ ''$ ''"

subsection \<open>Session\<close>

record 'net shell_session =
  sh_terminal :: terminal_state
  sh_executor :: "'net executor"
  sh_closed :: bool
  sh_motd :: "string option"

datatype shell_out = Data "u8 list" | CloseChannel

definition session_new :: "string \<Rightarrow> string \<Rightarrow> 'net shell_session" where
  "session_new username hostname =
     \<lparr>sh_terminal = terminal_new, sh_executor = executor_new username hostname, sh_closed = False, sh_motd = None\<rparr>"

definition set_context :: "'net shell_context \<Rightarrow> 'net shell_session \<Rightarrow> 'net shell_session" where
  "set_context ctx sess =
     sess\<lparr>sh_terminal := (sh_terminal sess)\<lparr>autocomplete := sc_colors ctx\<rparr>,
          sh_executor := set_executor_context ctx (sh_executor sess)\<rparr>"

definition set_motd :: "string \<Rightarrow> 'net shell_session \<Rightarrow> 'net shell_session" where
  "set_motd motd sess = sess\<lparr>sh_motd := Some motd\<rparr>"

definition take_motd :: "'net shell_session \<Rightarrow> 'net shell_session \<times> string option" where
  "take_motd sess = (sess\<lparr>sh_motd := None\<rparr>, sh_motd sess)"

definition set_terminal_size :: "u32 \<Rightarrow> u32 \<Rightarrow> 'net shell_session \<Rightarrow> 'net shell_session" where
  "set_terminal_size c r sess = sess\<lparr>sh_terminal := set_size c r (sh_terminal sess)\<rparr>"

definition send_prompt :: "'net shell_session \<Rightarrow> shell_out list" where
  "send_prompt sess = [Data (bytes_of (prompt (sh_executor sess)))]"

definition data_out :: "u8 list \<Rightarrow> shell_out list" where
  "data_out bs = (if bs \<noteq> [] then [Data bs] else [])"

fun input_loop ::
  "('net, 'f) shell_ops \<Rightarrow> u8 list \<Rightarrow> 'net shell_session \<Rightarrow> ('net shell_session \<times> shell_out list) option" where
  "input_loop P [] sess = Some (sess, [])"
| "input_loop P (byte # bytes) sess =
     (case process_byte byte (sh_terminal sess) of
        None \<Rightarrow> None
      | Some (t, echo, completed_line) \<Rightarrow>
          (let sess1 = sess\<lparr>sh_terminal := t\<rparr>; o1 = data_out echo in
           case completed_line of
             None \<Rightarrow> map_option (\<lambda>(s, os). (s, o1 @ os)) (input_loop P bytes sess1)
           | Some line \<Rightarrow>
               if line = [] then map_option (\<lambda>(s, os). (s, o1 @ send_prompt sess1 @ os)) (input_loop P bytes sess1)
               else
                 (let (ex, r) = execute P line (sh_executor sess1); sess2 = sess1\<lparr>sh_executor := ex\<rparr>;
                      o2 = data_out (bytes_of (out_text r)) in
                  if exit_requested r then Some (sess2\<lparr>sh_closed := True\<rparr>, o1 @ o2 @ [CloseChannel])
                  else map_option (\<lambda>(s, os). (s, o1 @ o2 @ send_prompt sess2 @ os)) (input_loop P bytes sess2))))"

definition handle_input ::
  "('net, 'f) shell_ops \<Rightarrow> u8 list \<Rightarrow> 'net shell_session \<Rightarrow> ('net shell_session \<times> shell_out list) option" where
  "handle_input P data sess = (if sh_closed sess then Some (sess, []) else input_loop P data sess)"

text \<open>All the input of a session, packet by packet.\<close>

fun handle_inputs ::
  "('net, 'f) shell_ops \<Rightarrow> u8 list list \<Rightarrow> 'net shell_session \<Rightarrow> ('net shell_session \<times> shell_out list) option" where
  "handle_inputs P [] sess = Some (sess, [])"
| "handle_inputs P (d # ds) sess =
     (case handle_input P d sess of
        None \<Rightarrow> None
      | Some (sess1, os) \<Rightarrow> map_option (\<lambda>(s, os2). (s, os @ os2)) (handle_inputs P ds sess1))"

subsection \<open>Lemmas\<close>

lemma same_shell_trans: "same_shell a b \<Longrightarrow> same_shell b c \<Longrightarrow> same_shell a c"
proof (cases a; cases b; cases c)
  fix fa ca fb cb fc cc
  assume s: "same_shell a b" "same_shell b c" and [simp]: "a = (fa, ca)" "b = (fb, cb)" "c = (fc, cc)"
  have "rel_option same_session ca cc"
    using s same_session_trans by (cases ca; cases cb; cases cc) (simp_all, blast)
  with s show "same_shell a c" by simp
qed

lemma execute_frame:
  "same_shell (ex_state ex) (ex_state (fst (execute P line ex)))" "ex_username (fst (execute P line ex)) = ex_username ex"
  "ex_hostname (fst (execute P line ex)) = ex_hostname ex"
  by (simp_all add: execute_def Let_def case_prod_beta execute_command_frame split: list.split)

text \<open>What every input keeps, relative to the state a session started with.\<close>

definition session_inv :: "'net shell_state \<Rightarrow> 'net shell_session \<Rightarrow> bool" where
  "session_inv st0 sess \<longleftrightarrow> term_inv (sh_terminal sess) \<and> same_shell st0 (ex_state (sh_executor sess))"

lemma input_loop_total:
  "session_inv st0 sess \<Longrightarrow> \<exists>s os. input_loop P bytes sess = Some (s, os) \<and> session_inv st0 s"
proof (induction bytes arbitrary: sess)
  case (Cons b bytes)
  obtain t echo l where b: "process_byte b (sh_terminal sess) = Some (t, echo, l)" "term_inv t"
    using Cons.prems safeD [OF safe_process_byte] unfolding session_inv_def by blast
  let ?s1 = "sess\<lparr>sh_terminal := t\<rparr>"
  have s1: "session_inv st0 ?s1" using Cons.prems b by (simp add: session_inv_def)
  have s2: "session_inv st0 (?s1\<lparr>sh_executor := fst (execute P line (sh_executor sess))\<rparr>)" for line
    using s1 execute_frame(1) same_shell_trans by (simp add: session_inv_def) blast
  then have s3: "session_inv st0 (?s1\<lparr>sh_executor := fst (execute P line (sh_executor sess)), sh_closed := True\<rparr>)" for line
    by (simp add: session_inv_def)
  show ?case
    using Cons.IH [OF s1] Cons.IH [OF s2] s3 b(1)
    by (auto simp: Let_def case_prod_beta split: option.split)
qed simp

lemma handle_input_total:
  "session_inv st0 sess \<Longrightarrow> \<exists>s os. handle_input P d sess = Some (s, os) \<and> session_inv st0 s"
  using input_loop_total [of st0 sess P d] by (auto simp: handle_input_def)

lemma handle_inputs_total:
  "session_inv st0 sess \<Longrightarrow> \<exists>s os. handle_inputs P ds sess = Some (s, os) \<and> session_inv st0 s"
proof (induction ds arbitrary: sess)
  case (Cons d ds)
  obtain s os where "handle_input P d sess = Some (s, os)" "session_inv st0 s"
    using handle_input_total [OF Cons.prems] by blast
  with Cons.IH [of s] show ?case by auto
qed simp

lemma session_new_inv: "session_inv (ex_state (sh_executor (set_context c (session_new u h)))) (set_context c (session_new u h))"
  using term_inv_new by (simp add: session_inv_def session_new_def set_context_def term_inv_def)

text \<open>The channel is closed last, and by an exit only.\<close>

definition ends_with_close :: "bool \<Rightarrow> shell_out list \<Rightarrow> bool" where
  "ends_with_close closed os \<longleftrightarrow>
     CloseChannel \<notin> set (butlast os) \<and> (closed \<longleftrightarrow> os \<noteq> [] \<and> last os = CloseChannel)"

lemma data_out_no_close [simp]: "CloseChannel \<notin> set (data_out bs)" "CloseChannel \<notin> set (send_prompt s)"
  by (simp_all add: data_out_def send_prompt_def)

lemma ends_with_close_append:
  "CloseChannel \<notin> set xs \<Longrightarrow> ends_with_close c os \<Longrightarrow> ends_with_close c (xs @ os)"
  by (cases "os = []") (auto simp: ends_with_close_def butlast_append dest: in_set_butlastD last_in_set)

lemma ends_with_close_exit: "CloseChannel \<notin> set xs \<Longrightarrow> ends_with_close True (xs @ [CloseChannel])"
  by (simp add: ends_with_close_def)

lemma input_loop_close:
  "\<not> sh_closed sess \<Longrightarrow> input_loop P bytes sess = Some (s, os) \<Longrightarrow> ends_with_close (sh_closed s) os"
proof (induction bytes arbitrary: sess s os)
  case Nil
  then show ?case by (simp add: ends_with_close_def)
next
  case (Cons b bytes)
  obtain t echo l where b: "process_byte b (sh_terminal sess) = Some (t, echo, l)"
    using Cons.prems(2) by (auto split: option.splits)
  let ?s1 = "sess\<lparr>sh_terminal := t\<rparr>"
  show ?case
  proof (cases "l = None \<or> l = Some []")
    case True
    with Cons.prems b Cons.IH [of ?s1] show ?thesis
      by (auto simp: Let_def intro!: ends_with_close_append)
  next
    case False
    then obtain line where l: "l = Some line" "line \<noteq> []" by auto
    obtain ex r where x: "execute P line (sh_executor sess) = (ex, r)" by fastforce
    let ?s2 = "?s1\<lparr>sh_executor := ex\<rparr>" and ?o = "data_out echo @ data_out (bytes_of (out_text r))"
    have o: "CloseChannel \<notin> set ?o" "CloseChannel \<notin> set (?o @ send_prompt ?s2)" by simp_all
    show ?thesis
    proof (cases "exit_requested r")
      case True
      with Cons.prems b l x ends_with_close_exit [OF o(1)] show ?thesis by (auto simp: Let_def)
    next
      case False
      then obtain os' where "input_loop P bytes ?s2 = Some (s, os')" "os = (?o @ send_prompt ?s2) @ os'"
        using Cons.prems b l x by (auto simp: Let_def)
      with Cons.IH [of ?s2] Cons.prems(1) ends_with_close_append [OF o(2)] show ?thesis by simp
    qed
  qed
qed

lemma handle_inputs_closed: "sh_closed sess \<Longrightarrow> handle_inputs P ds sess = Some (sess, [])"
  by (induction ds) (simp_all add: handle_input_def)

lemma handle_inputs_close:
  "\<not> sh_closed sess \<Longrightarrow> handle_inputs P ds sess = Some (s, os) \<Longrightarrow> ends_with_close (sh_closed s) os"
proof (induction ds arbitrary: sess s os)
  case Nil
  then show ?case by (simp add: ends_with_close_def)
next
  case (Cons d ds)
  from Cons.prems obtain s1 o1 o2 where h: "input_loop P d sess = Some (s1, o1)" "handle_inputs P ds s1 = Some (s, o2)" "os = o1 @ o2"
    by (auto simp: handle_input_def split: option.splits)
  have c1: "ends_with_close (sh_closed s1) o1" by (rule input_loop_close [OF Cons.prems(1) h(1)])
  show ?case
  proof (cases "sh_closed s1")
    case True
    with h c1 show ?thesis by (simp add: handle_inputs_closed)
  next
    case False
    then have "CloseChannel \<notin> set o1" using c1 by (cases o1 rule: rev_cases) (auto simp: ends_with_close_def)
    with Cons.IH [OF False h(2)] h(3) show ?thesis by (simp add: ends_with_close_append)
  qed
qed

text \<open>Typed characters are echoed one by one.\<close>

lemma input_loop_typed:
  "at_end (sh_terminal sess) \<Longrightarrow> list_all printable bs \<Longrightarrow> length (line_buffer (sh_terminal sess)) + length bs \<le> MAX_LINE_LENGTH \<Longrightarrow>
   input_loop P (bs @ cs) sess =
     map_option (\<lambda>(s, os). (s, map (\<lambda>b. Data [b]) bs @ os))
       (input_loop P cs (sess\<lparr>sh_terminal := append_line bs (sh_terminal sess)\<rparr>))"
proof (induction bs arbitrary: sess)
  case Nil
  then show ?case by (simp add: append_line_Nil option.map_ident)
next
  case (Cons b bs)
  let ?s = "sess\<lparr>sh_terminal := append_line [b] (sh_terminal sess)\<rparr>"
  have "process_byte b (sh_terminal sess) = Some (append_line [b] (sh_terminal sess), [b], None)" "at_end (sh_terminal ?s)"
    using process_typed_byte [of "sh_terminal sess" b] Cons.prems by simp_all
  with Cons.IH [of ?s] Cons.prems show ?case
    by (simp add: data_out_def option.map_comp comp_def case_prod_beta)
qed

lemma clear_line_facts [simp]: "line_buffer (clear_line t) = []" "at_end (clear_line t) = (esc_state t = Normal)"
  by (simp_all add: clear_line_def at_end_def)

lemma push_history_esc [simp]: "esc_state (push_history l t) = esc_state t" "esc_state (append_line bs t) = esc_state t"
  by (simp_all add: push_history_def append_line_def Let_def)

lemma alias_run_defines:
  assumes "alias_command (sc_permissions c)" and "name \<noteq> []" and "CHR ''='' \<notin> set name" and "w \<noteq> []"
  shows "fst (alias_run ((name @ ''='' @ w) # ws) c) = c\<lparr>sc_aliases := dm_insert name (join '' '' (w # ws)) (sc_aliases c)\<rparr>"
proof -
  let ?f = "name @ CHR ''='' # w"
  have "CHR ''='' \<in> set ?f" by simp
  moreover have "CHR ''='' \<notin> set ''remove''" "CHR ''='' \<notin> set ''rm''" "CHR ''='' \<notin> set ''del''" by simp_all
  ultimately have n: "?f \<noteq> ''remove''" "?f \<noteq> ''rm''" "?f \<noteq> ''del''" by metis+
  have j: "join '' '' (w # ws) = (if ws \<noteq> [] then w @ '' '' @ join '' '' ws else w)" by (cases ws) simp_all
  show ?thesis
    using assms n by (simp add: alias_run_def find_char_append alias_set_def Let_def j)
qed

lemma parse_host_port_shown:
  assumes "host \<noteq> []" and "\<not> starts_with ''['' host"
  shows "parse_host_port (host @ '':'' @ show_nat (unat port)) = Some (host, port)"
proof -
  have "\<not> starts_with ''['' (host @ CHR '':'' # show_nat (unat port))"
    using assms by (cases host) (simp_all add: starts_with_def)
  then show ?thesis
    using assms rfind_char_append [OF show_nat_chars(2), of host "unat port"]
    by (simp add: parse_host_port_def)
qed

subsection \<open>A concrete session\<close>

definition sample_shell_context :: "ipaddr shell_context" where
  "sample_shell_context =
     \<lparr>sc_username = ''al'', sc_auth_method = ''password'', sc_source_ip = ''192.0.2.7'', sc_role = RoleUser, sc_group = None,
      sc_permissions = shell_permissions_default\<lparr>ping_command := False\<rparr>, sc_acl = sample_acl, sc_colors = False,
      sc_expires_at = None, sc_max_bandwidth_kbps = 0, sc_bookmarks = [], sc_aliases = [(''p'', ''ping -q'')],
      sc_ssh_key_fingerprint = None, sc_proxy_engine = None, sc_quota_tracker = None, sc_quota_config = None\<rparr>"

subsection \<open>Properties\<close>

text \<open>C23: the shell is safe against its input: whatever bytes a client sends, in whatever packets, the session neither
  panics nor leaves its sandbox. The virtual files and directories are those it was created with, the
  working directory stays one of them, and user, role, permissions and access rules of the session
  are unchanged; only bookmarks, aliases and the rolled usage windows may differ.\<close>

theorem shell_session_safe:
  assumes "clean u" and "sess0 = set_context c (session_new u h)"
  shows "\<exists>s os fs c'. handle_inputs P ds sess0 = Some (s, os) \<and> ex_state (sh_executor s) = (fs, Some c')
     \<and> vfiles fs = vfiles (virtual_fs_new u h) \<and> vdirs fs = vdirs (virtual_fs_new u h) \<and> vcwd fs \<in> set (vdirs fs)
     \<and> sc_username c' = sc_username c \<and> sc_role c' = sc_role c \<and> sc_permissions c' = sc_permissions c \<and> sc_acl c' = sc_acl c"
proof -
  obtain s os where run: "handle_inputs P ds sess0 = Some (s, os)" and inv: "session_inv (ex_state (sh_executor sess0)) s"
    using handle_inputs_total [OF session_new_inv] assms(2) by blast
  have st0: "ex_state (sh_executor sess0) = (virtual_fs_new u h, Some c)"
    by (simp add: assms(2) set_context_def set_executor_context_def session_new_def executor_new_def)
  obtain fs co where st: "ex_state (sh_executor s) = (fs, co)" by fastforce
  with inv st0 obtain c' where "co = Some c'" "same_session c c'"
    by (auto simp: session_inv_def option_rel_Some1)
  with run st inv st0 new_inv [OF assms(1)] show ?thesis
    using same_session_fields [OF \<open>same_session c c'\<close>] by (auto simp: session_inv_def fs_inv_def is_dir_def)
qed

theorem shell_session_safe_witness:
  "\<exists>s os fs c'. handle_inputs sample_shell_ops [[0x63, 0x64, 0x20], [0x2F, 0x0D, 0x04]] (set_context sample_shell_context (session_new ''al'' ''s5'')) = Some (s, os)
     \<and> ex_state (sh_executor s) = (fs, Some c') \<and> vcwd fs \<in> set (vdirs fs)"
proof -
  have "clean ''al''" by (simp add: clean_def)
  from shell_session_safe [OF this HOL.refl, of sample_shell_ops "[[0x63, 0x64, 0x20], [0x2F, 0x0D, 0x04]]" sample_shell_context "''s5''"]
  show ?thesis by metis
qed

text \<open>An exit ends the session for good: a session closes its channel at most once, sends nothing after that whatever
  still arrives, and is closed exactly if it has closed its channel.\<close>

theorem shell_closes_once:
  assumes "\<not> sh_closed sess" and "handle_inputs P ds sess = Some (s, os)"
  shows "CloseChannel \<notin> set (butlast os) \<and> (sh_closed s \<longleftrightarrow> os \<noteq> [] \<and> last os = CloseChannel)"
  using handle_inputs_close [OF assms] by (simp add: ends_with_close_def)

theorem shell_closes_once_witness:
  "\<exists>s os. handle_inputs sample_shell_ops [[0x04], [0x61]] (set_context sample_shell_context (session_new ''al'' ''s5'')) = Some (s, os)
     \<and> CloseChannel \<notin> set (butlast os) \<and> (sh_closed s \<longleftrightarrow> os \<noteq> [] \<and> last os = CloseChannel)"
proof -
  let ?s0 = "set_context sample_shell_context (session_new ''al'' ''s5'')"
  have "\<not> sh_closed ?s0" by (simp add: set_context_def session_new_def)
  moreover obtain s os where "handle_inputs sample_shell_ops [[0x04], [0x61]] ?s0 = Some (s, os)"
    using handle_inputs_total [OF session_new_inv] by blast
  ultimately show ?thesis using shell_closes_once by blast
qed

text \<open>Permissions bind: a command whose permission is withdrawn, called by its name or through an alias, changes
  nothing and answers with a refusal.\<close>

theorem shell_permissions_bind:
  assumes "expand c cmd args = (cmd', args')" and "\<not> permitted (sc_permissions c) cmd' args'"
  shows "\<exists>r. execute_command P u h cmd args (fs, Some c) = ((fs, Some c), r) \<and> starts_with ''Permission denied: '' (out_text r)"
  using execute_inner_denied [OF assms(2)] by (simp add: execute_command_expand assms(1) refusal_def) blast

theorem shell_permissions_bind_witness:
  "\<exists>r. execute_command sample_shell_ops ''al'' ''s5'' ''p'' [''example.org''] (virtual_fs_new ''al'' ''s5'', Some sample_shell_context)
     = ((virtual_fs_new ''al'' ''s5'', Some sample_shell_context), r) \<and> starts_with ''Permission denied: '' (out_text r)"
proof (rule shell_permissions_bind)
  have "tokenize ''ping -q'' = [''ping'', ''-q'']" by code_simp
  then show "expand sample_shell_context ''p'' [''example.org''] = (''ping'', [''-q'', ''example.org''])"
    by (simp add: expand_def sample_shell_context_def)
  show "\<not> permitted (sc_permissions sample_shell_context) ''ping'' [''-q'', ''example.org'']"
    by (simp add: permitted_def sample_shell_context_def)
qed

text \<open>C25: A typed command is executed as typed: printable characters entered on an empty line, then Enter, produce the
  echo, the output of this command line, and the prompt of the state it leaves; the executor runs it
  exactly once.\<close>

theorem typed_command_executes:
  assumes "\<not> sh_closed sess" and "at_end (sh_terminal sess)" and "line_buffer (sh_terminal sess) = []"
    and "list_all printable (bytes_of s)" and "length s \<le> 4096" and "s \<noteq> []"
    and "execute P s (sh_executor sess) = (ex, r)" and "\<not> exit_requested r"
  shows "\<exists>t. handle_input P (bytes_of s @ [0x0D]) sess
     = Some (sess\<lparr>sh_terminal := t, sh_executor := ex\<rparr>,
         map (\<lambda>b. Data [b]) (bytes_of s) @ Data CRLF # data_out (bytes_of (out_text r)) @ [Data (bytes_of (prompt ex))])
     \<and> at_end t \<and> line_buffer t = []"
proof -
  let ?t = "sh_terminal sess" and ?t' = "clear_line (push_history s (append_line (bytes_of s) (sh_terminal sess)))"
  have "input_loop P [0x0D] (sess\<lparr>sh_terminal := append_line (bytes_of s) ?t\<rparr>)
      = Some (sess\<lparr>sh_terminal := ?t', sh_executor := ex\<rparr>, Data CRLF # data_out (bytes_of (out_text r)) @ [Data (bytes_of (prompt ex))])"
    using assms by (simp add: process_enter data_out_def send_prompt_def CRLF_def)
  then have "handle_input P (bytes_of s @ [0x0D]) sess = Some (sess\<lparr>sh_terminal := ?t', sh_executor := ex\<rparr>,
      map (\<lambda>b. Data [b]) (bytes_of s) @ Data CRLF # data_out (bytes_of (out_text r)) @ [Data (bytes_of (prompt ex))])"
    using assms(1-5) by (simp add: handle_input_def input_loop_typed MAX_LINE_LENGTH_def)
  moreover have "at_end ?t'" "line_buffer ?t' = []" using assms(2) by (simp_all add: at_end_def [of "sh_terminal sess"])
  ultimately show ?thesis by blast
qed

theorem typed_command_executes_witness:
  "\<exists>t. handle_input sample_shell_ops (bytes_of ''pwd'' @ [0x0D]) (session_new ''al'' ''s5'' :: ipaddr shell_session)
     = Some ((session_new ''al'' ''s5'')\<lparr>sh_terminal := t, sh_executor := executor_new ''al'' ''s5''\<rparr>,
         map (\<lambda>b. Data [b]) (bytes_of ''pwd'') @ Data CRLF # data_out (bytes_of (out_text (pwd_run (virtual_fs_new ''al'' ''s5''))))
           @ [Data (bytes_of (prompt (executor_new ''al'' ''s5'' :: ipaddr executor)))])
     \<and> at_end t \<and> line_buffer t = []"
proof (rule typed_command_executes)
  have t: "trim_str ''pwd'' = ''pwd''" "tokenize ''pwd'' = [''pwd'']" by code_simp+
  show "execute sample_shell_ops ''pwd'' (sh_executor (session_new ''al'' ''s5''))
      = (executor_new ''al'' ''s5'', pwd_run (virtual_fs_new ''al'' ''s5''))"
    unfolding execute_def t Let_def
    by (simp add: session_new_def executor_new_def execute_command_def execute_inner_def)
qed (simp_all add: session_new_def terminal_new_def at_end_def bytes_of_def printable_def pwd_run_def result_output_def)

text \<open>An alias stands for the words it was given: after \<open>alias name=w ...\<close> with plain words, the line \<open>name args\<close> runs
  the command \<open>w\<close> with the remaining words and \<open>args\<close>, and it is not expanded again, so an alias may
  name itself.\<close>

theorem alias_round_trip:
  assumes "alias_command (sc_permissions c)" and "name \<noteq> []" and "CHR ''='' \<notin> set name" and "list_all word (w # ws)"
    and "c' = fst (alias_run ((name @ ''='' @ w) # ws) c)"
  shows "execute_command P u h name args (fs, Some c') = execute_inner P u h w (ws @ args) (fs, Some c')"
proof -
  have "w \<noteq> []" using assms(4) by (simp add: word_def)
  then have c': "c' = c\<lparr>sc_aliases := dm_insert name (join '' '' (w # ws)) (sc_aliases c)\<rparr>"
    unfolding assms(5) by (rule alias_run_defines [OF assms(1-3)])
  have "tokenize (join '' '' (w # ws)) = w # ws" using assms(4) by (rule tokenize_words)
  then show ?thesis by (simp add: c' execute_command_def)
qed

theorem alias_round_trip_witness:
  "execute_command sample_shell_ops ''al'' ''s5'' ''ls'' [''/etc''] (virtual_fs_new ''al'' ''s5'', Some (fst (alias_run [''ls=ls'', ''-l''] sample_shell_context)))
   = execute_inner sample_shell_ops ''al'' ''s5'' ''ls'' [''-l'', ''/etc''] (virtual_fs_new ''al'' ''s5'', Some (fst (alias_run [''ls=ls'', ''-l''] sample_shell_context)))"
proof -
  have "alias_command (sc_permissions sample_shell_context)" by (simp add: sample_shell_context_def shell_permissions_default_def)
  moreover have "list_all word [''ls'', ''-l'']" by (simp add: word_def special_def tok_chars is_whitespace_def white_space_def utf8_chars_ascii ascii_def bytes_of_def)
  ultimately show ?thesis
    using alias_round_trip [of sample_shell_context "''ls''" "''ls''" "[''-l'']" "fst (alias_run [''ls=ls'', ''-l''] sample_shell_context)"
        sample_shell_ops "''al''" "''s5''" "[''/etc'']" "virtual_fs_new ''al'' ''s5''"] by simp
qed

text \<open>The \<open>test\<close> command tells the truth: asked about \<open>host:port\<close> it answers \<open>ALLOWED\<close> exactly if the access rules of the
  session allow this destination before name resolution, and \<open>DENIED\<close> otherwise.\<close>

theorem test_command_truthful:
  assumes "test_command (sc_permissions c)" and "\<not> sc_colors c" and "host \<noteq> []" and "\<not> starts_with ''['' host"
  shows "starts_with (host @ '':'' @ show_nat (unat port) @ '' -> '' @
       (case check (sh_net P) (sc_acl c) host port None of Allow \<Rightarrow> ''ALLOWED'' | Deny \<Rightarrow> ''DENIED''))
     (out_text (test_run P [host @ '':'' @ show_nat (unat port)] c))"
  using parse_host_port_shown [OF assms(3,4), of port] assms(1,2) fst_check_verbose [of "sh_net P" "sc_acl c" host port None]
  by (simp add: test_run_def color_def result_output_def starts_with_iff case_prod_beta Let_def split: acl_policy.split)

theorem test_command_truthful_witness:
  "starts_with (''example.org'' @ '':'' @ show_nat (unat (80 :: u16)) @ '' -> '' @
       (case check sample_net sample_acl ''example.org'' 80 None of Allow \<Rightarrow> ''ALLOWED'' | Deny \<Rightarrow> ''DENIED''))
     (out_text (test_run sample_shell_ops [''example.org'' @ '':'' @ show_nat (unat (80 :: u16))] sample_shell_context))"
  using test_command_truthful [of sample_shell_context "''example.org''" 80 sample_shell_ops]
  by (simp add: sample_shell_context_def sample_shell_ops_def shell_permissions_default_def starts_with_def)

text \<open>\<open>ls\<close> takes every argument for a flag that contains an \<open>a\<close> or an \<open>l\<close>: the plain path of a home directory is
  listed in long format with its hidden entries.\<close>

lemma ls_path_taken_for_flags:
  assumes "CHR ''a'' \<in> set p" and "CHR ''l'' \<in> set p" and "\<not> starts_with ''-'' p" and "list_dir fs p = Inr es" and "es \<noteq> []"
  shows "ls_run [p] fs = ls_run [''-la'', p] fs"
  using assms by (simp add: ls_run_def starts_with_def)

end
