(* ===== verification/Motd.thy ===== *)
theory Motd
  imports Shell_Commands
begin

text \<open>
  Models \<open>src/motd.rs\<close>: the message of the day, a template with placeholders. The template is
  scanned once, byte by byte; a byte that is not part of a placeholder is pushed as the character
  with this code point, which takes two bytes when it is not ASCII. The clock reading of the expiry
  test is an argument.
\<close>

subsection \<open>Context\<close>

record motd_context =
  m_user :: string
  m_auth_method :: string
  m_source_ip :: string
  m_connections :: u32
  m_acl_policy :: string
  m_expires_at :: "string option"
  m_bandwidth_used :: u64
  m_bandwidth_limit :: u64
  m_last_login :: "string option"
  m_uptime :: nat
  m_version :: string
  m_group :: "string option"
  m_role :: string
  m_denied :: "string list"

definition format_uptime :: "nat \<Rightarrow> string" where
  "format_uptime total_secs =
     (let days = total_secs div 86400; hours = total_secs mod 86400 div 3600; minutes = total_secs mod 3600 div 60 in
      if days > 0 then show_nat days @ ''d '' @ show_nat hours @ ''h '' @ show_nat minutes @ ''m''
      else if hours > 0 then show_nat hours @ ''h '' @ show_nat minutes @ ''m''
      else show_nat minutes @ ''m'')"

text \<open>The day count of both dates, on non-negative numbers far from the bounds of \<open>i64\<close>.\<close>

definition rough_days :: "nat \<Rightarrow> nat \<Rightarrow> nat \<Rightarrow> int" where
  "rough_days year month day =
     int (year * 365 + year div 4) - int (year div 100) + int (year div 400) + int (month * 30) + int day"

definition is_within_7_days :: "nat \<Rightarrow> string \<Rightarrow> bool" where
  "is_within_7_days now_secs stamp =
     (if length stamp < 10 then False
      else case split_on CHR ''-'' (take 10 stamp) of
        [y, m, d] \<Rightarrow>
          (case (parse_uint (2 ^ 63) y, parse_uint (2 ^ 63) m, parse_uint (2 ^ 63) d) of
             (Some year, Some month, Some day) \<Rightarrow>
               (let remaining_secs = now_secs mod 31557600;
                    diff = rough_days year month day
                      - rough_days (1970 + now_secs div 31557600) (1 + remaining_secs div 2629800)
                          (1 + remaining_secs mod 2629800 div 86400)
                in 0 \<le> diff \<and> diff \<le> 7)
           | _ \<Rightarrow> False)
      | _ \<Rightarrow> False)"

subsection \<open>Rendering\<close>

definition sgr :: "string \<Rightarrow> string \<Rightarrow> string" where
  "sgr code text = ESC @ ''['' @ code @ ''m'' @ text @ ESC @ ''[0m''"

definition replacements ::
  "('net, 'f) shell_ops \<Rightarrow> nat \<Rightarrow> motd_context \<Rightarrow> bool \<Rightarrow> (string \<times> string) list" where
  "replacements P now ctx colors =
     [(''{user}'', if colors then sgr ''1;36'' (m_user ctx) else m_user ctx),
      (''{auth_method}'', m_auth_method ctx),
      (''{source_ip}'', m_source_ip ctx),
      (''{connections}'', show_nat (unat (m_connections ctx))),
      (''{acl_policy}'',
        if colors \<and> m_acl_policy ctx = ''allow'' then sgr ''32'' ''allow''
        else if colors \<and> m_acl_policy ctx = ''deny'' then sgr ''31'' ''deny'' else m_acl_policy ctx),
      (''{expires_at}'',
        case m_expires_at ctx of
          Some ts \<Rightarrow> if colors \<and> is_within_7_days now ts then sgr ''33'' ts else ts
        | None \<Rightarrow> ''never''),
      (''{bandwidth_used}'', format_bytes_used P (m_bandwidth_used ctx)),
      (''{bandwidth_limit}'', format_bytes P (m_bandwidth_limit ctx)),
      (''{last_login}'', case m_last_login ctx of Some ts \<Rightarrow> ts | None \<Rightarrow> ''first login''),
      (''{uptime}'', format_uptime (m_uptime ctx)),
      (''{version}'', m_version ctx),
      (''{group}'', case m_group ctx of Some g \<Rightarrow> g | None \<Rightarrow> ''none''),
      (''{role}'', if colors \<and> m_role ctx = ''admin'' then sgr ''1;35'' ''admin'' else m_role ctx),
      (''{denied}'', if m_denied ctx = [] then ''none'' else join '', '' (m_denied ctx))]"

text \<open>\<open>String::push\<close> of a byte taken for a code point.\<close>

definition push_latin1 :: "char \<Rightarrow> string" where
  "push_latin1 c =
     (let n = (of_char c :: nat) in
      if n < 128 then [c] else [char_of (192 + n div 64), char_of (128 + n mod 64)])"

text \<open>The scan; every key of the source is non-empty, so the index always advances.\<close>

function render_body :: "(string \<times> string) list \<Rightarrow> string \<Rightarrow> string" where
  "render_body R [] = []"
| "render_body R (c # cs) =
     (if c = CHR ''{'' then
        (case find (\<lambda>kv. starts_with (fst kv) (c # cs)) R of
           Some kv \<Rightarrow> snd kv @ render_body R (drop (length (fst kv) - 1) cs)
         | None \<Rightarrow> push_latin1 c @ render_body R cs)
      else push_latin1 c @ render_body R cs)"
  by pat_completeness auto

termination
  by (relation "measure (\<lambda>(R, s). length s)") auto

text \<open>The two \<open>str::replace\<close> calls.\<close>

fun collapse_crlf :: "string \<Rightarrow> string" where
  "collapse_crlf [] = []"
| "collapse_crlf [c] = [c]"
| "collapse_crlf (c # d # cs) =
     (if c = CHR 0x0D \<and> d = CHR 0x0A then CHR 0x0A # collapse_crlf cs else c # collapse_crlf (d # cs))"

definition expand_lf :: "string \<Rightarrow> string" where
  "expand_lf s = concat (map (\<lambda>c. if c = CHR 0x0A then EOL else [c]) s)"

definition render_motd :: "('net, 'f) shell_ops \<Rightarrow> nat \<Rightarrow> string \<Rightarrow> motd_context \<Rightarrow> bool \<Rightarrow> string" where
  "render_motd P now template ctx colors =
     expand_lf (collapse_crlf (render_body (replacements P now ctx colors) template))"

definition default_motd_template :: string where
  "default_motd_template =
     join EOL
       [''Welcome {user}!'',
        ''Role: {role} | Group: {group} | Auth: {auth_method}'',
        ''Source: {source_ip} | Connections: {connections}'',
        ''ACL Policy: {acl_policy} | Denied: {denied}'',
        ''Bandwidth: {bandwidth_used} / {bandwidth_limit}'',
        ''Expires: {expires_at}'',
        ''Server uptime: {uptime} | s5 v{version}'']"

definition resolve_motd_config ::
  "motd_config \<Rightarrow> motd_config option \<Rightarrow> motd_config option \<Rightarrow> bool \<times> string option \<times> bool" where
  "resolve_motd_config global grp usr =
     (let override = (\<lambda>(enabled, template, colors) c.
            case c of
              Some g \<Rightarrow> (motd_enabled g, if motd_template g \<noteq> None then motd_template g else template, motd_colors g)
            | None \<Rightarrow> (enabled, template, colors))
      in override (override (motd_enabled global, motd_template global, motd_colors global) grp) usr)"

subsection \<open>Lemmas\<close>

text \<open>A template as a list of pieces: literal text without a brace, and placeholders.\<close>

datatype piece = Text string | Placeholder string

fun piece_text :: "piece \<Rightarrow> string" where
  "piece_text (Text s) = s"
| "piece_text (Placeholder k) = k"

fun piece_value :: "(string \<times> string) list \<Rightarrow> piece \<Rightarrow> string" where
  "piece_value R (Text s) = concat (map push_latin1 s)"
| "piece_value R (Placeholder k) = the (map_of R k)"

fun wf_piece :: "(string \<times> string) list \<Rightarrow> piece \<Rightarrow> bool" where
  "wf_piece R (Text s) = (CHR ''{'' \<notin> set s)"
| "wf_piece R (Placeholder k) = (k \<in> fst ` set R)"

text \<open>Keys of the form \<open>{name}\<close>, none a prefix of another.\<close>

definition wf_keys :: "(string \<times> string) list \<Rightarrow> bool" where
  "wf_keys R \<longleftrightarrow> list_all (\<lambda>k. \<exists>n. k = ''{'' @ n @ ''}'' \<and> CHR ''}'' \<notin> set n) (map fst R) \<and> distinct (map fst R)"

lemma render_text: "CHR ''{'' \<notin> set s \<Longrightarrow> render_body R (s @ t) = concat (map push_latin1 s) @ render_body R t"
  by (induction s) auto

lemma key_prefix:
  assumes "CHR ''}'' \<notin> set n" and "CHR ''}'' \<notin> set m" and "starts_with (''{'' @ n @ ''}'') (''{'' @ m @ ''}'' @ t)"
  shows "n = m"
proof -
  obtain r where r: "n @ CHR ''}'' # r = m @ CHR ''}'' # t" using assms(3) by (auto simp: starts_with_iff)
  have "takeWhile (\<lambda>c. c \<noteq> CHR ''}'') (x @ CHR ''}'' # y) = x" if "CHR ''}'' \<notin> set x" for x y
    using that by (induction x) auto
  from this [OF assms(1)] this [OF assms(2)] r show ?thesis by metis
qed

lemma find_key:
  assumes "wf_keys R" and "(k, v) \<in> set R"
  shows "find (\<lambda>kv. starts_with (fst kv) (k @ t)) R = Some (k, v)"
proof -
  obtain n where n: "k = ''{'' @ n @ ''}''" "CHR ''}'' \<notin> set n"
    using assms by (force simp: wf_keys_def list_all_iff)
  have u: "kv = (k, v)" if kv: "kv \<in> set R" "starts_with (fst kv) (k @ t)" for kv
  proof -
    obtain m where m: "fst kv = ''{'' @ m @ ''}''" "CHR ''}'' \<notin> set m"
      using assms(1) kv(1) by (force simp: wf_keys_def list_all_iff)
    have "m = n" by (rule key_prefix [where t = t]) (use m n kv(2) in simp_all)
    then have "fst kv = k" using m n by simp
    moreover have "distinct (map fst R)" using assms(1) by (simp add: wf_keys_def)
    ultimately show ?thesis using kv(1) assms(2) by (metis eq_key_imp_eq_value prod.collapse)
  qed
  have "starts_with (fst (k, v)) (k @ t)" by (simp add: starts_with_def)
  then obtain x where x: "find (\<lambda>kv. starts_with (fst kv) (k @ t)) R = Some x"
    using assms(2) by (metis (no_types, lifting) find_None_iff not_Some_eq)
  then have "x \<in> set R" "starts_with (fst x) (k @ t)" by (auto simp: find_Some_iff)
  with u x show ?thesis by simp
qed

lemma render_key:
  assumes "wf_keys R" and "(k, v) \<in> set R"
  shows "render_body R (k @ t) = v @ render_body R t"
proof -
  obtain n where k: "k = CHR ''{'' # n @ ''}''" using assms by (force simp: wf_keys_def list_all_iff)
  then have d: "drop (length k - 1) ((n @ ''}'') @ t) = t" by simp
  show ?thesis using find_key [OF assms, of t] d by (simp add: k)
qed

lemma render_pieces:
  assumes "wf_keys R" and "list_all (wf_piece R) ps"
  shows "render_body R (concat (map piece_text ps)) = concat (map (piece_value R) ps)"
  using assms(2)
proof (induction ps)
  case (Cons p ps)
  show ?case
  proof (cases p)
    case (Placeholder k)
    with Cons.prems obtain v where v: "(k, v) \<in> set R" by auto
    moreover have "map_of R k = Some v" using v assms(1) by (simp add: wf_keys_def map_of_is_SomeI)
    ultimately show ?thesis using Cons Placeholder by (simp add: render_key [OF assms(1)])
  qed (use Cons in \<open>simp add: render_text\<close>)
qed simp

lemma wf_replacements: "wf_keys (replacements P now ctx colors)"
  unfolding wf_keys_def replacements_def by (simp add: Cons_eq_append_conv)

text \<open>Every line feed follows a carriage return.\<close>

fun lf_ok :: "bool \<Rightarrow> string \<Rightarrow> bool" where
  "lf_ok cr [] = True"
| "lf_ok cr (c # cs) = ((c = CHR 0x0A \<longrightarrow> cr) \<and> lf_ok (c = CHR 0x0D) cs)"

lemma lf_ok_expand: "lf_ok cr (expand_lf s)"
  by (induction s arbitrary: cr) (simp_all add: expand_lf_def EOL_def)

lemma lf_ok_nth: "lf_ok cr s \<Longrightarrow> Suc i < length s \<Longrightarrow> s ! Suc i = CHR 0x0A \<Longrightarrow> s ! i = CHR 0x0D"
proof (induction s arbitrary: i cr)
  case (Cons c s)
  then show ?case by (cases i; cases s) auto
qed simp

subsection \<open>Properties\<close>

text \<open>A message template renders to its text with each placeholder replaced by its value, once: values are not
  scanned again, so a user or group name that looks like a placeholder cannot inject another value.\<close>

theorem motd_no_injection:
  assumes "R = replacements P now ctx colors" and "list_all (wf_piece R) ps"
  shows "render_body R (concat (map piece_text ps)) = concat (map (piece_value R) ps)"
  using render_pieces [OF wf_replacements] assms by blast

definition sample_motd :: motd_context where
  "sample_motd =
     \<lparr>m_user = ''{role}'', m_auth_method = ''password'', m_source_ip = ''192.0.2.7'', m_connections = 0, m_acl_policy = ''deny'',
      m_expires_at = None, m_bandwidth_used = 0, m_bandwidth_limit = 0, m_last_login = None, m_uptime = 60, m_version = ''1.0.0'',
      m_group = None, m_role = ''user'', m_denied = []\<rparr>"

theorem motd_no_injection_witness:
  "render_body (replacements sample_shell_ops 0 sample_motd False) (concat (map piece_text [Text ''Hello '', Placeholder ''{user}'']))
   = ''Hello {role}''"
proof -
  let ?R = "replacements sample_shell_ops 0 sample_motd False"
  have m: "map_of ?R ''{user}'' = Some ''{role}''" by (simp add: replacements_def sample_motd_def)
  then have "''{user}'' \<in> fst ` set ?R" by (metis domI dom_map_of_conv_image_fst)
  then have "list_all (wf_piece ?R) [Text ''Hello '', Placeholder ''{user}'']" by simp
  from motd_no_injection [OF HOL.refl this] m show ?thesis by (simp add: push_latin1_def)
qed

text \<open>In a rendered message every line feed follows a carriage return, as terminals in raw mode need it.\<close>

theorem motd_line_ends:
  assumes "Suc i < length (render_motd P now template ctx colors)" and "render_motd P now template ctx colors ! Suc i = CHR 0x0A"
  shows "render_motd P now template ctx colors ! i = CHR 0x0D"
  using lf_ok_nth [OF lf_ok_expand] assms unfolding render_motd_def by blast

end
