(* ===== verification/Ssh_Handler.thy ===== *)
theory Ssh_Handler
  imports App_Context Shell Motd
begin

text \<open>
  Models \<open>src/ssh/handler.rs\<close> and \<open>src/ssh/session.rs\<close>: the per-connection handler of the SSH front
  end. Every callback of \<open>russh::server::Handler\<close> is a function on the shared context and the state of
  the connection; \<open>russh\<close> itself, which decodes the transport and calls them, decides the order of the
  events, so the theorems quantify over every sequence of events. What a shell sends is a list of
  \<open>ssh_out\<close>. The task spawned for a forwarded connection is the separate step \<open>run_relay\<close>.
  \<^const>\<open>None\<close> is a panic. Audit records and metrics are in \<open>Observe_Ssh\<close>.
\<close>

subsection \<open>State\<close>

record ssh_config = socks_config +
  ssh_auth_timeout :: nat
  max_auth_attempts :: u32
  shell_hostname :: string
  motd_cfg :: motd_config

text \<open>What the handler uses of the SSH and date libraries: the fingerprint of a key, and the RFC 3339
  text of an instant.\<close>

record ('net, 'pk, 'f) ssh_ops =
  shell_lib :: "('net, 'f) shell_ops"
  key_fingerprint :: "'pk \<Rightarrow> string"
  to_rfc3339 :: "int \<Rightarrow> string"

record ssh_clock = clock +
  at_timeout :: instant
  at_motd :: nat

record client_session =
  cs_username :: "string option"
  cs_authenticated :: bool
  cs_auth_method :: string
  cs_fingerprint :: "string option"

type_synonym channel_id = nat

record 'net ssh_handler =
  h_peer :: ipaddr
  h_session :: client_session
  h_shells :: "(channel_id, 'net shell_session) dmap"
  h_attempts :: u32
  h_connected_at :: instant

definition MAX_CHANNELS_PER_CONNECTION :: nat where
  "MAX_CHANNELS_PER_CONNECTION = 10"

definition client_session_new :: client_session where
  "client_session_new = \<lparr>cs_username = None, cs_authenticated = False, cs_auth_method = [], cs_fingerprint = None\<rparr>"

definition handler_new :: "instant \<Rightarrow> ipaddr \<Rightarrow> 'net ssh_handler" where
  "handler_new now peer =
     \<lparr>h_peer = peer, h_session = client_session_new, h_shells = [], h_attempts = 0, h_connected_at = now\<rparr>"

text \<open>The reply to an authentication request; \<open>Reject\<close> carries the methods the client may go on with.\<close>

datatype auth_reply = Accept | Reject "string list option"

definition AUTH_METHODS :: "string list" where
  "AUTH_METHODS = [''password'', ''publickey'']"

subsection \<open>Authentication\<close>

definition is_auth_timed_out :: "ssh_config \<Rightarrow> instant \<Rightarrow> 'net ssh_handler \<Rightarrow> bool" where
  "is_auth_timed_out cfg now h =
     (if cs_authenticated (h_session h) then False
      else now - h_connected_at h > from_secs (min 600 (max 10 (ssh_auth_timeout cfg))))"

definition ssh_record_auth_failure ::
  "('net, 'pk, 'h, 'cert, 'fp, 'l, 'f) libs \<Rightarrow> ssh_config \<Rightarrow> ssh_clock \<Rightarrow> u32 \<Rightarrow> 'net ssh_handler
     \<Rightarrow> ('net, 'pk, 'fp, 'l, 'f) app_context \<Rightarrow> ('net, 'pk, 'fp, 'l, 'f) app_context \<times> auth_reply" where
  "ssh_record_auth_failure L cfg t attempts h ctx =
     (ctx\<lparr>security := record_auth_failure (lib_net L) (at_failure t) (h_peer h) (security ctx)\<rparr>,
      if attempts \<ge> max_auth_attempts cfg then Reject None else Reject (Some AUTH_METHODS))"

text \<open>The common beginning of the three methods: the attempt is counted, the timeout and the peer are
  checked. The result is the context, the handler, and whether to go on.\<close>

definition begin_auth ::
  "('net, 'pk, 'h, 'cert, 'fp, 'l, 'f) libs \<Rightarrow> ssh_config \<Rightarrow> ssh_clock \<Rightarrow> ('net, 'pk, 'fp, 'l, 'f) app_context \<Rightarrow> 'net ssh_handler
     \<Rightarrow> ('net, 'pk, 'fp, 'l, 'f) app_context \<times> 'net ssh_handler \<times> bool" where
  "begin_auth L cfg t ctx h =
     (let h1 = h\<lparr>h_attempts := h_attempts h + 1\<rparr> in
      if is_auth_timed_out cfg (at_timeout t) h1 then (ctx, h1, False)
      else
        (let (sec, pre) = pre_auth_check (lib_net L) (lib_gov L) (lib_f64 L) (at_pre_auth t) (h_peer h1) (security ctx)
         in (ctx\<lparr>security := sec\<rparr>, h1, pre = Inr ())))"

text \<open>The verification of a password: the verdict and whether a one-time code was due.\<close>

definition ssh_verify_password ::
  "('net, 'pk, 'h, 'cert, 'fp, 'l, 'f) libs \<Rightarrow> ssh_config \<Rightarrow> nat \<Rightarrow> string \<Rightarrow> string \<Rightarrow> ('net, 'pk, 'fp) auth_service \<Rightarrow> totp_map
     \<Rightarrow> (totp_map \<times> bool \<times> bool) option" where
  "ssh_verify_password L cfg now name password auth used =
     (let totp_required = (''ssh'' \<in> set (totp_required_for cfg));
          has_totp = (case map_of (user_store auth) name of
             Some u \<Rightarrow> u_totp_enabled u \<and> u_totp_secret u \<noteq> None | None \<Rightarrow> False) in
      if totp_required \<and> has_totp then
        (case extract_totp_from_password password of
           None \<Rightarrow> None
         | Some (actual_pass, totp_code) \<Rightarrow>
             if fst (auth_password (lib_auth L) auth (int now) name actual_pass) then
               (case totp_code of
                  Some code \<Rightarrow> (let (used', ok) = verify_totp (lib_auth L) auth now name code used in Some (used', ok, True))
                | None \<Rightarrow> Some (used, False, True))
             else Some (used, False, True))
      else Some (used, fst (auth_password (lib_auth L) auth (int now) name password), False))"

definition ssh_auth_password ::
  "('net, 'pk, 'h, 'cert, 'fp, 'l, 'f) libs \<Rightarrow> ssh_config \<Rightarrow> ssh_clock \<Rightarrow> string \<Rightarrow> string
     \<Rightarrow> ('net, 'pk, 'fp, 'l, 'f) app_context \<Rightarrow> 'net ssh_handler
     \<Rightarrow> (('net, 'pk, 'fp, 'l, 'f) app_context \<times> 'net ssh_handler \<times> auth_reply) option" where
  "ssh_auth_password L cfg t name password ctx h =
     (let (ctx1, h1, go) = begin_auth L cfg t ctx h in
      if \<not> go then Some (ctx1, h1, Reject None)
      else
        (case ssh_verify_password L cfg (at_auth t) name password (auth_svc ctx1) (used_codes ctx1) of
           None \<Rightarrow> None
         | Some (used, ok, with_code) \<Rightarrow>
             (let ctx2 = ctx1\<lparr>used_codes := used\<rparr> in
              if ok then
                Some (ctx2, h1\<lparr>h_session := (h_session h1)\<lparr>cs_username := Some name, cs_authenticated := True,
                         cs_auth_method := (if with_code then ''password+totp'' else ''password'')\<rparr>\<rparr>, Accept)
              else
                (let (ctx3, reply) = ssh_record_auth_failure L cfg t (h_attempts h1) h1 ctx2 in Some (ctx3, h1, reply)))))"

definition ssh_auth_publickey ::
  "('net, 'pk, 'h, 'cert, 'fp, 'l, 'f) libs \<Rightarrow> ('net, 'pk, 'f) ssh_ops \<Rightarrow> ssh_config \<Rightarrow> ssh_clock \<Rightarrow> string \<Rightarrow> 'pk
     \<Rightarrow> ('net, 'pk, 'fp, 'l, 'f) app_context \<Rightarrow> 'net ssh_handler
     \<Rightarrow> ('net, 'pk, 'fp, 'l, 'f) app_context \<times> 'net ssh_handler \<times> auth_reply" where
  "ssh_auth_publickey L S cfg t name key ctx h =
     (let (ctx1, h1, go) = begin_auth L cfg t ctx h in
      if \<not> go then (ctx1, h1, Reject None)
      else if auth_publickey (auth_svc ctx1) (int (at_auth t)) name key then
        (ctx1, h1\<lparr>h_session := (h_session h1)\<lparr>cs_username := Some name, cs_authenticated := True,
            cs_auth_method := ''publickey'', cs_fingerprint := Some (key_fingerprint S key)\<rparr>\<rparr>, Accept)
      else (let (ctx2, reply) = ssh_record_auth_failure L cfg t (h_attempts h1) h1 ctx1 in (ctx2, h1, reply)))"

definition ssh_auth_none ::
  "('net, 'pk, 'h, 'cert, 'fp, 'l, 'f) libs \<Rightarrow> ssh_config \<Rightarrow> ssh_clock
     \<Rightarrow> ('net, 'pk, 'fp, 'l, 'f) app_context \<Rightarrow> 'net ssh_handler
     \<Rightarrow> ('net, 'pk, 'fp, 'l, 'f) app_context \<times> 'net ssh_handler \<times> auth_reply" where
  "ssh_auth_none L cfg t ctx h =
     (let (ctx1, h1, go) = begin_auth L cfg t ctx h in
      (ctx1, h1, if go then Reject (Some AUTH_METHODS) else Reject None))"

subsection \<open>Forwarding\<close>

definition session_user :: "('net, 'pk, 'fp, 'l, 'f) app_context \<Rightarrow> 'net ssh_handler \<Rightarrow> (string \<times> ('net, 'pk) user) option" where
  "session_user ctx h =
     (if \<not> cs_authenticated (h_session h) then None
      else case cs_username (h_session h) of
        None \<Rightarrow> None
      | Some name \<Rightarrow> map_option (\<lambda>u. (name, u)) (map_of (user_store (auth_svc ctx)) name))"

definition validate_forwarding_request ::
  "('net, 'pk, 'h, 'cert, 'fp, 'l, 'f) libs \<Rightarrow> ssh_config \<Rightarrow> ssh_clock \<Rightarrow> u32 \<Rightarrow> 'net ssh_handler
     \<Rightarrow> ('net, 'pk, 'fp, 'l, 'f) app_context
     \<Rightarrow> ('net, 'pk, 'fp, 'l, 'f) app_context \<times> (('net, 'pk) user \<times> string \<times> u16) option" where
  "validate_forwarding_request L cfg t port_to_connect h ctx =
     (case session_user ctx h of
        None \<Rightarrow> (ctx, None)
      | Some (name, usr) \<Rightarrow>
          if \<not> u_allow_forwarding usr then (ctx, None)
          else if \<not> check_time_access (lib_user L) (at_access t) usr then (ctx, None)
          else
            (let (sec, rate_ok) = check_rate_limit (lib_gov L) (at_rate t) name (u_max_new_connections_per_minute usr) (security ctx);
                 ctx1 = ctx\<lparr>security := sec\<rparr> in
             if \<not> rate_ok then (ctx1, None)
             else
               (let (q2, r2) = check_connection_rate (lib_chrono L) (at_quota_rate t) name (u_rate_limits usr) (limits_cfg cfg) (quota ctx1);
                    ctx2 = ctx1\<lparr>quota := q2\<rparr> in
                if r2 \<noteq> Inr () then (ctx2, None)
                else
                  (let (q3, r3) = record_connection (lib_chrono L) (at_quota_record t) name (u_quotas usr) (quota ctx2);
                       ctx3 = ctx2\<lparr>quota := q3\<rparr> in
                   if r3 \<noteq> Inr () then (ctx3, None)
                   else
                     (let (q4, r4) = check_bandwidth_quota (lib_chrono L) (at_quota_bandwidth t) name (u_quotas usr) (quota ctx3);
                          ctx4 = ctx3\<lparr>quota := q4\<rparr> in
                      if r4 \<noteq> Inr () then (ctx4, None)
                      else if \<not> is_source_ip_allowed (lib_net L) (h_peer h) usr then (ctx4, None)
                      else if unat port_to_connect \<ge> 65536 then (ctx4, None)
                      else (ctx4, Some (usr, name, ucast port_to_connect)))))))"

definition channel_open_direct_tcpip ::
  "('net, 'pk, 'h, 'cert, 'fp, 'l, 'f) libs \<Rightarrow> ssh_config \<Rightarrow> ssh_clock \<Rightarrow> string \<Rightarrow> u32 \<Rightarrow> 'net ssh_handler
     \<Rightarrow> ('net, 'pk, 'fp, 'l, 'f) app_context \<Rightarrow> ('net, 'pk, 'fp, 'l, 'f) app_context \<times> 'net ssh_relay_request option" where
  "channel_open_direct_tcpip L cfg t host port_to_connect h ctx =
     (case validate_forwarding_request L cfg t port_to_connect h ctx of
        (ctx1, None) \<Rightarrow> (ctx1, None)
      | (ctx1, Some (usr, name, port)) \<Rightarrow>
          (ctx1, Some \<lparr>req_username = name, req_host = host, req_port = port, req_user_acl = u_acl usr,
             req_source_ip = show_ip (h_peer h), req_bandwidth_limit_kbps = u_max_bandwidth_kbps usr,
             req_max_per_user = u_max_connections usr, req_aggregate_bandwidth_kbps = u_max_aggregate_bandwidth_kbps usr,
             req_quota_tracker = None, req_quotas = u_quotas usr,
             req_upstream_proxy = resolve_upstream_proxy (lib_url L) usr (engine_cfg cfg)\<rparr>))"

text \<open>The spawned task: it connects and relays with the shared tracker and engine.\<close>

definition run_relay ::
  "('net, 'pk, 'h, 'cert, 'fp, 'l, 'f) libs \<Rightarrow> network \<Rightarrow> ssh_config \<Rightarrow> nat \<Rightarrow> (bool \<times> relay_event) list \<Rightarrow> 'net ssh_relay_request
     \<Rightarrow> ('net, 'pk, 'fp, 'l, 'f) app_context
     \<Rightarrow> ('net, 'pk, 'fp, 'l, 'f) app_context \<times> (conn_error + u64 \<times> u64 \<times> socket_addr)" where
  "run_relay L W cfg now evs req ctx =
     (let (G, T, r) = connect_and_relay (lib_net L) W (lib_chrono L) (lib_f64 L) (engine_cfg cfg) now evs
            (req\<lparr>req_quota_tracker := Some (quota ctx)\<rparr>) (proxy_engine ctx)
      in (ctx\<lparr>proxy_engine := G, quota := (case T of Some q \<Rightarrow> q | None \<Rightarrow> quota ctx)\<rparr>, r))"

definition classify_relay_error :: "conn_error \<Rightarrow> string" where
  "classify_relay_error err =
     (let msg = err_msg err in
      if contains ''ACL denied'' msg then ''acl_denied''
      else if contains ''connection limit'' msg then ''connection_refused''
      else if contains ''DNS'' msg \<or> contains ''dns'' msg \<or> contains ''lookup'' msg then ''dns_failure''
      else case err_io err of
        Some ConnectionRefused \<Rightarrow> ''connection_refused''
      | Some ConnectionReset \<Rightarrow> ''relay_error''
      | Some ConnectionAborted \<Rightarrow> ''relay_error''
      | Some TimedOut \<Rightarrow> ''connection_timeout''
      | Some _ \<Rightarrow> ''relay_error''
      | None \<Rightarrow> ''relay_error'')"

subsection \<open>Shell channels\<close>

datatype ssh_out = ToChannel channel_id shell_out | ChannelSuccess channel_id | ChannelFailure channel_id | ExitStatus channel_id nat

definition shell_context_of ::
  "('net, 'pk, 'f) ssh_ops \<Rightarrow> ('net, 'pk, 'fp, 'l, 'f) app_context \<Rightarrow> 'net ssh_handler \<Rightarrow> string \<Rightarrow> ('net, 'pk) user \<Rightarrow> 'net shell_context" where
  "shell_context_of S ctx h name usr =
     \<lparr>sc_username = name, sc_auth_method = cs_auth_method (h_session h), sc_source_ip = show_ip (h_peer h), sc_role = u_role usr,
      sc_group = u_group usr, sc_permissions = u_shell_permissions usr, sc_acl = u_acl usr, sc_colors = u_colors usr,
      sc_expires_at = map_option (to_rfc3339 S) (u_expires_at usr), sc_max_bandwidth_kbps = u_max_bandwidth_kbps usr,
      sc_bookmarks = [], sc_aliases = u_aliases usr, sc_ssh_key_fingerprint = cs_fingerprint (h_session h),
      sc_proxy_engine = Some (eng_slots (proxy_engine ctx)), sc_quota_tracker = Some (quota ctx), sc_quota_config = u_quotas usr\<rparr>"

text \<open>The message of the day; reading the usage rolls the windows of the tracker.\<close>

definition session_motd ::
  "('net, 'pk, 'h, 'cert, 'fp, 'l, 'f) libs \<Rightarrow> ('net, 'pk, 'f) ssh_ops \<Rightarrow> ssh_config \<Rightarrow> ssh_clock \<Rightarrow> ('net, 'pk, 'fp, 'l, 'f) app_context
     \<Rightarrow> 'net ssh_handler \<Rightarrow> string \<Rightarrow> ('net, 'pk) user \<Rightarrow> ('net, 'pk, 'fp, 'l, 'f) app_context \<times> string option" where
  "session_motd L S cfg t ctx h name usr =
     (case resolve_motd_config (motd_cfg cfg) (u_motd_config usr) None of
        (enabled, template, colors) \<Rightarrow>
          if \<not> enabled then (ctx, None)
          else
            (let (T, usage) = get_user_usage (lib_chrono L) (at_motd t) name (quota ctx);
                 m = \<lparr>m_user = name, m_auth_method = cs_auth_method (h_session h), m_source_ip = show_ip (h_peer h),
                   m_connections = count_of (eng_slots (proxy_engine ctx)) name,
                   m_acl_policy = (case default_policy (u_acl usr) of Allow \<Rightarrow> ''allow'' | Deny \<Rightarrow> ''deny''),
                   m_expires_at = map_option (to_rfc3339 S) (u_expires_at usr), m_bandwidth_used = usage_daily_bytes usage,
                   m_bandwidth_limit = u_max_bandwidth_kbps usr * 1024 div 8, m_last_login = None,
                   m_uptime = uptime_secs (shell_lib S), m_version = CARGO_PKG_VERSION, m_group = u_group usr,
                   m_role = show_role (u_role usr), m_denied = map (show_acl_rule (lib_net L)) (deny_rules (u_acl usr))\<rparr>
             in (ctx\<lparr>quota := T\<rparr>,
                 Some (render_motd (shell_lib S) (at_motd t) (case template of Some s \<Rightarrow> s | None \<Rightarrow> default_motd_template) m colors))))"

definition channel_open_session ::
  "('net, 'pk, 'h, 'cert, 'fp, 'l, 'f) libs \<Rightarrow> ('net, 'pk, 'f) ssh_ops \<Rightarrow> ssh_config \<Rightarrow> ssh_clock \<Rightarrow> channel_id
     \<Rightarrow> ('net, 'pk, 'fp, 'l, 'f) app_context \<Rightarrow> 'net ssh_handler
     \<Rightarrow> ('net, 'pk, 'fp, 'l, 'f) app_context \<times> 'net ssh_handler \<times> bool" where
  "channel_open_session L S cfg t chan ctx h =
     (case session_user ctx h of
        None \<Rightarrow> (ctx, h, False)
      | Some (name, usr) \<Rightarrow>
          if \<not> u_allow_shell usr then (ctx, h, False)
          else if length (h_shells h) \<ge> MAX_CHANNELS_PER_CONNECTION then (ctx, h, False)
          else
            (let shell = set_context (shell_context_of S ctx h name usr) (session_new name (shell_hostname cfg));
                 (ctx1, motd) = session_motd L S cfg t ctx h name usr;
                 shell1 = (case motd of Some m \<Rightarrow> set_motd m shell | None \<Rightarrow> shell)
             in (ctx1, h\<lparr>h_shells := dm_insert chan shell1 (h_shells h)\<rparr>, True)))"

text \<open>The context of a shell refers to the live engine and tracker: they are filled in before the input is
  handled, and the tracker it leaves is the shared one.\<close>

definition attach_live :: "('net, 'pk, 'fp, 'l, 'f) app_context \<Rightarrow> 'net shell_session \<Rightarrow> 'net shell_session" where
  "attach_live ctx sess =
     sess\<lparr>sh_executor := (sh_executor sess)\<lparr>ex_state :=
        (fst (ex_state (sh_executor sess)),
         map_option (\<lambda>c. c\<lparr>sc_proxy_engine := Some (eng_slots (proxy_engine ctx)), sc_quota_tracker := Some (quota ctx)\<rparr>)
           (snd (ex_state (sh_executor sess))))\<rparr>\<rparr>"

definition live_quota :: "'net shell_session \<Rightarrow> quota_tracker \<Rightarrow> quota_tracker" where
  "live_quota sess T =
     (case Option.bind (snd (ex_state (sh_executor sess))) sc_quota_tracker of Some T' \<Rightarrow> T' | None \<Rightarrow> T)"

definition ssh_data ::
  "('net, 'pk, 'f) ssh_ops \<Rightarrow> channel_id \<Rightarrow> u8 list \<Rightarrow> ('net, 'pk, 'fp, 'l, 'f) app_context \<Rightarrow> 'net ssh_handler
     \<Rightarrow> (('net, 'pk, 'fp, 'l, 'f) app_context \<times> 'net ssh_handler \<times> ssh_out list) option" where
  "ssh_data S chan data ctx h =
     (if \<not> cs_authenticated (h_session h) then Some (ctx, h, [])
      else case map_of (h_shells h) chan of
        None \<Rightarrow> Some (ctx, h, [])
      | Some sess \<Rightarrow>
          (case handle_input (shell_lib S) data (attach_live ctx sess) of
             None \<Rightarrow> None
           | Some (sess1, os) \<Rightarrow>
               Some (ctx\<lparr>quota := live_quota sess1 (quota ctx)\<rparr>, h\<lparr>h_shells := dm_insert chan sess1 (h_shells h)\<rparr>,
                 map (ToChannel chan) os)))"

definition ssh_shell_request :: "channel_id \<Rightarrow> 'net ssh_handler \<Rightarrow> 'net ssh_handler \<times> ssh_out list" where
  "ssh_shell_request chan h =
     (if \<not> cs_authenticated (h_session h) then (h, [])
      else case map_of (h_shells h) chan of
        None \<Rightarrow> (h, [])
      | Some sess \<Rightarrow>
          (let (sess1, motd) = take_motd sess in
           (h\<lparr>h_shells := dm_insert chan sess1 (h_shells h)\<rparr>,
            map (ToChannel chan)
              ((case motd of Some m \<Rightarrow> [Data (bytes_of m), Data CRLF] | None \<Rightarrow> []) @ send_prompt sess1))))"

definition resize :: "channel_id \<Rightarrow> u32 \<Rightarrow> u32 \<Rightarrow> 'net ssh_handler \<Rightarrow> 'net ssh_handler" where
  "resize chan col_width row_height h =
     (case map_of (h_shells h) chan of
        None \<Rightarrow> h
      | Some sess \<Rightarrow> h\<lparr>h_shells := dm_insert chan (set_terminal_size col_width row_height sess) (h_shells h)\<rparr>)"

definition ssh_pty_request :: "channel_id \<Rightarrow> u32 \<Rightarrow> u32 \<Rightarrow> 'net ssh_handler \<Rightarrow> 'net ssh_handler \<times> ssh_out list" where
  "ssh_pty_request chan c r h = (resize chan c r h, [ChannelSuccess chan])"

definition ssh_window_change :: "channel_id \<Rightarrow> u32 \<Rightarrow> u32 \<Rightarrow> 'net ssh_handler \<Rightarrow> 'net ssh_handler" where
  "ssh_window_change chan c r h = resize chan c r h"

definition ssh_exec_request ::
  "('net, 'pk, 'f) ssh_ops \<Rightarrow> ssh_config \<Rightarrow> channel_id \<Rightarrow> u8 list \<Rightarrow> 'net ssh_handler \<Rightarrow> ssh_out list" where
  "ssh_exec_request S cfg chan data h =
     (if \<not> cs_authenticated (h_session h) then [ChannelFailure chan]
      else if length data > 4096 then [ChannelFailure chan]
      else case cs_username (h_session h) of
        None \<Rightarrow> [ChannelFailure chan]
      | Some name \<Rightarrow>
          (let (_, r) = execute (shell_lib S) (from_utf8_lossy data) (executor_new name (shell_hostname cfg) :: 'net executor) in
           map (ToChannel chan) (data_out (bytes_of (out_text r))) @ [ExitStatus chan 0, ToChannel chan CloseChannel]))"

subsection \<open>The handler as a state machine\<close>

datatype 'pk ssh_event =
    AuthPassword string string
  | AuthPublickey string 'pk
  | AuthNone string
  | OpenSession channel_id
  | OpenDirectTcpip string u32
  | ChannelData channel_id "u8 list"
  | ShellRequest channel_id
  | PtyRequest channel_id u32 u32
  | WindowChange channel_id u32 u32
  | ExecRequest channel_id "u8 list"
  | SubsystemRequest channel_id string
  | TcpipForward string u32
  | CancelTcpipForward string u32
  | OpenForwardedTcpip string u32

datatype 'net ssh_result =
    AuthReply auth_reply
  | Opened bool
  | Forward "'net ssh_relay_request option"
  | Output "ssh_out list"

fun ssh_step ::
  "('net, 'pk, 'h, 'cert, 'fp, 'l, 'f) libs \<Rightarrow> ('net, 'pk, 'f) ssh_ops \<Rightarrow> ssh_config \<Rightarrow> ssh_clock \<Rightarrow> 'pk ssh_event
     \<Rightarrow> ('net, 'pk, 'fp, 'l, 'f) app_context \<Rightarrow> 'net ssh_handler
     \<Rightarrow> (('net, 'pk, 'fp, 'l, 'f) app_context \<times> 'net ssh_handler \<times> 'net ssh_result) option" where
  "ssh_step L S cfg t (AuthPassword u pw) ctx h =
     map_option (\<lambda>(c, h', r). (c, h', AuthReply r)) (ssh_auth_password L cfg t u pw ctx h)"
| "ssh_step L S cfg t (AuthPublickey u k) ctx h = (let (c, h', r) = ssh_auth_publickey L S cfg t u k ctx h in Some (c, h', AuthReply r))"
| "ssh_step L S cfg t (AuthNone u) ctx h = (let (c, h', r) = ssh_auth_none L cfg t ctx h in Some (c, h', AuthReply r))"
| "ssh_step L S cfg t (OpenSession ch) ctx h = (let (c, h', b) = channel_open_session L S cfg t ch ctx h in Some (c, h', Opened b))"
| "ssh_step L S cfg t (OpenDirectTcpip host port) ctx h =
     (let (c, req) = channel_open_direct_tcpip L cfg t host port h ctx in Some (c, h, Forward req))"
| "ssh_step L S cfg t (ChannelData ch d) ctx h = map_option (\<lambda>(c, h', os). (c, h', Output os)) (ssh_data S ch d ctx h)"
| "ssh_step L S cfg t (ShellRequest ch) ctx h = (let (h', os) = ssh_shell_request ch h in Some (ctx, h', Output os))"
| "ssh_step L S cfg t (PtyRequest ch c r) ctx h = (let (h', os) = ssh_pty_request ch c r h in Some (ctx, h', Output os))"
| "ssh_step L S cfg t (WindowChange ch c r) ctx h = Some (ctx, ssh_window_change ch c r h, Output [])"
| "ssh_step L S cfg t (ExecRequest ch d) ctx h = Some (ctx, h, Output (ssh_exec_request S cfg ch d h))"
| "ssh_step L S cfg t (SubsystemRequest ch name) ctx h = Some (ctx, h, Output [ChannelFailure ch])"
| "ssh_step L S cfg t (TcpipForward a p) ctx h = Some (ctx, h, Opened False)"
| "ssh_step L S cfg t (CancelTcpipForward a p) ctx h = Some (ctx, h, Opened False)"
| "ssh_step L S cfg t (OpenForwardedTcpip host p) ctx h = Some (ctx, h, Opened False)"

text \<open>The life of a connection: events of this connection, interleaved with whatever the other connections, a reload
  of the configuration or the relays do to the shared context. The log keeps the events with the context they met.\<close>

inductive ssh_reach ::
  "('net, 'pk, 'h, 'cert, 'fp, 'l, 'f) libs \<Rightarrow> ('net, 'pk, 'f) ssh_ops \<Rightarrow> ssh_config \<Rightarrow> ipaddr
     \<Rightarrow> 'net ssh_handler \<Rightarrow> ('pk ssh_event \<times> ssh_clock \<times> ('net, 'pk, 'fp, 'l, 'f) app_context \<times> 'net ssh_result) list \<Rightarrow> bool"
  for L S cfg peer where
  ssh_start: "ssh_reach L S cfg peer (handler_new now peer) []"
| ssh_event: "ssh_reach L S cfg peer h log \<Longrightarrow> ssh_step L S cfg t ev ctx h = Some (ctx', h', r)
     \<Longrightarrow> ssh_reach L S cfg peer h' (log @ [(ev, t, ctx, r)])"

subsection \<open>Lemmas on the session\<close>

inductive_cases ssh_reachE: "ssh_reach L S cfg peer h log"

lemma begin_auth_facts:
  assumes "begin_auth L cfg t ctx h = (ctx1, h1, go)"
  shows "h1 = h\<lparr>h_attempts := h_attempts h + 1\<rparr>" "auth_svc ctx1 = auth_svc ctx" "used_codes ctx1 = used_codes ctx"
    "go \<Longrightarrow> snd (pre_auth_check (lib_net L) (lib_gov L) (lib_f64 L) (at_pre_auth t) (h_peer h) (security ctx)) = Inr ()"
  using assms by (auto simp: begin_auth_def Let_def case_prod_beta split: if_splits)

text \<open>What it means that an event proved the identity of a user.\<close>

definition password_proof ::
  "('net, 'pk, 'h, 'cert, 'fp, 'l, 'f) libs \<Rightarrow> ssh_config \<Rightarrow> ssh_clock \<Rightarrow> ('net, 'pk, 'fp, 'l, 'f) app_context \<Rightarrow> string \<Rightarrow> string \<Rightarrow> bool" where
  "password_proof L cfg t ctx u pw \<longleftrightarrow>
     (\<exists>usr h pw'. map_of (user_store (auth_svc ctx)) u = Some usr \<and> \<not> is_expired (int (at_auth t)) usr
        \<and> u_password_hash usr = Some h \<and> verify_password (lib_auth L) pw' h
        \<and> (if ''ssh'' \<in> set (totp_required_for cfg) \<and> u_totp_enabled usr \<and> u_totp_secret usr \<noteq> None
           then \<exists>code. extract_totp_from_password pw = Some (pw', Some code)
                  \<and> snd (verify_totp (lib_auth L) (auth_svc ctx) (at_auth t) u code (used_codes ctx))
           else pw' = pw))"

definition key_proof :: "ssh_clock \<Rightarrow> ('net, 'pk, 'fp, 'l, 'f) app_context \<Rightarrow> string \<Rightarrow> 'pk \<Rightarrow> bool" where
  "key_proof t ctx u key \<longleftrightarrow>
     (\<exists>usr. map_of (user_store (auth_svc ctx)) u = Some usr \<and> \<not> is_expired (int (at_auth t)) usr
        \<and> key \<in> set (u_parsed_authorized_keys usr))"

fun proves ::
  "('net, 'pk, 'h, 'cert, 'fp, 'l, 'f) libs \<Rightarrow> ssh_config \<Rightarrow> ipaddr \<Rightarrow> string
     \<Rightarrow> 'pk ssh_event \<times> ssh_clock \<times> ('net, 'pk, 'fp, 'l, 'f) app_context \<times> 'net ssh_result \<Rightarrow> bool" where
  "proves L cfg peer u (AuthPassword n pw, t, ctx, r) \<longleftrightarrow> n = u \<and> r = AuthReply Accept \<and> password_proof L cfg t ctx u pw
     \<and> snd (pre_auth_check (lib_net L) (lib_gov L) (lib_f64 L) (at_pre_auth t) peer (security ctx)) = Inr ()"
| "proves L cfg peer u (AuthPublickey n k, t, ctx, r) \<longleftrightarrow> n = u \<and> r = AuthReply Accept \<and> key_proof t ctx u k
     \<and> snd (pre_auth_check (lib_net L) (lib_gov L) (lib_f64 L) (at_pre_auth t) peer (security ctx)) = Inr ()"
| "proves L cfg peer u _ \<longleftrightarrow> False"

lemma ssh_verify_password_True:
  assumes "ssh_verify_password L cfg (at_auth t) u pw (auth_svc ctx) (used_codes ctx) = Some (used, True, wc)"
  shows "password_proof L cfg t ctx u pw"
proof -
  have ok: "\<exists>usr h. map_of (user_store (auth_svc ctx)) u = Some usr \<and> \<not> is_expired (int (at_auth t)) usr
      \<and> u_password_hash usr = Some h \<and> verify_password (lib_auth L) p h"
    if "fst (auth_password (lib_auth L) (auth_svc ctx) (int (at_auth t)) u p)" for p
    using that by (auto simp: auth_password_def verify_counted_def case_prod_beta split: option.splits if_splits)
  show ?thesis
  proof (cases "map_of (user_store (auth_svc ctx)) u")
    case None
    with assms ok [of pw] show ?thesis by (auto simp: ssh_verify_password_def Let_def split: if_splits)
  next
    case (Some usr)
    show ?thesis
    proof (cases "''ssh'' \<in> set (totp_required_for cfg) \<and> u_totp_enabled usr \<and> u_totp_secret usr \<noteq> None")
      case True
      with assms Some obtain p code where "extract_totp_from_password pw = Some (p, Some code)"
        "fst (auth_password (lib_auth L) (auth_svc ctx) (int (at_auth t)) u p)"
        "snd (verify_totp (lib_auth L) (auth_svc ctx) (at_auth t) u code (used_codes ctx))"
        by (auto simp: ssh_verify_password_def Let_def case_prod_beta split: option.splits if_splits)
      with ok [of p] True Some show ?thesis unfolding password_proof_def by auto
    next
      case False
      with assms Some have "fst (auth_password (lib_auth L) (auth_svc ctx) (int (at_auth t)) u pw)"
        by (auto simp: ssh_verify_password_def Let_def split: if_splits)
      with ok [of pw] False Some show ?thesis unfolding password_proof_def by auto
    qed
  qed
qed

lemma key_matches_parsed_iff: "key_matches_parsed k ks \<longleftrightarrow> k \<in> set ks"
  by (auto simp: key_matches_parsed_def list_ex_iff)

lemma auth_publickey_proof: "auth_publickey (auth_svc ctx) (int (at_auth t)) u k \<Longrightarrow> key_proof t ctx u k"
  by (auto simp: auth_publickey_def key_proof_def key_matches_parsed_iff split: option.splits if_splits)

text \<open>How an event changes the session: it proves an identity, or it leaves the session as it is.\<close>

lemma ssh_password_session:
  assumes "ssh_auth_password L cfg t u pw ctx h = Some (ctx', h', r)"
  shows "h_session h' = h_session h \<and> r \<noteq> Accept
     \<or> cs_authenticated (h_session h') \<and> cs_username (h_session h') = Some u \<and> proves L cfg (h_peer h) u (AuthPassword u pw, t, ctx, AuthReply r)"
proof -
  obtain ctx1 h1 go where b: "begin_auth L cfg t ctx h = (ctx1, h1, go)" by (metis prod_cases3)
  note f = begin_auth_facts [OF b]
  show ?thesis
  proof (cases go)
    case False
    with assms b f show ?thesis by (auto simp: ssh_auth_password_def)
  next
    case True
    with assms b obtain used ok wc where v: "ssh_verify_password L cfg (at_auth t) u pw (auth_svc ctx) (used_codes ctx) = Some (used, ok, wc)"
      by (auto simp: ssh_auth_password_def f split: option.splits)
    show ?thesis
    proof (cases ok)
      case False
      with assms b True v f show ?thesis
        by (auto simp: ssh_auth_password_def ssh_record_auth_failure_def Let_def split: if_splits)
    next
      case True
      with v have "password_proof L cfg t ctx u pw" by (simp add: ssh_verify_password_True)
      with assms b \<open>go\<close> True v f show ?thesis by (auto simp: ssh_auth_password_def Let_def)
    qed
  qed
qed

lemma ssh_publickey_session:
  assumes "ssh_auth_publickey L S cfg t u k ctx h = (ctx', h', r)"
  shows "h_session h' = h_session h \<and> r \<noteq> Accept
     \<or> cs_authenticated (h_session h') \<and> cs_username (h_session h') = Some u \<and> proves L cfg (h_peer h) u (AuthPublickey u k, t, ctx, AuthReply r)"
proof -
  obtain ctx1 h1 go where b: "begin_auth L cfg t ctx h = (ctx1, h1, go)" by (metis prod_cases3)
  note f = begin_auth_facts [OF b]
  show ?thesis
    using assms b f auth_publickey_proof [of ctx t u k]
    by (auto simp: ssh_auth_publickey_def ssh_record_auth_failure_def Let_def case_prod_beta split: if_splits)
qed

lemma ssh_auth_shells:
  "ssh_auth_password L cfg t u pw ctx h = Some (ctx', h', r) \<Longrightarrow> h_shells h' = h_shells h \<and> h_peer h' = h_peer h"
  "ssh_auth_publickey L S cfg t u k ctx h = (ctx', h', r) \<Longrightarrow> h_shells h' = h_shells h \<and> h_peer h' = h_peer h"
  by (auto simp: ssh_auth_password_def ssh_auth_publickey_def begin_auth_def Let_def case_prod_beta split: option.splits if_splits)

subsection \<open>Invariant of the handler\<close>

definition shells_ok :: "(channel_id, 'net shell_session) dmap \<Rightarrow> bool" where
  "shells_ok m \<longleftrightarrow> dm_ok m \<and> length m \<le> MAX_CHANNELS_PER_CONNECTION \<and> (\<forall>ch s. (ch, s) \<in> set m \<longrightarrow> term_inv (sh_terminal s))"

definition handler_inv :: "'net ssh_handler \<Rightarrow> bool" where
  "handler_inv h \<longleftrightarrow> shells_ok (h_shells h) \<and> (\<not> cs_authenticated (h_session h) \<longrightarrow> h_shells h = [])"

lemma shells_ok_replace:
  assumes "shells_ok m" and "dm_contains m ch" and "term_inv (sh_terminal s)"
  shows "shells_ok (dm_insert ch s m)"
  using assms by (auto simp: shells_ok_def length_dm_insert set_dm_insert)

lemma shells_ok_insert:
  assumes "shells_ok m" and "length m < MAX_CHANNELS_PER_CONNECTION" and "term_inv (sh_terminal s)"
  shows "shells_ok (dm_insert ch s m)"
  using assms by (auto simp: shells_ok_def length_dm_insert set_dm_insert)

lemma handle_input_attached:
  assumes "term_inv (sh_terminal sess)"
  obtains sess1 os where "handle_input P d (attach_live ctx sess) = Some (sess1, os)" "term_inv (sh_terminal sess1)"
proof -
  have "session_inv (ex_state (sh_executor (attach_live ctx sess))) (attach_live ctx sess)"
    using assms by (simp add: session_inv_def attach_live_def)
  from handle_input_total [OF this, of P d] show thesis using that by (auto simp: session_inv_def)
qed

lemma ssh_data_facts:
  assumes "handler_inv h"
  obtains ctx' h' os where "ssh_data S ch d ctx h = Some (ctx', h', os)" "handler_inv h'" "h_session h' = h_session h"
    "h_peer h' = h_peer h" "map fst (h_shells h') = map fst (h_shells h)" "\<not> cs_authenticated (h_session h) \<longrightarrow> os = []"
proof (cases "cs_authenticated (h_session h) \<and> map_of (h_shells h) ch \<noteq> None")
  case False
  then have "ssh_data S ch d ctx h = Some (ctx, h, [])" by (auto simp: ssh_data_def)
  with assms that show thesis by blast
next
  case True
  then obtain sess where s: "map_of (h_shells h) ch = Some sess" "cs_authenticated (h_session h)" by auto
  then have "term_inv (sh_terminal sess)" using assms by (auto simp: handler_inv_def shells_ok_def dest: map_of_SomeD)
  then obtain sess1 os where i: "handle_input (shell_lib S) d (attach_live ctx sess) = Some (sess1, os)" "term_inv (sh_terminal sess1)"
    by (rule handle_input_attached)
  have c: "dm_contains (h_shells h) ch" using s by (simp add: dm_contains_map_of)
  then have "handler_inv (h\<lparr>h_shells := dm_insert ch sess1 (h_shells h)\<rparr>)"
    using assms i(2) s(2) shells_ok_replace by (auto simp: handler_inv_def)
  moreover have "map fst (dm_insert ch sess1 (h_shells h)) = map fst (h_shells h)"
    using c by (simp add: dm_insert_def dm_contains_def update_keys)
  ultimately show thesis using that s i by (auto simp: ssh_data_def)
qed

lemma resize_facts:
  assumes "handler_inv h"
  shows "handler_inv (resize ch c r h)" "h_session (resize ch c r h) = h_session h" "h_peer (resize ch c r h) = h_peer h"
proof -
  have "shells_ok (dm_insert ch (set_terminal_size c r s) (h_shells h))" "cs_authenticated (h_session h)" if "map_of (h_shells h) ch = Some s" for s
  proof -
    have "term_inv (sh_terminal s)" using assms that by (auto simp: handler_inv_def shells_ok_def dest: map_of_SomeD)
    then have "term_inv (sh_terminal (set_terminal_size c r s))" by (simp add: set_terminal_size_def set_size_def term_inv_def)
    then show "shells_ok (dm_insert ch (set_terminal_size c r s) (h_shells h))"
      using assms that by (intro shells_ok_replace) (auto simp: handler_inv_def dm_contains_map_of)
    show "cs_authenticated (h_session h)" using assms that by (auto simp: handler_inv_def)
  qed
  with assms show "handler_inv (resize ch c r h)"
    by (cases "map_of (h_shells h) ch") (simp_all add: resize_def handler_inv_def)
qed (simp_all add: resize_def split: option.split)

lemma shell_request_facts:
  assumes "handler_inv h" and "ssh_shell_request ch h = (h', os)"
  shows "handler_inv h' \<and> h_session h' = h_session h \<and> h_peer h' = h_peer h \<and> (\<not> cs_authenticated (h_session h) \<longrightarrow> os = [])"
proof -
  have "shells_ok (dm_insert ch (s\<lparr>sh_motd := None\<rparr>) (h_shells h))" if "map_of (h_shells h) ch = Some s" for s
    using assms(1) that by (intro shells_ok_replace) (auto simp: handler_inv_def shells_ok_def dm_contains_map_of dest: map_of_SomeD)
  with assms show ?thesis
    by (auto simp: ssh_shell_request_def take_motd_def handler_inv_def split: if_splits option.splits)
qed

lemma open_session_facts:
  assumes "handler_inv h" and "channel_open_session L S cfg t ch ctx h = (ctx', h', b)"
  shows "handler_inv h' \<and> h_session h' = h_session h \<and> h_peer h' = h_peer h \<and> (\<not> cs_authenticated (h_session h) \<longrightarrow> \<not> b)"
proof (cases b)
  case False
  with assms show ?thesis
    by (auto simp: channel_open_session_def Let_def case_prod_beta split: option.splits if_splits)
next
  case True
  with assms(2) obtain name usr where u: "session_user ctx h = Some (name, usr)" and len: "length (h_shells h) < MAX_CHANNELS_PER_CONNECTION"
    by (auto simp: channel_open_session_def split: option.splits if_splits)
  have auth: "cs_authenticated (h_session h)" using u by (auto simp: session_user_def split: if_splits)
  let ?sh = "set_context (shell_context_of S ctx h name usr) (session_new name (shell_hostname cfg))"
  have "term_inv (sh_terminal ?sh)" by (simp add: set_context_def session_new_def term_inv_def terminal_new_def)
  then have "term_inv (sh_terminal (case m of Some m \<Rightarrow> set_motd m ?sh | None \<Rightarrow> ?sh))" for m
    by (simp add: set_motd_def split: option.split)
  then have "shells_ok (dm_insert ch (case m of Some m \<Rightarrow> set_motd m ?sh | None \<Rightarrow> ?sh) (h_shells h))" for m
    using assms(1) len by (intro shells_ok_insert) (auto simp: handler_inv_def)
  with assms(2) True u auth show ?thesis
    by (auto simp: channel_open_session_def handler_inv_def Let_def case_prod_beta split: if_splits)
qed

lemma direct_tcpip_unauth:
  "\<not> cs_authenticated (h_session h) \<Longrightarrow> channel_open_direct_tcpip L cfg t host port h ctx = (ctx, None)"
  by (simp add: channel_open_direct_tcpip_def validate_forwarding_request_def session_user_def)

text \<open>What a connection can get without having proved an identity: no channel, no forwarding, nothing on a channel.\<close>

fun harmless :: "'net ssh_result \<Rightarrow> bool" where
  "harmless (AuthReply r) = (r \<noteq> Accept)"
| "harmless (Opened b) = (\<not> b)"
| "harmless (Forward req) = (req = None)"
| "harmless (Output os) = (\<forall>ch x. ToChannel ch x \<notin> set os)"

lemma ssh_step_facts:
  assumes "ssh_step L S cfg t ev ctx h = Some (ctx', h', r)" and "handler_inv h"
  shows "handler_inv h' \<and> h_peer h' = h_peer h
     \<and> (h_session h' = h_session h \<and> (\<not> cs_authenticated (h_session h) \<longrightarrow> harmless r)
        \<or> cs_authenticated (h_session h') \<and> (\<exists>u. cs_username (h_session h') = Some u \<and> proves L cfg (h_peer h) u (ev, t, ctx, r)))"
  using assms(1)
proof (cases ev)
  case (AuthPassword u pw)
  with assms obtain a where a: "ssh_auth_password L cfg t u pw ctx h = Some (ctx', h', a)" "r = AuthReply a" by auto
  have e: "handler_inv h'" using ssh_password_session [OF a(1)] ssh_auth_shells(1) [OF a(1)] assms(2) by (auto simp: handler_inv_def)
  show ?thesis using ssh_password_session [OF a(1)] ssh_auth_shells(1) [OF a(1)] e a(2) AuthPassword by auto
next
  case (AuthPublickey u k)
  with assms obtain a where a: "ssh_auth_publickey L S cfg t u k ctx h = (ctx', h', a)" "r = AuthReply a"
    by (auto split: prod.splits)
  have e: "handler_inv h'" using ssh_publickey_session [OF a(1)] ssh_auth_shells(2) [OF a(1)] assms(2) by (auto simp: handler_inv_def)
  show ?thesis using ssh_publickey_session [OF a(1)] ssh_auth_shells(2) [OF a(1)] e a(2) AuthPublickey by auto
next
  case (AuthNone u)
  with assms show ?thesis
    by (auto simp: ssh_auth_none_def begin_auth_def handler_inv_def Let_def case_prod_beta split: if_splits)
next
  case (OpenSession ch)
  with assms(1) obtain b where o: "channel_open_session L S cfg t ch ctx h = (ctx', h', b)" "r = Opened b"
    by (auto split: prod.splits)
  then show ?thesis using open_session_facts [OF assms(2) o(1)] by auto
next
  case (OpenDirectTcpip host port)
  with assms direct_tcpip_unauth [of h L cfg t host port ctx] show ?thesis by (auto simp: Let_def case_prod_beta)
next
  case (ChannelData ch d)
  obtain c1 h1 os where d: "ssh_data S ch d ctx h = Some (c1, h1, os)" "handler_inv h1" "h_session h1 = h_session h" "h_peer h1 = h_peer h"
    "\<not> cs_authenticated (h_session h) \<longrightarrow> os = []"
    using ssh_data_facts [OF assms(2)] by metis
  with ChannelData assms(1) show ?thesis by auto
next
  case (ShellRequest ch)
  with assms(1) obtain os where o: "ssh_shell_request ch h = (h', os)" "r = Output os"
    by (auto split: prod.splits)
  then show ?thesis using shell_request_facts [OF assms(2) o(1)] by auto
next
  case (PtyRequest ch w l)
  with assms resize_facts [OF assms(2), of ch w l] show ?thesis by (auto simp: ssh_pty_request_def)
next
  case (WindowChange ch w l)
  with assms resize_facts [OF assms(2), of ch w l] show ?thesis by (auto simp: ssh_window_change_def)
next
  case (ExecRequest ch d)
  with assms show ?thesis by (auto simp: ssh_exec_request_def)
qed (use assms in auto)

lemma ssh_reach_inv:
  assumes "ssh_reach L S cfg peer h log"
  shows "handler_inv h \<and> h_peer h = peer"
  using assms
proof (induction rule: ssh_reach.induct)
  case (ssh_start now)
  then show ?case by (simp add: handler_new_def handler_inv_def shells_ok_def)
next
  case (ssh_event h log t ev ctx ctx' h' r)
  with ssh_step_facts show ?case by blast
qed

lemma ssh_reach_identity:
  assumes "ssh_reach L S cfg peer h log"
  shows "if cs_authenticated (h_session h) then \<exists>u. cs_username (h_session h) = Some u \<and> (\<exists>e \<in> set log. proves L cfg peer u e)
         else list_all (\<lambda>(ev, t, ctx, r). harmless r) log"
  using assms
proof (induction rule: ssh_reach.induct)
  case (ssh_start now)
  then show ?case by (simp add: handler_new_def client_session_new_def)
next
  case (ssh_event h log t ev ctx ctx' h' r)
  have inv: "handler_inv h" "h_peer h = peer" using ssh_reach_inv [OF ssh_event.hyps(1)] by simp_all
  from ssh_step_facts [OF ssh_event.hyps(2) inv(1)] show ?case
  proof (elim conjE disjE)
    assume same: "h_session h' = h_session h" and q: "\<not> cs_authenticated (h_session h) \<longrightarrow> harmless r"
    show ?thesis
    proof (cases "cs_authenticated (h_session h)")
      case True
      with ssh_event.IH same show ?thesis by auto
    next
      case False
      with ssh_event.IH same q show ?thesis by auto
    qed
  next
    assume "cs_authenticated (h_session h')" "\<exists>u. cs_username (h_session h') = Some u \<and> proves L cfg (h_peer h) u (ev, t, ctx, r)"
    then show ?thesis using inv(2) by auto
  qed
qed

lemma validate_forwarding_Some:
  assumes "validate_forwarding_request L cfg t p h ctx = (ctx', Some (usr, name, port))"
  shows "cs_authenticated (h_session h) \<and> cs_username (h_session h) = Some name \<and> map_of (user_store (auth_svc ctx)) name = Some usr
     \<and> u_allow_forwarding usr \<and> check_time_access (lib_user L) (at_access t) usr \<and> is_source_ip_allowed (lib_net L) (h_peer h) usr
     \<and> snd (check_rate_limit (lib_gov L) (at_rate t) name (u_max_new_connections_per_minute usr) (security ctx))
     \<and> unat p < 65536 \<and> port = ucast p"
  using assms
  by (auto simp: validate_forwarding_request_def session_user_def Let_def case_prod_beta split: option.splits if_splits)

lemma run_relay_direct:
  assumes "run_relay L W cfg now evs req ctx = (ctx', Inr (up, down, addr))" and "req_upstream_proxy req = None"
  shows "check (lib_net L) (req_user_acl req) (req_host req) (req_port req) (Some (fst addr)) = Allow
     \<and> (ip_guard_enabled (engine_cfg cfg) \<longrightarrow> \<not> reserved_ip (fst addr))"
proof -
  let ?C = "connect_checked (lib_net L) W (engine_cfg cfg) (req_username req) (req_host req) (req_port req)
      (req_user_acl req) (req_max_per_user req) None (proxy_engine ctx)"
  obtain G r where C0: "?C = (G, r)" by fastforce
  obtain st g where "r = Inr (st, addr, g)"
  proof (cases r)
    case (Inl e)
    with C0 assms show thesis by (simp add: run_relay_def connect_and_relay_def)
  next
    case (Inr x)
    obtain st a g where x: "x = (st, a, g)" by (metis prod_cases3)
    have "a = addr" using assms C0 Inr x by (simp add: run_relay_def connect_and_relay_def Let_def case_prod_beta)
    with that Inr x show thesis by blast
  qed
  with C0 have C: "?C = (G, Inr (st, addr, g))" by simp
  show ?thesis using connect_checked_direct [OF C] connect_with_cache_ok by (metis dangerous_iff)
qed

lemma run_relay_slots: "slot_counts (proxy_engine (fst (run_relay L W cfg now evs req ctx))) = slot_counts (proxy_engine ctx)"
  using connect_and_relay_slots [of "lib_net L" W "lib_chrono L" "lib_f64 L" "engine_cfg cfg" now evs "req\<lparr>req_quota_tracker := Some (quota ctx)\<rparr>" "proxy_engine ctx"]
  by (simp add: run_relay_def Let_def case_prod_beta)

subsection \<open>A concrete connection\<close>

definition sample_ssh_config :: ssh_config where
  "sample_ssh_config = socks_config.extend sample_socks_config
     \<lparr>ssh_auth_timeout = 30, max_auth_attempts = 3, shell_hostname = ''s5'',
      motd_cfg = \<lparr>motd_enabled = False, motd_template = None, motd_colors = False\<rparr>\<rparr>\<lparr>totp_required_for := [''ssh'']\<rparr>"

definition sample_ssh_ops :: "(ipaddr, unit, int) ssh_ops" where
  "sample_ssh_ops = \<lparr>shell_lib = sample_shell_ops, key_fingerprint = (\<lambda>_. ''SHA256:x''), to_rfc3339 = (\<lambda>_. ''2030-01-01T00:00:00+00:00'')\<rparr>"

definition sample_ssh_clock :: ssh_clock where
  "sample_ssh_clock = clock.extend sample_clock \<lparr>at_timeout = 0, at_motd = 60\<rparr>"

definition sample_peer_handler :: "ipaddr ssh_handler" where
  "sample_peer_handler = handler_new 0 (V4 192 0 2 7)"

lemmas sample_ssh = sample_ssh_config_def sample_ssh_ops_def sample_ssh_clock_def sample_clock_def sample_socks_config_def
  socks_config.defs clock.defs

lemma sample_ssh_verify:
  "ssh_verify_password sample_libs sample_ssh_config 60 ''al'' ''pw:123456'' (auth_svc sample_context) (used_codes sample_context)
   = Some ([((''al'', ''123456''), 120)], True, True)"
proof -
  have "extract_totp_from_password ''pw:123456'' = Some (''pw'', Some ''123456'')" by code_simp
  then show ?thesis
    by (simp add: ssh_verify_password_def sample_libs_def sample_ssh sample_context_def sample_user_def auth_password_def
        verify_counted_def verify_password_def sample_auth_ops_def is_expired_def verify_totp_def totp_lookup_def totp_commit_def enforce_totp_hard_cap_def MAX_TOTP_CODES_def
        dm_contains_def dm_insert_def Let_def)
qed

lemma sample_ssh_login:
  "\<exists>ctx' h'. ssh_step sample_libs sample_ssh_ops sample_ssh_config sample_ssh_clock (AuthPassword ''al'' ''pw:123456'') sample_context sample_peer_handler
     = Some (ctx', h', AuthReply Accept) \<and> cs_authenticated (h_session h') \<and> cs_username (h_session h') = Some ''al''"
proof -
  let ?P = "pre_auth_check sample_net sample_gov sample_f64 0 (V4 192 0 2 7) (security sample_context)"
  have p: "snd ?P = Inr ()" by (rule sample_pre_auth)
  have b: "begin_auth sample_libs sample_ssh_config sample_ssh_clock sample_context sample_peer_handler
      = (sample_context\<lparr>security := fst ?P\<rparr>, sample_peer_handler\<lparr>h_attempts := 1\<rparr>, True)"
    using p by (simp add: begin_auth_def is_auth_timed_out_def sample_peer_handler_def handler_new_def client_session_new_def sample_ssh
        sample_libs_def Let_def case_prod_beta)
  have a: "at_auth sample_ssh_clock = 60" by (simp add: sample_ssh)
  show ?thesis
    using sample_ssh_verify by (simp add: ssh_auth_password_def b a Let_def)
qed

lemma sample_forward:
  assumes "cs_authenticated (h_session h)" and "cs_username (h_session h) = Some ''al''"
  shows "\<exists>ctx' req. channel_open_direct_tcpip sample_libs sample_ssh_config sample_ssh_clock ''example.org'' 80 h sample_context = (ctx', Some req)"
proof -
  have "server_conn_per_second (quota sample_context) = None" "server_conn_per_minute (quota sample_context) = None"
    by (simp_all add: sample_context_def tracker_new_def sample_limits_def)
  then have "\<exists>ctx' x. validate_forwarding_request sample_libs sample_ssh_config sample_ssh_clock 80 h sample_context = (ctx', Some x)"
    using assms
    by (simp add: validate_forwarding_request_def session_user_def sample_context_def sample_user_def is_source_ip_allowed_def check_time_access_def
        check_rate_limit_def user_limiter_check_def check_connection_rate_def limiter_full_def user_rate_check_def record_connection_def
        connection_quota_error_def check_bandwidth_quota_def Let_def case_prod_beta)
  then show ?thesis by (auto simp: channel_open_direct_tcpip_def)
qed

lemma sample_ssh_reach:
  "\<exists>h log. ssh_reach sample_libs sample_ssh_ops sample_ssh_config (V4 192 0 2 7) h log
     \<and> cs_authenticated (h_session h) \<and> cs_username (h_session h) = Some ''al''"
proof -
  obtain ctx' h' where s: "ssh_step sample_libs sample_ssh_ops sample_ssh_config sample_ssh_clock (AuthPassword ''al'' ''pw:123456'') sample_context
      (handler_new 0 (V4 192 0 2 7)) = Some (ctx', h', AuthReply Accept)" "cs_authenticated (h_session h')" "cs_username (h_session h') = Some ''al''"
    using sample_ssh_login unfolding sample_peer_handler_def by blast
  show ?thesis using ssh_reach.ssh_event [OF ssh_reach.ssh_start s(1)] s(2,3) by blast
qed

subsection \<open>Properties\<close>

text \<open>C4: an authenticated SSH session belongs to the user who proved it. Whatever the events of a connection, their order,
  and whatever other connections or a reload do to the shared state in between: if the session is
  authenticated as a user, some earlier event of this very connection was accepted for this user, after the
  peer passed the check before authentication, with a password the stored hash accepts together with a valid
  one-time code where one is required, or with one of the user's keys, and the account had not expired.\<close>

theorem ssh_authenticated_sound:
  assumes "ssh_reach L S cfg peer h log" and "cs_authenticated (h_session h)"
  shows "\<exists>u. cs_username (h_session h) = Some u \<and> (\<exists>e \<in> set log. proves L cfg peer u e)"
  using ssh_reach_identity [OF assms(1)] assms(2) by simp

theorem ssh_authenticated_sound_witness:
  "\<exists>h log. ssh_reach sample_libs sample_ssh_ops sample_ssh_config (V4 192 0 2 7) h log
     \<and> (\<exists>e \<in> set log. proves sample_libs sample_ssh_config (V4 192 0 2 7) ''al'' e)"
proof -
  obtain h log where r: "ssh_reach sample_libs sample_ssh_ops sample_ssh_config (V4 192 0 2 7) h log"
    "cs_authenticated (h_session h)" "cs_username (h_session h) = Some ''al''"
    using sample_ssh_reach by blast
  with ssh_authenticated_sound [OF r(1,2)] show ?thesis by auto
qed

text \<open>C22: without authentication an SSH connection gets nothing: as long as no identity was proved, in any sequence of
  events, no channel was opened, no connection forwarded, no byte sent on a channel, and no shell exists.\<close>

theorem ssh_nothing_unauthenticated:
  assumes "ssh_reach L S cfg peer h log" and "\<not> cs_authenticated (h_session h)"
  shows "h_shells h = [] \<and> (\<forall>(ev, t, ctx, r) \<in> set log. harmless r)"
  using ssh_reach_inv [OF assms(1)] ssh_reach_identity [OF assms(1)] assms(2)
  by (auto simp: handler_inv_def list_all_iff)

theorem ssh_nothing_unauthenticated_witness:
  "h_shells (handler_new 0 (V4 192 0 2 7) :: ipaddr ssh_handler) = []"
  using ssh_nothing_unauthenticated [OF ssh_reach.ssh_start [of sample_libs sample_ssh_ops sample_ssh_config "V4 192 0 2 7" 0]]
  by (simp add: handler_new_def client_session_new_def)

text \<open>C5: every forwarded connection is authorised. When an SSH connection, after any history, has a forwarding request
  accepted, an identity was proved on it, the user is known now, may forward, is inside the access hours, comes
  from an allowed network and under the rate limit; and if the relay of this request then reaches a target
  without an upstream proxy, the user's access rules allow the address reached, which is not a reserved one
  while the guard is on.\<close>

theorem ssh_relay_authorised:
  assumes "ssh_reach L S cfg peer h log"
    and "channel_open_direct_tcpip L cfg t host p h ctx = (ctx', Some req)"
  shows "\<exists>u usr. (\<exists>e \<in> set log. proves L cfg peer u e) \<and> req_username req = u \<and> map_of (user_store (auth_svc ctx)) u = Some usr
     \<and> u_allow_forwarding usr \<and> check_time_access (lib_user L) (at_access t) usr \<and> is_source_ip_allowed (lib_net L) peer usr
     \<and> snd (check_rate_limit (lib_gov L) (at_rate t) u (u_max_new_connections_per_minute usr) (security ctx))
     \<and> req_host req = host \<and> unat (req_port req) = unat p
     \<and> (\<forall>W now evs ctx2 ctx3 up down addr. run_relay L W cfg now evs req ctx2 = (ctx3, Inr (up, down, addr)) \<longrightarrow>
          resolve_upstream_proxy (lib_url L) usr (engine_cfg cfg) = None \<longrightarrow>
          check (lib_net L) (u_acl usr) host (req_port req) (Some (fst addr)) = Allow
          \<and> (ip_guard_enabled (engine_cfg cfg) \<longrightarrow> \<not> reserved_ip (fst addr)))"
proof -
  obtain usr name port where v: "validate_forwarding_request L cfg t p h ctx = (ctx', Some (usr, name, port))"
    and req: "req_username req = name" "req_host req = host" "req_port req = port" "req_user_acl req = u_acl usr"
      "req_upstream_proxy req = resolve_upstream_proxy (lib_url L) usr (engine_cfg cfg)"
    using assms(2) by (auto simp: channel_open_direct_tcpip_def split: prod.splits option.splits)
  note f = validate_forwarding_Some [OF v]
  have id: "\<exists>e \<in> set log. proves L cfg peer name e" using ssh_reach_identity [OF assms(1)] f by simp
  have prt: "unat port = unat p" using f by (simp add: unsigned_ucast_eq take_bit_eq_mod)
  have peer: "h_peer h = peer" using ssh_reach_inv [OF assms(1)] by simp
  have relayed: "check (lib_net L) (u_acl usr) host (req_port req) (Some (fst addr)) = Allow
      \<and> (ip_guard_enabled (engine_cfg cfg) \<longrightarrow> \<not> reserved_ip (fst addr))"
    if "run_relay L W cfg now evs req ctx2 = (ctx3, Inr (up, down, addr))" "resolve_upstream_proxy (lib_url L) usr (engine_cfg cfg) = None"
    for W now evs ctx2 ctx3 up down addr
    using run_relay_direct [OF that(1)] that(2) req by simp
  show ?thesis
    by (intro exI [of _ name] exI [of _ usr] conjI allI impI)
      (use id f [unfolded peer] req prt relayed in \<open>simp_all\<close>)
qed

theorem ssh_relay_authorised_witness:
  "\<exists>u usr. map_of (user_store (auth_svc sample_context)) u = Some usr \<and> u_allow_forwarding usr
     \<and> is_source_ip_allowed sample_net (V4 192 0 2 7) usr"
proof -
  obtain h log where r: "ssh_reach sample_libs sample_ssh_ops sample_ssh_config (V4 192 0 2 7) h log"
    "cs_authenticated (h_session h)" "cs_username (h_session h) = Some ''al''"
    using sample_ssh_reach by blast
  obtain ctx' req where "channel_open_direct_tcpip sample_libs sample_ssh_config sample_ssh_clock ''example.org'' 80 h sample_context = (ctx', Some req)"
    using sample_forward [OF r(2,3)] by blast
  from ssh_relay_authorised [OF r(1) this] show ?thesis by (auto simp: sample_libs_def)
qed

text \<open>Over SSH the second factor cannot be left out: where one-time codes are required and the user has them enabled,
  a password without a code is refused, even the right one, and the session stays as it was.\<close>

theorem ssh_second_factor_enforced:
  assumes "''ssh'' \<in> set (totp_required_for cfg)" and "map_of (user_store (auth_svc ctx)) u = Some usr"
    and "u_totp_enabled usr" and "u_totp_secret usr \<noteq> None" and "extract_totp_from_password pw = Some (pw', None)"
  shows "\<exists>ctx' h' r. ssh_auth_password L cfg t u pw ctx h = Some (ctx', h', r) \<and> r \<noteq> Accept \<and> h_session h' = h_session h"
proof -
  obtain ctx1 h1 go where b: "begin_auth L cfg t ctx h = (ctx1, h1, go)" by (metis prod_cases3)
  note f = begin_auth_facts [OF b]
  have "ssh_verify_password L cfg (at_auth t) u pw (auth_svc ctx) (used_codes ctx) = Some (used_codes ctx, False, True)"
    using assms by (simp add: ssh_verify_password_def Let_def)
  then show ?thesis by (simp add: ssh_auth_password_def b f(1-3) ssh_record_auth_failure_def Let_def)
qed

theorem ssh_second_factor_enforced_witness:
  "\<exists>ctx' h' r. ssh_auth_password sample_libs sample_ssh_config sample_ssh_clock ''al'' ''pw'' sample_context sample_peer_handler = Some (ctx', h', r)
     \<and> r \<noteq> Accept \<and> h_session h' = h_session sample_peer_handler"
proof (rule ssh_second_factor_enforced)
  show "extract_totp_from_password ''pw'' = Some (''pw'', None)" by code_simp
  show "map_of (user_store (auth_svc sample_context)) ''al'' = Some sample_user" by (simp add: sample_context_def)
qed (simp_all add: sample_ssh sample_user_def)

text \<open>No event crashes an SSH connection, password attempts apart, and it holds at most ten shells: after any history, every
  other event has a result.\<close>

theorem ssh_handler_total:
  assumes "ssh_reach L S cfg peer h log" and "\<And>u pw. ev \<noteq> AuthPassword u pw"
  shows "ssh_step L S cfg t ev ctx h \<noteq> None \<and> length (h_shells h) \<le> 10"
proof
  have inv: "handler_inv h" using ssh_reach_inv [OF assms(1)] by simp
  then show "length (h_shells h) \<le> 10" by (simp add: handler_inv_def shells_ok_def MAX_CHANNELS_PER_CONNECTION_def)
  show "ssh_step L S cfg t ev ctx h \<noteq> None"
  proof (cases ev)
    case (ChannelData ch d)
    obtain c' h' os where "ssh_data S ch d ctx h = Some (c', h', os)" using ssh_data_facts [OF inv] .
    with ChannelData show ?thesis by simp
  qed (use assms(2) in \<open>auto split: prod.split\<close>)
qed

theorem ssh_handler_total_witness:
  "ssh_step sample_libs sample_ssh_ops sample_ssh_config sample_ssh_clock (ChannelData 0 [0x1B, 0x5B, 0x41]) sample_context
     (handler_new 0 (V4 192 0 2 7)) \<noteq> None"
  by (rule ssh_handler_total [OF ssh_reach.ssh_start, THEN conjunct1]) simp

end
