(* ===== verification/Observe_Ssh.thy ===== *)
theory Observe_Ssh
  imports Observe_Engine Ssh_Handler
begin

text \<open>
  The SSH handler of \<open>src/ssh/handler.rs\<close> with its calls to the audit log and the metrics. The callbacks that make
  none are those of the plain model. The correlation id and the port of the peer belong to the connection.
\<close>

subsection \<open>Authentication\<close>

definition ssh_peer_of :: "conn_tag \<Rightarrow> 'net ssh_handler \<Rightarrow> socket_addr" where
  "ssh_peer_of g h = (h_peer h, tag_port g)"

definition ssh_record_auth_failure_obs ::
  "('net, 'pk, 'h, 'cert, 'fp, 'l, 'f) libs \<Rightarrow> ssh_config \<Rightarrow> ssh_clock \<Rightarrow> conn_tag \<Rightarrow> string \<Rightarrow> string \<Rightarrow> u32 \<Rightarrow> 'net ssh_handler
     \<Rightarrow> ('net, 'pk, 'fp, 'l, 'f) app_context \<Rightarrow> ('net, 'pk, 'fp, 'l, 'f) app_context \<times> auth_reply \<times> 'f observation list" where
  "ssh_record_auth_failure_obs L cfg t g name meth attempts h ctx =
     (let metric_method = (if meth = ''publickey'' then ''pubkey'' else meth);
          (sec, os) = record_auth_failure_obs (lib_net L) (at_failure t) (h_peer h) (security ctx) in
      (ctx\<lparr>security := sec\<rparr>,
       if attempts \<ge> max_auth_attempts cfg then Reject None else Reject (Some AUTH_METHODS),
       [Audited (LogAuthFailure name (ssh_peer_of g h) meth (tag_cid g)), Measured (OpAuthFail metric_method),
        Measured (OpError ''auth_failure''), Measured (OpRejected ''auth_failed'')] @ os))"

definition begin_auth_obs ::
  "('net, 'pk, 'h, 'cert, 'fp, 'l, 'f) libs \<Rightarrow> ssh_config \<Rightarrow> ssh_clock \<Rightarrow> ('net, 'pk, 'fp, 'l, 'f) app_context \<Rightarrow> 'net ssh_handler
     \<Rightarrow> ('net, 'pk, 'fp, 'l, 'f) app_context \<times> 'net ssh_handler \<times> bool \<times> 'f observation list" where
  "begin_auth_obs L cfg t ctx h =
     (let h1 = h\<lparr>h_attempts := h_attempts h + 1\<rparr> in
      if is_auth_timed_out cfg (at_timeout t) h1 then (ctx, h1, False, [Measured (OpRejected ''auth_timeout'')])
      else
        (case pre_auth_check_obs (lib_net L) (lib_gov L) (lib_f64 L) (at_pre_auth t) (h_peer h1) (security ctx) of
           (sec, Inl reason, os) \<Rightarrow>
             (ctx\<lparr>security := sec\<rparr>, h1, False,
              os @ [Measured (OpRejected (if reason = ''banned IP'' then ''banned'' else ''acl_denied''))])
         | (sec, Inr _, os) \<Rightarrow> (ctx\<lparr>security := sec\<rparr>, h1, True, os)))"

text \<open>What a success is reported as, after the session has been marked.\<close>

definition success_calls :: "conn_tag \<Rightarrow> string \<Rightarrow> string \<Rightarrow> string \<Rightarrow> 'net ssh_handler \<Rightarrow> 'f observation list" where
  "success_calls g name meth metric_method h =
     [Audited (LogAuthSuccess name (ssh_peer_of g h) meth (tag_cid g)),
      Audited (LogSessionAuthenticated name (ssh_peer_of g h) ''ssh'' (cs_auth_method (h_session h)) (tag_cid g)),
      Measured (OpAuthSuccess name metric_method)]"

definition ssh_auth_password_obs ::
  "('net, 'pk, 'h, 'cert, 'fp, 'l, 'f) libs \<Rightarrow> ssh_config \<Rightarrow> ssh_clock \<Rightarrow> conn_tag \<Rightarrow> string \<Rightarrow> string
     \<Rightarrow> ('net, 'pk, 'fp, 'l, 'f) app_context \<Rightarrow> 'net ssh_handler
     \<Rightarrow> (('net, 'pk, 'fp, 'l, 'f) app_context \<times> 'net ssh_handler \<times> auth_reply \<times> 'f observation list) option" where
  "ssh_auth_password_obs L cfg t g name password ctx h =
     (let (ctx1, h1, go, os) = begin_auth_obs L cfg t ctx h in
      if \<not> go then Some (ctx1, h1, Reject None, os)
      else
        (case ssh_verify_password L cfg (at_auth t) name password (auth_svc ctx1) (used_codes ctx1) of
           None \<Rightarrow> None
         | Some (used, ok, with_code) \<Rightarrow>
             (let ctx2 = ctx1\<lparr>used_codes := used\<rparr> in
              if ok then
                (let h2 = h1\<lparr>h_session := (h_session h1)\<lparr>cs_username := Some name, cs_authenticated := True,
                            cs_auth_method := (if with_code then ''password+totp'' else ''password'')\<rparr>\<rparr> in
                 Some (ctx2, h2, Accept, os @ success_calls g name ''password'' ''password'' h2))
              else
                (let (ctx3, reply, os1) = ssh_record_auth_failure_obs L cfg t g name ''password'' (h_attempts h1) h1 ctx2 in
                 Some (ctx3, h1, reply, os @ os1)))))"

definition ssh_auth_publickey_obs ::
  "('net, 'pk, 'h, 'cert, 'fp, 'l, 'f) libs \<Rightarrow> ('net, 'pk, 'f) ssh_ops \<Rightarrow> ssh_config \<Rightarrow> ssh_clock \<Rightarrow> conn_tag \<Rightarrow> string \<Rightarrow> 'pk
     \<Rightarrow> ('net, 'pk, 'fp, 'l, 'f) app_context \<Rightarrow> 'net ssh_handler
     \<Rightarrow> ('net, 'pk, 'fp, 'l, 'f) app_context \<times> 'net ssh_handler \<times> auth_reply \<times> 'f observation list" where
  "ssh_auth_publickey_obs L S cfg t g name key ctx h =
     (let (ctx1, h1, go, os) = begin_auth_obs L cfg t ctx h in
      if \<not> go then (ctx1, h1, Reject None, os)
      else if auth_publickey (auth_svc ctx1) (int (at_auth t)) name key then
        (let h2 = h1\<lparr>h_session := (h_session h1)\<lparr>cs_username := Some name, cs_authenticated := True,
                    cs_auth_method := ''publickey'', cs_fingerprint := Some (key_fingerprint S key)\<rparr>\<rparr> in
         (ctx1, h2, Accept, os @ success_calls g name ''publickey'' ''pubkey'' h2))
      else (let (ctx2, reply, os1) = ssh_record_auth_failure_obs L cfg t g name ''publickey'' (h_attempts h1) h1 ctx1 in
            (ctx2, h1, reply, os @ os1)))"

definition ssh_auth_none_obs ::
  "('net, 'pk, 'h, 'cert, 'fp, 'l, 'f) libs \<Rightarrow> ssh_config \<Rightarrow> ssh_clock
     \<Rightarrow> ('net, 'pk, 'fp, 'l, 'f) app_context \<Rightarrow> 'net ssh_handler
     \<Rightarrow> ('net, 'pk, 'fp, 'l, 'f) app_context \<times> 'net ssh_handler \<times> auth_reply \<times> 'f observation list" where
  "ssh_auth_none_obs L cfg t ctx h =
     (let (ctx1, h1, go, os) = begin_auth_obs L cfg t ctx h in
      (ctx1, h1, if go then Reject (Some AUTH_METHODS) else Reject None, os))"

subsection \<open>Forwarding\<close>

definition validate_forwarding_request_obs ::
  "('net, 'pk, 'h, 'cert, 'fp, 'l, 'f) libs \<Rightarrow> ssh_config \<Rightarrow> ssh_clock \<Rightarrow> conn_tag \<Rightarrow> u32 \<Rightarrow> 'net ssh_handler
     \<Rightarrow> ('net, 'pk, 'fp, 'l, 'f) app_context
     \<Rightarrow> ('net, 'pk, 'fp, 'l, 'f) app_context \<times> (('net, 'pk) user \<times> string \<times> u16) option \<times> 'f observation list" where
  "validate_forwarding_request_obs L cfg t g port_to_connect h ctx =
     (case session_user ctx h of
        None \<Rightarrow> (ctx, None, [])
      | Some (name, usr) \<Rightarrow>
          if \<not> u_allow_forwarding usr then (ctx, None, [])
          else if \<not> check_time_access (lib_user L) (at_access t) usr then (ctx, None, [Measured (OpRejected ''time_access_denied'')])
          else
            (let (sec, rate_ok) = check_rate_limit (lib_gov L) (at_rate t) name (u_max_new_connections_per_minute usr) (security ctx);
                 ctx1 = ctx\<lparr>security := sec\<rparr> in
             if \<not> rate_ok then
               (ctx1, None, [Audited (LogRateLimitExceeded name (ssh_peer_of g h) ''legacy_per_minute'' (tag_cid g)),
                             Measured (OpRejected ''rate_limited'')])
             else
               (case check_connection_rate (lib_chrono L) (at_quota_rate t) name (u_rate_limits usr) (limits_cfg cfg) (quota ctx1) of
                  (q2, Inl reason) \<Rightarrow>
                    (ctx1\<lparr>quota := q2\<rparr>, None,
                     [Audited (LogRateLimitExceeded name (ssh_peer_of g h) reason (tag_cid g)), Measured (OpRejected ''rate_limited'')])
                | (q2, Inr _) \<Rightarrow>
                    (case record_connection (lib_chrono L) (at_quota_record t) name (u_quotas usr) q2 of
                       (q3, Inl reason) \<Rightarrow>
                         (ctx1\<lparr>quota := q3\<rparr>, None,
                          [Audited (LogQuotaExceeded name reason 0 0), Measured (OpError ''quota_exceeded''),
                           Measured (OpRejected ''quota_exceeded'')])
                     | (q3, Inr _) \<Rightarrow>
                         (case check_bandwidth_quota (lib_chrono L) (at_quota_bandwidth t) name (u_quotas usr) q3 of
                            (q4, Inl reason) \<Rightarrow>
                              (ctx1\<lparr>quota := q4\<rparr>, None,
                               [Audited (LogQuotaExceeded name reason 0 0), Measured (OpError ''quota_exceeded''),
                                Measured (OpRejected ''quota_exceeded'')])
                          | (q4, Inr _) \<Rightarrow>
                              (let ctx4 = ctx1\<lparr>quota := q4\<rparr> in
                               if \<not> is_source_ip_allowed (lib_net L) (h_peer h) usr then (ctx4, None, [])
                               else if unat port_to_connect \<ge> 65536 then (ctx4, None, [])
                               else (ctx4, Some (usr, name, ucast port_to_connect), [])))))))"

definition channel_open_direct_tcpip_obs ::
  "('net, 'pk, 'h, 'cert, 'fp, 'l, 'f) libs \<Rightarrow> ssh_config \<Rightarrow> ssh_clock \<Rightarrow> conn_tag \<Rightarrow> string \<Rightarrow> u32 \<Rightarrow> 'net ssh_handler
     \<Rightarrow> ('net, 'pk, 'fp, 'l, 'f) app_context
     \<Rightarrow> ('net, 'pk, 'fp, 'l, 'f) app_context \<times> 'net ssh_relay_request option \<times> 'f observation list" where
  "channel_open_direct_tcpip_obs L cfg t g host port_to_connect h ctx =
     (case validate_forwarding_request_obs L cfg t g port_to_connect h ctx of
        (ctx1, None, os) \<Rightarrow> (ctx1, None, os)
      | (ctx1, Some (usr, name, port), os) \<Rightarrow>
          (ctx1, Some \<lparr>req_username = name, req_host = host, req_port = port, req_user_acl = u_acl usr,
             req_source_ip = show_ip (h_peer h), req_bandwidth_limit_kbps = u_max_bandwidth_kbps usr,
             req_max_per_user = u_max_connections usr, req_aggregate_bandwidth_kbps = u_max_aggregate_bandwidth_kbps usr,
             req_quota_tracker = None, req_quotas = u_quotas usr,
             req_upstream_proxy = resolve_upstream_proxy (lib_url L) usr (engine_cfg cfg)\<rparr>, os))"

text \<open>The spawned task, with the time it took.\<close>

definition run_relay_obs ::
  "('net, 'pk, 'h, 'cert, 'fp, 'l, 'f) libs \<Rightarrow> network \<Rightarrow> ssh_config \<Rightarrow> nat \<Rightarrow> socket_addr \<Rightarrow> string \<Rightarrow> u64
     \<Rightarrow> (bool \<times> relay_event) list \<Rightarrow> 'net ssh_relay_request \<Rightarrow> ('net, 'pk, 'fp, 'l, 'f) app_context
     \<Rightarrow> ('net, 'pk, 'fp, 'l, 'f) app_context \<times> (conn_error + u64 \<times> u64 \<times> socket_addr) \<times> 'f observation list" where
  "run_relay_obs L W cfg now peer cid duration_ms evs req ctx =
     (let (G, T, r, os) = connect_and_relay_obs (lib_net L) W (lib_chrono L) (lib_f64 L) (engine_cfg cfg) now evs
            (req\<lparr>req_quota_tracker := Some (quota ctx)\<rparr>) (proxy_engine ctx);
          ctx1 = ctx\<lparr>proxy_engine := G, quota := (case T of Some q \<Rightarrow> q | None \<Rightarrow> quota ctx)\<rparr> in
      (ctx1, r, os @
         (case r of
            Inr (up, down, resolved) \<Rightarrow>
              [Audited (LogProxyComplete (req_username req) (req_host req) (req_port req) up down duration_ms peer
                 (Some (show_ip (fst resolved))) cid),
               Measured (OpBytes (req_username req) (up + down)),
               Measured (OpTypedDuration (req_username req) ''ssh'' (f_div (lib_f64 L) (f_of_u64 (lib_f64 L) duration_ms) (f_lit (lib_f64 L) 1000 1)))]
          | Inl e \<Rightarrow> [Measured (OpError (classify_relay_error e))])))"

fun ssh_step_obs ::
  "('net, 'pk, 'h, 'cert, 'fp, 'l, 'f) libs \<Rightarrow> ('net, 'pk, 'f) ssh_ops \<Rightarrow> ssh_config \<Rightarrow> ssh_clock \<Rightarrow> conn_tag \<Rightarrow> 'pk ssh_event
     \<Rightarrow> ('net, 'pk, 'fp, 'l, 'f) app_context \<Rightarrow> 'net ssh_handler
     \<Rightarrow> (('net, 'pk, 'fp, 'l, 'f) app_context \<times> 'net ssh_handler \<times> 'net ssh_result \<times> 'f observation list) option" where
  "ssh_step_obs L S cfg t g (AuthPassword u pw) ctx h =
     map_option (\<lambda>(c, h', r, os). (c, h', AuthReply r, os)) (ssh_auth_password_obs L cfg t g u pw ctx h)"
| "ssh_step_obs L S cfg t g (AuthPublickey u k) ctx h =
     (let (c, h', r, os) = ssh_auth_publickey_obs L S cfg t g u k ctx h in Some (c, h', AuthReply r, os))"
| "ssh_step_obs L S cfg t g (AuthNone u) ctx h =
     (let (c, h', r, os) = ssh_auth_none_obs L cfg t ctx h in Some (c, h', AuthReply r, os))"
| "ssh_step_obs L S cfg t g (OpenDirectTcpip host port) ctx h =
     (let (c, req, os) = channel_open_direct_tcpip_obs L cfg t g host port h ctx in Some (c, h, Forward req, os))"
| "ssh_step_obs L S cfg t g ev ctx h = map_option (\<lambda>(c, h', r). (c, h', r, [])) (ssh_step L S cfg t ev ctx h)"

subsection \<open>The calls change nothing\<close>

lemma begin_auth_obs_fst [simp]:
  "fst (begin_auth_obs L cfg t ctx h) = fst (begin_auth L cfg t ctx h)"
  "fst (snd (begin_auth_obs L cfg t ctx h)) = fst (snd (begin_auth L cfg t ctx h))"
  "fst (snd (snd (begin_auth_obs L cfg t ctx h))) = snd (snd (begin_auth L cfg t ctx h))"
  by (auto simp: begin_auth_obs_def begin_auth_def Let_def case_prod_beta split: sum.splits)

lemma ssh_record_auth_failure_obs_fst [simp]:
  "fst (ssh_record_auth_failure_obs L cfg t g name meth n h ctx) = fst (ssh_record_auth_failure L cfg t n h ctx)"
  "fst (snd (ssh_record_auth_failure_obs L cfg t g name meth n h ctx)) = snd (ssh_record_auth_failure L cfg t n h ctx)"
  by (simp_all add: ssh_record_auth_failure_obs_def ssh_record_auth_failure_def Let_def case_prod_beta)

lemma validate_forwarding_request_obs_result:
  "fst (validate_forwarding_request_obs L cfg t g port h ctx) = fst (validate_forwarding_request L cfg t port h ctx)
   \<and> fst (snd (validate_forwarding_request_obs L cfg t g port h ctx)) = snd (validate_forwarding_request L cfg t port h ctx)"
proof (cases "session_user ctx h")
  case None
  then show ?thesis by (simp add: validate_forwarding_request_obs_def validate_forwarding_request_def)
next
  case (Some p)
  obtain name usr where p: "p = (name, usr)" by (cases p)
  obtain sec ok where R: "check_rate_limit (lib_gov L) (at_rate t) name (u_max_new_connections_per_minute usr) (security ctx) = (sec, ok)"
    by (metis prod.collapse)
  obtain q2 r2 where r2: "check_connection_rate (lib_chrono L) (at_quota_rate t) name (u_rate_limits usr) (limits_cfg cfg) (quota ctx) = (q2, r2)"
    by (metis prod.collapse)
  obtain q3 r3 where r3: "record_connection (lib_chrono L) (at_quota_record t) name (u_quotas usr) q2 = (q3, r3)" by (metis prod.collapse)
  obtain q4 r4 where r4: "check_bandwidth_quota (lib_chrono L) (at_quota_bandwidth t) name (u_quotas usr) q3 = (q4, r4)" by (metis prod.collapse)
  note unfolded = validate_forwarding_request_obs_def validate_forwarding_request_def Some p R r2 Let_def
  show ?thesis
  proof (cases r2)
    case (Inl e)
    then show ?thesis by (simp add: unfolded)
  next
    case a: (Inr x)
    show ?thesis
    proof (cases r3)
      case (Inl e)
      then show ?thesis by (simp add: unfolded a r3)
    next
      case b: (Inr y)
      show ?thesis by (cases r4) (simp_all add: unfolded a b r3 r4)
    qed
  qed
qed

lemmas validate_forwarding_request_obs_fst [simp] =
  conjunct1 [OF validate_forwarding_request_obs_result] conjunct2 [OF validate_forwarding_request_obs_result]

lemma channel_open_direct_tcpip_obs_fst [simp]:
  "fst (channel_open_direct_tcpip_obs L cfg t g host port h ctx) = fst (channel_open_direct_tcpip L cfg t host port h ctx)"
  "fst (snd (channel_open_direct_tcpip_obs L cfg t g host port h ctx)) = snd (channel_open_direct_tcpip L cfg t host port h ctx)"
  by (simp_all add: channel_open_direct_tcpip_obs_def channel_open_direct_tcpip_def case_prod_beta split: option.split)

lemma run_relay_obs_fst:
  "fst (run_relay_obs L W cfg now peer cid ms evs req ctx) = fst (run_relay L W cfg now evs req ctx)"
  "fst (snd (run_relay_obs L W cfg now peer cid ms evs req ctx)) = snd (run_relay L W cfg now evs req ctx)"
  by (simp_all add: run_relay_obs_def run_relay_def Let_def case_prod_beta)

lemma ssh_auth_password_obs_map:
  "map_option (\<lambda>(c, h', r, os). (c, h', r)) (ssh_auth_password_obs L cfg t g u pw ctx h) = ssh_auth_password L cfg t u pw ctx h"
proof -
  obtain c h1 go where B: "begin_auth L cfg t ctx h = (c, h1, go)" by (metis prod_cases3)
  obtain c' h1' go' os where B': "begin_auth_obs L cfg t ctx h = (c', h1', go', os)" by (metis prod_cases4)
  have [simp]: "c' = c" "h1' = h1" "go' = go" using begin_auth_obs_fst [of L cfg t ctx h] by (simp_all add: B B')
  show ?thesis
    by (simp add: ssh_auth_password_obs_def ssh_auth_password_def B B' Let_def case_prod_beta split: option.split)
qed

lemma ssh_step_obs_map:
  "map_option (\<lambda>(c, h', r, os). (c, h', r)) (ssh_step_obs L S cfg t g ev ctx h) = ssh_step L S cfg t ev ctx h"
proof (cases ev)
  case (AuthPassword u pw)
  show ?thesis
    by (simp add: AuthPassword option.map_comp comp_def case_prod_beta flip: ssh_auth_password_obs_map [of L cfg t g u pw ctx h])
qed (simp_all add: ssh_auth_publickey_obs_def ssh_auth_publickey_def ssh_auth_none_obs_def ssh_auth_none_def Let_def case_prod_unfold
    option.map_comp comp_def)

text \<open>On the SSH side too the calls change nothing: a step with its calls left out is the step of the plain handler.\<close>

theorem observed_ssh_refines:
  "map_option (\<lambda>(c, h', r, os). (c, h', r)) (ssh_step_obs L S cfg t g ev ctx h) = ssh_step L S cfg t ev ctx h"
  by (rule ssh_step_obs_map)

subsection \<open>Logins\<close>

lemma service_only_begin [simp]: "service_only (snd (snd (snd (begin_auth_obs L cfg t ctx h))))"
  by (auto simp: begin_auth_obs_def Let_def case_prod_beta split: sum.split)

lemma service_only_validate [simp]: "service_only (snd (snd (validate_forwarding_request_obs L cfg t g port h ctx)))"
proof (cases "session_user ctx h")
  case (Some p)
  obtain name usr where p: "p = (name, usr)" by (cases p)
  show ?thesis by (auto simp: validate_forwarding_request_obs_def Some p Let_def case_prod_beta split: sum.split)
qed (simp add: validate_forwarding_request_obs_def)

lemma service_only_direct [simp]: "service_only (snd (snd (channel_open_direct_tcpip_obs L cfg t g host port h ctx)))"
  by (auto simp: channel_open_direct_tcpip_obs_def case_prod_beta split: option.split)

text \<open>The event tests the identity of a user: the name and the method it is logged under.\<close>

fun login_event :: "'pk ssh_event \<Rightarrow> (string \<times> string) option" where
  "login_event (AuthPassword u _) = Some (u, ''password'')"
| "login_event (AuthPublickey u _) = Some (u, ''publickey'')"
| "login_event _ = None"

lemma logins_failure:
  "logins (snd (snd (ssh_record_auth_failure_obs L cfg t g name meth n h ctx))) = [LogAuthFailure name (ssh_peer_of g h) meth (tag_cid g)]"
  by (simp add: ssh_record_auth_failure_obs_def Let_def case_prod_beta)

lemma logins_success:
  "logins (success_calls g name meth m h) = [LogAuthSuccess name (ssh_peer_of g h) meth (tag_cid g),
     LogSessionAuthenticated name (ssh_peer_of g h) ''ssh'' (cs_auth_method (h_session h)) (tag_cid g)]"
  by (simp add: success_calls_def)

lemma begin_auth_obs_peer: "h_peer (fst (snd (begin_auth L cfg t ctx h))) = h_peer h"
  by (simp add: begin_auth_def Let_def case_prod_beta)

lemma begin_auth_go:
  "snd (snd (begin_auth L cfg t ctx h)) \<longleftrightarrow> \<not> is_auth_timed_out cfg (at_timeout t) h
     \<and> snd (pre_auth_check (lib_net L) (lib_gov L) (lib_f64 L) (at_pre_auth t) (h_peer h) (security ctx)) = Inr ()"
  by (simp add: begin_auth_def is_auth_timed_out_def Let_def case_prod_beta)

definition accepted :: "'net ssh_result \<Rightarrow> bool" where
  "accepted r \<longleftrightarrow> r = AuthReply Accept"

text \<open>What a step must report, where \<open>go\<close> says that the identity was tested.\<close>

definition ssh_login_record :: "conn_tag \<Rightarrow> bool \<Rightarrow> 'pk ssh_event \<Rightarrow> 'net ssh_result \<Rightarrow> 'net ssh_handler \<Rightarrow> audit_call list" where
  "ssh_login_record g go ev r h' =
     (case login_event ev of
        None \<Rightarrow> []
      | Some (u, m) \<Rightarrow>
          if \<not> go then []
          else if accepted r then [LogAuthSuccess u (ssh_peer_of g h') m (tag_cid g),
             LogSessionAuthenticated u (ssh_peer_of g h') ''ssh'' (cs_auth_method (h_session h')) (tag_cid g)]
          else [LogAuthFailure u (ssh_peer_of g h') m (tag_cid g)])"

text \<open>C10: over SSH every test of an identity is audited under the name given: as a success, with the method the session
  is then marked with, exactly if the client is accepted, and otherwise as a failure, which also counts towards
  a ban. Nothing else is reported as a login.\<close>

theorem ssh_logins_audited:
  assumes "ssh_step_obs L S cfg t g ev ctx h = Some (ctx', h', r, os)"
  shows "logins os = ssh_login_record g (snd (snd (begin_auth L cfg t ctx h))) ev r h'
    \<and> (\<forall>u p m c. LogAuthFailure u p m c \<in> set (logins os) \<longrightarrow>
         security ctx' = record_auth_failure (lib_net L) (at_failure t) (h_peer h) (security (fst (begin_auth L cfg t ctx h))))"
proof -
  obtain c1 h1 go where B: "begin_auth L cfg t ctx h = (c1, h1, go)" by (metis prod_cases3)
  obtain c1' h1' go' os1 where B': "begin_auth_obs L cfg t ctx h = (c1', h1', go', os1)" by (metis prod_cases4)
  have b [simp]: "c1' = c1" "h1' = h1" "go' = go" using begin_auth_obs_fst [of L cfg t ctx h] by (simp_all add: B B')
  have p: "h_peer h1 = h_peer h" using begin_auth_obs_peer [of L cfg t ctx h] by (simp add: B)
  have o: "logins os1 = []" using service_only_begin [of L cfg t ctx h] by (simp add: B')
  note reported = ssh_login_record_def accepted_def logins_failure logins_success ssh_record_auth_failure_def B B' ssh_peer_of_def
  show ?thesis
  proof (cases ev)
    case (AuthPassword u pw)
    then show ?thesis using assms o p
      by (auto simp: reported ssh_auth_password_obs_def Let_def case_prod_beta split: if_splits option.splits)
  next
    case (AuthPublickey u k)
    then show ?thesis using assms o p
      by (auto simp: reported ssh_auth_publickey_obs_def Let_def case_prod_beta split: if_splits)
  next
    case (AuthNone u)
    then show ?thesis using assms o by (auto simp: reported ssh_auth_none_obs_def Let_def case_prod_beta)
  next
    case (OpenDirectTcpip host port)
    then show ?thesis using assms by (auto simp: reported Let_def case_prod_beta)
  qed (use assms in \<open>auto simp: ssh_login_record_def\<close>)
qed

theorem ssh_logins_audited_witness:
  "\<exists>ctx' h' r os. ssh_step_obs sample_libs sample_ssh_ops sample_ssh_config sample_ssh_clock \<lparr>tag_port = 4000, tag_cid = ''c''\<rparr>
       (AuthPublickey ''al'' ()) sample_context sample_peer_handler = Some (ctx', h', r, os)
     \<and> logins os = [LogAuthFailure ''al'' (V4 192 0 2 7, 4000) ''publickey'' ''c'']
     \<and> security ctx' = record_auth_failure sample_net 0 (V4 192 0 2 7)
         (security (fst (begin_auth sample_libs sample_ssh_config sample_ssh_clock sample_context sample_peer_handler)))"
proof -
  let ?g = "\<lparr>tag_port = 4000, tag_cid = ''c''\<rparr> :: conn_tag" and ?B = "begin_auth sample_libs sample_ssh_config sample_ssh_clock sample_context sample_peer_handler"
  obtain ctx' h' r os where H: "ssh_step_obs sample_libs sample_ssh_ops sample_ssh_config sample_ssh_clock ?g
       (AuthPublickey ''al'' ()) sample_context sample_peer_handler = Some (ctx', h', r, os)" by (simp add: Let_def case_prod_beta)
  have go: "snd (snd ?B)"
    using sample_pre_auth
    by (simp add: begin_auth_go is_auth_timed_out_def sample_peer_handler_def handler_new_def client_session_new_def sample_ssh sample_libs_def)
  have key: "\<not> auth_publickey (auth_svc (fst ?B)) 60 ''al'' ()"
    by (simp add: begin_auth_def Let_def case_prod_beta sample_context_def auth_publickey_def sample_user_def key_matches_parsed_def)
  have c: "at_auth sample_ssh_clock = 60" "at_failure sample_ssh_clock = 0" "h_peer sample_peer_handler = V4 192 0 2 7"
    "lib_net sample_libs = sample_net" by (simp_all add: sample_ssh sample_peer_handler_def handler_new_def sample_libs_def)
  have "r \<noteq> AuthReply Accept" "h_peer h' = V4 192 0 2 7"
    using H go key begin_auth_obs_peer [of sample_libs sample_ssh_config sample_ssh_clock sample_context sample_peer_handler]
    by (auto simp: ssh_auth_publickey_obs_def Let_def case_prod_beta ssh_record_auth_failure_def c split: if_splits)
  with ssh_logins_audited [OF H] go H show ?thesis
    by (auto simp: ssh_login_record_def accepted_def ssh_peer_of_def c)
qed

end
