(* ===== verification/Api_Auth.thy ===== *)
theory Api_Auth
  imports Strings
begin

text \<open>
  Models the authentication of the management interface, \<open>src/api/mod.rs\<close>: the bearer token, the
  signed tickets for event streams and their replay protection. The HMAC and the percent decoding of
  the crates are parameters, the clock readings (seconds since the epoch) and the random nonce are
  arguments.
\<close>

subsection \<open>Model\<close>

text \<open>\<open>hmac_hex key message\<close> is the lower-case hexadecimal HMAC-SHA256, None where the key is refused;
  \<open>percent_decode_lossy\<close> is \<open>percent_decode_str(..).decode_utf8_lossy()\<close>.\<close>

record api_ops =
  hmac_hex :: "string \<Rightarrow> string \<Rightarrow> string option"
  percent_decode_lossy :: "string \<Rightarrow> string"

text \<open>The used tickets: \<open>timestamp:nonce\<close> to the second after which the ticket is expired.\<close>

type_synonym tickets = "(string, u64) dmap"

definition MAX_USED_TICKETS :: nat where
  "MAX_USED_TICKETS = 10000"

definition SSE_TICKET_VALIDITY_SECS :: u64 where
  "SSE_TICKET_VALIDITY_SECS = 30"

definition ticket_cleanup :: "u64 \<Rightarrow> tickets \<Rightarrow> tickets" where
  "ticket_cleanup now T = dm_retain (\<lambda>_ expiry. expiry > now) T"

definition signing_key :: "string \<Rightarrow> string" where
  "signing_key api_token = ''s5-sse-ticket:'' @ api_token"

definition ticket_key :: "u64 \<Rightarrow> nat \<Rightarrow> string" where
  "ticket_key timestamp nonce = show_nat (unat timestamp) @ '':'' @ show_nat nonce"

definition sse_ticket_handler :: "api_ops \<Rightarrow> u64 \<Rightarrow> nat \<Rightarrow> string \<Rightarrow> string option" where
  "sse_ticket_handler A timestamp nonce api_token =
     (case hmac_hex A (signing_key api_token) (ticket_key timestamp nonce) of
        None \<Rightarrow> None
      | Some signature \<Rightarrow> Some (show_nat (unat timestamp) @ '':'' @ show_nat nonce @ '':'' @ signature))"

definition saturating_sub :: "u64 \<Rightarrow> u64 \<Rightarrow> u64" where
  "saturating_sub a b = (if b \<le> a then a - b else 0)"

definition verify_sse_ticket :: "api_ops \<Rightarrow> u64 \<Rightarrow> string \<Rightarrow> string \<Rightarrow> tickets \<Rightarrow> tickets \<times> bool" where
  "verify_sse_ticket A now ticket api_token T =
     (case splitn 3 CHR '':'' ticket of
        [ts, ns, sig] \<Rightarrow>
          (case parse_uint (2 ^ 64) ts of
             None \<Rightarrow> (T, False)
           | Some t \<Rightarrow>
             (case parse_uint (2 ^ 128) ns of
                None \<Rightarrow> (T, False)
              | Some nonce \<Rightarrow>
                let timestamp = of_nat t in
                if saturating_sub now timestamp > SSE_TICKET_VALIDITY_SECS then (T, False)
                else case hmac_hex A (signing_key api_token) (ticket_key timestamp nonce) of
                  None \<Rightarrow> (T, False)
                | Some expected \<Rightarrow>
                    if sig = expected then
                      (let key = ticket_key timestamp nonce in
                       if dm_contains T key then (T, False)
                       else
                         (let T1 = (if length T \<ge> MAX_USED_TICKETS then ticket_cleanup now T else T)
                          in (dm_insert key (timestamp + SSE_TICKET_VALIDITY_SECS) T1, True)))
                    else (T, False)))
      | _ \<Rightarrow> (T, False))"

text \<open>The middleware in front of every \<open>/api\<close> route. The header is the \<open>Authorization\<close> value if it
  is printable ASCII; \<open>now i\<close> is the clock reading of the \<open>i\<close>-th ticket check of the request.\<close>

record api_request =
  authorization :: "string option"
  query :: "string option"

datatype auth_outcome = Next | Reject nat string

fun try_tickets :: "api_ops \<Rightarrow> string \<Rightarrow> (nat \<Rightarrow> u64) \<Rightarrow> string list \<Rightarrow> tickets \<Rightarrow> tickets \<times> bool" where
  "try_tickets A api_token now [] T = (T, False)"
| "try_tickets A api_token now (pair # pairs) T =
     (case strip_prefix ''ticket='' pair of
        None \<Rightarrow> try_tickets A api_token now pairs T
      | Some v \<Rightarrow>
          (case verify_sse_ticket A (now 0) (percent_decode_lossy A v) api_token T of
             (T1, True) \<Rightarrow> (T1, True)
           | (T1, False) \<Rightarrow> try_tickets A api_token (\<lambda>i. now (Suc i)) pairs T1))"

definition auth_middleware ::
  "api_ops \<Rightarrow> string \<Rightarrow> (nat \<Rightarrow> u64) \<Rightarrow> api_request \<Rightarrow> tickets \<Rightarrow> tickets \<times> auth_outcome" where
  "auth_middleware A api_token now req T =
     (if api_token = [] then (T, Reject 503 ''service unavailable'')
      else
        let by_query =
          (case query req of
             None \<Rightarrow> (T, Reject 401 ''unauthorized'')
           | Some q \<Rightarrow>
               (case try_tickets A api_token now (split_on CHR ''&'' q) T of
                  (T1, True) \<Rightarrow> (T1, Next)
                | (T1, False) \<Rightarrow> (T1, Reject 401 ''unauthorized'')))
        in case authorization req of
             None \<Rightarrow> by_query
           | Some h \<Rightarrow>
               if starts_with ''Bearer '' h
               then (if drop 7 h = api_token then (T, Next) else (T, Reject 401 ''unauthorized''))
               else by_query)"

subsection \<open>What a ticket check accepts\<close>

definition ticket_fields :: "string \<Rightarrow> (u64 \<times> nat \<times> string) option" where
  "ticket_fields ticket =
     (case splitn 3 CHR '':'' ticket of
        [ts, ns, sig] \<Rightarrow>
          (case parse_uint (2 ^ 64) ts of
             None \<Rightarrow> None
           | Some t \<Rightarrow> map_option (\<lambda>n. (of_nat t, n, sig)) (parse_uint (2 ^ 128) ns))
      | _ \<Rightarrow> None)"

definition genuine :: "api_ops \<Rightarrow> string \<Rightarrow> u64 \<Rightarrow> string \<Rightarrow> u64 \<times> nat \<Rightarrow> bool" where
  "genuine A api_token now ticket = (\<lambda>(ts, n). \<exists>sig. ticket_fields ticket = Some (ts, n, sig)
     \<and> hmac_hex A (signing_key api_token) (ticket_key ts n) = Some sig
     \<and> saturating_sub now ts \<le> SSE_TICKET_VALIDITY_SECS)"

lemma verify_sse_ticket_fields:
  "verify_sse_ticket A now ticket api_token T =
     (case ticket_fields ticket of
        None \<Rightarrow> (T, False)
      | Some (ts, n, sig) \<Rightarrow>
          if saturating_sub now ts \<le> SSE_TICKET_VALIDITY_SECS
             \<and> hmac_hex A (signing_key api_token) (ticket_key ts n) = Some sig
             \<and> \<not> dm_contains T (ticket_key ts n)
          then (dm_insert (ticket_key ts n) (ts + SSE_TICKET_VALIDITY_SECS)
                  (if MAX_USED_TICKETS \<le> length T then ticket_cleanup now T else T), True)
          else (T, False))"
  by (auto simp: verify_sse_ticket_def ticket_fields_def Let_def not_less split: list.split option.split)

lemma verify_accepts:
  "snd (verify_sse_ticket A now ticket api_token T) \<longleftrightarrow>
     (\<exists>ts n. genuine A api_token now ticket (ts, n) \<and> \<not> dm_contains T (ticket_key ts n))"
  by (auto simp: verify_sse_ticket_fields genuine_def split: option.split)

lemma verify_rejects: "\<not> snd (verify_sse_ticket A now ticket api_token T) \<Longrightarrow> fst (verify_sse_ticket A now ticket api_token T) = T"
  by (auto simp: verify_sse_ticket_fields split: option.split if_splits)

lemma show_nat_no_colon: "CHR '':'' \<notin> set (show_nat n)"
  using show_nat_digits [of n] by (auto simp: list_all_iff is_ascii_digit_def)

lemma ticket_key_inj [simp]: "ticket_key ts n = ticket_key ts' n' \<longleftrightarrow> ts = ts' \<and> n = n'"
proof
  assume "ticket_key ts n = ticket_key ts' n'"
  then have "splitn 2 CHR '':'' (ticket_key ts n) = splitn 2 CHR '':'' (ticket_key ts' n')" by simp
  then show "ts = ts' \<and> n = n'"
    by (simp add: ticket_key_def takeWhile_delim dropWhile_delim numeral_2_eq_2 show_nat_no_colon word_unat_eq_iff)
qed simp

lemma ticket_fields_issued:
  assumes "nonce < 2 ^ 128"
  shows "ticket_fields (show_nat (unat ts) @ '':'' @ show_nat nonce @ '':'' @ sig) = Some (ts, nonce, sig)"
proof -
  have "unat ts < 2 ^ 64" using unsigned_less [of ts, where 'a = nat] by simp
  then have "parse_uint (2 ^ 64) (show_nat (unat ts)) = Some (unat ts)" by simp
  moreover have "parse_uint (2 ^ 128) (show_nat nonce) = Some nonce" using assms by simp
  moreover have "splitn 3 CHR '':'' (show_nat (unat ts) @ '':'' @ show_nat nonce @ '':'' @ sig)
      = [show_nat (unat ts), show_nat nonce, sig]"
    by (simp add: takeWhile_delim dropWhile_delim show_nat_no_colon numeral_3_eq_3)
  ultimately show ?thesis by (simp add: ticket_fields_def)
qed

lemma handler_ticket:
  assumes "sse_ticket_handler A ts nonce tok = Some ticket" and "nonce < 2 ^ 128"
  shows "\<exists>sig. hmac_hex A (signing_key tok) (ticket_key ts nonce) = Some sig \<and> ticket_fields ticket = Some (ts, nonce, sig)"
  using assms ticket_fields_issued [OF assms(2), of ts]
  by (auto simp: sse_ticket_handler_def split: option.splits)

subsection \<open>The used tickets as a machine\<close>

datatype ticket_op = OpVerify string | OpTicketCleanup

fun ticket_step :: "api_ops \<Rightarrow> string \<Rightarrow> u64 \<times> ticket_op \<Rightarrow> tickets \<Rightarrow> tickets" where
  "ticket_step A tok (now, OpVerify ticket) T = fst (verify_sse_ticket A now ticket tok T)"
| "ticket_step A tok (now, OpTicketCleanup) T = ticket_cleanup now T"

lemma dm_ok_ticket_step: "dm_ok T \<Longrightarrow> dm_ok (ticket_step A tok e T)"
  by (cases e; cases "snd e") (auto simp: verify_sse_ticket_fields ticket_cleanup_def split: option.split)

interpretation tickets: machine "ticket_step A tok" dm_ok for A tok
  by unfold_locales (rule dm_ok_ticket_step)

text \<open>The times at which the ticket with this time stamp and nonce is accepted in a run.\<close>

fun ticket_accepts ::
  "api_ops \<Rightarrow> string \<Rightarrow> u64 \<times> nat \<Rightarrow> (u64 \<times> ticket_op) list \<Rightarrow> tickets \<Rightarrow> u64 list" where
  "ticket_accepts A tok k [] T = []"
| "ticket_accepts A tok k ((now, OpTicketCleanup) # es) T =
     ticket_accepts A tok k es (ticket_step A tok (now, OpTicketCleanup) T)"
| "ticket_accepts A tok k ((now, OpVerify ticket) # es) T =
     (if snd (verify_sse_ticket A now ticket tok T) \<and> map_option (\<lambda>(ts, n, _). (ts, n)) (ticket_fields ticket) = Some k
      then [now] else []) @ ticket_accepts A tok k es (ticket_step A tok (now, OpVerify ticket) T)"

definition spent :: "u64 \<times> nat \<Rightarrow> u64 \<Rightarrow> tickets \<Rightarrow> bool" where
  "spent k now T \<longleftrightarrow> fst k + SSE_TICKET_VALIDITY_SECS \<le> now
     \<or> map_of T (ticket_key (fst k) (snd k)) = Some (fst k + SSE_TICKET_VALIDITY_SECS)"

lemma spent_cleanup: "dm_ok T \<Longrightarrow> spent k now T \<Longrightarrow> now \<le> now' \<Longrightarrow> spent k now' (ticket_cleanup now' T)"
  by (auto simp: spent_def ticket_cleanup_def map_of_dm_retain not_less split: option.split)

lemma spent_later: "spent k now T \<Longrightarrow> now \<le> now' \<Longrightarrow> spent k now' T"
  by (auto simp: spent_def)

lemma spent_step:
  assumes "dm_ok T" and "spent k now T" and "now \<le> fst e"
  shows "spent k (fst e) (ticket_step A tok e T)"
proof -
  have c: "spent k (fst e) (ticket_cleanup (fst e) T)" using assms by (rule spent_cleanup)
  have l: "spent k (fst e) T" using assms by (blast intro: spent_later)
  have i: "spent k t (dm_insert (ticket_key ts n) (ts + SSE_TICKET_VALIDITY_SECS) T')" if "spent k t T'" for t ts n T'
    using that by (cases k) (auto simp: spent_def)
  show ?thesis
    using c l i by (cases e; cases "snd e") (auto simp: verify_sse_ticket_fields split: option.split)
qed

lemma spent_not_accepted:
  assumes "spent (ts, n) now T" and "now < ts + SSE_TICKET_VALIDITY_SECS" and "ticket_fields ticket = Some (ts, n, sig)"
  shows "\<not> snd (verify_sse_ticket A now' ticket tok T)"
  using assms by (auto simp: spent_def verify_sse_ticket_fields dm_contains_map_of)

lemma accepted_spent:
  assumes "snd (verify_sse_ticket A now ticket tok T)" and "ticket_fields ticket = Some (ts, n, sig)"
  shows "spent (ts, n) now (fst (verify_sse_ticket A now ticket tok T))"
  using assms by (auto simp: spent_def verify_sse_ticket_fields)

lemma spent_accepts:
  assumes "spent k now T" and "dm_ok T" and "sorted (map fst es)" and "\<forall>e \<in> set es. now \<le> fst e"
  shows "filter (\<lambda>t. t < fst k + SSE_TICKET_VALIDITY_SECS) (ticket_accepts A tok k es T) = []"
  using assms
proof (induction es arbitrary: now T)
  case (Cons e es)
  obtain t oper where e: "e = (t, oper)" by (cases e)
  have "spent k t (ticket_step A tok e T)" "dm_ok (ticket_step A tok e T)"
    using spent_step [of T k now e A tok] Cons.prems e by (auto intro: dm_ok_ticket_step)
  then have rest: "filter (\<lambda>t. t < fst k + SSE_TICKET_VALIDITY_SECS) (ticket_accepts A tok k es (ticket_step A tok e T)) = []"
    using Cons.IH [of t] Cons.prems(3) e by auto
  have "spent k t T" using Cons.prems e by (auto intro: spent_later)
  with rest e show ?case
    using spent_not_accepted [of "fst k" "snd k" t T]
    by (cases oper) (auto split: prod.splits)
qed simp

text \<open>C32: in every run of ticket checks and cleanups with a clock that does not go back, a ticket is
  accepted at most once before the last second of its validity.\<close>

theorem sse_ticket_once:
  assumes "dm_ok T" and "sorted (map fst es)"
  shows "length (filter (\<lambda>t. t < ts + SSE_TICKET_VALIDITY_SECS) (ticket_accepts A tok (ts, n) es T)) \<le> 1"
  using assms
proof (induction es arbitrary: T)
  case (Cons e es)
  obtain t oper where e: "e = (t, oper)" by (cases e)
  note ok = dm_ok_ticket_step [OF Cons.prems(1), of A tok e]
  have IH: "length (filter (\<lambda>t. t < ts + SSE_TICKET_VALIDITY_SECS) (ticket_accepts A tok (ts, n) es (ticket_step A tok e T))) \<le> 1"
    using Cons.IH [OF ok] Cons.prems(2) by simp
  show ?case
  proof (cases oper)
    case (OpVerify ticket)
    show ?thesis
    proof (cases "snd (verify_sse_ticket A t ticket tok T) \<and> map_option (\<lambda>(ts, n, _). (ts, n)) (ticket_fields ticket) = Some (ts, n)")
      case True
      then obtain sig where "ticket_fields ticket = Some (ts, n, sig)" by auto
      then have "spent (ts, n) t (ticket_step A tok e T)" using True OpVerify e by (simp add: accepted_spent)
      then have "filter (\<lambda>t. t < ts + SSE_TICKET_VALIDITY_SECS) (ticket_accepts A tok (ts, n) es (ticket_step A tok e T)) = []"
        using spent_accepts [of "(ts, n)" t _ es A tok] ok Cons.prems(2) e by simp
      then show ?thesis using e OpVerify by simp
    next
      case False
      then show ?thesis using IH e OpVerify by auto
    qed
  qed (use IH e in simp)
qed simp

definition sample_api_ops :: api_ops where
  "sample_api_ops = \<lparr>hmac_hex = (\<lambda>k m. Some (rev m @ k)), percent_decode_lossy = (\<lambda>s. s)\<rparr>"

definition sample_ticket :: string where
  "sample_ticket = the (sse_ticket_handler sample_api_ops 5 7 ''0123456789abcdef'')"

lemma sample_ticket_fields:
  "ticket_fields sample_ticket = Some (5, 7, rev (ticket_key 5 7) @ signing_key ''0123456789abcdef'')"
proof -
  have "sse_ticket_handler sample_api_ops 5 7 ''0123456789abcdef'' = Some sample_ticket"
    by (simp add: sample_ticket_def sse_ticket_handler_def sample_api_ops_def)
  from handler_ticket [OF this] show ?thesis by (simp add: sample_api_ops_def)
qed

theorem sse_ticket_once_witness:
  "length (filter (\<lambda>t. t < 5 + SSE_TICKET_VALIDITY_SECS)
     (ticket_accepts sample_api_ops ''0123456789abcdef'' (5, 7)
        [(6, OpVerify sample_ticket), (6, OpTicketCleanup), (7, OpVerify sample_ticket)] [])) \<le> 1
   \<and> ticket_accepts sample_api_ops ''0123456789abcdef'' (5, 7)
        [(6, OpVerify sample_ticket), (6, OpTicketCleanup), (7, OpVerify sample_ticket)] [] = [6]"
proof
  show "length (filter (\<lambda>t. t < 5 + SSE_TICKET_VALIDITY_SECS)
     (ticket_accepts sample_api_ops ''0123456789abcdef'' (5, 7)
        [(6, OpVerify sample_ticket), (6, OpTicketCleanup), (7, OpVerify sample_ticket)] [])) \<le> 1"
    by (rule sse_ticket_once) simp_all
  show "ticket_accepts sample_api_ops ''0123456789abcdef'' (5, 7)
        [(6, OpVerify sample_ticket), (6, OpTicketCleanup), (7, OpVerify sample_ticket)] [] = [6]"
    by (simp add: verify_sse_ticket_fields sample_ticket_fields saturating_sub_def SSE_TICKET_VALIDITY_SECS_def
        sample_api_ops_def MAX_USED_TICKETS_def ticket_cleanup_def dm_retain_def dm_insert_def dm_contains_def)
qed

text \<open>A ticket is accepted a second time in the last second of its validity, after a cleanup in
  between: the cleanup forgets entries that expire now, the age test still admits them.\<close>

theorem sse_ticket_replay:
  assumes "hmac_hex A (signing_key tok) (ticket_key ts n) = Some sig"
    and "ticket_fields ticket = Some (ts, n, sig)"
  shows "let now = ts + SSE_TICKET_VALIDITY_SECS in
    ticket_accepts A tok (ts, n) [(now, OpVerify ticket), (now, OpTicketCleanup), (now, OpVerify ticket)] [] = [now, now]"
proof -
  have "saturating_sub (ts + SSE_TICKET_VALIDITY_SECS) ts \<le> SSE_TICKET_VALIDITY_SECS"
    by (simp add: saturating_sub_def)
  then show ?thesis using assms
    by (auto simp: verify_sse_ticket_fields MAX_USED_TICKETS_def ticket_cleanup_def dm_retain_def dm_insert_def
        dm_contains_def Let_def)
qed

theorem sse_ticket_replay_witness:
  "ticket_accepts sample_api_ops ''0123456789abcdef'' (5, 7)
     [(35, OpVerify sample_ticket), (35, OpTicketCleanup), (35, OpVerify sample_ticket)] [] = [35, 35]"
  using sse_ticket_replay [OF _ sample_ticket_fields, of sample_api_ops "''0123456789abcdef''"]
  by (simp add: sample_api_ops_def SSE_TICKET_VALIDITY_SECS_def Let_def)

text \<open>A ticket the server issued is accepted once, at any time from its issue to thirty seconds later,
  unless it was used before.\<close>

theorem issued_ticket_verifies:
  assumes "sse_ticket_handler A ts nonce tok = Some ticket" and "nonce < 2 ^ 128"
    and "ts \<le> now" and "now - ts \<le> 30" and "\<not> dm_contains T (ticket_key ts nonce)"
  shows "snd (verify_sse_ticket A now ticket tok T)
    \<and> \<not> snd (verify_sse_ticket A now ticket tok (fst (verify_sse_ticket A now ticket tok T)))"
proof -
  obtain sig where "hmac_hex A (signing_key tok) (ticket_key ts nonce) = Some sig" "ticket_fields ticket = Some (ts, nonce, sig)"
    using handler_ticket [OF assms(1,2)] by blast
  with assms(3-5) show ?thesis
    by (simp add: verify_sse_ticket_fields saturating_sub_def SSE_TICKET_VALIDITY_SECS_def)
qed

text \<open>The bound on the used tickets only drops expired ones: a full map without expired entries grows.\<close>

lemma ticket_map_unbounded:
  assumes "genuine A tok now ticket (ts, n)" and "\<not> dm_contains T (ticket_key ts n)"
    and "\<forall>(_, expiry) \<in> set T. now < expiry"
  shows "length (fst (verify_sse_ticket A now ticket tok T)) = Suc (length T)"
proof -
  have "ticket_cleanup now T = T" using assms(3) by (auto simp: ticket_cleanup_def dm_retain_def)
  then show ?thesis using assms(1,2)
    by (auto simp: genuine_def verify_sse_ticket_fields length_dm_insert)
qed

subsection \<open>The middleware\<close>

lemma try_tickets_sound:
  assumes "try_tickets A tok now pairs T = (T', True)"
  shows "\<exists>i v ts n. ''ticket='' @ v \<in> set pairs \<and> genuine A tok (now i) (percent_decode_lossy A v) (ts, n)
    \<and> \<not> dm_contains T (ticket_key ts n)"
  using assms
proof (induction pairs arbitrary: now T)
  case (Cons p ps)
  show ?case
  proof (cases "strip_prefix ''ticket='' p")
    case None
    then show ?thesis using Cons.IH [of now T] Cons.prems by auto
  next
    case (Some v)
    then have p: "p = ''ticket='' @ v" by (simp add: strip_prefix_iff)
    show ?thesis
    proof (cases "snd (verify_sse_ticket A (now 0) (percent_decode_lossy A v) tok T)")
      case True
      then show ?thesis using p by (auto simp: verify_accepts)
    next
      case False
      then have "verify_sse_ticket A (now 0) (percent_decode_lossy A v) tok T = (T, False)"
        using verify_rejects [OF False] by (simp add: prod_eq_iff)
      with Some Cons.prems have "try_tickets A tok (\<lambda>i. now (Suc i)) ps T = (T', True)" by simp
      then show ?thesis using Cons.IH by fastforce
    qed
  qed
qed simp

lemma auth_middleware_next:
  "auth_middleware A tok now req T = (T', Next) \<longleftrightarrow>
     tok \<noteq> [] \<and>
     (authorization req = Some (''Bearer '' @ tok) \<and> T' = T
      \<or> (\<forall>h. authorization req = Some h \<longrightarrow> \<not> starts_with ''Bearer '' h)
        \<and> (\<exists>q. query req = Some q \<and> try_tickets A tok now (split_on CHR ''&'' q) T = (T', True)
             \<and> (\<exists>i v ts n. ''ticket='' @ v \<in> set (split_on CHR ''&'' q)
                  \<and> genuine A tok (now i) (percent_decode_lossy A v) (ts, n)
                  \<and> \<not> dm_contains T (ticket_key ts n))))"
proof -
  have b: "starts_with ''Bearer '' h \<and> drop 7 h = tok \<longleftrightarrow> h = ''Bearer '' @ tok" for h
    by (auto simp: starts_with_iff)
  have q: "(case try_tickets A tok now ps T of (T1, True) \<Rightarrow> (T1, Next) | (T1, False) \<Rightarrow> (T1, Reject 401 r)) = (T', Next)
      \<longleftrightarrow> try_tickets A tok now ps T = (T', True)" for ps r
    by (auto split: prod.splits bool.splits)
  show ?thesis
    using b try_tickets_sound [of A tok now _ T T']
    by (auto simp: auth_middleware_def Let_def q split: option.split)
qed

text \<open>A request passes the middleware exactly if a token is configured and the request carries it as
  a bearer token, or, without any bearer token, a ticket in its query passes the ticket check; such a
  ticket is signed with the configured token, at most thirty seconds old and not used before.\<close>

theorem api_request_authenticated:
  "auth_middleware A tok now req T = (T', Next) \<longleftrightarrow>
     tok \<noteq> [] \<and>
     (authorization req = Some (''Bearer '' @ tok) \<and> T' = T
      \<or> (\<forall>h. authorization req = Some h \<longrightarrow> \<not> starts_with ''Bearer '' h)
        \<and> (\<exists>q. query req = Some q \<and> try_tickets A tok now (split_on CHR ''&'' q) T = (T', True)
             \<and> (\<exists>i v ts n. ''ticket='' @ v \<in> set (split_on CHR ''&'' q)
                  \<and> genuine A tok (now i) (percent_decode_lossy A v) (ts, n)
                  \<and> \<not> dm_contains T (ticket_key ts n))))"
  by (rule auth_middleware_next)

theorem api_request_authenticated_witness:
  "auth_middleware sample_api_ops ''0123456789abcdef'' (\<lambda>_. 6)
     \<lparr>authorization = Some ''Bearer 0123456789abcdef'', query = None\<rparr> [] = ([], Next)"
  by (rule api_request_authenticated [THEN iffD2]) simp

end
