(* ===== verification/Api_Handlers.thy ===== *)
theory Api_Handlers
  imports Server Api_Auth "HOL-Library.List_Lexorder" "HOL-Library.Char_ord"
begin

text \<open>
  Models the request handlers of \<open>src/api\<close>: bans, quotas, groups, users, sessions, connections, backup and
  restore, broadcast and kick, maintenance, reload, the commands of the web socket, the payload of the event
  stream, the probes and the SSH snippet. A handler maps the state of the API, with the clock readings it
  takes, to the new state, the status code and the body; the JSON of the backup is in the theory \<open>Backup\<close>, that of other bodies is left out. Reading
  the usage of a user changes the tracker (it rolls counters over and creates missing entries), so readers
  thread it too. Time stamps in other bodies are kept as numbers.
\<close>

subsection \<open>State and responses\<close>

text \<open>The broadcast channel: what was sent, and the number of its receivers.\<close>

record broadcast_channel =
  bc_sent :: "(string \<times> string list) list"
  bc_receivers :: nat

record ('net, 'pk, 'fp, 'l, 'f) api_state =
  ap_auth :: "('net, 'pk, 'fp) auth_service"
  ap_engine :: engine
  ap_security :: "('net, 'l, 'f) security_manager"
  ap_metrics :: "'f metrics"
  ap_token :: string
  ap_maintenance :: bool
  ap_start_time :: instant
  ap_config_path :: "string option"
  ap_audit :: "audit_logger option"
  ap_broadcast :: "broadcast_channel option"
  ap_ssh_listen_addr :: "string option"
  ap_quota :: "quota_tracker option"

record 'a api_response =
  resp_success :: bool
  resp_data :: "'a option"
  resp_error :: "string option"

definition resp_ok :: "'a \<Rightarrow> nat \<times> 'a api_response" where
  "resp_ok d = (200, \<lparr>resp_success = True, resp_data = Some d, resp_error = None\<rparr>)"

definition resp_ok_with_status :: "nat \<Rightarrow> 'a \<Rightarrow> nat \<times> 'a api_response" where
  "resp_ok_with_status status d =
     (status, \<lparr>resp_success = (200 \<le> status \<and> status < 300), resp_data = Some d, resp_error = None\<rparr>)"

definition resp_err :: "nat \<Rightarrow> string \<Rightarrow> nat \<times> 'a api_response" where
  "resp_err status msg = (status, \<lparr>resp_success = False, resp_data = None, resp_error = Some msg\<rparr>)"

definition is_truthy :: "string option \<Rightarrow> bool" where
  "is_truthy v \<longleftrightarrow> v \<in> {Some ''true'', Some ''1'', Some ''yes''}"

definition as_secs :: "duration \<Rightarrow> u64" where
  "as_secs d = of_nat (d div 1000000000)"

subsection \<open>Bans\<close>

text \<open>Bodies list an address with the whole seconds that remain. The list is filtered at one clock
  reading and the remaining time taken at a later one; subtraction of instants is truncated in both sources.\<close>

definition list_bans :: "instant \<Rightarrow> instant \<Rightarrow> ('net, 'pk, 'fp, 'l, 'f) api_state \<Rightarrow> nat \<times> (string \<times> u64) list api_response" where
  "list_bans now now' S =
     resp_ok (map (\<lambda>(ip, expiry). (show_ip ip, if expiry > now' then as_secs (expiry - now') else 0))
       (banned_ips now (ban_mgr (ap_security S))))"

definition api_unban :: "ipaddr \<Rightarrow> ('net, 'pk, 'fp, 'l, 'f) api_state \<Rightarrow> ('net, 'pk, 'fp, 'l, 'f) api_state \<times> bool" where
  "api_unban ip S =
     (case unban ip (ban_mgr (ap_security S)) of
        (B, r) \<Rightarrow> (S\<lparr>ap_security := (ap_security S)\<lparr>ban_mgr := B\<rparr>\<rparr>, r))"

definition delete_ban ::
  "string \<Rightarrow> ('net, 'pk, 'fp, 'l, 'f) api_state \<Rightarrow> ('net, 'pk, 'fp, 'l, 'f) api_state \<times> nat \<times> (string \<times> bool) api_response" where
  "delete_ban ip_str S =
     (case parse_ip ip_str of
        None \<Rightarrow> (S, resp_err 400 ''invalid IP address'')
      | Some ip \<Rightarrow>
          (case api_unban ip S of
             (S', True) \<Rightarrow> (S', resp_ok (ip_str, True))
           | (S', False) \<Rightarrow> (S', resp_err 404 ''IP not banned'')))"

subsection \<open>Quotas\<close>

record quota_summary =
  qs_username :: string
  qs_usage :: user_quota_usage
  qs_daily_bytes_limit :: u64
  qs_monthly_bytes_limit :: u64
  qs_hourly_bytes_limit :: u64
  qs_total_bytes_limit :: u64
  qs_daily_connections_limit :: u32
  qs_monthly_connections_limit :: u32

definition quotas_of :: "('net, 'pk, 'fp) auth_service \<Rightarrow> string \<Rightarrow> quota_config option" where
  "quotas_of svc username = (case map_of (user_store svc) username of None \<Rightarrow> None | Some u \<Rightarrow> u_quotas u)"

definition quota_summary_of :: "quota_config option \<Rightarrow> string \<Rightarrow> user_quota_usage \<Rightarrow> quota_summary" where
  "quota_summary_of q username usage =
     (let lim = (\<lambda>f. case q of None \<Rightarrow> 0 | Some c \<Rightarrow> f c); cnt = (\<lambda>f. case q of None \<Rightarrow> 0 | Some c \<Rightarrow> f c) in
      \<lparr>qs_username = username, qs_usage = usage, qs_daily_bytes_limit = lim daily_bandwidth_bytes,
       qs_monthly_bytes_limit = lim monthly_bandwidth_bytes, qs_hourly_bytes_limit = lim bandwidth_per_hour_bytes,
       qs_total_bytes_limit = lim total_bandwidth_bytes, qs_daily_connections_limit = cnt daily_connection_limit,
       qs_monthly_connections_limit = cnt monthly_connection_limit\<rparr>)"

text \<open>The usage of several users, read one after the other; \<open>clk i\<close> is the clock at the \<open>i\<close>-th reading.\<close>

fun usages :: "chrono_ops \<Rightarrow> (nat \<Rightarrow> nat) \<Rightarrow> string list \<Rightarrow> quota_tracker \<Rightarrow> quota_tracker \<times> (string \<times> user_quota_usage) list" where
  "usages C clk [] T = (T, [])"
| "usages C clk (u # us) T =
     (case get_user_usage C (clk 0) u T of (T1, x) \<Rightarrow>
       case usages C (\<lambda>i. clk (Suc i)) us T1 of (T2, xs) \<Rightarrow> (T2, (u, x) # xs))"

definition list_quotas ::
  "chrono_ops \<Rightarrow> (nat \<Rightarrow> nat) \<Rightarrow> ('net, 'pk, 'fp, 'l, 'f) api_state
     \<Rightarrow> ('net, 'pk, 'fp, 'l, 'f) api_state \<times> nat \<times> quota_summary list api_response" where
  "list_quotas C clk S =
     (case ap_quota S of
        None \<Rightarrow> (S, resp_ok [])
      | Some qt \<Rightarrow>
          (case usages C clk (tracked_users qt) qt of (qt', xs) \<Rightarrow>
            (S\<lparr>ap_quota := Some qt'\<rparr>, resp_ok (map (\<lambda>(u, x). quota_summary_of (quotas_of (ap_auth S) u) u x) xs))))"

definition get_user_quota ::
  "chrono_ops \<Rightarrow> nat \<Rightarrow> string \<Rightarrow> ('net, 'pk, 'fp, 'l, 'f) api_state
     \<Rightarrow> ('net, 'pk, 'fp, 'l, 'f) api_state \<times> nat \<times> quota_summary api_response" where
  "get_user_quota C now username S =
     (case ap_quota S of
        None \<Rightarrow> (S, resp_err 404 ''quota tracking not available'')
      | Some qt \<Rightarrow>
          (case get_user_usage C now username qt of (qt', x) \<Rightarrow>
            (S\<lparr>ap_quota := Some qt'\<rparr>, resp_ok (quota_summary_of (quotas_of (ap_auth S) username) username x))))"

definition reset_user_quota ::
  "string \<Rightarrow> ('net, 'pk, 'fp, 'l, 'f) api_state \<Rightarrow> ('net, 'pk, 'fp, 'l, 'f) api_state \<times> nat \<times> (string \<times> bool) api_response" where
  "reset_user_quota username S =
     (case ap_quota S of
        None \<Rightarrow> (S, resp_err 404 ''quota tracking not available'')
      | Some qt \<Rightarrow> (S\<lparr>ap_quota := Some (reset_user username qt)\<rparr>, resp_ok (username, True)))"

subsection \<open>Backup and restore\<close>

record quota_usage_entry =
  qe_daily_bytes :: u64
  qe_daily_connections :: u32
  qe_monthly_bytes :: u64
  qe_monthly_connections :: u32
  qe_total_bytes :: u64

record backup_payload =
  bp_version :: string
  bp_timestamp :: string
  bp_bans :: "(string \<times> u64) list"
  bp_quotas :: "(string, quota_usage_entry) dmap"

definition usage_entry :: "user_quota_usage \<Rightarrow> quota_usage_entry" where
  "usage_entry x =
     \<lparr>qe_daily_bytes = usage_daily_bytes x, qe_daily_connections = usage_daily_connections x,
      qe_monthly_bytes = usage_monthly_bytes x, qe_monthly_connections = usage_monthly_connections x,
      qe_total_bytes = usage_total_bytes x\<rparr>"

text \<open>\<open>timestamp\<close> is the time as \<open>to_rfc3339\<close> prints it; \<open>now\<close> is the reading of \<open>banned_ips\<close>, \<open>later i\<close> that of the \<open>i\<close>-th entry, \<open>clk i\<close> that of the \<open>i\<close>-th usage.\<close>

definition backup_handler ::
  "chrono_ops \<Rightarrow> string \<Rightarrow> string \<Rightarrow> instant \<Rightarrow> (nat \<Rightarrow> instant) \<Rightarrow> (nat \<Rightarrow> nat) \<Rightarrow> ('net, 'pk, 'fp, 'l, 'f) api_state
     \<Rightarrow> ('net, 'pk, 'fp, 'l, 'f) api_state \<times> nat \<times> backup_payload api_response" where
  "backup_handler C version timestamp now later clk S =
     (let bs = banned_ips now (ban_mgr (ap_security S));
          bans = map (\<lambda>(i, ip, expiry). (show_ip ip, as_secs (expiry - later i))) (enumerate 0 bs);
          (qt, quotas) = (case ap_quota S of
             None \<Rightarrow> (None, [])
           | Some qt \<Rightarrow> (case usages C clk (tracked_users qt) qt of (qt', xs) \<Rightarrow>
               (Some qt', fold (\<lambda>(u, x). dm_insert u (usage_entry x)) xs [])))
      in (S\<lparr>ap_quota := qt\<rparr>,
          resp_ok \<lparr>bp_version = version, bp_timestamp = timestamp, bp_bans = bans, bp_quotas = quotas\<rparr>))"

fun restore_bans :: "(nat \<Rightarrow> instant) \<Rightarrow> (string \<times> u64) list \<Rightarrow> 'net ban_manager \<Rightarrow> 'net ban_manager \<times> u32" where
  "restore_bans now [] B = (B, 0)"
| "restore_bans now ((ip_str, secs) # es) B =
     (case (if secs > 0 then parse_ip ip_str else None) of
        Some ip \<Rightarrow>
          (case restore_bans (\<lambda>i. now (Suc i)) es (ban_ip (now 0) ip (from_secs (unat secs)) B) of
             (B', n) \<Rightarrow> (B', n + 1))
      | None \<Rightarrow> restore_bans (\<lambda>i. now (Suc i)) es B)"

fun restore_quotas ::
  "chrono_ops \<Rightarrow> (nat \<Rightarrow> nat) \<Rightarrow> (string \<times> quota_usage_entry) list \<Rightarrow> quota_tracker \<Rightarrow> quota_tracker \<times> u32" where
  "restore_quotas C clk [] T = (T, 0)"
| "restore_quotas C clk ((u, e) # es) T =
     (case restore_quotas C (\<lambda>i. clk (Suc i)) es
             (restore_user_usage C (clk 0) u (qe_daily_bytes e) (qe_daily_connections e) (qe_monthly_bytes e)
                (qe_monthly_connections e) (qe_total_bytes e) T) of
        (T', n) \<Rightarrow> (T', n + 1))"

definition restore_handler ::
  "chrono_ops \<Rightarrow> (nat \<Rightarrow> instant) \<Rightarrow> (nat \<Rightarrow> nat) \<Rightarrow> backup_payload \<Rightarrow> ('net, 'pk, 'fp, 'l, 'f) api_state
     \<Rightarrow> ('net, 'pk, 'fp, 'l, 'f) api_state \<times> nat \<times> (u32 \<times> u32) api_response" where
  "restore_handler C now clk payload S =
     (case restore_bans now (bp_bans payload) (ban_mgr (ap_security S)) of (B, restored_bans) \<Rightarrow>
       let S1 = S\<lparr>ap_security := (ap_security S)\<lparr>ban_mgr := B\<rparr>\<rparr> in
       case ap_quota S1 of
         None \<Rightarrow> (S1, resp_ok (restored_bans, 0))
       | Some qt \<Rightarrow>
           (case restore_quotas C clk (bp_quotas payload) qt of (qt', restored_quotas) \<Rightarrow>
             (S1\<lparr>ap_quota := Some qt'\<rparr>, resp_ok (restored_bans, restored_quotas))))"

subsection \<open>Groups, users, sessions, connections\<close>

definition group_names :: "('net, 'pk) user_store \<Rightarrow> string list" where
  "group_names st = sort (remdups (List.map_filter (\<lambda>(_, u). u_group u) st))"

record group_member_info =
  gm_username :: string
  gm_active_connections :: u32
  gm_daily_bytes :: u64
  gm_monthly_bytes :: u64

record group_stats =
  gs_name :: string
  gs_member_count :: nat
  gs_active_connections :: u32
  gs_total_daily_bytes :: u64
  gs_total_monthly_bytes :: u64
  gs_members :: "group_member_info list"

text \<open>The members of a group with their connections and usage, and the totals over them.\<close>

fun group_members ::
  "chrono_ops \<Rightarrow> (nat \<Rightarrow> nat) \<Rightarrow> slots \<Rightarrow> ('net, 'pk) user list \<Rightarrow> quota_tracker option
     \<Rightarrow> quota_tracker option \<times> group_member_info list" where
  "group_members C clk sl [] qt = (qt, [])"
| "group_members C clk sl (u # us) qt =
     (let (qt1, daily, monthly) =
            (case qt of
               None \<Rightarrow> (None, 0, 0)
             | Some T \<Rightarrow> (case get_user_usage C (clk 0) (u_username u) T of
                 (T', x) \<Rightarrow> (Some T', usage_daily_bytes x, usage_monthly_bytes x)));
          (qt2, ms) = group_members C (\<lambda>i. clk (Suc i)) sl us qt1
      in (qt2, \<lparr>gm_username = u_username u, gm_active_connections = count_of sl (u_username u),
                gm_daily_bytes = daily, gm_monthly_bytes = monthly\<rparr> # ms))"

definition group_stats_of ::
  "chrono_ops \<Rightarrow> (nat \<Rightarrow> nat) \<Rightarrow> slots \<Rightarrow> ('net, 'pk) user_store \<Rightarrow> string \<Rightarrow> quota_tracker option
     \<Rightarrow> quota_tracker option \<times> group_stats" where
  "group_stats_of C clk sl st name qt =
     (case group_members C clk sl (users_in_group name st) qt of (qt', ms) \<Rightarrow>
       (qt', \<lparr>gs_name = name, gs_member_count = length (users_in_group name st),
              gs_active_connections = sum_list (map gm_active_connections ms),
              gs_total_daily_bytes = sum_list (map gm_daily_bytes ms),
              gs_total_monthly_bytes = sum_list (map gm_monthly_bytes ms), gs_members = ms\<rparr>))"

fun all_group_stats ::
  "chrono_ops \<Rightarrow> (nat \<Rightarrow> nat \<Rightarrow> nat) \<Rightarrow> slots \<Rightarrow> ('net, 'pk) user_store \<Rightarrow> string list \<Rightarrow> quota_tracker option
     \<Rightarrow> quota_tracker option \<times> group_stats list" where
  "all_group_stats C clk sl st [] qt = (qt, [])"
| "all_group_stats C clk sl st (g # gs) qt =
     (case group_stats_of C (clk 0) sl st g qt of (qt1, x) \<Rightarrow>
       case all_group_stats C (\<lambda>i. clk (Suc i)) sl st gs qt1 of (qt2, xs) \<Rightarrow> (qt2, x # xs))"

definition list_groups ::
  "chrono_ops \<Rightarrow> (nat \<Rightarrow> nat \<Rightarrow> nat) \<Rightarrow> ('net, 'pk, 'fp, 'l, 'f) api_state
     \<Rightarrow> ('net, 'pk, 'fp, 'l, 'f) api_state \<times> nat \<times> group_stats list api_response" where
  "list_groups C clk S =
     (case all_group_stats C clk (eng_slots (ap_engine S)) (user_store (ap_auth S)) (group_names (user_store (ap_auth S))) (ap_quota S) of
        (qt, xs) \<Rightarrow> (S\<lparr>ap_quota := qt\<rparr>, resp_ok xs))"

definition get_group ::
  "chrono_ops \<Rightarrow> (nat \<Rightarrow> nat) \<Rightarrow> string \<Rightarrow> ('net, 'pk, 'fp, 'l, 'f) api_state
     \<Rightarrow> ('net, 'pk, 'fp, 'l, 'f) api_state \<times> nat \<times> group_stats api_response" where
  "get_group C clk name S =
     (let st = user_store (ap_auth S) in
      if users_in_group name st = [] \<and> name \<notin> set (group_names st)
      then (S, resp_err 404 (''group '' @ [char_of (39 :: nat)] @ name @ [char_of (39 :: nat)] @ '' not found''))
      else (case group_stats_of C clk (eng_slots (ap_engine S)) st name (ap_quota S) of
              (qt, x) \<Rightarrow> (S\<lparr>ap_quota := qt\<rparr>, resp_ok x)))"

record 'f user_info =
  ui_username :: string
  ui_allow_forwarding :: bool
  ui_allow_shell :: bool
  ui_authorized_keys_count :: nat
  ui_source_ips :: "string list"
  ui_expires_at :: "int option"
  ui_current_connections :: "u32 option"
  ui_total_bytes_transferred :: "'f option"
  ui_quota_usage :: "user_quota_usage option"

text \<open>The details of a user read the byte counter with \<open>get_or_create\<close>, which adds the label to the family.\<close>

definition user_details ::
  "('f, 'x) f64_ops_scheme \<Rightarrow> chrono_ops \<Rightarrow> nat \<Rightarrow> string \<Rightarrow> ('net, 'pk, 'fp, 'l, 'f) api_state
     \<Rightarrow> ('net, 'pk, 'fp, 'l, 'f) api_state \<times> u32 option \<times> 'f option \<times> user_quota_usage option" where
  "user_details F C now name S =
     (let conns = count_of (eng_slots (ap_engine S)) name;
          (family, bytes) = dm_entry name (f_lit F 0 1) (bytes_transferred (ap_metrics S));
          (qt, usage) = (case ap_quota S of
             None \<Rightarrow> (None, None)
           | Some T \<Rightarrow> (case get_user_usage C now name T of (T', x) \<Rightarrow> (Some T', Some x)))
      in (S\<lparr>ap_metrics := (ap_metrics S)\<lparr>bytes_transferred := family\<rparr>, ap_quota := qt\<rparr>, Some conns, Some bytes, usage))"

fun user_infos ::
  "('net, 'y) ipnet_ops_scheme \<Rightarrow> ('f, 'x) f64_ops_scheme \<Rightarrow> chrono_ops \<Rightarrow> bool \<Rightarrow> (nat \<Rightarrow> nat) \<Rightarrow> string list
     \<Rightarrow> ('net, 'pk, 'fp, 'l, 'f) api_state \<Rightarrow> ('net, 'pk, 'fp, 'l, 'f) api_state \<times> 'f user_info list" where
  "user_infos N F C details clk [] S = (S, [])"
| "user_infos N F C details clk (name # names) S =
     (case map_of (user_store (ap_auth S)) name of
        None \<Rightarrow> user_infos N F C details (\<lambda>i. clk (Suc i)) names S
      | Some u \<Rightarrow>
          (let (S1, conns, bytes, usage) = (if details then user_details F C (clk 0) name S else (S, None, None, None));
               (S2, xs) = user_infos N F C details (\<lambda>i. clk (Suc i)) names S1
           in (S2, \<lparr>ui_username = u_username u, ui_allow_forwarding = u_allow_forwarding u, ui_allow_shell = u_allow_shell u,
                    ui_authorized_keys_count = length (u_authorized_keys u), ui_source_ips = map (net_show N) (u_source_ips u),
                    ui_expires_at = u_expires_at u, ui_current_connections = conns, ui_total_bytes_transferred = bytes,
                    ui_quota_usage = usage\<rparr> # xs)))"

definition list_users ::
  "('net, 'y) ipnet_ops_scheme \<Rightarrow> ('f, 'x) f64_ops_scheme \<Rightarrow> chrono_ops \<Rightarrow> (nat \<Rightarrow> nat) \<Rightarrow> string option
     \<Rightarrow> ('net, 'pk, 'fp, 'l, 'f) api_state \<Rightarrow> ('net, 'pk, 'fp, 'l, 'f) api_state \<times> nat \<times> 'f user_info list api_response" where
  "list_users N F C clk details S =
     (case user_infos N F C (is_truthy details) clk (usernames (user_store (ap_auth S))) S of (S', xs) \<Rightarrow> (S', resp_ok xs))"

text \<open>A session with its age in seconds, not below zero.\<close>

definition session_response :: "nat \<Rightarrow> session_snapshot \<Rightarrow> session_snapshot \<times> nat" where
  "session_response now snap = (snap, now - snap_started_at snap)"

definition list_sessions :: "(nat \<Rightarrow> nat) \<Rightarrow> ('net, 'pk, 'fp, 'l, 'f) api_state \<Rightarrow> nat \<times> (session_snapshot \<times> nat) list api_response" where
  "list_sessions clk S = resp_ok (map (\<lambda>(i, s). session_response (clk i) s) (enumerate 0 (get_sessions (ap_engine S))))"

definition list_user_sessions ::
  "(nat \<Rightarrow> nat) \<Rightarrow> string \<Rightarrow> ('net, 'pk, 'fp, 'l, 'f) api_state \<Rightarrow> nat \<times> (session_snapshot \<times> nat) list api_response" where
  "list_user_sessions clk username S =
     resp_ok (map (\<lambda>(i, s). session_response (clk i) s) (enumerate 0 (get_user_sessions username (ap_engine S))))"

definition connected_users :: "('net, 'pk, 'fp, 'l, 'f) api_state \<Rightarrow> (string \<times> u32) list" where
  "connected_users S =
     filter (\<lambda>(_, n). n > 0) (map (\<lambda>u. (u, count_of (eng_slots (ap_engine S)) u)) (usernames (user_store (ap_auth S))))"

definition list_connections :: "('net, 'pk, 'fp, 'l, 'f) api_state \<Rightarrow> nat \<times> (u32 \<times> (string \<times> u32) list) api_response" where
  "list_connections S = resp_ok (active_connections (eng_slots (ap_engine S)), connected_users S)"

subsection \<open>Broadcast, kick, maintenance, reload\<close>

definition bc_send :: "string \<Rightarrow> string list \<Rightarrow> ('net, 'pk, 'fp, 'l, 'f) api_state \<Rightarrow> ('net, 'pk, 'fp, 'l, 'f) api_state" where
  "bc_send message users S = S\<lparr>ap_broadcast := map_option (\<lambda>b. b\<lparr>bc_sent := bc_sent b @ [(message, users)]\<rparr>) (ap_broadcast S)\<rparr>"

definition broadcast_message ::
  "string \<Rightarrow> string list \<Rightarrow> ('net, 'pk, 'fp, 'l, 'f) api_state \<Rightarrow> ('net, 'pk, 'fp, 'l, 'f) api_state \<times> nat \<times> nat api_response" where
  "broadcast_message message users S =
     (bc_send message users S, resp_ok (case ap_broadcast S of None \<Rightarrow> 0 | Some b \<Rightarrow> bc_receivers b))"

definition kick_user ::
  "string \<Rightarrow> string option \<Rightarrow> ('net, 'pk, 'fp, 'l, 'f) api_state \<Rightarrow> ('net, 'pk, 'fp, 'l, 'f) api_state \<times> nat \<times> (bool \<times> string) api_response" where
  "kick_user username body S =
     (let message = (case body of Some m \<Rightarrow> m | None \<Rightarrow> ''Disconnected by administrator'') in
      (bc_send (''__KICK__:'' @ message) [username] S, resp_ok (ap_broadcast S \<noteq> None, username)))"

definition api_toggle_maintenance ::
  "int \<Rightarrow> nat \<Rightarrow> ('net, 'pk, 'fp, 'l, 'f) api_state \<Rightarrow> ('net, 'pk, 'fp, 'l, 'f) api_state \<times> nat \<times> bool api_response" where
  "api_toggle_maintenance now taken S =
     (let new_state = (\<not> ap_maintenance S) in
      (S\<lparr>ap_maintenance := new_state,
         ap_audit := map_option (log_maintenance_toggled taken now new_state ''api'') (ap_audit S)\<rparr>,
       resp_ok new_state))"

definition audit_reload :: "reload_env \<Rightarrow> u64 \<Rightarrow> bool \<Rightarrow> string option \<Rightarrow> ('net, 'pk, 'fp, 'l, 'f) api_state \<Rightarrow> ('net, 'pk, 'fp, 'l, 'f) api_state" where
  "audit_reload X users_count success error S =
     S\<lparr>ap_audit := map_option (log_config_reload (re_taken X) (re_now X) users_count success error) (ap_audit S)\<rparr>"

definition reload_config ::
  "('net, 'pk, 'h, 'cert, 'fp, 'l, 'f) libs \<Rightarrow> 'net config_io \<Rightarrow> reload_env \<Rightarrow> ('net, 'pk, 'fp, 'l, 'f) api_state
     \<Rightarrow> ('net, 'pk, 'fp, 'l, 'f) api_state \<times> nat \<times> nat api_response" where
  "reload_config L F X S =
     (case ap_config_path S of
        None \<Rightarrow> (S, resp_err 500 ''config path not available'')
      | Some path \<Rightarrow>
          (case load_config (lib_net L) (lib_url L) F path of
             Inl e \<Rightarrow> (audit_reload X 0 False (Some (re_config_msg X e)) S, resp_err 500 (re_config_msg X e))
           | Inr cfg \<Rightarrow>
               (case auth_reload_of L cfg (ap_auth S) of
                  (svc, Inl e) \<Rightarrow>
                    (audit_reload X 0 False (Some (re_user_msg X e)) (S\<lparr>ap_auth := svc\<rparr>), resp_err 500 (re_user_msg X e))
                | (svc, Inr _) \<Rightarrow>
                    (audit_reload X (of_nat (length (ac_users cfg))) True None
                       (S\<lparr>ap_auth := svc, ap_security := security_reload (lib_net L) (security_config_of cfg) (ap_security S)\<rparr>),
                     resp_ok (length (ac_users cfg))))))"

subsection \<open>The web socket and the event stream\<close>

record ws_command =
  ws_action :: string
  ws_username :: "string option"
  ws_ip :: "string option"
  ws_enabled :: "bool option"
  ws_message :: "string option"

text \<open>The command a text frame holds, or the message of the JSON parser; the answer is success, action, error.\<close>

definition handle_command ::
  "string + ws_command \<Rightarrow> ('net, 'pk, 'fp, 'l, 'f) api_state
     \<Rightarrow> ('net, 'pk, 'fp, 'l, 'f) api_state \<times> bool \<times> string \<times> string option" where
  "handle_command parsed S =
     (case parsed of
        Inl e \<Rightarrow> (S, False, ''unknown'', Some (''invalid command: '' @ e))
      | Inr cmd \<Rightarrow>
          if ws_action cmd = ''kick'' then
            (case ws_username cmd of
               None \<Rightarrow> (S, False, ''kick'', Some ''username required'')
             | Some username \<Rightarrow>
                 if map_of (user_store (ap_auth S)) username \<noteq> None
                 then (bc_send ''__kick__'' [username] S, True, ''kick'', None)
                 else (S, False, ''kick'', Some ''user not found''))
          else if ws_action cmd = ''maintenance'' then
            (S\<lparr>ap_maintenance := (case ws_enabled cmd of Some b \<Rightarrow> b | None \<Rightarrow> True)\<rparr>, True, ''maintenance'', None)
          else if ws_action cmd = ''unban'' then
            (case ws_ip cmd of
               None \<Rightarrow> (S, False, ''unban'', Some ''ip required'')
             | Some s \<Rightarrow>
                 (case parse_ip s of
                    None \<Rightarrow> (S, False, ''unban'', Some ''invalid IP'')
                  | Some ip \<Rightarrow> (fst (api_unban ip S), True, ''unban'', None)))
          else if ws_action cmd = ''broadcast'' then
            (case ws_message cmd of
               None \<Rightarrow> (S, False, ''broadcast'', Some ''message required'')
             | Some m \<Rightarrow> (bc_send m [] S, True, ''broadcast'', None))
          else (S, False, ws_action cmd, Some ''unknown action''))"

record sse_payload =
  sp_active_connections :: u32
  sp_banned_count :: nat
  sp_total_users :: nat
  sp_maintenance :: bool
  sp_uptime_secs :: u64
  sp_users :: "(string \<times> bool \<times> bool) list"
  sp_bans :: "(string \<times> string) list"
  sp_connections :: "(string \<times> u32) list"
  sp_quotas :: "(string \<times> user_quota_usage) list"
  sp_groups :: "group_stats list"
  sp_sessions :: "(session_snapshot \<times> nat) list"
  sp_recent_events :: "audit_event list"

text \<open>The clock readings: of the uptime, of the ban list and its entries, of the groups, of the quotas and of the sessions.\<close>

record payload_clock =
  pc_uptime :: instant
  pc_banned :: instant
  pc_ban :: "nat \<Rightarrow> instant"
  pc_groups :: "nat \<Rightarrow> nat \<Rightarrow> nat"
  pc_quotas :: "nat \<Rightarrow> nat"
  pc_sessions :: "nat \<Rightarrow> nat"

definition build_payload ::
  "chrono_ops \<Rightarrow> payload_clock \<Rightarrow> ('net, 'pk, 'fp, 'l, 'f) api_state \<Rightarrow> ('net, 'pk, 'fp, 'l, 'f) api_state \<times> sse_payload" where
  "build_payload C K S =
     (let st = user_store (ap_auth S); sl = eng_slots (ap_engine S);
          users = map (\<lambda>u. (u_username u, u_allow_forwarding u, u_allow_shell u)) (List.map_filter (map_of st) (usernames st));
          (qt1, groups) = all_group_stats C (pc_groups K) sl st (group_names st) (ap_quota S);
          ban_list = banned_ips (pc_banned K) (ban_mgr (ap_security S));
          (qt2, quotas) = (case qt1 of
             None \<Rightarrow> (None, [])
           | Some T \<Rightarrow> (case usages C (pc_quotas K) (tracked_users T) T of (T', xs) \<Rightarrow> (Some T', xs)));
          sessions = map (\<lambda>(i, s). session_response (pc_sessions K i) s) (enumerate 0 (get_sessions (ap_engine S)))
      in (S\<lparr>ap_quota := qt2\<rparr>,
          \<lparr>sp_active_connections = active_connections sl, sp_banned_count = length ban_list, sp_total_users = length (usernames st),
           sp_maintenance = ap_maintenance S, sp_uptime_secs = as_secs (pc_uptime K - ap_start_time S), sp_users = users,
           sp_bans = map (\<lambda>(i, ip, expires). (show_ip ip, show_nat (unat (as_secs (expires - pc_ban K i))) @ ''s'')) (enumerate 0 ban_list),
           sp_connections = connected_users S, sp_quotas = quotas, sp_groups = groups, sp_sessions = sessions,
           sp_recent_events = (case ap_audit S of None \<Rightarrow> [] | Some a \<Rightarrow> get_recent_events 50 a)\<rparr>))"

subsection \<open>Probes, status and the SSH snippet\<close>

definition health_handler :: "bool \<Rightarrow> nat \<times> string" where
  "health_handler maintenance = (if maintenance then (503, ''maintenance'') else (200, ''ok''))"

text \<open>The body of a readiness probe: ready, and the checks of authentication, metrics and maintenance.\<close>

definition metrics_readyz_handler :: "bool \<Rightarrow> nat \<times> bool \<times> string \<times> string \<times> string" where
  "metrics_readyz_handler maintenance =
     (if maintenance then 503 else 200, \<not> maintenance, ''ok'', ''ok'', if maintenance then ''enabled'' else ''disabled'')"

definition readyz_handler :: "('net, 'pk, 'fp, 'l, 'f) api_state \<Rightarrow> nat \<times> bool \<times> string \<times> string \<times> string" where
  "readyz_handler S =
     (let auth_ok = (user_store (ap_auth S) \<noteq> []); all_ok = (auth_ok \<and> \<not> ap_maintenance S) in
      (if all_ok then 200 else 503, all_ok, if auth_ok then ''ok'' else ''no_users_loaded'', ''ok'',
       if ap_maintenance S then ''enabled'' else ''disabled''))"

record status_info =
  si_status :: string
  si_uptime_secs :: u64
  si_active_connections :: u32
  si_total_users :: nat
  si_maintenance :: bool

definition status_handler :: "instant \<Rightarrow> ('net, 'pk, 'fp, 'l, 'f) api_state \<Rightarrow> nat \<times> status_info api_response" where
  "status_handler now S =
     resp_ok \<lparr>si_status = (if ap_maintenance S then ''maintenance'' else ''ok''), si_uptime_secs = as_secs (now - ap_start_time S),
       si_active_connections = active_connections (eng_slots (ap_engine S)), si_total_users = length (user_store (ap_auth S)),
       si_maintenance = ap_maintenance S\<rparr>"

text \<open>The body of the health check: status, maintenance, active connections, uptime.\<close>

definition api_health_handler ::
  "instant \<Rightarrow> ('net, 'pk, 'fp, 'l, 'f) api_state \<Rightarrow> nat \<times> (string \<times> bool \<times> u32 \<times> u64) api_response" where
  "api_health_handler now S =
     resp_ok_with_status (if ap_maintenance S then 503 else 200)
       (if ap_maintenance S then ''maintenance'' else ''ok'', ap_maintenance S, active_connections (eng_slots (ap_engine S)),
        as_secs (now - ap_start_time S))"

definition newline :: string where
  "newline = [char_of (10 :: nat)]"

definition ssh_config_snippet :: "string \<Rightarrow> string option \<Rightarrow> ('net, 'pk, 'fp, 'l, 'f) api_state \<Rightarrow> nat \<times> string" where
  "ssh_config_snippet user host_param S =
     (let host = (case host_param of Some h \<Rightarrow> h | None \<Rightarrow> ''localhost'');
          port = (case ap_ssh_listen_addr S of None \<Rightarrow> ''2222'' | Some addr \<Rightarrow> last (split_on CHR '':'' addr)) in
      (200, ''Host '' @ host @ newline @ ''  HostName '' @ host @ newline @ ''  Port '' @ port @ newline
         @ ''  User '' @ user @ newline @ ''  DynamicForward 1080'' @ newline @ ''  StrictHostKeyChecking no'' @ newline
         @ ''  UserKnownHostsFile /dev/null'' @ newline))"

text \<open>The middleware around every route: the route pattern or \<open>unmatched\<close> is the path label.\<close>

definition api_metrics_middleware ::
  "string \<Rightarrow> string option \<Rightarrow> nat \<Rightarrow> 'f \<Rightarrow> ('net, 'pk, 'fp, 'l, 'f) api_state \<Rightarrow> ('net, 'pk, 'fp, 'l, 'f) api_state" where
  "api_metrics_middleware meth matched_path status secs S =
     (let path = (case matched_path of Some p \<Rightarrow> p | None \<Rightarrow> ''unmatched'') in
      S\<lparr>ap_metrics := record_http_request_duration meth path secs (record_http_request meth path (of_nat status) (ap_metrics S))\<rparr>)"

subsection \<open>Samples\<close>

definition sample_api :: "(ipaddr, unit, unit, nat, int) api_state" where
  "sample_api =
     \<lparr>ap_auth = auth_svc sample_context, ap_engine = proxy_engine sample_context, ap_security = security sample_context,
      ap_metrics = metrics_new 10, ap_token = ''0123456789abcdef'', ap_maintenance = False, ap_start_time = 0,
      ap_config_path = Some ''config.toml'', ap_audit = Some audit_new, ap_broadcast = Some \<lparr>bc_sent = [], bc_receivers = 0\<rparr>,
      ap_ssh_listen_addr = Some ''0.0.0.0:2222'', ap_quota = Some (tracker_new sample_limits 50)\<rparr>"

definition sample_used :: quota_tracker where
  "sample_used = (tracker_new sample_limits 50)\<lparr>user_state := [(''al'', (ubs_new sample_chrono 50)\<lparr>daily_bytes := 7\<rparr>)]\<rparr>"

definition sample_banned :: "(ipaddr, unit, unit, nat, int) api_state" where
  "sample_banned = sample_api
     \<lparr>ap_security := (security sample_context)\<lparr>ban_mgr := (ban_mgr (security sample_context))\<lparr>bans := [(V4 1 2 3 4, from_secs 100)]\<rparr>\<rparr>,
      ap_quota := Some sample_used\<rparr>"

subsection \<open>Side effects of reading\<close>

text \<open>A query for the quota of any name adds that name to the tracker, and the details of a user add the name to a
  family of the metrics whatever the cap on labels.\<close>

lemma quota_query_tracks:
  "ap_quota S = Some T \<Longrightarrow> \<exists>T'. ap_quota (fst (get_user_quota C now username S)) = Some T' \<and> username \<in> set (tracked_users T')"
  by (auto simp: get_user_quota_def get_user_usage_def get_user_eq tracked_users_def put_user_def dm_contains_def [symmetric]
      case_prod_beta Let_def simp del: set_map)

lemma user_details_label:
  "name \<in> fst ` set (bytes_transferred (ap_metrics (fst (user_details F C now name S))))"
  by (auto simp: user_details_def Let_def case_prod_beta dm_entry_def keys_dm_insert dest: map_of_SomeD split: option.split intro: rev_image_eqI)

end
