(* ===== verification/Api.thy ===== *)
theory Api
  imports Api_Handlers
begin

text \<open>
  Models the router of the management API (\<open>start_api_server\<close> of \<open>src/api/mod.rs\<close>): the table of routes, the
  middleware in front of the authenticated ones, the extraction of path parameters and bodies and the
  handlers behind them, the web socket and the event stream as sequences of frames and ticks. The matcher of
  route patterns belongs to the \<open>axum\<close> crate and is a parameter, as is the decoding of queries and bodies: the
  decoded parts are inputs, where \<^const>\<open>None\<close> stands for a part the extractor rejects.
\<close>

subsection \<open>Routes\<close>

datatype endpoint =
  EpLivez | EpReadyz | EpDashboard | EpHealth | EpStatus | EpUsers | EpConnections | EpBans | EpDeleteBan | EpMaintenance
| EpReload | EpBroadcast | EpKick | EpSshConfig | EpQuotas | EpUserQuota | EpResetQuota | EpGroups | EpGroup | EpSessions
| EpUserSessions | EpSseTicket | EpBackup | EpRestore | EpWs | EpEvents

type_synonym route = "string \<times> string \<times> endpoint"

definition open_routes :: "route list" where
  "open_routes =
     [(''GET'', ''/livez'', EpLivez), (''GET'', ''/readyz'', EpReadyz), (''GET'', ''/dashboard'', EpDashboard)]"

definition authed_routes :: "route list" where
  "authed_routes =
     [(''GET'', ''/api/health'', EpHealth), (''GET'', ''/api/status'', EpStatus), (''GET'', ''/api/users'', EpUsers),
      (''GET'', ''/api/connections'', EpConnections), (''GET'', ''/api/bans'', EpBans), (''DELETE'', ''/api/bans/{ip}'', EpDeleteBan),
      (''POST'', ''/api/maintenance'', EpMaintenance), (''POST'', ''/api/reload'', EpReload), (''POST'', ''/api/broadcast'', EpBroadcast),
      (''POST'', ''/api/kick/{username}'', EpKick), (''GET'', ''/api/ssh-config'', EpSshConfig), (''GET'', ''/api/quotas'', EpQuotas),
      (''GET'', ''/api/quotas/:username'', EpUserQuota), (''POST'', ''/api/quotas/:username/reset'', EpResetQuota),
      (''GET'', ''/api/groups'', EpGroups), (''GET'', ''/api/groups/:name'', EpGroup), (''GET'', ''/api/sessions'', EpSessions),
      (''GET'', ''/api/sessions/:username'', EpUserSessions), (''POST'', ''/api/sse-ticket'', EpSseTicket), (''GET'', ''/api/backup'', EpBackup),
      (''POST'', ''/api/restore'', EpRestore), (''GET'', ''/api/ws'', EpWs), (''GET'', ''/api/events'', EpEvents)]"

text \<open>A matcher tells whether a pattern matches a path and what its parameter captures, if it has one.\<close>

type_synonym matcher = "string \<Rightarrow> string \<Rightarrow> string option option"

definition find_route :: "matcher \<Rightarrow> string \<Rightarrow> string \<Rightarrow> route list \<Rightarrow> (route \<times> string option) option" where
  "find_route M meth path rs =
     (case find (\<lambda>(m, p, _). m = meth \<and> M p path \<noteq> None) rs of
        None \<Rightarrow> None
      | Some r \<Rightarrow> Some (r, the (M (fst (snd r)) path)))"

subsection \<open>Inputs\<close>

datatype ws_event = WsTick payload_clock | WsText "string + ws_command"

record api_input =
  in_request :: api_request
  in_method :: string
  in_path :: string
  in_ticket_clock :: "nat \<Rightarrow> u64"
  in_details :: "string option"
  in_ssh_query :: "(string \<times> string option) option"
  in_broadcast :: "(string \<times> string list) option"
  in_kick_body :: "string option"
  in_backup :: "backup_payload option"
  in_frames :: "ws_event list"
  in_ticks :: "payload_clock list"
  in_now :: instant
  in_unix :: nat
  in_utc :: int
  in_timestamp :: string
  in_taken :: nat
  in_issue_time :: u64
  in_nonce :: nat
  in_version :: string
  in_secs :: nat

text \<open>One clock reading serves a whole request; the theorems on single handlers keep the readings apart.\<close>

fun ws_step ::
  "chrono_ops \<Rightarrow> ws_event \<Rightarrow> ('net, 'pk, 'fp, 'l, 'f) api_state \<Rightarrow> ('net, 'pk, 'fp, 'l, 'f) api_state" where
  "ws_step C (WsTick K) S = fst (build_payload C K S)"
| "ws_step C (WsText cmd) S = fst (handle_command cmd S)"

definition with_param :: "string option \<Rightarrow> (string \<Rightarrow> 's \<Rightarrow> 's \<times> nat) \<Rightarrow> 's \<Rightarrow> 's \<times> nat" where
  "with_param param f S = (case param of Some p \<Rightarrow> f p S | None \<Rightarrow> (S, 500))"

definition with_body :: "'a option \<Rightarrow> ('a \<Rightarrow> 's \<Rightarrow> 's \<times> nat) \<Rightarrow> 's \<Rightarrow> 's \<times> nat" where
  "with_body body f S = (case body of Some b \<Rightarrow> f b S | None \<Rightarrow> (S, 400))"

definition status_only :: "'s \<times> nat \<times> 'b \<Rightarrow> 's \<times> nat" where
  "status_only r = (fst r, fst (snd r))"

subsection \<open>Endpoints\<close>

definition run_endpoint ::
  "('net, 'pk, 'h, 'cert, 'fp, 'l, 'f) libs \<Rightarrow> api_ops \<Rightarrow> 'net config_io \<Rightarrow> reload_env \<Rightarrow> api_input \<Rightarrow> endpoint \<Rightarrow> string option
     \<Rightarrow> ('net, 'pk, 'fp, 'l, 'f) api_state \<Rightarrow> ('net, 'pk, 'fp, 'l, 'f) api_state \<times> nat" where
  "run_endpoint L A F X I ep param S =
     (let C = lib_chrono L; clk = (\<lambda>_. in_unix I) in
      case ep of
        EpLivez \<Rightarrow> (S, 200)
      | EpReadyz \<Rightarrow> (S, fst (readyz_handler S))
      | EpDashboard \<Rightarrow> (S, 200)
      | EpHealth \<Rightarrow> (S, fst (api_health_handler (in_now I) S))
      | EpStatus \<Rightarrow> (S, fst (status_handler (in_now I) S))
      | EpUsers \<Rightarrow> status_only (list_users (lib_net L) (lib_f64 L) C clk (in_details I) S)
      | EpConnections \<Rightarrow> (S, fst (list_connections S))
      | EpBans \<Rightarrow> (S, fst (list_bans (in_now I) (in_now I) S))
      | EpDeleteBan \<Rightarrow> with_param param (\<lambda>p S. status_only (delete_ban p S)) S
      | EpMaintenance \<Rightarrow> status_only (api_toggle_maintenance (in_utc I) (in_taken I) S)
      | EpReload \<Rightarrow> status_only (reload_config L F X S)
      | EpBroadcast \<Rightarrow> with_body (in_broadcast I) (\<lambda>(m, us) S. status_only (broadcast_message m us S)) S
      | EpKick \<Rightarrow> with_param param (\<lambda>p S. status_only (kick_user p (in_kick_body I) S)) S
      | EpSshConfig \<Rightarrow> with_body (in_ssh_query I) (\<lambda>(u, h) S. (S, fst (ssh_config_snippet u h S))) S
      | EpQuotas \<Rightarrow> status_only (list_quotas C clk S)
      | EpUserQuota \<Rightarrow> with_param param (\<lambda>p S. status_only (get_user_quota C (in_unix I) p S)) S
      | EpResetQuota \<Rightarrow> with_param param (\<lambda>p S. status_only (reset_user_quota p S)) S
      | EpGroups \<Rightarrow> status_only (list_groups C (\<lambda>_. clk) S)
      | EpGroup \<Rightarrow> with_param param (\<lambda>p S. status_only (get_group C clk p S)) S
      | EpSessions \<Rightarrow> (S, fst (list_sessions clk S))
      | EpUserSessions \<Rightarrow> with_param param (\<lambda>p S. (S, fst (list_user_sessions clk p S))) S
      | EpSseTicket \<Rightarrow> (S, case sse_ticket_handler A (in_issue_time I) (in_nonce I) (ap_token S) of Some _ \<Rightarrow> 200 | None \<Rightarrow> 500)
      | EpBackup \<Rightarrow> status_only (backup_handler C (in_version I) (in_timestamp I) (in_now I) (\<lambda>_. in_now I) clk S)
      | EpRestore \<Rightarrow> with_body (in_backup I) (\<lambda>p S. status_only (restore_handler C (\<lambda>_. in_now I) clk p S)) S
      | EpWs \<Rightarrow> (fold (ws_step C) (in_frames I) S, 101)
      | EpEvents \<Rightarrow> (fold (\<lambda>K S. fst (build_payload C K S)) (in_ticks I) S, 200))"

text \<open>The whole service: the metrics middleware around the router, the authentication in front of the \<open>/api\<close>
  routes. The result is the new state with the used tickets, and the status code.\<close>

definition api_serve ::
  "('net, 'pk, 'h, 'cert, 'fp, 'l, 'f) libs \<Rightarrow> api_ops \<Rightarrow> 'net config_io \<Rightarrow> reload_env \<Rightarrow> matcher \<Rightarrow> (nat \<Rightarrow> 'f) \<Rightarrow> api_input
     \<Rightarrow> ('net, 'pk, 'fp, 'l, 'f) api_state \<times> tickets \<Rightarrow> (('net, 'pk, 'fp, 'l, 'f) api_state \<times> tickets) \<times> nat" where
  "api_serve L A F X M secs_of I ST =
     (case ST of (S, T) \<Rightarrow>
       let done = (\<lambda>route S T status. ((api_metrics_middleware (in_method I) route status (secs_of (in_secs I)) S, T), status)) in
       case find_route M (in_method I) (in_path I) open_routes of
         Some ((_, p, ep), param) \<Rightarrow> (case run_endpoint L A F X I ep param S of (S', st) \<Rightarrow> done (Some p) S' T st)
       | None \<Rightarrow>
           (case find_route M (in_method I) (in_path I) authed_routes of
              Some ((_, p, ep), param) \<Rightarrow>
                (case auth_middleware A (ap_token S) (in_ticket_clock I) (in_request I) T of
                   (T', Next) \<Rightarrow> (case run_endpoint L A F X I ep param S of (S', st) \<Rightarrow> done (Some p) S' T' st)
                 | (T', Reject st _) \<Rightarrow> done (Some p) S T' st)
            | None \<Rightarrow> done None S T 404))"

subsection \<open>Only authenticated requests change the server\<close>

lemma open_endpoint_pure:
  "find_route M meth path open_routes = Some ((m, p, ep), param) \<Longrightarrow> fst (run_endpoint L A F X I ep param S) = S"
  by (auto simp: find_route_def open_routes_def run_endpoint_def Let_def split: option.splits if_splits)

text \<open>The state \<open>S'\<close> with the two families of request metrics (\<open>http_requests_total\<close>, \<open>http_request_duration_seconds\<close>) of \<open>S\<close>.\<close>

definition but_request_metrics ::
  "('net, 'pk, 'fp, 'l, 'f) api_state \<Rightarrow> ('net, 'pk, 'fp, 'l, 'f) api_state \<Rightarrow> ('net, 'pk, 'fp, 'l, 'f) api_state" where
  "but_request_metrics S S' =
     S'\<lparr>ap_metrics := (ap_metrics S')\<lparr>http_requests_total := http_requests_total (ap_metrics S),
         http_request_duration_seconds := http_request_duration_seconds (ap_metrics S)\<rparr>\<rparr>"

lemma metrics_only [simp]: "but_request_metrics S (api_metrics_middleware m r st x S) = S"
  by (simp add: api_metrics_middleware_def but_request_metrics_def record_http_request_def record_http_request_duration_def Let_def)

lemma api_serve_rejected:
  assumes "api_serve L A F X M secs I (S, T) = ((S', T'), st)"
    and "\<And>T1. auth_middleware A (ap_token S) (in_ticket_clock I) (in_request I) T \<noteq> (T1, Next)"
  shows "but_request_metrics S S' = S"
proof (cases "find_route M (in_method I) (in_path I) open_routes")
  case None
  obtain T1 o1 where m: "auth_middleware A (ap_token S) (in_ticket_clock I) (in_request I) T = (T1, o1)" by fastforce
  with assms(2) obtain r msg where "o1 = Reject r msg" by (cases o1) auto
  with assms(1) None m show ?thesis by (auto simp: api_serve_def Let_def split: option.splits)
next
  case (Some r)
  obtain m p ep param where r: "r = ((m, p, ep), param)" by (metis surj_pair)
  with Some assms(1) show ?thesis
    using open_endpoint_pure [of M "in_method I" "in_path I" m p ep param L A F X I S]
    by (auto simp: api_serve_def Let_def split: prod.splits)
qed

text \<open>C28: a request that changes anything of the server, the counters and durations of HTTP requests and the table of used
  tickets apart, carries the configured token as
  a bearer token in its header, or a ticket signed with it in its query, at most thirty seconds old and not yet used;
  the token itself in the query, which the guides mention, does not count. Without a configured token no request changes anything.\<close>

theorem api_changes_authenticated:
  assumes "api_serve L A F X M secs I (S, T) = ((S', T'), st)" and "but_request_metrics S S' \<noteq> S"
  shows "ap_token S \<noteq> [] \<and>
    (authorization (in_request I) = Some (''Bearer '' @ ap_token S)
     \<or> (\<exists>q i v ts n. query (in_request I) = Some q \<and> ''ticket='' @ v \<in> set (split_on CHR ''&'' q)
          \<and> genuine A (ap_token S) (in_ticket_clock I i) (percent_decode_lossy A v) (ts, n) \<and> \<not> dm_contains T (ticket_key ts n)))"
proof -
  obtain T1 where "auth_middleware A (ap_token S) (in_ticket_clock I) (in_request I) T = (T1, Next)"
    using api_serve_rejected [OF assms(1)] assms(2) by blast
  then show ?thesis unfolding auth_middleware_next by blast
qed

subsection \<open>Dead routes\<close>

text \<open>What the documentation of \<open>axum\<close> 0.7 says of a pattern without a capture (\<open>:name\<close>) or a wild card (\<open>*name\<close>): it
  matches the literal path only, and captures nothing.\<close>

definition static_patterns_literal :: "matcher \<Rightarrow> bool" where
  "static_patterns_literal M \<longleftrightarrow>
     (\<forall>p path c. CHR '':'' \<notin> set p \<and> CHR ''*'' \<notin> set p \<and> M p path = Some c \<longrightarrow> path = p \<and> c = None)"

lemma no_brace_ip: "parse_ip ''{ip}'' = None"
  by (rule parse_ip_not_hex) (simp_all add: to_digit_def is_ascii_digit_def is_ascii_lower_def is_ascii_upper_def Let_def)

text \<open>The route for lifting a ban is written with the brace syntax of a later version of the router, which
  this version takes literally: a request to lift the ban of any address finds no route and changes no ban.\<close>

theorem unban_route_dead:
  assumes "static_patterns_literal M" and "in_method I = ''DELETE''" and "in_path I = ''/api/bans/'' @ ip_str"
    and "parse_ip ip_str = Some ip"
  shows "snd (api_serve L A F X M secs I (S, T)) = 404
    \<and> ap_security (fst (fst (api_serve L A F X M secs I (S, T)))) = ap_security S"
proof -
  have "ip_str \<noteq> ''{ip}''" using assms(4) no_brace_ip by auto
  then have "M ''/api/bans/{ip}'' (in_path I) = None"
    using assms(1,3) unfolding static_patterns_literal_def by (cases "M ''/api/bans/{ip}'' (in_path I)") force+
  then have "find_route M (in_method I) (in_path I) authed_routes = None" "find_route M (in_method I) (in_path I) open_routes = None"
    using assms(2) by (simp_all add: find_route_def authed_routes_def open_routes_def)
  then show ?thesis by (simp add: api_serve_def api_metrics_middleware_def Let_def)
qed

subsection \<open>A concrete matcher and requests\<close>

fun segments_match :: "string list \<Rightarrow> string list \<Rightarrow> string option option" where
  "segments_match [] [] = Some None"
| "segments_match (p # ps) (x # xs) =
     (case segments_match ps xs of
        None \<Rightarrow> None
      | Some c \<Rightarrow> if starts_with '':'' p then Some (Some x) else if p = x then Some c else None)"
| "segments_match _ _ = None"

definition simple_match :: matcher where
  "simple_match p path = segments_match (split_on CHR ''/'' p) (split_on CHR ''/'' path)"

lemma join_split_on: "join [c] (split_on c s) = s"
proof (induction s)
  case (Cons x s)
  then show ?case by (cases "split_on c s") (auto simp: join_Cons)
qed simp

lemma segments_match_static:
  "segments_match ps xs = Some c \<Longrightarrow> \<forall>p \<in> set ps. CHR '':'' \<notin> set p \<Longrightarrow> xs = ps \<and> c = None"
  by (induction ps xs arbitrary: c rule: segments_match.induct)
    (auto simp: starts_with_iff split: option.splits if_splits)

lemma split_on_subset: "l \<in> set (split_on c s) \<Longrightarrow> set l \<subseteq> set s"
  by (induction s arbitrary: l) (fastforce split: list.splits if_splits)+

lemma simple_match_static: "static_patterns_literal simple_match"
  unfolding static_patterns_literal_def simple_match_def
proof (intro allI impI)
  fix p path c
  assume a: "CHR '':'' \<notin> set p \<and> CHR ''*'' \<notin> set p \<and> segments_match (split_on CHR ''/'' p) (split_on CHR ''/'' path) = Some c"
  have "\<forall>l \<in> set (split_on CHR ''/'' p). CHR '':'' \<notin> set l" using a split_on_subset by blast
  with a segments_match_static have "split_on CHR ''/'' path = split_on CHR ''/'' p \<and> c = None" by blast
  then show "path = p \<and> c = None" using join_split_on [of "CHR ''/''" p] join_split_on [of "CHR ''/''" path] by simp
qed

definition sample_input :: "string \<Rightarrow> string \<Rightarrow> api_input" where
  "sample_input meth path =
     \<lparr>in_request = \<lparr>authorization = Some ''Bearer 0123456789abcdef'', query = None\<rparr>, in_method = meth, in_path = path,
      in_ticket_clock = (\<lambda>_. 0), in_details = None, in_ssh_query = None, in_broadcast = None, in_kick_body = None, in_backup = None,
      in_frames = [], in_ticks = [], in_now = 0, in_unix = 60, in_utc = 60, in_timestamp = ''2025-01-01T00:00:00+00:00'', in_taken = 0, in_issue_time = 0, in_nonce = 0,
      in_version = ''1'', in_secs = 0\<rparr>"

definition sample_env :: reload_env where
  "sample_env = \<lparr>re_config_msg = (\<lambda>_. []), re_user_msg = (\<lambda>_. []), re_now = 0, re_taken = 0\<rparr>"

theorem unban_route_dead_witness:
  "snd (api_serve sample_libs sample_api_ops sample_io sample_env simple_match int (sample_input ''DELETE'' ''/api/bans/1.2.3.4'')
      (sample_banned, [])) = 404
   \<and> ap_security (fst (fst (api_serve sample_libs sample_api_ops sample_io sample_env simple_match int
      (sample_input ''DELETE'' ''/api/bans/1.2.3.4'') (sample_banned, [])))) = ap_security sample_banned"
proof (rule unban_route_dead [OF simple_match_static])
  have "show_ipv4 1 2 3 4 = ''1.2.3.4''" by code_simp
  then show "parse_ip ''1.2.3.4'' = Some (V4 1 2 3 4)" using parse_ip_show_ipv4 [of 1 2 3 4] by simp
qed (simp_all add: sample_input_def)

theorem api_changes_authenticated_witness:
  "let I = sample_input ''POST'' ''/api/maintenance''; r = api_serve sample_libs sample_api_ops sample_io sample_env simple_match int I (sample_api, [])
   in ap_maintenance (fst (fst r)) \<and> authorization (in_request I) = Some (''Bearer '' @ ap_token sample_api)"
proof -
  let ?I = "sample_input ''POST'' ''/api/maintenance''"
  let ?r = "api_serve sample_libs sample_api_ops sample_io sample_env simple_match int ?I (sample_api, [])"
  have m: "simple_match p ''/api/maintenance'' = segments_match (split_on CHR ''/'' p) [[], ''api'', ''maintenance'']" for p
    by (simp add: simple_match_def)
  have "find_route simple_match ''POST'' ''/api/maintenance'' authed_routes = Some ((''POST'', ''/api/maintenance'', EpMaintenance), None)"
    "find_route simple_match ''POST'' ''/api/maintenance'' open_routes = None"
    by (simp_all add: find_route_def authed_routes_def open_routes_def m starts_with_def)
  then have c: "ap_maintenance (fst (fst ?r))"
    by (simp add: api_serve_def sample_input_def auth_middleware_def sample_api_def starts_with_def run_endpoint_def status_only_def
        api_toggle_maintenance_def resp_ok_def api_metrics_middleware_def Let_def)
  then have "but_request_metrics sample_api (fst (fst ?r)) \<noteq> sample_api"
    by (auto simp: sample_api_def but_request_metrics_def dest!: arg_cong [of _ _ ap_maintenance])
  moreover obtain S' T' st where "?r = ((S', T'), st)" by (metis surj_pair)
  ultimately show ?thesis
    using api_changes_authenticated [of sample_libs sample_api_ops sample_io sample_env simple_match int ?I sample_api "[]" S' T' st] c
    by (auto simp: Let_def sample_input_def)
qed

end
