(* ===== verification/Listeners.thy ===== *)
theory Listeners
  imports Server
begin

text \<open>
  Models the set-up of the front ends: the accept loop of \<open>src/socks/mod.rs\<close> with its limit on concurrent
  connections and its TLS configuration, the host key of \<open>src/ssh/keys.rs\<close>, the parameters \<open>src/server.rs\<close> gives to
  the SSH library and the configuration \<open>src/main.rs\<close> builds from the command line. Files, key generation, the key
  and certificate formats are parameters. What a spawned task does with its connection is modelled with the
  handlers; here a task is accepted and ends.
\<close>

subsection \<open>SOCKS5 listener\<close>

definition socks5_handshake_timeout :: "'net app_config \<Rightarrow> duration" where
  "socks5_handshake_timeout cfg = from_secs (unat (lc_socks5_handshake_timeout (ac_limits cfg)))"

record ('c, 'k, 't) tls_ops =
  open_file :: "string \<Rightarrow> string option"
  pem_certs :: "string \<Rightarrow> 'c list option"
  pem_private_key :: "string \<Rightarrow> 'k option option"
  tls_server_config :: "'c list \<Rightarrow> 'k \<Rightarrow> 't option"

datatype tls_error = CertUnreadable string | KeyUnreadable string | CertsUnparsable | NoCertificates string | KeyUnparsable
| NoPrivateKey string | TlsConfigError

definition load_tls_config :: "('c, 'k, 't) tls_ops \<Rightarrow> 'net app_config \<Rightarrow> tls_error + 't option" where
  "load_tls_config P cfg =
     (case (sv_socks5_tls_cert (ac_server cfg), sv_socks5_tls_key (ac_server cfg)) of
        (Some c, Some k) \<Rightarrow>
          (case open_file P c of
             None \<Rightarrow> Inl (CertUnreadable c)
           | Some cert_text \<Rightarrow>
          (case open_file P k of
             None \<Rightarrow> Inl (KeyUnreadable k)
           | Some key_text \<Rightarrow>
          (case pem_certs P cert_text of
             None \<Rightarrow> Inl CertsUnparsable
           | Some certs \<Rightarrow>
               if certs = [] then Inl (NoCertificates c)
               else (case pem_private_key P key_text of
                       None \<Rightarrow> Inl KeyUnparsable
                     | Some None \<Rightarrow> Inl (NoPrivateKey k)
                     | Some (Some key) \<Rightarrow>
                         (case tls_server_config P certs key of None \<Rightarrow> Inl TlsConfigError | Some t \<Rightarrow> Inr (Some t))))))
      | _ \<Rightarrow> Inr None)"

text \<open>The permits left in the semaphore, the connections being served, and whether the loop still runs.\<close>

record listener =
  ls_permits :: nat
  ls_tasks :: "nat list"
  ls_running :: bool
  ls_dropped :: "nat list"

datatype listener_event = Accepted nat | AcceptError | ShutdownRequested | TaskEnded nat

definition listener_new :: "'net app_config \<Rightarrow> listener" where
  "listener_new cfg = \<lparr>ls_permits = unat (lc_max_connections (ac_limits cfg)), ls_tasks = [], ls_running = True, ls_dropped = []\<rparr>"

text \<open>A task that ends, in whatever way, drops its permit.\<close>

fun listener_step :: "listener_event \<Rightarrow> listener \<Rightarrow> listener" where
  "listener_step (Accepted c) W =
     (if \<not> ls_running W then W
      else if ls_permits W = 0 then W\<lparr>ls_dropped := ls_dropped W @ [c]\<rparr>
      else W\<lparr>ls_permits := ls_permits W - 1, ls_tasks := c # ls_tasks W\<rparr>)"
| "listener_step AcceptError W = W"
| "listener_step ShutdownRequested W = W\<lparr>ls_running := False\<rparr>"
| "listener_step (TaskEnded c) W =
     (if c \<in> set (ls_tasks W) then W\<lparr>ls_tasks := remove1 c (ls_tasks W), ls_permits := ls_permits W + 1\<rparr> else W)"

definition listener_ok :: "nat \<Rightarrow> listener \<Rightarrow> bool" where
  "listener_ok n W \<longleftrightarrow> ls_permits W + length (ls_tasks W) = n"

lemma listener_step_ok: "listener_ok n W \<Longrightarrow> listener_ok n (listener_step e W)"
  by (cases e) (auto simp: listener_ok_def length_remove1 dest: length_pos_if_in_set)

interpretation listener: machine listener_step "listener_ok n"
  by unfold_locales (rule listener_step_ok)

text \<open>In every run at most the configured number of connections is served at once, a connection is dropped
  only while that many are being served, and after the shutdown request none is accepted.\<close>

theorem socks_listener_bounded:
  "length (ls_tasks (fold listener_step es (listener_new cfg))) \<le> unat (lc_max_connections (ac_limits cfg))
   \<and> (ls_dropped (listener_step (Accepted c) (fold listener_step es (listener_new cfg))) \<noteq> ls_dropped (fold listener_step es (listener_new cfg))
      \<longrightarrow> length (ls_tasks (fold listener_step es (listener_new cfg))) = unat (lc_max_connections (ac_limits cfg)))
   \<and> (ShutdownRequested \<in> set es \<longrightarrow> listener_step (Accepted c) (fold listener_step es (listener_new cfg)) = fold listener_step es (listener_new cfg))"
proof -
  let ?W = "fold listener_step es (listener_new cfg)"
  have ok: "listener_ok (unat (lc_max_connections (ac_limits cfg))) ?W"
    by (rule listener.run_inv) (simp add: listener_ok_def listener_new_def)
  have stays: "\<not> ls_running W \<Longrightarrow> \<not> ls_running (fold listener_step es W)" for W es
  proof (induction es arbitrary: W)
    case (Cons e es)
    have "\<not> ls_running (listener_step e W)" using Cons.prems by (cases e) auto
    with Cons.IH show ?case by simp
  qed simp
  have "\<not> ls_running ?W" if "ShutdownRequested \<in> set es"
  proof -
    from that obtain as bs where "es = as @ ShutdownRequested # bs" by (meson split_list)
    then show ?thesis by (simp add: stays)
  qed
  then show ?thesis using ok by (auto simp: listener_ok_def split: if_splits)
qed

theorem socks_listener_bounded_witness:
  "let cfg = (app_config_default ''a'' [] :: ipaddr app_config); W = fold listener_step [Accepted 1, ShutdownRequested] (listener_new cfg)
   in length (ls_tasks W) \<le> 1000 \<and> listener_step (Accepted 9) W = W"
  using socks_listener_bounded [of "[Accepted 1, ShutdownRequested]" "app_config_default ''a'' [] :: ipaddr app_config" 9]
  by (simp add: Let_def app_config_default_def limits_config_default_def)

subsection \<open>Host key\<close>

text \<open>The files of the host key, its text format, and the generator.\<close>

record 'k key_ops =
  decode_secret_key :: "string \<Rightarrow> 'k option"
  encode_pkcs8_pem :: "'k \<Rightarrow> string option"
  random_ed25519 :: "'k option"

datatype key_error = HostKeyUnreadable | HostKeyUndecodable | KeyGenerationFailed | HostKeyUnencodable | HostKeyUnwritable

definition load_host_key :: "'k key_ops \<Rightarrow> string \<Rightarrow> disk \<Rightarrow> key_error + 'k" where
  "load_host_key K path d =
     (case map_of d path of
        None \<Rightarrow> Inl HostKeyUnreadable
      | Some text \<Rightarrow> (case decode_secret_key K text of None \<Rightarrow> Inl HostKeyUndecodable | Some k \<Rightarrow> Inr k))"

text \<open>\<open>writable\<close> tells whether the directory can be created and the file written.\<close>

definition save_host_key :: "'k key_ops \<Rightarrow> bool \<Rightarrow> 'k \<Rightarrow> string \<Rightarrow> disk \<Rightarrow> disk \<times> (key_error + unit)" where
  "save_host_key K writable key path d =
     (case encode_pkcs8_pem K key of
        None \<Rightarrow> (d, Inl HostKeyUnencodable)
      | Some buf \<Rightarrow> if writable then (dm_insert path buf d, Inr ()) else (d, Inl HostKeyUnwritable))"

definition load_or_generate_host_key :: "'k key_ops \<Rightarrow> bool \<Rightarrow> string \<Rightarrow> disk \<Rightarrow> disk \<times> (key_error + 'k)" where
  "load_or_generate_host_key K writable path d =
     (if dm_contains d path then (d, load_host_key K path d)
      else (case random_ed25519 K of
              None \<Rightarrow> (d, Inl KeyGenerationFailed)
            | Some key \<Rightarrow> (case save_host_key K writable key path d of (d', Inl e) \<Rightarrow> (d', Inl e) | (d', Inr _) \<Rightarrow> (d', Inr key))))"

text \<open>Where the key format reads back what it writes, a server that started once starts with the same host key
  every later time, whatever the generator then yields, and never changes the file.\<close>

theorem host_key_stable:
  assumes "load_or_generate_host_key K writable path d = (d', Inr key)"
    and "\<And>k text. encode_pkcs8_pem K k = Some text \<Longrightarrow> decode_secret_key K text = Some k"
  shows "load_or_generate_host_key (K\<lparr>random_ed25519 := other\<rparr>) writable' path d' = (d', Inr key)"
proof (cases "dm_contains d path")
  case True
  then show ?thesis using assms(1) by (auto simp: load_or_generate_host_key_def load_host_key_def split: option.splits)
next
  case False
  then obtain buf where "encode_pkcs8_pem K key = Some buf" "d' = dm_insert path buf d"
    using assms(1) by (auto simp: load_or_generate_host_key_def save_host_key_def split: option.splits if_splits)
  with assms(2) show ?thesis by (simp add: load_or_generate_host_key_def load_host_key_def)
qed

theorem host_key_stable_witness:
  "load_or_generate_host_key \<lparr>decode_secret_key = Some, encode_pkcs8_pem = Some, random_ed25519 = Some ''new''\<rparr> False ''host_key'' [(''host_key'', ''old'')]
     = ([(''host_key'', ''old'')], Inr ''old'')"
proof -
  let ?K = "\<lparr>decode_secret_key = Some, encode_pkcs8_pem = Some, random_ed25519 = Some ''old''\<rparr>"
  have "load_or_generate_host_key ?K True ''host_key'' [] = ([(''host_key'', ''old'')], Inr ''old'')"
    by (simp add: load_or_generate_host_key_def save_host_key_def dm_contains_def dm_insert_def)
  from host_key_stable [OF this, of "Some ''new''" False] show ?thesis by simp
qed

subsection \<open>SSH parameters and the quick configuration\<close>

record 'k ssh_server_config =
  ssh_keys :: "'k list"
  ssh_server_id :: string
  ssh_auth_rejection_time :: duration
  ssh_auth_rejection_time_initial :: "duration option"
  ssh_keepalive_interval :: "duration option"
  ssh_keepalive_max :: nat

text \<open>The values that are not set keep those of the library, \<open>def\<close>.\<close>

definition ssh_config_of :: "'k \<Rightarrow> 'net app_config \<Rightarrow> 'k ssh_server_config \<Rightarrow> 'k ssh_server_config" where
  "ssh_config_of host_key cfg def =
     (let c = def\<lparr>ssh_keys := ssh_keys def @ [host_key], ssh_server_id := sv_server_id (ac_server cfg),
                  ssh_auth_rejection_time := from_secs 1, ssh_auth_rejection_time_initial := Some 0\<rparr> in
      if sv_ssh_keepalive_interval_secs (ac_server cfg) > 0
      then c\<lparr>ssh_keepalive_interval := Some (from_secs (unat (sv_ssh_keepalive_interval_secs (ac_server cfg)))),
             ssh_keepalive_max := unat (sv_ssh_keepalive_max (ac_server cfg))\<rparr>
      else c)"

text \<open>\<open>build_quick_config\<close> spells out every field of the server section and of the user.\<close>

definition build_quick_config :: "string \<Rightarrow> string \<Rightarrow> string \<Rightarrow> string option \<Rightarrow> 'net app_config" where
  "build_quick_config username password_hash ssh_listen socks5_listen =
     \<lparr>ac_server =
        \<lparr>sv_ssh_listen = ssh_listen, sv_socks5_listen = socks5_listen, sv_host_key_path = ''host_key'', sv_server_id = ''SSH-2.0-s5'',
         sv_banner = ''Welcome to s5'', sv_motd_path = None, sv_proxy_protocol = False, sv_allowed_ciphers = [], sv_allowed_kex = [],
         sv_shutdown_timeout = 30, sv_socks5_tls_cert = None, sv_socks5_tls_key = None, sv_dns_cache_ttl = - 1,
         sv_dns_cache_max_entries = 1000, sv_connect_retry = 0, sv_connect_retry_delay_ms = 1000, sv_bookmarks_path = None,
         sv_ssh_keepalive_interval_secs = 15, sv_ssh_keepalive_max = 3, sv_ssh_auth_timeout = 120\<rparr>,
      ac_shell = shell_config_default, ac_limits = limits_config_default, ac_security = security_section_default,
      ac_logging = logging_config_default, ac_metrics = metrics_config_default, ac_api = api_config_default,
      ac_geoip = geoip_config_default, ac_upstream_proxy = None, ac_webhooks = [], ac_acl = global_acl_config_default,
      ac_users =
        [\<lparr>c_username = username, c_password_hash = Some password_hash, c_authorized_keys = [], c_allow_forwarding = True,
          c_allow_shell = True, c_max_new_connections_per_minute = 0, c_max_bandwidth_kbps = 0, c_source_ips = [],
          c_expires_at = None, c_upstream_proxy = None, c_acl = user_acl_config_default, c_totp_secret = None, c_totp_enabled = False,
          c_max_aggregate_bandwidth_kbps = 0, c_group = None, c_role = RoleUser, c_shell_permissions = None, c_motd = None,
          c_quotas = None, c_time_access = None, c_auth_methods = None, c_idle_warning_secs = None, c_colors = None,
          c_connect_retry = None, c_connect_retry_delay_ms = None, c_aliases = [], c_max_connections = None, c_rate_limits = None\<rparr>],
      ac_groups = [], ac_motd = motd_config_default, ac_alerting = alerting_config_default, ac_maintenance_windows = [],
      ac_connection_pool = connection_pool_config_default\<rparr>"

text \<open>The quick configuration is the one a minimal file gives, and it is valid whenever a user name and an address are
  given.\<close>

lemma quick_config_default:
  "build_quick_config username password_hash ssh_listen None =
     app_config_default ssh_listen [(user_config_default username)\<lparr>c_password_hash := Some password_hash\<rparr>]"
  by (simp add: build_quick_config_def app_config_default_def server_config_default_def user_config_default_def)

lemma quick_config_valid:
  "username \<noteq> [] \<Longrightarrow> ssh_listen \<noteq> [] \<Longrightarrow>
   validate_config N U present (build_quick_config username password_hash ssh_listen socks5_listen) = None"
  unfolding validate_config_parts validate_None
  by (simp add: build_quick_config_def limits_config_default_def security_section_default_def global_acl_config_default_def
      api_config_default_def user_acl_config_default_def rules_parse_def starts_with_def map_filter_def)

end
