(* ===== verification/System.thy ===== *)
theory System
  imports Observe_Socks Observe_Ssh Api Listeners
begin

text \<open>
  The whole server: the services of \<open>run_with_post_init\<close> (\<open>src/server.rs\<close>) with the connections they serve. Both
  front ends, the management interface, the signals and the periodic tasks act on one shared state, in any order.
  A connection is several events: a SOCKS5 handshake and the end of its relay, or the callbacks of an SSH
  handler, the start of a spawned forwarding task and the end of its relay; between them everything else may happen. A relay
  charges the quota when it ends. A panic aborts the process.
\<close>

subsection \<open>State\<close>

definition engine_config_of :: "'net app_config \<Rightarrow> engine_config" where
  "engine_config_of cfg =
     \<lparr>max_connections = lc_max_connections (ac_limits cfg), connection_timeout = unat (lc_connection_timeout (ac_limits cfg)),
      limits_idle_timeout = unat (lc_idle_timeout (ac_limits cfg)), ip_guard_enabled = se_ip_guard_enabled (ac_security cfg),
      global_upstream_proxy = ac_upstream_proxy cfg, dns_cache_ttl = sv_dns_cache_ttl (ac_server cfg),
      dns_cache_max_entries = unat (sv_dns_cache_max_entries (ac_server cfg))\<rparr>"

definition ssh_front_config_of :: "'net app_config \<Rightarrow> ssh_config" where
  "ssh_front_config_of cfg =
     \<lparr>engine_cfg = engine_config_of cfg, limits_cfg = quota_limits_of cfg, totp_required_for = se_totp_required_for (ac_security cfg),
      ssh_auth_timeout = unat (sv_ssh_auth_timeout (ac_server cfg)), max_auth_attempts = lc_max_auth_attempts (ac_limits cfg),
      shell_hostname = sh_hostname (ac_shell cfg), motd_cfg = ac_motd cfg\<rparr>"

text \<open>A relay that runs: the slot it holds, its session, and what its end reports.\<close>

record live_relay =
  lv_guard :: string
  lv_session :: live_session
  lv_cfg :: relay_config
  lv_resolved :: socket_addr
  lv_peer :: socket_addr
  lv_cid :: string
  lv_label :: string
  lv_closing :: "audit_call list"

text \<open>A forwarding task that is spawned but has not yet connected.\<close>

record 'net spawned =
  sp_request :: "'net ssh_relay_request"
  sp_peer :: socket_addr
  sp_cid :: string

record ('net, 'pk, 'fp, 'l, 'f) system =
  sy_server :: "('net, 'pk, 'fp, 'l, 'f) server"
  sy_engine :: engine
  sy_codes :: totp_map
  sy_web :: "('net, 'pk, 'fp, 'l, 'f) api_state"
  sy_api_on :: bool
  sy_tickets :: tickets
  sy_handlers :: "('net ssh_handler \<times> conn_tag) list"
  sy_spawned :: "'net spawned list"
  sy_live :: "live_relay list"

text \<open>The shared services as the front ends and as the management interface see them.\<close>

definition context_of :: "('net, 'pk, 'fp, 'l, 'f) system \<Rightarrow> ('net, 'pk, 'fp, 'l, 'f) app_context" where
  "context_of S =
     \<lparr>security = srv_security (sy_server S), auth_svc = srv_auth (sy_server S), used_codes = sy_codes S, quota = srv_quota (sy_server S),
      proxy_engine = sy_engine S\<rparr>"

definition put_context :: "('net, 'pk, 'fp, 'l, 'f) app_context \<Rightarrow> ('net, 'pk, 'fp, 'l, 'f) system \<Rightarrow> ('net, 'pk, 'fp, 'l, 'f) system" where
  "put_context ctx S =
     S\<lparr>sy_server := (sy_server S)\<lparr>srv_security := security ctx, srv_auth := auth_svc ctx, srv_quota := quota ctx\<rparr>,
       sy_codes := used_codes ctx, sy_engine := proxy_engine ctx\<rparr>"

definition api_view :: "('net, 'pk, 'fp, 'l, 'f) system \<Rightarrow> ('net, 'pk, 'fp, 'l, 'f) api_state" where
  "api_view S =
     (let s = sy_server S in
      (sy_web S)\<lparr>ap_auth := srv_auth s, ap_engine := sy_engine S, ap_security := srv_security s, ap_metrics := srv_metrics s,
        ap_maintenance := srv_maintenance s, ap_audit := Some (srv_audit s), ap_quota := Some (srv_quota s)\<rparr>)"

definition put_api :: "('net, 'pk, 'fp, 'l, 'f) api_state \<Rightarrow> ('net, 'pk, 'fp, 'l, 'f) system \<Rightarrow> ('net, 'pk, 'fp, 'l, 'f) system" where
  "put_api A S =
     S\<lparr>sy_server := (sy_server S)\<lparr>srv_auth := ap_auth A, srv_security := ap_security A, srv_metrics := ap_metrics A,
         srv_maintenance := ap_maintenance A, srv_audit := unwrap_or (ap_audit A) (srv_audit (sy_server S)),
         srv_quota := unwrap_or (ap_quota A) (srv_quota (sy_server S))\<rparr>,
       sy_engine := ap_engine A, sy_web := A\<rparr>"

text \<open>The time stamps of audit records and what the writer takes meanwhile.\<close>

record stamps =
  st_now :: "nat \<Rightarrow> int"
  st_taken :: "nat \<Rightarrow> nat"

definition observe ::
  "('f, 'x) f64_ops_scheme \<Rightarrow> stamps \<Rightarrow> 'f observation list \<Rightarrow> ('net, 'pk, 'fp, 'l, 'f) system \<Rightarrow> ('net, 'pk, 'fp, 'l, 'f) system" where
  "observe F st os S =
     (let s = sy_server S; (A, M) = observe_all F (st_now st) (st_taken st) os (srv_audit s, srv_metrics s) in
      S\<lparr>sy_server := s\<lparr>srv_audit := A, srv_metrics := M\<rparr>\<rparr>)"

subsection \<open>Start\<close>

datatype start_error = StartAuth user_error | StartHostKey key_error

definition start_system ::
  "('net, 'pk, 'h, 'cert, 'fp, 'l, 'f) libs \<Rightarrow> 'k key_ops \<Rightarrow> bool \<Rightarrow> nat \<Rightarrow> instant \<Rightarrow> 'net app_config \<Rightarrow> string option \<Rightarrow> disk
     \<Rightarrow> disk \<times> (start_error + ('net, 'pk, 'fp, 'l, 'f) system \<times> 'k)" where
  "start_system L K writable now start cfg config_path d =
     (case server_new L now cfg of
        Inl e \<Rightarrow> (d, Inl (StartAuth e))
      | Inr s \<Rightarrow>
          (case load_or_generate_host_key K writable (sv_host_key_path (ac_server cfg)) d of
             (d', Inl e) \<Rightarrow> (d', Inl (StartHostKey e))
           | (d', Inr host_key) \<Rightarrow>
               (d', Inr
                 (\<lparr>sy_server = s, sy_engine = engine_new (engine_config_of cfg), sy_codes = [],
                   sy_web = \<lparr>ap_auth = srv_auth s, ap_engine = engine_new (engine_config_of cfg), ap_security = srv_security s,
                     ap_metrics = srv_metrics s, ap_token = api_token (ac_api cfg), ap_maintenance = False, ap_start_time = start,
                     ap_config_path = config_path, ap_audit = Some (srv_audit s),
                     ap_broadcast = Some \<lparr>bc_sent = [], bc_receivers = 0\<rparr>, ap_ssh_listen_addr = Some (sv_ssh_listen (ac_server cfg)),
                     ap_quota = Some (srv_quota s)\<rparr>,
                   sy_api_on = api_enabled (ac_api cfg), sy_tickets = [], sy_handlers = [], sy_spawned = [], sy_live = []\<rparr>, host_key))))"

subsection \<open>Events\<close>

text \<open>What stays fixed: libraries, the configuration of the front ends, which a reload does not reach, and the tables of the
  router.\<close>

record ('net, 'pk, 'h, 'cert, 'fp, 'l, 'f) params =
  pa_libs :: "('net, 'pk, 'h, 'cert, 'fp, 'l, 'f) libs"
  pa_cfg :: ssh_config
  pa_ssh :: "('net, 'pk, 'f) ssh_ops"
  pa_api :: api_ops
  pa_matcher :: matcher
  pa_secs :: "nat \<Rightarrow> 'f"
  pa_windows :: "maintenance_window_config list"

datatype ('net, 'pk) event =
  SocksConnect network clock string bool conn_tag client_peer
| SshConnect instant ipaddr conn_tag
| SshEvent nat ssh_clock "'pk ssh_event"
| SshRelayStart nat network nat
| RelayEnd nat nat u64 "(bool \<times> relay_event) list"
| ApiRequest "'net config_io" reload_env api_input
| Sighup "'net config_io" string reload_env
| Sigusr1
| Sigterm
| MaintenanceTick int
| SecurityTick instant
| RateLimitTick instant
| TicketTick u64
| SystemMetricsTick "string option" "nat option"
| AuditWrite

definition drop_nth :: "nat \<Rightarrow> 'a list \<Rightarrow> 'a list" where
  "drop_nth i xs = take i xs @ drop (Suc i) xs"

text \<open>The first half of \<open>handle_connection\<close>: the handshake, and for a granted relay its session. \<^const>\<open>None\<close> is the abort of the
  process.\<close>

definition socks_connect ::
  "('net, 'pk, 'h, 'cert, 'fp, 'l, 'f) params \<Rightarrow> stamps \<Rightarrow> network \<Rightarrow> clock \<Rightarrow> string \<Rightarrow> bool \<Rightarrow> conn_tag \<Rightarrow> client_peer
     \<Rightarrow> ('net, 'pk, 'fp, 'l, 'f) system \<Rightarrow> ('net, 'pk, 'fp, 'l, 'f) system option" where
  "socks_connect P st W t proto stalls g cl S =
     (let L = pa_libs P; cfg = socks_config.truncate (pa_cfg P); peer = peer_of g cl;
          new = Audited (LogConnectionNew peer proto (tag_cid g)); closed = LogConnectionClosed peer proto (tag_cid g) in
      case socks5_handshake_obs L W cfg t stalls g cl (context_of S) of
        (ctx, out, Finished (Relay ri), os) \<Rightarrow>
          (let (G, session, os1) = register_session_obs (at_relay t) (ri_username ri) (ri_host ri) (ri_port ri) (client_ip_text cl) proto (proxy_engine ctx);
               r = \<lparr>lv_guard = ri_guard ri, lv_session = session, lv_cfg = to_relay_config ri (limits_idle_timeout (engine_cfg cfg)),
                    lv_resolved = ri_resolved ri, lv_peer = peer, lv_cid = tag_cid g, lv_label = ''socks5'', lv_closing = [closed]\<rparr>;
               S1 = put_context (ctx\<lparr>proxy_engine := G\<rparr>) S
           in Some (observe (lib_f64 L) st (new # os @ os1) (S1\<lparr>sy_live := sy_live S1 @ [r]\<rparr>)))
      | (ctx, out, Finished Panic, os) \<Rightarrow> None
      | (ctx, out, Finished (HsError e), os) \<Rightarrow> Some (observe (lib_f64 L) st (new # os) (put_context ctx S))
      | (ctx, out, _, os) \<Rightarrow> Some (observe (lib_f64 L) st (new # os @ [Audited closed]) (put_context ctx S)))"

definition ssh_event ::
  "('net, 'pk, 'h, 'cert, 'fp, 'l, 'f) params \<Rightarrow> stamps \<Rightarrow> nat \<Rightarrow> ssh_clock \<Rightarrow> 'pk ssh_event
     \<Rightarrow> ('net, 'pk, 'fp, 'l, 'f) system \<Rightarrow> ('net, 'pk, 'fp, 'l, 'f) system option" where
  "ssh_event P st i t ev S =
     (if i \<ge> length (sy_handlers S) then Some S
      else let (h, g) = sy_handlers S ! i in
        case ssh_step_obs (pa_libs P) (pa_ssh P) (pa_cfg P) t g ev (context_of S) h of
          None \<Rightarrow> None
        | Some (ctx, h', r, os) \<Rightarrow>
            (let S1 = put_context ctx S;
                 tasks = (case r of Forward (Some req) \<Rightarrow> [\<lparr>sp_request = req, sp_peer = ssh_peer_of g h, sp_cid = tag_cid g\<rparr>] | _ \<Rightarrow> []) in
             Some (observe (lib_f64 (pa_libs P)) st os
               (S1\<lparr>sy_handlers := (sy_handlers S1)[i := (h', g)], sy_spawned := sy_spawned S1 @ tasks\<rparr>))))"

text \<open>The first half of the spawned task: \<open>connect_and_relay\<close> up to the relay.\<close>

definition ssh_relay_start ::
  "('net, 'pk, 'h, 'cert, 'fp, 'l, 'f) params \<Rightarrow> stamps \<Rightarrow> nat \<Rightarrow> network \<Rightarrow> nat \<Rightarrow> ('net, 'pk, 'fp, 'l, 'f) system \<Rightarrow> ('net, 'pk, 'fp, 'l, 'f) system" where
  "ssh_relay_start P st i W now S =
     (if i \<ge> length (sy_spawned S) then S
      else let L = pa_libs P; cfg = engine_cfg (pa_cfg P); task = sy_spawned S ! i; req = sp_request task;
               S0 = S\<lparr>sy_spawned := drop_nth i (sy_spawned S)\<rparr> in
        case connect_checked_obs (lib_net L) W cfg (req_username req) (req_host req) (req_port req) (req_user_acl req) (req_source_ip req)
               (req_max_per_user req) (req_upstream_proxy req) (sy_engine S) of
          (G, Inl e, os) \<Rightarrow> observe (lib_f64 L) st (os @ [Measured (OpError (classify_relay_error e))]) (S0\<lparr>sy_engine := G\<rparr>)
        | (G, Inr (_, resolved, grd), os) \<Rightarrow>
            (let (G2, session, os1) = register_session_obs now (req_username req) (req_host req) (req_port req) (req_source_ip req) ''ssh'' G;
                 r = \<lparr>lv_guard = grd, lv_session = session,
                      lv_cfg = \<lparr>idle_timeout = from_secs (limits_idle_timeout cfg), per_conn_bandwidth_kbps = req_bandwidth_limit_kbps req,
                        aggregate_bandwidth_kbps = req_aggregate_bandwidth_kbps req, relay_username = Some (req_username req), relay_quotas = req_quotas req\<rparr>,
                      lv_resolved = resolved, lv_peer = sp_peer task, lv_cid = sp_cid task, lv_label = ''ssh'', lv_closing = []\<rparr>
             in observe (lib_f64 L) st (os @ os1) (S0\<lparr>sy_engine := G2, sy_live := sy_live S0 @ [r]\<rparr>)))"

text \<open>The second half of both: the relay, the end of its session, the return of its slot and the reports.\<close>

definition relay_end ::
  "('net, 'pk, 'h, 'cert, 'fp, 'l, 'f) params \<Rightarrow> stamps \<Rightarrow> nat \<Rightarrow> nat \<Rightarrow> u64 \<Rightarrow> (bool \<times> relay_event) list
     \<Rightarrow> ('net, 'pk, 'fp, 'l, 'f) system \<Rightarrow> ('net, 'pk, 'fp, 'l, 'f) system" where
  "relay_end P st i now duration_ms evs S =
     (if i \<ge> length (sy_live S) then S
      else let L = pa_libs P; F = lib_f64 L; r = sy_live S ! i; s = lv_session r;
               ((E, up, down), os) = relay_obs (lib_chrono L) F now (lv_cfg r) (Some (srv_quota (sy_server S))) (Some s) evs in
        observe F st
          (os @ [Audited (LogProxyComplete (sess_username s) (sess_target_host s) (sess_target_port s) up down duration_ms (lv_peer r)
                   (Some (show_ip (fst (lv_resolved r)))) (lv_cid r)),
                 Measured (OpBytes (sess_username s) (up + down)),
                 Measured (OpTypedDuration (sess_username s) (lv_label r) (f_div F (f_of_u64 F duration_ms) (f_lit F 1000 1)))]
             @ map Audited (lv_closing r))
          (S\<lparr>sy_server := (sy_server S)\<lparr>srv_quota := unwrap_or (env_tracker E) (srv_quota (sy_server S))\<rparr>,
             sy_engine := release (lv_guard r) (unregister_session (session_id s) (sy_engine S)), sy_live := drop_nth i (sy_live S)\<rparr>))"

definition serve_api_request ::
  "('net, 'pk, 'h, 'cert, 'fp, 'l, 'f) params \<Rightarrow> 'net config_io \<Rightarrow> reload_env \<Rightarrow> api_input
     \<Rightarrow> ('net, 'pk, 'fp, 'l, 'f) system \<Rightarrow> ('net, 'pk, 'fp, 'l, 'f) system" where
  "serve_api_request P F X I S =
     (if \<not> sy_api_on S \<or> srv_shutdown (sy_server S) then S
      else case api_serve (pa_libs P) (pa_api P) F X (pa_matcher P) (pa_secs P) I (api_view S, sy_tickets S) of
             ((A, T), _) \<Rightarrow> (put_api A S)\<lparr>sy_tickets := T\<rparr>)"

definition on_server ::
  "(('net, 'pk, 'fp, 'l, 'f) server \<Rightarrow> ('net, 'pk, 'fp, 'l, 'f) server) \<Rightarrow> ('net, 'pk, 'fp, 'l, 'f) system \<Rightarrow> ('net, 'pk, 'fp, 'l, 'f) system" where
  "on_server f S = S\<lparr>sy_server := f (sy_server S)\<rparr>"

text \<open>After the request to shut down the SOCKS5 listener and the management interface take no more connections; the
  SSH listener goes on.\<close>

fun sys_step ::
  "('net, 'pk, 'h, 'cert, 'fp, 'l, 'f) params \<Rightarrow> stamps \<times> ('net, 'pk) event \<Rightarrow> ('net, 'pk, 'fp, 'l, 'f) system
     \<Rightarrow> ('net, 'pk, 'fp, 'l, 'f) system option" where
  "sys_step P (st, SocksConnect W t proto stalls g cl) S =
     (if srv_shutdown (sy_server S) then Some S else socks_connect P st W t proto stalls g cl S)"
| "sys_step P (st, SshConnect now peer g) S = Some (S\<lparr>sy_handlers := sy_handlers S @ [(handler_new now peer, g)]\<rparr>)"
| "sys_step P (st, SshEvent i t ev) S = ssh_event P st i t ev S"
| "sys_step P (st, SshRelayStart i W now) S = Some (ssh_relay_start P st i W now S)"
| "sys_step P (st, RelayEnd i now ms evs) S = Some (relay_end P st i now ms evs S)"
| "sys_step P (st, ApiRequest F X I) S = Some (serve_api_request P F X I S)"
| "sys_step P (st, Sighup F path X) S = Some (on_server (sighup (pa_libs P) F path X) S)"
| "sys_step P (st, Sigusr1) S = Some (on_server (sigusr1 (st_now st 0) (st_taken st 0)) S)"
| "sys_step P (st, Sigterm) S = Some (on_server (begin_shutdown \<circ> sigterm) S)"
| "sys_step P (st, MaintenanceTick now) S = Some (on_server (maintenance_tick (lib_user (pa_libs P)) (pa_windows P) now (st_taken st 0)) S)"
| "sys_step P (st, SecurityTick now) S = Some (on_server (\<lambda>s. s\<lparr>srv_security := security_cleanup now (srv_security s)\<rparr>) S)"
| "sys_step P (st, RateLimitTick now) S =
     Some (on_server (\<lambda>s. s\<lparr>srv_security := cleanup_rate_limiters now (from_secs 600) (srv_security s)\<rparr>) S)"
| "sys_step P (st, TicketTick now) S = Some (S\<lparr>sy_tickets := ticket_cleanup now (sy_tickets S)\<rparr>)"
| "sys_step P (st, SystemMetricsTick statm fds) S =
     Some (on_server (\<lambda>s. s\<lparr>srv_metrics := update_system_metrics statm fds (srv_metrics s)\<rparr>) S)"
| "sys_step P (st, AuditWrite) S = Some (on_server (\<lambda>s. s\<lparr>srv_audit := fst (audit_recv (srv_audit s))\<rparr>) S)"

fun sys_run ::
  "('net, 'pk, 'h, 'cert, 'fp, 'l, 'f) params \<Rightarrow> (stamps \<times> ('net, 'pk) event) list \<Rightarrow> ('net, 'pk, 'fp, 'l, 'f) system
     \<Rightarrow> ('net, 'pk, 'fp, 'l, 'f) system option" where
  "sys_run P [] S = Some S"
| "sys_run P (e # es) S = (case sys_step P e S of None \<Rightarrow> None | Some S' \<Rightarrow> sys_run P es S')"

subsection \<open>Connections and sessions are those of the live relays\<close>

definition session_table :: "engine \<Rightarrow> (string, live_session) dmap \<times> u64" where
  "session_table G = (active_sessions G, session_counter G)"

lemma connect_checked_sessions: "session_table (fst (connect_checked N W cfg u host port acl m up G)) = session_table G"
  by (auto simp: connect_checked_def session_table_def release_def Let_def case_prod_beta split: option.split sum.split prod.split)

lemma request_phase_sessions:
  "session_table (proxy_engine (fst (request_phase L W cfg cl creds usr bs out ctx))) = session_table (proxy_engine ctx)"
proof (cases "read_connect_request bs")
  case (Inr y)
  let ?C = "connect_checked (lib_net L) W (engine_cfg cfg) (cred_username creds) (host_string (fst y)) (target_port (fst y)) (u_acl usr)
      (u_max_connections usr) (resolve_upstream_proxy (lib_url L) usr (engine_cfg cfg)) (proxy_engine ctx)"
  obtain G r where C: "?C = (G, r)" by (metis prod.collapse)
  then have "session_table G = session_table (proxy_engine ctx)" by (metis connect_checked_sessions fst_conv)
  then have "session_table (release g G) = session_table (proxy_engine ctx)" for g by (simp add: session_table_def release_def)
  with \<open>session_table G = _\<close> C Inr show ?thesis
    by (auto simp: request_phase_def connect_for_socks_def Let_def case_prod_beta split: sum.split)
qed (auto simp: request_phase_def split: prod.split)

lemma auth_phase_sessions:
  "session_table (proxy_engine (fst (auth_phase L W cfg t cl creds bs out ctx))) = session_table (proxy_engine ctx)"
  unfolding auth_phase_def Let_def case_prod_beta
  by (auto simp: request_phase_sessions split: option.split)

lemma handshake_sessions:
  "session_table (proxy_engine (fst (socks5_handshake L W cfg t cl ctx))) = session_table (proxy_engine ctx)"
  unfolding socks5_handshake_def Let_def case_prod_beta
  by (auto simp: auth_phase_sessions split: sum.split)

text \<open>Every connection that is counted, globally and for its user, and every session in the table belongs to exactly one
  live relay.\<close>

definition conns_ok :: "u32 \<Rightarrow> live_relay list \<Rightarrow> engine \<Rightarrow> bool" where
  "conns_ok mx live G \<longleftrightarrow> length live \<le> unat mx \<and> unat (active_connections (eng_slots G)) = length live
     \<and> (\<forall>u. unat (count_of (eng_slots G) u) = count_list (map lv_guard live) u)"

definition live_ids :: "live_relay list \<Rightarrow> string list" where
  "live_ids live = map (session_id \<circ> lv_session) live"

definition relays_ok :: "u32 \<Rightarrow> nat \<Rightarrow> live_relay list \<Rightarrow> engine \<Rightarrow> bool" where
  "relays_ok mx n live G \<longleftrightarrow> conns_ok mx live G \<and> sessions_ok n G \<and> distinct (live_ids live) \<and> set (map fst (active_sessions G)) = set (live_ids live)"

lemma conns_ok_counts: "slot_counts G' = slot_counts G \<Longrightarrow> conns_ok mx live G' = conns_ok mx live G"
  by (simp add: conns_ok_def slot_counts_def)

lemma sessions_table_ok:
  assumes "session_table G' = session_table G"
  shows "sessions_ok n G' = sessions_ok n G" and "active_sessions G' = active_sessions G"
  using assms by (simp_all add: session_table_def sessions_ok_def)

lemma relays_ok_same:
  assumes "slot_counts G' = slot_counts G" and "session_table G' = session_table G"
  shows "relays_ok mx n live G' = relays_ok mx n live G"
  unfolding relays_ok_def conns_ok_counts [OF assms(1)] sessions_table_ok [OF assms(2)] by (rule HOL.refl)

lemma relays_ok_mono: "relays_ok mx n live G \<Longrightarrow> relays_ok mx (Suc n) live G"
  by (auto simp: relays_ok_def sessions_ok_def)

lemma count_list_length: "count_list xs x \<le> length xs"
  by (induction xs) auto

lemma acquired_conns:
  assumes "conns_ok mx live G" and "acquire_connection mx u m (eng_slots G) = (eng_slots G', Inr g)" and "lv_guard r = g"
  shows "conns_ok mx (live @ [r]) G'"
proof -
  from acquire_ok [OF assms(2)] have a: "g = u" "\<not> global_connections (eng_slots G) \<ge> mx"
    "global_connections (eng_slots G') = global_connections (eng_slots G) + 1"
    "count_of (eng_slots G') = (count_of (eng_slots G))(u := count_of (eng_slots G) u + 1)" by blast+
  have l: "length live < unat mx" using a(2) assms(1) by (simp add: conns_ok_def active_connections_def word_le_nat_alt)
  moreover have "unat mx < 2 ^ 32" by (rule order_less_le_trans [OF unsigned_less]) simp
  ultimately have b: "Suc (length live) < 2 ^ 32" by simp
  have c: "unat (count_of (eng_slots G) v) = count_list (map lv_guard live) v" for v using assms(1) by (simp add: conns_ok_def)
  have "unat (count_of (eng_slots G) u + 1) = Suc (unat (count_of (eng_slots G) u))"
    by (rule unat_inc) (use b count_list_length [of "map lv_guard live" u] c [of u] in simp)
  moreover have "unat (global_connections (eng_slots G) + 1) = Suc (length live)"
    using unat_inc [of "global_connections (eng_slots G)"] assms(1) b by (simp add: conns_ok_def active_connections_def)
  ultimately show ?thesis using a l c assms(3) by (simp add: conns_ok_def active_connections_def)
qed

lemma count_list_drop_nth: "i < length xs \<Longrightarrow> count_list xs x = count_list (drop_nth i xs) x + (if xs ! i = x then 1 else 0)"
  by (subst id_take_nth_drop [of i xs]) (auto simp: drop_nth_def)

lemma map_drop_nth: "map f (drop_nth i xs) = drop_nth i (map f xs)"
  by (simp add: drop_nth_def take_map drop_map)

lemma length_drop_nth: "i < length xs \<Longrightarrow> length (drop_nth i xs) = length xs - 1"
  by (simp add: drop_nth_def)

lemma released_conns:
  assumes "conns_ok mx live G" and i: "i < length live"
  shows "conns_ok mx (drop_nth i live) (release (lv_guard (live ! i)) G)"
proof -
  let ?u = "lv_guard (live ! i)" and ?S = "eng_slots G"
  have c: "unat (count_of ?S v) = count_list (map lv_guard live) v" and g: "unat (global_connections ?S) = length live" for v
    using assms(1) by (simp_all add: conns_ok_def active_connections_def)
  have split: "count_list (map lv_guard live) v = count_list (map lv_guard (drop_nth i live)) v + (if ?u = v then 1 else 0)" for v
    using count_list_drop_nth [of i "map lv_guard live" v] i by (simp add: map_drop_nth)
  have pos: "0 < unat (count_of ?S ?u)" using c [of ?u] split [of ?u] by simp
  then have "map_of (user_connections ?S) ?u \<noteq> None" by (auto simp: count_of_def split: option.splits)
  from drop_guard_counts [OF this] have d: "global_connections (drop_guard ?u ?S) = global_connections ?S - 1"
    "count_of (drop_guard ?u ?S) = (count_of ?S)(?u := count_of ?S ?u - 1)" by simp_all
  have "unat (global_connections ?S - 1) = length live - 1" by (subst unat_dec) (use g i in auto)
  moreover have "unat (count_of ?S ?u - 1) = unat (count_of ?S ?u) - 1" by (rule unat_dec [OF pos])
  ultimately show ?thesis
    using assms(1) d c split i by (auto simp: conns_ok_def release_def active_connections_def length_drop_nth)
qed

lemma registered_relays:
  assumes "relays_ok mx n live G" and "conns_ok mx (live @ [r]) G1" and "session_table G1 = session_table G" and "Suc n < 2 ^ 64"
    and R: "register_session now u h p src proto G1 = (G2, s)" and "lv_session r = s"
  shows "relays_ok mx (Suc n) (live @ [r]) G2"
proof -
  have ok: "sessions_ok n G1" and act: "active_sessions G1 = active_sessions G"
    using assms(1) sessions_table_ok [OF assms(3)] by (simp_all add: relays_ok_def)
  have s: "session_id s = sid (unat (session_counter G1))" and G2: "G2 = G1\<lparr>session_counter := session_counter G1 + 1,
      active_sessions := dm_insert (session_id s) s (active_sessions G1)\<rparr>"
    using R by (auto simp: register_session_def sid_def Let_def)
  have "session_id s \<notin> set (map fst (active_sessions G1))"
    using sessions_ok_fresh [OF ok] s by (simp add: map_of_eq_None_iff)
  then have new: "session_id s \<notin> set (live_ids live)" using assms(1) act by (simp add: relays_ok_def)
  have "sessions_ok (Suc n) G2" using sessions_ok_step [OF ok assms(4), of "Register now u h p src proto"] R by simp
  moreover have "conns_ok mx (live @ [r]) G2" using assms(2) by (simp add: G2 conns_ok_def)
  moreover have "set (map fst (active_sessions G2)) = insert (session_id s) (set (live_ids live))"
  proof -
    have "dom (map_of (active_sessions G2)) = insert (session_id s) (dom (map_of (active_sessions G)))" by (auto simp: G2 act)
    then show ?thesis using assms(1) by (simp add: relays_ok_def dom_map_of_conv_image_fst)
  qed
  ultimately show ?thesis using assms(1,6) new by (auto simp: relays_ok_def live_ids_def)
qed

lemma set_drop_nth_distinct:
  assumes "i < length xs" and "distinct xs"
  shows "set (drop_nth i xs) = set xs - {xs ! i} \<and> distinct (drop_nth i xs)"
proof -
  have "xs = take i xs @ xs ! i # drop (Suc i) xs" using assms(1) by (rule id_take_nth_drop)
  then have "distinct (take i xs @ xs ! i # drop (Suc i) xs)" and "set xs = set (take i xs @ xs ! i # drop (Suc i) xs)"
    using assms(2) by simp_all
  then show ?thesis by (auto simp: drop_nth_def)
qed

lemma ended_relays:
  assumes "relays_ok mx n live G" and i: "i < length live"
  shows "relays_ok mx n (drop_nth i live) (release (lv_guard (live ! i)) (unregister_session (session_id (lv_session (live ! i))) G))"
proof -
  let ?k = "session_id (lv_session (live ! i))" and ?G = "unregister_session (session_id (lv_session (live ! i))) G"
  have "conns_ok mx live ?G" using assms(1) by (simp add: relays_ok_def conns_ok_def unregister_session_def)
  from released_conns [OF this i] have "conns_ok mx (drop_nth i live) (release (lv_guard (live ! i)) ?G)" .
  moreover have "sessions_ok n (release (lv_guard (live ! i)) ?G)"
    using assms(1) by (auto simp: relays_ok_def sessions_ok_def unregister_session_def release_def)
  moreover have "set (live_ids (drop_nth i live)) = set (live_ids live) - {?k}" "distinct (live_ids (drop_nth i live))"
    using set_drop_nth_distinct [of i "live_ids live"] assms by (simp_all add: live_ids_def relays_ok_def map_drop_nth)
  moreover have "set (map fst (active_sessions (release (lv_guard (live ! i)) ?G))) = set (map fst (active_sessions G)) - {?k}"
    by (auto simp: unregister_session_def release_def dm_remove_def delete_keys)
  ultimately show ?thesis using assms(1) by (simp add: relays_ok_def)
qed

lemma observe_engine [simp]:
  "sy_engine (observe F st os S) = sy_engine S" "sy_live (observe F st os S) = sy_live S"
  by (simp_all add: observe_def Let_def case_prod_beta)

lemma put_context_engine [simp]:
  "sy_engine (put_context ctx S) = proxy_engine ctx" "sy_live (put_context ctx S) = sy_live S" "proxy_engine (context_of S) = sy_engine S"
  by (simp_all add: put_context_def context_of_def)

lemma begin_auth_engine [simp]: "proxy_engine (fst (begin_auth L cfg t ctx h)) = proxy_engine ctx"
  by (simp add: begin_auth_def Let_def case_prod_beta)

lemma validate_engine [simp]: "proxy_engine (fst (validate_forwarding_request L cfg t p h ctx)) = proxy_engine ctx"
  by (simp add: validate_forwarding_request_def Let_def case_prod_beta split: option.split sum.split)

lemma ssh_auth_password_engine:
  "ssh_auth_password L cfg t u pw ctx h = Some (ctx', h', r) \<Longrightarrow> proxy_engine ctx' = proxy_engine ctx"
  using begin_auth_engine [of L cfg t ctx h]
  by (auto simp: ssh_auth_password_def ssh_record_auth_failure_def Let_def case_prod_beta split: option.splits if_splits)

lemma session_motd_engine [simp]: "proxy_engine (fst (session_motd L K cfg t ctx h name usr)) = proxy_engine ctx"
  by (simp add: session_motd_def Let_def case_prod_beta split: option.split)

lemma ssh_step_engine:
  assumes "ssh_step L K cfg t ev ctx h = Some (ctx', h', r)"
  shows "proxy_engine ctx' = proxy_engine ctx"
proof (cases ev)
  case (AuthPassword u pw)
  with assms show ?thesis by (auto dest: ssh_auth_password_engine)
next
  case (AuthPublickey u k)
  with assms show ?thesis using begin_auth_engine [of L cfg t ctx h]
    by (auto simp: ssh_auth_publickey_def ssh_record_auth_failure_def Let_def case_prod_beta split: if_splits)
next
  case (OpenSession ch)
  with assms show ?thesis by (auto simp: channel_open_session_def Let_def case_prod_beta split: option.splits if_splits)
next
  case (ChannelData ch d)
  with assms show ?thesis by (auto simp: ssh_data_def Let_def case_prod_beta split: option.splits if_splits)
qed (use assms in \<open>auto simp: ssh_auth_none_def channel_open_direct_tcpip_def Let_def case_prod_beta split: option.splits if_splits\<close>)

lemma bc_send_engine [simp]: "ap_engine (bc_send m us S) = ap_engine S"
  by (simp add: bc_send_def split: option.split)

lemma handle_command_engine [simp]: "ap_engine (fst (handle_command cmd S)) = ap_engine S"
  by (simp add: handle_command_def api_unban_def Let_def case_prod_beta split: sum.split option.split)

lemma build_payload_engine [simp]: "ap_engine (fst (build_payload C K S)) = ap_engine S"
  by (simp add: build_payload_def Let_def case_prod_beta)

lemma ws_step_engine [simp]: "ap_engine (ws_step C e S) = ap_engine S"
  by (cases e) simp_all

lemma ws_engine [simp]: "ap_engine (fold (ws_step C) fs S) = ap_engine S"
  by (induction fs arbitrary: S) simp_all

lemma payloads_engine [simp]: "ap_engine (fold (\<lambda>K S. fst (build_payload C K S)) ks S) = ap_engine S"
  by (induction ks arbitrary: S) simp_all

lemma user_details_engine [simp]: "ap_engine (fst (user_details F C now name S)) = ap_engine S"
  by (simp add: user_details_def Let_def case_prod_beta)

lemma user_infos_engine [simp]: "ap_engine (fst (user_infos N F C details clk names S)) = ap_engine S"
  by (cases details; induction names arbitrary: clk S) (simp_all add: Let_def case_prod_beta split: option.split)

lemma endpoint_engine: "ap_engine (fst (run_endpoint L A F X I ep param S)) = ap_engine S"
  by (cases ep) (auto simp: run_endpoint_def with_param_def with_body_def status_only_def list_users_def delete_ban_def api_unban_def
      api_toggle_maintenance_def reload_config_def broadcast_message_def kick_user_def list_quotas_def get_user_quota_def reset_user_quota_def
      list_groups_def get_group_def backup_handler_def restore_handler_def audit_reload_def Let_def case_prod_beta
      split: option.split sum.split bool.split)

lemma api_engine: "api_serve L A F X M secs I (S, T) = ((S', T'), status) \<Longrightarrow> ap_engine S' = ap_engine S"
  using endpoint_engine
  by (auto simp: api_serve_def api_metrics_middleware_def Let_def case_prod_beta split: option.splits auth_outcome.splits)

lemma ssh_step_obs_engine:
  assumes "ssh_step_obs L K cfg t g ev ctx h = Some (ctx', h', r, os)"
  shows "proxy_engine ctx' = proxy_engine ctx"
proof -
  have "ssh_step L K cfg t ev ctx h = Some (ctx', h', r)" using ssh_step_obs_map [of L K cfg t g ev ctx h] assms by simp
  then show ?thesis by (rule ssh_step_engine)
qed

definition sys_ok :: "u32 \<Rightarrow> nat \<Rightarrow> ('net, 'pk, 'fp, 'l, 'f) system \<Rightarrow> bool" where
  "sys_ok mx n S \<longleftrightarrow> relays_ok mx n (sy_live S) (sy_engine S)"

lemma socks_connect_ok:
  assumes ok: "sys_ok (max_connections (engine_cfg (pa_cfg P))) n S" and n: "Suc n < 2 ^ 64"
    and step: "socks_connect P st W t proto stalls g cl S = Some S'"
  shows "sys_ok (max_connections (engine_cfg (pa_cfg P))) (Suc n) S'"
proof -
  let ?cfg = "socks_config.truncate (pa_cfg P)" and ?mx = "max_connections (engine_cfg (pa_cfg P))"
  have cfg: "engine_cfg ?cfg = engine_cfg (pa_cfg P)" by (simp add: socks_config.defs)
  obtain ctx out e where H: "socks5_handshake (pa_libs P) W ?cfg t cl (context_of S) = (ctx, out, e)" by (metis prod_cases3)
  obtain c o' e' os where X: "socks5_handshake_obs (pa_libs P) W ?cfg t stalls g cl (context_of S) = (c, o', e', os)" by (metis prod_cases4)
  have c: "c = ctx" and e': "\<And>ri. e' = Finished (Relay ri) \<longleftrightarrow> e = Relay ri"
    using socks5_handshake_obs_state [of "pa_libs P" W ?cfg t stalls g cl "context_of S"] by (simp_all add: H X)
  have tab: "session_table (proxy_engine ctx) = session_table (sy_engine S)"
    using handshake_sessions [of "pa_libs P" W ?cfg t cl "context_of S"] by (simp add: H)
  show ?thesis
  proof (cases "\<exists>ri. e = Relay ri")
    case False
    then have "slot_counts (proxy_engine ctx) = slot_counts (sy_engine S)" using socks5_handshake_slots [OF H] by simp
    then have "relays_ok ?mx (Suc n) (sy_live S) (proxy_engine ctx)"
      using ok relays_ok_same [OF _ tab] relays_ok_mono by (simp add: sys_ok_def)
    with False e' step show ?thesis
      by (auto simp: socks_connect_def X c sys_ok_def Let_def split: hs_outcome.splits handshake_end.splits)
  next
    case True
    then obtain ri where e: "e = Relay ri" by blast
    obtain G s where R: "register_session (at_relay t) (ri_username ri) (ri_host ri) (ri_port ri) (client_ip_text cl) proto (proxy_engine ctx) = (G, s)"
      by (metis prod.collapse)
    obtain u m where "acquire_connection ?mx u m (eng_slots (sy_engine S)) = (eng_slots (proxy_engine ctx), Inr (ri_guard ri))"
      using socks5_handshake_acquired [OF H [unfolded e]] by (auto simp: cfg)
    from acquired_conns [OF _ this] ok have conns: "lv_guard r = ri_guard ri \<Longrightarrow> conns_ok ?mx (sy_live S @ [r]) (proxy_engine ctx)" for r
      by (simp add: sys_ok_def relays_ok_def)
    have "relays_ok ?mx (Suc n) (sy_live S @ [r]) G" if "lv_guard r = ri_guard ri" "lv_session r = s" for r
      by (rule registered_relays [OF ok [unfolded sys_ok_def] conns [OF that(1)] tab n R that(2)])
    moreover have "e' = Finished (Relay ri)" using e e' by simp
    ultimately show ?thesis using step R by (auto simp: socks_connect_def X c sys_ok_def register_session_obs_def Let_def)
  qed
qed

lemma ssh_relay_start_ok:
  assumes ok: "sys_ok (max_connections (engine_cfg (pa_cfg P))) n S" and n: "Suc n < 2 ^ 64"
  shows "sys_ok (max_connections (engine_cfg (pa_cfg P))) (Suc n) (ssh_relay_start P st i W now S)"
proof (cases "i \<ge> length (sy_spawned S)")
  case True
  with ok show ?thesis by (simp add: ssh_relay_start_def sys_ok_def relays_ok_mono)
next
  case False
  let ?mx = "max_connections (engine_cfg (pa_cfg P))" and ?req = "sp_request (sy_spawned S ! i)"
  let ?C = "connect_checked (lib_net (pa_libs P)) W (engine_cfg (pa_cfg P)) (req_username ?req) (req_host ?req) (req_port ?req) (req_user_acl ?req)
      (req_max_per_user ?req) (req_upstream_proxy ?req) (sy_engine S)"
  obtain G r where C: "?C = (G, r)" by (metis prod.collapse)
  have tab: "session_table G = session_table (sy_engine S)" by (metis C connect_checked_sessions fst_conv)
  show ?thesis
  proof (cases r)
    case (Inl e)
    then have "slot_counts G = slot_counts (sy_engine S)" using connect_checked_fail C by blast
    then have "relays_ok ?mx (Suc n) (sy_live S) G" using ok relays_ok_same [OF _ tab] relays_ok_mono by (simp add: sys_ok_def)
    with False Inl C show ?thesis by (simp add: ssh_relay_start_def sys_ok_def Let_def case_prod_beta)
  next
    case (Inr z)
    obtain sk a grd where z: "z = (sk, a, grd)" by (metis prod_cases3)
    obtain G2 s where R: "register_session now (req_username ?req) (req_host ?req) (req_port ?req) (req_source_ip ?req) ''ssh'' G = (G2, s)"
      by (metis prod.collapse)
    from acquired_conns [OF _ connect_checked_success [OF C [unfolded Inr z]]] ok
    have conns: "lv_guard r = grd \<Longrightarrow> conns_ok ?mx (sy_live S @ [r]) G" for r by (simp add: sys_ok_def relays_ok_def)
    have "relays_ok ?mx (Suc n) (sy_live S @ [r]) G2" if "lv_guard r = grd" "lv_session r = s" for r
      by (rule registered_relays [OF ok [unfolded sys_ok_def] conns [OF that(1)] tab n R that(2)])
    with False Inr z C R show ?thesis by (simp add: ssh_relay_start_def sys_ok_def register_session_obs_def Let_def case_prod_beta)
  qed
qed

lemma sys_step_ok:
  assumes ok: "sys_ok (max_connections (engine_cfg (pa_cfg P))) n S" and n: "Suc n < 2 ^ 64" and step: "sys_step P e S = Some S'"
  shows "sys_ok (max_connections (engine_cfg (pa_cfg P))) (Suc n) S'"
proof -
  note mono = ok [unfolded sys_ok_def, THEN relays_ok_mono]
  obtain st ev where e: "e = (st, ev)" by fastforce
  show ?thesis
  proof (cases ev)
    case (SocksConnect W t proto stalls g cl)
    then show ?thesis using step e socks_connect_ok [OF ok n] mono by (auto simp: sys_ok_def split: if_splits)
  next
    case (SshEvent i t sev)
    then show ?thesis using step e mono
      by (auto simp: ssh_event_def sys_ok_def Let_def case_prod_beta dest: ssh_step_obs_engine split: if_splits option.splits prod.splits)
  next
    case (SshRelayStart i W now)
    then show ?thesis using step e ssh_relay_start_ok [OF ok n] by auto
  next
    case (RelayEnd i now ms evs)
    then show ?thesis using step e mono ended_relays [OF mono]
      by (auto simp: relay_end_def sys_ok_def Let_def case_prod_beta split: if_splits)
  next
    case (ApiRequest F X I)
    obtain A T status where r: "api_serve (pa_libs P) (pa_api P) F X (pa_matcher P) (pa_secs P) I (api_view S, sy_tickets S) = ((A, T), status)"
      by (metis surj_pair)
    have "ap_engine A = sy_engine S" using api_engine [OF r] by (simp add: api_view_def Let_def)
    with ApiRequest step e mono r show ?thesis by (auto simp: serve_api_request_def put_api_def sys_ok_def)
  qed (use step e mono in \<open>auto simp: sys_ok_def on_server_def\<close>)
qed

lemma sys_run_ok:
  "sys_ok (max_connections (engine_cfg (pa_cfg P))) n S \<Longrightarrow> n + length es < 2 ^ 64 \<Longrightarrow> sys_run P es S = Some S'
   \<Longrightarrow> sys_ok (max_connections (engine_cfg (pa_cfg P))) (n + length es) S'"
proof (induction es arbitrary: n S)
  case (Cons e es)
  from Cons.prems(3) obtain S1 where "sys_step P e S = Some S1" "sys_run P es S1 = Some S'" by (auto split: option.splits)
  with sys_step_ok [OF Cons.prems(1), of e S1] Cons.IH [of "Suc n" S1] Cons.prems(2) show ?case by simp
qed simp

text \<open>C2: in every run of a started server, whatever clients do over SOCKS5, SSH and the management interface, whatever is
  reloaded, signalled or cleaned up between, and in whatever order relays start and end, the connections counted globally and
  for each user are exactly the live relays, at most the configured number, and the table of sessions holds exactly
  one session for each.\<close>

theorem system_connections_exact:
  assumes "start_system L K writable now start cfg path d = (d', Inr (S, key))" and "pa_cfg P = ssh_front_config_of cfg"
    and "sys_run P es S = Some S'" and "length es < 2 ^ 64"
  shows "length (sy_live S') \<le> unat (lc_max_connections (ac_limits cfg))
    \<and> unat (active_connections (eng_slots (sy_engine S'))) = length (sy_live S')
    \<and> (\<forall>u. unat (count_of (eng_slots (sy_engine S')) u) = count_list (map lv_guard (sy_live S')) u)
    \<and> distinct (live_ids (sy_live S')) \<and> set (map fst (active_sessions (sy_engine S'))) = set (live_ids (sy_live S'))"
proof -
  have S: "sy_live S = []" "sy_engine S = engine_new (engine_config_of cfg)"
    using assms(1) by (auto simp: start_system_def split: sum.splits prod.splits)
  have "sys_ok (max_connections (engine_cfg (pa_cfg P))) 0 S"
    by (simp add: sys_ok_def relays_ok_def conns_ok_def sessions_ok_def live_ids_def S engine_new_def active_connections_def count_of_def dm_ok_def)
  from sys_run_ok [OF this _ assms(3)] assms(4) show ?thesis
    by (simp add: sys_ok_def relays_ok_def conns_ok_def assms(2) ssh_front_config_of_def engine_config_of_def)
qed

subsection \<open>Every live relay is of a user who proved an identity\<close>

text \<open>Nothing is being served, as after the start.\<close>

definition idle :: "('net, 'pk, 'fp, 'l, 'f) system \<Rightarrow> bool" where
  "idle S \<longleftrightarrow> sy_live S = [] \<and> sy_spawned S = [] \<and> sy_handlers S = []"

lemma start_idle: "start_system L K writable now start cfg path d = (d', Inr (S, key)) \<Longrightarrow> idle S"
  by (auto simp: start_system_def idle_def split: sum.splits prod.splits)

text \<open>The client of a SOCKS5 connection passed the gate and proved to be the user by a password.\<close>

definition socks_proof ::
  "('net, 'pk, 'h, 'cert, 'fp, 'l, 'f) libs \<Rightarrow> socks_config \<Rightarrow> clock \<Rightarrow> client_peer \<Rightarrow> ('net, 'pk, 'fp, 'l, 'f) app_context \<Rightarrow> string \<Rightarrow> bool" where
  "socks_proof L cfg t cl ctx u \<longleftrightarrow>
     snd (pre_auth_check (lib_net L) (lib_gov L) (lib_f64 L) (at_pre_auth t) (client_ip cl) (security ctx)) = Inr ()
     \<and> (\<exists>methods bs creds bs' used code usr. read_greeting (client_bytes cl) = Inr (methods, bs) \<and> read_credentials bs = Inr (creds, bs')
          \<and> cred_username creds = u \<and> password_phase L cfg (at_auth t) creds (auth_svc ctx) (used_codes ctx) = Some (used, True, True, code, Some usr))"

fun vouches :: "('net, 'pk, 'h, 'cert, 'fp, 'l, 'f) params \<Rightarrow> stamps \<times> ('net, 'pk) event \<Rightarrow> ('net, 'pk, 'fp, 'l, 'f) system \<Rightarrow> string \<Rightarrow> bool" where
  "vouches P (st, SocksConnect W t proto stalls g cl) S u = socks_proof (pa_libs P) (socks_config.truncate (pa_cfg P)) t cl (context_of S) u"
| "vouches P (st, SshEvent i t ev) S u = (\<exists>peer r. proves (pa_libs P) (pa_cfg P) peer u (ev, t, context_of S, r))"
| "vouches P _ S u = False"

text \<open>Some event of the run, in the state it met, proved the user's identity.\<close>

definition vouched ::
  "('net, 'pk, 'h, 'cert, 'fp, 'l, 'f) params \<Rightarrow> (stamps \<times> ('net, 'pk) event) list \<Rightarrow> ('net, 'pk, 'fp, 'l, 'f) system \<Rightarrow> string \<Rightarrow> bool" where
  "vouched P es S u \<longleftrightarrow> (\<exists>es1 e es2 S1. es = es1 @ e # es2 \<and> sys_run P es1 S = Some S1 \<and> vouches P e S1 u)"

lemma sys_run_snoc: "sys_run P (es @ [e]) S = (case sys_run P es S of None \<Rightarrow> None | Some S1 \<Rightarrow> sys_step P e S1)"
  by (induction es arbitrary: S) (auto split: option.split)

lemma vouched_more: "vouched P es S u \<Longrightarrow> vouched P (es @ [e]) S u"
  unfolding vouched_def by (metis append_Cons append_assoc)

lemma vouched_now: "sys_run P es S = Some S1 \<Longrightarrow> vouches P e S1 u \<Longrightarrow> vouched P (es @ [e]) S u"
  unfolding vouched_def by blast

definition identities_ok ::
  "('net, 'pk, 'h, 'cert, 'fp, 'l, 'f) params \<Rightarrow> (stamps \<times> ('net, 'pk) event) list \<Rightarrow> ('net, 'pk, 'fp, 'l, 'f) system
     \<Rightarrow> ('net, 'pk, 'fp, 'l, 'f) system \<Rightarrow> bool" where
  "identities_ok P es S0 S \<longleftrightarrow>
     (\<forall>r \<in> set (sy_live S). vouched P es S0 (sess_username (lv_session r)))
   \<and> (\<forall>x \<in> set (sy_spawned S). vouched P es S0 (req_username (sp_request x)))
   \<and> (\<forall>(h, g) \<in> set (sy_handlers S). handler_inv h
        \<and> (cs_authenticated (h_session h) \<longrightarrow> (\<exists>u. cs_username (h_session h) = Some u \<and> vouched P es S0 u)))"

lemma identities_more: "identities_ok P es S0 S \<Longrightarrow> identities_ok P (es @ [e]) S0 S"
  unfolding identities_ok_def by (fastforce intro: vouched_more)

lemma parts_kept [simp]:
  "sy_spawned (observe F st os S) = sy_spawned S" "sy_handlers (observe F st os S) = sy_handlers S"
  "sy_spawned (put_context ctx S) = sy_spawned S" "sy_handlers (put_context ctx S) = sy_handlers S"
  "sy_spawned (put_api A S) = sy_spawned S" "sy_handlers (put_api A S) = sy_handlers S" "sy_live (put_api A S) = sy_live S"
  "sy_spawned (on_server f S) = sy_spawned S" "sy_handlers (on_server f S) = sy_handlers S" "sy_live (on_server f S) = sy_live S"
  by (simp_all add: observe_def put_context_def put_api_def on_server_def Let_def case_prod_beta)

lemma set_drop_nth: "set (drop_nth i xs) \<subseteq> set xs"
  by (auto simp: drop_nth_def dest: in_set_takeD in_set_dropD)

lemma handshake_proof:
  assumes "socks5_handshake L W cfg t cl ctx = (ctx', out, Relay ri)"
  shows "socks_proof L cfg t cl ctx (ri_username ri)"
  using assms
proof (rule socks5_handshake_Relay)
  fix methods bs creds bs' used code usr ctx2
  assume pre: "snd (pre_auth_check (lib_net L) (lib_gov L) (lib_f64 L) (at_pre_auth t) (client_ip cl) (security ctx)) = Inr ()"
    "read_greeting (client_bytes cl) = Inr (methods, bs)" "read_credentials bs = Inr (creds, bs')"
    "password_phase L cfg (at_auth t) creds (auth_svc ctx) (used_codes ctx) = Some (used, True, True, code, Some usr)"
    and req: "request_phase L W cfg cl creds usr bs' [send_method_selection AUTH_PASSWORD, send_auth_result True]
       (fst (admission L cfg t (client_ip cl) (cred_username creds) usr ctx2)) = (ctx', out, Relay ri)"
  have "cred_username creds = ri_username ri"
    using req by (auto simp: request_phase_def Let_def case_prod_beta split: sum.splits if_splits)
  with pre show ?thesis by (auto simp: socks_proof_def)
qed

lemma forward_user:
  assumes "ssh_step L K cfg t ev ctx h = Some (ctx', h', Forward (Some req))"
  shows "cs_authenticated (h_session h) \<and> cs_username (h_session h) = Some (req_username req)"
proof (cases ev)
  case (OpenDirectTcpip host p)
  with assms obtain usr name port where "validate_forwarding_request L cfg t p h ctx = (ctx', Some (usr, name, port))" "req_username req = name"
    by (auto simp: channel_open_direct_tcpip_def split: prod.splits option.splits)
  with validate_forwarding_Some show ?thesis by blast
qed (use assms in \<open>auto split: prod.splits\<close>)

lemma socks_connect_identities:
  assumes ok: "identities_ok P es S0 S" and run: "sys_run P es S0 = Some S" and step: "socks_connect P st W t proto stalls g cl S = Some S'"
  shows "identities_ok P (es @ [(st, SocksConnect W t proto stalls g cl)]) S0 S'"
proof -
  let ?cfg = "socks_config.truncate (pa_cfg P)" and ?e = "(st, SocksConnect W t proto stalls g cl)"
  obtain ctx out e where H: "socks5_handshake (pa_libs P) W ?cfg t cl (context_of S) = (ctx, out, e)" by (metis prod_cases3)
  obtain c o' e' os where X: "socks5_handshake_obs (pa_libs P) W ?cfg t stalls g cl (context_of S) = (c, o', e', os)" by (metis prod_cases4)
  have e': "\<And>ri. e' = Finished (Relay ri) \<longleftrightarrow> e = Relay ri"
    using socks5_handshake_obs_state [of "pa_libs P" W ?cfg t stalls g cl "context_of S"] by (simp add: H X)
  note more = identities_more [OF ok, of ?e]
  show ?thesis
  proof (cases "\<exists>ri. e = Relay ri")
    case False
    then have "sy_live S' = sy_live S" "sy_spawned S' = sy_spawned S" "sy_handlers S' = sy_handlers S"
      using step e' by (auto simp: socks_connect_def X Let_def split: hs_outcome.splits handshake_end.splits)
    with more show ?thesis by (simp add: identities_ok_def)
  next
    case True
    then obtain ri where e: "e = Relay ri" by blast
    then have "e' = Finished (Relay ri)" using e' by simp
    then obtain r where S': "sy_live S' = sy_live S @ [r]" "sess_username (lv_session r) = ri_username ri"
      "sy_spawned S' = sy_spawned S" "sy_handlers S' = sy_handlers S"
      using step by (auto simp: socks_connect_def X register_session_obs_def register_session_def Let_def)
    have "vouched P (es @ [?e]) S0 (ri_username ri)"
      by (rule vouched_now [OF run]) (simp add: handshake_proof [OF H [unfolded e]])
    with more S' show ?thesis by (simp add: identities_ok_def)
  qed
qed

lemma ssh_event_identities:
  assumes ok: "identities_ok P es S0 S" and run: "sys_run P es S0 = Some S" and step: "ssh_event P st i t ev S = Some S'"
  shows "identities_ok P (es @ [(st, SshEvent i t ev)]) S0 S'"
proof (cases "i \<ge> length (sy_handlers S)")
  case True
  with step identities_more [OF ok] show ?thesis by (simp add: ssh_event_def)
next
  case False
  let ?e = "(st, SshEvent i t ev)"
  obtain h g where hg: "sy_handlers S ! i = (h, g)" by fastforce
  from False step hg obtain ctx h' r os where X: "ssh_step_obs (pa_libs P) (pa_ssh P) (pa_cfg P) t g ev (context_of S) h = Some (ctx, h', r, os)"
    and S': "sy_live S' = sy_live S" "sy_handlers S' = (sy_handlers S)[i := (h', g)]"
      "sy_spawned S' = sy_spawned S @ (case r of Forward (Some req) \<Rightarrow> [\<lparr>sp_request = req, sp_peer = ssh_peer_of g h, sp_cid = tag_cid g\<rparr>] | _ \<Rightarrow> [])"
    by (auto simp: ssh_event_def Let_def split: option.splits)
  have P: "ssh_step (pa_libs P) (pa_ssh P) (pa_cfg P) t ev (context_of S) h = Some (ctx, h', r)"
    using ssh_step_obs_map [of "pa_libs P" "pa_ssh P" "pa_cfg P" t g ev "context_of S" h] X by simp
  have "(h, g) \<in> set (sy_handlers S)" using False hg by (metis not_le nth_mem)
  then have inv: "handler_inv h" and id: "cs_authenticated (h_session h) \<Longrightarrow> \<exists>u. cs_username (h_session h) = Some u \<and> vouched P (es @ [?e]) S0 u"
    using identities_more [OF ok, of ?e] by (auto simp: identities_ok_def)
  have new: "handler_inv h' \<and> (cs_authenticated (h_session h') \<longrightarrow> (\<exists>u. cs_username (h_session h') = Some u \<and> vouched P (es @ [?e]) S0 u))"
    using ssh_step_facts [OF P inv] id vouched_now [OF run, of ?e] by auto
  have "vouched P (es @ [?e]) S0 (req_username req)" if "r = Forward (Some req)" for req
    using forward_user [OF P [unfolded that]] id by auto
  then have "\<forall>x \<in> set (sy_spawned S'). vouched P (es @ [?e]) S0 (req_username (sp_request x))"
    using identities_more [OF ok, of ?e] S'(3) by (auto simp: identities_ok_def split: ssh_result.splits option.splits)
  moreover have "\<forall>(k, j) \<in> set (sy_handlers S'). handler_inv k
      \<and> (cs_authenticated (h_session k) \<longrightarrow> (\<exists>u. cs_username (h_session k) = Some u \<and> vouched P (es @ [?e]) S0 u))"
    using new identities_more [OF ok, of ?e] set_update_subset_insert [of "sy_handlers S" i "(h', g)"]
    unfolding S'(2) identities_ok_def by fast
  ultimately show ?thesis using identities_more [OF ok, of ?e] S'(1) by (simp add: identities_ok_def)
qed

lemma sys_step_identities:
  assumes ok: "identities_ok P es S0 S" and run: "sys_run P es S0 = Some S" and step: "sys_step P e S = Some S'"
  shows "identities_ok P (es @ [e]) S0 S'"
proof -
  obtain st ev where e: "e = (st, ev)" by fastforce
  note more = identities_more [OF ok, of e]
  show ?thesis
  proof (cases ev)
    case (SocksConnect W t proto stalls g cl)
    then show ?thesis using step e more socks_connect_identities [OF ok run] by (auto split: if_splits)
  next
    case (SshEvent i t sev)
    then show ?thesis using step e ssh_event_identities [OF ok run] by auto
  next
    case (SshConnect now peer g)
    have "handler_inv (handler_new now peer) \<and> \<not> cs_authenticated (h_session (handler_new now peer))"
      by (simp add: handler_new_def client_session_new_def handler_inv_def shells_ok_def)
    then show ?thesis using SshConnect step e more by (auto simp: identities_ok_def)
  next
    case (SshRelayStart i W now)
    let ?S = "ssh_relay_start P st i W now S"
    have "\<forall>x \<in> set (sy_spawned ?S). x \<in> set (sy_spawned S)" "sy_handlers ?S = sy_handlers S"
      and "\<forall>r \<in> set (sy_live ?S). r \<in> set (sy_live S) \<or> (\<exists>x \<in> set (sy_spawned S). sess_username (lv_session r) = req_username (sp_request x))"
      using set_drop_nth [of i "sy_spawned S"]
      by (auto simp: ssh_relay_start_def register_session_obs_def register_session_def Let_def case_prod_beta not_le split: sum.split)
    then show ?thesis using more step e SshRelayStart unfolding identities_ok_def by force
  next
    case (RelayEnd i now ms evs)
    then show ?thesis using more step e set_drop_nth [of i "sy_live S"]
      by (auto simp: identities_ok_def relay_end_def Let_def case_prod_beta split: if_splits)
  next
    case (ApiRequest F X I)
    then show ?thesis using more step e by (auto simp: identities_ok_def serve_api_request_def case_prod_beta split: if_splits)
  qed (use step e more in \<open>auto simp: identities_ok_def\<close>)
qed

text \<open>C1: in every run from a state in which nothing is served, as after the start, every relay that is live was started for a user who proved to be that user
  earlier in the run, over SOCKS5 by a password or over SSH by a password with its code or a key, against the users
  the server knew at that moment and from an address the gate let through.\<close>

theorem live_relays_authenticated:
  assumes "idle S" and "sys_run P es S = Some S'" and "r \<in> set (sy_live S')"
  shows "\<exists>es1 e es2 S1. es = es1 @ e # es2 \<and> sys_run P es1 S = Some S1 \<and> vouches P e S1 (sess_username (lv_session r))"
proof -
  have "sys_run P es S = Some S' \<Longrightarrow> identities_ok P es S S'" for S'
  proof (induction es arbitrary: S' rule: rev_induct)
    case Nil
    then show ?case using assms(1) by (simp add: identities_ok_def idle_def)
  next
    case (snoc e es)
    then obtain S1 where "sys_run P es S = Some S1" "sys_step P e S1 = Some S'" by (auto simp: sys_run_snoc split: option.splits)
    with sys_step_identities snoc.IH show ?case by blast
  qed
  with assms(2,3) show ?thesis by (auto simp: identities_ok_def vouched_def)
qed

subsection \<open>The halves of a connection\<close>

lemma context_observe [simp]: "context_of (observe F st os S) = context_of S"
  by (simp add: context_of_def observe_def Let_def case_prod_beta)

lemma context_put [simp]: "context_of (put_context ctx S) = ctx"
  by (simp add: context_of_def put_context_def)

lemma context_live [simp]:
  "context_of (S\<lparr>sy_live := l\<rparr>) = context_of S" "context_of (S\<lparr>sy_spawned := q\<rparr>) = context_of S"
  "context_of (S\<lparr>sy_engine := G\<rparr>) = (context_of S)\<lparr>proxy_engine := G\<rparr>"
  by (simp_all add: context_of_def)

lemma context_relay_end:
  assumes "sy_live S = live @ [r]"
  shows "context_of (relay_end P st (length live) now ms evs S) =
     (context_of S)\<lparr>quota := unwrap_or (env_tracker (fst (relay (lib_chrono (pa_libs P)) (lib_f64 (pa_libs P)) now (lv_cfg r)
                      (Some (quota (context_of S))) (Some (lv_session r)) evs))) (quota (context_of S)),
        proxy_engine := release (lv_guard r) (unregister_session (session_id (lv_session r)) (sy_engine S))\<rparr>"
  using assms by (simp add: relay_end_def Let_def case_prod_beta) (simp add: context_of_def)

lemma socks_halves:
  assumes "socks_connect P st W t proto stalls g cl S = Some S1"
  shows "fst (handle_connection_obs (pa_libs P) W (socks_config.truncate (pa_cfg P)) t proto stalls g ms evs cl (context_of S)) =
    (if sy_live S1 = sy_live S then context_of S1 else context_of (relay_end P st' (length (sy_live S)) (at_relay t) ms evs S1))"
proof -
  let ?cfg = "socks_config.truncate (pa_cfg P)"
  obtain c out e os where X: "socks5_handshake_obs (pa_libs P) W ?cfg t stalls g cl (context_of S) = (c, out, e, os)" by (metis prod_cases4)
  show ?thesis
  proof (cases "\<exists>ri. e = Finished (Relay ri)")
    case False
    with assms show ?thesis
      by (auto simp: socks_connect_def handle_connection_obs_def X Let_def split: hs_outcome.splits handshake_end.splits)
  next
    case True
    then obtain ri where e: "e = Finished (Relay ri)" by blast
    obtain G s where R: "register_session (at_relay t) (ri_username ri) (ri_host ri) (ri_port ri) (client_ip_text cl) proto (proxy_engine c) = (G, s)"
      by (metis prod.collapse)
    from assms obtain r where S1: "sy_live S1 = sy_live S @ [r]" "context_of S1 = c\<lparr>proxy_engine := G\<rparr>" "sy_engine S1 = G"
      and r: "lv_guard r = ri_guard ri" "lv_session r = s" "lv_cfg r = to_relay_config ri (limits_idle_timeout (engine_cfg ?cfg))"
      by (auto simp: socks_connect_def X e register_session_obs_def R Let_def)
    show ?thesis
      by (simp add: S1 context_relay_end [OF S1(1)] r handle_connection_obs_def X e register_session_obs_def R Let_def case_prod_beta unwrap_or_def
          split: option.split)
  qed
qed

lemma ssh_halves:
  assumes "i < length (sy_spawned S)"
  shows "fst (run_relay_obs (pa_libs P) W (pa_cfg P) now peer cid ms evs (sp_request (sy_spawned S ! i)) (context_of S)) =
    (let S1 = ssh_relay_start P st i W now S in
     if sy_live S1 = sy_live S then context_of S1 else context_of (relay_end P st' (length (sy_live S)) now ms evs S1))"
proof -
  let ?req = "sp_request (sy_spawned S ! i)" and ?S1 = "ssh_relay_start P st i W now S"
  let ?C = "connect_checked (lib_net (pa_libs P)) W (engine_cfg (pa_cfg P)) (req_username ?req) (req_host ?req) (req_port ?req) (req_user_acl ?req)
      (req_max_per_user ?req) (req_upstream_proxy ?req) (sy_engine S)"
  obtain G r where C: "?C = (G, r)" by (metis prod.collapse)
  show ?thesis
  proof (cases r)
    case (Inl e)
    have "sy_live ?S1 = sy_live S" "context_of ?S1 = (context_of S)\<lparr>proxy_engine := G\<rparr>"
      using assms C Inl by (simp_all add: ssh_relay_start_def Let_def case_prod_beta)
    with C Inl show ?thesis by (simp add: run_relay_obs_fst run_relay_def connect_and_relay_def Let_def)
  next
    case (Inr z)
    obtain sk a grd where z: "z = (sk, a, grd)" by (metis prod_cases3)
    obtain G2 s where R: "register_session now (req_username ?req) (req_host ?req) (req_port ?req) (req_source_ip ?req) ''ssh'' G = (G2, s)"
      by (metis prod.collapse)
    obtain lr where S1: "sy_live ?S1 = sy_live S @ [lr]" "context_of ?S1 = (context_of S)\<lparr>proxy_engine := G2\<rparr>" "sy_engine ?S1 = G2"
      and lr: "lv_guard lr = grd" "lv_session lr = s" "lv_cfg lr = \<lparr>idle_timeout = from_secs (limits_idle_timeout (engine_cfg (pa_cfg P))),
        per_conn_bandwidth_kbps = req_bandwidth_limit_kbps ?req, aggregate_bandwidth_kbps = req_aggregate_bandwidth_kbps ?req,
        relay_username = Some (req_username ?req), relay_quotas = req_quotas ?req\<rparr>"
      using assms C Inr z R by (auto simp: ssh_relay_start_def register_session_obs_def Let_def case_prod_beta)
    show ?thesis
      using C Inr z R
      by (simp add: S1 context_relay_end [OF S1(1)] lr run_relay_obs_fst run_relay_def connect_and_relay_def Let_def case_prod_beta unwrap_or_def
          split: option.split)
  qed
qed

text \<open>The events of the system are the program's: with nothing in between, a SOCKS5 connection followed by the end of its
  relay does to the shared state what \<open>handle_connection\<close> does, and a forwarding task followed by the end of its relay
  what the spawned task does.\<close>

theorem split_connections_compose:
  "(\<forall>S1. socks_connect P st W t proto stalls g cl S = Some S1 \<longrightarrow>
      fst (handle_connection_obs (pa_libs P) W (socks_config.truncate (pa_cfg P)) t proto stalls g ms evs cl (context_of S)) =
        (if sy_live S1 = sy_live S then context_of S1 else context_of (relay_end P st' (length (sy_live S)) (at_relay t) ms evs S1)))
   \<and> (\<forall>i. i < length (sy_spawned S) \<longrightarrow>
      fst (run_relay_obs (pa_libs P) W (pa_cfg P) now peer cid ms evs (sp_request (sy_spawned S ! i)) (context_of S)) =
        (let S1 = ssh_relay_start P st i W now S in
         if sy_live S1 = sy_live S then context_of S1 else context_of (relay_end P st' (length (sy_live S)) now ms evs S1)))"
proof (intro conjI allI impI)
  fix S1 assume "socks_connect P st W t proto stalls g cl S = Some S1"
  then show "fst (handle_connection_obs (pa_libs P) W (socks_config.truncate (pa_cfg P)) t proto stalls g ms evs cl (context_of S)) =
      (if sy_live S1 = sy_live S then context_of S1 else context_of (relay_end P st' (length (sy_live S)) (at_relay t) ms evs S1))"
    by (rule socks_halves)
next
  fix i assume "i < length (sy_spawned S)"
  then show "fst (run_relay_obs (pa_libs P) W (pa_cfg P) now peer cid ms evs (sp_request (sy_spawned S ! i)) (context_of S)) =
      (let S1 = ssh_relay_start P st i W now S in
       if sy_live S1 = sy_live S then context_of S1 else context_of (relay_end P st' (length (sy_live S)) now ms evs S1))"
    by (rule ssh_halves)
qed

subsection \<open>A concrete run\<close>

definition sample_params :: "(ipaddr, unit, string, unit, unit, nat, int) params" where
  "sample_params = \<lparr>pa_libs = sample_libs, pa_cfg = sample_ssh_config\<lparr>totp_required_for := [''socks5'']\<rparr>, pa_ssh = sample_ssh_ops, pa_api = sample_api_ops,
     pa_matcher = simple_match, pa_secs = int, pa_windows = []\<rparr>"

definition sample_system :: "(ipaddr, unit, unit, nat, int) system" where
  "sample_system =
     \<lparr>sy_server = \<lparr>srv_auth = auth_svc sample_context, srv_security = security sample_context, srv_quota = quota sample_context,
        srv_metrics = metrics_new 10, srv_audit = audit_new, srv_maintenance = False, srv_shutdown = False\<rparr>,
      sy_engine = proxy_engine sample_context, sy_codes = used_codes sample_context, sy_web = sample_api, sy_api_on = True, sy_tickets = [],
      sy_handlers = [], sy_spawned = [], sy_live = []\<rparr>"

definition sample_tag :: conn_tag where
  "sample_tag = \<lparr>tag_port = 4000, tag_cid = ''c''\<rparr>"

definition sample_event :: "stamps \<times> (ipaddr, unit) event" where
  "sample_event = (\<lparr>st_now = (\<lambda>_. 0), st_taken = (\<lambda>_. 0)\<rparr>,
     SocksConnect sample_network sample_clock ''socks5'' False sample_tag (sample_client ''pw:123456''))"

lemma sample_run: "\<exists>S' r. sys_run sample_params [sample_event] sample_system = Some S' \<and> sy_live S' = [r]"
proof -
  have cfg: "socks_config.truncate (pa_cfg sample_params) = sample_socks_config"
    by (simp add: sample_params_def sample_ssh sample_socks_config_def)
  have ctx: "context_of sample_system = sample_context" by (simp add: context_of_def sample_system_def)
  let ?H = "socks5_handshake_obs sample_libs sample_network sample_socks_config sample_clock False sample_tag
      (sample_client ''pw:123456'') sample_context"
  obtain ri where "snd (snd (socks5_handshake sample_libs sample_network sample_socks_config sample_clock (sample_client ''pw:123456'') sample_context)) = Relay ri"
    using sample_relay by (metis is_relay.elims(2))
  then have "fst (snd (snd ?H)) = Finished (Relay ri)"
    using socks5_handshake_obs_state [of sample_libs sample_network sample_socks_config sample_clock False sample_tag
        "sample_client ''pw:123456''" sample_context ri] by blast
  then obtain c out os where H: "?H = (c, out, Finished (Relay ri), os)" by (metis prod.collapse)
  obtain G s where R: "register_session (at_relay sample_clock) (ri_username ri) (ri_host ri) (ri_port ri) (client_ip_text (sample_client ''pw:123456''))
      ''socks5'' (proxy_engine c) = (G, s)" by (metis prod.collapse)
  have base: "pa_libs sample_params = sample_libs" "sy_live sample_system = []" "\<not> srv_shutdown (sy_server sample_system)"
    by (simp_all add: sample_params_def sample_system_def)
  show ?thesis by (simp add: sample_event_def socks_connect_def base cfg ctx H register_session_obs_def R Let_def)
qed

theorem live_relays_authenticated_witness:
  "\<exists>S' r. sys_run sample_params [sample_event] sample_system = Some S' \<and> r \<in> set (sy_live S')
     \<and> vouches sample_params sample_event sample_system (sess_username (lv_session r))"
proof -
  obtain S' r where S': "sys_run sample_params [sample_event] sample_system = Some S'" "sy_live S' = [r]" using sample_run by blast
  have "idle sample_system" by (simp add: idle_def sample_system_def)
  from live_relays_authenticated [OF this S'(1), of r] S' show ?thesis by (auto simp: Cons_eq_append_conv)
qed

theorem system_connections_exact_witness:
  "\<exists>S' d' S key. start_system sample_libs \<lparr>decode_secret_key = Some, encode_pkcs8_pem = Some, random_ed25519 = Some ''k''\<rparr> True 0 0 sample_app_config
       None [] = (d', Inr (S, key))
     \<and> sys_run (sample_params\<lparr>pa_cfg := ssh_front_config_of sample_app_config\<rparr>) [(fst sample_event, SshConnect 0 (V4 192 0 2 7) sample_tag), (fst sample_event, Sigusr1), (fst sample_event, RelayEnd 0 0 0 [])] S = Some S'
     \<and> unat (active_connections (eng_slots (sy_engine S'))) = length (sy_live S')"
proof -
  let ?K = "\<lparr>decode_secret_key = Some, encode_pkcs8_pem = Some, random_ed25519 = Some ''k''\<rparr>"
  let ?P = "sample_params\<lparr>pa_cfg := ssh_front_config_of sample_app_config\<rparr>"
  have "\<exists>svc. auth_new_of sample_net sample_user_ops sample_auth_ops sample_app_config = Inr svc"
    using validated_auth [OF sample_config_valid, of sample_user_ops sample_auth_ops]
    by (auto simp: sample_app_config_def app_config_default_def expiry_parses_def user_config_default_def)
  then obtain d' S key where S: "start_system sample_libs ?K True 0 0 sample_app_config None [] = (d', Inr (S, key))"
    by (auto simp: start_system_def server_new_def sample_libs_def load_or_generate_host_key_def save_host_key_def dm_contains_def)
  obtain S' where run: "sys_run ?P [(fst sample_event, SshConnect 0 (V4 192 0 2 7) sample_tag), (fst sample_event, Sigusr1), (fst sample_event, RelayEnd 0 0 0 [])] S = Some S'" by simp
  from system_connections_exact [OF S _ run] S run show ?thesis by auto
qed

theorem split_connections_compose_witness:
  "\<exists>S1. sys_run sample_params [sample_event] sample_system = Some S1
     \<and> fst (handle_connection_obs sample_libs sample_network (socks_config.truncate (pa_cfg sample_params)) sample_clock ''socks5'' False sample_tag 5 []
         (sample_client ''pw:123456'') (context_of sample_system)) =
       context_of (relay_end sample_params (fst sample_event) 0 (at_relay sample_clock) 5 [] S1)"
proof -
  obtain S1 r where S1: "sys_run sample_params [sample_event] sample_system = Some S1" "sy_live S1 = [r]" using sample_run by blast
  have base: "pa_libs sample_params = sample_libs" "sy_live sample_system = []" "\<not> srv_shutdown (sy_server sample_system)"
    by (simp_all add: sample_params_def sample_system_def)
  have "socks_connect sample_params (fst sample_event) sample_network sample_clock ''socks5'' False sample_tag (sample_client ''pw:123456'') sample_system = Some S1"
    using S1(1) by (simp add: sample_event_def base(3) split: option.splits)
  with split_connections_compose [where P = sample_params and st = "fst sample_event" and W = sample_network and t = sample_clock and proto = "''socks5''"
      and stalls = False and g = sample_tag and cl = "sample_client ''pw:123456''" and S = sample_system and ms = 5 and evs = "[]" and st' = "fst sample_event"]
  show ?thesis using S1 base by auto
qed

end
