(* ===== verification/Presets.thy ===== *)
theory Presets
  imports Listeners
begin

text \<open>
  Models the texts the command line writes as configuration files: the presets of \<open>src/config/presets.rs\<close> and
  \<open>generate_config_toml\<close> of \<open>src/main.rs\<close>. A text is built line by line. What a line sets is read off by
  \<^verbatim>\<open>toml_setting\<close>, the meaning of the flat subset of TOML these texts use.
\<close>

subsection \<open>Texts\<close>

definition double_quote :: string where
  "double_quote = [char_of (34 :: nat)]"

definition line_feed :: string where
  "line_feed = [char_of (10 :: nat)]"

definition em_dash :: string where
  "em_dash = map char_of [226, 128, 148 :: nat]"

definition quoted :: "string \<Rightarrow> string" where
  "quoted s = double_quote @ s @ double_quote"

fun join_with :: "string \<Rightarrow> string list \<Rightarrow> string" where
  "join_with sep [] = []"
| "join_with sep [x] = x"
| "join_with sep (x # y # ys) = x @ sep @ join_with sep (y # ys)"

definition toml_array :: "string list \<Rightarrow> string" where
  "toml_array xs = ''['' @ join_with '', '' xs @ '']''"

definition kv :: "string \<Rightarrow> string \<Rightarrow> string" where
  "kv key v = key @ '' = '' @ v"

definition unlines :: "string list \<Rightarrow> string" where
  "unlines ls = concat (map (\<lambda>l. l @ line_feed) ls)"

definition bastion_lines :: "string \<Rightarrow> string \<Rightarrow> string \<Rightarrow> string list" where
  "bastion_lines version username password_hash =
     [''# s5 bastion preset '' @ em_dash @ '' high security, deny-default'', ''[server]'',
      kv ''ssh_listen'' (quoted ''0.0.0.0:2222''), kv ''host_key_path'' (quoted ''host_key''),
      kv ''server_id'' (quoted (''SSH-2.0-s5_'' @ version)), kv ''banner'' (quoted ''Authorized access only''),
      kv ''shutdown_timeout'' ''30'', '''', ''[shell]'', kv ''hostname'' (quoted ''bastion''),
      kv ''prompt'' (quoted ''bastion$ ''), '''', ''[limits]'', kv ''max_connections'' ''100'',
      kv ''max_connections_per_user'' ''5'', kv ''connection_timeout'' ''300'', kv ''idle_timeout'' ''600'',
      kv ''max_auth_attempts'' ''3'', kv ''socks5_handshake_timeout'' ''15'', '''', ''[security]'', kv ''ban_enabled'' ''true'',
      kv ''ban_threshold'' ''3'', kv ''ban_window'' ''300'', kv ''ban_duration'' ''3600'', kv ''ip_guard_enabled'' ''true'',
      kv ''totp_required_for'' (toml_array [quoted ''ssh'', quoted ''socks5'']), '''', ''[logging]'',
      kv ''level'' (quoted ''info''), kv ''format'' (quoted ''json''), kv ''audit_log_path'' (quoted ''audit.log''),
      kv ''audit_max_size_mb'' ''100'', kv ''audit_max_files'' ''10'', '''', ''[metrics]'', kv ''enabled'' ''true'',
      kv ''listen'' (quoted ''127.0.0.1:9090''), '''', ''[api]'', kv ''enabled'' ''true'',
      kv ''listen'' (quoted ''127.0.0.1:9091''), kv ''token'' (quoted ''CHANGE-ME-TO-A-RANDOM-TOKEN''), '''', ''[acl]'',
      kv ''default_policy'' (quoted ''deny''), kv ''allow'' (toml_array []),
      kv ''deny'' (toml_array [quoted ''169.254.169.254:*'', quoted ''10.0.0.0/8:*'', quoted ''172.16.0.0/12:*'', quoted ''192.168.0.0/16:*'']),
      '''', ''[[users]]'', kv ''username'' (quoted username), kv ''password_hash'' (quoted password_hash),
      kv ''allow_forwarding'' ''true'', kv ''allow_shell'' ''true'', kv ''totp_enabled'' ''true'', kv ''role'' (quoted ''admin''),
      '''', ''[users.acl]'', kv ''default_policy'' (quoted ''deny''),
      kv ''allow'' (toml_array [quoted ''*:443'', quoted ''*:80'', quoted ''*:8080'', quoted ''*:8443'']),
      kv ''deny'' (toml_array [])]"

definition proxy_lines :: "string \<Rightarrow> string \<Rightarrow> string \<Rightarrow> string list" where
  "proxy_lines version username password_hash =
     [''# s5 proxy preset '' @ em_dash @ '' permissive forwarding proxy'', ''[server]'',
      kv ''ssh_listen'' (quoted ''0.0.0.0:2222''), kv ''socks5_listen'' (quoted ''0.0.0.0:1080''),
      kv ''host_key_path'' (quoted ''host_key''), kv ''server_id'' (quoted (''SSH-2.0-s5_'' @ version)),
      kv ''banner'' (quoted ''Welcome to s5 proxy''), kv ''dns_cache_ttl'' ''300'', kv ''connect_retry'' ''2'', '''', ''[shell]'',
      kv ''hostname'' (quoted ''s5-proxy''), kv ''prompt'' (quoted ''$ ''), '''', ''[limits]'', kv ''max_connections'' ''1000'',
      kv ''max_connections_per_user'' ''50'', kv ''connection_timeout'' ''300'', kv ''idle_timeout'' ''0'',
      kv ''max_auth_attempts'' ''5'', kv ''socks5_handshake_timeout'' ''30'', '''', ''[security]'', kv ''ban_enabled'' ''true'',
      kv ''ban_threshold'' ''10'', kv ''ban_window'' ''300'', kv ''ban_duration'' ''600'', kv ''ip_guard_enabled'' ''true'', '''',
      ''[logging]'', kv ''level'' (quoted ''info''), kv ''format'' (quoted ''pretty''), '''', ''[metrics]'',
      kv ''enabled'' ''true'', kv ''listen'' (quoted ''127.0.0.1:9090''), '''', ''[api]'', kv ''enabled'' ''true'',
      kv ''listen'' (quoted ''127.0.0.1:9091''), kv ''token'' (quoted ''CHANGE-ME-TO-A-RANDOM-TOKEN''), '''', ''[acl]'',
      kv ''default_policy'' (quoted ''allow''), kv ''allow'' (toml_array []),
      kv ''deny'' (toml_array [quoted ''169.254.169.254:*'']), '''', ''[[users]]'', kv ''username'' (quoted username),
      kv ''password_hash'' (quoted password_hash), kv ''allow_forwarding'' ''true'', kv ''allow_shell'' ''true'', '''',
      ''[users.acl]'', kv ''default_policy'' (quoted ''allow''), kv ''deny'' (toml_array [quoted ''169.254.169.254:*''])]"

definition dev_lines :: "string \<Rightarrow> string \<Rightarrow> string \<Rightarrow> string list" where
  "dev_lines version username password_hash =
     [''# s5 dev preset '' @ em_dash @ '' development and testing'', ''[server]'', kv ''ssh_listen'' (quoted ''127.0.0.1:2222''),
      kv ''socks5_listen'' (quoted ''127.0.0.1:1080''), kv ''host_key_path'' (quoted ''host_key''),
      kv ''server_id'' (quoted (''SSH-2.0-s5_'' @ version)), kv ''banner'' (quoted ''s5 dev mode''), '''', ''[shell]'',
      kv ''hostname'' (quoted ''s5-dev''), kv ''prompt'' (quoted ''dev$ ''), kv ''colors'' ''true'', '''', ''[limits]'',
      kv ''max_connections'' ''100'', kv ''connection_timeout'' ''600'', kv ''idle_timeout'' ''0'',
      kv ''max_auth_attempts'' ''10'', kv ''socks5_handshake_timeout'' ''60'', '''', ''[security]'', kv ''ban_enabled'' ''false'',
      kv ''ban_threshold'' ''100'', kv ''ip_guard_enabled'' ''false'', '''', ''[logging]'', kv ''level'' (quoted ''debug''),
      kv ''format'' (quoted ''pretty''), kv ''connection_flow_logs'' ''true'', '''', ''[metrics]'', kv ''enabled'' ''true'',
      kv ''listen'' (quoted ''127.0.0.1:9090''), '''', ''[api]'', kv ''enabled'' ''true'',
      kv ''listen'' (quoted ''127.0.0.1:9091''), kv ''token'' (quoted ''dev-token-change-me''), '''', ''[acl]'',
      kv ''default_policy'' (quoted ''allow''), '''', ''[[users]]'', kv ''username'' (quoted username),
      kv ''password_hash'' (quoted password_hash), kv ''allow_forwarding'' ''true'', kv ''allow_shell'' ''true'',
      kv ''role'' (quoted ''admin''), '''', ''[users.acl]'', kv ''default_policy'' (quoted ''allow'')]"

definition bastion_preset :: "string \<Rightarrow> string \<Rightarrow> string \<Rightarrow> string" where
  "bastion_preset version username password_hash = unlines (bastion_lines version username password_hash)"

definition proxy_preset :: "string \<Rightarrow> string \<Rightarrow> string \<Rightarrow> string" where
  "proxy_preset version username password_hash = unlines (proxy_lines version username password_hash)"

definition dev_preset :: "string \<Rightarrow> string \<Rightarrow> string \<Rightarrow> string" where
  "dev_preset version username password_hash = unlines (dev_lines version username password_hash)"

definition socks_line_of :: "string option \<Rightarrow> string" where
  "socks_line_of socks5_listen =
     (case socks5_listen of
        Some addr \<Rightarrow> kv ''socks5_listen'' (quoted addr)
      | None \<Rightarrow> ''# '' @ kv ''socks5_listen'' (quoted ''0.0.0.0:1080''))"

definition config_lines :: "string \<Rightarrow> string \<Rightarrow> string \<Rightarrow> string option \<Rightarrow> string list" where
  "config_lines username password_hash ssh_listen socks5_listen =
     (let socks_line = socks_line_of socks5_listen in
     [''[server]'', kv ''ssh_listen'' (quoted ssh_listen), socks_line,
      kv ''host_key_path'' (quoted ''host_key'' @ ''           # auto-generated if absent''),
      kv ''server_id'' (quoted ''SSH-2.0-s5''), kv ''banner'' (quoted ''Welcome to s5''), kv ''proxy_protocol'' ''false'', '''',
      ''[shell]'', kv ''hostname'' (quoted ''s5-proxy''), kv ''prompt'' (quoted ''$ ''), '''', ''[limits]'',
      kv ''max_connections'' ''1000'', kv ''max_connections_per_user'' ''10'', kv ''connection_timeout'' ''300'',
      kv ''idle_timeout'' ''0'', kv ''max_auth_attempts'' ''3'', '''', ''[security]'', kv ''allowed_source_ips'' (toml_array []),
      kv ''ban_enabled'' ''true'', kv ''ban_threshold'' ''5'', kv ''ban_window'' ''300'', kv ''ban_duration'' ''900'',
      kv ''ban_whitelist'' (toml_array [quoted ''127.0.0.1'']), '''', ''[logging]'', kv ''level'' (quoted ''info''),
      kv ''format'' (quoted ''pretty''), '''', ''[metrics]'', kv ''enabled'' ''false'', kv ''listen'' (quoted ''127.0.0.1:9090''),
      '''', ''[api]'', kv ''enabled'' ''false'', kv ''listen'' (quoted ''127.0.0.1:9091''), kv ''token'' (quoted ''''), '''',
      ''[geoip]'', kv ''enabled'' ''false'', kv ''allowed_countries'' (toml_array []), kv ''denied_countries'' (toml_array []),
      '''', ''[[users]]'', kv ''username'' (quoted username), kv ''password_hash'' (quoted password_hash),
      kv ''authorized_keys'' (toml_array []), kv ''allow_forwarding'' ''true'', kv ''allow_shell'' ''true'',
      kv ''max_new_connections_per_minute'' ''60'', kv ''max_bandwidth_kbps'' ''0'', kv ''source_ips'' (toml_array []), '''',
      ''[users.acl]'', kv ''default_policy'' (quoted ''allow''), kv ''allow'' (toml_array []),
      kv ''deny'' (toml_array [quoted ''169.254.169.254:*''])])"

definition generate_config_toml :: "string \<Rightarrow> string \<Rightarrow> string \<Rightarrow> string option \<Rightarrow> string" where
  "generate_config_toml username password_hash ssh_listen socks5_listen =
     unlines (config_lines username password_hash ssh_listen socks5_listen)"

subsection \<open>What the lines set\<close>

text \<open>The value text of a key in a section, given by its header line: the first line of the section that starts with
  the key.\<close>

fun setting_in :: "string \<Rightarrow> string \<Rightarrow> string \<Rightarrow> string list \<Rightarrow> string option" where
  "setting_in cur section key [] = None"
| "setting_in cur section key (l # ls) =
     (if starts_with ''['' l then setting_in l section key ls
      else if cur = section \<and> starts_with (key @ '' = '') l then Some (drop (length key + 3) l)
      else setting_in cur section key ls)"

definition toml_setting :: "string \<Rightarrow> string \<Rightarrow> string list \<Rightarrow> string option" where
  "toml_setting = setting_in []"

lemmas preset_lines = kv_def quoted_def double_quote_def em_dash_def toml_array_def socks_line_of_def starts_with_def toml_setting_def

text \<open>The bastion preset sets what the validation of a configuration asks for: an SSH identification, a handshake timeout in
  range, a positive ban threshold and a management token of at least 16 bytes. It denies by default, bans, guards
  addresses and demands one-time codes on both front ends.\<close>

theorem bastion_preset_settings:
  "let get = (\<lambda>sec key. toml_setting sec key (bastion_lines version username password_hash)) in
     get ''[server]'' ''server_id'' = Some (quoted (''SSH-2.0-s5_'' @ version))
   \<and> get ''[limits]'' ''socks5_handshake_timeout'' = Some ''15'' \<and> get ''[security]'' ''ban_threshold'' = Some ''3''
   \<and> get ''[api]'' ''token'' = Some (quoted ''CHANGE-ME-TO-A-RANDOM-TOKEN'')
   \<and> get ''[acl]'' ''default_policy'' = Some (quoted ''deny'') \<and> get ''[security]'' ''ban_enabled'' = Some ''true''
   \<and> get ''[security]'' ''ip_guard_enabled'' = Some ''true''
   \<and> get ''[security]'' ''totp_required_for'' = Some (toml_array [quoted ''ssh'', quoted ''socks5''])"
  by (simp add: bastion_lines_def preset_lines)

text \<open>Its user has the given name and hash and has one-time codes enabled, but no secret for them.\<close>

theorem bastion_preset_user:
  "let get = (\<lambda>key. toml_setting ''[[users]]'' key (bastion_lines version username password_hash)) in
     get ''username'' = Some (quoted username) \<and> get ''password_hash'' = Some (quoted password_hash)
   \<and> get ''totp_enabled'' = Some ''true'' \<and> get ''totp_secret'' = None"
  by (simp add: bastion_lines_def preset_lines)

text \<open>The user name is written into the file as it is: one that closes its quotes and starts a new line sets another
  field, here the role of an administrator.\<close>

definition crafted_name :: string where
  "crafted_name = ''x'' @ double_quote @ line_feed @ ''role = '' @ double_quote @ ''admin''"

theorem crafted_name_sets_role:
  "toml_setting ''[[users]]'' ''role'' (split_on (char_of (10 :: nat)) (generate_config_toml crafted_name ''h'' ''0.0.0.0:2222'' None)) = Some (quoted ''admin'')"
  by code_simp

end
