(* ===== verification/Demo.thy ===== *)
theory Demo
  imports Listeners
begin

text \<open>
  Models \<open>src/demo.rs\<close>: the configuration of the demonstration server and the data put into it after start-up.
  The sessions handed back by \<open>register_session\<close> are shared with the engine's table, so that storing their byte
  counts changes the entries of the table. The names of the demonstration network are parsed literals.
\<close>

subsection \<open>Configuration\<close>

text \<open>The users differ in name, shell access, group, role and quotas; every other field is spelled out alike.\<close>

definition demo_user ::
  "string \<Rightarrow> string \<Rightarrow> bool \<Rightarrow> string option \<Rightarrow> user_role \<Rightarrow> quota_config \<Rightarrow> 'net user_config" where
  "demo_user password_hash username allow_shell grp role quotas =
     \<lparr>c_username = username, c_password_hash = Some password_hash, c_authorized_keys = [], c_allow_forwarding = True,
      c_allow_shell = allow_shell, c_max_new_connections_per_minute = 0, c_max_bandwidth_kbps = 0, c_source_ips = [],
      c_expires_at = None, c_upstream_proxy = None, c_acl = user_acl_config_default, c_totp_secret = None, c_totp_enabled = False,
      c_max_aggregate_bandwidth_kbps = 0, c_group = grp, c_role = role, c_shell_permissions = None, c_motd = None,
      c_quotas = Some quotas, c_time_access = None, c_auth_methods = None, c_idle_warning_secs = None, c_colors = None,
      c_connect_retry = None, c_connect_retry_delay_ms = None, c_aliases = [], c_max_connections = None, c_rate_limits = None\<rparr>"

definition alice_quotas :: quota_config where
  "alice_quotas = \<lparr>daily_bandwidth_bytes = 5368709120, daily_connection_limit = 100, monthly_bandwidth_bytes = 53687091200,
     monthly_connection_limit = 1000, bandwidth_per_hour_bytes = 1073741824, total_bandwidth_bytes = 0\<rparr>"

definition bob_quotas :: quota_config where
  "bob_quotas = \<lparr>daily_bandwidth_bytes = 2147483648, daily_connection_limit = 50, monthly_bandwidth_bytes = 21474836480,
     monthly_connection_limit = 500, bandwidth_per_hour_bytes = 536870912, total_bandwidth_bytes = 0\<rparr>"

definition charlie_quotas :: quota_config where
  "charlie_quotas = \<lparr>daily_bandwidth_bytes = 536870912, daily_connection_limit = 20, monthly_bandwidth_bytes = 5368709120,
     monthly_connection_limit = 200, bandwidth_per_hour_bytes = 268435456, total_bandwidth_bytes = 0\<rparr>"

definition demo_users :: "string \<Rightarrow> 'net user_config list" where
  "demo_users password_hash =
     [demo_user password_hash ''alice'' True (Some ''developers'') RoleAdmin alice_quotas,
      demo_user password_hash ''bob'' False (Some ''developers'') RoleUser bob_quotas,
      demo_user password_hash ''charlie'' True None RoleUser charlie_quotas]"

definition developers :: group_config where
  "developers =
     \<lparr>g_name = ''developers'', g_acl = user_acl_config_default, g_max_connections_per_user = None, g_max_bandwidth_kbps = Some 10240,
      g_max_aggregate_bandwidth_kbps = None, g_max_new_connections_per_minute = None, g_allow_forwarding = Some True,
      g_allow_shell = Some True, g_shell_permissions = None, g_motd = None, g_quotas = None, g_time_access = None,
      g_auth_methods = None, g_idle_warning_secs = None, g_role = None, g_colors = None, g_connect_retry = None,
      g_connect_retry_delay_ms = None, g_rate_limits = None\<rparr>"

definition demo_acl :: global_acl_config where
  "demo_acl = \<lparr>global_default_policy = DenyConfig,
     global_allow = [''*.example.com:443'', ''*.github.com:443'', ''httpbin.org:*'', ''example.com:*''],
     global_deny = [''*.internal:*'', ''10.0.0.0/8:*'']\<rparr>"

definition build_demo_config :: "u16 \<Rightarrow> u16 \<Rightarrow> u16 \<Rightarrow> string \<Rightarrow> 'net app_config" where
  "build_demo_config ssh_port socks5_port api_port password_hash =
     \<lparr>ac_server =
        \<lparr>sv_ssh_listen = ''127.0.0.1:'' @ show_nat (unat ssh_port), sv_socks5_listen = Some (''127.0.0.1:'' @ show_nat (unat socks5_port)),
         sv_host_key_path = ''/tmp/s5-demo-host-key'', sv_server_id = ''SSH-2.0-s5-demo'',
         sv_banner = ''Welcome to s5 demo'', sv_motd_path = None, sv_proxy_protocol = False, sv_allowed_ciphers = [], sv_allowed_kex = [],
         sv_shutdown_timeout = 5, sv_socks5_tls_cert = None, sv_socks5_tls_key = None, sv_dns_cache_ttl = - 1,
         sv_dns_cache_max_entries = 1000, sv_connect_retry = 0, sv_connect_retry_delay_ms = 1000, sv_bookmarks_path = None,
         sv_ssh_keepalive_interval_secs = 15, sv_ssh_keepalive_max = 3, sv_ssh_auth_timeout = 120\<rparr>,
      ac_shell = shell_config_default\<lparr>sh_hostname := ''s5-demo''\<rparr>, ac_limits = limits_config_default,
      ac_security = security_section_default\<lparr>se_ban_enabled := True, se_ip_guard_enabled := False\<rparr>,
      ac_logging = logging_config_default, ac_metrics = metrics_config_default,
      ac_api = \<lparr>api_enabled = True, api_listen = ''127.0.0.1:'' @ show_nat (unat api_port), api_token = ''demo''\<rparr>,
      ac_geoip = geoip_config_default, ac_upstream_proxy = None, ac_webhooks = [], ac_acl = demo_acl,
      ac_users = demo_users password_hash, ac_groups = [developers], ac_motd = motd_config_default, ac_alerting = alerting_config_default,
      ac_maintenance_windows = [], ac_connection_pool = connection_pool_config_default\<rparr>"

subsection \<open>Data\<close>

text \<open>The stores to the shared byte counters of a registered session.\<close>

definition store_session_bytes :: "u64 \<Rightarrow> u64 \<Rightarrow> engine \<times> live_session \<Rightarrow> engine \<times> live_session" where
  "store_session_bytes up down = (\<lambda>(G, s).
     let s' = s\<lparr>bytes_up := up, bytes_down := down\<rparr>
     in (G\<lparr>active_sessions := map (\<lambda>(k, v). if k = session_id s then (k, v\<lparr>bytes_up := up, bytes_down := down\<rparr>) else (k, v)) (active_sessions G)\<rparr>, s'))"

definition inject_usage :: "chrono_ops \<Rightarrow> (nat \<Rightarrow> nat) \<Rightarrow> quota_tracker \<Rightarrow> quota_tracker" where
  "inject_usage C clk T =
     restore_user_usage C (clk 2) ''charlie'' 52428800 5 524288000 25 1288490189
       (restore_user_usage C (clk 1) ''bob'' 268435456 15 3328599654 120 9126805504
         (restore_user_usage C (clk 0) ''alice'' 1288490189 42 13314398618 350 48535150182 T))"

definition inject_sessions :: "(nat \<Rightarrow> nat) \<Rightarrow> engine \<Rightarrow> engine \<times> live_session list" where
  "inject_sessions clk G =
     (let (G1, s1) = store_session_bytes 15728640 148897792 (register_session (clk 0) ''alice'' ''github.com'' 443 ''10.0.1.42'' ''ssh'' G);
          (G2, s2) = store_session_bytes 2097152 8388608 (register_session (clk 1) ''alice'' ''api.example.com'' 8080 ''10.0.1.42'' ''ssh'' G1);
          (G3, s3) = store_session_bytes 512000 89128960 (register_session (clk 2) ''bob'' ''cdn.example.com'' 443 ''10.0.1.55'' ''socks5'' G2)
      in (G3, [s1, s2, s3]))"

definition attacker_ip :: ipaddr where
  "attacker_ip = V4 192 168 99 1"

definition demo_events :: "(nat \<Rightarrow> int) \<Rightarrow> audit_event list" where
  "demo_events now =
     (let alice_addr = (V4 10 0 1 42, 54321); bob_addr = (V4 10 0 1 55, 44332);
          charlie_addr = (V4 192 168 1 10, 61200) :: socket_addr; attacker_addr = (attacker_ip, 12345) in
      [auth_success (now 0) None ''alice'' alice_addr ''publickey'',
       auth_success (now 1) None ''bob'' bob_addr ''password'',
       connection_new (now 2) None alice_addr ''ssh'',
       connection_new (now 3) None bob_addr ''socks5'',
       acl_deny (now 4) None ''charlie'' ''blocked.internal'' 22 None (show_ip (fst charlie_addr)) (Some ''*.internal:*'') ''ACL deny rule matched'',
       auth_failure (now 5) None ''admin'' attacker_addr ''password''])"

fun log_events :: "(nat \<Rightarrow> nat) \<Rightarrow> audit_event list \<Rightarrow> audit_logger \<Rightarrow> audit_logger" where
  "log_events taken [] A = A"
| "log_events taken (e # es) A = log_events (taken \<circ> Suc) es (log_event (taken 0) e A)"

definition inject_demo_data ::
  "chrono_ops \<Rightarrow> (nat \<Rightarrow> nat) \<Rightarrow> (nat \<Rightarrow> nat) \<Rightarrow> instant \<Rightarrow> (nat \<Rightarrow> int) \<Rightarrow> (nat \<Rightarrow> nat)
     \<Rightarrow> ('net, 'pk, 'fp, 'l, 'f) server \<times> engine \<Rightarrow> (('net, 'pk, 'fp, 'l, 'f) server \<times> engine) \<times> live_session list" where
  "inject_demo_data C clk started now stamp taken = (\<lambda>(S, G).
     let T = inject_usage C clk (srv_quota S);
         (G', sessions) = inject_sessions started G;
         sec = (srv_security S)\<lparr>ban_mgr := ban_ip now attacker_ip (from_secs 1800) (ban_mgr (srv_security S))\<rparr>;
         A = log_events taken (demo_events stamp) (srv_audit S)
     in ((S\<lparr>srv_quota := T, srv_security := sec, srv_audit := A\<rparr>, G'), sessions))"

subsection \<open>The configuration is not validated\<close>

lemma demo_rules_parse:
  "\<exists>r. acl_rule_parse N ''*.example.com:443'' = Inr r" "\<exists>r. acl_rule_parse N ''*.github.com:443'' = Inr r"
  "\<exists>r. acl_rule_parse N ''httpbin.org:*'' = Inr r" "\<exists>r. acl_rule_parse N ''example.com:*'' = Inr r"
  "\<exists>r. acl_rule_parse N ''*.internal:*'' = Inr r" "\<exists>r. acl_rule_parse N ''10.0.0.0/8:*'' = Inr r"
proof -
  have sp: "split_host_port ''*.example.com:443'' = Inr (''*.example.com'', ''443'')"
    "split_host_port ''*.github.com:443'' = Inr (''*.github.com'', ''443'')"
    "split_host_port ''httpbin.org:*'' = Inr (''httpbin.org'', ''*'')" "split_host_port ''example.com:*'' = Inr (''example.com'', ''*'')"
    "split_host_port ''*.internal:*'' = Inr (''*.internal'', ''*'')" "split_host_port ''10.0.0.0/8:*'' = Inr (''10.0.0.0/8'', ''*'')"
    by code_simp+
  have "show_nat 443 = ''443''" by code_simp
  then have "parse_u16 ''443'' = Some 443" using parse_u16_show [of 443] by simp
  then have pp: "parse_port_match ''443'' = Inr (PortExact 443)" "parse_port_match ''*'' = Inr PortAny"
    by (simp_all add: parse_port_match_def)
  show "\<exists>r. acl_rule_parse N ''*.example.com:443'' = Inr r" "\<exists>r. acl_rule_parse N ''*.github.com:443'' = Inr r"
    "\<exists>r. acl_rule_parse N ''httpbin.org:*'' = Inr r" "\<exists>r. acl_rule_parse N ''example.com:*'' = Inr r"
    "\<exists>r. acl_rule_parse N ''*.internal:*'' = Inr r" "\<exists>r. acl_rule_parse N ''10.0.0.0/8:*'' = Inr r"
    by (simp_all add: acl_rule_parse_def sp pp split: option.split)
qed

lemma demo_acl_parses: "rules_parse N (global_allow demo_acl)" "rules_parse N (global_deny demo_acl)"
  using demo_rules_parse [of N] by (auto simp: demo_acl_def rules_parse_def)

text \<open>The demonstration configuration would be refused by the validation of files, because its token is too short, but
  it is started without validation: it gives the authentication service of the three users.\<close>

theorem demo_config_starts_unvalidated:
  fixes N :: "('net, 'x) ipnet_ops_scheme"
  shows "validate_config N L present (build_demo_config ssh_port socks5_port api_port password_hash) = Some (ApiTokenShort 4)
   \<and> (\<exists>svc. auth_new_of N U A (build_demo_config ssh_port socks5_port api_port password_hash) = Inr svc
        \<and> usernames (user_store svc) = [''alice'', ''bob'', ''charlie''])"
proof -
  define cfg :: "'net app_config" where "cfg = build_demo_config ssh_port socks5_port api_port password_hash"
  have v: "validate_config N L present (cfg\<lparr>ac_api := api_config_default\<rparr>) = None"
    unfolding validate_config_parts validate_None using demo_acl_parses [of N]
    by (simp add: cfg_def build_demo_config_def demo_users_def demo_user_def limits_config_default_def security_section_default_def
        api_config_default_def user_acl_config_default_def rules_parse_def starts_with_def map_filter_def)
  note same = validate_server_def validate_limits_def validate_socks5_handshake_timeout_def validate_socks5_tls_def
    validate_global_acl_def validate_users_def
  have "validate_server (cfg\<lparr>ac_api := a\<rparr>) = validate_server cfg" "validate_limits (cfg\<lparr>ac_api := a\<rparr>) = validate_limits cfg"
    "validate_socks5_handshake_timeout (cfg\<lparr>ac_api := a\<rparr>) = validate_socks5_handshake_timeout cfg"
    "validate_socks5_tls present (cfg\<lparr>ac_api := a\<rparr>) = validate_socks5_tls present cfg"
    "validate_global_acl N (cfg\<lparr>ac_api := a\<rparr>) = validate_global_acl N cfg" "validate_users N (cfg\<lparr>ac_api := a\<rparr>) = validate_users N cfg" for a
    by (simp_all add: same)
  note parts = v [unfolded validate_config_parts this]
  have "validate_api cfg = Some (ApiTokenShort 4)"
    by (simp add: validate_api_def cfg_def build_demo_config_def bail_if_def first_error.simps eval_nat_numeral)
  then have first: "validate_config N L present cfg = Some (ApiTokenShort 4)" using parts by (simp add: validate_config_def first_error.simps)
  have "\<exists>svc. auth_new_of N U A (cfg\<lparr>ac_api := api_config_default\<rparr>) = Inr svc
      \<and> usernames (user_store svc) = map c_username (ac_users (cfg\<lparr>ac_api := api_config_default\<rparr>))"
    by (rule validated_auth [OF v])
      (simp_all add: cfg_def build_demo_config_def developers_def demo_users_def demo_user_def acl_parses_def rules_parse_def
        user_acl_config_default_def expiry_parses_def)
  moreover have "auth_new_of N U A (cfg\<lparr>ac_api := api_config_default\<rparr>) = auth_new_of N U A cfg"
    by (simp add: auth_new_of_def server_defaults_of_def)
  moreover have "map c_username (ac_users cfg) = [''alice'', ''bob'', ''charlie'']"
    by (simp add: cfg_def build_demo_config_def demo_users_def demo_user_def)
  ultimately show ?thesis using first by (simp add: cfg_def)
qed

subsection \<open>The injected data\<close>

text \<open>The views of the tracker after the injection.\<close>

lemma restored_view:
  "user_view C t v (restore_user_usage C now u db dc mb mc tb T) =
     (if v = u then (user_view C now u T)\<lparr>daily_bytes := db, daily_connections := dc, monthly_bytes := mb, monthly_connections := mc, total_bytes := tb\<rparr>
      else user_view C t v T)"
  by (simp add: restore_user_usage_def get_user_eq put_user_def user_view_def dm_entry_def split: option.split)

lemma under_limit_connects:
  assumes "daily_connection_limit q > 0" "daily_connections (user_view C t u T) < daily_connection_limit q"
    and "monthly_connection_limit q > 0" "monthly_connections (user_view C t u T) < monthly_connection_limit q"
  shows "snd (record_connection C t u (Some q) T) = Inr ()"
  using assms by (auto simp: record_connection_def get_user_eq connection_quota_error_def lazy_reset_def Let_def)

text \<open>Whatever the tracker held before, the demonstration users stay under their connection quotas with the injected
  usage: each may connect at any later time.\<close>

theorem demo_users_can_connect:
  "snd (record_connection C t ''alice'' (Some alice_quotas) (inject_usage C clk T)) = Inr ()
   \<and> snd (record_connection C t ''bob'' (Some bob_quotas) (inject_usage C clk T)) = Inr ()
   \<and> snd (record_connection C t ''charlie'' (Some charlie_quotas) (inject_usage C clk T)) = Inr ()"
  by (intro conjI under_limit_connects)
    (simp_all add: inject_usage_def restored_view alice_quotas_def bob_quotas_def charlie_quotas_def)

text \<open>On a new engine the injection shows exactly the three sessions it hands back, with their byte counts, without
  occupying a connection slot; the address of the attacker is banned for half an hour and the last record in the log
  is its failed login.\<close>

theorem demo_data_visible:
  "case inject_demo_data C clk started now stamp taken (S, engine_new ec) of ((S', G'), sessions) \<Rightarrow>
     get_sessions G' = map snapshot sessions
   \<and> map (\<lambda>s. (session_id s, sess_username s, sess_target_host s, bytes_up s, bytes_down s)) sessions
       = [(''s0'', ''alice'', ''github.com'', 15728640, 148897792), (''s1'', ''alice'', ''api.example.com'', 2097152, 8388608),
          (''s2'', ''bob'', ''cdn.example.com'', 512000, 89128960)]
   \<and> active_connections (eng_slots G') = 0
   \<and> map_of (bans (ban_mgr (srv_security S'))) attacker_ip = Some (now + from_secs 1800)
   \<and> last (au_recent_events (srv_audit S')) = AuthFailure (stamp 5) None ''admin'' (show_ip attacker_ip) ''password''"
proof -
  have n: "show_nat 0 = ''0''" "show_nat (Suc 0) = ''1''" "show_nat 2 = ''2''" by code_simp+
  have "last (au_recent_events (log_events taken (demo_events stamp) A)) = AuthFailure (stamp 5) None ''admin'' (show_ip attacker_ip) ''password''" for A
    by (simp add: demo_events_def Let_def last_recent auth_failure_def)
  then show ?thesis
    by (simp add: inject_demo_data_def inject_sessions_def store_session_bytes_def register_session_def engine_new_def n get_sessions_def
        dm_insert_def active_connections_def update_conv' ban_ip_def Let_def snapshot_def)
qed

end
