(* ===== verification/Cli.thy ===== *)
theory Cli
  imports Presets Demo Socks_Handler Ssh_Handler
begin

text \<open>
  Models the command line: \<open>src/cli.rs\<close>, \<open>src/main.rs\<close> and the password commands of \<open>src/auth/password.rs\<close>. A command
  turns the environment and the files it reads into what it prints, the files it writes and how the process goes on:
  it ends, fails, exits with a code or serves a configuration. Hashing, random numbers, the terminal, TCP, HTTP, the
  printers of configurations and of shell completions and the texts of errors are parameters.
\<close>

subsection \<open>Commands\<close>

datatype command =
  HashPassword "string option"
| CheckConfig
| QuickStart string string "string option" "string option" "string option"
| Init string string "string option" "string option"
| GenerateTotp string
| HealthCheck string u64
| SshConfig string string u16 "string option" "u16 option"
| Completions string
| Manpage
| ShowConfig string
| Backup "string option" string string
| Restore string string string
| DemoServer u16 u16 u16 string

record cli =
  cli_config :: string
  cli_log_level :: "string option"
  cli_command :: "command option"

text \<open>What the commands use of the system and of libraries. \<open>http\<close> takes the method, the URL, the headers and the body and
  gives the status with the body, if it can be read; \<open>totp_new\<close> gives the secret in its encoded form and the URL.\<close>

record 'net cli_ops =
  argon2id :: "string \<Rightarrow> u32 \<Rightarrow> u32 \<Rightarrow> u32 \<Rightarrow> string option"
  next_u32 :: "nat \<Rightarrow> u32"
  stdin_line :: "string option"
  can_write :: "string \<Rightarrow> bool"
  parse_addr :: "string \<Rightarrow> socket_addr option"
  tcp_connect_timeout :: "socket_addr \<Rightarrow> u64 \<Rightarrow> string + unit"
  http :: "string \<Rightarrow> string \<Rightarrow> (string \<times> string) list \<Rightarrow> string \<Rightarrow> (nat \<times> string option) option"
  totp_new :: "string \<Rightarrow> (string \<times> string) option"
  to_json :: "'net app_config \<Rightarrow> string option"
  to_toml :: "'net app_config \<Rightarrow> string option"
  completions :: "string \<Rightarrow> string"
  manpage :: string
  pkg_version :: string

datatype cli_error =
  PasswordEmpty | HashFailed | StdinFailed | UnknownPreset string | WriteFailed string | ReadFailed string | StartupFailed startup_error
| UnsupportedFormat string | PrintFailed | HttpFailed | HttpStatus nat | TotpFailed

text \<open>How the process goes on: a served configuration with the log level and the path a reload reads again.\<close>

datatype 'net proceed = Finish | ExitCode nat | Abort cli_error | Serve string "'net app_config" "string option" | ServeDemo "'net app_config"

record effects =
  ef_stdout :: "string list"
  ef_stderr :: "string list"
  ef_written :: "(string \<times> string) list"

definition no_effects :: effects where
  "no_effects = \<lparr>ef_stdout = [], ef_stderr = [], ef_written = []\<rparr>"

definition prints :: "string list \<Rightarrow> effects" where
  "prints ls = no_effects\<lparr>ef_stdout := ls\<rparr>"

definition eprints :: "string list \<Rightarrow> effects" where
  "eprints ls = no_effects\<lparr>ef_stderr := ls\<rparr>"

definition and_then :: "effects \<Rightarrow> effects \<Rightarrow> effects" where
  "and_then a b = \<lparr>ef_stdout = ef_stdout a @ ef_stdout b, ef_stderr = ef_stderr a @ ef_stderr b, ef_written = ef_written a @ ef_written b\<rparr>"

definition write_file :: "'net cli_ops \<Rightarrow> string \<Rightarrow> string \<Rightarrow> effects option" where
  "write_file X path text = (if can_write X path then Some (no_effects\<lparr>ef_written := [(path, text)]\<rparr>) else None)"

subsection \<open>Passwords\<close>

definition hash_password_with_params :: "'net cli_ops \<Rightarrow> string \<Rightarrow> u32 \<Rightarrow> u32 \<Rightarrow> u32 \<Rightarrow> string option" where
  "hash_password_with_params X password memory_cost time_cost parallelism = argon2id X password memory_cost time_cost parallelism"

definition hash_password :: "'net cli_ops \<Rightarrow> string \<Rightarrow> string option" where
  "hash_password X password = hash_password_with_params X password 19456 2 1"

definition CHARSET :: string where
  "CHARSET = ''abcdefghijklmnopqrstuvwxyzABCDEFGHIJKLMNOPQRSTUVWXYZ0123456789''"

definition charset_len :: u32 where
  "charset_len = of_nat (length CHARSET)"

definition sample_limit :: u32 where
  "sample_limit = (- 1) div charset_len * charset_len"

text \<open>The inner loop draws until a number is below the limit; \<open>i\<close> counts the numbers drawn.\<close>

partial_function (option) draw_char :: "(nat \<Rightarrow> u32) \<Rightarrow> nat \<Rightarrow> (char \<times> nat) option" where
  "draw_char rng i =
     (if rng i < sample_limit then Some (CHARSET ! unat (rng i mod charset_len), Suc i) else draw_char rng (Suc i))"

fun draw_chars :: "(nat \<Rightarrow> u32) \<Rightarrow> nat \<Rightarrow> nat \<Rightarrow> string option" where
  "draw_chars rng 0 i = Some []"
| "draw_chars rng (Suc n) i =
     (case draw_char rng i of None \<Rightarrow> None | Some (c, j) \<Rightarrow> map_option (Cons c) (draw_chars rng n j))"

definition generate_password :: "'net cli_ops \<Rightarrow> nat \<Rightarrow> string option" where
  "generate_password X len = draw_chars (next_u32 X) len 0"

definition read_password :: "'net cli_ops \<Rightarrow> string option \<Rightarrow> string option" where
  "read_password X password = (case password of Some p \<Rightarrow> Some p | None \<Rightarrow> map_option trim_str (stdin_line X))"

definition hash_password_cli :: "'net cli_ops \<Rightarrow> string option \<Rightarrow> effects \<times> 'net proceed" where
  "hash_password_cli X password =
     (let asked = (if password = None then eprints [''Enter password: ''] else no_effects) in
      case read_password X password of
        None \<Rightarrow> (asked, Abort StdinFailed)
      | Some p \<Rightarrow>
          if p = [] then (asked, Abort PasswordEmpty)
          else (case hash_password X p of
                  None \<Rightarrow> (asked, Abort HashFailed)
                | Some h \<Rightarrow> (and_then asked (prints [h]), Finish)))"

subsection \<open>Starting and initialising\<close>

fun show_log_level :: "log_level \<Rightarrow> string" where
  "show_log_level LevelTrace = ''trace''"
| "show_log_level LevelDebug = ''debug''"
| "show_log_level LevelInfo = ''info''"
| "show_log_level LevelWarn = ''warn''"
| "show_log_level LevelError = ''error''"

definition quick_start_summary :: "string \<Rightarrow> string \<Rightarrow> string \<Rightarrow> string option \<Rightarrow> string list" where
  "quick_start_summary username password ssh_listen socks5_listen =
     ['''', ''=== s5 quick-start ==='', ''  SSH listen:  '' @ ssh_listen]
     @ (case socks5_listen of Some socks \<Rightarrow> [''  SOCKS5:      '' @ socks] | None \<Rightarrow> [])
     @ [''  Username:    '' @ username, ''  Password:    '' @ password, '''', ''Connect with:'',
        ''  ssh -o StrictHostKeyChecking=no '' @ username @ ''@localhost -p '' @ last (split_on CHR '':'' ssh_listen)]
     @ (case socks5_listen of
          Some socks \<Rightarrow> [''  curl --socks5 '' @ username @ '':'' @ password @ ''@'' @ socks @ '' http://example.com'']
        | None \<Rightarrow> [])
     @ ['''']"

text \<open>\<^const>\<open>None\<close> is a generator that never yields an acceptable number.\<close>

definition quick_start ::
  "'net cli_ops \<Rightarrow> string \<Rightarrow> string \<Rightarrow> string option \<Rightarrow> string option \<Rightarrow> string option \<Rightarrow> (effects \<times> 'net proceed) option" where
  "quick_start X username ssh_listen socks5_listen password save_config =
     (case (case password of
              Some p \<Rightarrow> Some (no_effects, p)
            | None \<Rightarrow> map_option (\<lambda>g. (eprints [''Generated password: '' @ g], g)) (generate_password X 20)) of
        None \<Rightarrow> None
      | Some (generated, p) \<Rightarrow> Some
          (case hash_password X p of
             None \<Rightarrow> (generated, Abort HashFailed)
           | Some h \<Rightarrow>
               (let app_config = build_quick_config username h ssh_listen socks5_listen;
                    told = and_then generated (eprints (quick_start_summary username p ssh_listen socks5_listen)) in
                case save_config of
                  None \<Rightarrow> (told, Serve ''info'' app_config None)
                | Some path \<Rightarrow>
                    (case write_file X path (generate_config_toml username h ssh_listen socks5_listen) of
                       None \<Rightarrow> (told, Abort (WriteFailed path))
                     | Some w \<Rightarrow> (and_then told (and_then w (eprints [''Config saved to: '' @ path, ''''])), Serve ''info'' app_config None)))))"

definition preset_text :: "'net cli_ops \<Rightarrow> string option \<Rightarrow> string \<Rightarrow> string \<Rightarrow> cli_error + string" where
  "preset_text X preset username password_hash =
     (case preset of
        Some preset_name \<Rightarrow>
          if preset_name = ''bastion'' then Inr (bastion_preset (pkg_version X) username password_hash)
          else if preset_name = ''proxy'' then Inr (proxy_preset (pkg_version X) username password_hash)
          else if preset_name = ''dev'' then Inr (dev_preset (pkg_version X) username password_hash)
          else Inl (UnknownPreset preset_name)
      | None \<Rightarrow> Inr (generate_config_toml username password_hash ''0.0.0.0:2222'' (Some ''0.0.0.0:1080'')))"

definition init_config :: "'net cli_ops \<Rightarrow> string \<Rightarrow> string \<Rightarrow> string option \<Rightarrow> string option \<Rightarrow> effects \<times> 'net proceed" where
  "init_config X path username password preset =
     (let asked = (if password = None then eprints [''Enter password: ''] else no_effects) in
      case read_password X password of
        None \<Rightarrow> (asked, Abort StdinFailed)
      | Some p \<Rightarrow>
          if p = [] then (asked, Abort PasswordEmpty)
          else (case hash_password X p of
                  None \<Rightarrow> (asked, Abort HashFailed)
                | Some h \<Rightarrow>
                    (case preset_text X preset username h of
                       Inl e \<Rightarrow> (asked, Abort e)
                     | Inr text \<Rightarrow>
                         (case write_file X path text of
                            None \<Rightarrow> (asked, Abort (WriteFailed path))
                          | Some w \<Rightarrow>
                              (and_then asked (and_then w (eprints
                                 ([''Configuration written to: '' @ path, ''  Username: '' @ username]
                                  @ (case preset of Some n \<Rightarrow> [''  Preset: '' @ n] | None \<Rightarrow> [])
                                  @ [''  Password hash generated with Argon2id'', '''', ''Start the server with:'', ''  s5 -c '' @ path]))),
                               Finish)))))"

definition demo_server :: "'net cli_ops \<Rightarrow> u16 \<Rightarrow> u16 \<Rightarrow> u16 \<Rightarrow> string \<Rightarrow> effects \<times> 'net proceed" where
  "demo_server X ssh_port socks5_port api_port password =
     (case hash_password X password of
        None \<Rightarrow> (no_effects, Abort HashFailed)
      | Some h \<Rightarrow>
          (eprints
             ['''', ''=== s5 demo ==='', ''  SSH:       127.0.0.1:'' @ show_nat (unat ssh_port),
              ''  SOCKS5:    127.0.0.1:'' @ show_nat (unat socks5_port),
              ''  Dashboard: http://127.0.0.1:'' @ show_nat (unat api_port) @ ''/dashboard?token=demo'',
              ''  Users:     alice / bob / charlie (password: '' @ password @ '')'', ''''],
           ServeDemo (build_demo_config ssh_port socks5_port api_port h)))"

subsection \<open>Inspecting\<close>

definition check_config ::
  "('net, 'x) ipnet_ops_scheme \<Rightarrow> url_ops \<Rightarrow> 'net config_io \<Rightarrow> string \<Rightarrow> effects \<times> 'net proceed" where
  "check_config N L F path =
     (case load_config N L F path of
        Inl e \<Rightarrow> (no_effects, Abort (StartupFailed (FromFile e)))
      | Inr cfg \<Rightarrow>
          (prints ([''Configuration is valid.'', ''  SSH listen: '' @ sv_ssh_listen (ac_server cfg)]
             @ (case sv_socks5_listen (ac_server cfg) of Some socks \<Rightarrow> [''  SOCKS5 listen: '' @ socks] | None \<Rightarrow> [])
             @ [''  Users: '' @ show_nat (length (ac_users cfg))]),
           Finish))"

definition health_check :: "'net cli_ops \<Rightarrow> string \<Rightarrow> u64 \<Rightarrow> effects \<times> 'net proceed" where
  "health_check X addr timeout =
     (case parse_addr X addr of
        None \<Rightarrow> (eprints [''Invalid address: '' @ addr], ExitCode 1)
      | Some a \<Rightarrow>
          (case tcp_connect_timeout X a timeout of
             Inr _ \<Rightarrow> (prints [''OK: '' @ addr @ '' is reachable''], Finish)
           | Inl e \<Rightarrow> (eprints [''FAIL: '' @ addr @ '' is not reachable: '' @ e], ExitCode 1)))"

definition ssh_config_lines :: "string \<Rightarrow> string \<Rightarrow> u16 \<Rightarrow> string option \<Rightarrow> u16 option \<Rightarrow> string list" where
  "ssh_config_lines user host port name dynamic_forward =
     [''# s5 SSH config snippet'', ''# Add to ~/.ssh/config'', '''', ''Host '' @ unwrap_or name ''s5-proxy'',
      ''    HostName '' @ host, ''    Port '' @ show_nat (unat port), ''    User '' @ user, ''    StrictHostKeyChecking no'',
      ''    UserKnownHostsFile /dev/null'']
     @ (case dynamic_forward of Some p \<Rightarrow> [''    DynamicForward '' @ show_nat (unat p)] | None \<Rightarrow> [])
     @ [''    ServerAliveInterval 30'', ''    ServerAliveCountMax 3'']"

definition generate_totp :: "'net cli_ops \<Rightarrow> string \<Rightarrow> effects \<times> 'net proceed" where
  "generate_totp X username =
     (case totp_new X username of
        None \<Rightarrow> (no_effects, Abort TotpFailed)
      | Some (encoded, url) \<Rightarrow>
          (prints [''TOTP secret for '' @ [CHR 0x27] @ username @ [CHR 0x27] @ '': '' @ encoded, ''OTPAuth URL: '' @ url, '''',
             ''Add to config.toml:'', ''  '' @ kv ''totp_secret'' (quoted encoded), ''  '' @ kv ''totp_enabled'' ''true''],
           Finish))"

definition show_config ::
  "'net cli_ops \<Rightarrow> ('net, 'x) ipnet_ops_scheme \<Rightarrow> url_ops \<Rightarrow> 'net config_io \<Rightarrow> string \<Rightarrow> string \<Rightarrow> env \<Rightarrow> env \<times> effects \<times> 'net proceed" where
  "show_config X N L F path format E =
     (case startup_config N L F path E of
        (E', Inl e) \<Rightarrow> (E', no_effects, Abort (StartupFailed e))
      | (E', Inr (app_config, _)) \<Rightarrow>
          (let redacted = redact_config app_config;
               out = (\<lambda>r. case r of Some s \<Rightarrow> (prints [s], Finish) | None \<Rightarrow> (no_effects, Abort PrintFailed)) in
           (E', if format = ''json'' then out (to_json X redacted)
                else if format = ''toml'' then out (to_toml X redacted)
                else (no_effects, Abort (UnsupportedFormat format)))))"

subsection \<open>Backup client\<close>

definition is_success :: "nat \<Rightarrow> bool" where
  "is_success status \<longleftrightarrow> 200 \<le> status \<and> status < 300"

definition backup_client :: "'net cli_ops \<Rightarrow> string option \<Rightarrow> string \<Rightarrow> string \<Rightarrow> effects \<times> 'net proceed" where
  "backup_client X target api_addr token =
     (case http X ''GET'' (api_addr @ ''/api/backup'') [(''Authorization'', ''Bearer '' @ token)] [] of
        None \<Rightarrow> (no_effects, Abort HttpFailed)
      | Some (status, body) \<Rightarrow>
          if \<not> is_success status then (no_effects, Abort (HttpStatus status))
          else (case body of
                  None \<Rightarrow> (no_effects, Abort HttpFailed)
                | Some text \<Rightarrow>
                    (case target of
                       None \<Rightarrow> (prints [text], Finish)
                     | Some path \<Rightarrow>
                         (case write_file X path text of
                            None \<Rightarrow> (no_effects, Abort (WriteFailed path))
                          | Some w \<Rightarrow> (and_then w (eprints [''Backup saved to: '' @ path]), Finish)))))"

definition restore_client :: "'net cli_ops \<Rightarrow> 'net config_io \<Rightarrow> string \<Rightarrow> string \<Rightarrow> string \<Rightarrow> effects \<times> 'net proceed" where
  "restore_client X F input api_addr token =
     (case read_to_string F input of
        None \<Rightarrow> (no_effects, Abort (ReadFailed input))
      | Some body \<Rightarrow>
          (case http X ''POST'' (api_addr @ ''/api/restore'')
                  [(''Authorization'', ''Bearer '' @ token), (''Content-Type'', ''application/json'')] body of
             None \<Rightarrow> (no_effects, Abort HttpFailed)
           | Some (status, reply) \<Rightarrow>
               if \<not> is_success status then (no_effects, Abort (HttpStatus status))
               else (case reply of None \<Rightarrow> (no_effects, Abort HttpFailed) | Some text \<Rightarrow> (prints [text], Finish))))"

subsection \<open>The program\<close>

definition serve_configured ::
  "('net, 'x) ipnet_ops_scheme \<Rightarrow> url_ops \<Rightarrow> 'net config_io \<Rightarrow> string \<Rightarrow> string option \<Rightarrow> env \<Rightarrow> env \<times> effects \<times> 'net proceed" where
  "serve_configured N L F path log_level E =
     (case startup_config N L F path E of
        (E', Inl e) \<Rightarrow> (E', no_effects, Abort (StartupFailed e))
      | (E', Inr (app_config, config_path)) \<Rightarrow>
          (E', (if config_path = None then eprints [''No config file found '' @ em_dash @ '' using environment variables''] else no_effects),
           Serve (unwrap_or log_level (show_log_level (lo_level (ac_logging app_config)))) app_config config_path))"

definition s5_main ::
  "'net cli_ops \<Rightarrow> ('net, 'x) ipnet_ops_scheme \<Rightarrow> url_ops \<Rightarrow> 'net config_io \<Rightarrow> cli \<Rightarrow> env \<Rightarrow> (env \<times> effects \<times> 'net proceed) option" where
  "s5_main X N L F c E =
     (case cli_command c of
        Some (HashPassword password) \<Rightarrow> Some (E, hash_password_cli X password)
      | Some CheckConfig \<Rightarrow> Some (E, check_config N L F (cli_config c))
      | Some (QuickStart username ssh_listen socks5_listen password save_config) \<Rightarrow>
          map_option (Pair E) (quick_start X username ssh_listen socks5_listen password save_config)
      | Some (Init path username password preset) \<Rightarrow> Some (E, init_config X path username password preset)
      | Some (HealthCheck addr timeout) \<Rightarrow> Some (E, health_check X addr timeout)
      | Some (SshConfig user host port name dynamic_forward) \<Rightarrow>
          Some (E, prints (ssh_config_lines user host port name dynamic_forward), Finish)
      | Some (GenerateTotp username) \<Rightarrow> Some (E, generate_totp X username)
      | Some (Completions shell) \<Rightarrow> Some (E, prints [completions X shell], Finish)
      | Some Manpage \<Rightarrow> Some (E, prints [manpage X], Finish)
      | Some (ShowConfig format) \<Rightarrow> Some (show_config X N L F (cli_config c) format E)
      | Some (Backup target api_addr token) \<Rightarrow> Some (E, backup_client X target api_addr token)
      | Some (Restore input api_addr token) \<Rightarrow> Some (E, restore_client X F input api_addr token)
      | Some (DemoServer ssh_port socks5_port api_port password) \<Rightarrow> Some (E, demo_server X ssh_port socks5_port api_port password)
      | None \<Rightarrow> Some (serve_configured N L F (cli_config c) (cli_log_level c) E))"

subsection \<open>Generated passwords\<close>

lemma charset_numbers: "length CHARSET = 62" "charset_len = 62" "sample_limit = 4294967292" "distinct CHARSET"
proof -
  show l: "length CHARSET = 62" by (simp add: CHARSET_def)
  show c: "charset_len = 62" by (simp add: charset_len_def l)
  show "sample_limit = 4294967292" by (simp add: sample_limit_def c)
  show "distinct CHARSET" by (simp add: CHARSET_def)
qed

lemma drawn_index: "unat (v mod charset_len) < length CHARSET"
  by (simp add: charset_numbers unat_mod)

lemma draw_char_returns:
  assumes "rng (i + d) < sample_limit"
  shows "\<exists>c k. draw_char rng i = Some (c, k) \<and> c \<in> set CHARSET"
  using assms
proof (induction d arbitrary: i)
  case 0
  then show ?case using drawn_index [of "rng i"] by (subst draw_char.simps) simp
next
  case (Suc d)
  from Suc.IH [of "Suc i"] Suc.prems show ?case using drawn_index [of "rng i"] by (subst draw_char.simps) simp
qed

lemma draw_chars_returns:
  assumes "\<And>i. \<exists>j \<ge> i. rng j < sample_limit"
  shows "\<exists>p. draw_chars rng n i = Some p \<and> length p = n \<and> set p \<subseteq> set CHARSET"
proof (induction n arbitrary: i)
  case (Suc n)
  obtain d where "rng (i + d) < sample_limit" using assms [of i] le_Suc_ex by metis
  from draw_char_returns [of rng i d, OF this] obtain c k where c: "draw_char rng i = Some (c, k)" "c \<in> set CHARSET" by blast
  from Suc.IH [of k] c show ?case by auto
qed simp

text \<open>Where the generator keeps yielding acceptable numbers, a password of the asked length over the alphabet is
  generated.\<close>

theorem generate_password_returns:
  assumes "\<And>i. \<exists>j \<ge> i. next_u32 X j < sample_limit"
  shows "\<exists>p. generate_password X n = Some p \<and> length p = n \<and> set p \<subseteq> set CHARSET"
  unfolding generate_password_def by (rule draw_chars_returns [OF assms])

lemma residues: "i < k \<Longrightarrow> card {n :: nat. n < m * k \<and> n mod k = i} = m"
proof -
  assume i: "i < k"
  have "{n. n < m * k \<and> n mod k = i} = (\<lambda>q. q * k + i) ` {..<m}"
  proof (intro set_eqI iffI)
    fix n assume n: "n \<in> {n. n < m * k \<and> n mod k = i}"
    then have "n = n div k * k + i" "n div k < m" using i by (auto simp: less_mult_imp_div_less)
    then show "n \<in> (\<lambda>q. q * k + i) ` {..<m}" by blast
  next
    fix n assume "n \<in> (\<lambda>q. q * k + i) ` {..<m}"
    then obtain q where q: "n = q * k + i" "q < m" by blast
    have "q * k + i < Suc q * k" using i by simp
    also have "\<dots> \<le> m * k" using q by (intro mult_le_mono1) simp
    finally show "n \<in> {n. n < m * k \<and> n mod k = i}" using q i by simp
  qed
  moreover have "inj_on (\<lambda>q. q * k + i) {..<m}" using i by (auto simp: inj_on_def)
  ultimately show ?thesis by (simp add: card_image)
qed

text \<open>Rejection sampling is unbiased: every character of the alphabet is chosen for the same number of the accepted
  32-bit numbers.\<close>

theorem password_characters_unbiased:
  "map (\<lambda>c. card {v. v < sample_limit \<and> CHARSET ! unat (v mod charset_len) = c}) CHARSET = replicate (length CHARSET) 69273666"
proof (rule nth_equalityI)
  let ?m = "69273666 :: nat" and ?S = "\<lambda>c. {v. v < sample_limit \<and> CHARSET ! unat (v mod charset_len) = c}"
  fix i assume "i < length (map (\<lambda>c. card (?S c)) CHARSET)"
  then have l: "i < length CHARSET" and i: "i < 62" by (simp_all add: charset_numbers)
  have same: "CHARSET ! unat (v mod charset_len) = CHARSET ! i \<longleftrightarrow> unat v mod 62 = i" for v
    using l drawn_index [of v] by (simp add: nth_eq_iff_index_eq charset_numbers unat_mod)
  have less: "v < sample_limit \<longleftrightarrow> unat v < ?m * 62" for v by (simp add: charset_numbers word_less_nat_alt)
  have "unat ` ?S (CHARSET ! i) = {n. n < ?m * 62 \<and> n mod 62 = i}"
  proof (intro set_eqI iffI)
    fix n assume n: "n \<in> {n. n < ?m * 62 \<and> n mod 62 = i}"
    then have "unat (of_nat n :: u32) = n" by (simp add: unat_of_nat)
    with n show "n \<in> unat ` ?S (CHARSET ! i)" unfolding same less by (intro image_eqI [of _ _ "of_nat n"]) auto
  qed (auto simp: same less)
  moreover have "card (unat ` ?S (CHARSET ! i)) = card (?S (CHARSET ! i))"
    by (rule card_image) (auto simp: inj_on_def word_unat_eq_iff)
  ultimately have "card (?S (CHARSET ! i)) = card {n. n < ?m * 62 \<and> n mod 62 = i}" by simp
  also have "\<dots> = ?m" by (rule residues [OF i])
  finally show "map (\<lambda>c. card (?S c)) CHARSET ! i = replicate (length CHARSET) ?m ! i"
    unfolding nth_map [OF l] nth_replicate [OF l] .
qed (simp only: length_map length_replicate)

theorem generate_password_returns_witness:
  "\<exists>X :: ipaddr cli_ops. (\<forall>i. \<exists>j \<ge> i. next_u32 X j < sample_limit) \<and> (\<exists>p. generate_password X 20 = Some p \<and> length p = 20 \<and> set p \<subseteq> set CHARSET)"
proof -
  define X :: "ipaddr cli_ops" where "X = undefined\<lparr>next_u32 := (\<lambda>i. 7)\<rparr>"
  have r: "\<exists>j \<ge> i. next_u32 X j < sample_limit" for i by (auto simp: X_def charset_numbers)
  with generate_password_returns [of X 20, OF r] show ?thesis by blast
qed

subsection \<open>Commands\<close>

text \<open>The files a command may write.\<close>

fun named_file :: "command \<Rightarrow> string option" where
  "named_file (QuickStart username ssh_listen socks5_listen password save_config) = save_config"
| "named_file (Init path username password preset) = Some path"
| "named_file (Backup target api_addr token) = target"
| "named_file _ = None"

lemma effects_simps [simp]:
  "ef_written no_effects = []" "ef_written (prints ls) = []" "ef_written (eprints ls) = []"
  "ef_written (and_then a b) = ef_written a @ ef_written b" "ef_stderr (eprints ls) = ls" "ef_stderr (and_then a b) = ef_stderr a @ ef_stderr b"
  "write_file X path text = Some w \<Longrightarrow> ef_written w = [(path, text)]"
  by (auto simp: no_effects_def prints_def eprints_def and_then_def write_file_def split: if_splits)

text \<open>A command writes at most one file, the one named in its arguments, and writes nothing where it fails or exits
  with a code.\<close>

theorem command_writes_named_file:
  assumes "s5_main X N L F c E = Some (E', ef, how)"
  shows "ef_written ef = [] \<or> (\<exists>cmd path text. cli_command c = Some cmd \<and> named_file cmd = Some path \<and> ef_written ef = [(path, text)]
           \<and> (\<forall>err. how \<noteq> Abort err) \<and> (\<forall>n. how \<noteq> ExitCode n))"
proof (cases "cli_command c")
  case None
  then show ?thesis using assms by (auto simp: s5_main_def serve_configured_def split: prod.splits sum.splits)
next
  case (Some cmd)
  show ?thesis
  proof (cases cmd)
    case (QuickStart u a s p f)
    then show ?thesis using assms Some by (auto simp: s5_main_def quick_start_def Let_def split: option.splits)
  next
    case (Init o' u p f)
    then show ?thesis using assms Some by (auto simp: s5_main_def init_config_def Let_def split: option.splits if_splits sum.splits)
  next
    case (Backup t a k)
    then show ?thesis using assms Some by (auto simp: s5_main_def backup_client_def split: option.splits if_splits)
  qed (use assms Some in \<open>auto simp: s5_main_def hash_password_cli_def check_config_def health_check_def generate_totp_def show_config_def
      restore_client_def demo_server_def Let_def split: option.splits sum.splits if_splits prod.splits\<close>)
qed

theorem command_writes_named_file_witness:
  "\<exists>(X :: ipaddr cli_ops) ef. \<forall>L F. s5_main X sample_net L F \<lparr>cli_config = ''c'', cli_log_level = None,
     cli_command = Some (Backup (Some ''b'') ''http://h'' ''t'')\<rparr> [] = Some ([], ef, Finish) \<and> ef_written ef = [(''b'', ''{}'')]"
proof -
  define X :: "ipaddr cli_ops" where "X = undefined\<lparr>http := (\<lambda>m u h b. Some (200, Some ''{}'')), can_write := (\<lambda>p. True)\<rparr>"
  let ?c = "\<lparr>cli_config = ''c'', cli_log_level = None, cli_command = Some (Backup (Some ''b'') ''http://h'' ''t'')\<rparr>"
  let ?ef = "\<lparr>ef_stdout = [], ef_stderr = [''Backup saved to: b''], ef_written = [(''b'', ''{}'')]\<rparr>"
  have r: "s5_main X sample_net L F ?c [] = Some ([], ?ef, Finish)" for L F
    by (simp add: s5_main_def backup_client_def X_def is_success_def write_file_def and_then_def eprints_def no_effects_def)
  have "ef_written ?ef = [] \<or> (\<exists>path text. ef_written ?ef = [(path, text)])" using command_writes_named_file [OF r] by blast
  with r show ?thesis by (intro exI [of _ X] exI [of _ ?ef]) simp
qed

text \<open>C38: A quick start serves a configuration whose only user logs in with the password it printed, where the hash accepts
  the password it was made from.\<close>

theorem quick_start_login:
  assumes "quick_start X username ssh_listen socks5_listen password save_config = Some (ef, Serve level cfg path)"
    and "username \<noteq> []" and "ssh_listen \<noteq> []" and "\<And>p m t q h. argon2id X p m t q = Some h \<Longrightarrow> verify_password A p h"
  shows "\<exists>svc p. auth_new_of N U A cfg = Inr svc \<and> usernames (user_store svc) = [username]
           \<and> ''  Password:    '' @ p \<in> set (ef_stderr ef) \<and> fst (auth_password A svc now username p)"
proof -
  obtain p h where p: "hash_password X p = Some h" "cfg = build_quick_config username h ssh_listen socks5_listen"
    "''  Password:    '' @ p \<in> set (ef_stderr ef)"
    using assms(1) by (fastforce simp: quick_start_def Let_def quick_start_summary_def split: option.splits)
  have v: "verify_password A p h" using p(1) assms(4) by (simp add: hash_password_def hash_password_with_params_def)
  have "validate_config N L (\<lambda>_. True) cfg = None" for L unfolding p(2) by (rule quick_config_valid [OF assms(2,3)])
  from validated_auth [OF this, of U A] obtain svc where
    svc: "auth_new_of N U A cfg = Inr svc" "usernames (user_store svc) = [username]"
    by (auto simp: p(2) build_quick_config_def expiry_parses_def)
  have "fst (auth_password A svc now username p)"
    using svc(1) v by (auto simp: p(2) build_quick_config_def auth_new_of_def auth_new_def user_from_config_def auth_password_def verify_counted_def
        is_expired_def dm_insert_def Let_def split: sum.splits option.splits)
  with svc p(3) show ?thesis by blast
qed

theorem quick_start_login_witness:
  "\<exists>(X :: ipaddr cli_ops) ef cfg. quick_start X ''u'' ''h:22'' None (Some ''pw'') None = Some (ef, Serve ''info'' cfg None)
     \<and> (\<exists>svc p. auth_new_of sample_net sample_user_ops sample_auth_ops cfg = Inr svc \<and> ''  Password:    '' @ p \<in> set (ef_stderr ef)
         \<and> fst (auth_password sample_auth_ops svc 0 ''u'' p))"
proof -
  define X :: "ipaddr cli_ops" where "X = undefined\<lparr>argon2id := (\<lambda>p m t q. Some p)\<rparr>"
  let ?cfg = "build_quick_config ''u'' ''pw'' ''h:22'' None :: ipaddr app_config"
  obtain ef where r: "quick_start X ''u'' ''h:22'' None (Some ''pw'') None = Some (ef, Serve ''info'' ?cfg None)"
    by (simp add: quick_start_def X_def hash_password_def hash_password_with_params_def Let_def)
  have "\<exists>svc p. auth_new_of sample_net sample_user_ops sample_auth_ops ?cfg = Inr svc \<and> usernames (user_store svc) = [''u'']
      \<and> ''  Password:    '' @ p \<in> set (ef_stderr ef) \<and> fst (auth_password sample_auth_ops svc 0 ''u'' p)"
    by (rule quick_start_login [OF r]) (simp_all add: X_def verify_password_def sample_auth_ops_def)
  with r show ?thesis by blast
qed

text \<open>What the configuration printer shows does not depend on the secrets: two files whose effective configurations
  differ only in password hashes, one-time-code secrets, web hook secrets and the token give the same output.\<close>

theorem show_config_no_secrets:
  assumes "startup_config N L F path E = (E1, Inr (cfg, p1))" and "startup_config N L F' path' E' = (E2, Inr (map_secrets f cfg, p2))"
    and "\<And>s. f s = [] \<longleftrightarrow> s = []"
  shows "snd (show_config X N L F path format E) = snd (show_config X N L F' path' format E')"
proof -
  have "redact_config (map_secrets f cfg) = redact_config cfg"
    using assms(3) by (simp add: redact_config_def map_secrets_def option.map_comp comp_def)
  with assms(1,2) show ?thesis by (simp add: show_config_def Let_def)
qed

text \<open>The user of the bastion preset has one-time codes enabled but no secret: both front ends then take the plain
  password, although codes are required for them.\<close>

theorem second_factor_without_secret:
  assumes "map_of (user_store svc) name = Some usr" and "u_totp_secret usr = None" and "fst (auth_password (lib_auth L) svc (int now) name password)"
  shows "ssh_verify_password L cfg now name password svc used = Some (used, True, False)
    \<and> password_phase L scfg now \<lparr>cred_username = name, cred_password = password\<rparr> svc used = Some (used, True, True, None, Some usr)"
  using assms by (simp add: ssh_verify_password_def password_phase_def Let_def)

text \<open>The file a quick start saves does not describe the server it runs: the file denies the metadata address, limits
  new connections and spares the local host from bans, and the running server does none of this.\<close>

theorem saved_quick_config_differs:
  "let get = (\<lambda>sec key. toml_setting sec key (config_lines username password_hash ssh_listen socks5_listen));
       cfg = build_quick_config username password_hash ssh_listen socks5_listen in
     get ''[users.acl]'' ''deny'' = Some (toml_array [quoted ''169.254.169.254:*'']) \<and> map (user_deny \<circ> c_acl) (ac_users cfg) = [[]]
   \<and> get ''[[users]]'' ''max_new_connections_per_minute'' = Some ''60'' \<and> map c_max_new_connections_per_minute (ac_users cfg) = [0]
   \<and> get ''[security]'' ''ban_whitelist'' = Some (toml_array [quoted ''127.0.0.1'']) \<and> se_ban_whitelist (ac_security cfg) = []"
  by (simp add: config_lines_def Let_def preset_lines build_quick_config_def user_acl_config_default_def security_section_default_def split: option.split)

end
