(* ===== verification/Ip_Text.thy ===== *)
theory Ip_Text
  imports Shell_Commands
begin

text \<open>
  What the standard library prints of an address it reads back: \<open>Display\<close> of \<open>IpAddr\<close>
  (\<^const>\<open>show_ip\<close>) followed by \<open>IpAddr::from_str\<close> (\<^const>\<open>parse_ip\<close>) is the identity, for both kinds of
  address, compressed zeros and the mixed notation included. The backup of \<open>src/api/backup.rs\<close>
  relies on it: bans are saved as text.
\<close>

subsection \<open>One group\<close>

lemma show_hex_digits: "\<forall>c \<in> set (show_hex n). to_digit 16 c \<noteq> None"
proof (induction n rule: show_hex.induct)
  case (1 n)
  then show ?case by (subst show_hex.simps) auto
qed

lemma show_hex_not_Nil [simp]: "show_hex n \<noteq> []"
  by (subst show_hex.simps) simp

lemma digits_value_show_hex [simp]: "digits_value 16 0 (show_hex n) = n"
proof (induction n rule: show_hex.induct)
  case (1 n)
  then show ?case by (subst show_hex.simps) (simp add: digits_value_append)
qed

lemma length_show_hex: "n < 16 ^ k \<Longrightarrow> 0 < k \<Longrightarrow> length (show_hex n) \<le> k"
proof (induction n arbitrary: k rule: show_hex.induct)
  case (1 n)
  show ?case
  proof (cases "n < 16")
    case True
    with 1 show ?thesis by (subst show_hex.simps) simp
  next
    case False
    then obtain j where k: "k = Suc j" and "0 < j" using 1(2,3) by (cases k; cases "k - 1") auto
    then have "n div 16 < 16 ^ j" using 1(2) by auto
    with False 1(1) k \<open>0 < j\<close> show ?thesis by (subst show_hex.simps) simp
  qed
qed

lemma show_hex_chars: "c \<in> set (show_hex n) \<Longrightarrow> c \<noteq> CHR ''.'' \<and> c \<noteq> CHR '':''"
  using show_hex_digits [of n] by (auto simp: to_digit_def)

lemma read_group_hex:
  assumes "rest = [] \<or> hd rest = CHR '':''"
  shows "read_group (show_hex (unat x) @ rest) = Some (unat (x :: u16), rest)"
proof -
  have "takeWhile (\<lambda>c. to_digit 16 c \<noteq> None) (show_hex (unat x) @ rest) = show_hex (unat x)"
    "dropWhile (\<lambda>c. to_digit 16 c \<noteq> None) (show_hex (unat x) @ rest) = rest"
    using show_hex_digits [of "unat x"] assms by (cases rest; simp add: takeWhile_append dropWhile_append)+
  moreover have "length (show_hex (unat x)) \<le> 4" using unat_u16 [of x] by (intro length_show_hex) simp_all
  ultimately show ?thesis using unat_u16 [of x] by (simp add: read_group_def read_number_def Let_def)
qed

subsection \<open>Several groups\<close>

definition hex_tail :: "u16 list \<Rightarrow> string" where
  "hex_tail xs = concat (map (\<lambda>x. '':'' @ show_hex (unat x)) xs)"

lemma hex_tail_simps [simp]:
  "hex_tail [] = []" "hex_tail (x # xs) = CHR '':'' # show_hex (unat x) @ hex_tail xs"
  by (simp_all add: hex_tail_def)

lemma show_segments_Nil [simp]: "show_segments [] = []"
  by (simp add: show_segments_def)

lemma show_segments_Cons: "show_segments (x # xs) = show_hex (unat x) @ hex_tail xs"
  by (simp add: show_segments_def hex_tail_def join_Cons comp_def)

lemma hex_tail_no_dot: "CHR ''.'' \<notin> set (hex_tail xs)"
  by (induction xs) (auto dest: show_hex_chars)

lemma show_segments_no_dot: "CHR ''.'' \<notin> set (show_segments xs)"
  using hex_tail_no_dot by (cases xs) (auto simp: show_segments_Cons dest: show_hex_chars)

text \<open>Where a run of groups ends: at the end of the text or before a double colon.\<close>

definition groups_end :: "string \<Rightarrow> bool" where
  "groups_end s \<longleftrightarrow> CHR ''.'' \<notin> set s \<and> (s = [] \<or> (\<exists>t. s = CHR '':'' # CHR '':'' # t))"

lemma read_ipv4_colon: "read_ipv4 (CHR '':'' # t) = None"
  by (simp add: read_ipv4_def read_octet_def read_number_def read_separator_def to_digit_def Let_def)

lemma read_group_colon: "read_group (CHR '':'' # t) = None"
  by (simp add: read_group_def read_number_def Let_def)

lemma read_groups_stop: "groups_end s \<Longrightarrow> read_groups k False s = ([], False, s)"
  by (cases k) (auto simp: groups_end_def read_separator_def read_ipv4_colon read_group_colon)

lemma read_groups_colon: "read_groups k True (CHR '':'' # t) = ([], False, CHR '':'' # t)"
  by (cases k) (simp_all add: read_separator_def read_ipv4_colon read_group_colon)

lemma read_groups_Nil: "read_groups k True [] = ([], False, [])"
  by (cases k) (simp_all add: read_separator_def read_ipv4_def read_octet_def read_group_def read_number_def Let_def)

lemma groups_end_start: "groups_end s \<Longrightarrow> hex_tail xs @ s = [] \<or> hd (hex_tail xs @ s) = CHR '':''"
  by (cases xs) (auto simp: groups_end_def)

lemma no_ipv4_before: "groups_end s \<Longrightarrow> read_ipv4 (show_hex (unat x) @ hex_tail xs @ s) = None"
  using hex_tail_no_dot by (intro read_ipv4_needs_dot) (auto simp: groups_end_def dest: show_hex_chars)

lemma read_groups_hex_tail:
  "length xs \<le> k \<Longrightarrow> groups_end s \<Longrightarrow> read_groups k False (hex_tail xs @ s) = (xs, False, s)"
proof (induction xs arbitrary: k)
  case Nil
  then show ?case by (simp add: read_groups_stop)
next
  case (Cons x xs)
  then obtain j where k: "k = Suc j" "length xs \<le> j" by (cases k) auto
  show ?case
    using read_groups_step(1) [OF no_ipv4_before [OF Cons.prems(2)] read_group_hex [OF groups_end_start [OF Cons.prems(2)]], of j x xs]
      Cons.IH [OF k(2) Cons.prems(2)] by (simp add: k(1) del: read_groups.simps)
qed

lemma read_groups_segments:
  assumes "length xs \<le> k" and "groups_end s"
  shows "read_groups k True (show_segments xs @ s) = (xs, False, s)"
proof (cases xs)
  case Nil
  with assms(2) show ?thesis by (auto simp: groups_end_def read_groups_Nil read_groups_colon)
next
  case (Cons x ys)
  with assms obtain j where k: "k = Suc j" "length ys \<le> j" by (cases k) auto
  show ?thesis
    using read_groups_step(2) [OF no_ipv4_before [OF assms(2)] read_group_hex [OF groups_end_start [OF assms(2)]], of j x ys]
      read_groups_hex_tail [OF k(2) assms(2)] by (simp add: Cons k(1) show_segments_Cons del: read_groups.simps)
qed

subsection \<open>The compressed run\<close>

text \<open>Whatever run \<^const>\<open>longest_zeros\<close> finds, it lies in the list and its groups are zero.\<close>

definition zeros_at :: "u16 list \<Rightarrow> nat \<times> nat \<Rightarrow> bool" where
  "zeros_at xs r \<longleftrightarrow> fst r + snd r \<le> length xs \<and> take (snd r) (drop (fst r) xs) = replicate (snd r) 0"

lemma zero_run_zeros: "take (zero_run xs) xs = replicate (zero_run xs) 0"
  by (induction xs) (auto simp: zero_run_def)

lemma longest_zeros_at:
  assumes "zeros_at (ys @ xs) best"
  shows "zeros_at (ys @ xs) (longest_zeros (length ys) best xs)"
  using assms
proof (induction xs arbitrary: ys best)
  case (Cons x xs)
  let ?best = "if zero_run (x # xs) > snd best then (length ys, zero_run (x # xs)) else best"
  have "zero_run (x # xs) \<le> length (x # xs)" unfolding zero_run_def by (rule length_takeWhile_le)
  then have "zeros_at (ys @ x # xs) (length ys, zero_run (x # xs))"
    using zero_run_zeros [of "x # xs"] by (simp add: zeros_at_def)
  with Cons.prems have "zeros_at ((ys @ [x]) @ xs) ?best" by simp
  from Cons.IH [OF this] show ?case by simp
qed simp

lemma zeros_split:
  assumes "zeros_at xs (st, len)"
  shows "take st xs @ replicate len 0 @ drop (st + len) xs = xs"
proof -
  have "take len (drop st xs) @ drop len (drop st xs) = drop st xs" by (rule append_take_drop_id)
  with assms have "replicate len 0 @ drop (st + len) xs = drop st xs" by (simp add: zeros_at_def add.commute)
  then show ?thesis by simp
qed

subsection \<open>Addresses\<close>

lemma parse_segments:
  assumes "length xs = 8"
  shows "parse_ip (show_segments xs) = v6_of_list xs"
proof -
  have "read_groups 8 True (show_segments xs) = (xs, False, [])"
    using read_groups_segments [of xs 8 "[]"] assms by (simp add: groups_end_def)
  moreover have "read_ipv4 (show_segments xs) = None" by (rule read_ipv4_needs_dot [OF show_segments_no_dot])
  ultimately show ?thesis using assms
    by (cases "v6_of_list xs") (simp_all add: parse_ip_def read_ipv6_def)
qed

lemma parse_compressed:
  assumes "zeros_at xs (st, len)" and "1 < len" and "length xs = 8"
  shows "parse_ip (show_segments (take st xs) @ ''::'' @ show_segments (drop (st + len) xs)) = v6_of_list xs"
proof -
  let ?t = "show_segments (drop (st + len) xs)"
  have st: "st + len \<le> 8" using assms(1,3) by (simp add: zeros_at_def)
  have "groups_end (''::'' @ ?t)" using show_segments_no_dot by (simp add: groups_end_def)
  then have hd: "read_groups 8 True (show_segments (take st xs) @ ''::'' @ ?t) = (take st xs, False, ''::'' @ ?t)"
    using st by (intro read_groups_segments) simp_all
  have tl: "read_groups (8 - (st + 1)) True ?t = (drop (st + len) xs, False, [])"
    using read_groups_segments [of "drop (st + len) xs" "8 - (st + 1)" "[]"] assms(2,3) st by (simp add: groups_end_def)
  have "8 - st - length (drop (st + len) xs) = len" using assms(3) st by simp
  then have "take st xs @ replicate (8 - st - length (drop (st + len) xs)) 0 @ drop (st + len) xs = xs"
    using zeros_split [OF assms(1)] by simp
  moreover have "read_ipv4 (show_segments (take st xs) @ ''::'' @ ?t) = None"
    using show_segments_no_dot by (intro read_ipv4_needs_dot) auto
  moreover have "length (take st xs) = st" "st \<noteq> 8" using st assms(2,3) by auto
  ultimately show ?thesis using hd tl
    by (cases "v6_of_list xs") (simp_all add: parse_ip_def read_ipv6_def)
qed

lemma parse_mapped:
  "parse_ip (''::ffff:'' @ show_ipv4 a b c d) = Some (V6 0 0 0 0 0 0xFFFF (seg a b) (seg c d))"
proof -
  let ?q = "CHR '':'' # show_ipv4 a b c d"
  have "read_ipv4 (CHR ''f'' # t) = None" for t
    by (simp add: read_ipv4_def read_octet_def read_number_def read_separator_def to_digit_def Let_def)
  then have v4: "read_ipv4 (''ffff'' @ ?q) = None" by simp
  have "read_group (''ffff'' @ ?q) = Some (0xFFFF, ?q)" by (simp add: read_group_def read_number_def to_digit_def Let_def)
  moreover have "read_groups (Suc (Suc k)) False ?q = ([seg a b, seg c d], True, [])" for k
    using read_ipv4_show [of "[]" a b c d] by (simp add: read_separator_def)
  ultimately have "read_groups (Suc (Suc (Suc k))) True (''ffff'' @ ?q) = ([0xFFFF, seg a b, seg c d], True, [])" for k
    using read_groups_step(2) [OF v4, of _ ?q "Suc (Suc k)"] by (simp del: read_groups.simps)
  then have "read_groups 7 True (''ffff'' @ ?q) = ([0xFFFF, seg a b, seg c d], True, [])" by (metis numeral_eq_Suc pred_numeral_simps)
  moreover have "replicate 5 (0 :: u16) = [0, 0, 0, 0, 0]" by (simp add: eval_nat_numeral)
  ultimately show ?thesis
    by (simp add: parse_ip_def read_ipv6_def read_ipv4_colon read_groups_colon)
qed

lemma show_mapped:
  "join ''.'' (map (\<lambda>b. show_nat (unat b)) (concat (map (\<lambda>s. [drop_bit 8 s, s AND 0xFF]) [s6, s7]))) =
     show_ipv4 (hi8 s6) (lo8 s6) (hi8 s7) (lo8 (s7 :: u16))"
proof -
  have "unat (hi8 s) = unat (drop_bit 8 s)" "unat (lo8 s) = unat (s AND 0xFF)" for s :: u16
  proof -
    have "drop_bit 8 s = ucast (hi8 s)" unfolding hi8_def by (rule bit_word_eqI) (auto simp: bit_simps dest: bit_imp_le_length)
    then show "unat (hi8 s) = unat (drop_bit 8 s)" by (simp add: unat_ucast_u8_u16)
    have "s AND 0xFF = take_bit 8 s" by (simp add: take_bit_eq_mask mask_eq_exp_minus_1)
    also have "take_bit 8 s = ucast (lo8 s)" unfolding lo8_def by (rule bit_word_eqI) (auto simp: bit_simps)
    finally have "s AND 0xFF = ucast (lo8 s)" .
    then show "unat (lo8 s) = unat (s AND 0xFF)" by (simp only: unat_ucast_u8_u16)
  qed
  then show ?thesis by (simp add: show_ipv4_def join_Cons)
qed

theorem parse_ip_show_ip: "parse_ip (show_ip ip) = Some ip"
proof (cases ip)
  case (V4 a b c d)
  then show ?thesis by (simp add: show_ip_def parse_ip_show_ipv4)
next
  case (V6 s0 s1 s2 s3 s4 s5 s6 s7)
  let ?segs = "[s0, s1, s2, s3, s4, s5, s6, s7]"
  obtain st len where r: "longest_zeros 0 (0, 0) ?segs = (st, len)" by fastforce
  have "zeros_at ?segs (st, len)" using longest_zeros_at [of "[]" ?segs "(0, 0)"] r by (simp add: zeros_at_def)
  note c = parse_compressed [OF this]
  show ?thesis
  proof (cases "[s0, s1, s2, s3, s4, s5] = [0, 0, 0, 0, 0, 0xFFFF]")
    case True
    then show ?thesis using parse_mapped [of "hi8 s6" "lo8 s6" "hi8 s7" "lo8 s7"]
      by (simp add: show_ip_def V6 show_mapped del: list.map concat.simps)
  next
    case False
    then have "show_ip ip = (if len > 1 then show_segments (take st ?segs) @ ''::'' @ show_segments (drop (st + len) ?segs)
        else show_segments ?segs)"
      by (simp only: show_ip_def V6 ipaddr.case Let_def r prod.case if_False)
    then show ?thesis using c parse_segments [of ?segs] V6 by simp
  qed
qed

end
