(* ===== verification/Backup.thy ===== *)
theory Backup
  imports Api_Handlers Ip_Text Cli
begin

text \<open>
  The backup as a document: the JSON that \<open>GET /api/backup\<close> answers, what the body extractor of
  \<open>POST /api/restore\<close> makes of a body (\<open>src/api/backup.rs\<close>, the envelope \<open>ApiResponse\<close> and the body limit of
  \<open>src/api/mod.rs\<close>), and the two commands of \<open>src/main.rs\<close> that save and send it. The text of a JSON value is
  written and read by \<open>serde_json\<close>, the two operations of \<open>json_ops\<close>.
\<close>

subsection \<open>JSON values\<close>

datatype json = JNull | JBool bool | JNum int | JStr string | JArr "json list" | JObj "(string \<times> json) list"

record json_ops =
  json_write :: "json \<Rightarrow> string"
  json_read :: "string \<Rightarrow> json option"

text \<open>The derived \<open>Serialize\<close>: a structure is an object of its fields, in their order; an absent option with
  \<open>skip_serializing_if\<close> is left out.\<close>

definition ban_entry_json :: "string \<times> u64 \<Rightarrow> json" where
  "ban_entry_json e = JObj [(''ip'', JStr (fst e)), (''remaining_secs'', JNum (uint (snd e)))]"

definition usage_entry_json :: "quota_usage_entry \<Rightarrow> json" where
  "usage_entry_json e =
     JObj [(''daily_bytes'', JNum (uint (qe_daily_bytes e))), (''daily_connections'', JNum (uint (qe_daily_connections e))),
       (''monthly_bytes'', JNum (uint (qe_monthly_bytes e))), (''monthly_connections'', JNum (uint (qe_monthly_connections e))),
       (''total_bytes'', JNum (uint (qe_total_bytes e)))]"

definition payload_json :: "backup_payload \<Rightarrow> json" where
  "payload_json p =
     JObj [(''version'', JStr (bp_version p)), (''timestamp'', JStr (bp_timestamp p)),
       (''bans'', JArr (map ban_entry_json (bp_bans p))),
       (''quotas'', JObj (map (\<lambda>(u, e). (u, usage_entry_json e)) (bp_quotas p)))]"

definition response_json :: "('a \<Rightarrow> json) \<Rightarrow> 'a api_response \<Rightarrow> json" where
  "response_json f r =
     JObj ([(''success'', JBool (resp_success r))]
       @ (case resp_data r of None \<Rightarrow> [] | Some d \<Rightarrow> [(''data'', f d)])
       @ (case resp_error r of None \<Rightarrow> [] | Some e \<Rightarrow> [(''error'', JStr e)]))"

text \<open>The derived \<open>Deserialize\<close>: every field is needed once, other fields of an object are ignored; an array of the
  fields in order is accepted too. Numbers have to fit their type. A later entry of a map replaces an earlier one.\<close>

definition one_field :: "(string \<times> json) list \<Rightarrow> string \<Rightarrow> json option" where
  "one_field fs k = (case filter (\<lambda>(k', _). k' = k) fs of [(_, v)] \<Rightarrow> Some v | _ \<Rightarrow> None)"

fun struct_fields :: "string list \<Rightarrow> json \<Rightarrow> json list option" where
  "struct_fields ks (JObj fs) = those (map (one_field fs) ks)"
| "struct_fields ks (JArr vs) = (if length vs = length ks then Some vs else None)"
| "struct_fields ks _ = None"

fun read_str :: "json \<Rightarrow> string option" where
  "read_str (JStr s) = Some s"
| "read_str _ = None"

fun read_uint :: "nat \<Rightarrow> json \<Rightarrow> nat option" where
  "read_uint w (JNum n) = (if 0 \<le> n \<and> n < 2 ^ w then Some (nat n) else None)"
| "read_uint w _ = None"

definition read_u64 :: "json \<Rightarrow> u64 option" where
  "read_u64 j = map_option of_nat (read_uint 64 j)"

definition read_u32 :: "json \<Rightarrow> u32 option" where
  "read_u32 j = map_option of_nat (read_uint 32 j)"

definition read_ban_entry :: "json \<Rightarrow> (string \<times> u64) option" where
  "read_ban_entry j =
     (case struct_fields [''ip'', ''remaining_secs''] j of
        Some [i, r] \<Rightarrow> do { ip \<leftarrow> read_str i; secs \<leftarrow> read_u64 r; Some (ip, secs) }
      | _ \<Rightarrow> None)"

definition read_usage_entry :: "json \<Rightarrow> quota_usage_entry option" where
  "read_usage_entry j =
     (case struct_fields [''daily_bytes'', ''daily_connections'', ''monthly_bytes'', ''monthly_connections'', ''total_bytes''] j of
        Some [db, dc, mb, mc, tb] \<Rightarrow>
          do { db' \<leftarrow> read_u64 db; dc' \<leftarrow> read_u32 dc; mb' \<leftarrow> read_u64 mb; mc' \<leftarrow> read_u32 mc; tb' \<leftarrow> read_u64 tb;
               Some \<lparr>qe_daily_bytes = db', qe_daily_connections = dc', qe_monthly_bytes = mb', qe_monthly_connections = mc',
                 qe_total_bytes = tb'\<rparr> }
      | _ \<Rightarrow> None)"

fun read_bans :: "json \<Rightarrow> (string \<times> u64) list option" where
  "read_bans (JArr es) = those (map read_ban_entry es)"
| "read_bans _ = None"

fun read_quotas :: "json \<Rightarrow> (string, quota_usage_entry) dmap option" where
  "read_quotas (JObj fs) =
     map_option (\<lambda>es. fold (\<lambda>(u, e). dm_insert u e) es []) (those (map (\<lambda>(u, j). map_option (Pair u) (read_usage_entry j)) fs))"
| "read_quotas _ = None"

definition read_payload :: "json \<Rightarrow> backup_payload option" where
  "read_payload j =
     (case struct_fields [''version'', ''timestamp'', ''bans'', ''quotas''] j of
        Some [v, t, b, q] \<Rightarrow>
          do { version \<leftarrow> read_str v; timestamp \<leftarrow> read_str t; bans \<leftarrow> read_bans b; quotas \<leftarrow> read_quotas q;
               Some \<lparr>bp_version = version, bp_timestamp = timestamp, bp_bans = bans, bp_quotas = quotas\<rparr> }
      | _ \<Rightarrow> None)"

subsection \<open>The two requests\<close>

definition BODY_LIMIT :: nat where
  "BODY_LIMIT = 64 * 1024"

text \<open>The body of the answer of \<open>GET /api/backup\<close>.\<close>

definition backup_document :: "json_ops \<Rightarrow> backup_payload api_response \<Rightarrow> string" where
  "backup_document W r = json_write W (response_json payload_json r)"

text \<open>\<open>POST /api/restore\<close> with the body as it arrives: the extractor \<open>Json<BackupPayload>\<close> refuses a body over the
  limit (413), one that is not JSON (400) and one of another shape (422) before the handler runs.\<close>

definition restore_request ::
  "json_ops \<Rightarrow> chrono_ops \<Rightarrow> (nat \<Rightarrow> instant) \<Rightarrow> (nat \<Rightarrow> nat) \<Rightarrow> string \<Rightarrow> ('net, 'pk, 'fp, 'l, 'f) api_state
     \<Rightarrow> ('net, 'pk, 'fp, 'l, 'f) api_state \<times> nat \<times> (u32 \<times> u32) api_response option" where
  "restore_request W C now clk body S =
     (if BODY_LIMIT < length body then (S, 413, None)
      else case json_read W body of
        None \<Rightarrow> (S, 400, None)
      | Some j \<Rightarrow>
          (case read_payload j of
             None \<Rightarrow> (S, 422, None)
           | Some p \<Rightarrow> (case restore_handler C now clk p S of (S', status, r) \<Rightarrow> (S', status, Some r))))"

subsection \<open>The document reads back\<close>

lemma read_uint_word:
  "read_u64 (JNum (uint (x :: u64))) = Some x" "read_u32 (JNum (uint (y :: u32))) = Some y"
  using uint_lt2p [of x] uint_lt2p [of y] by (simp_all add: read_u64_def read_u32_def)

lemma read_ban_entry_json: "read_ban_entry (ban_entry_json e) = Some e"
  by (simp add: read_ban_entry_def ban_entry_json_def one_field_def read_uint_word)

lemma read_usage_entry_json: "read_usage_entry (usage_entry_json e) = Some e"
  by (simp add: read_usage_entry_def usage_entry_json_def one_field_def read_uint_word)

lemma those_map_Some: "(\<And>x. x \<in> set xs \<Longrightarrow> f x = Some (g x)) \<Longrightarrow> those (map f xs) = Some (map g xs)"
  by (induction xs) simp_all

lemma dm_insert_new: "k \<notin> fst ` set m \<Longrightarrow> dm_insert k v m = m @ [(k, v)]"
  unfolding dm_insert_def by (induction m) auto

lemma fold_insert_same: "distinct (map fst (m @ es)) \<Longrightarrow> fold (\<lambda>(u, e). dm_insert u e) es m = m @ es"
proof (induction es arbitrary: m)
  case (Cons x es)
  obtain u e where x: "x = (u, e)" by fastforce
  with Cons.prems have "dm_insert u e m = m @ [x]" by (intro trans [OF dm_insert_new]) auto
  with Cons x show ?case by simp
qed simp

lemma read_payload_json:
  assumes "dm_ok (bp_quotas p)"
  shows "read_payload (payload_json p) = Some p"
proof -
  have "read_bans (JArr (map ban_entry_json (bp_bans p))) = Some (bp_bans p)"
    using those_map_Some [of "bp_bans p" "\<lambda>e. read_ban_entry (ban_entry_json e)" id] by (simp add: read_ban_entry_json comp_def)
  moreover have "read_quotas (JObj (map (\<lambda>(u, e). (u, usage_entry_json e)) (bp_quotas p))) = Some (bp_quotas p)"
  proof -
    have "those (map (\<lambda>x. map_option (Pair (fst x)) (read_usage_entry (usage_entry_json (snd x)))) (bp_quotas p)) = Some (bp_quotas p)"
      using those_map_Some [of "bp_quotas p" "\<lambda>x. map_option (Pair (fst x)) (read_usage_entry (usage_entry_json (snd x)))" id]
      by (simp add: read_usage_entry_json)
    then show ?thesis using fold_insert_same [of "[]" "bp_quotas p"] assms by (simp add: case_prod_beta comp_def dm_ok_def)
  qed
  ultimately show ?thesis
    by (simp add: read_payload_def payload_json_def one_field_def del: read_bans.simps read_quotas.simps)
qed

subsection \<open>Restoring bans\<close>

lemma restore_bans_Cons:
  "bans (fst (restore_bans now (map (\<lambda>(ip, secs). (show_ip ip, secs)) ((ip', s) # bs)) B)) =
     bans (fst (restore_bans (\<lambda>i. now (Suc i)) (map (\<lambda>(ip, secs). (show_ip ip, secs)) bs)
       (if s > 0 then ban_ip (now 0) ip' (from_secs (unat s)) B else B)))"
  by (simp add: parse_ip_show_ip case_prod_beta)

lemma bans_ban_if:
  "map_of (bans (if c then ban_ip n ip' d B else B)) ip = (if ip = ip' \<and> c then Some (n + d) else map_of (bans B) ip)"
  by (simp add: ban_ip_def)

lemma restore_bans_other:
  assumes "ip \<notin> fst ` set bs"
  shows "map_of (bans (fst (restore_bans now (map (\<lambda>(ip, secs). (show_ip ip, secs)) bs) B))) ip = map_of (bans B) ip"
  using assms
proof (induction bs arbitrary: now B)
  case (Cons b bs)
  obtain ip' s where b: "b = (ip', s)" by fastforce
  with Cons show ?case unfolding b restore_bans_Cons by (simp add: bans_ban_if del: split_paired_All)
qed simp

lemma restore_bans_nth:
  assumes "distinct (map fst bs)" and "i < length bs" and "bs ! i = (ip, secs)"
  shows "map_of (bans (fst (restore_bans now (map (\<lambda>(ip, secs). (show_ip ip, secs)) bs) B))) ip =
      (if secs > 0 then Some (now i + from_secs (unat secs)) else map_of (bans B) ip)"
  using assms
proof (induction bs arbitrary: now B i)
  case (Cons b bs)
  obtain ip' s where b: "b = (ip', s)" by fastforce
  show ?case
  proof (cases i)
    case 0
    with Cons.prems b have "ip = ip'" "secs = s" "ip \<notin> fst ` set bs" by auto
    then show ?thesis unfolding b restore_bans_Cons by (simp add: restore_bans_other bans_ban_if 0)
  next
    case (Suc j)
    with Cons.prems b have j: "distinct (map fst bs)" "j < length bs" "bs ! j = (ip, secs)" by simp_all
    then have "(ip, secs) \<in> set bs" using nth_mem by metis
    then have "ip \<noteq> ip'" using Cons.prems(1) b by force
    then show ?thesis unfolding b restore_bans_Cons Cons.IH [OF j] by (simp add: bans_ban_if Suc)
  qed
qed simp

text \<open>The bans a backup names, with the seconds it gives them.\<close>

definition saved_bans :: "instant \<Rightarrow> (nat \<Rightarrow> instant) \<Rightarrow> 'net ban_manager \<Rightarrow> (ipaddr \<times> u64) list" where
  "saved_bans now later B = map (\<lambda>(i, ip, expiry). (ip, as_secs (expiry - later i))) (enumerate 0 (banned_ips now B))"

lemma saved_bans_keys: "map fst (saved_bans now later B) = map fst (banned_ips now B)"
proof -
  have "map (\<lambda>x. fst (snd x)) (enumerate n xs) = map fst xs" for n and xs :: "(ipaddr \<times> instant) list"
    by (induction xs arbitrary: n) simp_all
  then show ?thesis by (simp add: saved_bans_def case_prod_beta comp_def)
qed

lemma saved_bans_nth:
  "i < length (banned_ips now B) \<Longrightarrow> banned_ips now B ! i = (ip, e) \<Longrightarrow> saved_bans now later B ! i = (ip, as_secs (e - later i))"
  by (simp add: saved_bans_def nth_enumerate_eq)

lemma backup_bans:
  assumes "backup_handler C version stamp now later clk S = (S', st, \<lparr>resp_success = ok, resp_data = Some p, resp_error = err\<rparr>)"
  shows "bp_bans p = map (\<lambda>(ip, secs). (show_ip ip, secs)) (saved_bans now later (ban_mgr (ap_security S)))"
  using assms by (auto simp: backup_handler_def resp_ok_def saved_bans_def Let_def split: prod.splits)

lemma as_secs_small: "d div 1000000000 < 2 ^ 64 \<Longrightarrow> unat (as_secs d) = d div 1000000000"
  by (simp add: as_secs_def unsigned_of_nat take_bit_nat_eq_self)

lemma restored_ban:
  assumes "dm_ok (bans B)" and "i < length (banned_ips now B)" and "banned_ips now B ! i = (ip, e)"
    and "(e - later i) div 1000000000 < 2 ^ 64"
  shows "map_of (bans (fst (restore_bans now' (map (\<lambda>(ip, secs). (show_ip ip, secs)) (saved_bans now later B)) B2))) ip =
      (if later i + from_secs 1 \<le> e then Some (now' i + from_secs ((e - later i) div 1000000000)) else map_of (bans B2) ip)"
proof -
  have d: "distinct (map fst (saved_bans now later B))"
    using assms(1) by (simp add: saved_bans_keys banned_ips_def dm_ok_def distinct_map_filter)
  have "length (saved_bans now later B) = length (banned_ips now B)" by (simp add: saved_bans_def)
  then have i: "i < length (saved_bans now later B)" using assms(2) by simp
  have "as_secs (e - later i) > 0 \<longleftrightarrow> later i + from_secs 1 \<le> e"
    using as_secs_small [OF assms(4)] by (simp add: word_less_nat_alt from_secs_def) linarith
  then show ?thesis
    unfolding restore_bans_nth [OF d i saved_bans_nth [OF assms(2,3)]] by (simp add: as_secs_small [OF assms(4)])
qed

subsection \<open>Restoring counters\<close>

text \<open>Reading the usage of one user does not change what is read for another.\<close>

definition usage_at :: "chrono_ops \<Rightarrow> nat \<Rightarrow> string \<Rightarrow> quota_tracker \<Rightarrow> user_quota_usage" where
  "usage_at C t u T = snd (get_user_usage C t u T)"

lemma usage_at_view: "user_view C t u T = user_view C t u T' \<Longrightarrow> usage_at C t u T = usage_at C t u T'"
  by (simp add: usage_at_def get_user_usage_def get_user_eq case_prod_beta Let_def)

lemma usage_at_other: "u \<noteq> v \<Longrightarrow> usage_at C t u (fst (get_user_usage C t' v T)) = usage_at C t u T"
  by (rule usage_at_view) (simp add: user_view_def get_user_usage_def get_user_eq put_user_def case_prod_beta Let_def)

lemma usages_read:
  "distinct us \<Longrightarrow> snd (usages C (\<lambda>i. clk (i + n)) us T) = map (\<lambda>(i, u). (u, usage_at C (clk i) u T)) (enumerate n us)"
proof (induction us arbitrary: T n)
  case (Cons u us)
  let ?T = "fst (get_user_usage C (clk n) u T)"
  have "map (\<lambda>(i, v). (v, usage_at C (clk i) v ?T)) (enumerate (Suc n) us) =
      map (\<lambda>(i, v). (v, usage_at C (clk i) v T)) (enumerate (Suc n) us)"
  proof (rule map_cong [OF HOL.refl])
    fix x assume "x \<in> set (enumerate (Suc n) us)"
    then have "fst x - Suc n < length us" "us ! (fst x - Suc n) = snd x" by (auto simp: in_set_enumerate_eq)
    then have "snd x \<in> set us" using nth_mem by metis
    then have "snd x \<noteq> u" using Cons.prems by auto
    then show "(case x of (i, v) \<Rightarrow> (v, usage_at C (clk i) v ?T)) = (case x of (i, v) \<Rightarrow> (v, usage_at C (clk i) v T))"
      by (simp add: case_prod_beta usage_at_other)
  qed
  with Cons.IH [of "Suc n" ?T] Cons.prems show ?case by (simp add: case_prod_beta usage_at_def)
qed simp

lemma fold_insert_lookup:
  "distinct (map fst xs) \<Longrightarrow> map_of (fold (\<lambda>(u, x). dm_insert u (f x)) xs m) v =
     (case map_of xs v of Some x \<Rightarrow> Some (f x) | None \<Rightarrow> map_of m v)"
proof (induction xs arbitrary: m)
  case (Cons x xs)
  then have "map_of xs (fst x) = None" by (simp add: map_of_eq_None_iff)
  with Cons show ?case by (auto simp: case_prod_beta split: option.split)
qed simp

lemma backup_quotas:
  assumes "ap_quota S = Some T" and "dm_ok (user_state T)"
    and "backup_handler C version stamp now later clk S = (S', st, \<lparr>resp_success = ok, resp_data = Some p, resp_error = err\<rparr>)"
  shows "dm_contains (user_state T) u \<Longrightarrow>
      \<exists>i < length (user_state T). map_of (bp_quotas p) u = Some (usage_entry (usage_at C (clk i) u T))"
    and "\<not> dm_contains (user_state T) u \<Longrightarrow> map_of (bp_quotas p) u = None"
    and "dm_ok (bp_quotas p)"
proof -
  let ?xs = "map (\<lambda>(i, u). (u, usage_at C (clk i) u T)) (enumerate 0 (tracked_users T))"
  have d: "distinct (tracked_users T)" using assms(2) by (simp add: tracked_users_def dm_ok_def)
  have keys: "map fst ?xs = tracked_users T" by (simp add: case_prod_beta comp_def)
  have p: "bp_quotas p = fold (\<lambda>(u, x). dm_insert u (usage_entry x)) ?xs []"
    using assms(1,3) usages_read [OF d, of C clk 0 T]
    by (auto simp: backup_handler_def resp_ok_def Let_def split: prod.splits)
  have look: "map_of (bp_quotas p) u = map_option usage_entry (map_of ?xs u)" for u
    unfolding p using fold_insert_lookup [of ?xs usage_entry "[]" u] keys d by (simp split: option.split)
  show "\<exists>i < length (user_state T). map_of (bp_quotas p) u = Some (usage_entry (usage_at C (clk i) u T))"
    if "dm_contains (user_state T) u"
  proof -
    have "u \<in> set (tracked_users T)" using that by (simp add: tracked_users_def dm_contains_def)
    then obtain i where i: "i < length (tracked_users T)" "tracked_users T ! i = u" by (auto simp: in_set_conv_nth)
    then have "(u, usage_at C (clk i) u T) \<in> set ?xs" by (force simp: in_set_enumerate_eq)
    then have "map_of ?xs u = Some (usage_at C (clk i) u T)" using keys d by (intro map_of_is_SomeI) simp_all
    with i(1) look show ?thesis by (auto simp: tracked_users_def)
  qed
  show "map_of (bp_quotas p) u = None" if "\<not> dm_contains (user_state T) u"
  proof -
    have "u \<notin> set (map fst ?xs)" using that unfolding keys by (simp add: tracked_users_def dm_contains_def)
    then have "map_of ?xs u = None" unfolding map_of_eq_None_iff set_map .
    then show ?thesis using look by simp
  qed
  have "dm_ok (fold (\<lambda>(u, x). dm_insert u (usage_entry x)) xs m)" if "dm_ok m" for xs and m :: "(string, quota_usage_entry) dmap"
    using that by (induction xs arbitrary: m) auto
  then show "dm_ok (bp_quotas p)" unfolding p by simp
qed

definition with_counters :: "quota_usage_entry \<Rightarrow> user_bandwidth_state \<Rightarrow> user_bandwidth_state" where
  "with_counters e st = st\<lparr>daily_bytes := qe_daily_bytes e, daily_connections := qe_daily_connections e,
     monthly_bytes := qe_monthly_bytes e, monthly_connections := qe_monthly_connections e, total_bytes := qe_total_bytes e\<rparr>"

lemma restore_user_usage_lookup:
  "map_of (user_state (restore_user_usage C t v (qe_daily_bytes e) (qe_daily_connections e) (qe_monthly_bytes e)
      (qe_monthly_connections e) (qe_total_bytes e) T)) u =
     (if u = v then Some (with_counters e (user_view C t v T)) else map_of (user_state T) u)"
  by (simp add: restore_user_usage_def with_counters_def get_user_eq)

lemma restore_quotas_other:
  assumes "map_of es u = None"
  shows "map_of (user_state (fst (restore_quotas C clk es T))) u = map_of (user_state T) u"
  using assms
proof (induction es arbitrary: T clk)
  case (Cons x es)
  obtain v e where x: "x = (v, e)" by fastforce
  with Cons.prems have "u \<noteq> v" "map_of es u = None" by (auto split: if_splits)
  with Cons.IH show ?case by (simp add: x case_prod_beta restore_user_usage_lookup)
qed simp

lemma restore_quotas_lookup:
  assumes "dm_ok es" and "map_of es u = Some e"
  shows "\<exists>j < length es. map_of (user_state (fst (restore_quotas C clk es T))) u = Some (with_counters e (user_view C (clk j) u T))"
  using assms
proof (induction es arbitrary: T clk)
  case (Cons x es)
  obtain v e' where x: "x = (v, e')" by fastforce
  have ok: "dm_ok es" and new: "map_of es v = None" using Cons.prems x by (auto simp: dm_ok_def map_of_eq_None_iff)
  let ?T = "restore_user_usage C (clk 0) v (qe_daily_bytes e') (qe_daily_connections e') (qe_monthly_bytes e')
      (qe_monthly_connections e') (qe_total_bytes e') T"
  have eq: "fst (restore_quotas C clk (x # es) T) = fst (restore_quotas C (\<lambda>i. clk (Suc i)) es ?T)"
    by (simp add: x case_prod_beta)
  show ?case
  proof (cases "u = v")
    case True
    with Cons.prems(2) x have "e = e'" by simp
    with True show ?thesis unfolding eq by (intro exI [of _ 0]) (simp add: restore_quotas_other [OF new] restore_user_usage_lookup)
  next
    case False
    with Cons.prems(2) x have e: "map_of es u = Some e" by simp
    have "user_view C t u ?T = user_view C t u T" for t using False by (simp add: user_view_def restore_user_usage_lookup)
    with Cons.IH [OF ok e, of "\<lambda>i. clk (Suc i)" ?T] show ?thesis unfolding eq by (metis Suc_less_eq length_Cons)
  qed
qed simp

text \<open>The counters of an entry made at one time are read unchanged until the day or the month of that time ends.\<close>

lemma fresh_usage_read:
  assumes "map_of (user_state T) u = Some (with_counters e (ubs_new C t))"
    and "t' < next_day_boundary t" and "t' < next_month_boundary C t"
  shows "usage_entry (usage_at C t' u T) = e"
  using assms by (simp add: usage_at_def get_user_usage_def get_user_eq user_view_def lazy_reset_def ubs_new_def usage_entry_def
      with_counters_def case_prod_beta Let_def)

subsection \<open>Properties\<close>

text \<open>C31: the payload of a backup, sent to another server, restores it. The \<open>i\<close>-th ban of the list, if at the moment it
  was written it had at least a second left, is in force there for the whole seconds that were left, counted from the
  moment it is restored; all other bans there are as they were. The counters of a user whom the second server did not know
  read there, until the day or the month of the restoration ends, as they read when they were saved; users not in the backup keep
  theirs. This takes that the JSON library reads what it writes, that the payload is within the body limit and that
  durations fit 64 bits of seconds.\<close>

theorem backup_restores:
  assumes "json_read W (json_write W (payload_json p)) = Some (payload_json p)"
    and "backup_handler C version stamp now later clk S = (S', 200, \<lparr>resp_success = True, resp_data = Some p, resp_error = None\<rparr>)"
    and "length (json_write W (payload_json p)) \<le> BODY_LIMIT"
    and "dm_ok (bans (ban_mgr (ap_security S)))" and "\<And>k. (expiry - later k) div 1000000000 < 2 ^ 64"
    and "ap_quota S = Some T" and "dm_ok (user_state T)" and "ap_quota S2 = Some T2"
  shows "\<exists>S2' answer T2'. restore_request W C now' clk' (json_write W (payload_json p)) S2 = (S2', 200, Some answer)
    \<and> (\<forall>i < length (banned_ips now (ban_mgr (ap_security S))). banned_ips now (ban_mgr (ap_security S)) ! i = (ip, expiry)
        \<longrightarrow> map_of (bans (ban_mgr (ap_security S2'))) ip =
             (if later i + from_secs 1 \<le> expiry then Some (now' i + from_secs ((expiry - later i) div 1000000000))
              else map_of (bans (ban_mgr (ap_security S2))) ip))
    \<and> (ip \<notin> fst ` set (banned_ips now (ban_mgr (ap_security S)))
        \<longrightarrow> map_of (bans (ban_mgr (ap_security S2'))) ip = map_of (bans (ban_mgr (ap_security S2))) ip)
    \<and> ap_quota S2' = Some T2'
    \<and> (dm_contains (user_state T) u \<and> map_of (user_state T2) u = None
        \<longrightarrow> (\<exists>i < length (user_state T). \<exists>j < length (bp_quotas p). \<forall>t. t < next_day_boundary (clk' j) \<and> t < next_month_boundary C (clk' j)
              \<longrightarrow> usage_entry (usage_at C t u T2') = usage_entry (usage_at C (clk i) u T)))
    \<and> (\<not> dm_contains (user_state T) u \<longrightarrow> map_of (user_state T2') u = map_of (user_state T2) u)"
proof -
  let ?B = "ban_mgr (ap_security S)"
  note q = backup_quotas [OF assms(6,7,2)] and b = backup_bans [OF assms(2)]
  obtain S2' answer where h: "restore_handler C now' clk' p S2 = (S2', 200, answer)"
    using assms(8) by (auto simp: restore_handler_def resp_ok_def Let_def case_prod_beta)
  have A: "restore_request W C now' clk' (json_write W (payload_json p)) S2 = (S2', 200, Some answer)"
    using assms(1,3) read_payload_json [OF q(3)] h by (simp add: restore_request_def)
  have r: "ban_mgr (ap_security S2') = fst (restore_bans now' (bp_bans p) (ban_mgr (ap_security S2)))"
    "ap_quota S2' = Some (fst (restore_quotas C clk' (bp_quotas p) T2))"
    using h assms(8) by (auto simp: restore_handler_def resp_ok_def Let_def split: prod.splits)
  have listed: "\<forall>i < length (banned_ips now ?B). banned_ips now ?B ! i = (ip, expiry) \<longrightarrow> map_of (bans (ban_mgr (ap_security S2'))) ip =
      (if later i + from_secs 1 \<le> expiry then Some (now' i + from_secs ((expiry - later i) div 1000000000))
       else map_of (bans (ban_mgr (ap_security S2))) ip)"
    unfolding r(1) b by (intro allI impI restored_ban [OF assms(4)] assms(5))
  have "set (map fst (saved_bans now later ?B)) = fst ` set (banned_ips now ?B)" by (simp only: saved_bans_keys set_map)
  then have unlisted: "ip \<notin> fst ` set (banned_ips now ?B)
      \<Longrightarrow> map_of (bans (ban_mgr (ap_security S2'))) ip = map_of (bans (ban_mgr (ap_security S2))) ip"
    unfolding r(1) b by (intro restore_bans_other) simp
  have known: "\<exists>i < length (user_state T). \<exists>j < length (bp_quotas p). \<forall>t. t < next_day_boundary (clk' j) \<and> t < next_month_boundary C (clk' j)
      \<longrightarrow> usage_entry (usage_at C t u (fst (restore_quotas C clk' (bp_quotas p) T2))) = usage_entry (usage_at C (clk i) u T)"
    if k: "dm_contains (user_state T) u \<and> map_of (user_state T2) u = None"
  proof -
    obtain i where i: "i < length (user_state T)" "map_of (bp_quotas p) u = Some (usage_entry (usage_at C (clk i) u T))"
      using q(1) k by blast
    from restore_quotas_lookup [OF q(3) i(2), of C clk' T2] k i(1) show ?thesis
      by (auto simp: user_view_def intro: fresh_usage_read)
  qed
  have "map_of (user_state (fst (restore_quotas C clk' (bp_quotas p) T2))) u = map_of (user_state T2) u"
    if "\<not> dm_contains (user_state T) u" by (rule restore_quotas_other [OF q(2) [OF that]])
  with A listed unlisted r(2) known show ?thesis
    by (intro exI [of _ S2'] exI [of _ answer] exI [of _ "fst (restore_quotas C clk' (bp_quotas p) T2)"] conjI impI)
qed

text \<open>A JSON library for the witnesses: one text, for the document at hand.\<close>

definition one_document :: "json \<Rightarrow> json_ops" where
  "one_document j = \<lparr>json_write = (\<lambda>_. ''x''), json_read = (\<lambda>_. Some j)\<rparr>"

theorem backup_restores_witness:
  "\<exists>p S2' answer T2'. restore_request (one_document (payload_json p)) sample_chrono (\<lambda>i. 500 + i) (\<lambda>i. 60 + i mod 2) ''x'' sample_api = (S2', 200, Some answer)
     \<and> map_of (bans (ban_mgr (ap_security S2'))) (V4 1 2 3 4) = Some (500 + from_secs 99)
     \<and> ap_quota S2' = Some T2' \<and> qe_daily_bytes (usage_entry (usage_at sample_chrono 61 ''al'' T2')) = 7"
proof -
  obtain S' p where p: "backup_handler sample_chrono ''1'' ''now'' 0 (\<lambda>i. 5 + i) (\<lambda>i. 60 + i) sample_banned
      = (S', 200, \<lparr>resp_success = True, resp_data = Some p, resp_error = None\<rparr>)"
    by (simp add: backup_handler_def resp_ok_def Let_def case_prod_beta)
  have x: "qe_daily_bytes (usage_entry (usage_at sample_chrono (60 + i) ''al'' sample_used)) = 7" if "i < 1" for i
    using that by (simp add: usage_entry_def usage_at_def get_user_usage_def get_user_eq user_view_def sample_used_def ubs_new_def
        lazy_reset_def next_day_boundary_def next_month_boundary_def sample_chrono_def case_prod_beta Let_def)
  have s: "bans (ban_mgr (ap_security sample_banned)) = [(V4 1 2 3 4, from_secs 100)]" "ap_quota sample_banned = Some sample_used"
    "ap_quota sample_api = Some (tracker_new sample_limits 50)" "dm_ok (user_state sample_used)" "dm_contains (user_state sample_used) ''al''"
    "length (user_state sample_used) = 1"
    by (simp_all add: sample_banned_def sample_api_def sample_used_def dm_ok_def dm_contains_def)
  let ?W = "one_document (payload_json p)"
  have w: "json_read ?W (json_write ?W (payload_json p)) = Some (payload_json p)" "length (json_write ?W (payload_json p)) \<le> BODY_LIMIT"
    "json_write ?W (payload_json p) = ''x''" by (simp_all add: one_document_def BODY_LIMIT_def)
  have b: "banned_ips 0 (ban_mgr (ap_security sample_banned)) = [(V4 1 2 3 4, from_secs 100)]" by (simp add: banned_ips_def s(1) from_secs_def)
  have small: "(from_secs 100 - (5 + k)) div 1000000000 < 2 ^ 64" for k by (simp add: from_secs_def)
  have ok: "dm_ok (bans (ban_mgr (ap_security sample_banned)))" by (simp add: s(1) dm_ok_def)
  have t: "61 < next_day_boundary (60 + j mod 2) \<and> 61 < next_month_boundary sample_chrono (60 + j mod 2)" for j
    by (simp add: next_day_boundary_def next_month_boundary_def sample_chrono_def Let_def)
  from backup_restores [OF w(1) p w(2) ok small s(2,4,3), of "\<lambda>i. 500 + i" "\<lambda>i. 60 + i mod 2" "V4 1 2 3 4" "''al''"]
  obtain S2' answer T2' where r: "restore_request ?W sample_chrono (\<lambda>i. 500 + i) (\<lambda>i. 60 + i mod 2) ''x'' sample_api = (S2', 200, Some answer)"
    "map_of (bans (ban_mgr (ap_security S2'))) (V4 1 2 3 4) = Some (500 + from_secs 99)" "ap_quota S2' = Some T2'"
    and "\<exists>i<1. \<exists>j<length (bp_quotas p). \<forall>t. t < next_day_boundary (60 + j mod 2) \<and> t < next_month_boundary sample_chrono (60 + j mod 2)
      \<longrightarrow> usage_entry (usage_at sample_chrono t ''al'' T2') = usage_entry (usage_at sample_chrono (60 + i) ''al'' sample_used)"
    unfolding b s(6) w(3) by (auto simp: s(5) from_secs_def tracker_new_def)
  then obtain i where "i < 1" "usage_entry (usage_at sample_chrono 61 ''al'' T2') = usage_entry (usage_at sample_chrono (60 + i) ''al'' sample_used)"
    using t by blast
  with r x [of i] show ?thesis by metis
qed

text \<open>C36: a saved backup is not restored. \<open>s5 backup\<close> writes the whole answer of \<open>/api/backup\<close>, the envelope with its
  \<open>success\<close> and \<open>data\<close>, to the file, and says so; sent by \<open>s5 restore\<close>, that file is refused with 422, or with 413 over the body limit,
  and the server is left as it was.\<close>

theorem saved_backup_refused:
  assumes "backup_handler C version stamp now later clk S = (S', 200, answer)"
    and "json_read W (backup_document W answer) = Some (response_json payload_json answer)"
    and "http X ''GET'' (addr @ ''/api/backup'') [(''Authorization'', ''Bearer '' @ token)] [] = Some (200, Some (backup_document W answer))"
    and "can_write X path" and "read_to_string F path = Some (backup_document W answer)"
    and "http X ''POST'' (addr2 @ ''/api/restore'') [(''Authorization'', ''Bearer '' @ token2), (''Content-Type'', ''application/json'')]
           (backup_document W answer) = Some (fst (snd (restore_request W C now' clk' (backup_document W answer) S2)), reply)"
  shows "ef_written (fst (backup_client X (Some path) addr token)) = [(path, backup_document W answer)]
    \<and> snd (backup_client X (Some path) addr token) = Finish
    \<and> fst (restore_request W C now' clk' (backup_document W answer) S2) = S2
    \<and> snd (restore_client X F path addr2 token2) = Abort (HttpStatus (if length (backup_document W answer) > BODY_LIMIT then 413 else 422))"
proof -
  have "read_payload (response_json payload_json answer) = None"
    by (simp add: read_payload_def response_json_def one_field_def split: option.split)
  then have r: "restore_request W C now' clk' (backup_document W answer) S2 =
      (S2, if length (backup_document W answer) > BODY_LIMIT then 413 else 422, None)"
    using assms(2) by (simp add: restore_request_def)
  have "restore_client X F path addr2 token2 =
      (no_effects, Abort (HttpStatus (if length (backup_document W answer) > BODY_LIMIT then 413 else 422)))"
    using assms(5,6) by (simp add: restore_client_def r is_success_def)
  moreover have "ef_written (fst (backup_client X (Some path) addr token)) = [(path, backup_document W answer)]"
    "snd (backup_client X (Some path) addr token) = Finish"
    using assms(3,4) by (simp_all add: backup_client_def is_success_def write_file_def and_then_def eprints_def no_effects_def del: effects_simps)
  ultimately show ?thesis by (simp add: r)
qed

theorem saved_backup_refused_witness:
  "\<exists>(X :: ipaddr cli_ops) W. fst (restore_request W sample_chrono (\<lambda>_. 500) (\<lambda>_. 60) ''x'' sample_api) = sample_api
     \<and> snd (restore_client X sample_io ''b'' ''http://h'' ''t'') = Abort (HttpStatus 422)"
proof -
  define X :: "ipaddr cli_ops" where
    "X = undefined\<lparr>http := (\<lambda>m u h b. Some (if m = ''GET'' then (200, Some ''x'') else (422, None))), can_write := (\<lambda>p. True)\<rparr>"
  obtain S' answer where p: "backup_handler sample_chrono ''1'' ''now'' 0 (\<lambda>_. 0) (\<lambda>_. 60) sample_banned = (S', 200, answer)"
    by (simp add: backup_handler_def resp_ok_def Let_def case_prod_beta)
  define W where "W = one_document (response_json payload_json answer)"
  have d: "backup_document W answer = ''x''" by (simp add: backup_document_def W_def one_document_def)
  have n: "read_payload (response_json payload_json answer) = None"
    by (simp add: read_payload_def response_json_def one_field_def split: option.split)
  have q: "restore_request W sample_chrono (\<lambda>_. 500) (\<lambda>_. 60) ''x'' sample_api = (sample_api, 422, None)"
    using n by (simp add: restore_request_def W_def one_document_def BODY_LIMIT_def)
  have "json_read W (backup_document W answer) = Some (response_json payload_json answer)" by (simp add: W_def one_document_def)
  moreover have "http X ''GET'' (''http://h'' @ ''/api/backup'') [(''Authorization'', ''Bearer '' @ ''t'')] [] = Some (200, Some (backup_document W answer))"
    "can_write X ''b''" "read_to_string sample_io ''b'' = Some (backup_document W answer)"
    "http X ''POST'' (''http://h'' @ ''/api/restore'') [(''Authorization'', ''Bearer '' @ ''t''), (''Content-Type'', ''application/json'')]
       (backup_document W answer) = Some (fst (snd (restore_request W sample_chrono (\<lambda>_. 500) (\<lambda>_. 60) (backup_document W answer) sample_api)), None)"
    by (simp_all add: d q X_def sample_io_def)
  ultimately have "fst (restore_request W sample_chrono (\<lambda>_. 500) (\<lambda>_. 60) (backup_document W answer) sample_api) = sample_api
     \<and> snd (restore_client X sample_io ''b'' ''http://h'' ''t'')
         = Abort (HttpStatus (if length (backup_document W answer) > BODY_LIMIT then 413 else 422))"
    by (intro saved_backup_refused [OF p, THEN conjunct2, THEN conjunct2])
  then have "fst (restore_request W sample_chrono (\<lambda>_. 500) (\<lambda>_. 60) ''x'' sample_api) = sample_api
     \<and> snd (restore_client X sample_io ''b'' ''http://h'' ''t'') = Abort (HttpStatus 422)"
    unfolding d by (simp add: BODY_LIMIT_def)
  then show ?thesis by blast
qed

end
