(* ===== verification/Acl_Text.thy ===== *)
theory Acl_Text
  imports Acl
begin

text \<open>
  The rules of \<open>src/config/acl.rs\<close> as text: which rules \<open>AclRule::parse\<close> reads back from what
  \<open>Display\<close> prints of them, the form in which a decision names the rule it rests on. First that
  reading an address does not depend on the case of its letters, since the parser stores
  a host pattern in lower case.
\<close>

subsection \<open>Addresses in lower case\<close>

lemma to_digit_lower: "radix \<le> 16 \<Longrightarrow> to_digit radix (to_ascii_lower c) = to_digit radix c"
  by (auto simp: to_digit_def to_ascii_lower_def is_ascii_upper_def Let_def)

lemma digits_value_lower: "radix \<le> 16 \<Longrightarrow> digits_value radix acc (map to_ascii_lower s) = digits_value radix acc s"
  by (induction s arbitrary: acc) (simp_all add: to_digit_lower)

lemma to_ascii_lower_sep:
  "to_ascii_lower c = CHR ''.'' \<longleftrightarrow> c = CHR ''.''" "to_ascii_lower c = CHR '':'' \<longleftrightarrow> c = CHR '':''"
  "to_ascii_lower c = CHR ''/'' \<longleftrightarrow> c = CHR ''/''" "to_ascii_lower c = CHR ''['' \<longleftrightarrow> c = CHR ''[''"
  "to_ascii_lower c = CHR '']'' \<longleftrightarrow> c = CHR '']''" "to_ascii_lower c = CHR ''0'' \<longleftrightarrow> c = CHR ''0''"
proof -
  have *: "to_ascii_lower c = d \<longleftrightarrow> c = d" if "(of_char d :: nat) < 65 \<or> 90 < (of_char d :: nat) \<and> (of_char d :: nat) < 97" for d
  proof -
    have "\<not> is_ascii_upper d" using that by (auto simp: is_ascii_upper_def)
    moreover have "(of_char (to_ascii_lower c) :: nat) \<ge> 97" if "is_ascii_upper c"
      using that by (simp add: to_ascii_lower_def is_ascii_upper_def)
    ultimately show ?thesis using that by (cases "is_ascii_upper c") (auto simp: to_ascii_lower_def)
  qed
  show "to_ascii_lower c = CHR ''.'' \<longleftrightarrow> c = CHR ''.''" "to_ascii_lower c = CHR '':'' \<longleftrightarrow> c = CHR '':''"
    "to_ascii_lower c = CHR ''/'' \<longleftrightarrow> c = CHR ''/''" "to_ascii_lower c = CHR ''['' \<longleftrightarrow> c = CHR ''[''"
    "to_ascii_lower c = CHR '']'' \<longleftrightarrow> c = CHR '']''" "to_ascii_lower c = CHR ''0'' \<longleftrightarrow> c = CHR ''0''"
    by (rule *; simp)+
qed

text \<open>A reader of a prefix that takes no notice of case: the same result, and the rest in lower case.\<close>

definition caseless :: "(string \<Rightarrow> ('a \<times> string) option) \<Rightarrow> bool" where
  "caseless f \<longleftrightarrow> (\<forall>s. f (map to_ascii_lower s) = map_option (map_prod id (map to_ascii_lower)) (f s))"

lemma caseless_number: "radix \<le> 16 \<Longrightarrow> caseless (read_number radix md z b)"
proof -
  assume r: "radix \<le> 16"
  let ?d = "\<lambda>c. to_digit radix c \<noteq> None"
  have "takeWhile ?d (map to_ascii_lower s) = map to_ascii_lower (takeWhile ?d s)"
    "dropWhile ?d (map to_ascii_lower s) = map to_ascii_lower (dropWhile ?d s)" for s
    by (simp_all add: takeWhile_map dropWhile_map comp_def to_digit_lower [OF r])
  moreover have "hd (map to_ascii_lower s) = CHR ''0'' \<longleftrightarrow> hd s = CHR ''0''" if "s \<noteq> []" for s
    using that by (simp add: hd_map to_ascii_lower_sep)
  ultimately show ?thesis
    by (auto simp: caseless_def read_number_def Let_def digits_value_lower [OF r])
qed

lemma caseless_separator:
  assumes "caseless f" and "\<And>x. to_ascii_lower x = c \<longleftrightarrow> x = c"
  shows "caseless (read_separator c is_first f)"
  using assms by (auto simp: caseless_def read_separator_def split: list.split)

lemma caseless_bind:
  assumes "caseless f" and "\<And>x. caseless (g x)"
  shows "caseless (\<lambda>s. f s \<bind> (\<lambda>(x, t). g x t))"
  using assms by (auto simp: caseless_def Option.bind_map_option split: Option.bind_splits option.splits)

lemma caseless_ipv4: "caseless read_ipv4"
proof -
  have o: "caseless (read_separator CHR ''.'' first read_octet)" for first
    unfolding read_octet_def by (intro caseless_separator caseless_number) (simp_all add: to_ascii_lower_sep)
  have r: "caseless (\<lambda>s. Some (x, s))" for x by (simp add: caseless_def)
  show ?thesis unfolding read_ipv4_def by (intro caseless_bind o r)
qed

lemma caseless_group: "caseless read_group"
  unfolding read_group_def by (rule caseless_number) simp

lemma read_groups_lower:
  "read_groups k first (map to_ascii_lower s) =
     (let (gs, v4, r) = read_groups k first s in (gs, v4, map to_ascii_lower r))"
proof (induction k first s rule: read_groups.induct)
  case (2 k first s)
  have i: "read_separator CHR '':'' first read_ipv4 (map to_ascii_lower s) =
      map_option (map_prod id (map to_ascii_lower)) (read_separator CHR '':'' first read_ipv4 s)"
    and g: "read_separator CHR '':'' first read_group (map to_ascii_lower s) =
      map_option (map_prod id (map to_ascii_lower)) (read_separator CHR '':'' first read_group s)"
    using caseless_separator [OF caseless_ipv4, of "CHR '':''" first] caseless_separator [OF caseless_group, of "CHR '':''" first]
    by (simp_all add: caseless_def to_ascii_lower_sep)
  show ?case
    using 2 by (simp add: i g split: option.split ipaddr.split prod.split)
qed simp

lemma caseless_ipv6: "caseless read_ipv6"
  unfolding caseless_def
proof
  fix s
  obtain head v s1 where h: "read_groups 8 True s = (head, v, s1)" using prod_cases3 by blast
  show "read_ipv6 (map to_ascii_lower s) = map_option (map_prod id (map to_ascii_lower)) (read_ipv6 s)"
    by (auto simp: read_ipv6_def h read_groups_lower Let_def to_ascii_lower_sep option.map_comp comp_def
        split: list.split prod.split)
qed

lemma parse_ip_lower: "parse_ip (to_ascii_lowercase s) = parse_ip s"
proof -
  have "read_ipv4 (map to_ascii_lower s) = map_option (map_prod id (map to_ascii_lower)) (read_ipv4 s)"
    "read_ipv6 (map to_ascii_lower s) = map_option (map_prod id (map to_ascii_lower)) (read_ipv6 s)"
    using caseless_ipv4 caseless_ipv6 by (simp_all add: caseless_def)
  then show ?thesis
    by (auto simp: parse_ip_def to_ascii_lowercase_def split: option.split list.split)
qed

subsection \<open>What the parser gives\<close>

lemma parse_port_match_wf: "parse_port_match s = Inr pm \<Longrightarrow> wf_port pm"
  by (auto simp: parse_port_match_def not_less split: if_splits option.splits)

text \<open>A host part that starts with a bracket was itself in brackets, and so holds no closing one.\<close>

lemma find_char_Some: "find_char c s = Some i \<Longrightarrow> i < length s \<and> c \<notin> set (take i s)"
proof (induction s arbitrary: i)
  case (Cons x s)
  then show ?case by (cases i) (auto split: if_splits option.splits)
qed simp

lemma split_host_bracket:
  assumes "split_host_port s = Inr (h, p)" and "h \<noteq> []" and "hd h = CHR ''[''"
  shows "CHR '']'' \<notin> set h"
proof (cases "s \<noteq> [] \<and> hd s = CHR ''[''")
  case True
  then obtain i where i: "find_char CHR '']'' s = Some i" "h = drop 1 (take i s)"
    using assms(1) by (auto simp: split_host_port_def Let_def split: option.splits if_splits)
  then show ?thesis using find_char_Some [OF i(1)] by (auto dest: in_set_dropD)
next
  case False
  then have "h = s \<or> (\<exists>n. h = take n s)" using assms(1) by (auto simp: split_host_port_def Let_def split: option.splits if_splits)
  with False assms(2,3) show ?thesis by auto
qed

lemma parsed_host:
  assumes "acl_rule_parse N s = Inr (HostPattern pat pm)"
  obtains h p where "split_host_port s = Inr (h, p)" and "pat = to_ascii_lowercase h" and "net_parse N h = None"
    and "parse_ip h = None" and "wf_port pm"
  using assms parse_port_match_wf by (auto simp: acl_rule_parse_def split: sum.splits option.splits)

lemma parsed_cidr: "acl_rule_parse N s = Inr (Cidr n pm) \<Longrightarrow> wf_port pm"
  using parse_port_match_wf by (auto simp: acl_rule_parse_def split: sum.splits option.splits)

subsection \<open>Patterns that do not read back\<close>

text \<open>A pattern that the printed form hides: it starts with a bracket, or has a colon and no slash.\<close>

definition ambiguous_pattern :: "string \<Rightarrow> bool" where
  "ambiguous_pattern pat \<longleftrightarrow> (pat \<noteq> [] \<and> hd pat = CHR ''['') \<or> (CHR '':'' \<in> set pat \<and> CHR ''/'' \<notin> set pat)"

lemma bracket_fails:
  assumes "pat \<noteq> []" and "hd pat = CHR ''[''" and "CHR '']'' \<notin> set pat"
  shows "\<exists>e. acl_rule_parse N (pat @ CHR '':'' # show_port_match pm) = Inl e"
proof -
  have "CHR '']'' \<notin> set (show_nat n)" for n using show_nat_digits [of n] by (auto simp: list_all_iff is_ascii_digit_def)
  then have "CHR '']'' \<notin> set (show_port_match pm)" by (cases pm) auto
  with assms show ?thesis by (auto simp: acl_rule_parse_def split_host_port_def find_char_none hd_append)
qed

lemma colon_changes:
  assumes "pat = [] \<or> hd pat \<noteq> CHR ''[''" and "CHR '':'' \<in> set pat" and "CHR ''/'' \<notin> set pat"
  shows "acl_rule_parse N (pat @ CHR '':'' # show_port_match pm) \<noteq> Inr (HostPattern pat pm')"
proof -
  let ?s = "pat @ CHR '':'' # show_port_match pm"
  have "hd ?s \<noteq> CHR ''[''" using assms(1) by (cases pat) auto
  then have "split_host_port ?s = Inr (?s, ''*'')"
    using assms(2,3) by (simp add: split_host_port_def rfind_char_append show_port_no_colon Let_def)
  moreover have "to_ascii_lowercase ?s \<noteq> pat"
  proof
    assume "to_ascii_lowercase ?s = pat"
    then have "length (to_ascii_lowercase ?s) = length pat" by (rule arg_cong)
    then show False by simp
  qed
  ultimately show ?thesis by (auto simp: acl_rule_parse_def split: option.split sum.split)
qed

subsection \<open>Properties\<close>

text \<open>C20: which rules read back. For every text the parser accepts as a rule, printing the rule
  and parsing what is printed gives the same rule, exactly unless it is a host pattern that starts with an opening bracket
  or holds a colon and no slash. For a network this takes that the \<open>ipnet\<close> printer writes
  \<open>address/prefix\<close> and its parser reads that; for a pattern, that the \<open>ipnet\<close> parser takes no notice
  of case.\<close>

theorem parsed_rule_reads_back:
  assumes "acl_rule_parse N s = Inr r"
    and "\<And>n pm. r = Cidr n pm \<Longrightarrow>
      net_parse N (net_show N n) = Some n \<and> CHR ''/'' \<in> set (net_show N n) \<and> hd (net_show N n) \<noteq> CHR ''[''"
    and "\<And>h. net_parse N h = None \<Longrightarrow> net_parse N (to_ascii_lowercase h) = None"
  shows "acl_rule_parse N (show_acl_rule N r) = Inr r \<longleftrightarrow> \<not> (\<exists>pat pm. r = HostPattern pat pm \<and> ambiguous_pattern pat)"
proof (cases r)
  case (Cidr n pm)
  with assms(1) have "wf_port pm" by (auto dest: parsed_cidr)
  moreover have "split_host_port (net_show N n @ CHR '':'' # show_port_match pm) = Inr (net_show N n, show_port_match pm)"
    using assms(2) [OF Cidr] by (intro split_host_port_show) (auto simp: show_port_no_colon)
  ultimately show ?thesis
    using assms(2) [OF Cidr] Cidr by (simp add: acl_rule_parse_def parse_port_match_show)
next
  case (HostPattern pat pm)
  from assms(1) [unfolded HostPattern] obtain h p where h: "split_host_port s = Inr (h, p)" "pat = to_ascii_lowercase h"
    "net_parse N h = None" "parse_ip h = None" "wf_port pm" by (rule parsed_host)
  show ?thesis
  proof (cases "ambiguous_pattern pat")
    case False
    then have "split_host_port (pat @ CHR '':'' # show_port_match pm) = Inr (pat, show_port_match pm)"
      by (intro split_host_port_show) (auto simp: ambiguous_pattern_def show_port_no_colon)
    with h assms(3) [OF h(3)] False show ?thesis
      by (simp add: acl_rule_parse_def parse_port_match_show HostPattern parse_ip_lower)
  next
    case True
    have "CHR '']'' \<notin> set pat" if "pat \<noteq> []" "hd pat = CHR ''[''"
    proof -
      have "h \<noteq> []" "hd h = CHR ''[''" using that h(2) by (auto simp: to_ascii_lowercase_def hd_map to_ascii_lower_sep)
      then have "CHR '']'' \<notin> set h" by (rule split_host_bracket [OF h(1)])
      then show ?thesis using h(2) to_ascii_lower_sep(5) by (metis imageE list.set_map to_ascii_lowercase_def)
    qed
    then have "acl_rule_parse N (pat @ CHR '':'' # show_port_match pm) \<noteq> Inr (HostPattern pat pm)"
      using bracket_fails [of pat N pm] colon_changes [of pat N pm pm] True
      by (cases "pat \<noteq> [] \<and> hd pat = CHR ''[''") (auto simp: ambiguous_pattern_def)
    with True show ?thesis by (simp add: HostPattern)
  qed
qed

text \<open>A printer and parser of one network, \<open>10.0.0.0/8\<close>, that has the properties assumed.\<close>

definition ten_net :: "unit ipnet_ops" where
  "ten_net = \<lparr>net_parse = (\<lambda>s. if s = ''10.0.0.0/8'' then Some () else None), net_of_ip = (\<lambda>_. ()),
     net_contains = (\<lambda>_ ip. case ip of V4 a _ _ _ \<Rightarrow> a = 10 | _ \<Rightarrow> False), net_show = (\<lambda>_. ''10.0.0.0/8'')\<rparr>"

lemma ten_net_caseless: "net_parse ten_net h = None \<Longrightarrow> net_parse ten_net (to_ascii_lowercase h) = None"
proof (rule ccontr)
  assume n: "net_parse ten_net h = None" and "net_parse ten_net (to_ascii_lowercase h) \<noteq> None"
  then have l: "to_ascii_lowercase h = ''10.0.0.0/8''" by (simp add: ten_net_def split: if_splits)
  have "c = to_ascii_lower c" if "c \<in> set h" for c
  proof -
    have "to_ascii_lower c \<in> set (to_ascii_lowercase h)" using that by (simp add: to_ascii_lowercase_def)
    then have "(of_char (to_ascii_lower c) :: nat) < 97" by (auto simp: l)
    then have "\<not> is_ascii_upper c" by (auto simp: to_ascii_lower_def is_ascii_upper_def)
    then show ?thesis by (simp add: to_ascii_lower_def)
  qed
  then have "to_ascii_lowercase h = h" by (simp add: to_ascii_lowercase_def map_idI)
  with l n show False by (simp add: ten_net_def)
qed

lemma ten_net_rules:
  "acl_rule_parse ten_net ''10.0.0.0/8:443'' = Inr (Cidr () (PortExact 443))"
  "acl_rule_parse ten_net ''[x:y]:80'' = Inr (HostPattern ''x:y'' (PortExact 80))"
proof -
  have "parse_port_match ''443'' = Inr (PortExact 443)" "parse_port_match ''80'' = Inr (PortExact 80)"
    by (simp_all add: parse_port_match_def parse_u16_def parse_uint_def is_ascii_digit_def to_digit_def)
  moreover have "parse_ip ''x:y'' = None" by (rule parse_ip_not_hex) (simp_all add: to_digit_def)
  moreover have "to_ascii_lowercase ''x:y'' = ''x:y''" by code_simp
  ultimately show "acl_rule_parse ten_net ''10.0.0.0/8:443'' = Inr (Cidr () (PortExact 443))"
    "acl_rule_parse ten_net ''[x:y]:80'' = Inr (HostPattern ''x:y'' (PortExact 80))"
    by (simp_all add: acl_rule_parse_def split_host_port_def ten_net_def numeral_nat)
qed

theorem parsed_rule_reads_back_witness:
  "acl_rule_parse ten_net (show_acl_rule ten_net (Cidr () (PortExact 443))) = Inr (Cidr () (PortExact 443))
   \<and> acl_rule_parse ten_net (show_acl_rule ten_net (HostPattern ''x:y'' (PortExact 80))) \<noteq> Inr (HostPattern ''x:y'' (PortExact 80))"
  using parsed_rule_reads_back [OF ten_net_rules(1) _ ten_net_caseless]
    parsed_rule_reads_back [OF ten_net_rules(2) _ ten_net_caseless]
  by (simp add: ten_net_def ambiguous_pattern_def)

end
