(* ===== verification/Pool.thy ===== *)
theory Pool
  imports Net
begin

text \<open>
  Models \<open>src/proxy/pool.rs\<close> (idle connections per host and port, newest first, with an idle
  timeout and a bound per host) and \<open>src/proxy/retry.rs\<close> (connection attempts with
  exponential back-off). A TCP stream is an opaque value; what a connection attempt gives is an
  argument.
\<close>

subsection \<open>Pool\<close>

record 's pooled =
  stream :: 's
  created_at :: instant

text \<open>The vector of a host, newest connection last, as in the source.\<close>

record 's pool =
  connections :: "(string, 's pooled list) dmap"
  max_idle_per_host :: nat
  idle_timeout :: duration
  pool_enabled :: bool
  pool_hits :: u64
  pool_misses :: u64

definition pool_new :: "nat \<Rightarrow> nat \<Rightarrow> bool \<Rightarrow> 's pool" where
  "pool_new max_idle timeout_secs en =
     \<lparr>connections = [], max_idle_per_host = max_idle, idle_timeout = from_secs timeout_secs, pool_enabled = en,
      pool_hits = 0, pool_misses = 0\<rparr>"

definition pool_key :: "string \<Rightarrow> u16 \<Rightarrow> string" where
  "pool_key host port = host @ '':'' @ show_nat (unat port)"

definition pooled_expired :: "instant \<Rightarrow> duration \<Rightarrow> 's pooled \<Rightarrow> bool" where
  "pooled_expired now timeout c \<longleftrightarrow> now - created_at c > timeout"

text \<open>The pop loop on the reversed vector (newest first): the first live connection and what is left.\<close>

fun pop_live :: "instant \<Rightarrow> duration \<Rightarrow> 's pooled list \<Rightarrow> ('s pooled \<times> 's pooled list) option" where
  "pop_live now timeout [] = None"
| "pop_live now timeout (c # cs) = (if pooled_expired now timeout c then pop_live now timeout cs else Some (c, cs))"

definition pool_get :: "instant \<Rightarrow> string \<Rightarrow> u16 \<Rightarrow> 's pool \<Rightarrow> 's pool \<times> 's option" where
  "pool_get now host port P =
     (if \<not> pool_enabled P then (P, None)
      else
        (let key = pool_key host port in
         case map_of (connections P) key of
           None \<Rightarrow> (P, None)
         | Some conns \<Rightarrow>
             (case pop_live now (idle_timeout P) (rev conns) of
                Some (c, rest) \<Rightarrow>
                  (P\<lparr>connections := (if rest = [] then dm_remove key (connections P)
                                     else dm_insert key (rev rest) (connections P)),
                     pool_hits := pool_hits P + 1\<rparr>, Some (stream c))
              | None \<Rightarrow>
                  (P\<lparr>connections := dm_remove key (connections P), pool_misses := pool_misses P + 1\<rparr>, None))))"

definition pool_put :: "instant \<Rightarrow> string \<Rightarrow> u16 \<Rightarrow> 's \<Rightarrow> 's pool \<Rightarrow> 's pool" where
  "pool_put now host port s P =
     (if \<not> pool_enabled P then P
      else
        (let key = pool_key host port; (m, conns) = dm_entry key [] (connections P) in
         if length conns \<ge> max_idle_per_host P then P\<lparr>connections := m\<rparr>
         else P\<lparr>connections := dm_insert key (conns @ [\<lparr>stream = s, created_at = now\<rparr>]) m\<rparr>))"

definition pool_cleanup :: "instant \<Rightarrow> 's pool \<Rightarrow> 's pool" where
  "pool_cleanup now P =
     P\<lparr>connections := dm_retain (\<lambda>_ conns. conns \<noteq> [])
         (map (\<lambda>(k, conns). (k, filter (\<lambda>c. now - created_at c \<le> idle_timeout P) conns)) (connections P))\<rparr>"

definition pool_len :: "'s pool \<Rightarrow> nat" where
  "pool_len P = sum_list (map (length \<circ> snd) (connections P))"

definition host_count :: "'s pool \<Rightarrow> nat" where
  "host_count P = length (connections P)"

subsection \<open>Retry\<close>

definition MAX_BACKOFF_MS :: nat where
  "MAX_BACKOFF_MS = 10000"

definition saturating_double :: "nat \<Rightarrow> nat" where
  "saturating_double d = min (d * 2) (2 ^ 64 - 1)"

text \<open>The loop from attempt \<open>a\<close> on, with \<open>k\<close> attempts left after it. \<open>try a\<close> is what attempt \<open>a\<close>
  gives; the result carries the delays slept so far.\<close>

fun retry_loop :: "(nat \<Rightarrow> 'e + 's) \<Rightarrow> nat \<Rightarrow> nat \<Rightarrow> nat \<Rightarrow> nat list \<Rightarrow> nat list \<times> ('e + 's)" where
  "retry_loop try a 0 d slept =
     (let (d', slept') = (if a > 0 then (saturating_double d, slept @ [min d MAX_BACKOFF_MS]) else (d, slept))
      in (slept', try a))"
| "retry_loop try a (Suc k) d slept =
     (let (d', slept') = (if a > 0 then (saturating_double d, slept @ [min d MAX_BACKOFF_MS]) else (d, slept))
      in case try a of Inr s \<Rightarrow> (slept', Inr s) | Inl e \<Rightarrow> retry_loop try (Suc a) k d' slept')"

definition connect_with_retry :: "(nat \<Rightarrow> 'e + 's) \<Rightarrow> nat \<Rightarrow> nat \<Rightarrow> nat list \<times> ('e + 's)" where
  "connect_with_retry try max_retries delay_ms = retry_loop try 0 max_retries delay_ms []"

subsection \<open>Lemmas\<close>

lemma pop_live_props:
  "pop_live now t cs = Some (c, rest) \<Longrightarrow>
   \<not> pooled_expired now t c \<and> c \<in> set cs \<and> (\<exists>pre. cs = pre @ c # rest \<and> list_all (pooled_expired now t) pre)"
proof (induction cs)
  case (Cons x cs)
  show ?case
  proof (cases "pooled_expired now t x")
    case True
    with Cons obtain pre where "cs = pre @ c # rest" "list_all (pooled_expired now t) pre" "\<not> pooled_expired now t c"
      by auto
    with True show ?thesis by (auto intro!: exI [of _ "x # pre"])
  next
    case False
    with Cons.prems show ?thesis by auto
  qed
qed simp

lemma saturating_min: "min (saturating_double d) MAX_BACKOFF_MS = min (d * 2) MAX_BACKOFF_MS"
  by (simp add: saturating_double_def MAX_BACKOFF_MS_def)

lemma saturating_min_mult:
  "min (saturating_double d * k) MAX_BACKOFF_MS = min (d * 2 * k) MAX_BACKOFF_MS"
proof (cases "d * 2 \<le> 2 ^ 64 - 1")
  case False
  then have "saturating_double d = 2 ^ 64 - 1" by (simp add: saturating_double_def)
  with False show ?thesis by (cases k) (auto simp: MAX_BACKOFF_MS_def)
qed (simp add: saturating_double_def)

lemma retry_loop_delays:
  "fst (retry_loop try (Suc a) k d slept) =
     slept @ map (\<lambda>i. min (d * 2 ^ i) MAX_BACKOFF_MS) [0..<Suc (length (takeWhile (\<lambda>i. \<exists>e. try (Suc a + i) = Inl e) [0..<k]))]"
proof (induction k arbitrary: a d slept)
  case (Suc k)
  let ?tw = "\<lambda>b n. length (takeWhile (\<lambda>i. \<exists>e. try (b + i) = Inl e) [0..<n])"
  have shift: "map (\<lambda>i. min (saturating_double d * 2 ^ i) MAX_BACKOFF_MS) [0..<n] = map (\<lambda>i. min (d * 2 ^ i) MAX_BACKOFF_MS) [1..<Suc n]" for n
  proof -
    have "map f [1..<Suc n] = map (\<lambda>i. f (Suc i)) [0..<n]" for f :: "nat \<Rightarrow> nat"
      by (simp only: One_nat_def map_Suc_upt [symmetric] map_map comp_def)
    then show ?thesis using saturating_min_mult [of d] by (simp add: mult.assoc del: upt_Suc)
  qed
  show ?case
  proof (cases "try (Suc a)")
    case (Inl e)
    have "[0..<Suc k] = 0 # map Suc [0..<k]" by (simp add: map_Suc_upt upt_conv_Cons del: upt_Suc)
    then have tw: "?tw (Suc a) (Suc k) = Suc (?tw (Suc (Suc a)) k)"
      using Inl by (simp add: takeWhile_map comp_def)
    have "fst (retry_loop try (Suc a) (Suc k) d slept) = fst (retry_loop try (Suc (Suc a)) k (saturating_double d) (slept @ [min d MAX_BACKOFF_MS]))"
      using Inl by simp
    also have "\<dots> = slept @ min d MAX_BACKOFF_MS # map (\<lambda>i. min (d * 2 ^ i) MAX_BACKOFF_MS) [1..<Suc (Suc (?tw (Suc (Suc a)) k))]"
      unfolding Suc.IH shift by simp
    also have "\<dots> = slept @ map (\<lambda>i. min (d * 2 ^ i) MAX_BACKOFF_MS) [0..<Suc (Suc (?tw (Suc (Suc a)) k))]"
      by (simp add: upt_conv_Cons del: upt_Suc)
    finally show ?thesis unfolding tw .
  next
    case (Inr s)
    then have "?tw (Suc a) (Suc k) = 0" by (simp add: upt_conv_Cons del: upt_Suc)
    with Inr show ?thesis by simp
  qed
qed simp

lemma retry_loop_result:
  "snd (retry_loop try a k d slept) =
     (case find (\<lambda>i. \<exists>s. try i = Inr s) [a..<Suc (a + k)] of Some i \<Rightarrow> try i | None \<Rightarrow> try (a + k))"
proof (induction k arbitrary: a d slept)
  case (Suc k)
  have u: "[a..<Suc (a + Suc k)] = a # [Suc a..<Suc (Suc a + k)]" by (simp add: upt_conv_Cons del: upt_Suc)
  show ?case unfolding u using Suc by (cases "try a") (simp_all add: Let_def case_prod_beta del: upt_Suc split: option.split)
qed (auto simp: Let_def case_prod_beta split: sum.splits)

subsection \<open>Properties\<close>

text \<open>The pool hands out the newest live connection of the host: never an expired one, and every
  younger one it skipped had expired.\<close>

theorem pool_get_newest_live:
  assumes "pool_get now host port P = (P', Some s)"
  shows "\<exists>conns pre c rest. map_of (connections P) (pool_key host port) = Some conns \<and> rev conns = pre @ c # rest
     \<and> stream c = s \<and> now - created_at c \<le> idle_timeout P \<and> list_all (pooled_expired now (idle_timeout P)) pre"
proof -
  obtain conns c rest where c: "map_of (connections P) (pool_key host port) = Some conns"
    "pop_live now (idle_timeout P) (rev conns) = Some (c, rest)" "stream c = s"
    using assms by (auto simp: pool_get_def Let_def split: option.splits if_splits prod.splits)
  from pop_live_props [OF this(2)] c show ?thesis by (fastforce simp: pooled_expired_def not_less)
qed

theorem pool_get_newest_live_witness:
  "snd (pool_get 9 ''h'' 80 (pool_put 8 ''h'' 80 (2 :: nat) (pool_put 1 ''h'' 80 1 (pool_new 5 1 True)))) = Some 2"
proof -
  let ?P = "pool_put 8 ''h'' 80 (2 :: nat) (pool_put 1 ''h'' 80 1 (pool_new 5 1 True))"
  have g: "pool_get 9 ''h'' 80 ?P = (fst (pool_get 9 ''h'' 80 ?P), Some 2)"
    by (simp add: pool_get_def pool_put_def pool_new_def pooled_expired_def dm_entry_def from_secs_def Let_def)
  from pool_get_newest_live [OF this] g show ?thesis by (metis snd_conv)
qed

text \<open>Back-off is exponential and capped, and every attempt counts: the \<open>i\<close>-th wait is
  \<open>min (delay * 2^i) 10000\<close> milliseconds, there are at most \<open>max_retries\<close> waits, and the
  result is that of the first successful attempt, or of the last one, so a success among the
  first \<open>1 + max_retries\<close> attempts is never missed.\<close>

theorem retry_backoff:
  "(\<exists>n \<le> max_retries. fst (connect_with_retry try max_retries delay_ms) = map (\<lambda>i. min (delay_ms * 2 ^ i) 10000) [0..<n])
   \<and> snd (connect_with_retry try max_retries delay_ms) =
       (case find (\<lambda>i. \<exists>s. try i = Inr s) [0..<Suc max_retries] of Some i \<Rightarrow> try i | None \<Rightarrow> try max_retries)"
proof
  show "snd (connect_with_retry try max_retries delay_ms) =
       (case find (\<lambda>i. \<exists>s. try i = Inr s) [0..<Suc max_retries] of Some i \<Rightarrow> try i | None \<Rightarrow> try max_retries)"
    by (simp add: connect_with_retry_def retry_loop_result del: upt_Suc split: option.split)
  show "\<exists>n \<le> max_retries. fst (connect_with_retry try max_retries delay_ms) = map (\<lambda>i. min (delay_ms * 2 ^ i) 10000) [0..<n]"
  proof (cases max_retries)
    case 0
    then show ?thesis by (simp add: connect_with_retry_def)
  next
    case (Suc k)
    show ?thesis
    proof (cases "try 0")
      case (Inl e)
      have "length (takeWhile (\<lambda>i. \<exists>e. try (Suc 0 + i) = Inl e) [0..<k]) \<le> k"
        using length_takeWhile_le [of _ "[0..<k]"] by simp
      with Inl Suc show ?thesis
        by (simp add: connect_with_retry_def retry_loop_delays MAX_BACKOFF_MS_def del: upt_Suc)
           (metis Suc_le_mono)
    next
      case (Inr s)
      with Suc show ?thesis by (auto simp: connect_with_retry_def intro!: exI [of _ 0])
    qed
  qed
qed

end
