(* ===== verification/Udp_Relay.thy ===== *)
theory Udp_Relay
  imports Socks_Protocol
begin

text \<open>
  Models \<open>src/socks/udp_relay.rs\<close>: the loop that forwards datagrams of a SOCKS5 client to the hosts
  they name and returns the answers of the last such host. The resolver (\<open>lookup_host\<close>) and the
  sockets are arguments: a received datagram comes with its source, the result of the lookup it
  triggers and whether the send succeeds.
\<close>

subsection \<open>Model\<close>

definition MAX_DATAGRAM_SIZE :: nat where
  "MAX_DATAGRAM_SIZE = 65535"

record udp_relay =
  client_addr :: socket_addr
  last_remote :: "socket_addr option"
  transferred :: nat

definition udp_relay_new :: "socket_addr \<Rightarrow> udp_relay" where
  "udp_relay_new client = \<lparr>client_addr = client, last_remote = None, transferred = 0\<rparr>"

text \<open>What the \<open>select!\<close> of one iteration sees. A datagram longer than the buffer is cut.\<close>

record udp_recv =
  recv_data :: "u8 list"
  recv_src :: socket_addr
  lookup_host :: "string \<Rightarrow> socket_addr list option"
  send_ok :: bool

datatype udp_event = Cancelled | IdleTimeout | RecvError | Received udp_recv

type_synonym datagram = "u8 list \<times> socket_addr"

fun addr_target :: "socket_addr \<Rightarrow> target_addr" where
  "addr_target (V4 a b c d, port) = Ipv4 a b c d port"
| "addr_target (V6 a b c d e f g h, port) = Ipv6 (concat (map to_be_bytes [a, b, c, d, e, f, g, h])) port"

text \<open>A datagram of the client: the payload and the address it goes to, if it is to be forwarded.\<close>

definition client_datagram :: "udp_recv \<Rightarrow> u8 list \<Rightarrow> datagram option" where
  "client_datagram r buf =
     (case udp_parse buf of
        Inl _ \<Rightarrow> None
      | Inr (header, header_len) \<Rightarrow>
          if frag header \<noteq> 0 then None
          else if (case udp_target header of
                     Domain domain _ \<Rightarrow> (case validate_domain domain of Inl _ \<Rightarrow> True | Inr _ \<Rightarrow> False)
                   | _ \<Rightarrow> False) then None
          else
            (case lookup_host r (host_string (udp_target header) @ '':'' @ show_nat (unat (target_port (udp_target header)))) of
               None \<Rightarrow> None
             | Some [] \<Rightarrow> None
             | Some (remote_addr # _) \<Rightarrow> Some (drop header_len buf, remote_addr)))"

definition remote_datagram :: "udp_relay \<Rightarrow> udp_recv \<Rightarrow> u8 list \<Rightarrow> datagram option" where
  "remote_datagram S r payload =
     map_option (\<lambda>h. (h @ payload, client_addr S)) (udp_serialize \<lparr>frag = 0, udp_target = addr_target (recv_src r)\<rparr>)"

text \<open>One iteration: the state if the loop goes on, and the datagram handed to the socket.\<close>

fun udp_step :: "udp_event \<Rightarrow> udp_relay \<Rightarrow> udp_relay option \<times> datagram option" where
  "udp_step Cancelled S = (None, None)"
| "udp_step IdleTimeout S = (None, None)"
| "udp_step RecvError S = (None, None)"
| "udp_step (Received r) S =
     (let buf = take MAX_DATAGRAM_SIZE (recv_data r) in
      if fst (recv_src r) = fst (client_addr S) then
        (case client_datagram r buf of
           None \<Rightarrow> (Some S, None)
         | Some (payload, remote_addr) \<Rightarrow>
             if send_ok r
             then (Some (S\<lparr>last_remote := Some remote_addr, transferred := transferred S + length payload\<rparr>), Some (payload, remote_addr))
             else (Some S, Some (payload, remote_addr)))
      else if last_remote S = Some (recv_src r) then
        (case remote_datagram S r buf of
           None \<Rightarrow> (None, None)
         | Some d \<Rightarrow> (Some (if send_ok r then S\<lparr>transferred := transferred S + length buf\<rparr> else S), Some d))
      else (Some S, None))"

text \<open>The loop over the events it meets: the datagrams sent, in order, with the event behind each.\<close>

fun udp_run :: "udp_event list \<Rightarrow> udp_relay \<Rightarrow> (udp_event \<times> datagram) list" where
  "udp_run [] S = []"
| "udp_run (e # es) S =
     (case udp_step e S of (S', d) \<Rightarrow>
        (case d of None \<Rightarrow> [] | Some d \<Rightarrow> [(e, d)]) @ (case S' of None \<Rightarrow> [] | Some S' \<Rightarrow> udp_run es S'))"

subsection \<open>Addresses\<close>

lemma addr_target_wf: "wf_udp_target (addr_target a)"
  by (cases a; cases "fst a") (auto simp: to_be_bytes_def)

lemma addr_target_ip: "target_ip (addr_target a) = Some (fst a) \<and> target_port (addr_target a) = snd a"
  by (cases a; cases "fst a") (auto simp: to_be_bytes_def seg_eq_iff)

lemma remote_datagram_reads_back:
  "\<exists>d. remote_datagram S r payload = Some (d, client_addr S)
     \<and> (\<exists>n. udp_parse d = Inr (\<lparr>frag = 0, udp_target = addr_target (recv_src r)\<rparr>, n) \<and> drop n d = payload)"
  using udp_parse_serialize [of "\<lparr>frag = 0, udp_target = addr_target (recv_src r)\<rparr>" payload] addr_target_wf
  by (auto simp: remote_datagram_def)

subsection \<open>Where datagrams go\<close>

text \<open>A datagram from the client's address that names the destination it was sent to.\<close>

definition forwarded :: "socket_addr \<Rightarrow> udp_event \<Rightarrow> datagram \<Rightarrow> bool" where
  "forwarded client e d \<longleftrightarrow> (\<exists>r. e = Received r \<and> fst (recv_src r) = fst client
     \<and> client_datagram r (take MAX_DATAGRAM_SIZE (recv_data r)) = Some d)"

text \<open>An answer of a host: the payload received, behind a header with the address of the host, to the
  client.\<close>

definition answered :: "socket_addr \<Rightarrow> udp_event \<Rightarrow> datagram \<Rightarrow> bool" where
  "answered client e d \<longleftrightarrow> (\<exists>r n. e = Received r \<and> snd d = client
     \<and> udp_parse (fst d) = Inr (\<lparr>frag = 0, udp_target = addr_target (recv_src r)\<rparr>, n)
     \<and> drop n (fst d) = take MAX_DATAGRAM_SIZE (recv_data r))"

lemma udp_step_cases:
  assumes "udp_step e S = (S', Some d)"
  shows "forwarded (client_addr S) e d
    \<or> answered (client_addr S) e d \<and> (\<exists>r. e = Received r \<and> last_remote S = Some (recv_src r))"
proof (cases e)
  case (Received r)
  let ?buf = "take MAX_DATAGRAM_SIZE (recv_data r)"
  obtain d' where d': "remote_datagram S r ?buf = Some (d', client_addr S)"
    "\<exists>n. udp_parse d' = Inr (\<lparr>frag = 0, udp_target = addr_target (recv_src r)\<rparr>, n) \<and> drop n d' = ?buf"
    using remote_datagram_reads_back by blast
  show ?thesis
  proof (cases "fst (recv_src r) = fst (client_addr S)")
    case True
    then show ?thesis using assms Received
      by (auto simp: forwarded_def Let_def split: option.splits if_splits)
  next
    case False
    then show ?thesis using assms Received d' by (auto simp: answered_def Let_def split: if_splits)
  qed
qed (use assms in auto)

text \<open>The last remote is a host an earlier datagram of the client was sent to.\<close>

lemma udp_step_state:
  assumes "udp_step e S = (Some S', d)"
  shows "client_addr S' = client_addr S"
    and "last_remote S' = last_remote S \<or> (\<exists>p a. d = Some (p, a) \<and> last_remote S' = Some a \<and> forwarded (client_addr S) e (p, a))"
  using assms by (cases e; auto simp: forwarded_def Let_def split: option.splits if_splits)+

lemma udp_run_sources:
  assumes "i < length (udp_run es S)" and "udp_run es S ! i = (e, d)"
  shows "forwarded (client_addr S) e d \<or>
    (\<exists>r. e = Received r \<and> answered (client_addr S) e d \<and> (last_remote S = Some (recv_src r) \<or>
       (\<exists>j < i. \<exists>p. snd (udp_run es S ! j) = (p, recv_src r) \<and> forwarded (client_addr S) (fst (udp_run es S ! j)) (p, recv_src r))))"
  using assms
proof (induction es arbitrary: S i)
  case (Cons x es)
  obtain S' d' where st: "udp_step x S = (S', d')" by fastforce
  let ?new = "case d' of None \<Rightarrow> [] | Some d \<Rightarrow> [(x, d)]"
  let ?rest = "case S' of None \<Rightarrow> [] | Some T \<Rightarrow> udp_run es T"
  have run: "udp_run (x # es) S = ?new @ ?rest" by (simp add: st)
  show ?case
  proof (cases "i < length ?new")
    case True
    then obtain d'' where "d' = Some d''" "e = x" "d = d''" using Cons.prems(2) run by (cases d') auto
    then show ?thesis using udp_step_cases st by blast
  next
    case False
    then obtain T where T: "S' = Some T" using Cons.prems(1) run by (cases S') auto
    let ?k = "i - length ?new"
    have k: "?k < length (udp_run es T)" "udp_run es T ! ?k = (e, d)" and shift: "i = length ?new + ?k"
      using False Cons.prems run T by (auto simp: nth_append)
    have nth: "udp_run (x # es) S ! (length ?new + j) = udp_run es T ! j" for j by (simp add: run T del: udp_run.simps)
    note facts = udp_step_state [OF st [unfolded T]]
    from Cons.IH [OF k] facts(1) consider
        (fwd) "forwarded (client_addr S) e d"
      | (init) r where "e = Received r" "answered (client_addr S) e d" "last_remote T = Some (recv_src r)"
      | (prev) r j p where "e = Received r" "answered (client_addr S) e d" "j < ?k"
          "snd (udp_run es T ! j) = (p, recv_src r)" "forwarded (client_addr S) (fst (udp_run es T ! j)) (p, recv_src r)"
      by metis
    then show ?thesis
    proof cases
      case init
      show ?thesis
      proof (cases "last_remote S = Some (recv_src r)")
        case False
        then obtain p where p: "d' = Some (p, recv_src r)" "forwarded (client_addr S) x (p, recv_src r)"
          using facts(2) init by auto
        then have "udp_run (x # es) S ! 0 = (x, p, recv_src r)" "0 < i" using shift run by auto
        then show ?thesis using init p by (metis fst_conv snd_conv)
      qed (use init in blast)
    next
      case prev
      then show ?thesis using nth [of j] shift by (intro disjI2 exI [of _ r]) (metis add_less_cancel_left)
    qed blast
  qed
qed simp

text \<open>Whatever datagrams arrive, in whatever order and however the lookups and sends go, the relay
  sends a datagram only to the first address the host named by a well-formed unfragmented datagram
  from the client's address resolves to, with exactly the payload of that datagram, or to the client,
  as an answer of a host the client sent to before, which reads back as the payload received behind
  the address of that host.\<close>

theorem udp_relay_destinations:
  assumes "i < length (udp_run es (udp_relay_new client))" and "udp_run es (udp_relay_new client) ! i = (e, d)"
  shows "forwarded client e d \<or>
    (\<exists>r. e = Received r \<and> answered client e d
       \<and> (\<exists>j < i. \<exists>p. snd (udp_run es (udp_relay_new client) ! j) = (p, recv_src r)
            \<and> forwarded client (fst (udp_run es (udp_relay_new client) ! j)) (p, recv_src r)))"
  using udp_run_sources [OF assms] by (simp add: udp_relay_new_def)

subsection \<open>A concrete exchange\<close>

definition sample_recv :: "u8 list \<Rightarrow> socket_addr \<Rightarrow> udp_event" where
  "sample_recv bs src = Received \<lparr>recv_data = bs, recv_src = src, lookup_host = (\<lambda>_. Some [(V4 127 0 0 1, 53)]), send_ok = True\<rparr>"

text \<open>Neither access rules nor the address guard apply to datagrams: one for the loop-back address
  is forwarded there.\<close>

theorem udp_relay_unchecked:
  "map snd (udp_run [sample_recv [0, 0, 0, 1, 127, 0, 0, 1, 0, 53, 7] (V4 10 0 0 9, 4000),
              sample_recv [8] (V4 127 0 0 1, 53)] (udp_relay_new (V4 10 0 0 9, 4000)))
     = [([7], (V4 127 0 0 1, 53)), ([0, 0, 0, 1, 127, 0, 0, 1, 0, 53, 8], (V4 10 0 0 9, 4000))]"
  by (simp add: sample_recv_def udp_relay_new_def client_datagram_def remote_datagram_def udp_parse_def udp_serialize_def
      socks_consts to_be_bytes_def MAX_DATAGRAM_SIZE_def Let_def hi8_def lo8_def)

theorem udp_relay_destinations_witness:
  "forwarded (V4 10 0 0 9, 4000) (sample_recv [0, 0, 0, 1, 127, 0, 0, 1, 0, 53, 7] (V4 10 0 0 9, 4000)) ([7], (V4 127 0 0 1, 53))"
proof -
  let ?e = "sample_recv [0, 0, 0, 1, 127, 0, 0, 1, 0, 53, 7] (V4 10 0 0 9, 4000)"
  have "udp_run [?e] (udp_relay_new (V4 10 0 0 9, 4000)) = [(?e, [7], (V4 127 0 0 1, 53))]"
    by (simp add: sample_recv_def udp_relay_new_def client_datagram_def udp_parse_def socks_consts MAX_DATAGRAM_SIZE_def Let_def)
  with udp_relay_destinations [of 0 "[?e]" "(V4 10 0 0 9, 4000)" ?e "([7], (V4 127 0 0 1, 53))"] show ?thesis by simp
qed

end
