(* ===== verification/Alerting.thy ===== *)
theory Alerting
  imports Config
begin

text \<open>
  Models \<open>src/alerting/mod.rs\<close>: the rules over the quota tracker and the counter of authentication
  failures, the choice of the counter by the window of a rule, and the alerts with their
  deduplication. Reading the usage of a user rolls the counters of the tracker over, so the tracker is
  threaded through an evaluation; \<open>clk i\<close> is the clock reading of its \<open>i\<close>-th check. The
  counter of the failures is a 64-bit word.
\<close>

subsection \<open>Model\<close>

record alert_engine =
  ae_config :: alerting_config
  ae_dispatcher :: bool
  fired_alerts :: "string list"
  ae_auth_failures :: u64

definition alert_new :: "alerting_config \<Rightarrow> bool \<Rightarrow> alert_engine" where
  "alert_new cfg dispatcher = \<lparr>ae_config = cfg, ae_dispatcher = dispatcher, fired_alerts = [], ae_auth_failures = 0\<rparr>"

definition alert_record_auth_failure :: "alert_engine \<Rightarrow> alert_engine" where
  "alert_record_auth_failure A = A\<lparr>ae_auth_failures := ae_auth_failures A + 1\<rparr>"

definition bandwidth_for_window :: "user_quota_usage \<Rightarrow> u64 \<Rightarrow> u64" where
  "bandwidth_for_window usage win_secs =
     (if win_secs \<le> 3600 then usage_hourly_bytes usage
      else if win_secs \<le> 86400 then usage_daily_bytes usage else usage_monthly_bytes usage)"

definition connections_for_window :: "user_quota_usage \<Rightarrow> u64 \<Rightarrow> u64" where
  "connections_for_window usage win_secs =
     (if win_secs \<le> 86400 then ucast (usage_daily_connections usage) else ucast (usage_monthly_connections usage))"

definition condition_value :: "u64 \<Rightarrow> alert_rule \<Rightarrow> user_quota_usage \<Rightarrow> u64" where
  "condition_value auth_failures rule usage =
     (case ar_condition rule of
        BandwidthExceeded \<Rightarrow> bandwidth_for_window usage (ar_window_secs rule)
      | ConnectionsExceeded \<Rightarrow> connections_for_window usage (ar_window_secs rule)
      | MonthlyBandwidthExceeded \<Rightarrow> usage_monthly_bytes usage
      | HourlyBandwidthExceeded \<Rightarrow> usage_hourly_bytes usage
      | AuthFailures \<Rightarrow> auth_failures)"

definition check_rule ::
  "chrono_ops \<Rightarrow> nat \<Rightarrow> alert_engine \<Rightarrow> alert_rule \<Rightarrow> string \<Rightarrow> quota_tracker \<Rightarrow> quota_tracker \<times> bool" where
  "check_rule C now A rule username T =
     (let (T1, usage) = get_user_usage C now username T
      in (T1, condition_value (ae_auth_failures A) rule usage > ar_threshold rule))"

text \<open>What firing an alert sets off: the log record, the hook of the rule and the global hooks.\<close>

datatype alert_out = Triggered alert_rule string | RuleHook string alert_rule string | GlobalHook alert_rule string

definition alert_key :: "alert_rule \<Rightarrow> string \<Rightarrow> string" where
  "alert_key rule username = ar_name rule @ '':'' @ username"

definition fire_alert :: "alert_rule \<Rightarrow> string \<Rightarrow> alert_engine \<Rightarrow> alert_engine \<times> alert_out list" where
  "fire_alert rule username A =
     (let key = alert_key rule username in
      if key \<in> set (fired_alerts A) then (A, [])
      else (A\<lparr>fired_alerts := key # fired_alerts A\<rparr>,
            [Triggered rule username]
            @ (case ar_webhook_url rule of None \<Rightarrow> [] | Some url \<Rightarrow> [RuleHook url rule username])
            @ (if ae_dispatcher A then [GlobalHook rule username] else [])))"

definition users_to_check :: "string list \<Rightarrow> alert_rule \<Rightarrow> string list" where
  "users_to_check known_users rule = (if ar_users rule = [] then known_users else ar_users rule)"

fun check_all ::
  "chrono_ops \<Rightarrow> (nat \<Rightarrow> nat) \<Rightarrow> (alert_rule \<times> string) list \<Rightarrow> alert_engine \<times> quota_tracker
     \<Rightarrow> (alert_engine \<times> quota_tracker) \<times> alert_out list" where
  "check_all C clk [] (A, T) = ((A, T), [])"
| "check_all C clk ((rule, username) # ps) (A, T) =
     (case check_rule C (clk 0) A rule username T of (T1, hit) \<Rightarrow>
      (case (if hit then fire_alert rule username A else (A, [])) of (A1, out) \<Rightarrow>
       (case check_all C (\<lambda>i. clk (Suc i)) ps (A1, T1) of (s, out') \<Rightarrow> (s, out @ out'))))"

definition evaluate ::
  "chrono_ops \<Rightarrow> (nat \<Rightarrow> nat) \<Rightarrow> string list \<Rightarrow> alert_engine \<times> quota_tracker
     \<Rightarrow> (alert_engine \<times> quota_tracker) \<times> alert_out list" where
  "evaluate C clk known_users = (\<lambda>(A, T).
     if \<not> al_enabled (ae_config A) then ((A, T), [])
     else check_all C clk (concat (map (\<lambda>rule. map (Pair rule) (users_to_check known_users rule)) (al_rules (ae_config A)))) (A, T))"

definition reset_fired :: "alert_engine \<Rightarrow> alert_engine" where
  "reset_fired A = A\<lparr>fired_alerts := [], ae_auth_failures := 0\<rparr>"

subsection \<open>Runs\<close>

datatype alert_op = OpEvaluate "nat \<Rightarrow> nat" "string list" | OpAuthFailure | OpTracker "quota_tracker \<Rightarrow> quota_tracker" | OpReset

fun alert_step ::
  "chrono_ops \<Rightarrow> alert_op \<Rightarrow> alert_engine \<times> quota_tracker \<Rightarrow> (alert_engine \<times> quota_tracker) \<times> alert_out list" where
  "alert_step C (OpEvaluate clk known) s = evaluate C clk known s"
| "alert_step C OpAuthFailure (A, T) = ((alert_record_auth_failure A, T), [])"
| "alert_step C (OpTracker f) (A, T) = ((A, f T), [])"
| "alert_step C OpReset (A, T) = ((reset_fired A, T), [])"

fun alert_run :: "chrono_ops \<Rightarrow> alert_op list \<Rightarrow> alert_engine \<times> quota_tracker \<Rightarrow> alert_out list" where
  "alert_run C [] s = []"
| "alert_run C (oper # ops) s = (case alert_step C oper s of (s', out) \<Rightarrow> out @ alert_run C ops s')"

text \<open>The keys of the alerts triggered.\<close>

definition triggered :: "alert_out list \<Rightarrow> string list" where
  "triggered outs = concat (map (\<lambda>x. case x of Triggered rule u \<Rightarrow> [alert_key rule u] | _ \<Rightarrow> []) outs)"

lemma triggered_append [simp]: "triggered (xs @ ys) = triggered xs @ triggered ys"
  by (simp add: triggered_def)

lemma triggered_fire:
  assumes "fire_alert rule u A = (A', outs)"
  shows "set (fired_alerts A') = set (fired_alerts A) \<union> set (triggered outs)"
    and "distinct (triggered outs)" and "set (triggered outs) \<inter> set (fired_alerts A) = {}"
    and "ae_config A' = ae_config A" and "ae_auth_failures A' = ae_auth_failures A"
  using assms by (auto simp: fire_alert_def Let_def triggered_def split: if_splits option.splits)

lemma triggered_check_all:
  assumes "check_all C clk ps (A, T) = ((A', T'), outs)"
  shows "set (fired_alerts A') = set (fired_alerts A) \<union> set (triggered outs)
    \<and> distinct (triggered outs) \<and> set (triggered outs) \<inter> set (fired_alerts A) = {}"
  using assms
proof (induction ps arbitrary: clk A T outs)
  case (Cons p ps)
  obtain rule u where p: "p = (rule, u)" by (cases p)
  obtain T1 hit where c: "check_rule C (clk 0) A rule u T = (T1, hit)" by fastforce
  obtain A1 out where f: "(if hit then fire_alert rule u A else (A, [])) = (A1, out)" by fastforce
  obtain out' where r: "check_all C (\<lambda>i. clk (Suc i)) ps (A1, T1) = ((A', T'), out')" "outs = out @ out'"
    using Cons.prems p c f by (auto split: prod.splits)
  have "set (fired_alerts A1) = set (fired_alerts A) \<union> set (triggered out) \<and> distinct (triggered out)
      \<and> set (triggered out) \<inter> set (fired_alerts A) = {}"
    using f triggered_fire [of rule u A A1 out] by (cases hit) (auto simp: triggered_def)
  then show ?case using Cons.IH [OF r(1)] r(2) by auto
qed (simp add: triggered_def)

lemma triggered_step:
  assumes "alert_step C oper (A, T) = ((A', T'), outs)" and "oper \<noteq> OpReset"
  shows "set (fired_alerts A') = set (fired_alerts A) \<union> set (triggered outs)
    \<and> distinct (triggered outs) \<and> set (triggered outs) \<inter> set (fired_alerts A) = {}"
  using assms triggered_check_all
  by (cases oper) (auto simp: evaluate_def alert_record_auth_failure_def triggered_def split: if_splits)

text \<open>Between two resets each alert is triggered at most once, whatever the tracker does between
  the evaluations.\<close>

theorem alerts_deduplicated:
  assumes "OpReset \<notin> set ops"
  shows "distinct (triggered (alert_run C ops (A, T)))
    \<and> set (triggered (alert_run C ops (A, T))) \<inter> set (fired_alerts A) = {}"
  using assms
proof (induction ops arbitrary: A T)
  case (Cons oper ops)
  obtain A' T' outs where s: "alert_step C oper (A, T) = ((A', T'), outs)" by (metis surj_pair)
  show ?case using triggered_step [OF s] Cons.IH [of A' T'] Cons.prems s by auto
qed (simp add: triggered_def)

definition sample_rule :: alert_rule where
  "sample_rule = \<lparr>ar_name = ''bw'', ar_condition = AuthFailures, ar_threshold = 0, ar_window_secs = 3600, ar_users = [],
     ar_webhook_url = None\<rparr>"

definition sample_engine :: alert_engine where
  "sample_engine = alert_new \<lparr>al_enabled = True, al_rules = [sample_rule]\<rparr> True"

lemma sample_alert_run:
  "alert_run sample_chrono [OpAuthFailure, OpEvaluate (\<lambda>_. 60) [''al''], OpEvaluate (\<lambda>_. 61) [''al'']]
     (sample_engine, tracker_new sample_limits 50) = [Triggered sample_rule ''al'', GlobalHook sample_rule ''al'']"
  by (simp add: sample_engine_def alert_new_def sample_rule_def evaluate_def users_to_check_def check_rule_def
      condition_value_def fire_alert_def alert_key_def alert_record_auth_failure_def case_prod_beta)

theorem alerts_deduplicated_witness:
  "distinct (triggered (alert_run sample_chrono [OpAuthFailure, OpEvaluate (\<lambda>_. 60) [''al''], OpEvaluate (\<lambda>_. 61) [''al'']]
     (sample_engine, tracker_new sample_limits 50)))
   \<and> triggered (alert_run sample_chrono [OpAuthFailure, OpEvaluate (\<lambda>_. 60) [''al''], OpEvaluate (\<lambda>_. 61) [''al'']]
     (sample_engine, tracker_new sample_limits 50)) = [''bw:al'']"
proof
  show "distinct (triggered (alert_run sample_chrono [OpAuthFailure, OpEvaluate (\<lambda>_. 60) [''al''], OpEvaluate (\<lambda>_. 61) [''al'']]
     (sample_engine, tracker_new sample_limits 50)))"
    by (rule alerts_deduplicated [THEN conjunct1]) simp
  show "triggered (alert_run sample_chrono [OpAuthFailure, OpEvaluate (\<lambda>_. 60) [''al''], OpEvaluate (\<lambda>_. 61) [''al'']]
     (sample_engine, tracker_new sample_limits 50)) = [''bw:al'']"
    unfolding sample_alert_run by (simp add: triggered_def alert_key_def sample_rule_def)
qed

subsection \<open>One evaluation\<close>

definition usage_of :: "chrono_ops \<Rightarrow> nat \<Rightarrow> string \<Rightarrow> quota_tracker \<Rightarrow> user_quota_usage" where
  "usage_of C now u T = snd (get_user_usage C now u T)"

lemma advance_idem: "rw_ok w \<Longrightarrow> advance now (advance now w) = advance now w"
proof (cases "now - last_advance w < bucket_secs w")
  case True
  then show ?thesis by (simp add: advance_def [of now w])
next
  case False
  assume "rw_ok w"
  then have "0 < bucket_secs w" by (simp add: rw_ok_def)
  moreover have "last_advance (advance now w) = now" using False by (simp add: advance_def Let_def)
  ultimately show ?thesis unfolding advance_def [of now "advance now w"] by simp
qed

lemma lazy_reset_idem: "lazy_reset C now (lazy_reset C now st) = lazy_reset C now st"
  by (auto simp: lazy_reset_def Let_def)

lemma lazy_reset_update:
  "lazy_reset C now (st\<lparr>second_window := a, hour_window := b\<rparr>) = (lazy_reset C now st)\<lparr>second_window := a, hour_window := b\<rparr>"
  by (simp add: lazy_reset_def Let_def)

lemma usage_stable:
  assumes "tracker_ok T"
  shows "usage_of C now u (fst (get_user_usage C now v T)) = usage_of C now u T"
proof -
  have "ubs_ok (user_view C now u T)" using assms by (rule ubs_ok_view)
  then have ok: "rw_ok (second_window (user_view C now u T))" "rw_ok (hour_window (user_view C now u T))"
    by (simp_all add: ubs_ok_def)
  show ?thesis
  proof (cases "u = v")
    case True
    with ok show ?thesis
      by (simp add: usage_of_def get_user_usage_def get_user_eq put_user_def user_view_def [of C now v "put_user _ _ _", unfolded put_user_def]
          Let_def rw_sum_def advance_idem lazy_reset_idem lazy_reset_update
          user_view_def [of C now v "_\<lparr>user_state := _\<rparr>"])
  next
    case False
    then have "user_view C now u (fst (get_user_usage C now v T)) = user_view C now u T"
      by (simp add: get_user_usage_def get_user_eq put_user_def Let_def rw_sum_def user_view_def)
    then show ?thesis by (simp add: usage_of_def get_user_usage_def get_user_eq Let_def rw_sum_def)
  qed
qed

lemma tracker_ok_usage: "tracker_ok T \<Longrightarrow> tracker_ok (fst (get_user_usage C now u T))"
  using quota.step_inv [of T C sample_f64 "(now, OpUsage u)"] by simp

lemma check_all_exact:
  assumes "tracker_ok T" and "check_all C (\<lambda>_. now) ps (A, T) = ((A', T'), outs)"
  shows "set (fired_alerts A') = set (fired_alerts A) \<union>
    {alert_key rule u | rule u. (rule, u) \<in> set ps \<and> ar_threshold rule < condition_value (ae_auth_failures A) rule (usage_of C now u T)}"
  using assms
proof (induction ps arbitrary: A T outs)
  case (Cons p ps)
  obtain rule u where p: "p = (rule, u)" by (cases p)
  let ?T1 = "fst (get_user_usage C now u T)"
  let ?hit = "ar_threshold rule < condition_value (ae_auth_failures A) rule (usage_of C now u T)"
  have c: "check_rule C now A rule u T = (?T1, ?hit)" by (simp add: check_rule_def usage_of_def case_prod_beta)
  obtain A1 out where f: "(if ?hit then fire_alert rule u A else (A, [])) = (A1, out)" by fastforce
  obtain out' where r: "check_all C (\<lambda>_. now) ps (A1, ?T1) = ((A', T'), out')"
    using Cons.prems(2) p c f by (auto split: prod.splits)
  have A1: "set (fired_alerts A1) = set (fired_alerts A) \<union> (if ?hit then {alert_key rule u} else {})"
    "ae_auth_failures A1 = ae_auth_failures A"
    using f by (auto simp: fire_alert_def Let_def split: if_splits)
  show ?case
    using Cons.IH [OF tracker_ok_usage [OF Cons.prems(1)] r] A1 p
    by (auto simp: usage_stable [OF Cons.prems(1)])
qed simp

text \<open>An evaluation at one time triggers exactly the alerts of the rules in force, for the users they
  apply to, whose value then exceeds the threshold and which were not fired before.\<close>

theorem evaluation_exact:
  assumes "tracker_ok T" and "al_enabled (ae_config A)" and "evaluate C (\<lambda>_. now) known (A, T) = ((A', T'), outs)"
  shows "set (triggered outs) =
    {alert_key rule u | rule u. rule \<in> set (al_rules (ae_config A)) \<and> u \<in> set (users_to_check known rule)
       \<and> ar_threshold rule < condition_value (ae_auth_failures A) rule (usage_of C now u T)} - set (fired_alerts A)"
proof -
  let ?ps = "concat (map (\<lambda>rule. map (Pair rule) (users_to_check known rule)) (al_rules (ae_config A)))"
  have c: "check_all C (\<lambda>_. now) ?ps (A, T) = ((A', T'), outs)" using assms(2,3) by (simp add: evaluate_def)
  have ps: "(rule, u) \<in> set ?ps \<longleftrightarrow> rule \<in> set (al_rules (ae_config A)) \<and> u \<in> set (users_to_check known rule)" for rule u
    by auto
  show ?thesis using check_all_exact [OF assms(1) c] triggered_check_all [OF c] unfolding ps by blast
qed

theorem evaluation_exact_witness:
  "\<exists>A' T' outs. evaluate sample_chrono (\<lambda>_. 60) [''al''] (alert_record_auth_failure sample_engine, tracker_new sample_limits 50)
     = ((A', T'), outs) \<and> set (triggered outs) = {''bw:al''}"
proof -
  let ?A = "alert_record_auth_failure sample_engine"
  obtain A' T' outs where e: "evaluate sample_chrono (\<lambda>_. 60) [''al''] (?A, tracker_new sample_limits 50) = ((A', T'), outs)"
    by (metis surj_pair)
  have "tracker_ok (tracker_new sample_limits 50)" by (simp add: tracker_ok_def tracker_new_def)
  from evaluation_exact [OF this _ e] e show ?thesis
    by (auto simp: sample_engine_def alert_new_def alert_record_auth_failure_def sample_rule_def users_to_check_def
        condition_value_def alert_key_def)
qed

text \<open>Two different alerts share a key where a rule name contains the separator, so one suppresses the
  other.\<close>

lemma alert_key_collision:
  "alert_key (r\<lparr>ar_name := ''a:b''\<rparr>) ''c'' = alert_key (r\<lparr>ar_name := ''a''\<rparr>) ''b:c''"
  by (simp add: alert_key_def)

end
