(* ===== verification/Webhooks.thy ===== *)
theory Webhooks
  imports Config Api_Auth "HOL-Library.Multiset"
begin

text \<open>
  Models \<open>src/webhooks/mod.rs\<close>: which hooks an event goes to, the check of the target against the
  address guard with the pinning of the checked address, the signature, and the delivery with
  retries and exponential back-off. The URL parser, the resolver and the outcome of each request are
  parameters. The tasks of a dispatcher wait in order for one of its permits, and end in any order. The product in the back-off wraps at
  64 bits, as it does in a release build.
\<close>

subsection \<open>Model\<close>

record webhook_ops =
  wo_url :: url_ops
  port_or_known_default :: "string \<Rightarrow> u16 option"
  resolve_addrs :: "string \<Rightarrow> socket_addr list option"

definition wants_event :: "string \<Rightarrow> webhook_config \<Rightarrow> bool" where
  "wants_event event_type config \<longleftrightarrow> \<not> (wh_events config \<noteq> [] \<and> event_type \<notin> set (wh_events config))"

datatype dns_check_error = BadUrl | PrivateTarget ipaddr | ResolvesToPrivate string ipaddr

text \<open>The host and the address to pin it to, None where the request resolves by itself.\<close>

definition check_webhook_dns ::
  "webhook_ops \<Rightarrow> string \<Rightarrow> bool \<Rightarrow> dns_check_error + (string \<times> socket_addr) option" where
  "check_webhook_dns W url allow_private_ips =
     (if allow_private_ips then Inr None
      else case url_parse (wo_url W) url of
        None \<Rightarrow> Inl BadUrl
      | Some parsed \<Rightarrow>
          (case url_host parsed of
             None \<Rightarrow> Inr None
           | Some host \<Rightarrow>
               (case parse_ip (trim_brackets host) of
                  Some ip \<Rightarrow> if is_dangerous_ip ip then Inl (PrivateTarget ip) else Inr None
                | None \<Rightarrow>
                    (let port = unwrap_or (port_or_known_default W url) 443;
                         addrs = unwrap_or (resolve_addrs W (host @ '':'' @ show_nat (unat port))) []
                     in case find (\<lambda>a. is_dangerous_ip (fst a)) addrs of
                          Some a \<Rightarrow> Inl (ResolvesToPrivate host (fst a))
                        | None \<Rightarrow> (case addrs of [] \<Rightarrow> Inr None | addr # _ \<Rightarrow> Inr (Some (host, addr)))))))"

definition signature_header :: "api_ops \<Rightarrow> string option \<Rightarrow> string \<Rightarrow> string option option" where
  "signature_header A secret body =
     (case secret of
        None \<Rightarrow> Some None
      | Some key \<Rightarrow> (case hmac_hex A key body of None \<Rightarrow> None | Some sig \<Rightarrow> Some (Some (''sha256='' @ sig))))"

definition retry_delay :: "webhook_config \<Rightarrow> nat \<Rightarrow> u64" where
  "retry_delay config attempt = min (wh_retry_delay_ms config * of_nat (2 ^ attempt)) (wh_max_retry_delay_ms config)"

text \<open>The retry loop: \<open>send attempt\<close> is whether that request succeeds. The delays slept, in order, and
  whether the event was delivered.\<close>

function delivery_loop :: "(nat \<Rightarrow> bool) \<Rightarrow> webhook_config \<Rightarrow> nat \<Rightarrow> u64 list \<times> bool" where
  "delivery_loop send config attempt =
     (if send attempt then ([], True)
      else if attempt \<ge> unat (wh_max_retries config) then ([], False)
      else (case delivery_loop send config (Suc attempt) of (ds, ok) \<Rightarrow> (retry_delay config attempt # ds, ok)))"
  by pat_completeness auto

termination
  by (relation "measure (\<lambda>(send, config, attempt). unat (wh_max_retries config) - attempt)") auto

declare delivery_loop.simps [simp del]

datatype http_client = PinnedClient string socket_addr | SharedClient

text \<open>The delivery to one hook: the client used and the outcome of the loop, or the reason why nothing
  is sent.\<close>

definition deliver ::
  "webhook_ops \<Rightarrow> (http_client \<Rightarrow> nat \<Rightarrow> bool) \<Rightarrow> webhook_config \<Rightarrow> dns_check_error + http_client \<times> u64 list \<times> bool" where
  "deliver W send config =
     (case check_webhook_dns W (wh_url config) (wh_allow_private_ips config) of
        Inl e \<Rightarrow> Inl e
      | Inr pin \<Rightarrow>
          (let client = (case pin of Some (host, addr) \<Rightarrow> PinnedClient host addr | None \<Rightarrow> SharedClient)
           in Inr (client, delivery_loop (send client) config 0)))"

definition dispatch ::
  "webhook_ops \<Rightarrow> (http_client \<Rightarrow> nat \<Rightarrow> bool) \<Rightarrow> string \<Rightarrow> webhook_config list
     \<Rightarrow> (webhook_config \<times> (dns_check_error + http_client \<times> u64 list \<times> bool)) list" where
  "dispatch W send event_type configs =
     map (\<lambda>config. (config, deliver W send config)) (filter (wants_event event_type) configs)"

subsection \<open>The target\<close>

lemma find_None_dangerous: "find (\<lambda>a. is_dangerous_ip (fst a)) as = None \<longleftrightarrow> (\<forall>a \<in> set as. \<not> is_dangerous_ip (fst a))"
  by (auto simp: find_None_iff)

text \<open>C40: a hook that may not reach private targets is delivered over a connection pinned to an
  address the host just resolved to and which is not reserved, or by a client that resolves the host
  itself, which happens only if the URL names a host by a literal unreserved address, names no host, or
  the resolution found nothing.\<close>

theorem webhook_target_checked:
  assumes "deliver W send config = Inr (client, r)" and "\<not> wh_allow_private_ips config"
  shows "\<exists>parsed. url_parse (wo_url W) (wh_url config) = Some parsed \<and>
    (case client of
       PinnedClient host addr \<Rightarrow>
         url_host parsed = Some host \<and> \<not> is_dangerous_ip (fst addr)
         \<and> (\<exists>port addrs. resolve_addrs W (host @ '':'' @ show_nat (unat (port :: u16))) = Some addrs \<and> addr \<in> set addrs)
     | SharedClient \<Rightarrow>
         url_host parsed = None
         \<or> (\<exists>host ip. url_host parsed = Some host \<and> parse_ip (trim_brackets host) = Some ip \<and> \<not> is_dangerous_ip ip)
         \<or> (\<exists>host port. url_host parsed = Some host
              \<and> resolve_addrs W (host @ '':'' @ show_nat (unat (port :: u16))) \<in> {None, Some []}))"
proof -
  obtain pin where d: "check_webhook_dns W (wh_url config) False = Inr pin"
    and client: "client = (case pin of Some (host, addr) \<Rightarrow> PinnedClient host addr | None \<Rightarrow> SharedClient)"
    using assms by (auto simp: deliver_def Let_def split: sum.splits)
  from d obtain parsed where p: "url_parse (wo_url W) (wh_url config) = Some parsed"
    by (auto simp: check_webhook_dns_def split: option.splits)
  show ?thesis
  proof (cases "url_host parsed")
    case None
    with d p client show ?thesis by (auto simp: check_webhook_dns_def)
  next
    case (Some host)
    let ?port = "unwrap_or (port_or_known_default W (wh_url config)) 443"
    let ?key = "host @ '':'' @ show_nat (unat ?port)"
    show ?thesis
    proof (cases "parse_ip (trim_brackets host)")
      case ip: (Some ip)
      with d p Some client show ?thesis by (auto simp: check_webhook_dns_def split: if_splits)
    next
      case None
      let ?addrs = "unwrap_or (resolve_addrs W ?key) []"
      have f: "\<forall>a \<in> set ?addrs. \<not> is_dangerous_ip (fst a)"
        using d p Some None unfolding find_None_dangerous [symmetric]
        by (auto simp: check_webhook_dns_def Let_def split: option.splits)
      then have "find (\<lambda>a. is_dangerous_ip (fst a)) ?addrs = None" by (simp add: find_None_dangerous)
      then have pin: "pin = (case ?addrs of [] \<Rightarrow> None | a # _ \<Rightarrow> Some (host, a))"
        using d p Some None by (auto simp: check_webhook_dns_def Let_def split: list.splits)
      show ?thesis
      proof (cases ?addrs)
        case Nil
        then have "resolve_addrs W ?key \<in> {None, Some []}" by (auto simp: unwrap_or_def split: option.splits)
        then show ?thesis using p Some client pin Nil by auto
      next
        case (Cons a as)
        then have "resolve_addrs W ?key = Some (a # as)" by (auto simp: unwrap_or_def split: option.splits)
        then show ?thesis using p Some client pin Cons f by fastforce
      qed
    qed
  qed
qed

text \<open>If the resolution fails at the time of the check, the request goes out with a client that
  resolves the name again, and that answer is not checked: the protection against rebinding does not
  cover a name that resolves only the second time.\<close>

theorem webhook_rebinding_gap:
  assumes "url_parse (wo_url W) (wh_url config) = Some parsed" and "url_host parsed = Some host"
    and "parse_ip (trim_brackets host) = None" and "\<And>k. resolve_addrs W k = None"
  shows "deliver W send config = Inr (SharedClient, delivery_loop (send SharedClient) config 0)"
  using assms by (auto simp: deliver_def check_webhook_dns_def unwrap_or_def Let_def)

subsection \<open>Retries\<close>

lemma retry_loop_facts:
  assumes "delivery_loop send config attempt = (ds, ok)" and "attempt \<le> unat (wh_max_retries config)"
  shows "attempt + length ds \<le> unat (wh_max_retries config)
    \<and> (\<forall>i < length ds. \<not> send (attempt + i) \<and> ds ! i = retry_delay config (attempt + i))
    \<and> ok = send (attempt + length ds) \<and> (ok \<or> attempt + length ds = unat (wh_max_retries config))"
  using assms
proof (induction send config attempt arbitrary: ds ok rule: delivery_loop.induct)
  case (1 send config attempt)
  show ?case
  proof (cases "send attempt \<or> attempt \<ge> unat (wh_max_retries config)")
    case True
    with 1(2,3) show ?thesis by (auto simp: delivery_loop.simps [of send config attempt] split: if_splits)
  next
    case False
    then obtain ds' where ds': "delivery_loop send config (Suc attempt) = (ds', ok)" "ds = retry_delay config attempt # ds'"
      using 1(2) by (auto simp: delivery_loop.simps [of send config attempt] split: prod.splits)
    with 1(1) False show ?thesis by (auto simp: nth_Cons' less_Suc_eq_0_disj)
  qed
qed

text \<open>The loop ends after at most the configured number of retries, exactly at the first request
  that succeeds or when the retries are used up, and sleeps the back-off before each retry, which never
  exceeds the configured maximum.\<close>

theorem webhook_retries_bounded:
  "\<exists>ds ok. delivery_loop send config 0 = (ds, ok)
     \<and> length ds \<le> unat (wh_max_retries config)
     \<and> (\<forall>i < length ds. \<not> send i \<and> ds ! i = retry_delay config i \<and> ds ! i \<le> wh_max_retry_delay_ms config)
     \<and> ok = send (length ds) \<and> (ok \<or> length ds = unat (wh_max_retries config))"
proof -
  obtain ds ok where r: "delivery_loop send config 0 = (ds, ok)" by fastforce
  from retry_loop_facts [OF r] show ?thesis by (intro exI [of _ ds] exI [of _ ok]) (auto simp: r retry_delay_def)
qed

text \<open>The back-off doubles while the product stays in range, and is zero from the 64th retry on.\<close>

lemma retry_delay_doubles:
  assumes "unat (wh_retry_delay_ms config) * 2 ^ attempt < 2 ^ 64"
  shows "unat (retry_delay config attempt) = min (unat (wh_retry_delay_ms config) * 2 ^ attempt) (unat (wh_max_retry_delay_ms config))"
proof -
  let ?p = "wh_retry_delay_ms config * of_nat (2 ^ attempt)"
  have "?p = of_nat (unat (wh_retry_delay_ms config) * 2 ^ attempt)" by simp
  then have "unat ?p = unat (wh_retry_delay_ms config) * 2 ^ attempt"
    using assms by (simp only: unat_of_nat) simp
  then show ?thesis by (auto simp: retry_delay_def min_def word_le_nat_alt)
qed

lemma retry_delay_wraps: "64 \<le> attempt \<Longrightarrow> retry_delay config attempt = 0"
proof -
  assume "64 \<le> attempt"
  then have "(of_nat (2 ^ attempt) :: u64) = 0" by simp
  then show ?thesis unfolding retry_delay_def by (simp only: mult_zero_right) (simp add: min_def)
qed

subsection \<open>A concrete hook\<close>

definition sample_webhook_ops :: "socket_addr list option \<Rightarrow> webhook_ops" where
  "sample_webhook_ops found =
     \<lparr>wo_url = \<lparr>url_parse = (\<lambda>_. Some \<lparr>url_scheme = ''https'', url_host = Some ''h.org'', url_port = None, url_username = [],
                  url_password = None\<rparr>), percent_decode_utf8 = (\<lambda>_. None)\<rparr>,
      port_or_known_default = (\<lambda>_. Some 443), resolve_addrs = (\<lambda>_. found)\<rparr>"

definition sample_webhook :: webhook_config where
  "sample_webhook = \<lparr>wh_url = ''https://h.org/'', wh_events = [], wh_secret = None, wh_allow_private_ips = False,
     wh_max_retries = 3, wh_retry_delay_ms = 1000, wh_max_retry_delay_ms = 3000\<rparr>"

lemma sample_host: "parse_ip (trim_brackets ''h.org'') = None"
proof -
  have "parse_ip ''h.org'' = None" by (rule parse_ip_not_hex) (simp_all add: to_digit_def)
  then show ?thesis by (simp add: trim_brackets_def)
qed

theorem webhook_target_checked_witness:
  "deliver (sample_webhook_ops (Some [(V4 93 184 216 34, 443)])) (\<lambda>_ _. True) sample_webhook
     = Inr (PinnedClient ''h.org'' (V4 93 184 216 34, 443), [], True)
   \<and> \<not> is_dangerous_ip (V4 93 184 216 34)"
proof -
  let ?W = "sample_webhook_ops (Some [(V4 93 184 216 34, 443)])"
  have "\<not> is_dangerous_ip (V4 93 184 216 34)" by code_simp
  then have d: "deliver ?W (\<lambda>_ _. True) sample_webhook = Inr (PinnedClient ''h.org'' (V4 93 184 216 34, 443), [], True)"
    by (simp add: deliver_def check_webhook_dns_def sample_webhook_ops_def sample_webhook_def sample_host unwrap_or_def
        Let_def delivery_loop.simps)
  have "\<not> wh_allow_private_ips sample_webhook" by (simp add: sample_webhook_def)
  from webhook_target_checked [OF d this] d show ?thesis by auto
qed

theorem webhook_rebinding_gap_witness:
  "deliver (sample_webhook_ops None) (\<lambda>_ _. True) sample_webhook
     = Inr (SharedClient, delivery_loop (\<lambda>_. True) sample_webhook 0)"
  using webhook_rebinding_gap [of "sample_webhook_ops None" sample_webhook _ "''h.org''" "\<lambda>_ _. True"]
  by (simp add: sample_webhook_ops_def sample_host)

theorem webhook_retries_bounded_witness:
  "\<exists>ds ok. delivery_loop (\<lambda>n. n = 2) sample_webhook 0 = (ds, ok) \<and> length ds \<le> 3 \<and> ok"
proof -
  obtain ds ok where r: "delivery_loop (\<lambda>n. n = 2) sample_webhook 0 = (ds, ok)"
    "length ds \<le> unat (wh_max_retries sample_webhook)" "\<forall>i < length ds. i \<noteq> 2" "ok = (length ds = 2)"
    "ok \<or> length ds = unat (wh_max_retries sample_webhook)"
    using webhook_retries_bounded [of "\<lambda>n. n = 2" sample_webhook] by auto
  then show ?thesis using r(3) [rule_format, of 2] by (auto simp: sample_webhook_def)
qed

subsection \<open>Concurrent deliveries\<close>

definition MAX_CONCURRENT_DELIVERIES :: nat where
  "MAX_CONCURRENT_DELIVERIES = 100"

text \<open>A delivery task: the number of its dispatch and its hook. The semaphore hands its permits out in the order of the
  requests.\<close>

record dispatcher =
  wd_configs :: "webhook_config list"
  wd_permits :: nat
  wd_waiting :: "(nat \<times> webhook_config) list"
  wd_active :: "(nat \<times> webhook_config) list"
  wd_done :: "(nat \<times> webhook_config) list"

definition dispatcher_new :: "webhook_config list \<Rightarrow> dispatcher" where
  "dispatcher_new configs =
     \<lparr>wd_configs = configs, wd_permits = MAX_CONCURRENT_DELIVERIES, wd_waiting = [], wd_active = [], wd_done = []\<rparr>"

text \<open>A dispatch spawns a task for every hook that wants the event; a task acquires a permit when it is its turn; a
  delivery that ends, in whatever way, drops it.\<close>

datatype dispatcher_event = Dispatched nat string | Acquired | DeliveryEnded nat

fun dispatcher_step :: "dispatcher_event \<Rightarrow> dispatcher \<Rightarrow> dispatcher" where
  "dispatcher_step (Dispatched n event_type) D =
     D\<lparr>wd_waiting := wd_waiting D @ map (Pair n) (filter (wants_event event_type) (wd_configs D))\<rparr>"
| "dispatcher_step Acquired D =
     (case wd_waiting D of
        [] \<Rightarrow> D
      | task # rest \<Rightarrow>
          if wd_permits D = 0 then D
          else D\<lparr>wd_waiting := rest, wd_active := wd_active D @ [task], wd_permits := wd_permits D - 1\<rparr>)"
| "dispatcher_step (DeliveryEnded i) D =
     (if i < length (wd_active D)
      then D\<lparr>wd_active := take i (wd_active D) @ drop (Suc i) (wd_active D), wd_done := wd_done D @ [wd_active D ! i], wd_permits := wd_permits D + 1\<rparr>
      else D)"

definition dispatcher_ok :: "dispatcher \<Rightarrow> bool" where
  "dispatcher_ok D \<longleftrightarrow> wd_permits D + length (wd_active D) = MAX_CONCURRENT_DELIVERIES"

lemma dispatcher_step_ok: "dispatcher_ok D \<Longrightarrow> dispatcher_ok (dispatcher_step e D)"
  by (cases e) (auto simp: dispatcher_ok_def split: list.split)

interpretation dispatcher: machine dispatcher_step dispatcher_ok
  by unfold_locales (rule dispatcher_step_ok)

fun dispatched :: "webhook_config list \<Rightarrow> dispatcher_event list \<Rightarrow> (nat \<times> webhook_config) list" where
  "dispatched configs [] = []"
| "dispatched configs (Dispatched n event_type # es) = map (Pair n) (filter (wants_event event_type) configs) @ dispatched configs es"
| "dispatched configs (_ # es) = dispatched configs es"

lemma tasks_step:
  "wd_configs (dispatcher_step e D) = wd_configs D
   \<and> mset (wd_waiting (dispatcher_step e D)) + mset (wd_active (dispatcher_step e D)) + mset (wd_done (dispatcher_step e D))
     = mset (wd_waiting D) + mset (wd_active D) + mset (wd_done D) + mset (dispatched (wd_configs D) [e])"
proof (cases e)
  case (DeliveryEnded i)
  show ?thesis
  proof (cases "i < length (wd_active D)")
    case True
    have "mset (wd_active D) = add_mset (wd_active D ! i) (mset (take i (wd_active D)) + mset (drop (Suc i) (wd_active D)))"
      by (subst id_take_nth_drop [OF True]) simp
    with DeliveryEnded True show ?thesis by simp
  qed (simp add: DeliveryEnded)
qed (simp_all split: list.split)

lemma tasks_run:
  "mset (wd_waiting (fold dispatcher_step es D)) + mset (wd_active (fold dispatcher_step es D)) + mset (wd_done (fold dispatcher_step es D))
     = mset (wd_waiting D) + mset (wd_active D) + mset (wd_done D) + mset (dispatched (wd_configs D) es)"
proof (induction es arbitrary: D)
  case (Cons e es)
  have "mset (dispatched c (e # es)) = mset (dispatched c [e]) + mset (dispatched c es)" for c by (cases e) simp_all
  with Cons.IH [of "dispatcher_step e D"] tasks_step [of e D] show ?case by (simp add: ac_simps)
qed simp

text \<open>In every run of a dispatcher at most a hundred deliveries are under way, and every hook that wants an event is
  delivered to once: its task waits, runs or has ended.\<close>

theorem deliveries_bounded:
  "length (wd_active (fold dispatcher_step es (dispatcher_new configs))) \<le> 100
   \<and> mset (wd_waiting (fold dispatcher_step es (dispatcher_new configs)) @ wd_active (fold dispatcher_step es (dispatcher_new configs))
        @ wd_done (fold dispatcher_step es (dispatcher_new configs))) = mset (dispatched configs es)"
proof -
  have "dispatcher_ok (fold dispatcher_step es (dispatcher_new configs))"
    by (rule dispatcher.run_inv) (simp add: dispatcher_ok_def dispatcher_new_def)
  moreover have "mset (wd_waiting (fold dispatcher_step es (dispatcher_new configs))) + mset (wd_active (fold dispatcher_step es (dispatcher_new configs)))
      + mset (wd_done (fold dispatcher_step es (dispatcher_new configs))) = mset (dispatched configs es)"
    using tasks_run [of es "dispatcher_new configs"] by (simp add: dispatcher_new_def)
  ultimately show ?thesis by (simp add: dispatcher_ok_def MAX_CONCURRENT_DELIVERIES_def add.assoc)
qed

end
