(* ===== verification/Geoip.thy ===== *)
theory Geoip
  imports Config
begin

text \<open>
  Models \<open>src/geoip/mod.rs\<close>: the filter on the country of an address. The database of the
  \<open>maxminddb\<close> crate is a parameter: opening a file gives a reader, a reader gives the ISO code of an
  address if it finds one.
\<close>

record geoip_service =
  reader :: "(ipaddr \<Rightarrow> string option) option"
  allowed_countries :: "string list"
  denied_countries :: "string list"
  fail_closed :: bool

definition geoip_new ::
  "(string \<Rightarrow> (ipaddr \<Rightarrow> string option) option) \<Rightarrow> bool \<Rightarrow> string option \<Rightarrow> string list \<Rightarrow> string list \<Rightarrow> bool \<Rightarrow> geoip_service" where
  "geoip_new open_readfile en db_path allow deny closed =
     \<lparr>reader = (if en then Option.bind db_path open_readfile else None),
      allowed_countries = allow, denied_countries = deny, fail_closed = closed\<rparr>"

definition lookup_country :: "geoip_service \<Rightarrow> ipaddr \<Rightarrow> string option" where
  "lookup_country G ip = Option.bind (reader G) (\<lambda>r. r ip)"

definition geo_is_allowed :: "geoip_service \<Rightarrow> ipaddr \<Rightarrow> bool" where
  "geo_is_allowed G ip =
     (if reader G = None then \<not> fail_closed G
      else if allowed_countries G = [] \<and> denied_countries G = [] then True
      else case lookup_country G ip of
        None \<Rightarrow> \<not> fail_closed G
      | Some country_code \<Rightarrow>
          if denied_countries G \<noteq> [] \<and> country_code \<in> set (denied_countries G) then False
          else if allowed_countries G \<noteq> [] then country_code \<in> set (allowed_countries G)
          else True)"

text \<open>With a database and a filter, an address passes exactly if its country is known, not denied and,
  where there is an allow list, on it; an address of unknown country passes unless the filter fails
  closed. Denial takes precedence.\<close>

lemma geo_is_allowed_iff:
  assumes "reader G = Some r" and "allowed_countries G \<noteq> [] \<or> denied_countries G \<noteq> []"
  shows "geo_is_allowed G ip \<longleftrightarrow>
    (case r ip of
       None \<Rightarrow> \<not> fail_closed G
     | Some c \<Rightarrow> c \<notin> set (denied_countries G) \<and> (allowed_countries G = [] \<or> c \<in> set (allowed_countries G)))"
  using assms by (auto simp: geo_is_allowed_def lookup_country_def split: option.split)

text \<open>Where the filter is switched off but set to fail closed, every address is refused.\<close>

lemma geo_disabled_fail_closed: "\<not> geo_is_allowed (geoip_new f False db allow deny True) ip"
  by (simp add: geo_is_allowed_def geoip_new_def)

end
