(* ===== verification/Pagination.thy ===== *)
theory Pagination
  imports Net "HOL-Library.List_Lexorder" "HOL-Library.Char_ord"
begin

text \<open>
  Models \<open>src/api/pagination.rs\<close>: one page of a sorted list after a cursor, and the cursor of the next page.
  Strings compare byte by byte. The base64 coding of cursors is a parameter.
\<close>

subsection \<open>Model\<close>

definition DEFAULT_LIMIT :: nat where
  "DEFAULT_LIMIT = 50"

definition MAX_LIMIT :: nat where
  "MAX_LIMIT = 200"

record pagination_params =
  pp_cursor :: "string option"
  pp_limit :: "nat option"

definition effective_limit :: "pagination_params \<Rightarrow> nat" where
  "effective_limit P = min (case pp_limit P of Some n \<Rightarrow> n | None \<Rightarrow> DEFAULT_LIMIT) MAX_LIMIT"

text \<open>The decoder gives the text of a cursor that is valid base64 of valid UTF-8.\<close>

definition decode_cursor :: "(string \<Rightarrow> string option) \<Rightarrow> pagination_params \<Rightarrow> string option" where
  "decode_cursor dec P = (case pp_cursor P of None \<Rightarrow> None | Some c \<Rightarrow> dec c)"

record 'a page =
  pg_data :: "'a list"
  pg_next_cursor :: "string option"
  pg_has_more :: bool

definition from_sorted :: "(string \<Rightarrow> string) \<Rightarrow> 'a list \<Rightarrow> string option \<Rightarrow> nat \<Rightarrow> ('a \<Rightarrow> string) \<Rightarrow> 'a page" where
  "from_sorted enc items cursor limit key =
     (let filtered = (case cursor of Some k \<Rightarrow> dropWhile (\<lambda>x. key x \<le> k) items | None \<Rightarrow> items);
          has_more = (length filtered > limit);
          page = take limit filtered
      in \<lparr>pg_data = page,
          pg_next_cursor = (if has_more \<and> page \<noteq> [] then Some (enc (key (last page))) else None),
          pg_has_more = has_more\<rparr>)"

text \<open>A client that follows the cursors until there is none.\<close>

partial_function (option) follow ::
  "(string \<Rightarrow> string) \<Rightarrow> (string \<Rightarrow> string option) \<Rightarrow> 'a list \<Rightarrow> ('a \<Rightarrow> string) \<Rightarrow> pagination_params \<Rightarrow> 'a list option" where
  "follow enc dec items key P =
     (let page = from_sorted enc items (decode_cursor dec P) (effective_limit P) key in
      case pg_next_cursor page of
        None \<Rightarrow> Some (pg_data page)
      | Some c \<Rightarrow>
          Option.bind (follow enc dec items key (P\<lparr>pp_cursor := Some c\<rparr>)) (\<lambda>rest. Some (pg_data page @ rest)))"

subsection \<open>Pages cover the list\<close>

definition strictly_sorted :: "('a \<Rightarrow> string) \<Rightarrow> 'a list \<Rightarrow> bool" where
  "strictly_sorted key xs \<longleftrightarrow> sorted_wrt (<) (map key xs)"

lemma drop_after_cursor:
  assumes "strictly_sorted key (done @ [x] @ rest)"
  shows "dropWhile (\<lambda>y. key y \<le> key x) (done @ [x] @ rest) = rest"
proof -
  have "\<forall>y \<in> set done. key y \<le> key x" "\<forall>y \<in> set rest. \<not> key y \<le> key x"
    using assms by (auto simp: strictly_sorted_def sorted_wrt_append not_le less_imp_le)
  then show ?thesis by (cases rest) (simp_all add: dropWhile_append2)
qed

lemma follow_rest:
  assumes "strictly_sorted key items" and "\<And>k. dec (enc k) = Some k" and "0 < effective_limit P"
    and "items = front @ rest" and "front = [] \<and> pp_cursor P = None \<or> front \<noteq> [] \<and> pp_cursor P = Some (enc (key (last front)))"
  shows "follow enc dec items key P = Some rest"
  using assms(3-5)
proof (induction "length rest" arbitrary: rest front P rule: less_induct)
  case less
  let ?n = "effective_limit P"
  have f: "(case decode_cursor dec P of Some k \<Rightarrow> dropWhile (\<lambda>x. key x \<le> k) items | None \<Rightarrow> items) = rest"
  proof (cases "front = []")
    case False
    then have i: "items = butlast front @ [last front] @ rest" using less.prems(2) by simp
    with False less.prems(3) drop_after_cursor [OF assms(1) [unfolded i]] show ?thesis
      by (simp add: decode_cursor_def assms(2))
  qed (use less.prems in \<open>simp add: decode_cursor_def\<close>)
  show ?case
  proof (cases "length rest > ?n")
    case True
    let ?page = "take ?n rest" and ?P = "P\<lparr>pp_cursor := Some (enc (key (last (take ?n rest))))\<rparr>"
    have ne: "?page \<noteq> []" using True less.prems(1) by auto
    then have l: "last ?page = last (front @ ?page)" by simp
    have "follow enc dec items key ?P = Some (drop ?n rest)"
      by (rule less.hyps [of _ _ "front @ ?page"]) (use True less.prems ne l in \<open>simp_all add: effective_limit_def\<close>)
    with True ne f show ?thesis
      by (subst follow.simps) (simp add: from_sorted_def Let_def)
  next
    case False
    with f show ?thesis by (subst follow.simps) (simp add: from_sorted_def Let_def)
  qed
qed

text \<open>A client that follows the cursors with a page size above zero comes to an end and receives every item
  of a list with increasing keys exactly once and in order.\<close>

theorem pages_cover_list:
  assumes "strictly_sorted key items" and "\<And>k. dec (enc k) = Some k" and "0 < effective_limit P" and "pp_cursor P = None"
  shows "follow enc dec items key P = Some items"
  by (rule follow_rest [of _ _ _ _ _ "[]"]) (use assms in simp_all)

theorem pages_cover_list_witness:
  "follow id Some [''a'', ''b'', ''c''] id \<lparr>pp_cursor = None, pp_limit = Some 2\<rparr> = Some [''a'', ''b'', ''c'']"
  by (rule pages_cover_list) (simp_all add: strictly_sorted_def effective_limit_def MAX_LIMIT_def less_char_def)

text \<open>A page size of zero gives an empty page that announces more items and has no cursor to them.\<close>

lemma empty_page: "items \<noteq> [] \<Longrightarrow> from_sorted enc items None 0 key = \<lparr>pg_data = [], pg_next_cursor = None, pg_has_more = True\<rparr>"
  by (simp add: from_sorted_def Let_def)

end
