(* ===== verification/Spec2Isabelle.thy ===== *)
theory Spec2Isabelle
  imports System Cli Backup Acl_Text Quota_Race Pool Udp_Relay Alerting Webhooks Geoip Pagination
begin

text \<open>
  A verification of \<open>s5\<close>, an SSH and SOCKS5 proxy server written in Rust (\<open>src/src\<close>).

  \<^bold>\<open>The program.\<close> Clients reach the server over SSH (\<open>ssh/\<close>) or SOCKS5 (\<open>socks/\<close>). Both front ends first ask
  the security manager (\<open>security/\<close>: bans, rate limiters, reputation, source networks) whether to talk to the
  peer at all, then the authentication service (\<open>auth/\<close>: passwords, one-time codes, keys, certificates), which
  knows the users resolved from configuration, groups and server defaults. A request to connect is checked
  against rate limits and quotas (\<open>quota/\<close>), then given to the proxy engine (\<open>proxy/\<close>), which takes a connection
  slot, evaluates the access rules (\<open>config/acl.rs\<close>) before and after name resolution, guards against reserved
  addresses, connects directly or through an upstream SOCKS5 proxy, registers a session and relays bytes in both
  directions under quota and bandwidth control. SSH clients may also open a restricted shell (\<open>shell/\<close>) on a
  virtual file system. Operators configure the server by a file, the environment or the command line (\<open>config/\<close>),
  reload it by a signal (\<open>server.rs\<close>), and watch and steer it over an HTTP interface (\<open>api/\<close>), an audit log (\<open>audit/\<close>),
  metrics (\<open>metrics/\<close>), alerts (\<open>alerting/\<close>) and web hooks (\<open>webhooks/\<close>).

  \<^bold>\<open>Conventions.\<close> A struct is a record, an enum a datatype, a fixed-width integer a word of its width with
  wrap-around (the release profile), a string the list of its UTF-8 bytes, a fallible result a sum, a panic
  \<^const>\<open>None\<close>. A concurrent map is an association list with distinct keys (\<^const>\<open>dm_ok\<close>). Every operation that reads a
  clock takes the reading as an argument. Third-party crates (\<open>ipnet\<close>, \<open>argon2\<close>, \<open>totp-rs\<close>, \<open>ssh-key\<close>, \<open>chrono\<close>,
  \<open>governor\<close>, \<open>url\<close>, \<open>russh\<close>), floating-point arithmetic and the network are records of operations passed as
  arguments; no theorem assumes anything about them except where it says so. One operation is one atomic step,
  except in \<open>Conn_Slots\<close> and \<open>Quota_Race\<close>, whose threads interleave single atomic accesses, and in \<open>Forwarder\<close>, where the two
  directions of a relay interleave; \<open>Auth\<close> has the verification of a one-time code also as its two halves, the lookup and
  the insertion, and says what happens between them; \<open>Ssh_Handler\<close> lets the shared state change arbitrarily between the events of a
  connection, and \<open>System\<close> interleaves the events of all connections, requests, signals and timers. The models of
  the engine and of the two front ends come in two layers: the plain one decides, and \<open>Observe_Engine\<close>, \<open>Observe_Socks\<close> and
  \<open>Observe_Ssh\<close> repeat its operations with their calls to audit log and metrics as a further result, in the order of the
  source, with the proof that the rest is unchanged. Log lines are not part of any model.

  \<^bold>\<open>Theories, sources, results.\<close>

  \<^item> \<open>Prelude\<close>, \<open>Net\<close>, \<open>Strings\<close>: machine types, hash maps with eviction, the interfaces \<open>machine\<close> (a state machine with an
    invariant, interpreted by every stateful component) and \<open>codec\<close> (a reader that accepts exactly the encodings of
    a writer, interpreted by the wire formats); addresses and numbers in text, UTF-8, its lossy decoding, its characters and the white space of Unicode,
    with the proof that formatting and parsing are inverse.
  \<^item> \<open>Ip_Guard\<close> (\<open>proxy/ip_guard.rs\<close>, \<open>security/normalize.rs\<close>, \<open>security/ip_filter.rs\<close>): the bit tests of the guard are
    membership in the reserved blocks.
  \<^item> \<open>Acl\<close> (\<open>config/acl.rs\<close>, \<open>proxy/acl.rs\<close>): deny rules bind through inheritance, an early
    denial is confirmed by the full check, what wildcards match. \<open>Acl_Text\<close>: exactly which rules read back from their printed form.
  \<^item> \<open>Rolling_Window\<close>, \<open>Quota\<close> (\<open>quota/\<close>): window sums, with what two readings of the clock in one recording lose, daily and
    monthly limits over every run of operations one after the other, throttling. \<open>Quota_Race\<close>: by how much concurrent calls pass the
    daily limit.
  \<^item> \<open>Ban\<close>, \<open>Rate_Limit\<close>, \<open>Security\<close> (\<open>security/\<close>): thresholds ban for exactly the configured time, tables stay bounded, the gate before
    authentication is the conjunction of its four tests.
  \<^item> \<open>User\<close>, \<open>Auth\<close> (\<open>auth/\<close>): inheritance keeps restrictions, a one-time code is accepted once by verifications one after the other, unknown users
    cost the same work as known ones, certificates need a trusted signer and no other principal (nothing in the
    program calls that check).
  \<^item> \<open>Socks_Protocol\<close> (\<open>socks/protocol.rs\<close>, \<open>socks/auth.rs\<close>): each reader accepts exactly the encodings of RFC 1928 and 1929.
  \<^item> \<open>Conn_Slots\<close> (\<open>proxy/mod.rs\<close>): connection limits hold and all slots come back under every interleaving of atomic
    accesses; the sequential operations refine these steps.
  \<^item> \<open>Dns_Cache\<close>, \<open>Pool\<close>, \<open>Connector\<close> (\<open>proxy/dns_cache.rs\<close>, \<open>pool.rs\<close>, \<open>retry.rs\<close>, \<open>connector.rs\<close>): caches and pool stay
    bounded and serve no expired entry, a connector returns only guarded addresses, the upstream client.
  \<^item> \<open>Forwarder\<close> (\<open>proxy/forwarder.rs\<close>): bytes are forwarded in order and counted exactly; a quota is overshot by at
    most one buffer per direction.
  \<^item> \<open>Proxy_Engine\<close> (\<open>proxy/mod.rs\<close>): a checked connection passed every test and took one slot; sessions are unique.
  \<^item> \<open>App_Context\<close> (\<open>context.rs\<close>) and \<open>Socks_Handler\<close> (\<open>socks/handler.rs\<close>): the whole handshake; a relay is granted
    only to an authenticated user within policy, and a handled connection leaves no slot behind.
  \<^item> \<open>Shell_Parser\<close>, \<open>Virtual_Fs\<close>, \<open>Terminal\<close>, \<open>Shell_Commands\<close>, \<open>Shell\<close> (\<open>shell/\<close>): quoting round trips, path resolution is
    canonical and confined, the line editor never panics, permissions bind, a session is safe against any input.
  \<^item> \<open>Motd\<close> (\<open>motd.rs\<close>): templates render without re-scanning values.
  \<^item> \<open>Ssh_Handler\<close> (\<open>ssh/handler.rs\<close>, \<open>ssh/session.rs\<close>): every callback as a step; in every sequence of events a session is
    authenticated only by a proof of identity, nothing is granted before, and forwarding is authorised.

  \<^item> \<open>Config\<close>, \<open>Config_Env\<close> (\<open>config/types.rs\<close>, \<open>config/mod.rs\<close>, \<open>config/env.rs\<close>): validation is characterised, a validated
    configuration starts, a file and an environment that set nothing agree on the defaults, variables that hold
    secrets are cleared, a redacted configuration contains no secret.
  \<^item> \<open>Udp_Relay\<close> (\<open>socks/udp_relay.rs\<close>): which datagrams go where.
  \<^item> \<open>Audit_Log\<close> (\<open>audit/\<close>): every event is delivered, queued or counted as dropped; the rotated files refine an abstract log
    of which they hold the most recent part.
  \<^item> \<open>Metrics\<close> (\<open>metrics/\<close>): the number of labels is bounded. \<open>Alerting\<close> (\<open>alerting/\<close>): an evaluation fires exactly the
    rules whose condition holds and repeats none within its window. \<open>Geoip\<close> (\<open>geoip/\<close>): the country filter.
  \<^item> \<open>Webhooks\<close> (\<open>webhooks/\<close>): a delivery goes only to a target that passed the address check, with bounded retries, and
    at most a fixed number run at once.
  \<^item> \<open>Server\<close> (\<open>server.rs\<close>): a reload changes everything or nothing and drops the overrides of the environment, the loop
    that drains connections ends, maintenance windows. \<open>Listeners\<close> (\<open>socks/mod.rs\<close>, \<open>ssh/keys.rs\<close>, \<open>main.rs\<close>): the accept limit,
    the host key, the configuration built from the command line.
  \<^item> \<open>Observe_Engine\<close>, \<open>Observe_Socks\<close>, \<open>Observe_Ssh\<close> (the audit and metrics calls in \<open>security/\<close>, \<open>proxy/\<close>, \<open>socks/handler.rs\<close>
    and \<open>ssh/handler.rs\<close>): each observed operation refines the plain one, logins are audited as the client experiences
    them, a connection whose peer is known has a trail of log calls. The timeout of the SOCKS5 handshake and its TLS variant are here too.
  \<^item> \<open>System\<close> (\<open>server.rs\<close> with both handlers): the services started together and every event that reaches them. In every run
    the counted connections and the session table are exactly the live relays, and each live relay belongs to a user who
    proved to be that user; the halves into which a connection is split compose to the handlers of the source.
  \<^item> \<open>Cli\<close> (\<open>cli.rs\<close>, \<open>main.rs\<close>, \<open>auth/password.rs\<close>), \<open>Presets\<close> (\<open>config/presets.rs\<close>), \<open>Demo\<close> (\<open>demo.rs\<close>): every subcommand; the password a
    quick start prints logs in, generated passwords are unbiased, a command writes only the file it names; what the
    generated files set; the demonstration data.
  \<^item> \<open>Api_Auth\<close> (\<open>api/mod.rs\<close>, \<open>api/sse.rs\<close>), \<open>Api_Handlers\<close> (the handlers of \<open>api/\<close>), \<open>Api\<close> (the router), \<open>Pagination\<close>
    (\<open>api/pagination.rs\<close>): tickets are used once, only authenticated requests change state, a client that follows
    the cursors sees every item once. \<open>Backup\<close> (\<open>api/backup.rs\<close>, the commands in \<open>main.rs\<close>, with \<open>Ip_Text\<close> for the addresses in it): the payload
    of a backup restores what it saved, and the file that \<open>s5 backup\<close> writes is refused by \<open>s5 restore\<close>.

  \<^bold>\<open>Bounds and fuel.\<close> Model functions recurse structurally or with a measure, and no fuel is used. Three loops may run
  on in the source and are partial functions into options, where \<^const>\<open>None\<close> is the loop that does not return: the one
  that drains connections, the client that follows cursors and the draw of a random character. That they return is
  proved, for the last where the generator keeps yielding acceptable numbers. A run of the whole server is bounded by
  2^64 events where session numbers would repeat. The one-time code
  theorem covers 10000 verifications, the capacity of the replay map after which the source evicts. Where counters
  could wrap (64-bit totals, 32-bit counts) the theorems state the bound they need.

  \<^bold>\<open>Findings proved as theorems.\<close> Some theorems state what the code does where it differs from its purpose: a host
  longer than 255 bytes reaches an upstream proxy truncated; a default-deny policy is not applied behind an upstream
  proxy; the second factor may be omitted over SOCKS5 (over SSH it is enforced); the route that removes a ban never
  matches a request; a reload drops the overrides of the environment; a ticket can be used
  twice in the last second of its validity when a cleanup falls between; a web hook's name may resolve to another address after it was checked; a connection
  that ends in an error has no closing record; the file of a backup cannot be restored as it is; concurrent connections pass
  the daily quota; concurrent verifications of one code all succeed; a recording during which the second changes is lost; a rule
  with a bracketed host does not read back; a huge shutdown timeout panics; the bastion preset requires a second factor its user cannot have, so that
  the password alone is enough; a quick start saves another configuration than it runs; a user name can set other keys of
  a generated file.

  \<^bold>\<open>Not modelled.\<close> Sockets, TLS, the HTTP and JSON layers (\<open>axum\<close>, \<open>serde\<close>; the shape of the backup document excepted), TOML parsing, the parsing of command line
  arguments (\<open>clap\<close>) and the scheduling of tasks are the work of libraries: their results are arguments, and a task is the
  events it causes, in any order. The dashboard is a constant page. Log lines are left out. In \<open>System\<close> a relay charges
  the quota when it ends; the interleaving of the directions of one relay, chunk by chunk, is in \<open>Forwarder\<close>, and that of
  single atomic accesses in \<open>Conn_Slots\<close> and \<open>Quota_Race\<close>. Web hooks and alerts, which only read what the others report, are not part of the
  whole-server state.
\<close>

end
